(* ===== verification/Prelude.thy ===== *)
theory Prelude
  imports Main
begin

text \<open>
  Shared ground of the development: JavaScript string helpers, a state-and-exception
  monad in which every asynchronous handler of the program is written, and the relational
  calculus \<open>steps R m\<close> ("whatever \<open>m\<close> does to the state, the states before and after
  are related by \<open>R\<close>") with which invariants, frame conditions and history properties of
  whole handlers are proved from their primitive database operations.
\<close>

section \<open>Theorem collections\<close>

named_theorems act_simps "evaluation of monadic actions"
named_theorems steps_intros "introduction rules for the relational calculus"

section \<open>Strings\<close>

text \<open>
  A JavaScript string is a \<^typ>\<open>string\<close> of code units; the helpers below follow the
  ASCII part of \<open>toLowerCase\<close> and \<open>trim\<close>.
\<close>

definition is_upper :: "char \<Rightarrow> bool" where
  "is_upper c \<longleftrightarrow> 65 \<le> (of_char c :: nat) \<and> (of_char c :: nat) \<le> 90"

definition is_digit_char :: "char \<Rightarrow> bool" where
  "is_digit_char c \<longleftrightarrow> 48 \<le> (of_char c :: nat) \<and> (of_char c :: nat) \<le> 57"

definition lower_char :: "char \<Rightarrow> char" where
  "lower_char c = (if is_upper c then char_of ((of_char c :: nat) + 32) else c)"

definition to_lower :: "string \<Rightarrow> string" where
  "to_lower s = map lower_char s"

definition is_space :: "char \<Rightarrow> bool" where
  "is_space c \<longleftrightarrow> (let n = (of_char c :: nat) in n = 32 \<or> (9 \<le> n \<and> n \<le> 13))"

definition js_trim :: "string \<Rightarrow> string" where
  "js_trim s = rev (dropWhile is_space (rev (dropWhile is_space s)))"

lemma length_to_lower [simp]: "length (to_lower s) = length s"
  by (simp add: to_lower_def)

lemma lower_char_idem [simp]: "lower_char (lower_char c) = lower_char c"
  by (auto simp: lower_char_def is_upper_def)

lemma to_lower_idem [simp]: "to_lower (to_lower s) = to_lower s"
  by (simp add: to_lower_def)

text \<open>Decimal rendering of a natural number, as template literals print it.\<close>

fun show_nat :: "nat \<Rightarrow> string" where
  "show_nat n = (if n < 10 then [char_of (48 + n)] else show_nat (n div 10) @ [char_of (48 + n mod 10)])"

declare show_nat.simps [simp del]

definition show_int :: "int \<Rightarrow> string" where
  "show_int i = (if i < 0 then ''-'' @ show_nat (nat (- i)) else show_nat (nat i))"

fun join_with :: "string \<Rightarrow> string list \<Rightarrow> string" where
  "join_with sep [] = []"
| "join_with sep [s] = s"
| "join_with sep (s # t # ss) = s @ sep @ join_with sep (t # ss)"

section \<open>Actions: state and exceptions\<close>

text \<open>
  An action reads and writes a state of type \<open>'w\<close> and either returns or throws. The state
  survives an exception, as a database does.
\<close>

type_synonym ('w, 'e, 'a) act = "'w \<Rightarrow> ('e + 'a) \<times> 'w"

definition ret :: "'a \<Rightarrow> ('w, 'e, 'a) act" where
  "ret x = (\<lambda>w. (Inr x, w))"

definition throw :: "'e \<Rightarrow> ('w, 'e, 'a) act" where
  "throw e = (\<lambda>w. (Inl e, w))"

definition bnd :: "('w, 'e, 'a) act \<Rightarrow> ('a \<Rightarrow> ('w, 'e, 'b) act) \<Rightarrow> ('w, 'e, 'b) act" where
  "bnd m k = (\<lambda>w. case m w of (Inl e, w') \<Rightarrow> (Inl e, w') | (Inr x, w') \<Rightarrow> k x w')"

definition andthen :: "('w, 'e, 'a) act \<Rightarrow> ('w, 'e, 'b) act \<Rightarrow> ('w, 'e, 'b) act" where
  "andthen m k = bnd m (\<lambda>_. k)"

definition catch :: "('w, 'e, 'a) act \<Rightarrow> ('e \<Rightarrow> ('w, 'e, 'a) act) \<Rightarrow> ('w, 'e, 'a) act" where
  "catch m h = (\<lambda>w. case m w of (Inl e, w') \<Rightarrow> h e w' | (Inr x, w') \<Rightarrow> (Inr x, w'))"

definition gets :: "('w \<Rightarrow> 'a) \<Rightarrow> ('w, 'e, 'a) act" where
  "gets f = (\<lambda>w. (Inr (f w), w))"

definition modify :: "('w \<Rightarrow> 'w) \<Rightarrow> ('w, 'e, unit) act" where
  "modify f = (\<lambda>w. (Inr (), f w))"

text \<open>A database transaction: an exception restores the state it started from.\<close>

definition transaction :: "('w, 'e, 'a) act \<Rightarrow> ('w, 'e, 'a) act" where
  "transaction m = (\<lambda>w. case m w of (Inl e, w') \<Rightarrow> (Inl e, w) | (Inr x, w') \<Rightarrow> (Inr x, w'))"

primrec for_each :: "'x list \<Rightarrow> ('x \<Rightarrow> ('w, 'e, unit) act) \<Rightarrow> ('w, 'e, unit) act" where
  "for_each [] f = ret ()"
| "for_each (x # xs) f = andthen (f x) (for_each xs f)"

text \<open>A loop that threads a local accumulator.\<close>

primrec for_fold :: "'x list \<Rightarrow> 's \<Rightarrow> ('x \<Rightarrow> 's \<Rightarrow> ('w, 'e, 's) act) \<Rightarrow> ('w, 'e, 's) act" where
  "for_fold [] s f = ret s"
| "for_fold (x # xs) s f = bnd (f x s) (\<lambda>s'. for_fold xs s' f)"

lemma ret_app [act_simps]: "ret x w = (Inr x, w)"
  by (simp add: ret_def)

lemma throw_app [act_simps]: "throw e w = (Inl e, w)"
  by (simp add: throw_def)

lemma bnd_app [act_simps]:
  "bnd m k w = (case m w of (Inl e, w') \<Rightarrow> (Inl e, w') | (Inr x, w') \<Rightarrow> k x w')"
  by (simp add: bnd_def)

lemma andthen_app [act_simps]:
  "andthen m k w = (case m w of (Inl e, w') \<Rightarrow> (Inl e, w') | (Inr x, w') \<Rightarrow> k w')"
  by (simp add: andthen_def bnd_def)

lemma catch_app [act_simps]:
  "catch m h w = (case m w of (Inl e, w') \<Rightarrow> h e w' | (Inr x, w') \<Rightarrow> (Inr x, w'))"
  by (simp add: catch_def)

lemma gets_app [act_simps]: "gets f w = (Inr (f w), w)"
  by (simp add: gets_def)

lemma modify_app [act_simps]: "modify f w = (Inr (), f w)"
  by (simp add: modify_def)

lemma transaction_app [act_simps]:
  "transaction m w = (case m w of (Inl e, w') \<Rightarrow> (Inl e, w) | (Inr x, w') \<Rightarrow> (Inr x, w'))"
  by (simp add: transaction_def)

lemma bnd_assoc: "bnd (bnd m f) g = bnd m (\<lambda>x. bnd (f x) g)"
  by (auto simp: bnd_def fun_eq_iff split: prod.splits sum.splits)

section \<open>The relational calculus\<close>

definition steps :: "('w \<Rightarrow> 'w \<Rightarrow> bool) \<Rightarrow> ('w, 'e, 'a) act \<Rightarrow> bool" where
  "steps R m \<longleftrightarrow> (\<forall>w. R w (snd (m w)))"

lemma stepsD: "steps R m \<Longrightarrow> R w (snd (m w))"
  by (simp add: steps_def)

lemma stepsI: "(\<And>w. R w (snd (m w))) \<Longrightarrow> steps R m"
  by (simp add: steps_def)

lemma steps_run: "steps R m \<Longrightarrow> m w = (r, w') \<Longrightarrow> R w w'"
  by (auto simp: steps_def dest: spec [of _ w])

lemma steps_case_option [steps_intros]:
  "(x = None \<Longrightarrow> steps R a) \<Longrightarrow> (\<And>y. x = Some y \<Longrightarrow> steps R (b y)) \<Longrightarrow>
    steps R (case x of None \<Rightarrow> a | Some y \<Rightarrow> b y)"
  by (cases x) auto

lemma steps_case_sum [steps_intros]:
  "(\<And>y. x = Inl y \<Longrightarrow> steps R (a y)) \<Longrightarrow> (\<And>y. x = Inr y \<Longrightarrow> steps R (b y)) \<Longrightarrow>
    steps R (case x of Inl y \<Rightarrow> a y | Inr y \<Rightarrow> b y)"
  by (cases x) auto

lemma steps_case_prod [steps_intros]:
  "(\<And>y z. x = (y, z) \<Longrightarrow> steps R (f y z)) \<Longrightarrow> steps R (case x of (y, z) \<Rightarrow> f y z)"
  by (cases x) auto

lemma steps_case_list [steps_intros]:
  "(x = [] \<Longrightarrow> steps R a) \<Longrightarrow> (\<And>y ys. x = y # ys \<Longrightarrow> steps R (b y ys)) \<Longrightarrow>
    steps R (case x of [] \<Rightarrow> a | y # ys \<Rightarrow> b y ys)"
  by (cases x) auto

lemma steps_if [steps_intros]:
  "(c \<Longrightarrow> steps R a) \<Longrightarrow> (\<not> c \<Longrightarrow> steps R b) \<Longrightarrow> steps R (if c then a else b)"
  by simp

lemma steps_Let [steps_intros]: "(\<And>x. x = t \<Longrightarrow> steps R (f x)) \<Longrightarrow> steps R (let x = t in f x)"
  by simp

text \<open>
  The contract of a relation on states that handlers can be checked against: it is closed
  under doing nothing and under doing one thing after another. Every combinator of the
  monad then respects it.
\<close>

locale state_relation =
  fixes R :: "'w \<Rightarrow> 'w \<Rightarrow> bool"
  assumes R_refl: "R w w"
    and R_trans: "R u v \<Longrightarrow> R v w \<Longrightarrow> R u w"
begin

lemma steps_ret [steps_intros]: "steps R (ret x)"
  by (simp add: steps_def ret_def R_refl)

lemma steps_throw [steps_intros]: "steps R (throw e)"
  by (simp add: steps_def throw_def R_refl)

lemma steps_gets [steps_intros]: "steps R (gets f)"
  by (simp add: steps_def gets_def R_refl)

lemma steps_modify: "(\<And>w. R w (f w)) \<Longrightarrow> steps R (modify f)"
  by (simp add: steps_def modify_def)

lemma steps_bnd_result:
  assumes "steps R m" and "\<And>x w w'. m w = (Inr x, w') \<Longrightarrow> steps R (k x)"
  shows "steps R (bnd m k)"
proof (rule stepsI)
  fix w
  obtain r w' where m: "m w = (r, w')" by fastforce
  from steps_run [OF assms(1) m] have "R w w'" .
  then show "R w (snd (bnd m k w))"
    using assms(2) [of w _ w'] by (cases r) (auto simp: bnd_app m intro: R_trans dest: stepsD)
qed

lemma steps_bnd [steps_intros]: "steps R m \<Longrightarrow> (\<And>x. steps R (k x)) \<Longrightarrow> steps R (bnd m k)"
  by (rule steps_bnd_result)

lemma steps_andthen [steps_intros]: "steps R m \<Longrightarrow> steps R k \<Longrightarrow> steps R (andthen m k)"
  unfolding andthen_def by (rule steps_bnd)

lemma steps_catch [steps_intros]:
  assumes "steps R m" and "\<And>e. steps R (h e)"
  shows "steps R (catch m h)"
proof (rule stepsI)
  fix w
  obtain r w' where m: "m w = (r, w')" by fastforce
  from steps_run [OF assms(1) m] have "R w w'" .
  then show "R w (snd (catch m h w))"
    using assms(2) by (cases r) (auto simp: catch_app m intro: R_trans dest: stepsD)
qed

lemma steps_transaction [steps_intros]: "steps R m \<Longrightarrow> steps R (transaction m)"
  by (auto simp: steps_def transaction_app R_refl split: prod.splits sum.splits) (metis snd_conv)

lemma steps_for_each [steps_intros]: "(\<And>x. x \<in> set xs \<Longrightarrow> steps R (f x)) \<Longrightarrow> steps R (for_each xs f)"
  by (induction xs) (auto intro: steps_ret steps_andthen)

lemma steps_for_fold [steps_intros]:
  "(\<And>x s. x \<in> set xs \<Longrightarrow> steps R (f x s)) \<Longrightarrow> steps R (for_fold xs s f)"
  by (induction xs arbitrary: s) (auto intro: steps_ret steps_bnd)

end

section \<open>Lists\<close>

lemma map_if_id: "(\<And>x. x \<in> set xs \<Longrightarrow> \<not> P x) \<Longrightarrow> map (\<lambda>x. if P x then f x else x) xs = xs"
  by (rule map_idI) auto

lemma find_Some_mem: "find P xs = Some x \<Longrightarrow> x \<in> set xs \<and> P x"
  by (auto simp: find_Some_iff)

lemma find_None_mem: "find P xs = None \<Longrightarrow> x \<in> set xs \<Longrightarrow> \<not> P x"
  by (auto simp: find_None_iff)

lemma find_distinct: "distinct (map k xs) \<Longrightarrow> x \<in> set xs \<Longrightarrow> find (\<lambda>y. k y = k x) xs = Some x"
proof (induction xs)
  case (Cons y ys)
  then show ?case by (cases "y = x") (auto dest: image_eqI)
qed simp

lemma find_map_replaced:
  "x \<in> set xs \<Longrightarrow> k x' = k x \<Longrightarrow> find (\<lambda>y. k y = k x) (map (\<lambda>y. if k y = k x then x' else y) xs) = Some x'"
  by (induction xs) auto

lemma find_map_other:
  "i \<noteq> k x' \<Longrightarrow> find (\<lambda>y. k y = i) (map (\<lambda>y. if k y = k x' then x' else y) xs) = find (\<lambda>y. k y = i) xs"
  by (induction xs) auto

lemma find_append: "find P (xs @ ys) = (case find P xs of None \<Rightarrow> find P ys | Some x \<Rightarrow> Some x)"
  by (induction xs) auto

end
