(* ===== verification/Json.thy ===== *)
theory Json
  imports Prelude Complex_Main "HOL-Library.Monad_Syntax"
begin

text \<open>
  JSON values, as the \<open>jsonb\<close> columns, the callback bodies and the environment settings hold
  them, and the decoding combinators that stand for the zod shapes the contracts are written
  in: a decoder takes a JSON value and returns the typed value, or \<^const>\<open>None\<close> where zod
  reports issues. An object is its list of members; a repeated key does not occur
  (\<open>JSON.parse\<close> keeps one member per key).
\<close>

datatype json =
    JNull
  | JBool bool
  | JNum rat
  | JStr string
  | JArr "json list"
  | JObj "(string \<times> json) list"

text \<open>Reading a property of an unknown value, as \<open>(x as T | null)?.k\<close> does.\<close>

fun jget :: "json \<Rightarrow> string \<Rightarrow> json option" where
  "jget (JObj kvs) k = map_of kvs k"
| "jget _ k = None"

definition jget_str :: "json \<Rightarrow> string \<Rightarrow> string option" where
  "jget_str j k = (case jget j k of Some (JStr s) \<Rightarrow> Some s | _ \<Rightarrow> None)"

text \<open>An optional member of an object literal: \<open>...(x ? \<lbrace>k: x\<rbrace> : \<lbrace>\<rbrace>)\<close>.\<close>

definition fld :: "string \<Rightarrow> ('a \<Rightarrow> json) \<Rightarrow> 'a option \<Rightarrow> (string \<times> json) list" where
  "fld k f x = (case x of None \<Rightarrow> [] | Some v \<Rightarrow> [(k, f v)])"

definition jopt :: "('a \<Rightarrow> json) \<Rightarrow> 'a option \<Rightarrow> json" where
  "jopt f x = (case x of None \<Rightarrow> JNull | Some v \<Rightarrow> f v)"

section \<open>Decoders\<close>

type_synonym 'a decoder = "json \<Rightarrow> 'a option"

definition MAX_SAFE_INTEGER :: int where
  "MAX_SAFE_INTEGER = 9007199254740991"

fun d_str :: "nat \<Rightarrow> nat option \<Rightarrow> string decoder" where
  "d_str lo hi (JStr s) =
     (if lo \<le> length s \<and> (case hi of None \<Rightarrow> True | Some h \<Rightarrow> length s \<le> h) then Some s else None)"
| "d_str lo hi _ = None"

fun d_bool :: "bool decoder" where
  "d_bool (JBool b) = Some b"
| "d_bool _ = None"

fun d_int :: "int option \<Rightarrow> int decoder" where
  "d_int lo (JNum q) =
     (let i = \<lfloor>q\<rfloor> in
      if q = rat_of_int i \<and> \<bar>i\<bar> \<le> MAX_SAFE_INTEGER \<and> (case lo of None \<Rightarrow> True | Some l \<Rightarrow> l \<le> i)
      then Some i else None)"
| "d_int lo _ = None"

fun d_num_between :: "rat \<Rightarrow> rat \<Rightarrow> rat decoder" where
  "d_num_between lo hi (JNum q) = (if lo \<le> q \<and> q \<le> hi then Some q else None)"
| "d_num_between lo hi _ = None"

fun d_enum :: "(string \<times> 'a) list \<Rightarrow> 'a decoder" where
  "d_enum tbl (JStr s) = map_of tbl s"
| "d_enum tbl _ = None"

fun d_list :: "'a decoder \<Rightarrow> json list \<Rightarrow> 'a list option" where
  "d_list d [] = Some []"
| "d_list d (j # js) =
     (case d j of None \<Rightarrow> None | Some x \<Rightarrow> map_option (Cons x) (d_list d js))"

fun d_arr :: "nat \<Rightarrow> nat option \<Rightarrow> 'a decoder \<Rightarrow> 'a list decoder" where
  "d_arr lo hi d (JArr js) =
     (if lo \<le> length js \<and> (case hi of None \<Rightarrow> True | Some h \<Rightarrow> length js \<le> h)
      then d_list d js else None)"
| "d_arr lo hi d _ = None"

definition only_keys :: "string list \<Rightarrow> (string \<times> json) list \<Rightarrow> bool" where
  "only_keys ks kvs \<longleftrightarrow> list_all (\<lambda>(k, v). k \<in> set ks) kvs"

definition req :: "string \<Rightarrow> 'a decoder \<Rightarrow> (string \<times> json) list \<Rightarrow> 'a option" where
  "req k d kvs = (case map_of kvs k of None \<Rightarrow> None | Some j \<Rightarrow> d j)"

definition opt :: "string \<Rightarrow> 'a decoder \<Rightarrow> (string \<times> json) list \<Rightarrow> 'a option option" where
  "opt k d kvs = (case map_of kvs k of None \<Rightarrow> Some None | Some j \<Rightarrow> map_option Some (d j))"

section \<open>Encoding and decoding of fields\<close>

named_theorems json_simps "evaluation of decoders on encoded values"

lemma only_keys_Nil [json_simps]: "only_keys ks []"
  by (simp add: only_keys_def)

lemma only_keys_Cons [json_simps]: "only_keys ks ((k, v) # kvs) \<longleftrightarrow> k \<in> set ks \<and> only_keys ks kvs"
  by (simp add: only_keys_def)

lemma only_keys_append [json_simps]: "only_keys ks (a @ b) \<longleftrightarrow> only_keys ks a \<and> only_keys ks b"
  by (simp add: only_keys_def)

lemma only_keys_fld [json_simps]: "k \<in> set ks \<Longrightarrow> only_keys ks (fld k f x)"
  by (auto simp: only_keys_def fld_def split: option.splits)

text \<open>Decoding one optional member that was encoded from an optional value.\<close>

definition opt_enc :: "'a decoder \<Rightarrow> ('a \<Rightarrow> json) \<Rightarrow> 'a option \<Rightarrow> 'a option option" where
  "opt_enc d f x = (case x of None \<Rightarrow> Some None | Some v \<Rightarrow> map_option Some (d (f v)))"

lemma opt_encI: "(\<And>y. x = Some y \<Longrightarrow> d (f y) = Some y) \<Longrightarrow> opt_enc d f x = Some x"
  by (cases x) (auto simp: opt_enc_def)

lemma req_Cons [json_simps]: "req k d ((k', j) # kvs) = (if k' = k then d j else req k d kvs)"
  by (simp add: req_def)

lemma opt_Nil [json_simps]: "opt k d [] = Some None"
  by (simp add: opt_def)

lemma opt_Cons [json_simps]: "opt k d ((k', j) # kvs) = (if k' = k then map_option Some (d j) else opt k d kvs)"
  by (simp add: opt_def)

lemma opt_fld_other [json_simps]:
  "k' \<noteq> k \<Longrightarrow> opt k d (fld k' f x @ rest) = opt k d rest"
  "k' \<noteq> k \<Longrightarrow> opt k d (fld k' f x) = Some None"
  by (auto simp: opt_def fld_def split: option.splits)

lemma opt_fld_same [json_simps]:
  "map_of rest k = None \<Longrightarrow> opt k d (fld k f x @ rest) = opt_enc d f x"
  "opt k d (fld k f x) = opt_enc d f x"
  by (auto simp: opt_def opt_enc_def fld_def split: option.splits)

lemma map_of_fld [json_simps]:
  "k' \<noteq> k \<Longrightarrow> map_of (fld k' f x @ rest) k = map_of rest k"
  "k' \<noteq> k \<Longrightarrow> map_of (fld k' f x) k = None"
  by (auto simp: fld_def split: option.splits)

lemma d_list_map: "(\<And>x. x \<in> set xs \<Longrightarrow> d (f x) = Some x) \<Longrightarrow> d_list d (map f xs) = Some xs"
  by (induction xs) auto

lemma d_list_SomeD: "d_list d js = Some xs \<Longrightarrow> length xs = length js \<and> (\<forall>x\<in>set xs. \<exists>j\<in>set js. d j = Some x)"
  by (induction js arbitrary: xs) (fastforce split: option.splits)+

lemma d_arr_SomeD:
  "d_arr lo hi d j = Some xs \<Longrightarrow>
     lo \<le> length xs \<and> (\<forall>h. hi = Some h \<longrightarrow> length xs \<le> h) \<and> (\<forall>x\<in>set xs. \<exists>j. d j = Some x)"
  by (cases j) (auto split: if_splits option.splits dest: d_list_SomeD)

lemma d_str_SomeD:
  "d_str lo hi j = Some s \<Longrightarrow> j = JStr s \<and> lo \<le> length s \<and> (\<forall>h. hi = Some h \<longrightarrow> length s \<le> h)"
  by (cases j) (auto split: if_splits option.splits)

lemma d_int_of_int [json_simps]:
  "d_int lo (JNum (rat_of_int i)) =
     (if \<bar>i\<bar> \<le> MAX_SAFE_INTEGER \<and> (case lo of None \<Rightarrow> True | Some l \<Rightarrow> l \<le> i) then Some i else None)"
  by (simp add: Let_def)

lemma d_int_SomeD:
  "d_int lo j = Some i \<Longrightarrow> \<bar>i\<bar> \<le> MAX_SAFE_INTEGER \<and> (\<forall>l. lo = Some l \<longrightarrow> l \<le> i)"
  by (cases j) (auto simp: Let_def split: if_splits option.splits)

end
