(* ===== verification/JsValues.thy ===== *)
theory JsValues
  imports Json
begin

text \<open>
  What the ingest code uses of JavaScript's numbers and dates: \<open>Number(s)\<close> on a trimmed string
  (as \<open>js_value\<close>, \<^const>\<open>None\<close> for NaN, and as \<open>js_number\<close>, \<^const>\<open>None\<close> for whatever is not
  finite, for the callers that test \<open>Number.isFinite\<close> or \<open>Number.isInteger\<close>), the decimal rendering of a number in a
  template literal, \<open>Date.parse\<close> on the ISO 8601 forms that Jira and \<open>toISOString\<close> emit, and
  the UTC calendar (\<open>libs/jira/src/scope-jql.ts\<close>, \<open>libs/database/src/workspace-settings.ts\<close>).
  Instants are milliseconds since the epoch.
\<close>

section \<open>Numbers\<close>

definition digit_value :: "char \<Rightarrow> int" where
  "digit_value c = int (of_char c) - 48"

definition decimal :: "string \<Rightarrow> int" where
  "decimal s = foldl (\<lambda>n c. 10 * n + digit_value c) 0 s"

definition all_digits :: "string \<Rightarrow> bool" where
  "all_digits s \<longleftrightarrow> s \<noteq> [] \<and> list_all is_digit_char s"

definition radix_digit :: "char \<Rightarrow> int" where
  "radix_digit c = (let n = int (of_char (lower_char c)) in
     if is_digit_char c then digit_value c else if 97 \<le> n \<and> n \<le> 122 then n - 87 else 99)"

definition radix_value :: "int \<Rightarrow> string \<Rightarrow> rat option" where
  "radix_value b s = (if s \<noteq> [] \<and> list_all (\<lambda>c. radix_digit c < b) s
     then Some (of_int (foldl (\<lambda>n c. b * n + radix_digit c) 0 s)) else None)"

definition pow10 :: "int \<Rightarrow> rat" where
  "pow10 e = (if 0 \<le> e then 10 ^ nat e else 1 / 10 ^ nat (- e))"

text \<open>\<open>[+-]? digits [. digits] [e [+-]? digits]\<close>, as the grammar of numeric strings has it.\<close>

definition exponent :: "string \<Rightarrow> int option" where
  "exponent s = (case s of [] \<Rightarrow> Some 0
     | c # rest \<Rightarrow> if c = CHR ''e'' \<or> c = CHR ''E''
         then (case rest of
             CHR ''-'' # ds \<Rightarrow> if all_digits ds then Some (- decimal ds) else None
           | CHR ''+'' # ds \<Rightarrow> if all_digits ds then Some (decimal ds) else None
           | ds \<Rightarrow> if all_digits ds then Some (decimal ds) else None)
         else None)"

definition unsigned_number :: "string \<Rightarrow> rat option" where
  "unsigned_number s =
     (let ip = takeWhile is_digit_char s; r = dropWhile is_digit_char s;
          dot = (case r of CHR ''.'' # q \<Rightarrow> True | _ \<Rightarrow> False);
          q = (if dot then tl r else r);
          fp = (if dot then takeWhile is_digit_char q else []);
          e = (if dot then dropWhile is_digit_char q else q)
      in if ip = [] \<and> fp = [] then None
         else map_option (\<lambda>x. of_int (decimal (ip @ fp)) * pow10 (x - int (length fp))) (exponent e))"

text \<open>
  The least magnitude that rounds to an infinite double. \<open>js_value\<close> does not round: the two
  infinities are its values of at least this magnitude, the word \<open>Infinity\<close> is the least of them.
\<close>

definition DOUBLE_LIMIT :: int where
  "DOUBLE_LIMIT = (2 ^ 54 - 1) * 2 ^ 970"

definition unsigned_value :: "string \<Rightarrow> rat option" where
  "unsigned_value s = (if s = ''Infinity'' then Some (of_int DOUBLE_LIMIT) else unsigned_number s)"

definition js_value :: "string \<Rightarrow> rat option" where
  "js_value s = (case s of
     [] \<Rightarrow> Some 0
   | CHR ''+'' # r \<Rightarrow> unsigned_value r
   | CHR ''-'' # r \<Rightarrow> map_option uminus (unsigned_value r)
   | c # r \<Rightarrow>
       if c = CHR ''0'' \<and> r \<noteq> [] \<and> lower_char (hd r) = CHR ''x'' then radix_value 16 (tl r)
       else if c = CHR ''0'' \<and> r \<noteq> [] \<and> lower_char (hd r) = CHR ''o'' then radix_value 8 (tl r)
       else if c = CHR ''0'' \<and> r \<noteq> [] \<and> lower_char (hd r) = CHR ''b'' then radix_value 2 (tl r)
       else unsigned_value s)"

definition js_number :: "string \<Rightarrow> rat option" where
  "js_number s = (case js_value s of None \<Rightarrow> None
     | Some q \<Rightarrow> if \<lfloor>\<bar>q\<bar>\<rfloor> < DOUBLE_LIMIT then Some q else None)"

text \<open>A number as a template literal prints it, to 17 decimal places.\<close>

fun frac_digits :: "nat \<Rightarrow> rat \<Rightarrow> string" where
  "frac_digits 0 q = []"
| "frac_digits (Suc n) q = (if q = 0 then [] else
     char_of (48 + nat \<lfloor>10 * q\<rfloor>) # frac_digits n (10 * q - of_int \<lfloor>10 * q\<rfloor>))"

definition show_num :: "rat \<Rightarrow> string" where
  "show_num q = (if q < 0 then ''-'' else []) @ show_int \<lfloor>\<bar>q\<bar>\<rfloor> @
     (let f = \<bar>q\<bar> - of_int \<lfloor>\<bar>q\<bar>\<rfloor> in if f = 0 then [] else ''.'' @ frac_digits 17 f)"

text \<open>Reading back what \<open>String(n)\<close> wrote.\<close>

lemma digit_value_char: "n < 10 \<Longrightarrow> digit_value (char_of (48 + n)) = int n"
  by (simp add: digit_value_def)

lemma decimal_show_nat: "decimal (show_nat n) = int n"
proof (induction n rule: show_nat.induct)
  case (1 n)
  then show ?case
    by (subst show_nat.simps) (auto simp: decimal_def digit_value_char of_nat_div of_nat_mod)
qed

lemma overflow_examples:
  "js_number ''1e308'' \<noteq> None" "js_number ''-Infinity'' = None" "js_number ''1e309'' = None" "js_value ''1e309'' \<noteq> None"
  by code_simp+

section \<open>The calendar\<close>

definition days_from_civil :: "int \<Rightarrow> int \<Rightarrow> int \<Rightarrow> int" where
  "days_from_civil y m d =
     (let y' = (if m \<le> 2 then y - 1 else y);
          era = y' div 400; yoe = y' mod 400;
          doy = (153 * (if 2 < m then m - 3 else m + 9) + 2) div 5 + d - 1;
          doe = yoe * 365 + yoe div 4 - yoe div 100 + doy
      in era * 146097 + doe - 719468)"

definition civil_from_days :: "int \<Rightarrow> int \<times> int \<times> int" where
  "civil_from_days z0 =
     (let z = z0 + 719468; era = z div 146097; doe = z mod 146097;
          yoe = (doe - doe div 1460 + doe div 36524 - doe div 146096) div 365;
          doy = doe - (365 * yoe + yoe div 4 - yoe div 100);
          mp = (5 * doy + 2) div 153;
          d = doy - (153 * mp + 2) div 5 + 1;
          m = (if mp < 10 then mp + 3 else mp - 9)
      in (yoe + era * 400 + (if m \<le> 2 then 1 else 0), m, d))"

definition DAY_MS :: int where
  "DAY_MS = 86400000"

text \<open>\<open>padStart(n, '0')\<close> of a number.\<close>

definition pad :: "nat \<Rightarrow> int \<Rightarrow> string" where
  "pad n i = (let s = show_int i in replicate (n - length s) (CHR ''0'') @ s)"

definition slice :: "nat \<Rightarrow> nat \<Rightarrow> string \<Rightarrow> string" where
  "slice i n s = take n (drop i s)"

definition num_at :: "nat \<Rightarrow> nat \<Rightarrow> string \<Rightarrow> int option" where
  "num_at i n s = (let t = slice i n s in if length t = n \<and> all_digits t then Some (decimal t) else None)"

text \<open>\<open>Z\<close>, \<open>+hh:mm\<close> or \<open>+hhmm\<close>, in minutes.\<close>

definition zone :: "string \<Rightarrow> int option" where
  "zone s = (if s = ''Z'' then Some 0
     else case s of
       c # r \<Rightarrow> if c = CHR ''+'' \<or> c = CHR ''-'' then
           (let t = (if length r = 5 \<and> r ! 2 = CHR '':'' then take 2 r @ drop 3 r else r) in
            if length t = 4 \<and> all_digits t
            then Some ((if c = CHR ''-'' then -1 else 1) * (60 * decimal (take 2 t) + decimal (drop 2 t))) else None)
         else None
     | [] \<Rightarrow> None)"

definition parse_date :: "string \<Rightarrow> int option" where
  "parse_date s =
     (let rest = drop 19 s;
          frac = (case rest of CHR ''.'' # r \<Rightarrow> takeWhile is_digit_char r | _ \<Rightarrow> []);
          tail = (case rest of CHR ''.'' # r \<Rightarrow> dropWhile is_digit_char r | _ \<Rightarrow> rest)
      in case (num_at 0 4 s, num_at 5 2 s, num_at 8 2 s) of
           (Some y, Some m, Some d) \<Rightarrow> (case (num_at 11 2 s, num_at 14 2 s, num_at 17 2 s, zone tail) of
             (Some h, Some mi, Some sec, Some off) \<Rightarrow>
               if slice 4 1 s = ''-'' \<and> slice 7 1 s = ''-'' \<and> slice 10 1 s = ''T'' \<and> slice 13 1 s = '':'' \<and>
                  slice 16 1 s = '':'' \<and> 1 \<le> m \<and> m \<le> 12 \<and> 1 \<le> d \<and> d \<le> 31 \<and> h \<le> 23 \<and> mi \<le> 59 \<and> sec \<le> 59 \<and>
                  (rest \<noteq> [] \<and> hd rest = CHR ''.'' \<longrightarrow> frac \<noteq> [])
               then Some (days_from_civil y m d * DAY_MS + ((h * 60 + mi - off) * 60 + sec) * 1000 +
                      decimal (take 3 (frac @ ''000'')))
               else None
           | _ \<Rightarrow> None)
         | _ \<Rightarrow> None)"

definition to_iso_string :: "int \<Rightarrow> string" where
  "to_iso_string t =
     (case civil_from_days (t div DAY_MS) of (y, m, d) \<Rightarrow>
        let r = t mod DAY_MS in
        pad 4 y @ ''-'' @ pad 2 m @ ''-'' @ pad 2 d @ ''T'' @ pad 2 (r div 3600000) @ '':'' @
        pad 2 (r div 60000 mod 60) @ '':'' @ pad 2 (r div 1000 mod 60) @ ''.'' @ pad 3 (r mod 1000) @ ''Z'')"

section \<open>The poll bound\<close>

definition HWM_OVERLAP_MS :: int where
  "HWM_OVERLAP_MS = 26 * 60 * 60000"

definition jql_minute :: "int \<Rightarrow> string" where
  "jql_minute t =
     (case civil_from_days (t div DAY_MS) of (y, m, d) \<Rightarrow>
        let r = t mod DAY_MS in
        show_int y @ ''-'' @ pad 2 m @ ''-'' @ pad 2 d @ '' '' @ pad 2 (r div 3600000) @ '':'' @ pad 2 (r div 60000 mod 60))"

definition since_clause :: "string option \<Rightarrow> string option" where
  "since_clause hwm = (case hwm of None \<Rightarrow> None
     | Some s \<Rightarrow> if s = [] then None
         else Some (case parse_date s of None \<Rightarrow> ''NaN-NaN-NaN NaN:NaN''
           | Some t \<Rightarrow> jql_minute (t - HWM_OVERLAP_MS)))"

lemma calendar_examples:
  "civil_from_days 0 = (1970, 1, 1) \<and> civil_from_days 20646 = (2026, 7, 12) \<and> days_from_civil 2024 2 29 = 19782 \<and>
   since_clause (Some ''2026-07-12T14:03:21.123+0300'') = Some ''2026-07-11 09:03'' \<and>
   map_option to_iso_string (parse_date ''2026-07-12T14:03:21.123+0300'') = Some ''2026-07-12T11:03:21.123Z''"
  by code_simp

end
