(* ===== verification/AgentKeys.thy ===== *)
theory AgentKeys
  imports JsValues
begin

text \<open>
  Agent handles and the agent linter (\<open>packages/contracts/src/agent-key.ts\<close> and
  \<open>agent-linter.ts\<close>): the slug rule, the search for a free key, which loops without a bound in
  the code and is shown to end here, and the rules an agent's statuses and trigger must satisfy.
\<close>

section \<open>Keys\<close>

definition ORCHESTRATOR_AGENT_KEY :: string where
  "ORCHESTRATOR_AGENT_KEY = ''brigadir''"

definition RESERVED_AGENT_KEYS :: "string list" where
  "RESERVED_AGENT_KEYS = [ORCHESTRATOR_AGENT_KEY]"

definition slug_char :: "char \<Rightarrow> bool" where
  "slug_char c \<longleftrightarrow> is_digit_char c \<or> (97 \<le> (of_char c :: nat) \<and> (of_char c :: nat) \<le> 122)"

text \<open>\<open>replace(/[^a-z0-9]+/g, '-')\<close>: each maximal run of other characters becomes one dash.\<close>

function dash_runs :: "string \<Rightarrow> string" where
  "dash_runs [] = []"
| "dash_runs (c # cs) =
     (if slug_char c then c # dash_runs cs else CHR ''-'' # dash_runs (dropWhile (\<lambda>d. \<not> slug_char d) cs))"
  by pat_completeness auto
termination
  by (relation "measure length") (auto simp: length_dropWhile_le le_imp_less_Suc)

text \<open>\<open>replace(/^-+|-+$/g, '')\<close>.\<close>

definition trim_dashes :: "string \<Rightarrow> string" where
  "trim_dashes s = rev (dropWhile (\<lambda>c. c = CHR ''-'') (rev (dropWhile (\<lambda>c. c = CHR ''-'') s)))"

definition raw_slug :: "string \<Rightarrow> string" where
  "raw_slug s = trim_dashes (dash_runs (to_lower s))"

definition slugify_agent_key :: "string \<Rightarrow> string option \<Rightarrow> string" where
  "slugify_agent_key name role =
     (let r = (case role of None \<Rightarrow> [] | Some x \<Rightarrow> x);
          combined = raw_slug (name @ '' '' @ r); role_only = raw_slug r
      in if combined \<noteq> [] then combined else if role_only \<noteq> [] then role_only else ''agent'')"

definition is_free :: "string list \<Rightarrow> string \<Rightarrow> bool" where
  "is_free taken k \<longleftrightarrow> k \<notin> set taken \<and> k \<notin> set RESERVED_AGENT_KEYS"

definition suffixed :: "string \<Rightarrow> nat \<Rightarrow> string" where
  "suffixed base i = base @ ''-'' @ show_nat i"

partial_function (option) suffix_loop :: "string \<Rightarrow> string list \<Rightarrow> nat \<Rightarrow> string option" where
  "suffix_loop base taken i =
     (if is_free taken (suffixed base i) then Some (suffixed base i) else suffix_loop base taken (Suc i))"

declare suffix_loop.simps [code]

definition ensure_unique_agent_key :: "string \<Rightarrow> string list \<Rightarrow> string option" where
  "ensure_unique_agent_key base taken = (if is_free taken base then Some base else suffix_loop base taken 2)"

section \<open>The linter\<close>

record lintable =
  la_id :: "string option"
  la_name :: string
  la_trigger_status :: "string option"
  la_trigger_jql :: "string option"
  la_status_running :: "string option"
  la_status_success :: string
  la_status_failure :: string
  la_enabled :: "bool option"

datatype lint_code = Status_absent | Duplicate_trigger | Status_cycle

record lint_issue =
  ls_path :: string
  ls_code :: lint_code
  ls_message :: string
  ls_value :: string

definition normalize_jql :: "string option \<Rightarrow> string option" where
  "normalize_jql j = (let v = js_trim (case j of None \<Rightarrow> [] | Some s \<Rightarrow> s) in if v = [] then None else Some v)"

definition status_fields :: "lintable \<Rightarrow> (string \<times> string option) list" where
  "status_fields a = [(''trigger_status'', la_trigger_status a), (''status_running'', la_status_running a),
     (''status_success'', Some (la_status_success a)), (''status_failure'', Some (la_status_failure a))]"

definition absent_issue :: "string list \<Rightarrow> string \<times> string option \<Rightarrow> lint_issue list" where
  "absent_issue board = (\<lambda>(p, v). case v of None \<Rightarrow> []
     | Some n \<Rightarrow> if n = [] \<or> n \<in> set board then []
         else [\<lparr>ls_path = p, ls_code = Status_absent,
                ls_message = ''\"'' @ n @ ''\" is not a status on this board.'', ls_value = n\<rparr>])"

definition other_enabled :: "lintable \<Rightarrow> lintable \<Rightarrow> bool" where
  "other_enabled cand a \<longleftrightarrow> la_enabled a \<noteq> Some False \<and> \<not> (la_id cand \<noteq> None \<and> la_id a = la_id cand)"

definition same_trigger :: "lintable \<Rightarrow> string \<Rightarrow> lintable \<Rightarrow> bool" where
  "same_trigger cand t a \<longleftrightarrow> la_trigger_status a = Some t \<and> normalize_jql (la_trigger_jql a) = normalize_jql (la_trigger_jql cand)"

definition closes_cycle :: "lintable \<Rightarrow> string \<Rightarrow> lintable \<Rightarrow> bool" where
  "closes_cycle cand t b \<longleftrightarrow> la_trigger_status b = Some (la_status_success cand) \<and> la_status_success b = t"

text \<open>The errors and the warnings.\<close>

definition lint_agent :: "lintable \<Rightarrow> lintable list \<Rightarrow> string list \<Rightarrow> lint_issue list \<times> lint_issue list" where
  "lint_agent cand agents board =
     (let absent = concat (map (absent_issue board) (status_fields cand));
          others = filter (other_enabled cand) agents
      in case la_trigger_status cand of
           None \<Rightarrow> (absent, [])
         | Some t \<Rightarrow> if t = [] then (absent, []) else
             (absent @ (case find (same_trigger cand t) others of None \<Rightarrow> []
                | Some a \<Rightarrow> [\<lparr>ls_path = ''trigger_status'', ls_code = Duplicate_trigger,
                    ls_message = ''Another enabled agent (\"'' @ la_name a @ ''\") already triggers on \"'' @ t
                      @ ''\" with the same JQL scope.'', ls_value = t\<rparr>]),
              case find (closes_cycle cand t) others of None \<Rightarrow> []
                | Some b \<Rightarrow> [\<lparr>ls_path = ''status_success'', ls_code = Status_cycle,
                    ls_message = ''This may form a status cycle with agent \"'' @ la_name b @ ''\".'',
                    ls_value = la_status_success cand\<rparr>]))"

section \<open>Slugs\<close>

lemma dash_runs_chars: "c \<in> set (dash_runs s) \<Longrightarrow> slug_char c \<or> c = CHR ''-''"
  by (induction s rule: dash_runs.induct) (auto split: if_splits)

lemma not_slug_dash [simp]: "\<not> slug_char (CHR ''-'')"
  by code_simp

text \<open>What a key looks like: slug characters and dashes, no dash at an end, no two in a row.\<close>

definition key_shape :: "string \<Rightarrow> bool" where
  "key_shape s \<longleftrightarrow> list_all (\<lambda>c. slug_char c \<or> c = CHR ''-'') s \<and>
     successively (\<lambda>a b. \<not> (a = CHR ''-'' \<and> b = CHR ''-'')) s \<and> s \<noteq> [] \<and> hd s \<noteq> CHR ''-'' \<and> last s \<noteq> CHR ''-''"

lemma dash_runs_hd: "s = [] \<or> slug_char (hd s) \<Longrightarrow> dash_runs s = [] \<or> hd (dash_runs s) \<noteq> CHR ''-''"
  by (cases s) auto

lemma dash_runs_separated: "successively (\<lambda>a b. \<not> (a = CHR ''-'' \<and> b = CHR ''-'')) (dash_runs s)"
proof (induction s rule: dash_runs.induct)
  case (2 c cs)
  let ?rest = "dropWhile (\<lambda>d. \<not> slug_char d) cs"
  have "dash_runs ?rest = [] \<or> hd (dash_runs ?rest) \<noteq> CHR ''-''"
    by (rule dash_runs_hd) (use hd_dropWhile [of "\<lambda>d. \<not> slug_char d" cs] in auto)
  then show ?case using 2 by (auto simp: successively_Cons)
qed simp

lemma drop_back: "(xs :: 'a list) = rev (dropWhile P (rev xs)) @ rev (takeWhile P (rev xs))"
  unfolding rev_append [symmetric] takeWhile_dropWhile_id by simp

lemma trim_dashes_split: "\<exists>a b. s = a @ trim_dashes s @ b"
proof (intro exI)
  let ?d = "\<lambda>c. c = CHR ''-''" and ?u = "dropWhile (\<lambda>c. c = CHR ''-'') s"
  show "s = takeWhile ?d s @ trim_dashes s @ rev (takeWhile ?d (rev ?u))"
    unfolding trim_dashes_def drop_back [of ?u ?d, symmetric] by (rule takeWhile_dropWhile_id [symmetric])
qed

lemma trim_dashes_ends:
  assumes "trim_dashes s \<noteq> []"
  shows "hd (trim_dashes s) \<noteq> CHR ''-''" and "last (trim_dashes s) \<noteq> CHR ''-''"
proof -
  let ?d = "\<lambda>c. c = CHR ''-''" and ?u = "dropWhile (\<lambda>c. c = CHR ''-'') s"
  have "?u = trim_dashes s @ rev (takeWhile ?d (rev ?u))"
    unfolding trim_dashes_def by (rule drop_back)
  then obtain b where u: "?u = trim_dashes s @ b" by blast
  then have ne: "?u \<noteq> []" using assms by simp
  from u assms have "hd ?u = hd (trim_dashes s)" by (metis hd_append2)
  moreover have "hd ?u \<noteq> CHR ''-''" using hd_dropWhile [OF ne] .
  ultimately show "hd (trim_dashes s) \<noteq> CHR ''-''" by metis
  have "dropWhile ?d (rev ?u) \<noteq> []" using assms by (simp add: trim_dashes_def)
  then show "last (trim_dashes s) \<noteq> CHR ''-''"
    using hd_dropWhile [of ?d "rev ?u"] by (simp add: trim_dashes_def last_rev)
qed

lemma raw_slug_shape: "raw_slug s \<noteq> [] \<Longrightarrow> key_shape (raw_slug s)"
proof -
  assume ne: "raw_slug s \<noteq> []"
  obtain a b where ab: "dash_runs (to_lower s) = a @ raw_slug s @ b"
    unfolding raw_slug_def using trim_dashes_split by blast
  have "successively (\<lambda>a b. \<not> (a = CHR ''-'' \<and> b = CHR ''-'')) (raw_slug s)"
    using dash_runs_separated [of "to_lower s"] unfolding ab by (simp add: successively_append_iff)
  moreover have "list_all (\<lambda>c. slug_char c \<or> c = CHR ''-'') (raw_slug s)"
    using dash_runs_chars [of _ "to_lower s"] unfolding ab list_all_iff by auto
  ultimately show ?thesis
    using ne trim_dashes_ends [of "dash_runs (to_lower s)"] unfolding key_shape_def raw_slug_def by blast
qed

section \<open>The search for a free key\<close>

lemma suffixed_inject [simp]: "suffixed base i = suffixed base j \<longleftrightarrow> i = j"
  unfolding suffixed_def using decimal_show_nat by (metis append_same_eq of_nat_eq_iff same_append_eq)

lemma free_suffix_exists: "\<exists>i. n \<le> i \<and> is_free taken (suffixed base i)"
proof (rule ccontr)
  assume "\<nexists>i. n \<le> i \<and> is_free taken (suffixed base i)"
  then have "suffixed base ` {n..} \<subseteq> set taken \<union> set RESERVED_AGENT_KEYS" by (auto simp: is_free_def)
  then have "finite (suffixed base ` {n..})" by (rule finite_subset) simp
  then show False using finite_image_iff [of "suffixed base" "{n..}"] by (simp add: inj_on_def infinite_Ici)
qed

lemma suffix_loop_finds:
  "is_free taken (suffixed base m) \<Longrightarrow> (\<And>j. n \<le> j \<Longrightarrow> j < m \<Longrightarrow> \<not> is_free taken (suffixed base j)) \<Longrightarrow> n \<le> m \<Longrightarrow>
    suffix_loop base taken n = Some (suffixed base m)"
proof (induction "m - n" arbitrary: n)
  case 0
  then show ?case by (simp add: suffix_loop.simps [of base taken n])
next
  case (Suc d)
  then have "suffix_loop base taken (Suc n) = Some (suffixed base m)" by simp
  moreover have "\<not> is_free taken (suffixed base n)" using Suc by simp
  ultimately show ?case by (simp add: suffix_loop.simps [of base taken n])
qed

lemma suffix_loop_least:
  "\<exists>m\<ge>n. is_free taken (suffixed base m) \<and> suffix_loop base taken n = Some (suffixed base m) \<and>
     (\<forall>j. n \<le> j \<and> j < m \<longrightarrow> \<not> is_free taken (suffixed base j))"
proof -
  let ?P = "\<lambda>i. n \<le> i \<and> is_free taken (suffixed base i)"
  have "?P (LEAST i. ?P i)" using free_suffix_exists by (rule LeastI_ex)
  moreover have "\<not> is_free taken (suffixed base j)" if "n \<le> j" "j < (LEAST i. ?P i)" for j
    using not_less_Least [OF that(2)] that(1) by blast
  ultimately show ?thesis using suffix_loop_finds by blast
qed

lemma ensure_unique_total: "\<exists>k. ensure_unique_agent_key base taken = Some k \<and> is_free taken k"
  unfolding ensure_unique_agent_key_def using suffix_loop_least [of 2 taken base] by auto

section \<open>Properties\<close>

text \<open>
  Keys are well-shaped and never empty: whatever name and role the model proposes, the slug
  has only lower-case letters, digits and single inner dashes.
\<close>

theorem slug_well_shaped: "key_shape (slugify_agent_key name role)"
proof -
  have "key_shape ''agent''" by code_simp
  then show ?thesis unfolding slugify_agent_key_def Let_def using raw_slug_shape by (simp split: if_split)
qed

text \<open>
  The unbounded search for a free key always ends, with a key nobody holds and that is not
  the orchestrator's: the base itself when it is free, otherwise its least free suffix from 2 on.
\<close>

theorem unique_key_found:
  "\<exists>k. ensure_unique_agent_key base taken = Some k \<and> k \<notin> set taken \<and> k \<noteq> ORCHESTRATOR_AGENT_KEY \<and>
     (if is_free taken base then k = base
      else \<exists>i. 2 \<le> i \<and> k = suffixed base i \<and> {j. 2 \<le> j \<and> j < i \<and> is_free taken (suffixed base j)} = {})"
proof (cases "is_free taken base")
  case True
  then show ?thesis by (auto simp: ensure_unique_agent_key_def is_free_def RESERVED_AGENT_KEYS_def)
next
  case False
  obtain m where "2 \<le> m" "is_free taken (suffixed base m)" "suffix_loop base taken 2 = Some (suffixed base m)"
    "\<forall>j. 2 \<le> j \<and> j < m \<longrightarrow> \<not> is_free taken (suffixed base j)" using suffix_loop_least by blast
  with False show ?thesis
    by (intro exI [of _ "suffixed base m"]) (auto simp: ensure_unique_agent_key_def is_free_def RESERVED_AGENT_KEYS_def)
qed

text \<open>
  The linter passes exactly the agents that fit the board: no error is reported if and only
  if every status the agent names is on the board and no other enabled agent triggers on the same
  status with the same (or equally absent) JQL.
\<close>

theorem lint_ok_iff:
  "fst (lint_agent cand agents board) = [] \<longleftrightarrow>
     (\<forall>p n. (p, Some n) \<in> set (status_fields cand) \<and> n \<noteq> [] \<longrightarrow> n \<in> set board) \<and>
     (\<forall>a\<in>set agents. \<forall>t. other_enabled cand a \<and> la_trigger_status cand = Some t \<and> t \<noteq> [] \<longrightarrow> \<not> same_trigger cand t a)"
proof -
  have absent: "(\<forall>x\<in>set xs. absent_issue board x = []) \<longleftrightarrow>
      (\<forall>p n. (p, Some n) \<in> set xs \<and> n \<noteq> [] \<longrightarrow> n \<in> set board)" for xs
    by (auto simp: absent_issue_def split: option.splits if_splits)
  have dup: "find (same_trigger cand t) (filter (other_enabled cand) agents) = None \<longleftrightarrow>
      (\<forall>a\<in>set agents. other_enabled cand a \<longrightarrow> \<not> same_trigger cand t a)" for t
    by (auto simp: find_None_iff)
  show ?thesis
  proof (cases "la_trigger_status cand")
    case None
    then show ?thesis by (simp add: lint_agent_def Let_def absent)
  next
    case (Some t)
    then show ?thesis
      by (cases "t = []") (auto simp: lint_agent_def Let_def absent dup [THEN iffD1] dup [of t] split: option.split dest: find_Some_mem)
  qed
qed

theorem lint_ok_iff_witness:
  "fst (lint_agent \<lparr>la_id = None, la_name = ''Dev'', la_trigger_status = Some ''To Do'', la_trigger_jql = None,
     la_status_running = None, la_status_success = ''Review'', la_status_failure = ''To Do'', la_enabled = Some True\<rparr>
     [\<lparr>la_id = Some ''a'', la_name = ''Old'', la_trigger_status = Some ''To Do'', la_trigger_jql = Some ''x = 1'',
       la_status_running = None, la_status_success = ''Done'', la_status_failure = ''To Do'', la_enabled = None\<rparr>]
     [''To Do'', ''Review'']) = []"
  unfolding lint_ok_iff
  by (auto simp: status_fields_def same_trigger_def normalize_jql_def Let_def js_trim_def is_space_def)

end
