(* ===== verification/JsonText.thy ===== *)
theory JsonText
  imports JsValues
begin

text \<open>
  \<open>JSON.parse\<close> and \<open>JSON.stringify\<close>, which the callback headers, the environment settings and
  the durable outbox files go through. Numbers are exact; strings hold code units below 256,
  so an escape above that range is outside the model and makes the parser fail. Lemma: a value
  written with \<open>stringify\<close> is read back unchanged.
\<close>

section \<open>Parsing\<close>

definition json_ws :: "char \<Rightarrow> bool" where
  "json_ws c \<longleftrightarrow> c = CHR '' '' \<or> c = CHR 0x09 \<or> c = CHR 0x0A \<or> c = CHR 0x0D"

definition skip_ws :: "string \<Rightarrow> string" where
  "skip_ws s = dropWhile json_ws s"

definition simple_escape :: "char \<Rightarrow> char option" where
  "simple_escape c = map_of [(CHR 0x22, CHR 0x22), (CHR 0x5C, CHR 0x5C), (CHR ''/'', CHR ''/''), (CHR ''b'', CHR 0x08),
     (CHR ''f'', CHR 0x0C), (CHR ''n'', CHR 0x0A), (CHR ''r'', CHR 0x0D), (CHR ''t'', CHR 0x09)] c"

definition hex_code :: "string \<Rightarrow> char option" where
  "hex_code s = (if list_all (\<lambda>c. radix_digit c < 16) s
     then let n = foldl (\<lambda>n c. 16 * n + radix_digit c) 0 s in if n < 256 then Some (char_of (nat n)) else None
     else None)"

text \<open>The rest of a string literal after its opening quote.\<close>

fun p_string :: "string \<Rightarrow> (string \<times> string) option" where
  "p_string [] = None"
| "p_string (c # r) =
     (if c = CHR 0x22 then Some ([], r)
      else if c = CHR 0x5C then
        (case r of [] \<Rightarrow> None
         | e # r1 \<Rightarrow> if e = CHR ''u'' then
               (case r1 of h1 # h2 # h3 # h4 # r2 \<Rightarrow>
                   (case hex_code [h1, h2, h3, h4] of None \<Rightarrow> None
                    | Some x \<Rightarrow> map_option (\<lambda>(s, t). (x # s, t)) (p_string r2))
                | _ \<Rightarrow> None)
             else (case simple_escape e of None \<Rightarrow> None
                   | Some x \<Rightarrow> map_option (\<lambda>(s, t). (x # s, t)) (p_string r1)))
      else if (of_char c :: nat) < 32 then None
      else map_option (\<lambda>(s, t). (c # s, t)) (p_string r))"

definition p_int_part :: "string \<Rightarrow> (string \<times> string) option" where
  "p_int_part s = (let ip = takeWhile is_digit_char s in
     if ip = [] \<or> (hd ip = CHR ''0'' \<and> tl ip \<noteq> []) then None else Some (ip, dropWhile is_digit_char s))"

definition p_fraction :: "string \<Rightarrow> (string \<times> string) option" where
  "p_fraction s = (case s of CHR ''.'' # r \<Rightarrow>
       (let fp = takeWhile is_digit_char r in if fp = [] then None else Some (fp, dropWhile is_digit_char r))
     | _ \<Rightarrow> Some ([], s))"

definition p_exponent :: "string \<Rightarrow> (int \<times> string) option" where
  "p_exponent s = (case s of [] \<Rightarrow> Some (0, []) | c # r \<Rightarrow>
     if c = CHR ''e'' \<or> c = CHR ''E'' then
       (let neg = (r \<noteq> [] \<and> hd r = CHR ''-''); t = (if r \<noteq> [] \<and> (hd r = CHR ''-'' \<or> hd r = CHR ''+'') then tl r else r);
            ds = takeWhile is_digit_char t
        in if ds = [] then None else Some (if neg then - decimal ds else decimal ds, dropWhile is_digit_char t))
     else Some (0, s))"

definition p_number :: "string \<Rightarrow> (json \<times> string) option" where
  "p_number s =
     (let neg = (s \<noteq> [] \<and> hd s = CHR ''-'') in do {
        (ip, r1) \<leftarrow> p_int_part (if neg then tl s else s);
        (fp, r2) \<leftarrow> p_fraction r1;
        (e, r3) \<leftarrow> p_exponent r2;
        let q = of_int (decimal (ip @ fp)) * pow10 (e - int (length fp));
        Some (JNum (if neg then - q else q), r3)
      })"

text \<open>A later member of the same name replaces the value of the earlier one.\<close>

fun put_member :: "string \<Rightarrow> json \<Rightarrow> (string \<times> json) list \<Rightarrow> (string \<times> json) list" where
  "put_member k v [] = [(k, v)]"
| "put_member k v ((k', v') # kvs) = (if k' = k then (k, v) # kvs else (k', v') # put_member k v kvs)"

definition p_word :: "string \<Rightarrow> json \<Rightarrow> string \<Rightarrow> (json \<times> string) option" where
  "p_word word j s = (if take (length word) s = word then Some (j, drop (length word) s) else None)"

text \<open>Fuel bounds the nesting and the number of elements read; the text's length is enough.\<close>

fun p_value :: "nat \<Rightarrow> string \<Rightarrow> (json \<times> string) option"
  and p_elems :: "nat \<Rightarrow> string \<Rightarrow> (json list \<times> string) option"
  and p_members :: "nat \<Rightarrow> (string \<times> json) list \<Rightarrow> string \<Rightarrow> (json \<times> string) option" where
  "p_value 0 s = None"
| "p_value (Suc n) s =
     (case s of [] \<Rightarrow> None
      | c # r \<Rightarrow>
          if c = CHR ''{'' then
            (let t = skip_ws r in if t \<noteq> [] \<and> hd t = CHR ''}'' then Some (JObj [], tl t) else p_members n [] t)
          else if c = CHR ''['' then
            (let t = skip_ws r in if t \<noteq> [] \<and> hd t = CHR '']'' then Some (JArr [], tl t)
             else map_option (\<lambda>(js, u). (JArr js, u)) (p_elems n t))
          else if c = CHR 0x22 then map_option (\<lambda>(x, t). (JStr x, t)) (p_string r)
          else if c = CHR ''t'' then p_word ''true'' (JBool True) s
          else if c = CHR ''f'' then p_word ''false'' (JBool False) s
          else if c = CHR ''n'' then p_word ''null'' JNull s
          else p_number s)"
| "p_elems 0 s = None"
| "p_elems (Suc n) s =
     (case p_value n s of None \<Rightarrow> None
      | Some (j, r) \<Rightarrow>
          (case skip_ws r of [] \<Rightarrow> None
           | c # t \<Rightarrow>
               if c = CHR '','' then map_option (\<lambda>(js, u). (j # js, u)) (p_elems n (skip_ws t))
               else if c = CHR '']'' then Some ([j], t) else None))"
| "p_members 0 acc s = None"
| "p_members (Suc n) acc s =
     (if s = [] \<or> hd s \<noteq> CHR 0x22 then None
      else case p_string (tl s) of None \<Rightarrow> None
      | Some (k, r1) \<Rightarrow>
          (let r2 = skip_ws r1 in if r2 = [] \<or> hd r2 \<noteq> CHR '':'' then None
           else case p_value n (skip_ws (tl r2)) of None \<Rightarrow> None
           | Some (v, r3) \<Rightarrow>
               (case skip_ws r3 of [] \<Rightarrow> None
                | c # t \<Rightarrow>
                    if c = CHR '','' then p_members n (put_member k v acc) (skip_ws t)
                    else if c = CHR ''}'' then Some (JObj (put_member k v acc), t) else None)))"

definition json_parse :: "string \<Rightarrow> json option" where
  "json_parse s = (case p_value (Suc (length s)) (skip_ws s) of None \<Rightarrow> None
     | Some (j, r) \<Rightarrow> if skip_ws r = [] then Some j else None)"

section \<open>Writing\<close>

definition hex_digit :: "nat \<Rightarrow> char" where
  "hex_digit n = (if n < 10 then char_of (48 + n) else char_of (87 + n))"

definition escape_char :: "char \<Rightarrow> string" where
  "escape_char c = (let n = (of_char c :: nat) in
     if c = CHR 0x22 \<or> c = CHR 0x5C then [CHR 0x5C, c]
     else if c = CHR 0x08 then [CHR 0x5C, CHR ''b''] else if c = CHR 0x0C then [CHR 0x5C, CHR ''f'']
     else if c = CHR 0x0A then [CHR 0x5C, CHR ''n''] else if c = CHR 0x0D then [CHR 0x5C, CHR ''r'']
     else if c = CHR 0x09 then [CHR 0x5C, CHR ''t'']
     else if n < 32 then [CHR 0x5C, CHR ''u'', CHR ''0'', CHR ''0'', hex_digit (n div 16), hex_digit (n mod 16)]
     else [c])"

definition quote :: "string \<Rightarrow> string" where
  "quote s = [CHR 0x22] @ concat (map escape_char s) @ [CHR 0x22]"

fun json_stringify :: "json \<Rightarrow> string" where
  "json_stringify JNull = ''null''"
| "json_stringify (JBool b) = (if b then ''true'' else ''false'')"
| "json_stringify (JNum q) = show_num q"
| "json_stringify (JStr s) = quote s"
| "json_stringify (JArr js) = ''['' @ join_with '','' (map json_stringify js) @ '']''"
| "json_stringify (JObj kvs) =
     ''{'' @ join_with '','' (map (\<lambda>(k, v). quote k @ '':'' @ json_stringify v) kvs) @ ''}''"

lemma json_examples:
  "json_parse ''{ \"a\" : [1, -2.5e1, true], \"b\":null}'' =
     Some (JObj [(''a'', JArr [JNum 1, JNum (- 25), JBool True]), (''b'', JNull)]) \<and>
   json_parse ''{\"a\":1,}'' = None \<and> json_parse ''[01]'' = None \<and> json_parse '''' = None"
  by code_simp

section \<open>The round trip\<close>

text \<open>
  Plain values: integral numbers and one member per name, which is what reports, events and
  outbox envelopes consist of.
\<close>

fun json_plain :: "json \<Rightarrow> bool" where
  "json_plain (JNum q) = (q = of_int \<lfloor>q\<rfloor>)"
| "json_plain (JArr js) = (\<forall>j\<in>set js. json_plain j)"
| "json_plain (JObj kvs) = (distinct (map fst kvs) \<and> (\<forall>kv\<in>set kvs. json_plain (snd kv)))"
| "json_plain _ = True"

text \<open>What may follow a value in a text.\<close>

definition delim :: "string \<Rightarrow> bool" where
  "delim r \<longleftrightarrow> r = [] \<or> hd r \<in> set '',]}''"

lemma delim_simps [simp]:
  "delim []" "delim (CHR '','' # r)" "delim (CHR '']'' # r)" "delim (CHR ''}'' # r)"
  by (simp_all add: delim_def)

lemma of_char_char_of: "n < 256 \<Longrightarrow> (of_char (char_of n :: char) :: nat) = n"
  by simp

lemma radix_digit_hex: "n < 16 \<Longrightarrow> radix_digit (hex_digit n) = int n"
proof -
  assume "n < 16"
  show ?thesis
  proof (cases "n < 10")
    case False
    then obtain m where m: "n = 10 + m" using le_Suc_ex not_less by blast
    with \<open>n < 16\<close> have "m < 6" by simp
    then show ?thesis unfolding m
      by (simp add: hex_digit_def radix_digit_def is_digit_char_def lower_char_def is_upper_def Let_def)
  qed (simp add: hex_digit_def radix_digit_def is_digit_char_def digit_value_def)
qed

lemma hex_code_escape:
  "n < 256 \<Longrightarrow> hex_code [CHR ''0'', CHR ''0'', hex_digit (n div 16), hex_digit (n mod 16)] = Some (char_of n)"
proof -
  assume n: "n < 256"
  then have d: "n div 16 < 16" by simp
  have z: "radix_digit (CHR ''0'') = 0" by (simp add: radix_digit_def is_digit_char_def digit_value_def)
  have "16 * int (n div 16) + int (n mod 16) = int n"
    by (metis mult_div_mod_eq of_nat_add of_nat_mult of_nat_numeral)
  then show ?thesis
    using n d by (simp add: hex_code_def z radix_digit_hex Let_def)
qed

lemma p_string_escape: "p_string (escape_char c @ r) = map_option (\<lambda>(s, t). (c # s, t)) (p_string r)"
proof -
  have u: "(of_char c :: nat) < 32 \<Longrightarrow> p_string (CHR 0x5C # CHR ''u'' # CHR ''0'' # CHR ''0'' #
      hex_digit (of_char c div 16) # hex_digit (of_char c mod 16) # r) = map_option (\<lambda>(s, t). (c # s, t)) (p_string r)"
    using hex_code_escape [of "of_char c"] by simp
  then show ?thesis
    by (auto simp: escape_char_def simple_escape_def Let_def)
qed

lemma p_string_escaped: "p_string (concat (map escape_char s) @ CHR 0x22 # r) = Some (s, r)"
  by (induction s) (simp_all add: p_string_escape)

lemma quote_eq: "quote s = CHR 0x22 # concat (map escape_char s) @ [CHR 0x22]"
  by (simp add: quote_def)

lemma show_nat_rec: "show_nat n = (if n < 10 then [char_of (48 + n)] else show_nat (n div 10) @ [char_of (48 + n mod 10)])"
  by (rule show_nat.simps)

lemma digit_char: "(n::nat) < 10 \<Longrightarrow> is_digit_char (char_of (48 + n))"
  by (simp add: is_digit_char_def)

lemma show_nat_digits: "list_all is_digit_char (show_nat n)"
proof (induction n rule: show_nat.induct)
  case (1 n)
  then show ?case by (subst show_nat_rec) (auto simp: digit_char)
qed

lemma show_nat_nonempty: "show_nat n \<noteq> []"
  by (subst show_nat_rec) simp

lemma show_nat_no_zero: "0 < n \<Longrightarrow> hd (show_nat n) \<noteq> CHR ''0''"
proof (induction n rule: show_nat.induct)
  case (1 n)
  have "char_of (48 + n) \<noteq> CHR ''0''" if "n < 10"
  proof
    assume "char_of (48 + n) = CHR ''0''"
    then have "(of_char (char_of (48 + n) :: char) :: nat) = of_char (CHR ''0'')" by simp
    then show False using that 1(2) by simp
  qed
  then show ?case using 1 by (subst show_nat_rec) (auto simp: show_nat_nonempty)
qed

lemma show_nat_zero: "show_nat 0 = ''0''"
  by (subst show_nat_rec) (simp, code_simp)

lemma delim_not_digit: "delim r \<Longrightarrow> takeWhile is_digit_char r = [] \<and> dropWhile is_digit_char r = r"
  by (cases r) (auto simp: delim_def is_digit_char_def)

lemma p_int_part_show: "delim r \<Longrightarrow> p_int_part (show_nat n @ r) = Some (show_nat n, r)"
proof -
  assume r: "delim r"
  have "\<forall>c\<in>set (show_nat n). is_digit_char c" using show_nat_digits by (simp add: list_all_iff)
  then have "takeWhile is_digit_char (show_nat n @ r) = show_nat n" "dropWhile is_digit_char (show_nat n @ r) = r"
    using delim_not_digit [OF r] by simp_all
  moreover have "\<not> (hd (show_nat n) = CHR ''0'' \<and> tl (show_nat n) \<noteq> [])"
    using show_nat_no_zero [of n] by (cases "n = 0") (auto simp: show_nat_zero)
  ultimately show ?thesis by (simp add: p_int_part_def show_nat_nonempty Let_def)
qed

lemma p_number_show:
  assumes "delim r" and q: "q = of_int \<lfloor>q\<rfloor>"
  shows "p_number (show_num q @ r) = Some (JNum q, r)"
proof -
  define n where "n = nat \<bar>\<lfloor>q\<rfloor>\<bar>"
  have abs: "\<bar>q\<bar> = of_int (int n)" unfolding n_def using q by (metis abs_ge_zero int_nat_eq of_int_abs)
  then have show_q: "show_num q = (if q < 0 then ''-'' else []) @ show_nat n"
    by (simp add: show_num_def show_int_def)
  have frac: "p_fraction r = Some ([], r)" "p_exponent r = Some (0, r)"
    using assms(1) by (cases r; auto simp: delim_def p_fraction_def p_exponent_def)+
  have "hd (show_nat n @ r) \<noteq> CHR ''-''"
    using show_nat_digits [of n] show_nat_nonempty [of n] by (cases "show_nat n") (auto simp: is_digit_char_def)
  then show ?thesis
    using abs by (auto simp: p_number_def show_q show_nat_nonempty p_int_part_show [OF assms(1)] frac decimal_show_nat pow10_def Let_def abs_if split: if_splits)
qed

definition head_ok :: "string \<Rightarrow> bool" where
  "head_ok s \<longleftrightarrow> s \<noteq> [] \<and> \<not> json_ws (hd s) \<and> hd s \<noteq> CHR '']''"

lemma show_num_head: "show_num q \<noteq> [] \<and> (hd (show_num q) = CHR ''-'' \<or> is_digit_char (hd (show_num q)))"
proof -
  have "is_digit_char (hd (show_nat n))" for n
    using show_nat_digits [of n] show_nat_nonempty [of n] by (cases "show_nat n") auto
  then show ?thesis by (simp add: show_num_def show_int_def show_nat_nonempty)
qed

lemma stringify_head: "head_ok (json_stringify j)"
proof (cases j)
  case (JNum q)
  then show ?thesis
    using show_num_head [of q] by (auto simp: head_ok_def json_ws_def is_digit_char_def)
qed (auto simp: head_ok_def json_ws_def quote_eq)

lemma skip_ws_head: "head_ok s \<Longrightarrow> skip_ws (s @ r) = s @ r"
  by (cases s) (auto simp: head_ok_def skip_ws_def)

lemma skip_ws_id: "delim r \<Longrightarrow> skip_ws r = r"
  by (cases r) (auto simp: delim_def skip_ws_def json_ws_def)

lemma stringify_nonempty: "json_stringify j \<noteq> []"
  using stringify_head [of j] by (simp add: head_ok_def)

definition member_text :: "string \<times> json \<Rightarrow> string" where
  "member_text kv = quote (fst kv) @ '':'' @ json_stringify (snd kv)"

lemma members_text: "map (\<lambda>(k, v). quote k @ CHR '':'' # json_stringify v) kvs = map member_text kvs"
  by (auto simp: member_text_def)

lemma put_member_new: "k \<notin> fst ` set acc \<Longrightarrow> put_member k v acc = acc @ [(k, v)]"
  by (induction acc) auto

lemma p_number_value:
  assumes "delim r" and "q = of_int \<lfloor>q\<rfloor>"
  shows "p_value (Suc n) (show_num q @ r) = Some (JNum q, r)"
proof -
  obtain c t where t: "show_num q @ r = c # t" and c: "c = CHR ''-'' \<or> is_digit_char c"
    using show_num_head [of q] by (cases "show_num q") auto
  have "c \<notin> {CHR ''{'', CHR ''['', CHR 0x22, CHR ''t'', CHR ''f'', CHR ''n''}" using c by (auto simp: is_digit_char_def)
  then have "p_value (Suc n) (c # t) = p_number (c # t)" by simp
  then show ?thesis using p_number_show [OF assms] t by simp
qed

lemma json_text_parses:
  "(\<forall>j r. json_plain j \<longrightarrow> length (json_stringify j) < n \<longrightarrow> delim r \<longrightarrow> p_value n (json_stringify j @ r) = Some (j, r)) \<and>
   (\<forall>js r. js \<noteq> [] \<longrightarrow> (\<forall>j\<in>set js. json_plain j) \<longrightarrow> Suc (length (join_with '','' (map json_stringify js))) < n \<longrightarrow>
      p_elems n (join_with '','' (map json_stringify js) @ CHR '']'' # r) = Some (js, r)) \<and>
   (\<forall>kvs acc r. kvs \<noteq> [] \<longrightarrow> (\<forall>kv\<in>set kvs. json_plain (snd kv)) \<longrightarrow> distinct (map fst (acc @ kvs)) \<longrightarrow>
      Suc (length (join_with '','' (map member_text kvs))) < n \<longrightarrow>
      p_members n acc (join_with '','' (map member_text kvs) @ CHR ''}'' # r) = Some (JObj (acc @ kvs), r))"
proof (induction n)
  case (Suc n)
  have val: "p_value n (json_stringify j @ r) = Some (j, r)"
    if "json_plain j" "length (json_stringify j) < n" "delim r" for j r using Suc that by blast
  have els: "p_elems n (join_with '','' (map json_stringify js) @ CHR '']'' # r) = Some (js, r)"
    if "js \<noteq> []" "\<forall>j\<in>set js. json_plain j" "Suc (length (join_with '','' (map json_stringify js))) < n" for js r
    using Suc that by blast
  have mem: "p_members n acc (join_with '','' (map member_text kvs) @ CHR ''}'' # r) = Some (JObj (acc @ kvs), r)"
    if "kvs \<noteq> []" "\<forall>kv\<in>set kvs. json_plain (snd kv)" "distinct (map fst (acc @ kvs))"
      "Suc (length (join_with '','' (map member_text kvs))) < n" for kvs acc r using Suc that by blast
  show ?case
  proof (intro conjI allI impI)
    fix j r assume j: "json_plain j" "length (json_stringify j) < Suc n" "delim r"
    show "p_value (Suc n) (json_stringify j @ r) = Some (j, r)"
    proof (cases j)
      case (JNum q)
      then show ?thesis using j p_number_value [of r q n] by simp
    next
      case (JStr s)
      then show ?thesis by (simp add: quote_eq p_string_escaped)
    next
      case (JArr js)
      show ?thesis
      proof (cases js)
        case (Cons a as)
        let ?t = "join_with '','' (map json_stringify js)"
        have "head_ok ?t" using stringify_head [of a] Cons by (cases as) (auto simp: head_ok_def)
        then have "skip_ws (?t @ CHR '']'' # r) = ?t @ CHR '']'' # r" "hd ?t \<noteq> CHR '']''" "?t \<noteq> []"
          by (auto simp: skip_ws_head head_ok_def)
        moreover have "p_elems n (?t @ CHR '']'' # r) = Some (js, r)" using j JArr Cons by (intro els) auto
        ultimately show ?thesis using JArr by (cases ?t) auto
      qed (simp add: JArr skip_ws_def json_ws_def)
    next
      case (JObj kvs)
      show ?thesis
      proof (cases kvs)
        case (Cons a as)
        let ?t = "join_with '','' (map member_text kvs)"
        obtain u where u: "?t = CHR 0x22 # u" using Cons by (cases as) (auto simp: member_text_def quote_eq)
        then have "skip_ws (?t @ CHR ''}'' # r) = ?t @ CHR ''}'' # r" by (simp add: skip_ws_def json_ws_def)
        moreover have "p_members n [] (?t @ CHR ''}'' # r) = Some (JObj ([] @ kvs), r)" 
          using j JObj Cons by (intro mem) (auto simp: members_text simp del: list.map)
        ultimately show ?thesis using JObj u by (simp add: members_text)
      qed (simp add: JObj skip_ws_def json_ws_def)
    qed (simp_all add: p_word_def)
  next
    fix js r assume js: "js \<noteq> []" "\<forall>j\<in>set js. json_plain j" "Suc (length (join_with '','' (map json_stringify js))) < Suc n"
    then obtain a as where a: "js = a # as" by (cases js) auto
    show "p_elems (Suc n) (join_with '','' (map json_stringify js) @ CHR '']'' # r) = Some (js, r)"
    proof (cases as)
      case Nil
      then show ?thesis using js a val [of a "CHR '']'' # r"] by (simp add: skip_ws_id)
    next
      case (Cons b bs)
      let ?t = "join_with '','' (map json_stringify as)"
      have "head_ok ?t" using stringify_head [of b] Cons by (cases bs) (auto simp: head_ok_def)
      moreover have "p_elems n (?t @ CHR '']'' # r) = Some (as, r)"
        using js a Cons stringify_nonempty [of a] by (intro els) (cases "json_stringify a"; auto)+
      moreover have "p_value n (json_stringify a @ CHR '','' # ?t @ CHR '']'' # r) = Some (a, CHR '','' # ?t @ CHR '']'' # r)"
        using js a Cons by (intro val) auto
      ultimately show ?thesis using a Cons by (simp add: skip_ws_id skip_ws_head)
    qed
  next
    fix kvs acc r assume kvs: "kvs \<noteq> []" "\<forall>kv\<in>set kvs. json_plain (snd kv)" "distinct (map fst (acc @ kvs))"
      "Suc (length (join_with '','' (map member_text kvs))) < Suc n"
    then obtain k v as where a: "kvs = (k, v) # as" by (cases kvs) auto
    have new: "put_member k v acc = acc @ [(k, v)]" using kvs a by (intro put_member_new) auto
    have sk: "skip_ws (CHR '':'' # x) = CHR '':'' # x" for x by (simp add: skip_ws_def json_ws_def)
    show "p_members (Suc n) acc (join_with '','' (map member_text kvs) @ CHR ''}'' # r) = Some (JObj (acc @ kvs), r)"
    proof (cases as)
      case Nil
      then show ?thesis using kvs a val [of v "CHR ''}'' # r"]
        by (simp add: member_text_def quote_eq p_string_escaped sk skip_ws_id skip_ws_head stringify_head new)
    next
      case (Cons b bs)
      let ?t = "join_with '','' (map member_text as)"
      have "skip_ws (?t @ CHR ''}'' # r) = ?t @ CHR ''}'' # r"
        using Cons by (cases bs) (auto simp: member_text_def quote_eq skip_ws_def json_ws_def)
      moreover have "p_members n (acc @ [(k, v)]) (?t @ CHR ''}'' # r) = Some (JObj ((acc @ [(k, v)]) @ as), r)"
        using kvs a Cons by (intro mem) (auto simp: member_text_def quote_eq)
      moreover have "p_value n (json_stringify v @ CHR '','' # ?t @ CHR ''}'' # r) = Some (v, CHR '','' # ?t @ CHR ''}'' # r)"
        using kvs a Cons by (intro val) (auto simp: member_text_def)
      ultimately show ?thesis using a Cons
        by (simp add: member_text_def quote_eq p_string_escaped sk skip_ws_id skip_ws_head stringify_head new)
    qed
  qed
qed simp

lemma json_parse_stringify:
  assumes "json_plain j"
  shows "json_parse (json_stringify j) = Some j"
proof -
  have "skip_ws (json_stringify j) = json_stringify j"
    using skip_ws_head [OF stringify_head, of j "[]"] by simp
  moreover have "p_value (Suc (length (json_stringify j))) (json_stringify j) = Some (j, [])"
    using json_text_parses [THEN conjunct1, rule_format, of j "Suc (length (json_stringify j))" "[]"] assms by simp
  ultimately show ?thesis by (simp add: json_parse_def skip_ws_def)
qed

end
