(* ===== verification/Report.thy ===== *)
theory Report
  imports Json
begin

text \<open>
  The structured report an agent completes a run with (\<open>packages/contracts/src/report.schema.ts\<close>
  and \<open>answer-option.schema.ts\<close>): the typed shape, the zod schema as a decoder with its
  length bounds, strict objects and cross-field refinements, the encoding the durable outbox
  writes, and the one normalisation rule for artifacts. Lemmas: what an accepted report
  satisfies, and that encoding then decoding gives the report back.
\<close>

section \<open>Shapes\<close>

datatype outcome = Success | Failure | Needs_human | Routed | Team

datatype check_status = Pass | Fail | Skip | Warn

datatype task_kind = Question | Blocker | Review

record answer_option =
  o_label :: string
  o_value :: "string option"
  o_description :: "string option"

record report_check =
  c_name :: string
  c_status :: check_status
  c_reason :: "string option"

record report_human_task =
  ht_kind :: task_kind
  ht_title :: string
  ht_details :: "string option"
  ht_options :: "answer_option list option"

record report_routing =
  rt_target_agent :: string
  rt_task :: string

record team_agent =
  ta_name :: string
  ta_role :: "string option"
  ta_description :: string
  ta_instruction :: string
  ta_trigger_status :: string
  ta_status_running :: "string option"
  ta_status_success :: string
  ta_status_failure :: string
  ta_executor :: string

record repo_artifact =
  ra_repo :: string
  ra_branch :: "string option"
  ra_pr_url :: "string option"
  ra_commits :: "string list option"
  ra_files_changed :: "int option"

record report_artifacts =
  ar_branch :: "string option"
  ar_pr_url :: "string option"
  ar_commits :: "string list option"
  ar_files_changed :: "int option"
  ar_repos :: "repo_artifact list option"

record agent_report =
  rp_schema_version :: int
  rp_outcome :: outcome
  rp_summary :: string
  rp_checks :: "report_check list"
  rp_human_task :: "report_human_task option"
  rp_routing :: "report_routing option"
  rp_team :: "team_agent list option"
  rp_artifacts :: "report_artifacts option"

section \<open>The schema\<close>

definition outcomes :: "(string \<times> outcome) list" where
  "outcomes = [(''success'', Success), (''failure'', Failure), (''needs_human'', Needs_human),
     (''routed'', Routed), (''team'', Team)]"

definition check_statuses :: "(string \<times> check_status) list" where
  "check_statuses = [(''pass'', Pass), (''fail'', Fail), (''skip'', Skip), (''warn'', Warn)]"

definition human_task_kinds :: "(string \<times> task_kind) list" where
  "human_task_kinds = [(''question'', Question), (''blocker'', Blocker), (''review'', Review)]"

fun answer_option_schema :: "answer_option decoder" where
  "answer_option_schema (JObj kvs) =
     (if only_keys [''label'', ''value'', ''description''] kvs then do {
        l \<leftarrow> req ''label'' (d_str 1 (Some 80)) kvs;
        v \<leftarrow> opt ''value'' (d_str 1 (Some 500)) kvs;
        d \<leftarrow> opt ''description'' (d_str 1 (Some 200)) kvs;
        Some \<lparr>o_label = l, o_value = v, o_description = d\<rparr>
      } else None)"
| "answer_option_schema _ = None"

definition answer_options_schema :: "answer_option list decoder" where
  "answer_options_schema = d_arr 1 (Some 5) answer_option_schema"

fun report_check_schema :: "report_check decoder" where
  "report_check_schema (JObj kvs) =
     (if only_keys [''name'', ''status'', ''reason''] kvs then do {
        n \<leftarrow> req ''name'' (d_str 0 (Some 200)) kvs;
        s \<leftarrow> req ''status'' (d_enum check_statuses) kvs;
        r \<leftarrow> opt ''reason'' (d_str 0 (Some 1000)) kvs;
        Some \<lparr>c_name = n, c_status = s, c_reason = r\<rparr>
      } else None)"
| "report_check_schema _ = None"

fun report_human_task_schema :: "report_human_task decoder" where
  "report_human_task_schema (JObj kvs) =
     (if only_keys [''kind'', ''title'', ''details'', ''options''] kvs then do {
        k \<leftarrow> req ''kind'' (d_enum human_task_kinds) kvs;
        t \<leftarrow> req ''title'' (d_str 0 (Some 120)) kvs;
        d \<leftarrow> opt ''details'' (d_str 0 (Some 4000)) kvs;
        os \<leftarrow> opt ''options'' answer_options_schema kvs;
        Some \<lparr>ht_kind = k, ht_title = t, ht_details = d, ht_options = os\<rparr>
      } else None)"
| "report_human_task_schema _ = None"

fun report_routing_schema :: "report_routing decoder" where
  "report_routing_schema (JObj kvs) =
     (if only_keys [''target_agent'', ''task''] kvs then do {
        a \<leftarrow> req ''target_agent'' (d_str 0 (Some 200)) kvs;
        t \<leftarrow> req ''task'' (d_str 0 (Some 4000)) kvs;
        Some \<lparr>rt_target_agent = a, rt_task = t\<rparr>
      } else None)"
| "report_routing_schema _ = None"

fun team_agent_schema :: "team_agent decoder" where
  "team_agent_schema (JObj kvs) =
     (if only_keys [''name'', ''role'', ''description'', ''instruction'', ''trigger_status'',
           ''status_running'', ''status_success'', ''status_failure'', ''executor''] kvs then do {
        n \<leftarrow> req ''name'' (d_str 1 (Some 200)) kvs;
        r \<leftarrow> opt ''role'' (d_str 1 (Some 100)) kvs;
        d \<leftarrow> req ''description'' (d_str 1 (Some 500)) kvs;
        i \<leftarrow> req ''instruction'' (d_str 1 (Some 8000)) kvs;
        t \<leftarrow> req ''trigger_status'' (d_str 1 (Some 100)) kvs;
        sr \<leftarrow> opt ''status_running'' (d_str 1 (Some 100)) kvs;
        ss \<leftarrow> req ''status_success'' (d_str 1 (Some 100)) kvs;
        sf \<leftarrow> req ''status_failure'' (d_str 1 (Some 100)) kvs;
        e \<leftarrow> req ''executor'' (d_str 1 (Some 200)) kvs;
        Some \<lparr>ta_name = n, ta_role = r, ta_description = d, ta_instruction = i,
              ta_trigger_status = t, ta_status_running = sr, ta_status_success = ss,
              ta_status_failure = sf, ta_executor = e\<rparr>
      } else None)"
| "team_agent_schema _ = None"

fun report_team_schema :: "team_agent list decoder" where
  "report_team_schema (JObj kvs) =
     (if only_keys [''agents''] kvs then req ''agents'' (d_arr 1 (Some 20) team_agent_schema) kvs else None)"
| "report_team_schema _ = None"

fun report_repo_artifact_schema :: "repo_artifact decoder" where
  "report_repo_artifact_schema (JObj kvs) =
     (if only_keys [''repo'', ''branch'', ''pr_url'', ''commits'', ''files_changed''] kvs then do {
        r \<leftarrow> req ''repo'' (d_str 1 (Some 200)) kvs;
        b \<leftarrow> opt ''branch'' (d_str 0 (Some 300)) kvs;
        p \<leftarrow> opt ''pr_url'' (d_str 0 (Some 1000)) kvs;
        c \<leftarrow> opt ''commits'' (d_arr 0 (Some 100) (d_str 0 (Some 500))) kvs;
        f \<leftarrow> opt ''files_changed'' (d_int (Some 0)) kvs;
        Some \<lparr>ra_repo = r, ra_branch = b, ra_pr_url = p, ra_commits = c, ra_files_changed = f\<rparr>
      } else None)"
| "report_repo_artifact_schema _ = None"

fun report_artifacts_schema :: "report_artifacts decoder" where
  "report_artifacts_schema (JObj kvs) =
     (if only_keys [''branch'', ''pr_url'', ''commits'', ''files_changed'', ''repos''] kvs then do {
        b \<leftarrow> opt ''branch'' (d_str 0 None) kvs;
        p \<leftarrow> opt ''pr_url'' (d_str 0 None) kvs;
        c \<leftarrow> opt ''commits'' (d_arr 0 None (d_str 0 None)) kvs;
        f \<leftarrow> opt ''files_changed'' (d_int None) kvs;
        rs \<leftarrow> opt ''repos'' (d_arr 0 (Some 20) report_repo_artifact_schema) kvs;
        Some \<lparr>ar_branch = b, ar_pr_url = p, ar_commits = c, ar_files_changed = f, ar_repos = rs\<rparr>
      } else None)"
| "report_artifacts_schema _ = None"

text \<open>The cross-field rules of \<open>superRefine\<close>.\<close>

definition report_refinement :: "agent_report \<Rightarrow> bool" where
  "report_refinement r \<longleftrightarrow>
     \<not> (rp_outcome r = Needs_human \<and> rp_human_task r = None) \<and>
     \<not> (rp_outcome r = Routed \<and> rp_routing r = None) \<and>
     \<not> (rp_outcome r = Team \<and> rp_team r = None) \<and>
     \<not> (rp_outcome r \<noteq> Team \<and> rp_team r \<noteq> None)"

definition schema_version :: "int decoder" where
  "schema_version j = (if j = JNum 1 then Some 1 else if j = JNum 2 then Some 2 else None)"

fun report_schema :: "agent_report decoder" where
  "report_schema (JObj kvs) =
     (if only_keys [''schema_version'', ''outcome'', ''summary'', ''checks'', ''human_task'',
           ''routing'', ''team'', ''artifacts''] kvs then do {
        v \<leftarrow> req ''schema_version'' schema_version kvs;
        out \<leftarrow> req ''outcome'' (d_enum outcomes) kvs;
        s \<leftarrow> req ''summary'' (d_str 0 (Some 2000)) kvs;
        cs \<leftarrow> req ''checks'' (d_arr 0 (Some 50) report_check_schema) kvs;
        h \<leftarrow> opt ''human_task'' report_human_task_schema kvs;
        r \<leftarrow> opt ''routing'' report_routing_schema kvs;
        t \<leftarrow> opt ''team'' report_team_schema kvs;
        a \<leftarrow> opt ''artifacts'' report_artifacts_schema kvs;
        let rep = \<lparr>rp_schema_version = v, rp_outcome = out, rp_summary = s, rp_checks = cs,
              rp_human_task = h, rp_routing = r, rp_team = t, rp_artifacts = a\<rparr>
        in if report_refinement rep then Some rep else None
      } else None)"
| "report_schema _ = None"

section \<open>Normalised artifacts\<close>

text \<open>A normalised entry has no repository name for the legacy flat form.\<close>

record normalized_artifact =
  na_repo :: "string option"
  na_branch :: "string option"
  na_pr_url :: "string option"
  na_commits :: "string list option"
  na_files_changed :: "int option"

definition normalize_report_artifacts :: "agent_report \<Rightarrow> normalized_artifact list" where
  "normalize_report_artifacts rep =
     (case rp_artifacts rep of
        None \<Rightarrow> []
      | Some a \<Rightarrow>
          (case ar_repos a of
             Some rs \<Rightarrow> map (\<lambda>r. \<lparr>na_repo = Some (ra_repo r), na_branch = ra_branch r,
                 na_pr_url = ra_pr_url r, na_commits = ra_commits r,
                 na_files_changed = ra_files_changed r\<rparr>) rs
           | None \<Rightarrow>
               if ar_branch a = None \<and> ar_pr_url a = None \<and> ar_commits a = None
                  \<and> ar_files_changed a = None
               then []
               else [\<lparr>na_repo = None, na_branch = ar_branch a, na_pr_url = ar_pr_url a,
                      na_commits = ar_commits a, na_files_changed = ar_files_changed a\<rparr>]))"

section \<open>What a well-formed report is\<close>

definition len_between :: "nat \<Rightarrow> nat \<Rightarrow> 'a list \<Rightarrow> bool" where
  "len_between lo hi xs \<longleftrightarrow> lo \<le> length xs \<and> length xs \<le> hi"

definition opt_all :: "('a \<Rightarrow> bool) \<Rightarrow> 'a option \<Rightarrow> bool" where
  "opt_all P x \<longleftrightarrow> (case x of None \<Rightarrow> True | Some y \<Rightarrow> P y)"

definition option_ok :: "answer_option \<Rightarrow> bool" where
  "option_ok p \<longleftrightarrow> len_between 1 80 (o_label p) \<and> opt_all (len_between 1 500) (o_value p) \<and>
     opt_all (len_between 1 200) (o_description p)"

definition options_ok :: "answer_option list \<Rightarrow> bool" where
  "options_ok ps \<longleftrightarrow> len_between 1 5 ps \<and> (\<forall>p\<in>set ps. option_ok p)"

definition check_ok :: "report_check \<Rightarrow> bool" where
  "check_ok c \<longleftrightarrow> len_between 0 200 (c_name c) \<and> opt_all (len_between 0 1000) (c_reason c)"

definition human_task_ok :: "report_human_task \<Rightarrow> bool" where
  "human_task_ok h \<longleftrightarrow> len_between 0 120 (ht_title h) \<and> opt_all (len_between 0 4000) (ht_details h) \<and>
     opt_all options_ok (ht_options h)"

definition routing_ok :: "report_routing \<Rightarrow> bool" where
  "routing_ok r \<longleftrightarrow> len_between 0 200 (rt_target_agent r) \<and> len_between 0 4000 (rt_task r)"

definition team_agent_ok :: "team_agent \<Rightarrow> bool" where
  "team_agent_ok a \<longleftrightarrow> len_between 1 200 (ta_name a) \<and> opt_all (len_between 1 100) (ta_role a) \<and>
     len_between 1 500 (ta_description a) \<and> len_between 1 8000 (ta_instruction a) \<and>
     len_between 1 100 (ta_trigger_status a) \<and> opt_all (len_between 1 100) (ta_status_running a) \<and>
     len_between 1 100 (ta_status_success a) \<and> len_between 1 100 (ta_status_failure a) \<and>
     len_between 1 200 (ta_executor a)"

definition team_ok :: "team_agent list \<Rightarrow> bool" where
  "team_ok t \<longleftrightarrow> len_between 1 20 t \<and> (\<forall>a\<in>set t. team_agent_ok a)"

definition repo_artifact_ok :: "repo_artifact \<Rightarrow> bool" where
  "repo_artifact_ok r \<longleftrightarrow> len_between 1 200 (ra_repo r) \<and> opt_all (len_between 0 300) (ra_branch r) \<and>
     opt_all (len_between 0 1000) (ra_pr_url r) \<and>
     opt_all (\<lambda>cs. len_between 0 100 cs \<and> (\<forall>c\<in>set cs. len_between 0 500 c)) (ra_commits r) \<and>
     opt_all (\<lambda>n. 0 \<le> n \<and> n \<le> MAX_SAFE_INTEGER) (ra_files_changed r)"

definition artifacts_ok :: "report_artifacts \<Rightarrow> bool" where
  "artifacts_ok a \<longleftrightarrow> opt_all (\<lambda>n. \<bar>n\<bar> \<le> MAX_SAFE_INTEGER) (ar_files_changed a) \<and>
     opt_all (\<lambda>rs. len_between 0 20 rs \<and> (\<forall>r\<in>set rs. repo_artifact_ok r)) (ar_repos a)"

definition report_ok :: "agent_report \<Rightarrow> bool" where
  "report_ok r \<longleftrightarrow> rp_schema_version r \<in> {1, 2} \<and> len_between 0 2000 (rp_summary r) \<and>
     len_between 0 50 (rp_checks r) \<and> (\<forall>c\<in>set (rp_checks r). check_ok c) \<and>
     opt_all human_task_ok (rp_human_task r) \<and> opt_all routing_ok (rp_routing r) \<and>
     opt_all team_ok (rp_team r) \<and> opt_all artifacts_ok (rp_artifacts r) \<and> report_refinement r"

section \<open>Encoding\<close>

fun outcome_name :: "outcome \<Rightarrow> string" where
  "outcome_name Success = ''success''"
| "outcome_name Failure = ''failure''"
| "outcome_name Needs_human = ''needs_human''"
| "outcome_name Routed = ''routed''"
| "outcome_name Team = ''team''"

fun check_status_name :: "check_status \<Rightarrow> string" where
  "check_status_name Pass = ''pass''"
| "check_status_name Fail = ''fail''"
| "check_status_name Skip = ''skip''"
| "check_status_name Warn = ''warn''"

fun task_kind_name :: "task_kind \<Rightarrow> string" where
  "task_kind_name Question = ''question''"
| "task_kind_name Blocker = ''blocker''"
| "task_kind_name Review = ''review''"

definition jstrs :: "string list \<Rightarrow> json" where
  "jstrs ss = JArr (map JStr ss)"

definition option_json :: "answer_option \<Rightarrow> json" where
  "option_json p = JObj ((''label'', JStr (o_label p)) #
     fld ''value'' JStr (o_value p) @ fld ''description'' JStr (o_description p))"

definition check_json :: "report_check \<Rightarrow> json" where
  "check_json c = JObj ((''name'', JStr (c_name c)) # (''status'', JStr (check_status_name (c_status c))) #
     fld ''reason'' JStr (c_reason c))"

definition human_task_json :: "report_human_task \<Rightarrow> json" where
  "human_task_json h = JObj ((''kind'', JStr (task_kind_name (ht_kind h))) # (''title'', JStr (ht_title h)) #
     fld ''details'' JStr (ht_details h) @ fld ''options'' (\<lambda>ps. JArr (map option_json ps)) (ht_options h))"

definition routing_json :: "report_routing \<Rightarrow> json" where
  "routing_json r = JObj [(''target_agent'', JStr (rt_target_agent r)), (''task'', JStr (rt_task r))]"

definition team_agent_json :: "team_agent \<Rightarrow> json" where
  "team_agent_json a = JObj ((''name'', JStr (ta_name a)) # (''description'', JStr (ta_description a)) #
     (''instruction'', JStr (ta_instruction a)) # (''trigger_status'', JStr (ta_trigger_status a)) #
     (''status_success'', JStr (ta_status_success a)) # (''status_failure'', JStr (ta_status_failure a)) #
     (''executor'', JStr (ta_executor a)) #
     fld ''role'' JStr (ta_role a) @ fld ''status_running'' JStr (ta_status_running a))"

definition team_json :: "team_agent list \<Rightarrow> json" where
  "team_json t = JObj [(''agents'', JArr (map team_agent_json t))]"

definition jnum :: "int \<Rightarrow> json" where
  "jnum i = JNum (rat_of_int i)"

definition repo_artifact_json :: "repo_artifact \<Rightarrow> json" where
  "repo_artifact_json r = JObj ((''repo'', JStr (ra_repo r)) # fld ''branch'' JStr (ra_branch r) @
     fld ''pr_url'' JStr (ra_pr_url r) @ fld ''commits'' jstrs (ra_commits r) @
     fld ''files_changed'' jnum (ra_files_changed r))"

definition artifacts_json :: "report_artifacts \<Rightarrow> json" where
  "artifacts_json a = JObj (fld ''branch'' JStr (ar_branch a) @
     fld ''pr_url'' JStr (ar_pr_url a) @ fld ''commits'' jstrs (ar_commits a) @
     fld ''files_changed'' jnum (ar_files_changed a) @
     fld ''repos'' (\<lambda>rs. JArr (map repo_artifact_json rs)) (ar_repos a))"

definition report_json :: "agent_report \<Rightarrow> json" where
  "report_json r = JObj ((''schema_version'', jnum (rp_schema_version r)) #
     (''outcome'', JStr (outcome_name (rp_outcome r))) # (''summary'', JStr (rp_summary r)) #
     (''checks'', JArr (map check_json (rp_checks r))) #
     fld ''human_task'' human_task_json (rp_human_task r) @ fld ''routing'' routing_json (rp_routing r) @
     fld ''team'' team_json (rp_team r) @ fld ''artifacts'' artifacts_json (rp_artifacts r))"

section \<open>Round trip\<close>

lemma d_str_len [json_simps]: "len_between lo hi s \<Longrightarrow> d_str lo (Some hi) (JStr s) = Some s"
  by (simp add: len_between_def)

lemma opt_str_len [json_simps]: "opt_all (len_between lo hi) x \<Longrightarrow> opt_enc (d_str lo (Some hi)) JStr x = Some x"
  by (rule opt_encI) (simp add: opt_all_def len_between_def)

lemma opt_str_free [json_simps]: "opt_enc (d_str 0 None) JStr x = Some x"
  by (rule opt_encI) simp

lemma enum_outcome [json_simps]: "d_enum outcomes (JStr (outcome_name out)) = Some out"
  by (cases out) (simp_all add: outcomes_def)

lemma enum_check_status [json_simps]: "d_enum check_statuses (JStr (check_status_name cs)) = Some cs"
  by (cases cs) (simp_all add: check_statuses_def)

lemma enum_kind [json_simps]: "d_enum human_task_kinds (JStr (task_kind_name k)) = Some k"
  by (cases k) (simp_all add: human_task_kinds_def)

declare d_str.simps [simp del] d_enum.simps [simp del] d_int.simps [simp del]

lemma option_roundtrip: "option_ok p \<Longrightarrow> answer_option_schema (option_json p) = Some p"
  by (simp add: option_json_def option_ok_def json_simps)

lemma options_roundtrip [json_simps]:
  "opt_all options_ok ps \<Longrightarrow> opt_enc answer_options_schema (\<lambda>ps. JArr (map option_json ps)) ps = Some ps"
  by (rule opt_encI) (auto simp: opt_all_def answer_options_schema_def options_ok_def len_between_def
      intro!: d_list_map option_roundtrip)

lemma check_roundtrip: "check_ok c \<Longrightarrow> report_check_schema (check_json c) = Some c"
  by (simp add: check_json_def check_ok_def json_simps)

lemma human_task_roundtrip: "human_task_ok h \<Longrightarrow> report_human_task_schema (human_task_json h) = Some h"
  by (simp add: human_task_json_def human_task_ok_def json_simps)

lemma routing_roundtrip: "routing_ok r \<Longrightarrow> report_routing_schema (routing_json r) = Some r"
  by (simp add: routing_json_def routing_ok_def json_simps)

lemma team_agent_roundtrip: "team_agent_ok a \<Longrightarrow> team_agent_schema (team_agent_json a) = Some a"
  by (simp add: team_agent_json_def team_agent_ok_def json_simps)

lemma team_roundtrip: "team_ok t \<Longrightarrow> report_team_schema (team_json t) = Some t"
  by (auto simp: team_json_def team_ok_def json_simps len_between_def
      intro!: d_list_map team_agent_roundtrip)

lemma commits_roundtrip [json_simps]:
  "opt_all (\<lambda>cs. len_between 0 n cs \<and> (\<forall>c\<in>set cs. len_between 0 h c)) x \<Longrightarrow>
     opt_enc (d_arr 0 (Some n) (d_str 0 (Some h))) jstrs x = Some x"
  by (rule opt_encI) (auto simp: opt_all_def jstrs_def len_between_def d_str.simps intro!: d_list_map)

lemma free_commits_roundtrip [json_simps]: "opt_enc (d_arr 0 None (d_str 0 None)) jstrs x = Some x"
  by (rule opt_encI) (auto simp: jstrs_def d_str.simps intro!: d_list_map)

lemma files_changed_roundtrip [json_simps]:
  "opt_all (\<lambda>n. 0 \<le> n \<and> n \<le> MAX_SAFE_INTEGER) x \<Longrightarrow> opt_enc (d_int (Some 0)) jnum x = Some x"
  "opt_all (\<lambda>n. \<bar>n\<bar> \<le> MAX_SAFE_INTEGER) x \<Longrightarrow> opt_enc (d_int None) jnum x = Some x"
  by (rule opt_encI, auto simp: opt_all_def jnum_def json_simps)+

lemma repo_artifact_roundtrip: "repo_artifact_ok r \<Longrightarrow> report_repo_artifact_schema (repo_artifact_json r) = Some r"
  by (simp add: repo_artifact_json_def repo_artifact_ok_def json_simps)

lemma repo_artifacts_roundtrip [json_simps]:
  "opt_all (\<lambda>rs. len_between 0 20 rs \<and> (\<forall>r\<in>set rs. repo_artifact_ok r)) x \<Longrightarrow>
     opt_enc (d_arr 0 (Some 20) report_repo_artifact_schema) (\<lambda>rs. JArr (map repo_artifact_json rs)) x = Some x"
  by (rule opt_encI) (auto simp: opt_all_def len_between_def intro!: d_list_map repo_artifact_roundtrip)

lemma artifacts_roundtrip: "artifacts_ok a \<Longrightarrow> report_artifacts_schema (artifacts_json a) = Some a"
  by (simp add: artifacts_json_def artifacts_ok_def json_simps)

lemma parts_roundtrip [json_simps]:
  "opt_all human_task_ok h \<Longrightarrow> opt_enc report_human_task_schema human_task_json h = Some h"
  "opt_all routing_ok r \<Longrightarrow> opt_enc report_routing_schema routing_json r = Some r"
  "opt_all team_ok t \<Longrightarrow> opt_enc report_team_schema team_json t = Some t"
  "opt_all artifacts_ok a \<Longrightarrow> opt_enc report_artifacts_schema artifacts_json a = Some a"
  by (rule opt_encI, simp add: opt_all_def human_task_roundtrip routing_roundtrip team_roundtrip
      artifacts_roundtrip)+

lemma checks_roundtrip [json_simps]:
  "len_between 0 50 cs \<Longrightarrow> \<forall>c\<in>set cs. check_ok c \<Longrightarrow>
     d_arr 0 (Some 50) report_check_schema (JArr (map check_json cs)) = Some cs"
  by (auto simp: len_between_def intro!: d_list_map check_roundtrip)

lemma version_roundtrip [json_simps]: "v = 1 \<or> v = 2 \<Longrightarrow> schema_version (jnum v) = Some v"
  by (auto simp: schema_version_def jnum_def)

declare d_arr.simps [simp del]

text \<open>
  A report that satisfies the contract survives the trip through JSON: what the outbox
  or the \<open>jsonb\<close> column stores of it decodes, under the same schema, to the same report.
\<close>

lemma report_roundtrip: "report_ok r \<Longrightarrow> report_schema (report_json r) = Some r"
  by (simp add: report_json_def report_ok_def json_simps Let_def report_refinement_def)

section \<open>What the schema accepts\<close>

lemma opt_SomeD: "opt k d kvs = Some x \<Longrightarrow> (\<And>j y. d j = Some y \<Longrightarrow> P y) \<Longrightarrow> opt_all P x"
  by (auto simp: opt_def opt_all_def split: option.splits)

lemma req_SomeD: "req k d kvs = Some x \<Longrightarrow> (\<And>j y. d j = Some y \<Longrightarrow> P y) \<Longrightarrow> P x"
  by (auto simp: req_def split: option.splits)

lemma d_str_sound: "d_str lo (Some hi) j = Some s \<Longrightarrow> len_between lo hi s"
  by (auto dest!: d_str_SomeD simp: len_between_def)

lemma d_arr_sound:
  "d_arr lo (Some hi) d j = Some xs \<Longrightarrow> (\<And>j y. d j = Some y \<Longrightarrow> P y) \<Longrightarrow>
     len_between lo hi xs \<and> (\<forall>x\<in>set xs. P x)"
  by (auto dest!: d_arr_SomeD simp: len_between_def)

lemmas str_opt_sound = opt_SomeD [OF _ d_str_sound]
lemmas str_req_sound = req_SomeD [OF _ d_str_sound]

lemma count_sound: "opt k (d_int (Some 0)) kvs = Some x \<Longrightarrow> opt_all (\<lambda>n. 0 \<le> n \<and> n \<le> MAX_SAFE_INTEGER) x"
  by (erule opt_SomeD) (auto dest: d_int_SomeD)

lemma int_sound: "opt k (d_int None) kvs = Some x \<Longrightarrow> opt_all (\<lambda>n. \<bar>n\<bar> \<le> MAX_SAFE_INTEGER) x"
  by (erule opt_SomeD) (auto dest: d_int_SomeD)

lemma answer_option_sound: "answer_option_schema j = Some p \<Longrightarrow> option_ok p"
  by (cases j) (auto simp: option_ok_def Option.bind_eq_Some_conv split: if_splits
      intro: str_opt_sound str_req_sound)

lemma answer_options_sound: "answer_options_schema j = Some ps \<Longrightarrow> options_ok ps"
  unfolding answer_options_schema_def options_ok_def by (rule d_arr_sound) (auto intro: answer_option_sound)

lemma report_check_sound: "report_check_schema j = Some c \<Longrightarrow> check_ok c"
  by (cases j) (auto simp: check_ok_def Option.bind_eq_Some_conv split: if_splits
      intro: str_opt_sound str_req_sound)

lemma human_task_sound: "report_human_task_schema j = Some h \<Longrightarrow> human_task_ok h"
  by (cases j) (auto simp: human_task_ok_def Option.bind_eq_Some_conv split: if_splits
      intro: str_opt_sound str_req_sound opt_SomeD [OF _ answer_options_sound])

lemma routing_sound: "report_routing_schema j = Some r \<Longrightarrow> routing_ok r"
  by (cases j) (auto simp: routing_ok_def Option.bind_eq_Some_conv split: if_splits
      intro: str_req_sound)

lemma team_agent_sound: "team_agent_schema j = Some a \<Longrightarrow> team_agent_ok a"
  by (cases j) (auto simp: team_agent_ok_def Option.bind_eq_Some_conv split: if_splits
      intro: str_opt_sound str_req_sound)

lemma team_sound: "report_team_schema j = Some t \<Longrightarrow> team_ok t"
  by (cases j) (auto simp: team_ok_def split: if_splits
      dest!: req_SomeD [OF _ d_arr_sound [OF _ team_agent_sound]])

lemma repo_artifact_sound: "report_repo_artifact_schema j = Some r \<Longrightarrow> repo_artifact_ok r"
  by (cases j) (auto simp: repo_artifact_ok_def Option.bind_eq_Some_conv split: if_splits
      intro: str_opt_sound str_req_sound count_sound opt_SomeD [OF _ d_arr_sound [OF _ d_str_sound]])

lemma artifacts_sound: "report_artifacts_schema j = Some a \<Longrightarrow> artifacts_ok a"
  by (cases j) (auto simp: artifacts_ok_def Option.bind_eq_Some_conv split: if_splits
      intro: int_sound opt_SomeD [OF _ d_arr_sound [OF _ repo_artifact_sound]])

lemma schema_version_sound: "schema_version j = Some v \<Longrightarrow> v = 1 \<or> v = 2"
  by (auto simp: schema_version_def split: if_splits)

lemma report_schema_refined: "report_schema j = Some r \<Longrightarrow> report_refinement r"
  by (cases j) (auto simp: Option.bind_eq_Some_conv Let_def split: if_splits)

text \<open>
  C16. Whatever JSON a callback or an outbox file carries, a report the schema accepts obeys
  every bound of the contract and the cross-field rules: a \<open>needs_human\<close> report has its
  question, a \<open>routed\<close> one its routing, and a team exactly when the outcome is \<open>team\<close>.
\<close>

theorem report_schema_sound:
  assumes "report_schema j = Some r"
  shows "report_ok r"
proof (cases j)
  case (JObj kvs)
  from assms JObj obtain v out s cs h ro t a where
    parts: "req ''schema_version'' schema_version kvs = Some v"
      "req ''summary'' (d_str 0 (Some 2000)) kvs = Some s"
      "req ''checks'' (d_arr 0 (Some 50) report_check_schema) kvs = Some cs"
      "opt ''human_task'' report_human_task_schema kvs = Some h"
      "opt ''routing'' report_routing_schema kvs = Some ro"
      "opt ''team'' report_team_schema kvs = Some t"
      "opt ''artifacts'' report_artifacts_schema kvs = Some a"
    and r: "r = \<lparr>rp_schema_version = v, rp_outcome = out, rp_summary = s, rp_checks = cs,
              rp_human_task = h, rp_routing = ro, rp_team = t, rp_artifacts = a\<rparr>"
    and ref: "report_refinement r"
    by (auto simp: Option.bind_eq_Some_conv Let_def split: if_splits)
  have "v = 1 \<or> v = 2" by (rule req_SomeD [OF parts(1) schema_version_sound])
  moreover have "len_between 0 50 cs \<and> (\<forall>c\<in>set cs. check_ok c)"
    by (rule req_SomeD [OF parts(3) d_arr_sound [OF _ report_check_sound]])
  moreover note str_req_sound [OF parts(2)] opt_SomeD [OF parts(4) human_task_sound]
    opt_SomeD [OF parts(5) routing_sound] opt_SomeD [OF parts(6) team_sound]
    opt_SomeD [OF parts(7) artifacts_sound]
  ultimately show ?thesis using ref by (simp add: report_ok_def r)
qed (use assms in auto)

end
