(* ===== verification/World.thy ===== *)
theory World
  imports Report
begin

text \<open>
  The state every handler of the program works on: the Postgres tables
  (\<open>libs/database/src/schema\<close>) as lists of rows, the jobs handed to BullMQ, the calls made to
  Jira and the clock; what lies outside the repository (Jira, Redis) as an environment
  argument; and the primitive reads and writes the handlers are composed of, with the two
  partial unique indexes on active runs checked on every insert and update, as Postgres does.
  A database statement is atomic; apart from unique violations it does not fail.
\<close>

section \<open>Rows\<close>

type_synonym id = nat

datatype run_status =
    Queued | Running | Awaiting_human | Succeeded | Failed | Cancelled | Timed_out | Superseded

record run =
  r_id :: id
  r_workspace :: id
  r_ticket :: "id option"
  r_agent :: id
  r_executor_type :: string
  r_status :: run_status
  r_attempt :: int
  r_trigger :: json
  r_external_ref :: "string option"
  r_started :: "int option"
  r_finished :: "int option"
  r_exit_code :: "int option"
  r_cost :: "rat option"
  r_usage :: "json option"
  r_error :: "string option"
  r_report :: "agent_report option"
  r_outcome :: "outcome option"
  r_created :: int

datatype blocked_state = Waiting | Cycle | Dead_end | Out_of_scope

record receipt =
  vr_run :: id
  vr_agent_role :: "string option"
  vr_agent_name :: "string option"
  vr_outcome :: outcome
  vr_recorded_at :: int
  vr_gates :: "string list"
  vr_repos :: "(string \<times> string) list"

record ticket =
  t_id :: id
  t_workspace :: id
  t_jira_key :: string
  t_jira_id :: string
  t_summary :: "string option"
  t_last_seen_status :: "string option"
  t_last_seen_updated :: "int option"
  t_priority_id :: "int option"
  t_priority_name :: "string option"
  t_blocked_by :: "string list option"
  t_blocked_state :: "blocked_state option"
  t_verification :: "receipt option"

record agent =
  a_id :: id
  a_workspace :: id
  a_executor :: id
  a_name :: string
  a_role :: "string option"
  a_key :: string
  a_description :: "string option"
  a_instruction :: string
  a_is_orchestrator :: bool
  a_trigger_status :: "string option"
  a_trigger_jql :: "string option"
  a_status_running :: "string option"
  a_status_success :: string
  a_status_failure :: string
  a_behavior :: json
  a_timeout_minutes :: int
  a_max_attempts :: int
  a_enabled :: bool

record executor =
  x_id :: id
  x_type :: string
  x_name :: string
  x_config :: json
  x_max_parallel_runs :: int
  x_enabled :: bool

datatype board_type = Kanban | Scrum

record ws_settings =
  st_enabled :: "bool option"
  st_scope_jql :: "string option"
  st_rework_max :: "int option"
  st_dependency_release_status :: "string option"
  st_high_water_mark :: "string option"
  st_active_sprint_ids :: "int list option"
  st_active_sprint_id :: "int option"
  st_repositories :: "string list option"

record workspace =
  s_id :: id
  s_name :: string
  s_site_url :: string
  s_project_key :: string
  s_board_id :: "int option"
  s_board_type :: "board_type option"
  s_settings :: ws_settings

text \<open>The \<open>type\<close> column of \<open>run_events\<close>.\<close>

datatype event_type =
    Ev_progress | Ev_log | Ev_error | Ev_jira_action | Ev_undelivered_report | Ev_channel_down | Ev_channel_failure

record run_event =
  e_run :: id
  e_type :: event_type
  e_payload :: json
  e_created :: int

record check_row =
  k_run :: id
  k_position :: nat
  k_name :: string
  k_status :: check_status
  k_reason :: "string option"

datatype task_status = Open | Resolved | Dismissed

record human_task =
  h_id :: id
  h_workspace :: id
  h_run :: "id option"
  h_ticket :: "id option"
  h_kind :: task_kind
  h_title :: string
  h_details :: "string option"
  h_options :: "answer_option list option"
  h_blocking :: bool
  h_status :: task_status
  h_resolution :: "string option"
  h_created :: int
  h_resolved_at :: "int option"
  h_resolved_by :: "string option"

section \<open>Outside the database\<close>

text \<open>A job as \<open>queue.add\<close> receives it; \<open>j_dedup\<close> is the deduplication id \<open>ticket:agent\<close>.\<close>

record job =
  j_queue :: string
  j_run :: id
  j_dedup :: "(id option \<times> id) option"
  j_attempts :: "int option"

datatype status_category = Cat_new | Cat_indeterminate | Cat_done

record linked_issue =
  li_key :: string
  li_status :: string
  li_category :: status_category

record issue_link =
  il_inward :: string
  il_inward_issue :: "linked_issue option"
  il_outward_issue :: "linked_issue option"

record jira_issue =
  i_key :: string
  i_id :: string
  i_summary :: "string option"
  i_status :: string
  i_category :: status_category
  i_updated :: string
  i_links :: "issue_link list option"
  i_priority :: "(string \<times> string) option"
  i_resolution :: "string option"

text \<open>
  The body of a comment by what it is composed from: a run report or the question of a human
  task. The rendering to Atlassian Document Format is not part of the state.
\<close>

datatype comment =
    Run_comment agent_report
  | Task_comment task_kind string "string option" "answer_option list option" bool

datatype jira_call =
    J_connect id
  | J_transition id string string
  | J_comment id string comment
  | J_search id string "string list"
  | J_sprints id int
  | J_statuses id string
  | J_board_type id

datatype error_kind = No_transition_path | Unique_violation | Rate_limited | Other_failure

text \<open>A thrown error; \<open>en_diagnosed\<close> is the tag \<open>recordCompletionError\<close> puts on it.\<close>

record error =
  en_kind :: error_kind
  en_message :: string
  en_diagnosed :: bool

definition mk_error :: "error_kind \<Rightarrow> string \<Rightarrow> error" where
  "mk_error k m = \<lparr>en_kind = k, en_message = m, en_diagnosed = False\<rparr>"

record world =
  w_now :: int
  w_next :: id
  w_workspaces :: "workspace list"
  w_executors :: "executor list"
  w_agents :: "agent list"
  w_tickets :: "ticket list"
  w_runs :: "run list"
  w_events :: "run_event list"
  w_checks :: "check_row list"
  w_tasks :: "human_task list"
  w_jobs :: "job list"
  w_jira :: "(jira_call \<times> bool) list"

type_synonym 'a handler = "(world, error, 'a) act"

text \<open>
  Jira and Redis are not under \<open>src/\<close>: each answer is a function of the calls made so far and
  of the call, so every behaviour of a deterministic service, failures included, is covered.
\<close>

record env =
  env_connect :: "(jira_call \<times> bool) list \<Rightarrow> id \<Rightarrow> error option"
  env_transition :: "(jira_call \<times> bool) list \<Rightarrow> id \<Rightarrow> string \<Rightarrow> string \<Rightarrow> error option"
  env_comment :: "(jira_call \<times> bool) list \<Rightarrow> id \<Rightarrow> string \<Rightarrow> comment \<Rightarrow> error option"
  env_search :: "(jira_call \<times> bool) list \<Rightarrow> id \<Rightarrow> string \<Rightarrow> string list \<Rightarrow> error + jira_issue list"
  env_sprints :: "(jira_call \<times> bool) list \<Rightarrow> id \<Rightarrow> int \<Rightarrow> error + int list"
  env_statuses :: "(jira_call \<times> bool) list \<Rightarrow> id \<Rightarrow> string \<Rightarrow> error + string list"
  env_board_type :: "(jira_call \<times> bool) list \<Rightarrow> id \<Rightarrow> error + board_type"
  env_queue_add :: "job list \<Rightarrow> job \<Rightarrow> error option"

section \<open>The partial unique indexes\<close>

text \<open>\<open>ACTIVE_STATUSES\<close>, the status set of both indexes.\<close>

definition active :: "run_status \<Rightarrow> bool" where
  "active s \<longleftrightarrow> s = Queued \<or> s = Running \<or> s = Awaiting_human"

text \<open>
  \<open>runs_one_active\<close>: two rows clash when both are active on one ticket (NULLs are distinct);
  \<open>runs_one_active_setup\<close>: when both are active, ticketless and of one workspace.
\<close>

definition index_clash :: "run \<Rightarrow> run \<Rightarrow> bool" where
  "index_clash r r' \<longleftrightarrow> r_id r \<noteq> r_id r' \<and> active (r_status r) \<and> active (r_status r') \<and>
     (case r_ticket r of
        Some t \<Rightarrow> r_ticket r' = Some t
      | None \<Rightarrow> r_ticket r' = None \<and> r_workspace r = r_workspace r')"

lemma index_clash_sym: "index_clash r r' \<Longrightarrow> index_clash r' r"
  by (auto simp: index_clash_def split: option.splits)

lemma index_clash_active: "index_clash r r' \<Longrightarrow> active (r_status r) \<and> active (r_status r')"
  by (simp add: index_clash_def)

section \<open>Reads\<close>

definition find_run :: "id \<Rightarrow> world \<Rightarrow> run option" where
  "find_run i w = find (\<lambda>r. r_id r = i) (w_runs w)"

definition find_agent :: "id \<Rightarrow> world \<Rightarrow> agent option" where
  "find_agent i w = find (\<lambda>a. a_id a = i) (w_agents w)"

definition find_ticket :: "id \<Rightarrow> world \<Rightarrow> ticket option" where
  "find_ticket i w = find (\<lambda>t. t_id t = i) (w_tickets w)"

definition find_executor :: "id \<Rightarrow> world \<Rightarrow> executor option" where
  "find_executor i w = find (\<lambda>x. x_id x = i) (w_executors w)"

definition find_workspace :: "id \<Rightarrow> world \<Rightarrow> workspace option" where
  "find_workspace i w = find (\<lambda>s. s_id s = i) (w_workspaces w)"

definition find_task :: "id \<Rightarrow> world \<Rightarrow> human_task option" where
  "find_task i w = find (\<lambda>h. h_id h = i) (w_tasks w)"

section \<open>Writes\<close>

definition unique_violation :: error where
  "unique_violation = mk_error Unique_violation ''23505''"

text \<open>
  \<open>INSERT INTO runs \<dots> RETURNING id\<close>: the id and the creation time are the database's; an
  index clash raises 23505 and leaves the table as it was.
\<close>

definition insert_run :: "run \<Rightarrow> id handler" where
  "insert_run r0 = (\<lambda>w.
     let r = r0\<lparr>r_id := w_next w, r_created := w_now w\<rparr> in
     if \<exists>r'\<in>set (w_runs w). index_clash r r' then (Inl unique_violation, w)
     else (Inr (w_next w), w\<lparr>w_runs := w_runs w @ [r], w_next := Suc (w_next w)\<rparr>))"

text \<open>
  The guarded \<open>UPDATE runs SET \<dots> WHERE id = i AND guard RETURNING id\<close> all status writes go
  through: whether a row was hit, with the indexes checked for the new row.
\<close>

definition update_run :: "id \<Rightarrow> (run \<Rightarrow> bool) \<Rightarrow> (int \<Rightarrow> run \<Rightarrow> run) \<Rightarrow> bool handler" where
  "update_run i P f = (\<lambda>w.
     let hit = (\<lambda>r. r_id r = i \<and> P r);
         rs = map (\<lambda>r. if hit r then f (w_now w) r else r) (w_runs w)
     in if \<exists>r\<in>set (w_runs w). hit r
        then if \<exists>r\<in>set (w_runs w). hit r \<and> (\<exists>r'\<in>set rs. index_clash (f (w_now w) r) r')
             then (Inl unique_violation, w)
             else (Inr True, w\<lparr>w_runs := rs\<rparr>)
        else (Inr False, w))"

definition insert_event :: "id \<Rightarrow> event_type \<Rightarrow> json \<Rightarrow> unit handler" where
  "insert_event i ty p = modify (\<lambda>w. w\<lparr>w_events := w_events w @ [\<lparr>e_run = i, e_type = ty, e_payload = p, e_created = w_now w\<rparr>]\<rparr>)"

definition insert_checks :: "check_row list \<Rightarrow> unit handler" where
  "insert_checks ks = modify (\<lambda>w. w\<lparr>w_checks := w_checks w @ ks\<rparr>)"

definition insert_task :: "human_task \<Rightarrow> id handler" where
  "insert_task h0 = (\<lambda>w. (Inr (w_next w),
     w\<lparr>w_tasks := w_tasks w @ [h0\<lparr>h_id := w_next w, h_created := w_now w\<rparr>], w_next := Suc (w_next w)\<rparr>))"

definition update_task :: "id \<Rightarrow> (int \<Rightarrow> human_task \<Rightarrow> human_task) \<Rightarrow> unit handler" where
  "update_task i f = modify (\<lambda>w. w\<lparr>w_tasks := map (\<lambda>h. if h_id h = i then f (w_now w) h else h) (w_tasks w)\<rparr>)"

definition update_ticket :: "id \<Rightarrow> (ticket \<Rightarrow> ticket) \<Rightarrow> unit handler" where
  "update_ticket i f = modify (\<lambda>w. w\<lparr>w_tickets := map (\<lambda>t. if t_id t = i then f t else t) (w_tickets w)\<rparr>)"

definition insert_ticket :: "ticket \<Rightarrow> id handler" where
  "insert_ticket t0 = (\<lambda>w. (Inr (w_next w),
     w\<lparr>w_tickets := w_tickets w @ [t0\<lparr>t_id := w_next w\<rparr>], w_next := Suc (w_next w)\<rparr>))"

text \<open>Inserting an agent: \<open>agents_workspace_key\<close> makes (workspace, key) unique.\<close>

definition insert_agent :: "agent \<Rightarrow> unit handler" where
  "insert_agent a0 = (\<lambda>w.
     if \<exists>a\<in>set (w_agents w). a_workspace a = a_workspace a0 \<and> a_key a = a_key a0
     then (Inl unique_violation, w)
     else (Inr (), w\<lparr>w_agents := w_agents w @ [a0\<lparr>a_id := w_next w\<rparr>], w_next := Suc (w_next w)\<rparr>))"

definition update_workspace :: "id \<Rightarrow> (workspace \<Rightarrow> workspace) \<Rightarrow> unit handler" where
  "update_workspace i f =
     modify (\<lambda>w. w\<lparr>w_workspaces := map (\<lambda>s. if s_id s = i then f s else s) (w_workspaces w)\<rparr>)"

section \<open>Calls to the outside\<close>

definition answer :: "jira_call \<Rightarrow> (error + 'a) \<Rightarrow> 'a handler" where
  "answer c a = (\<lambda>w. (a, w\<lparr>w_jira := w_jira w @ [(c, case a of Inl e \<Rightarrow> False | Inr x \<Rightarrow> True)]\<rparr>))"

definition done_or :: "error option \<Rightarrow> error + unit" where
  "done_or e = (case e of None \<Rightarrow> Inr () | Some x \<Rightarrow> Inl x)"

text \<open>\<open>jiraFactory.forWorkspace(ws)\<close>: may fail to decode the credentials.\<close>

definition jira_connect :: "env \<Rightarrow> id \<Rightarrow> unit handler" where
  "jira_connect E ws = (\<lambda>w. answer (J_connect ws) (done_or (env_connect E (w_jira w) ws)) w)"

definition jira_transition_to :: "env \<Rightarrow> id \<Rightarrow> string \<Rightarrow> string \<Rightarrow> unit handler" where
  "jira_transition_to E ws key status = (\<lambda>w.
     answer (J_transition ws key status) (done_or (env_transition E (w_jira w) ws key status)) w)"

definition jira_add_comment :: "env \<Rightarrow> id \<Rightarrow> string \<Rightarrow> comment \<Rightarrow> unit handler" where
  "jira_add_comment E ws key c = (\<lambda>w.
     answer (J_comment ws key c) (done_or (env_comment E (w_jira w) ws key c)) w)"

definition jira_search_updated :: "env \<Rightarrow> id \<Rightarrow> string \<Rightarrow> string list \<Rightarrow> jira_issue list handler" where
  "jira_search_updated E ws jql flds = (\<lambda>w.
     answer (J_search ws jql flds) (env_search E (w_jira w) ws jql flds) w)"

definition jira_active_sprint_ids :: "env \<Rightarrow> id \<Rightarrow> int \<Rightarrow> int list handler" where
  "jira_active_sprint_ids E ws b = (\<lambda>w. answer (J_sprints ws b) (env_sprints E (w_jira w) ws b) w)"

definition jira_project_statuses :: "env \<Rightarrow> id \<Rightarrow> string \<Rightarrow> string list handler" where
  "jira_project_statuses E ws key = (\<lambda>w. answer (J_statuses ws key) (env_statuses E (w_jira w) ws key) w)"

definition jira_board_type :: "env \<Rightarrow> id \<Rightarrow> board_type handler" where
  "jira_board_type E ws = (\<lambda>w. answer (J_board_type ws) (env_board_type E (w_jira w) ws) w)"

text \<open>\<open>queue.add\<close>; a rejected add (Redis down) throws and enqueues nothing.\<close>

definition queue_add :: "env \<Rightarrow> job \<Rightarrow> unit handler" where
  "queue_add E j = (\<lambda>w. case env_queue_add E (w_jobs w) j of
     Some e \<Rightarrow> (Inl e, w)
   | None \<Rightarrow> (Inr (), w\<lparr>w_jobs := w_jobs w @ [j]\<rparr>))"

end
