(* ===== verification/Invariants.thy ===== *)
theory Invariants
  imports World
begin

text \<open>
  The contract between the services and the database. \<open>run_step\<close> lists the ways a row of
  \<open>runs\<close> may change; \<open>world_relation\<close> is the interface a relation on worlds must offer so
  that every handler respects it, one law per primitive write; it is interpreted here on the
  two relations the development rests on: well-formedness is kept (in particular at most one
  active run per ticket and one active setup run per workspace), and history only grows
  (runs change by \<open>run_step\<close> alone, events, checks, jobs and Jira calls are append-only).
\<close>

section \<open>How a run row may change\<close>

definition same_run :: "run \<Rightarrow> run \<Rightarrow> bool" where
  "same_run r r' \<longleftrightarrow> r_id r' = r_id r \<and> r_workspace r' = r_workspace r \<and> r_ticket r' = r_ticket r \<and>
     r_agent r' = r_agent r \<and> r_executor_type r' = r_executor_type r \<and> r_trigger r' = r_trigger r \<and>
     r_created r' = r_created r"

definition same_verdict :: "run \<Rightarrow> run \<Rightarrow> bool" where
  "same_verdict r r' \<longleftrightarrow> r_status r' = r_status r \<and> r_outcome r' = r_outcome r \<and>
     r_report r' = r_report r \<and> r_error r' = r_error r \<and> r_finished r' = r_finished r"

inductive run_step :: "run \<Rightarrow> run \<Rightarrow> bool" where
  start: "same_run r r' \<Longrightarrow> r_status r \<in> {Queued, Running} \<Longrightarrow> r_status r' = Running \<Longrightarrow>
    r_outcome r' = r_outcome r \<Longrightarrow> run_step r r'"
| requeue: "same_run r r' \<Longrightarrow> r_status r = Running \<Longrightarrow> r_status r' = Queued \<Longrightarrow>
    r_outcome r' = r_outcome r \<Longrightarrow> run_step r r'"
| finish: "same_run r r' \<Longrightarrow> active (r_status r) \<Longrightarrow>
    r_status r' \<in> {Succeeded, Failed, Timed_out, Cancelled, Awaiting_human} \<Longrightarrow> run_step r r'"
| park: "same_run r r' \<Longrightarrow> r_status r = Running \<Longrightarrow> r_status r' = Awaiting_human \<Longrightarrow>
    r_outcome r' = r_outcome r \<Longrightarrow> run_step r r'"
| supersede: "same_run r r' \<Longrightarrow> r_status r = Awaiting_human \<Longrightarrow> r_status r' = Superseded \<Longrightarrow>
    run_step r r'"
| rescue: "same_run r r' \<Longrightarrow> r_status r \<in> {Failed, Timed_out} \<Longrightarrow> r_outcome r = None \<Longrightarrow>
    r_status r' \<in> {Succeeded, Failed, Awaiting_human} \<Longrightarrow> r_outcome r' \<noteq> None \<Longrightarrow> run_step r r'"
| account: "same_run r r' \<Longrightarrow> same_verdict r r' \<Longrightarrow> run_step r r'"

inductive_cases run_stepE: "run_step r r'"

lemma same_run_refl [simp]: "same_run r r"
  by (simp add: same_run_def)

lemma run_step_refl [simp]: "run_step r r"
  by (rule account) (simp_all add: same_run_def same_verdict_def)

lemma same_run_trans: "same_run r s \<Longrightarrow> same_run s t \<Longrightarrow> same_run r t"
  by (simp add: same_run_def)

lemma run_step_same_run: "run_step r r' \<Longrightarrow> same_run r r'"
  by (auto elim: run_stepE)

lemma run_steps_same_run: "run_step\<^sup>*\<^sup>* r r' \<Longrightarrow> same_run r r'"
  by (induction rule: rtranclp_induct) (auto intro: same_run_trans run_step_same_run)

text \<open>
  A settled run: stopped by a person, or finished with a verdict. Only a \<open>failed\<close> or
  \<open>timed_out\<close> run without a verdict may still be rescued by a durable report.
\<close>

definition settled :: "run \<Rightarrow> bool" where
  "settled r \<longleftrightarrow> r_status r \<in> {Succeeded, Cancelled, Superseded} \<or>
     (r_status r \<in> {Failed, Timed_out} \<and> r_outcome r \<noteq> None)"

lemma run_step_settled: "run_step r r' \<Longrightarrow> settled r \<Longrightarrow> same_verdict r r'"
  by (auto elim!: run_stepE simp: settled_def active_def)

lemma run_steps_settled: "run_step\<^sup>*\<^sup>* r r' \<Longrightarrow> settled r \<Longrightarrow> same_verdict r r'"
proof (induction rule: rtranclp_induct)
  case base
  show ?case by (simp add: same_verdict_def)
next
  case (step s t)
  then have "same_verdict r s" by blast
  moreover from this step.prems have "settled s" by (auto simp: settled_def same_verdict_def)
  ultimately show ?case using run_step_settled [OF step.hyps(2)] by (simp add: same_verdict_def)
qed

section \<open>Well-formed worlds\<close>

definition one_active :: "run list \<Rightarrow> bool" where
  "one_active rs \<longleftrightarrow> (\<forall>r\<in>set rs. \<forall>r'\<in>set rs. \<not> index_clash r r')"

definition agent_handle :: "agent \<Rightarrow> id \<times> string" where
  "agent_handle a = (a_workspace a, a_key a)"

definition world_ok :: "world \<Rightarrow> bool" where
  "world_ok w \<longleftrightarrow> distinct (map r_id (w_runs w)) \<and> (\<forall>r\<in>set (w_runs w). r_id r < w_next w) \<and>
     one_active (w_runs w) \<and> distinct (map agent_handle (w_agents w))"

lemma one_active_append:
  "one_active rs \<Longrightarrow> (\<And>r'. r' \<in> set rs \<Longrightarrow> \<not> index_clash r r') \<Longrightarrow> one_active (rs @ [r])"
proof -
  assume one: "one_active rs" and new: "\<And>r'. r' \<in> set rs \<Longrightarrow> \<not> index_clash r r'"
  have "\<not> index_clash r r" by (simp add: index_clash_def)
  with one new show ?thesis by (auto simp: one_active_def dest: index_clash_sym)
qed

lemma update_run_app:
  "update_run i P f w =
     (let hit = (\<lambda>r. r_id r = i \<and> P r);
         rs = map (\<lambda>r. if hit r then f (w_now w) r else r) (w_runs w)
     in if \<exists>r\<in>set (w_runs w). hit r
        then if \<exists>r\<in>set (w_runs w). hit r \<and> (\<exists>r'\<in>set rs. index_clash (f (w_now w) r) r')
             then (Inl unique_violation, w)
             else (Inr True, w\<lparr>w_runs := rs\<rparr>)
        else (Inr False, w))"
  by (simp add: update_run_def)

lemma update_run_cases:
  obtains (none) "update_run i P f w = (Inr False, w)" "\<And>r. r \<in> set (w_runs w) \<Longrightarrow> r_id r = i \<Longrightarrow> \<not> P r"
  | (clash) "update_run i P f w = (Inl unique_violation, w)"
  | (hit) "update_run i P f w = (Inr True,
        w\<lparr>w_runs := map (\<lambda>r. if r_id r = i \<and> P r then f (w_now w) r else r) (w_runs w)\<rparr>)"
      "\<exists>r\<in>set (w_runs w). r_id r = i \<and> P r"
      "\<And>r r'. r \<in> set (w_runs w) \<Longrightarrow> r_id r = i \<Longrightarrow> P r \<Longrightarrow>
        r' \<in> set (map (\<lambda>r. if r_id r = i \<and> P r then f (w_now w) r else r) (w_runs w)) \<Longrightarrow>
        \<not> index_clash (f (w_now w) r) r'"
proof -
  let ?hit = "\<lambda>r. r_id r = i \<and> P r"
  let ?rs = "map (\<lambda>r. if ?hit r then f (w_now w) r else r) (w_runs w)"
  show thesis
  proof (cases "\<exists>r\<in>set (w_runs w). ?hit r")
    case False
    then have "update_run i P f w = (Inr False, w)" unfolding update_run_app Let_def by (simp only: if_False)
    then show thesis using False by (intro none) auto
  next
    case True
    show thesis
    proof (cases "\<exists>r\<in>set (w_runs w). ?hit r \<and> (\<exists>r'\<in>set ?rs. index_clash (f (w_now w) r) r')")
      case clash: True
      with True have "update_run i P f w = (Inl unique_violation, w)"
        unfolding update_run_app Let_def by simp
      then show thesis by (rule that(2))
    next
      case False
      with True have "update_run i P f w = (Inr True, w\<lparr>w_runs := ?rs\<rparr>)"
        unfolding update_run_app Let_def by (simp only: if_True if_False)
      then show thesis using True False by (intro hit) blast+
    qed
  qed
qed

lemma one_active_update:
  assumes "one_active rs"
    and "\<And>r r'. r \<in> set rs \<Longrightarrow> hit r \<Longrightarrow>
        r' \<in> set (map (\<lambda>r. if hit r then g r else r) rs) \<Longrightarrow> \<not> index_clash (g r) r'"
  shows "one_active (map (\<lambda>r. if hit r then g r else r) rs)"
  unfolding one_active_def
proof (intro ballI)
  fix a b
  assume a: "a \<in> set (map (\<lambda>r. if hit r then g r else r) rs)"
    and b: "b \<in> set (map (\<lambda>r. if hit r then g r else r) rs)"
  from a obtain r where r: "r \<in> set rs" "a = (if hit r then g r else r)" by auto
  from b obtain s where s: "s \<in> set rs" "b = (if hit s then g s else s)" by auto
  show "\<not> index_clash a b"
  proof (cases "hit r \<or> hit s")
    case True
    then show ?thesis using assms(2) r s a b by (auto dest: index_clash_sym)
  next
    case False
    then show ?thesis using assms(1) r s by (simp add: one_active_def)
  qed
qed

section \<open>The interface of a relation every handler respects\<close>

text \<open>
  First the relations closed under every write but those to \<open>runs\<close>, then those closed under
  inserting queued runs, then those closed under guarded updates that take run steps as well.
\<close>

locale base_relation = state_relation R for R :: "world \<Rightarrow> world \<Rightarrow> bool" +
  assumes R_insert_event: "steps R (insert_event i ty p)"
    and R_insert_checks: "steps R (insert_checks ks)"
    and R_insert_task: "steps R (insert_task h)"
    and R_update_task: "steps R (update_task i g)"
    and R_insert_ticket: "steps R (insert_ticket t0)"
    and R_update_ticket: "steps R (update_ticket i gt)"
    and R_insert_agent: "steps R (insert_agent a0)"
    and R_update_workspace: "steps R (update_workspace i gs)"
    and R_answer: "steps R (answer c (ans :: error + unit))"
    and R_answer_issues: "steps R (answer c (ansi :: error + jira_issue list))"
    and R_answer_ints: "steps R (answer c (ansn :: error + int list))"
    and R_answer_strings: "steps R (answer c (anss :: error + string list))"
    and R_answer_board: "steps R (answer c (ansb :: error + board_type))"
    and R_queue_add: "steps R (queue_add E j)"
begin

lemma steps_jira_connect: "steps R (jira_connect E ws)"
  by (rule stepsI) (simp add: jira_connect_def stepsD [OF R_answer])

lemma steps_jira_transition: "steps R (jira_transition_to E ws k s)"
  by (rule stepsI) (simp add: jira_transition_to_def stepsD [OF R_answer])

lemma steps_jira_comment: "steps R (jira_add_comment E ws k cm)"
  by (rule stepsI) (simp add: jira_add_comment_def stepsD [OF R_answer])

lemma steps_jira_search: "steps R (jira_search_updated E ws q fs)"
  by (rule stepsI) (simp add: jira_search_updated_def stepsD [OF R_answer_issues])

lemma steps_jira_sprints: "steps R (jira_active_sprint_ids E ws b)"
  by (rule stepsI) (simp add: jira_active_sprint_ids_def stepsD [OF R_answer_ints])

lemma steps_jira_statuses: "steps R (jira_project_statuses E ws pk)"
  by (rule stepsI) (simp add: jira_project_statuses_def stepsD [OF R_answer_strings])

lemma steps_jira_board_type: "steps R (jira_board_type E ws)"
  by (rule stepsI) (simp add: jira_board_type_def stepsD [OF R_answer_board])

lemmas steps_prims [steps_intros] = R_insert_event R_insert_checks R_insert_task R_update_task
  R_insert_ticket R_update_ticket R_insert_agent R_update_workspace R_queue_add
  steps_jira_connect steps_jira_transition steps_jira_comment steps_jira_search steps_jira_sprints
  steps_jira_statuses steps_jira_board_type

end

locale insert_relation = base_relation R for R :: "world \<Rightarrow> world \<Rightarrow> bool" +
  assumes R_insert_run: "r_status r0 = Queued \<Longrightarrow> steps R (insert_run r0)"

locale world_relation = insert_relation R for R :: "world \<Rightarrow> world \<Rightarrow> bool" +
  assumes R_update_run: "(\<And>r t. P r \<Longrightarrow> run_step r (f t r)) \<Longrightarrow> steps R (update_run i P f)"

section \<open>Well-formedness is kept\<close>

definition keeps_ok :: "world \<Rightarrow> world \<Rightarrow> bool" where
  "keeps_ok w w' \<longleftrightarrow> w_next w \<le> w_next w' \<and> (world_ok w \<longrightarrow> world_ok w')"

lemma keeps_ok_update_run:
  assumes "\<And>r t. P r \<Longrightarrow> run_step r (f t r)"
  shows "keeps_ok w (snd (update_run i P f w))"
proof (cases rule: update_run_cases [of i P f w])
  case hit
  let ?rs = "map (\<lambda>r. if r_id r = i \<and> P r then f (w_now w) r else r) (w_runs w)"
  have ids: "r_id (f t r) = r_id r" if "P r" for t r
    using run_step_same_run [OF assms [OF that]] by (simp add: same_run_def)
  have 1: "map r_id ?rs = map r_id (w_runs w)" by (auto simp: ids)
  have 2: "\<forall>r\<in>set ?rs. r_id r < w_next w" if "\<forall>r\<in>set (w_runs w). r_id r < w_next w"
    using that by (auto simp: ids)
  have 3: "one_active ?rs" if "one_active (w_runs w)"
    by (rule one_active_update [OF that]) (use hit(3) in blast)
  show ?thesis using 2 3 unfolding keeps_ok_def hit(1) world_ok_def by (simp add: 1 del: map_map)
qed (simp_all add: keeps_ok_def)

lemma keeps_ok_insert_run: "keeps_ok w (snd (insert_run r0 w))"
proof -
  let ?r = "r0\<lparr>r_id := w_next w, r_created := w_now w\<rparr>"
  have "one_active (w_runs w @ [?r])"
    if "one_active (w_runs w)" "\<forall>r'\<in>set (w_runs w). \<not> index_clash ?r r'"
    using that by (intro one_active_append) auto
  moreover have "w_next w \<notin> r_id ` set (w_runs w)" if "\<forall>r\<in>set (w_runs w). r_id r < w_next w"
    using that by auto
  ultimately show ?thesis
    by (auto simp: insert_run_def keeps_ok_def world_ok_def Let_def less_Suc_eq)
qed

interpretation wf: world_relation keeps_ok
proof unfold_locales
  show "steps keeps_ok (update_run i P f)" if "\<And>r t. P r \<Longrightarrow> run_step r (f t r)" for i P f
    using that by (simp add: steps_def keeps_ok_update_run)
  show "steps keeps_ok (insert_run r0)" for r0
    by (simp add: steps_def keeps_ok_insert_run)
  show "keeps_ok u w" if "keeps_ok u v" "keeps_ok v w" for u v w
    using that by (auto simp: keeps_ok_def)
qed (auto simp: steps_def keeps_ok_def world_ok_def insert_event_def
    insert_checks_def insert_task_def update_task_def insert_ticket_def update_ticket_def
    insert_agent_def update_workspace_def answer_def queue_add_def modify_def agent_handle_def
    less_Suc_eq split: option.splits)

section \<open>History only grows\<close>

definition history :: "world \<Rightarrow> world \<Rightarrow> bool" where
  "history w w' \<longleftrightarrow>
     (\<exists>rs new. w_runs w' = rs @ new \<and> list_all2 run_step\<^sup>*\<^sup>* (w_runs w) rs) \<and>
     (\<exists>es. w_events w' = w_events w @ es) \<and> (\<exists>ks. w_checks w' = w_checks w @ ks) \<and>
     (\<exists>js. w_jobs w' = w_jobs w @ js) \<and> (\<exists>cs. w_jira w' = w_jira w @ cs)"

lemma runs_refl: "list_all2 run_step\<^sup>*\<^sup>* rs rs"
  by (rule list_all2_refl) simp

lemma history_same_runs:
  assumes "w_runs w' = w_runs w" and "\<exists>es. w_events w' = w_events w @ es"
    and "\<exists>ks. w_checks w' = w_checks w @ ks" and "\<exists>js. w_jobs w' = w_jobs w @ js"
    and "\<exists>cs. w_jira w' = w_jira w @ cs"
  shows "history w w'"
proof -
  have "w_runs w' = w_runs w @ []" using assms(1) by simp
  then show ?thesis unfolding history_def using runs_refl assms(2-) by blast
qed

lemma history_refl: "history w w"
  by (rule history_same_runs) simp_all

lemma history_trans:
  assumes "history u v" and "history v w"
  shows "history u w"
proof -
  from assms(1) obtain rs n where 1: "w_runs v = rs @ n" "list_all2 run_step\<^sup>*\<^sup>* (w_runs u) rs"
    by (auto simp: history_def)
  from assms(2) obtain rs' n' where 2: "w_runs w = rs' @ n'" "list_all2 run_step\<^sup>*\<^sup>* (w_runs v) rs'"
    by (auto simp: history_def)
  from 1 2 obtain xs ys where 3: "rs' = xs @ ys" "list_all2 run_step\<^sup>*\<^sup>* rs xs"
    by (auto simp: list_all2_append1)
  have "list_all2 run_step\<^sup>*\<^sup>* (w_runs u) xs"
    using 1(2) 3(2) by (rule list_all2_trans [rotated]) auto
  then have "\<exists>as bs. w_runs w = as @ bs \<and> list_all2 run_step\<^sup>*\<^sup>* (w_runs u) as"
    using 2(1) 3(1) by auto
  then show ?thesis using assms by (auto simp: history_def)
qed

lemma history_with_runs:
  assumes "list_all2 run_step\<^sup>*\<^sup>* (w_runs w) rs"
  shows "history w (w\<lparr>w_runs := rs\<rparr>)"
proof -
  have "\<exists>xs new. w_runs (w\<lparr>w_runs := rs\<rparr>) = xs @ new \<and> list_all2 run_step\<^sup>*\<^sup>* (w_runs w) xs"
    by (rule exI [of _ rs], rule exI [of _ "[]"]) (simp add: assms)
  then show ?thesis unfolding history_def by simp
qed

lemma history_update_run:
  assumes "\<And>r t. P r \<Longrightarrow> run_step r (f t r)"
  shows "history w (snd (update_run i P f w))"
proof (cases rule: update_run_cases [of i P f w])
  case hit
  have "list_all2 run_step\<^sup>*\<^sup>* (w_runs w)
      (map (\<lambda>r. if r_id r = i \<and> P r then f (w_now w) r else r) (w_runs w))"
    by (rule list_all2I) (auto simp: in_set_zip assms intro!: r_into_rtranclp [of run_step])
  then show ?thesis unfolding hit(1) by (simp add: history_with_runs)
qed (simp_all add: history_refl)

interpretation hist: world_relation history
proof unfold_locales
  show "history w w" for w by (rule history_refl)
  show "history u v \<Longrightarrow> history v w \<Longrightarrow> history u w" for u v w by (rule history_trans)
  show "steps history (update_run i P f)" if "\<And>r t. P r \<Longrightarrow> run_step r (f t r)" for i P f
    using that by (simp add: steps_def history_update_run)
  show "steps history (insert_run r0)" for r0
    by (auto simp: steps_def insert_run_def history_def Let_def intro: runs_refl)
qed (auto simp: steps_def insert_event_def insert_checks_def insert_task_def update_task_def
    insert_ticket_def update_ticket_def insert_agent_def update_workspace_def answer_def
    queue_add_def modify_def intro!: history_same_runs split: option.splits)

lemma history_run:
  assumes "history w w'" and "r \<in> set (w_runs w)"
  shows "\<exists>r'\<in>set (w_runs w'). run_step\<^sup>*\<^sup>* r r'"
proof -
  from assms(1) obtain rs n where "w_runs w' = rs @ n" "list_all2 run_step\<^sup>*\<^sup>* (w_runs w) rs"
    by (auto simp: history_def)
  moreover from this(2) assms(2) have "\<exists>r'\<in>set rs. run_step\<^sup>*\<^sup>* r r'"
    by (metis list_all2_conv_all_nth in_set_conv_nth)
  ultimately show ?thesis by auto
qed

section \<open>Which runs were inserted\<close>

text \<open>
  \<open>appends A\<close>: the runs that were there are untouched and every new one satisfies \<open>A\<close>.
\<close>

definition appends :: "(run \<Rightarrow> bool) \<Rightarrow> world \<Rightarrow> world \<Rightarrow> bool" where
  "appends A w w' \<longleftrightarrow> (\<exists>new. w_runs w' = w_runs w @ new \<and> (\<forall>r\<in>set new. A r))"

lemma appends_same: "w_runs w' = w_runs w \<Longrightarrow> appends A w w'"
  by (simp add: appends_def)

interpretation ap: base_relation "appends A" for A
proof unfold_locales
  show "appends A u w" if "appends A u v" "appends A v w" for u v w
    using that unfolding appends_def by (metis Un_iff append_assoc set_append)
qed (auto simp: steps_def insert_event_def insert_checks_def insert_task_def update_task_def
    insert_ticket_def update_ticket_def insert_agent_def update_workspace_def answer_def
    queue_add_def modify_def intro!: appends_same split: option.splits)

lemma appends_insert_run:
  "(\<And>i now. A (r0\<lparr>r_id := i, r_created := now\<rparr>)) \<Longrightarrow> steps (appends A) (insert_run r0)"
  by (auto simp: steps_def insert_run_def appends_def Let_def)

section \<open>No run comes back\<close>

text \<open>
  \<open>inactive i w\<close>: the run is over. Everything but the rescue of a failed run keeps it over,
  provided its id was already handed out; the clock does not move within a handler.
\<close>

definition inactive :: "id \<Rightarrow> world \<Rightarrow> bool" where
  "inactive i w \<longleftrightarrow> (\<forall>r\<in>set (w_runs w). r_id r = i \<longrightarrow> \<not> active (r_status r))"

definition no_revival :: "world \<Rightarrow> world \<Rightarrow> bool" where
  "no_revival u v \<longleftrightarrow> w_now v = w_now u \<and> w_next u \<le> w_next v \<and> (\<forall>i<w_next u. inactive i u \<longrightarrow> inactive i v)"

lemma no_revival_same: "w_now v = w_now u \<Longrightarrow> w_next u \<le> w_next v \<Longrightarrow> w_runs v = w_runs u \<Longrightarrow> no_revival u v"
  by (simp add: no_revival_def inactive_def)

interpretation nr: insert_relation no_revival
proof unfold_locales
  show "no_revival u w" if "no_revival u v" "no_revival v w" for u v w
    using that by (auto simp: no_revival_def)
  show "steps no_revival (insert_run r0)" for r0
    by (auto simp: steps_def insert_run_def no_revival_def inactive_def Let_def)
qed (auto simp: steps_def insert_event_def insert_checks_def insert_task_def update_task_def
    insert_ticket_def update_ticket_def insert_agent_def update_workspace_def answer_def
    queue_add_def modify_def intro!: no_revival_same split: option.splits)

end
