(* ===== verification/Samples.thy ===== *)
theory Samples
  imports Invariants
begin

text \<open>
  Small concrete rows and worlds on which the theorems of the development are exercised: one
  workspace with one executor, one agent and one ticket, an obliging environment, and reports
  of each outcome.
\<close>

definition sample_env :: env where
  "sample_env = \<lparr>env_connect = \<lambda>_ _. None, env_transition = \<lambda>_ _ _ _. None, env_comment = \<lambda>_ _ _ _. None,
     env_search = \<lambda>_ _ _ _. Inr [], env_sprints = \<lambda>_ _ _. Inr [], env_statuses = \<lambda>_ _ _. Inr [],
     env_board_type = \<lambda>_ _. Inr Kanban, env_queue_add = \<lambda>_ _. None\<rparr>"

definition sample_run :: "id \<Rightarrow> id option \<Rightarrow> run_status \<Rightarrow> run" where
  "sample_run i tk s = \<lparr>r_id = i, r_workspace = 1, r_ticket = tk, r_agent = 3,
     r_executor_type = ''claude-cli'', r_status = s, r_attempt = 1,
     r_trigger = JObj [(''source'', JStr ''manual'')], r_external_ref = None, r_started = None,
     r_finished = None, r_exit_code = None, r_cost = None, r_usage = None, r_error = None,
     r_report = None, r_outcome = None, r_created = 0\<rparr>"

definition sample_settings :: ws_settings where
  "sample_settings = \<lparr>st_enabled = None, st_scope_jql = None, st_rework_max = None,
     st_dependency_release_status = None, st_high_water_mark = None, st_active_sprint_ids = None, st_active_sprint_id = None, st_repositories = None\<rparr>"

definition sample_workspace :: workspace where
  "sample_workspace = \<lparr>s_id = 1, s_name = ''Demo'', s_site_url = ''https://demo.atlassian.net/'', s_project_key = ''PRJ'', s_board_id = None, s_board_type = None,
     s_settings = sample_settings\<rparr>"

definition sample_executor :: executor where
  "sample_executor = \<lparr>x_id = 2, x_type = ''claude-cli'', x_name = ''claude'', x_config = JObj [],
     x_max_parallel_runs = 1, x_enabled = True\<rparr>"

definition sample_agent :: agent where
  "sample_agent = \<lparr>a_id = 3, a_workspace = 1, a_executor = 2, a_name = ''Dev'', a_role = None,
     a_key = ''dev'', a_description = None, a_instruction = ''work'', a_is_orchestrator = False,
     a_trigger_status = Some ''To Do'', a_trigger_jql = None, a_status_running = Some ''In Progress'',
     a_status_success = ''Review'', a_status_failure = ''To Do'', a_behavior = JObj [],
     a_timeout_minutes = 30, a_max_attempts = 2, a_enabled = True\<rparr>"

definition sample_ticket :: ticket where
  "sample_ticket = \<lparr>t_id = 4, t_workspace = 1, t_jira_key = ''PRJ-1'', t_jira_id = ''10001'',
     t_summary = Some ''Fix'', t_last_seen_status = Some ''To Do'', t_last_seen_updated = None,
     t_priority_id = None, t_priority_name = None, t_blocked_by = None, t_blocked_state = None,
     t_verification = None\<rparr>"

definition sample_world :: "run list \<Rightarrow> world" where
  "sample_world rs = \<lparr>w_now = 1000, w_next = 10, w_workspaces = [sample_workspace],
     w_executors = [sample_executor], w_agents = [sample_agent], w_tickets = [sample_ticket],
     w_runs = rs, w_events = [], w_checks = [], w_tasks = [], w_jobs = [], w_jira = []\<rparr>"

definition sample_report :: agent_report where
  "sample_report = \<lparr>rp_schema_version = 1, rp_outcome = Success, rp_summary = ''done'',
     rp_checks = [\<lparr>c_name = ''tests'', c_status = Pass, c_reason = None\<rparr>], rp_human_task = None,
     rp_routing = None, rp_team = None, rp_artifacts = None\<rparr>"

definition question_report :: agent_report where
  "question_report = \<lparr>rp_schema_version = 1, rp_outcome = Needs_human, rp_summary = ''stuck'',
     rp_checks = [], rp_human_task = Some \<lparr>ht_kind = Question, ht_title = ''Which?'', ht_details = None,
       ht_options = None\<rparr>,
     rp_routing = None, rp_team = None, rp_artifacts = None\<rparr>"

lemmas sample_defs = sample_env_def sample_run_def sample_settings_def sample_workspace_def
  sample_executor_def sample_agent_def sample_ticket_def sample_world_def

lemma sample_report_parses: "report_schema (report_json sample_report) = Some sample_report"
  by code_simp

lemma question_report_parses: "report_schema (report_json question_report) = Some question_report"
  by code_simp

lemma sample_world_ok: "distinct (map r_id rs) \<Longrightarrow> (\<And>r. r \<in> set rs \<Longrightarrow> r_id r < 10) \<Longrightarrow> one_active rs \<Longrightarrow>
    world_ok (sample_world rs)"
  by (simp add: world_ok_def sample_world_def)

lemma one_active_single: "one_active [r]"
  by (simp add: one_active_def index_clash_def)

lemma sample_single_ok: "i < 10 \<Longrightarrow> world_ok (sample_world [sample_run i tk s])"
  by (rule sample_world_ok) (auto simp: sample_run_def one_active_single)

lemma sample_empty_ok: "world_ok (sample_world [])"
  by (rule sample_world_ok) (auto simp: one_active_def)

theorem report_schema_sound_witness: "report_ok question_report"
  by (rule report_schema_sound [OF question_report_parses])

end
