(* ===== verification/Runs.thy ===== *)
theory Runs
  imports Samples
begin

text \<open>
  The run state machine: \<open>libs/runs/src/runs.service.ts\<close>, the exit-status mapping
  \<open>status-mapping.ts\<close> and the enqueue seam \<open>run-trigger.service.ts\<close>. Every operation of
  \<open>RunsService\<close> that writes a status is a guarded update; each is shown to take only steps of
  \<open>run_step\<close>, so that all relations of \<open>world_relation\<close> hold across it.
\<close>

section \<open>Exit status to run outcome\<close>

datatype exit_status = Ex_completed | Ex_crashed | Ex_timeout | Ex_rate_limited | Ex_cancelled

text \<open>\<open>TerminalStatus\<close> is the subset of run statuses a run can be finalized to.\<close>

datatype map_result = Finalize run_status | Retry | Rate_limit

fun map_exit_status :: "exit_status \<Rightarrow> outcome option \<Rightarrow> int \<Rightarrow> int \<Rightarrow> map_result" where
  "map_exit_status Ex_completed out made maxa =
     (case out of
        Some Success \<Rightarrow> Finalize Succeeded
      | Some Failure \<Rightarrow> Finalize Failed
      | Some Needs_human \<Rightarrow> Finalize Awaiting_human
      | _ \<Rightarrow> Finalize Failed)"
| "map_exit_status Ex_crashed out made maxa = (if made + 1 < maxa then Retry else Finalize Failed)"
| "map_exit_status Ex_timeout out made maxa = Finalize Timed_out"
| "map_exit_status Ex_rate_limited out made maxa = Rate_limit"
| "map_exit_status Ex_cancelled out made maxa = Finalize Cancelled"

section \<open>RunsService\<close>

text \<open>\<open>FinalizeExtra\<close>: members left undefined are not written.\<close>

record finalize_extra =
  fx_external_ref :: "string option"
  fx_cost :: "rat option"
  fx_usage :: "json option"
  fx_error :: "string option"
  fx_exit_code :: "int option"

definition no_extra :: finalize_extra where
  "no_extra = \<lparr>fx_external_ref = None, fx_cost = None, fx_usage = None, fx_error = None, fx_exit_code = None\<rparr>"

definition override :: "'a option \<Rightarrow> 'a option \<Rightarrow> 'a option" where
  "override new old = (case new of None \<Rightarrow> old | Some x \<Rightarrow> Some x)"

definition apply_extra :: "finalize_extra \<Rightarrow> run \<Rightarrow> run" where
  "apply_extra fx r = r\<lparr>r_external_ref := override (fx_external_ref fx) (r_external_ref r),
     r_cost := override (fx_cost fx) (r_cost r), r_usage := override (fx_usage fx) (r_usage r),
     r_error := override (fx_error fx) (r_error r), r_exit_code := override (fx_exit_code fx) (r_exit_code r)\<rparr>"

definition report_terminal_status :: "agent_report \<Rightarrow> run_status" where
  "report_terminal_status rep =
     (if rp_outcome rep = Success \<or> rp_outcome rep = Routed then Succeeded
      else if rp_outcome rep = Failure then Failed else Awaiting_human)"

definition mark_running :: "id \<Rightarrow> int \<Rightarrow> bool handler" where
  "mark_running i n = update_run i (\<lambda>r. r_status r = Queued \<or> r_status r = Running)
     (\<lambda>now r. r\<lparr>r_status := Running, r_started := (case r_started r of None \<Rightarrow> Some now | s \<Rightarrow> s),
        r_attempt := max (r_attempt r) n\<rparr>)"

definition mark_queued_for_retry :: "id \<Rightarrow> bool handler" where
  "mark_queued_for_retry i = update_run i (\<lambda>r. r_status r = Running) (\<lambda>now r. r\<lparr>r_status := Queued\<rparr>)"

definition guarded_finalize :: "id \<Rightarrow> run_status \<Rightarrow> (run \<Rightarrow> run) \<Rightarrow> bool handler" where
  "guarded_finalize i s upd = update_run i (\<lambda>r. active (r_status r))
     (\<lambda>now r. upd (r\<lparr>r_status := s, r_finished := Some now\<rparr>))"

text \<open>\<open>ReportSchema.parse\<close>: throws on a report the schema refuses.\<close>

definition parse_report :: "json \<Rightarrow> agent_report handler" where
  "parse_report raw = (case report_schema raw of
     None \<Rightarrow> throw (mk_error Other_failure ''ZodError'') | Some rep \<Rightarrow> ret rep)"

definition check_rows :: "id \<Rightarrow> agent_report \<Rightarrow> check_row list" where
  "check_rows i rep = map (\<lambda>(n, c). \<lparr>k_run = i, k_position = n, k_name = c_name c, k_status = c_status c,
     k_reason = c_reason c\<rparr>) (enumerate 0 (rp_checks rep))"

definition write_checks :: "id \<Rightarrow> agent_report \<Rightarrow> unit handler" where
  "write_checks i rep = (if rp_checks rep = [] then ret () else insert_checks (check_rows i rep))"

text \<open>An open task of a run with the given blocking-ness, the dedup predicate of FR-020.\<close>

definition open_task_of_run :: "id \<Rightarrow> bool \<Rightarrow> human_task \<Rightarrow> bool" where
  "open_task_of_run i b h \<longleftrightarrow> h_run h = Some i \<and> h_status h = Open \<and> h_blocking h = b"

definition report_task_row :: "run \<Rightarrow> report_human_task \<Rightarrow> human_task" where
  "report_task_row r ht = \<lparr>h_id = 0, h_workspace = r_workspace r, h_run = Some (r_id r),
     h_ticket = r_ticket r, h_kind = ht_kind ht, h_title = ht_title ht, h_details = ht_details ht,
     h_options = ht_options ht, h_blocking = True, h_status = Open, h_resolution = None, h_created = 0,
     h_resolved_at = None, h_resolved_by = None\<rparr>"

definition create_human_task :: "id \<Rightarrow> report_human_task \<Rightarrow> unit handler" where
  "create_human_task i ht =
     bnd (gets (\<lambda>w. find (open_task_of_run i True) (w_tasks w))) (\<lambda>existing.
     case existing of Some h \<Rightarrow> ret ()
     | None \<Rightarrow> bnd (gets (find_run i)) (\<lambda>run.
         case run of None \<Rightarrow> ret ()
         | Some r \<Rightarrow> bnd (insert_task (report_task_row r ht)) (\<lambda>_. ret ())))"

definition apply_report_effects :: "id \<Rightarrow> agent_report \<Rightarrow> unit handler" where
  "apply_report_effects i rep =
     andthen (write_checks i rep)
       (case rp_human_task rep of
          Some ht \<Rightarrow> if rp_outcome rep = Needs_human then create_human_task i ht else ret ()
        | None \<Rightarrow> ret ())"

definition with_report :: "agent_report \<Rightarrow> finalize_extra \<Rightarrow> run \<Rightarrow> run" where
  "with_report rep fx r = apply_extra fx (r\<lparr>r_outcome := Some (rp_outcome rep), r_report := Some rep\<rparr>)"

definition finalize_with_report :: "id \<Rightarrow> json \<Rightarrow> finalize_extra \<Rightarrow> bool handler" where
  "finalize_with_report i raw fx =
     bnd (parse_report raw) (\<lambda>rep.
     bnd (guarded_finalize i (report_terminal_status rep) (with_report rep fx)) (\<lambda>finalized.
     if \<not> finalized then ret False
     else andthen (apply_report_effects i rep) (ret True)))"

definition reconcile_with_report :: "id \<Rightarrow> json \<Rightarrow> finalize_extra \<Rightarrow> bool handler" where
  "reconcile_with_report i raw fx =
     bnd (parse_report raw) (\<lambda>rep.
     bnd (update_run i
            (\<lambda>r. active (r_status r) \<or> (r_status r = Failed \<or> r_status r = Timed_out) \<and> r_outcome r = None)
            (\<lambda>now r. with_report rep fx (r\<lparr>r_status := report_terminal_status rep, r_finished := Some now\<rparr>)))
       (\<lambda>flipped.
     if \<not> flipped then ret False
     else andthen (apply_report_effects i rep) (ret True)))"

definition fail_if_still_running :: "id \<Rightarrow> string \<Rightarrow> bool handler" where
  "fail_if_still_running i diagnostic = update_run i (\<lambda>r. r_status r = Running)
     (\<lambda>now r. r\<lparr>r_status := Failed, r_finished := Some now, r_error := Some diagnostic\<rparr>)"

definition park_if_still_running :: "id \<Rightarrow> bool handler" where
  "park_if_still_running i = update_run i (\<lambda>r. r_status r = Running) (\<lambda>now r. r\<lparr>r_status := Awaiting_human\<rparr>)"

definition terminal_status :: "run_status \<Rightarrow> bool" where
  "terminal_status s \<longleftrightarrow> s \<in> {Succeeded, Failed, Timed_out, Cancelled, Awaiting_human}"

definition finalize_status_if_running :: "id \<Rightarrow> run_status \<Rightarrow> finalize_extra \<Rightarrow> bool handler" where
  "finalize_status_if_running i s fx = update_run i (\<lambda>r. r_status r = Running)
     (\<lambda>now r. apply_extra fx (r\<lparr>r_status := s, r_finished := Some now\<rparr>))"

definition finalize_status :: "id \<Rightarrow> run_status \<Rightarrow> finalize_extra \<Rightarrow> bool handler" where
  "finalize_status i s fx = guarded_finalize i s (apply_extra fx)"

text \<open>Cost and usage are data columns: written by id, whatever the status.\<close>

definition record_cost_usage :: "id \<Rightarrow> rat option \<Rightarrow> json option \<Rightarrow> unit handler" where
  "record_cost_usage i c u =
     (if c = None \<and> u = None then ret ()
      else catch (bnd (update_run i (\<lambda>r. True)
                     (\<lambda>now r. r\<lparr>r_cost := override c (r_cost r), r_usage := override u (r_usage r)\<rparr>))
                   (\<lambda>_. ret ()))
             (\<lambda>e. ret ()))"

section \<open>RunTriggerService\<close>

definition continuation_sources :: "string list" where
  "continuation_sources = [''triage'', ''rework'', ''human-resume'', ''answer-triage'']"

definition queue_dedup_skip_sources :: "string list" where
  "queue_dedup_skip_sources = continuation_sources @ [''workspace-setup'']"

datatype trigger_result = Triggered id | Deduplicated "id option"

text \<open>\<open>triggerEvent?.source\<close>; the column default of a missing event is \<open>manual\<close>.\<close>

definition trigger_source :: "json \<Rightarrow> string option" where
  "trigger_source ev = jget_str ev ''source''"

definition manual_event :: json where
  "manual_event = JObj [(''source'', JStr ''manual'')]"

text \<open>The row an enqueue inserts; the id and creation time are the database's.\<close>

definition queued_run :: "id \<Rightarrow> id option \<Rightarrow> id \<Rightarrow> string \<Rightarrow> int \<Rightarrow> json \<Rightarrow> run" where
  "queued_run ws tk ag ty n ev = \<lparr>r_id = 0, r_workspace = ws, r_ticket = tk, r_agent = ag,
     r_executor_type = ty, r_status = Queued, r_attempt = n, r_trigger = ev, r_external_ref = None,
     r_started = None, r_finished = None, r_exit_code = None, r_cost = None, r_usage = None,
     r_error = None, r_report = None, r_outcome = None, r_created = 0\<rparr>"

text \<open>The holder of the slot an insert clashed on.\<close>

definition slot_holder :: "id option \<Rightarrow> id \<Rightarrow> run \<Rightarrow> bool" where
  "slot_holder tk ws r \<longleftrightarrow>
     (case tk of None \<Rightarrow> r_workspace r = ws \<and> r_ticket r = None | Some t \<Rightarrow> r_ticket r = Some t) \<and>
     active (r_status r)"

text \<open>The insert, with the lookup of the slot's holder when the unique index refuses it.\<close>

definition insert_queued :: "run \<Rightarrow> trigger_result handler" where
  "insert_queued r0 =
     catch (bnd (insert_run r0) (\<lambda>i. ret (Triggered i)))
       (\<lambda>e. if en_kind e = Unique_violation
            then bnd (gets (\<lambda>w. find (slot_holder (r_ticket r0) (r_workspace r0)) (w_runs w)))
                   (\<lambda>existing. ret (Deduplicated (map_option r_id existing)))
            else throw e)"

definition dedup_id :: "id option \<Rightarrow> id \<Rightarrow> json \<Rightarrow> (id option \<times> id) option" where
  "dedup_id tk ag ev =
     (if (case trigger_source ev of None \<Rightarrow> ''manual'' | Some s \<Rightarrow> s) \<in> set queue_dedup_skip_sources then None
      else Some (tk, ag))"

definition trigger :: "env \<Rightarrow> id option \<Rightarrow> id \<Rightarrow> json option \<Rightarrow> trigger_result handler" where
  "trigger E tk ag ev0 =
     bnd (gets (find_agent ag)) (\<lambda>agent.
     case agent of None \<Rightarrow> throw (mk_error Other_failure ''agent not found'')
     | Some a \<Rightarrow>
       bnd (gets (find_executor (a_executor a))) (\<lambda>executor.
       case executor of None \<Rightarrow> throw (mk_error Other_failure ''executor not found'')
       | Some x \<Rightarrow>
         let ev = (case ev0 of None \<Rightarrow> manual_event | Some e \<Rightarrow> e) in
         bnd (insert_queued (queued_run (a_workspace a) tk ag (x_type x) 1 ev)) (\<lambda>res.
         case res of Deduplicated h \<Rightarrow> ret (Deduplicated h)
         | Triggered i \<Rightarrow>
             andthen (queue_add E \<lparr>j_queue = x_type x, j_run = i, j_dedup = dedup_id tk ag ev,
                        j_attempts = Some (a_max_attempts a)\<rparr>)
               (ret (Triggered i)))))"

section \<open>Every operation takes run steps\<close>

lemma apply_extra_same [simp]:
  "same_run r (apply_extra fx s) \<longleftrightarrow> same_run r s"
  "r_status (apply_extra fx s) = r_status s" "r_outcome (apply_extra fx s) = r_outcome s"
  "r_report (apply_extra fx s) = r_report s" "r_finished (apply_extra fx s) = r_finished s"
  "r_id (apply_extra fx s) = r_id s" "r_ticket (apply_extra fx s) = r_ticket s"
  "r_workspace (apply_extra fx s) = r_workspace s" "r_started (apply_extra fx s) = r_started s"
  by (simp_all add: apply_extra_def same_run_def)

lemma report_terminal: "report_terminal_status rep \<in> {Succeeded, Failed, Awaiting_human}"
  by (simp add: report_terminal_status_def)

lemma step_finish:
  "terminal_status s \<Longrightarrow> active (r_status r) \<Longrightarrow> same_run r r' \<Longrightarrow> r_status r' = s \<Longrightarrow> run_step r r'"
  by (rule run_step.finish) (auto simp: terminal_status_def)

lemma terminal_of_report: "terminal_status (report_terminal_status rep)"
  using report_terminal [of rep] by (auto simp: terminal_status_def)

context base_relation
begin

lemma steps_parse_report [steps_intros]: "steps R (parse_report raw)"
  unfolding parse_report_def by (intro steps_intros)

lemma steps_create_task [steps_intros]: "steps R (create_human_task i ht)"
  unfolding create_human_task_def by (intro steps_intros)

lemma steps_report_effects [steps_intros]: "steps R (apply_report_effects i rep)"
  unfolding apply_report_effects_def write_checks_def by (intro steps_intros)

end

context insert_relation
begin

lemma steps_insert_queued: "r_status r0 = Queued \<Longrightarrow> steps R (insert_queued r0)"
  unfolding insert_queued_def by (intro steps_intros R_insert_run)

lemma steps_trigger [steps_intros]: "steps R (trigger E tk ag ev)"
  unfolding trigger_def
  by (intro steps_intros steps_insert_queued) (auto simp: queued_run_def split: trigger_result.splits intro!: steps_intros)

end

context world_relation
begin

lemma steps_mark_running [steps_intros]: "steps R (mark_running i n)"
  unfolding mark_running_def by (rule R_update_run, rule run_step.start) (auto simp: same_run_def)

lemma steps_mark_queued [steps_intros]: "steps R (mark_queued_for_retry i)"
  unfolding mark_queued_for_retry_def by (rule R_update_run, rule run_step.requeue) (auto simp: same_run_def)

lemma steps_fail_if_running [steps_intros]: "steps R (fail_if_still_running i d)"
  unfolding fail_if_still_running_def
  by (rule R_update_run, rule run_step.finish) (auto simp: same_run_def active_def)

lemma steps_park_if_running [steps_intros]: "steps R (park_if_still_running i)"
  unfolding park_if_still_running_def by (rule R_update_run, rule run_step.park) (auto simp: same_run_def)

lemma steps_finalize_if_running [steps_intros]:
  "terminal_status s \<Longrightarrow> steps R (finalize_status_if_running i s fx)"
  unfolding finalize_status_if_running_def
  by (rule R_update_run, rule step_finish [of s]) (auto simp: same_run_def active_def apply_extra_def)

lemma steps_guarded_finalize:
  "terminal_status s \<Longrightarrow> (\<And>r. same_run r (upd r) \<and> r_status (upd r) = r_status r) \<Longrightarrow>
    steps R (guarded_finalize i s upd)"
  unfolding guarded_finalize_def
  by (rule R_update_run, rule step_finish [of s]) (auto simp: same_run_def)

lemma steps_finalize_status [steps_intros]: "terminal_status s \<Longrightarrow> steps R (finalize_status i s fx)"
  unfolding finalize_status_def by (rule steps_guarded_finalize) (auto simp: same_run_def apply_extra_def)

lemma steps_finalize_with_report [steps_intros]: "steps R (finalize_with_report i raw fx)"
  unfolding finalize_with_report_def
  by (intro steps_intros steps_guarded_finalize terminal_of_report)
     (simp add: with_report_def apply_extra_def same_run_def)

lemma steps_reconcile_with_report [steps_intros]: "steps R (reconcile_with_report i raw fx)"
  unfolding reconcile_with_report_def
proof (intro steps_intros R_update_run)
  fix rep t and r :: run
  let ?r' = "with_report rep fx (r\<lparr>r_status := report_terminal_status rep, r_finished := Some t\<rparr>)"
  have r': "same_run r ?r'" "r_status ?r' = report_terminal_status rep" "r_outcome ?r' \<noteq> None"
    by (simp_all add: with_report_def same_run_def apply_extra_def)
  assume "active (r_status r) \<or> (r_status r = Failed \<or> r_status r = Timed_out) \<and> r_outcome r = None"
  then show "run_step r ?r'"
    using r' report_terminal [of rep] by (metis insert_iff run_step.finish run_step.rescue)
qed

lemma steps_record_cost [steps_intros]: "steps R (record_cost_usage i c u)"
  unfolding record_cost_usage_def
  by (intro steps_intros R_update_run run_step.account) (auto simp: same_run_def same_verdict_def)

end

lemma steps_trigger_appends:
  assumes "\<And>ws ty n e i now. A ((queued_run ws tk ag ty n e)\<lparr>r_id := i, r_created := now\<rparr>)"
  shows "steps (appends A) (trigger E tk ag ev)"
proof -
  have "steps (appends A) (insert_queued (queued_run ws tk ag ty n e))" for ws ty n e
    unfolding insert_queued_def by (intro steps_intros appends_insert_run assms)
  then show ?thesis
    unfolding trigger_def by (intro steps_intros) (auto split: trigger_result.splits intro!: steps_intros)
qed

section \<open>What the guarded updates do in a well-formed world\<close>

lemma find_run_in: "world_ok w \<Longrightarrow> r \<in> set (w_runs w) \<Longrightarrow> find_run (r_id r) w = Some r"
  unfolding find_run_def world_ok_def by (rule find_distinct) auto

lemma find_run_Some: "find_run i w = Some r \<Longrightarrow> r \<in> set (w_runs w) \<and> r_id r = i"
  unfolding find_run_def by (auto dest: find_Some_mem)

lemma update_run_miss:
  "(\<And>r. r \<in> set (w_runs w) \<Longrightarrow> r_id r = i \<Longrightarrow> \<not> P r) \<Longrightarrow> update_run i P f w = (Inr False, w)"
  unfolding update_run_app Let_def by (subst if_not_P) auto

lemma update_run_hit:
  assumes ok: "world_ok w" and r: "r \<in> set (w_runs w)" and P: "P r"
    and same: "same_run r (f (w_now w) r)"
    and act: "active (r_status (f (w_now w) r)) \<Longrightarrow> active (r_status r)"
  shows "update_run (r_id r) P f w = (Inr True,
     w\<lparr>w_runs := map (\<lambda>s. if r_id s = r_id r then f (w_now w) r else s) (w_runs w)\<rparr>)"
proof -
  let ?f = "f (w_now w) r"
  have dist: "s = r" if "s \<in> set (w_runs w)" "r_id s = r_id r" for s
    using ok r that by (auto simp: world_ok_def distinct_map dest: inj_onD)
  have map_eq: "map (\<lambda>s. if r_id s = r_id r \<and> P s then f (w_now w) s else s) (w_runs w) =
      map (\<lambda>s. if r_id s = r_id r then ?f else s) (w_runs w)"
    by (rule map_cong [OF refl]) (auto simp: P dest: dist)
  have noclash: "\<not> index_clash ?f r'"
    if "r' \<in> set (map (\<lambda>s. if r_id s = r_id r then ?f else s) (w_runs w))" for r'
  proof
    assume clash: "index_clash ?f r'"
    with that have "r' \<in> set (w_runs w)" by (auto simp: index_clash_def split: if_splits)
    moreover have "index_clash r r'"
      using clash act same by (auto simp: index_clash_def same_run_def split: option.splits)
    ultimately show False using ok r by (auto simp: world_ok_def one_active_def)
  qed
  show ?thesis
  proof (cases rule: update_run_cases [of "r_id r" P f w])
    case none
    then show ?thesis using r P by blast
  next
    case clash
    then have "\<exists>s\<in>set (w_runs w). (r_id s = r_id r \<and> P s) \<and>
        (\<exists>r'\<in>set (map (\<lambda>s. if r_id s = r_id r \<and> P s then f (w_now w) s else s) (w_runs w)).
          index_clash (f (w_now w) s) r')"
      unfolding update_run_app Let_def by (auto split: if_splits simp: unique_violation_def)
    then show ?thesis using noclash dist unfolding map_eq by blast
  next
    case hit
    then show ?thesis unfolding map_eq by simp
  qed
qed

lemma find_run_updated:
  "r \<in> set (w_runs w) \<Longrightarrow> r_id r' = r_id r \<Longrightarrow> w_runs w' = map (\<lambda>s. if r_id s = r_id r then r' else s) (w_runs w) \<Longrightarrow>
    find_run (r_id r) w' = Some r'"
  unfolding find_run_def by (simp add: find_map_replaced)

lemma guarded_finalize_miss:
  "(\<And>r. r \<in> set (w_runs w) \<Longrightarrow> r_id r = i \<Longrightarrow> \<not> active (r_status r)) \<Longrightarrow>
    guarded_finalize i s upd w = (Inr False, w)"
  unfolding guarded_finalize_def by (rule update_run_miss)

lemma with_report_simps [simp]:
  "r_outcome (with_report rep fx r) = Some (rp_outcome rep)" "r_report (with_report rep fx r) = Some rep"
  "r_status (with_report rep fx r) = r_status r" "r_finished (with_report rep fx r) = r_finished r"
  "same_run s (with_report rep fx r) = same_run s r" "r_id (with_report rep fx r) = r_id r"
  "r_ticket (with_report rep fx r) = r_ticket r" "r_workspace (with_report rep fx r) = r_workspace r"
  "r_agent (with_report rep fx r) = r_agent r" "r_trigger (with_report rep fx r) = r_trigger r"
  "r_executor_type (with_report rep fx r) = r_executor_type r" "r_created (with_report rep fx r) = r_created r"
  by (simp_all add: with_report_def apply_extra_def same_run_def)

definition finalized_by :: "agent_report \<Rightarrow> finalize_extra \<Rightarrow> int \<Rightarrow> run \<Rightarrow> run" where
  "finalized_by rep fx now r =
     with_report rep fx (r\<lparr>r_status := report_terminal_status rep, r_finished := Some now\<rparr>)"

lemma finalize_with_report_hit:
  assumes "world_ok w" and "r \<in> set (w_runs w)" and "active (r_status r)" and "report_schema raw = Some rep"
  shows "finalize_with_report (r_id r) raw fx w =
     andthen (apply_report_effects (r_id r) rep) (ret True)
       (w\<lparr>w_runs := map (\<lambda>s. if r_id s = r_id r then finalized_by rep fx (w_now w) r else s) (w_runs w)\<rparr>)"
proof -
  have "guarded_finalize (r_id r) (report_terminal_status rep) (with_report rep fx) w =
    (Inr True, w\<lparr>w_runs := map (\<lambda>s. if r_id s = r_id r then finalized_by rep fx (w_now w) r else s) (w_runs w)\<rparr>)"
    unfolding guarded_finalize_def finalized_by_def
    using assms(1-3) by (intro update_run_hit) (auto simp: same_run_def)
  then show ?thesis
    using assms(4) by (simp add: finalize_with_report_def parse_report_def act_simps)
qed

lemma write_checks_app: "write_checks i rep w = (Inr (), w\<lparr>w_checks := w_checks w @ check_rows i rep\<rparr>)"
  by (simp add: write_checks_def insert_checks_def act_simps check_rows_def)

lemma create_human_task_app:
  "create_human_task i ht w =
     (if \<exists>h\<in>set (w_tasks w). open_task_of_run i True h then (Inr (), w)
      else case find_run i w of None \<Rightarrow> (Inr (), w)
        | Some r \<Rightarrow> (Inr (), w\<lparr>w_tasks := w_tasks w @ [(report_task_row r ht)\<lparr>h_id := w_next w, h_created := w_now w\<rparr>],
                           w_next := Suc (w_next w)\<rparr>))"
proof (cases "find (open_task_of_run i True) (w_tasks w)")
  case None
  then have "\<not> (\<exists>h\<in>set (w_tasks w). open_task_of_run i True h)" by (auto simp: find_None_iff)
  with None show ?thesis
    by (simp add: create_human_task_def act_simps insert_task_def split: option.split)
next
  case (Some h)
  then have "\<exists>h\<in>set (w_tasks w). open_task_of_run i True h" by (auto dest: find_Some_mem)
  with Some show ?thesis by (simp add: create_human_task_def act_simps)
qed

section \<open>Properties of finalization\<close>

text \<open>
  Finalizing is at most once: when no active run has the id (it was finalized, cancelled
  or never existed) a second valid report is refused and the database is left untouched.
\<close>

theorem finalize_with_report_once:
  assumes "report_schema raw = Some rep"
    and "\<forall>r\<in>set (w_runs w). r_id r = i \<longrightarrow> \<not> active (r_status r)"
  shows "finalize_with_report i raw fx w = (Inr False, w)"
  using assms guarded_finalize_miss [of w i "report_terminal_status rep" "with_report rep fx"]
  by (simp add: finalize_with_report_def parse_report_def act_simps)

theorem finalize_with_report_once_witness:
  "finalize_with_report 7 (report_json sample_report) no_extra (sample_world [sample_run 7 None Cancelled]) =
     (Inr False, sample_world [sample_run 7 None Cancelled])"
  by (rule finalize_with_report_once [OF sample_report_parses])
     (simp add: sample_defs active_def)

text \<open>
  C4. A valid report on an active run is applied completely: the run ends in the status its
  outcome dictates with outcome, report and finish time stored, one checklist row per check
  follows the existing ones in order, and a \<open>needs_human\<close> report leaves an open blocking task
  of the run behind.
\<close>

theorem finalize_with_report_applies:
  assumes "world_ok w" and "r \<in> set (w_runs w)" and "active (r_status r)"
    and "report_schema raw = Some rep"
  shows "\<exists>w' r'. finalize_with_report (r_id r) raw fx w = (Inr True, w') \<and>
     find_run (r_id r) w' = Some r' \<and> same_run r r' \<and> r_status r' = report_terminal_status rep \<and>
     r_outcome r' = Some (rp_outcome rep) \<and> r_report r' = Some rep \<and> r_finished r' = Some (w_now w) \<and>
     w_checks w' = w_checks w @ check_rows (r_id r) rep \<and>
     (rp_outcome rep = Needs_human \<longrightarrow> (\<exists>h\<in>set (w_tasks w'). open_task_of_run (r_id r) True h))"
proof -
  let ?i = "r_id r" and ?r' = "finalized_by rep fx (w_now w) r"
  let ?w1 = "w\<lparr>w_runs := map (\<lambda>s. if r_id s = ?i then ?r' else s) (w_runs w)\<rparr>"
  let ?w2 = "?w1\<lparr>w_checks := w_checks w @ check_rows ?i rep\<rparr>"
  note hit = finalize_with_report_hit [OF assms, of fx]
  have r': "same_run r ?r'" "r_id ?r' = ?i" "r_status ?r' = report_terminal_status rep"
    "r_outcome ?r' = Some (rp_outcome rep)" "r_report ?r' = Some rep" "r_finished ?r' = Some (w_now w)"
    by (simp_all add: finalized_by_def same_run_def)
  have found: "find_run ?i w' = Some ?r'" if "w_runs w' = w_runs ?w1" for w'
    using find_run_updated [OF assms(2) r'(2)] that by simp
  have ref: "rp_outcome rep = Needs_human \<longrightarrow> rp_human_task rep \<noteq> None"
    using report_schema_refined [OF assms(4)] by (auto simp: report_refinement_def)
  obtain w' where w': "apply_report_effects ?i rep ?w1 = (Inr (), w')"
    and runs: "w_runs w' = w_runs ?w1" and checks: "w_checks w' = w_checks w @ check_rows ?i rep"
    and tasks: "rp_outcome rep = Needs_human \<longrightarrow> (\<exists>h\<in>set (w_tasks w'). open_task_of_run ?i True h)"
  proof (cases "rp_outcome rep = Needs_human")
    case False
    then show thesis
      by (intro that [of ?w2]) (auto simp: apply_report_effects_def act_simps write_checks_app split: option.splits)
  next
    case True
    with ref obtain ht where ht: "rp_human_task rep = Some ht" by auto
    show thesis
    proof (cases "\<exists>h\<in>set (w_tasks w). open_task_of_run ?i True h")
      case True
      with ht \<open>rp_outcome rep = Needs_human\<close> show thesis
        by (intro that [of ?w2]) (auto simp: apply_report_effects_def act_simps write_checks_app create_human_task_app)
    next
      case False
      have "find_run ?i ?w2 = Some ?r'" by (rule found) simp
      with False ht True show thesis
        by (intro that [of "?w2\<lparr>w_tasks := w_tasks w @ [(report_task_row ?r' ht)\<lparr>h_id := w_next w, h_created := w_now w\<rparr>],
              w_next := Suc (w_next w)\<rparr>"])
           (auto simp: apply_report_effects_def act_simps write_checks_app create_human_task_app
             open_task_of_run_def report_task_row_def r')
    qed
  qed
  then have "finalize_with_report ?i raw fx w = (Inr True, w')"
    by (simp add: hit act_simps)
  then show ?thesis using found [OF runs] checks tasks r' by blast
qed

theorem finalize_with_report_applies_witness:
  "\<exists>w' r'. finalize_with_report 7 (report_json question_report) no_extra
       (sample_world [sample_run 7 (Some 4) Running]) = (Inr True, w') \<and>
     find_run 7 w' = Some r' \<and> r_status r' = Awaiting_human \<and> w_tasks w' \<noteq> []"
proof -
  let ?r = "sample_run 7 (Some 4) Running" and ?w = "sample_world [sample_run 7 (Some 4) Running]"
  have "world_ok ?w" "?r \<in> set (w_runs ?w)" "active (r_status ?r)"
    by (simp_all add: sample_single_ok) (simp_all add: sample_defs active_def)
  from finalize_with_report_applies [OF this question_report_parses, of no_extra] show ?thesis
    by (auto simp: question_report_def report_terminal_status_def sample_run_def)
qed

text \<open>
  The process outcome never clobbers a parked or finished run: unless the run is
  \<open>running\<close>, the fail-closed write, the park promotion and the exit-derived finalization are
  no-ops on the whole database.
\<close>

theorem exit_writes_spare_parked:
  assumes "\<forall>r\<in>set (w_runs w). r_id r = i \<longrightarrow> r_status r \<noteq> Running"
  shows "fail_if_still_running i d w = (Inr False, w) \<and> park_if_still_running i w = (Inr False, w) \<and>
    finalize_status_if_running i s fx w = (Inr False, w)"
  unfolding fail_if_still_running_def park_if_still_running_def finalize_status_if_running_def
  using assms by (auto intro!: update_run_miss)

theorem exit_writes_spare_parked_witness:
  "park_if_still_running 7 (sample_world [sample_run 7 (Some 4) Awaiting_human]) =
     (Inr False, sample_world [sample_run 7 (Some 4) Awaiting_human])"
  using exit_writes_spare_parked [of "sample_world [sample_run 7 (Some 4) Awaiting_human]" 7]
  by (simp add: sample_defs)

section \<open>Properties of the enqueue seam\<close>

definition trigger_event_or_manual :: "json option \<Rightarrow> json" where
  "trigger_event_or_manual ev0 = (case ev0 of None \<Rightarrow> manual_event | Some e \<Rightarrow> e)"

definition run_job :: "agent \<Rightarrow> executor \<Rightarrow> id \<Rightarrow> id option \<Rightarrow> json option \<Rightarrow> job" where
  "run_job a x i tk ev0 = \<lparr>j_queue = x_type x, j_run = i,
     j_dedup = dedup_id tk (a_id a) (trigger_event_or_manual ev0), j_attempts = Some (a_max_attempts a)\<rparr>"

lemma insert_run_clash_iff:
  assumes "world_ok w" and "r_status r0 = Queued"
  shows "(\<exists>r'\<in>set (w_runs w). index_clash (r0\<lparr>r_id := w_next w, r_created := w_now w\<rparr>) r') \<longleftrightarrow>
    (\<exists>r'\<in>set (w_runs w). slot_holder (r_ticket r0) (r_workspace r0) r')"
  by (rule bex_cong [OF refl])
     (use assms in \<open>auto simp: world_ok_def index_clash_def slot_holder_def active_def split: option.splits\<close>)

lemma insert_queued_busy:
  assumes "world_ok w" and "r_status r0 = Queued"
    and "find (slot_holder (r_ticket r0) (r_workspace r0)) (w_runs w) = Some h"
  shows "insert_queued r0 w = (Inr (Deduplicated (Some (r_id h))), w)"
proof -
  have "insert_run r0 w = (Inl unique_violation, w)"
    using find_Some_mem [OF assms(3)] insert_run_clash_iff [OF assms(1,2)]
    by (auto simp: insert_run_def Let_def)
  then show ?thesis
    using assms(3) by (simp add: insert_queued_def act_simps unique_violation_def mk_error_def)
qed

lemma insert_queued_free:
  assumes "world_ok w" and "r_status r0 = Queued"
    and "find (slot_holder (r_ticket r0) (r_workspace r0)) (w_runs w) = None"
  shows "insert_queued r0 w = (Inr (Triggered (w_next w)),
    w\<lparr>w_runs := w_runs w @ [r0\<lparr>r_id := w_next w, r_created := w_now w\<rparr>], w_next := Suc (w_next w)\<rparr>)"
proof -
  have "\<not> (\<exists>r'\<in>set (w_runs w). slot_holder (r_ticket r0) (r_workspace r0) r')"
    using assms(3) by (auto simp: find_None_iff)
  with insert_run_clash_iff [OF assms(1,2)] show ?thesis
    by (simp add: insert_queued_def insert_run_def act_simps Let_def)
qed

lemma trigger_app:
  assumes "world_ok w" and "find_agent ag w = Some a" and "find_executor (a_executor a) w = Some x"
  shows "trigger E tk ag ev w =
    (case find (slot_holder tk (a_workspace a)) (w_runs w) of
       Some h \<Rightarrow> (Inr (Deduplicated (Some (r_id h))), w)
     | None \<Rightarrow>
        (let w1 = w\<lparr>w_runs := w_runs w @ [(queued_run (a_workspace a) tk ag (x_type x) 1
                      (trigger_event_or_manual ev))\<lparr>r_id := w_next w, r_created := w_now w\<rparr>],
                    w_next := Suc (w_next w)\<rparr>;
             j = run_job a x (w_next w) tk ev
         in case env_queue_add E (w_jobs w) j of
              Some e \<Rightarrow> (Inl e, w1)
            | None \<Rightarrow> (Inr (Triggered (w_next w)), w1\<lparr>w_jobs := w_jobs w @ [j]\<rparr>)))"
proof -
  let ?r0 = "queued_run (a_workspace a) tk ag (x_type x) 1 (trigger_event_or_manual ev)"
  have r0: "r_status ?r0 = Queued" "r_ticket ?r0 = tk" "r_workspace ?r0 = a_workspace a"
    by (simp_all add: queued_run_def)
  have "a_id a = ag" using assms(2) by (auto simp: find_agent_def dest: find_Some_mem)
  then show ?thesis
    using assms insert_queued_busy [OF assms(1) r0(1)] insert_queued_free [OF assms(1) r0(1)] r0
    by (auto simp: trigger_def act_simps trigger_event_or_manual_def [symmetric] run_job_def queue_add_def Let_def
        split: option.split)
qed

lemma slot_holder_unique:
  assumes "world_ok w" and "r \<in> set (w_runs w)" and "r' \<in> set (w_runs w)"
    and "slot_holder tk ws r" and "slot_holder tk ws r'"
  shows "r = r'"
proof (rule ccontr)
  assume "r \<noteq> r'"
  then have "r_id r \<noteq> r_id r'" using assms(1-3) by (auto simp: world_ok_def distinct_map dest: inj_onD)
  then have "index_clash r r'"
    using assms(4,5) by (auto simp: index_clash_def slot_holder_def split: option.splits)
  then show False using assms(1-3) by (auto simp: world_ok_def one_active_def)
qed

text \<open>
  C5. Exactly one run per slot: triggering an agent on a ticket (or, without a ticket, a setup
  run of the workspace) ends with exactly one active run in the slot and names that run in its
  answer. It is the run that held the slot, and then nothing at all was written; or it is a
  freshly queued run of the agent, appended with one job for the executor's queue.
\<close>

theorem trigger_exactly_one:
  assumes "world_ok w" and "find_agent ag w = Some a" and "find_executor (a_executor a) w = Some x"
    and "\<forall>js j. env_queue_add E js j = None"
  shows "\<exists>res w' r. trigger E tk ag ev w = (Inr res, w') \<and>
    {s \<in> set (w_runs w'). slot_holder tk (a_workspace a) s} = {r} \<and>
    (res = Deduplicated (Some (r_id r)) \<and> w' = w \<or>
     res = Triggered (r_id r) \<and> w_runs w' = w_runs w @ [r] \<and> r_status r = Queued \<and> r_agent r = ag \<and>
       r_ticket r = tk \<and> w_jobs w' = w_jobs w @ [run_job a x (r_id r) tk ev])"
proof (cases "find (slot_holder tk (a_workspace a)) (w_runs w)")
  case (Some h)
  then have h: "h \<in> set (w_runs w)" "slot_holder tk (a_workspace a) h" using find_Some_mem [OF Some] by auto
  have "{s \<in> set (w_runs w). slot_holder tk (a_workspace a) s} = {h}"
    using slot_holder_unique [OF assms(1) _ h(1) _ h(2)] h by blast
  moreover have "trigger E tk ag ev w = (Inr (Deduplicated (Some (r_id h))), w)"
    using trigger_app [OF assms(1-3)] Some by simp
  ultimately show ?thesis by blast
next
  case None
  let ?r = "(queued_run (a_workspace a) tk ag (x_type x) 1 (trigger_event_or_manual ev))
      \<lparr>r_id := w_next w, r_created := w_now w\<rparr>"
  let ?w' = "w\<lparr>w_runs := w_runs w @ [?r], w_next := Suc (w_next w), w_jobs := w_jobs w @ [run_job a x (w_next w) tk ev]\<rparr>"
  have run: "trigger E tk ag ev w = (Inr (Triggered (w_next w)), ?w')"
    using trigger_app [OF assms(1-3)] None assms(4) by (simp add: Let_def)
  have r: "r_id ?r = w_next w" "r_status ?r = Queued" "r_agent ?r = ag" "r_ticket ?r = tk"
    by (simp_all add: queued_run_def)
  have "slot_holder tk (a_workspace a) ?r"
    by (simp add: slot_holder_def queued_run_def active_def split: option.split)
  moreover have "\<forall>s\<in>set (w_runs w). \<not> slot_holder tk (a_workspace a) s" using None by (simp add: find_None_iff)
  ultimately have "{s \<in> set (w_runs ?w'). slot_holder tk (a_workspace a) s} = {?r}" by auto
  then show ?thesis using run r by (intro exI [of _ "Triggered (w_next w)"] exI [of _ ?w'] exI [of _ ?r]) simp
qed

theorem trigger_exactly_one_witness:
  "\<exists>res w' r. trigger sample_env (Some 4) 3 None (sample_world []) = (Inr res, w') \<and>
     {s \<in> set (w_runs w'). slot_holder (Some 4) 1 s} = {r}"
proof -
  have "find_agent 3 (sample_world []) = Some sample_agent"
    "find_executor (a_executor sample_agent) (sample_world []) = Some sample_executor"
    by (simp_all add: find_agent_def find_executor_def sample_defs)
  from trigger_exactly_one [OF sample_empty_ok this, of sample_env "Some 4" None] show ?thesis
    by (auto simp: sample_env_def sample_agent_def)
qed

end
