(* ===== verification/TriggerEvents.thy ===== *)
theory TriggerEvents
  imports Runs
begin

text \<open>
  Readers and builders of the \<open>trigger_event\<close> column shared by the services: ids as JSON, the
  mock hints of an agent's behavior, and the events of the continuation sources
  (\<open>pipeline.service.ts\<close>, \<open>dependency-release.service.ts\<close>, \<open>resume.service.ts\<close>).
\<close>

definition jid :: "id \<Rightarrow> json" where
  "jid i = JNum (of_nat i)"

lemma jid_inject [simp]: "jid i = jid j \<longleftrightarrow> i = j"
  by (simp add: jid_def)

text \<open>\<open>x ?? y\<close> on a JSON member: absent and \<open>null\<close> fall through.\<close>

definition nullish :: "json option \<Rightarrow> json \<Rightarrow> json" where
  "nullish x y = (case x of None \<Rightarrow> y | Some JNull \<Rightarrow> y | Some v \<Rightarrow> v)"

text \<open>A string that is present and not empty, what a truthiness test of a string asks for.\<close>

definition truthy :: "string option \<Rightarrow> string option" where
  "truthy s = (case s of None \<Rightarrow> None | Some x \<Rightarrow> if x = [] then None else Some x)"

definition mock_scenario_of :: "json \<Rightarrow> string option" where
  "mock_scenario_of b = jget_str b ''mock_scenario''"

definition route_target_of :: "json \<Rightarrow> string option" where
  "route_target_of b = jget_str b ''route_target''"

datatype change_source = Src_poller | Src_webhook | Src_scope_entry

definition build_agent_trigger_event :: "change_source \<Rightarrow> json \<Rightarrow> json" where
  "build_agent_trigger_event src behavior =
     JObj ([(''source'', JStr (if src = Src_webhook then ''webhook'' else ''poll''))]
       @ fld ''mock_scenario'' JStr (truthy (mock_scenario_of behavior)))"

lemma trigger_source_simps [simp]:
  "trigger_source (JObj ((''source'', JStr s) # kvs)) = Some s"
  by (simp add: trigger_source_def jget_str_def)

end
