(* ===== verification/StreamParser.thy ===== *)
theory StreamParser
  imports JsonText Scrubber TriggerEvents
begin

text \<open>
  What the worker keeps of the agent's output stream: the sanitizer of tool inputs
  (\<open>tool-input-sanitizer.ts\<close>), the line parser with its bounded state (\<open>stream-parser.ts\<close>) and
  the cost of a run (\<open>provider-pricing.ts\<close>). The scrubber is an argument, as in the code; amounts
  of money are exact rationals where the code has binary floats.
\<close>

section \<open>Sanitizing a tool input\<close>

definition HUMAN_TEXT_FIELDS :: "string list" where
  "HUMAN_TEXT_FIELDS = [''message'', ''title'', ''details'', ''summary'']"

definition FILE_CONTENT_FIELDS :: "string list" where
  "FILE_CONTENT_FIELDS = [''content'', ''new_string'', ''old_string'']"

definition MAX_FIELD_CHARS :: nat where
  "MAX_FIELD_CHARS = 2000"

definition file_size_placeholder :: "string \<Rightarrow> string" where
  "file_size_placeholder v = ''<file content, '' @ show_nat (max 1 ((length v + 512) div 1024)) @ '' KB>''"

definition sanitize_string :: "(string \<Rightarrow> string) \<Rightarrow> string \<Rightarrow> string \<Rightarrow> string \<times> bool" where
  "sanitize_string scr key v =
     (if key \<in> set FILE_CONTENT_FIELDS then (file_size_placeholder v, False)
      else if key \<in> set HUMAN_TEXT_FIELDS then (scr v, False)
      else if MAX_FIELD_CHARS < length (scr v) then (take MAX_FIELD_CHARS (scr v), True)
      else (scr v, False))"

text \<open>The walk, with whether it was_cut something; JSON has no cycles for its guard to meet.\<close>

fun walk :: "(string \<Rightarrow> string) \<Rightarrow> string \<Rightarrow> json \<Rightarrow> json" where
  "walk scr key (JStr s) = JStr (fst (sanitize_string scr key s))"
| "walk scr key (JArr js) = JArr (map (walk scr key) js)"
| "walk scr key (JObj kvs) = JObj (map (\<lambda>(k, v). (k, walk scr k v)) kvs)"
| "walk scr key j = j"

fun walk_cuts :: "(string \<Rightarrow> string) \<Rightarrow> string \<Rightarrow> json \<Rightarrow> bool" where
  "walk_cuts scr key (JStr s) = snd (sanitize_string scr key s)"
| "walk_cuts scr key (JArr js) = list_ex (walk_cuts scr key) js"
| "walk_cuts scr key (JObj kvs) = list_ex (\<lambda>(k, v). walk_cuts scr k v) kvs"
| "walk_cuts scr key j = False"

definition sanitize_tool_input :: "(string \<Rightarrow> string) \<Rightarrow> json \<Rightarrow> (string \<times> json) list \<times> bool" where
  "sanitize_tool_input scr raw =
     (let kvs = (case raw of JObj kvs \<Rightarrow> kvs | _ \<Rightarrow> []) in
      (map (\<lambda>(k, v). (k, walk scr k v)) kvs, list_ex (\<lambda>(k, v). walk_cuts scr k v) kvs))"

section \<open>The stream parser\<close>

definition BASH_GUARD_DENY_PREFIX :: string where
  "BASH_GUARD_DENY_PREFIX = ''[brigadir-bash-guard]''"

definition MAX_PENDING_TOOL_USES :: nat where
  "MAX_PENDING_TOOL_USES = 50"

fun block_text :: "json \<Rightarrow> string" where
  "block_text (JObj kvs) = (if map_of kvs ''type'' = Some (JStr ''text'')
     then (case map_of kvs ''text'' of Some (JStr s) \<Rightarrow> s | _ \<Rightarrow> []) else [])"
| "block_text _ = []"

fun extract_tool_result_text :: "json \<Rightarrow> string" where
  "extract_tool_result_text (JStr s) = s"
| "extract_tool_result_text (JArr js) = join_with [CHR 0x0A] (map block_text js)"
| "extract_tool_result_text _ = []"

datatype stream_event_type = Se_log | Se_tool_call | Se_progress | Se_api_retry | Se_tool_denied

record terminal_result =
  tm_cost :: "rat option"
  tm_usage :: "json option"
  tm_structured_output :: "json option"
  tm_is_error :: "bool option"

datatype parsed_line =
    P_event stream_event_type "(string \<times> json) list"
  | P_external_ref string
  | P_rate_limit "rat option" "rat option"
  | P_terminal terminal_result

record parser_options =
  po_max_progress :: nat
  po_min_interval :: int
  po_scrub :: "string \<Rightarrow> string"

definition default_options :: "(string \<Rightarrow> string) \<Rightarrow> parser_options" where
  "default_options scr = \<lparr>po_max_progress = 100, po_min_interval = 0, po_scrub = scr\<rparr>"

record pending_use =
  pu_name :: string
  pu_command :: "string option"

record parser_state =
  ps_progress :: nat
  ps_last :: "int option"
  ps_pending :: "(string \<times> pending_use) list"

definition new_parser :: parser_state where
  "new_parser = \<lparr>ps_progress = 0, ps_last = None, ps_pending = []\<rparr>"

text \<open>\<open>String(x ?? '')\<close>.\<close>

fun js_to_string :: "json \<Rightarrow> string" where
  "js_to_string JNull = ''null''"
| "js_to_string (JBool b) = (if b then ''true'' else ''false'')"
| "js_to_string (JNum q) = show_num q"
| "js_to_string (JStr s) = s"
| "js_to_string (JArr js) = join_with '','' (map (\<lambda>j. if j = JNull then [] else js_to_string j) js)"
| "js_to_string (JObj kvs) = ''[object Object]''"

definition name_text :: "json option \<Rightarrow> string" where
  "name_text j = (case j of None \<Rightarrow> [] | Some JNull \<Rightarrow> [] | Some x \<Rightarrow> js_to_string x)"

definition num_field :: "json \<Rightarrow> string \<Rightarrow> rat option" where
  "num_field e k = (case jget e k of Some (JNum q) \<Rightarrow> Some q | _ \<Rightarrow> None)"

definition field :: "string \<Rightarrow> json \<Rightarrow> string \<Rightarrow> (string \<times> json) list" where
  "field k e m = fld k (\<lambda>j. j) (jget e m)"

definition map_init :: "json \<Rightarrow> parsed_line list" where
  "map_init e =
     P_event Se_log (field ''session_id'' e ''session_id'' @ field ''model'' e ''model'' @ field ''tools'' e ''tools'' @
       field ''mcp_servers'' e ''mcp_servers'') #
     (case jget_str e ''session_id'' of Some s \<Rightarrow> [P_external_ref s] | None \<Rightarrow> [])"

definition map_api_retry :: "json \<Rightarrow> parsed_line list" where
  "map_api_retry e =
     (if jget_str e ''error'' \<noteq> Some ''rate_limit'' then []
      else [P_event Se_api_retry ([(''error'', JStr ''rate_limit'')] @ fld ''retry_delay_ms'' JNum (num_field e ''retry_delay_ms'') @
              fld ''attempt'' JNum (num_field e ''attempt'')),
            P_rate_limit (num_field e ''retry_delay_ms'') (num_field e ''attempt'')])"

definition map_terminal :: "json \<Rightarrow> parsed_line list" where
  "map_terminal e = [P_terminal \<lparr>tm_cost = num_field e ''total_cost_usd'', tm_usage = jget e ''usage'',
     tm_structured_output = jget e ''structured_output'',
     tm_is_error = (case jget e ''is_error'' of Some (JBool b) \<Rightarrow> Some b | _ \<Rightarrow> None)\<rparr>]"

definition message_content :: "json \<Rightarrow> json list" where
  "message_content e = (case Option.bind (jget e ''message'') (\<lambda>m. jget m ''content'') of Some (JArr js) \<Rightarrow> js | _ \<Rightarrow> [])"

text \<open>\<open>Map.set\<close>: an existing key keeps its place.\<close>

fun put_pending :: "string \<Rightarrow> pending_use \<Rightarrow> (string \<times> pending_use) list \<Rightarrow> (string \<times> pending_use) list" where
  "put_pending k u [] = [(k, u)]"
| "put_pending k u ((k', u') # ps) = (if k' = k then (k, u) # ps else (k', u') # put_pending k u ps)"

definition remember_tool_use :: "json \<Rightarrow> parser_state \<Rightarrow> parser_state" where
  "remember_tool_use b st =
     (case jget_str b ''id'' of None \<Rightarrow> st
      | Some i \<Rightarrow>
          let kept = (if MAX_PENDING_TOOL_USES \<le> length (ps_pending st) then tl (ps_pending st) else ps_pending st)
          in st\<lparr>ps_pending := put_pending i
               \<lparr>pu_name = name_text (jget b ''name''),
                pu_command = Option.bind (jget b ''input'') (\<lambda>j. jget_str j ''command'')\<rparr> kept\<rparr>)"

definition sample_progress :: "parser_options \<Rightarrow> int \<Rightarrow> string \<Rightarrow> parser_state \<Rightarrow> parsed_line list \<times> parser_state" where
  "sample_progress cfg now text st =
     (if po_max_progress cfg \<le> ps_progress st then ([], st)
      else if (case ps_last st of None \<Rightarrow> False | Some t \<Rightarrow> now - t < po_min_interval cfg) then ([], st)
      else ([P_event Se_progress [(''message'', JStr text)]], st\<lparr>ps_progress := Suc (ps_progress st), ps_last := Some now\<rparr>))"

definition assistant_block :: "parser_options \<Rightarrow> int \<Rightarrow> json \<Rightarrow> parser_state \<Rightarrow> parsed_line list \<times> parser_state" where
  "assistant_block cfg now b st =
     (if jget_str b ''type'' = Some ''tool_use'' then
        (case sanitize_tool_input (po_scrub cfg) (case jget b ''input'' of None \<Rightarrow> JObj [] | Some JNull \<Rightarrow> JObj [] | Some j \<Rightarrow> j) of
           (input, was_cut) \<Rightarrow>
             ([P_event Se_tool_call (field ''name'' b ''name'' @ [(''input'', JObj input), (''truncated'', JBool was_cut)])],
              remember_tool_use b st))
      else if jget_str b ''type'' = Some ''text'' then
        (case jget_str b ''text'' of None \<Rightarrow> ([], st) | Some s \<Rightarrow> sample_progress cfg now s st)
      else ([], st))"

definition is_prefix_at :: "string \<Rightarrow> string \<Rightarrow> bool" where
  "is_prefix_at p s \<longleftrightarrow> take (length p) s = p"

fun contains_text :: "string \<Rightarrow> string \<Rightarrow> bool" where
  "contains_text [] p \<longleftrightarrow> p = []"
| "contains_text (c # cs) p \<longleftrightarrow> is_prefix_at p (c # cs) \<or> contains_text cs p"

definition user_block :: "parser_options \<Rightarrow> json \<Rightarrow> parser_state \<Rightarrow> parsed_line list \<times> parser_state" where
  "user_block cfg b st =
     (if jget_str b ''type'' \<noteq> Some ''tool_result'' then ([], st)
      else
        let used = jget_str b ''tool_use_id'';
            pending = Option.bind used (map_of (ps_pending st));
            st' = (case used of None \<Rightarrow> st | Some i \<Rightarrow> st\<lparr>ps_pending := filter (\<lambda>(k, u). k \<noteq> i) (ps_pending st)\<rparr>);
            text = (case jget b ''content'' of None \<Rightarrow> [] | Some j \<Rightarrow> extract_tool_result_text j)
        in if \<not> contains_text text BASH_GUARD_DENY_PREFIX then ([], st')
           else
             let name = (case pending of None \<Rightarrow> ''Bash'' | Some u \<Rightarrow> pu_name u) in
             (case sanitize_tool_input (po_scrub cfg) (JObj ([(''name'', JStr name), (''reason'', JStr text)] @
                  fld ''command'' JStr (Option.bind pending pu_command))) of
                (input, was_cut) \<Rightarrow> ([P_event Se_tool_denied (input @ [(''truncated'', JBool was_cut)])], st')))"

text \<open>The loop over the blocks of a message.\<close>

fun each_block :: "(json \<Rightarrow> parser_state \<Rightarrow> parsed_line list \<times> parser_state) \<Rightarrow> json list \<Rightarrow> parser_state \<Rightarrow> parsed_line list \<times> parser_state" where
  "each_block f [] st = ([], st)"
| "each_block f (b # bs) st = (case f b st of (out, st') \<Rightarrow> case each_block f bs st' of (out', st'') \<Rightarrow> (out @ out', st''))"

definition map_event :: "parser_options \<Rightarrow> int \<Rightarrow> json \<Rightarrow> parser_state \<Rightarrow> parsed_line list \<times> parser_state" where
  "map_event cfg now e st =
     (let ty = jget_str e ''type''; sub = jget_str e ''subtype'' in
      if ty = Some ''system'' \<and> sub = Some ''init'' then (map_init e, st)
      else if ty = Some ''system'' \<and> sub = Some ''api_retry'' then (map_api_retry e, st)
      else if ty = Some ''assistant'' then each_block (assistant_block cfg now) (message_content e) st
      else if ty = Some ''user'' then each_block (user_block cfg) (message_content e) st
      else if ty = Some ''result'' then (map_terminal e, st)
      else ([], st))"

definition parse_line :: "parser_options \<Rightarrow> int \<Rightarrow> string \<Rightarrow> parser_state \<Rightarrow> parsed_line list \<times> parser_state" where
  "parse_line cfg now line st =
     (let trimmed = js_trim line in
      if trimmed = [] then ([], st)
      else case json_parse trimmed of None \<Rightarrow> ([], st) | Some e \<Rightarrow> map_event cfg now e st)"

section \<open>The cost of a run\<close>

record pricing =
  pr_miss :: rat
  pr_hit :: rat
  pr_out :: rat

definition DEEPSEEK_MODEL_PRICING :: "(string \<times> pricing) list" where
  "DEEPSEEK_MODEL_PRICING =
     [(''deepseek-v4-pro'', \<lparr>pr_miss = 435 / 1000, pr_hit = 3625 / 1000000, pr_out = 87 / 100\<rparr>),
      (''deepseek-v4-flash'', \<lparr>pr_miss = 14 / 100, pr_hit = 28 / 10000, pr_out = 28 / 100\<rparr>)]"

definition PROVIDER_MODEL_PRICING :: "(string \<times> (string \<times> pricing) list) list" where
  "PROVIDER_MODEL_PRICING = [(''deepseek_api'', DEEPSEEK_MODEL_PRICING)]"

definition usage_count :: "json \<Rightarrow> string \<Rightarrow> rat" where
  "usage_count u k = (case jget u k of Some (JNum q) \<Rightarrow> if 0 < q then q else 0 | _ \<Rightarrow> 0)"

fun is_object :: "json \<Rightarrow> bool" where
  "is_object (JObj kvs) = True"
| "is_object (JArr js) = True"
| "is_object _ = False"

definition js_round :: "rat \<Rightarrow> int" where
  "js_round q = floor (q + 1 / 2)"

definition resolve_cost_usd :: "string \<Rightarrow> string \<Rightarrow> terminal_result option \<Rightarrow> rat option" where
  "resolve_cost_usd ty model terminal =
     (case terminal of None \<Rightarrow> None
      | Some t \<Rightarrow>
          (case (Option.bind (map_of PROVIDER_MODEL_PRICING ty) (\<lambda>m. map_of m (to_lower (js_trim model))), tm_usage t) of
             (Some p, Some u) \<Rightarrow>
               if \<not> is_object u then tm_cost t
               else
                 let miss = usage_count u ''input_tokens'' + usage_count u ''cache_creation_input_tokens'';
                     hit = usage_count u ''cache_read_input_tokens'';
                     out = usage_count u ''output_tokens''
                 in if miss + hit + out = 0 then tm_cost t
                    else let cost = (miss * pr_miss p + hit * pr_hit p + out * pr_out p) / 1000000
                         in Some (of_int (js_round (cost * 1000000)) / 1000000)
           | _ \<Rightarrow> tm_cost t))"

section \<open>What is kept of a tool input\<close>

text \<open>The strings of a value with the key each is under, elements of an array under the key of the array.\<close>

fun leaves :: "string \<Rightarrow> json \<Rightarrow> (string \<times> string) list" where
  "leaves key (JStr s) = [(key, s)]"
| "leaves key (JArr js) = concat (map (leaves key) js)"
| "leaves key (JObj kvs) = concat (map (\<lambda>(k, v). leaves k v) kvs)"
| "leaves key j = []"

lemma leaves_walk: "leaves key (walk scr key j) = map (\<lambda>(k, v). (k, fst (sanitize_string scr k v))) (leaves key j)"
proof (induction scr key j rule: walk.induct)
  case (2 scr key js)
  have "concat (map (leaves key \<circ> walk scr key) js) = concat (map (map (\<lambda>(k, v). (k, fst (sanitize_string scr k v))) \<circ> leaves key) js)"
    by (intro arg_cong [where f = concat] map_cong) (simp_all add: 2)
  then show ?case by (simp add: map_concat)
next
  case (3 scr key kvs)
  have "concat (map ((\<lambda>(k, v). leaves k v) \<circ> (\<lambda>(k, v). (k, walk scr k v))) kvs) =
      concat (map (map (\<lambda>(k, v). (k, fst (sanitize_string scr k v))) \<circ> (\<lambda>(k, v). leaves k v)) kvs)"
    by (intro arg_cong [where f = concat] map_cong) (use 3 in auto)
  then show ?case by (simp add: map_concat)
qed auto

lemma list_ex_concat: "list_ex P (concat xss) \<longleftrightarrow> list_ex (list_ex P) xss"
  by (induction xss) auto

lemma walk_cuts_leaves: "walk_cuts scr key j \<longleftrightarrow> list_ex (\<lambda>(k, v). snd (sanitize_string scr k v)) (leaves key j)"
proof (induction scr key j rule: walk_cuts.induct)
  case (2 scr key js)
  have "list_ex (walk_cuts scr key) js \<longleftrightarrow> list_ex (\<lambda>j. list_ex (\<lambda>(k, v). snd (sanitize_string scr k v)) (leaves key j)) js"
    by (rule list_ex_cong) (simp_all add: 2)
  then show ?case by (simp add: list_ex_concat list.pred_map comp_def list_ex_iff)
next
  case (3 scr key kvs)
  have "list_ex (\<lambda>(k, v). walk_cuts scr k v) kvs \<longleftrightarrow>
      list_ex (\<lambda>(k, v). list_ex (\<lambda>(k, v). snd (sanitize_string scr k v)) (leaves k v)) kvs"
    by (rule list_ex_cong) (use 3 in auto)
  then show ?case by (simp add: list_ex_concat list_ex_iff split_beta)
qed auto

text \<open>
  Tool inputs are sanitized leaf by leaf: the stored input has the same strings at the same keys,
  each one sanitized by its key at every depth, so that no file body is stored, no other string that
  is not human text is longer than 2,000 characters, and \<open>truncated\<close> is set exactly when a string was cut.
\<close>

theorem tool_input_sanitized:
  "leaves [] (JObj (fst (sanitize_tool_input scr (JObj kvs)))) =
     map (\<lambda>(k, v). (k, fst (sanitize_string scr k v))) (leaves [] (JObj kvs)) \<and>
   list_all (\<lambda>(k, s). k \<notin> set HUMAN_TEXT_FIELDS \<and> k \<notin> set FILE_CONTENT_FIELDS \<longrightarrow> length s \<le> 2000)
     (leaves [] (JObj (fst (sanitize_tool_input scr (JObj kvs))))) \<and>
   snd (sanitize_tool_input scr (JObj kvs)) =
     list_ex (\<lambda>(k, v). k \<notin> set HUMAN_TEXT_FIELDS \<and> k \<notin> set FILE_CONTENT_FIELDS \<and> 2000 < length (scr v)) (leaves [] (JObj kvs))"
proof -
  have input: "JObj (fst (sanitize_tool_input scr (JObj kvs))) = walk scr [] (JObj kvs)"
    by (simp add: sanitize_tool_input_def Let_def)
  have flag: "snd (sanitize_tool_input scr (JObj kvs)) = walk_cuts scr [] (JObj kvs)"
    by (simp add: sanitize_tool_input_def Let_def)
  have cut: "snd (sanitize_string scr k v) \<longleftrightarrow>
      k \<notin> set HUMAN_TEXT_FIELDS \<and> k \<notin> set FILE_CONTENT_FIELDS \<and> 2000 < length (scr v)" for k v
    by (simp add: sanitize_string_def MAX_FIELD_CHARS_def)
  have short: "k \<notin> set HUMAN_TEXT_FIELDS \<and> k \<notin> set FILE_CONTENT_FIELDS \<longrightarrow> length (fst (sanitize_string scr k v)) \<le> 2000" for k v
    by (simp add: sanitize_string_def MAX_FIELD_CHARS_def)
  show ?thesis
    unfolding input flag leaves_walk walk_cuts_leaves cut
    using short by (simp add: list_all_iff split_beta)
qed

section \<open>The parser is bounded\<close>

fun is_progress :: "parsed_line \<Rightarrow> bool" where
  "is_progress (P_event Se_progress p) = True"
| "is_progress _ = False"

fun parse_all :: "parser_options \<Rightarrow> (int \<times> string) list \<Rightarrow> parser_state \<Rightarrow> parsed_line list \<times> parser_state" where
  "parse_all cfg [] st = ([], st)"
| "parse_all cfg ((now, line) # ls) st =
     (case parse_line cfg now line st of (out, st') \<Rightarrow> case parse_all cfg ls st' of (out', st'') \<Rightarrow> (out @ out', st''))"

text \<open>What one step of the parser does to its state and how many progress events it emits.\<close>

definition bounded_step :: "parser_options \<Rightarrow> parser_state \<Rightarrow> parsed_line list \<times> parser_state \<Rightarrow> bool" where
  "bounded_step cfg st res \<longleftrightarrow>
     (length (ps_pending st) \<le> MAX_PENDING_TOOL_USES \<longrightarrow> length (ps_pending (snd res)) \<le> MAX_PENDING_TOOL_USES) \<and>
     ps_progress (snd res) = ps_progress st + length (filter is_progress (fst res)) \<and>
     (ps_progress st \<le> po_max_progress cfg \<longrightarrow> ps_progress (snd res) \<le> po_max_progress cfg)"

lemma bounded_none: "bounded_step cfg st ([], st)"
  by (simp add: bounded_step_def)

lemma bounded_trans: "bounded_step cfg st (out, st') \<Longrightarrow> bounded_step cfg st' (out', st'') \<Longrightarrow> bounded_step cfg st (out @ out', st'')"
  by (auto simp: bounded_step_def)

lemma length_put_pending: "length (put_pending k u ps) \<le> Suc (length ps)"
  by (induction k u ps rule: put_pending.induct) auto

lemma bounded_remember:
  assumes "length (ps_pending st) \<le> MAX_PENDING_TOOL_USES"
  shows "length (ps_pending (remember_tool_use b st)) \<le> MAX_PENDING_TOOL_USES"
proof (cases "jget_str b ''id''")
  case (Some i)
  let ?kept = "if MAX_PENDING_TOOL_USES \<le> length (ps_pending st) then tl (ps_pending st) else ps_pending st"
  have "Suc (length ?kept) \<le> MAX_PENDING_TOOL_USES" using assms by (simp add: MAX_PENDING_TOOL_USES_def)
  then have "length (put_pending i u ?kept) \<le> MAX_PENDING_TOOL_USES" for u
    by (rule le_trans [OF length_put_pending])
  then show ?thesis by (simp add: remember_tool_use_def Some Let_def split del: if_split)
qed (simp add: remember_tool_use_def assms)

lemma bounded_assistant: "bounded_step cfg st (assistant_block cfg now b st)"
proof -
  have "ps_progress (remember_tool_use b st) = ps_progress st" by (simp add: remember_tool_use_def Let_def split: option.split)
  then show ?thesis
    by (auto simp: assistant_block_def sample_progress_def bounded_step_def bounded_remember split: option.split prod.split)
qed

lemma bounded_user: "bounded_step cfg st (user_block cfg b st)"
  by (auto simp: user_block_def bounded_step_def Let_def split: option.split prod.split intro: le_trans [OF length_filter_le])

lemma bounded_blocks: "(\<And>b st. bounded_step cfg st (f b st)) \<Longrightarrow> bounded_step cfg st (each_block f bs st)"
proof (induction bs arbitrary: st)
  case (Cons b bs)
  obtain out st' where one: "f b st = (out, st')" by (metis surj_pair)
  obtain out' st'' where rest: "each_block f bs st' = (out', st'')" by (metis surj_pair)
  have "bounded_step cfg st (out, st')" using Cons.prems [of st b] one by simp
  moreover have "bounded_step cfg st' (out', st'')" using Cons.IH [OF Cons.prems] rest by metis
  ultimately show ?case using bounded_trans one rest by simp
qed (simp add: bounded_none)

lemma bounded_line: "bounded_step cfg st (parse_line cfg now line st)"
proof -
  have quiet: "bounded_step cfg st (out, st)" if "filter is_progress out = []" for out using that by (simp add: bounded_step_def)
  have "bounded_step cfg st (map_event cfg now e st)" for e
    using bounded_blocks [of cfg "assistant_block cfg now", OF bounded_assistant] bounded_blocks [of cfg "user_block cfg", OF bounded_user]
    by (auto simp: map_event_def Let_def map_init_def map_api_retry_def map_terminal_def split: option.split intro!: quiet)
  then show ?thesis by (auto simp: parse_line_def Let_def bounded_none split: option.split)
qed

lemma bounded_all: "bounded_step cfg st (parse_all cfg ls st)"
proof (induction ls arbitrary: st)
  case (Cons l ls)
  obtain now line where l: "l = (now, line)" by (metis surj_pair)
  obtain out st' where one: "parse_line cfg now line st = (out, st')" by (metis surj_pair)
  obtain out' st'' where rest: "parse_all cfg ls st' = (out', st'')" by (metis surj_pair)
  show ?case
    using bounded_trans [of cfg st out st' out' st''] bounded_line [of cfg st now line] Cons.IH [of st'] one rest by (simp add: l)
qed (simp add: bounded_none)

text \<open>
  A run's output cannot flood the timeline or the worker: whatever the agent prints, in however
  many lines, the parser never throws, remembers at most 50 pending tool calls and emits at most
  100 progress events.
\<close>

theorem parser_is_bounded:
  "length (ps_pending (snd (parse_all (default_options scr) ls new_parser))) \<le> 50 \<and>
   length (filter is_progress (fst (parse_all (default_options scr) ls new_parser))) \<le> 100"
  using bounded_all [of "default_options scr" new_parser ls]
  by (simp add: bounded_step_def new_parser_def default_options_def MAX_PENDING_TOOL_USES_def)

section \<open>Assistant text is stored as it came\<close>

definition assistant_event :: "string \<Rightarrow> json" where
  "assistant_event s = JObj [(''type'', JStr ''assistant''),
     (''message'', JObj [(''content'', JArr [JObj [(''type'', JStr ''text''), (''text'', JStr s)]])])]"

lemma js_trim_object: "js_trim (''{'' @ s @ ''}'') = ''{'' @ s @ ''}''"
proof -
  have "\<not> is_space (CHR ''{'')" "\<not> is_space (CHR ''}'')" by code_simp+
  then show ?thesis by (simp add: js_trim_def)
qed

text \<open>
  The scrubber does not see assistant text: tool inputs pass it, but whatever the agent writes as
  text, the scrubber given to the parser notwithstanding, becomes a progress event with that very
  text - a secret of the run's environment included.
\<close>

theorem assistant_text_stored_verbatim:
  "fst (parse_line (default_options scr) now (json_stringify (assistant_event s)) new_parser) =
     [P_event Se_progress [(''message'', JStr s)]]"
proof -
  have "json_parse (json_stringify (assistant_event s)) = Some (assistant_event s)"
    by (rule json_parse_stringify) (simp add: assistant_event_def)
  moreover have "\<exists>t. json_stringify (assistant_event s) = ''{'' @ t @ ''}''" by (simp add: assistant_event_def)
  then have "js_trim (json_stringify (assistant_event s)) = json_stringify (assistant_event s)"
    "json_stringify (assistant_event s) \<noteq> []" using js_trim_object by auto
  ultimately show ?thesis
    by (simp add: parse_line_def Let_def map_event_def assistant_event_def jget_str_def message_content_def assistant_block_def
        sample_progress_def default_options_def new_parser_def)
qed

section \<open>The recomputed cost\<close>

lemma js_round_close: "\<bar>of_int (js_round q) - q\<bar> \<le> 1 / 2"
  unfolding js_round_def abs_le_iff using floor_correct [of "q + 1 / 2"] by linarith

definition priced :: "pricing \<Rightarrow> json \<Rightarrow> rat" where
  "priced p u = ((usage_count u ''input_tokens'' + usage_count u ''cache_creation_input_tokens'') * pr_miss p +
     usage_count u ''cache_read_input_tokens'' * pr_hit p + usage_count u ''output_tokens'' * pr_out p) / 1000000"

text \<open>
  The cost of a priced run is its token bill to half a micro-dollar: for a model of the table and
  a usage that counts tokens, whatever the CLI claims, the cost is within that of the exact sum.
\<close>

theorem priced_cost_is_exact:
  assumes "map_of PROVIDER_MODEL_PRICING ty = Some m" and "map_of m (to_lower (js_trim model)) = Some p"
    and "tm_usage t = Some (JObj u)" and "0 < usage_count (JObj u) ''input_tokens''"
  shows "\<exists>c. resolve_cost_usd ty model (Some t) = Some c \<and> \<bar>c - priced p (JObj u)\<bar> \<le> 1 / 2000000"
proof -
  have pos: "0 \<le> usage_count (JObj u) k" for k by (auto simp: usage_count_def split: option.split json.split)
  let ?c = "of_int (js_round (priced p (JObj u) * 1000000)) / 1000000 :: rat"
  have "usage_count (JObj u) ''input_tokens'' + usage_count (JObj u) ''cache_creation_input_tokens'' +
      usage_count (JObj u) ''cache_read_input_tokens'' + usage_count (JObj u) ''output_tokens'' \<noteq> 0"
    using assms(4) pos [of "''cache_creation_input_tokens''"] pos [of "''cache_read_input_tokens''"] pos [of "''output_tokens''"]
    by linarith
  then have "resolve_cost_usd ty model (Some t) = Some ?c"
    using assms(1-3) by (simp add: resolve_cost_usd_def priced_def Let_def)
  moreover have "\<bar>?c - priced p (JObj u)\<bar> \<le> 1 / 2000000"
    using js_round_close [of "priced p (JObj u) * 1000000"] by (simp add: abs_le_iff field_simps)
  ultimately show ?thesis by blast
qed

theorem priced_cost_is_exact_witness:
  "\<exists>c. resolve_cost_usd ''deepseek_api'' '' DeepSeek-V4-Flash '' (Some \<lparr>tm_cost = Some 9, tm_usage =
       Some (JObj [(''input_tokens'', JNum 1000000)]), tm_structured_output = None, tm_is_error = None\<rparr>) = Some c \<and>
     \<bar>c - 14 / 100\<bar> \<le> 1 / 2000000"
proof -
  let ?p = "\<lparr>pr_miss = 14 / 100, pr_hit = 28 / 10000, pr_out = 28 / 100\<rparr> :: pricing"
  have "map_of PROVIDER_MODEL_PRICING ''deepseek_api'' = Some DEEPSEEK_MODEL_PRICING" by (simp add: PROVIDER_MODEL_PRICING_def)
  moreover have "to_lower (js_trim '' DeepSeek-V4-Flash '') = ''deepseek-v4-flash''" by code_simp
  then have "map_of DEEPSEEK_MODEL_PRICING (to_lower (js_trim '' DeepSeek-V4-Flash '')) = Some ?p"
    by (simp add: DEEPSEEK_MODEL_PRICING_def)
  ultimately show ?thesis
    using priced_cost_is_exact [of "''deepseek_api''" DEEPSEEK_MODEL_PRICING "'' DeepSeek-V4-Flash ''" ?p
        "\<lparr>tm_cost = Some 9, tm_usage = Some (JObj [(''input_tokens'', JNum 1000000)]), tm_structured_output = None, tm_is_error = None\<rparr>"
        "[(''input_tokens'', JNum 1000000)]"]
    by (simp add: priced_def usage_count_def)
qed

end
