(* ===== verification/BashGuard.thy ===== *)
theory BashGuard
  imports StreamParser
begin

text \<open>
  The PreToolUse hook that keeps agents from waiting inside a session
  (\<open>packages/mcp-server/src/bash-guard-logic.ts\<close> and \<open>bash-guard.ts\<close>): the heuristic over the raw
  command, on the backtracking matcher of the scrubber, and the hook process around it. Durations
  are exact rationals. The denial it prints is tied to the event the stream parser records.
\<close>

section \<open>Patterns\<close>

definition BASH_GUARD_PREFIX :: string where
  "BASH_GUARD_PREFIX = ''[brigadir-bash-guard]''"

definition MAX_SLEEP_SECONDS :: rat where
  "MAX_SLEEP_SECONDS = 15"

text \<open>\<open>[;&|(`{\s]\<close>, the separators before a command word; \<open>^\<close> is the other alternative.\<close>

definition sleep_sep :: "char \<Rightarrow> bool" where
  "sleep_sep c \<longleftrightarrow> c \<in> set '';&|({'' \<or> c = CHR 0x60 \<or> js_space c"

definition sleep_arg_char :: "char \<Rightarrow> bool" where
  "sleep_arg_char c \<longleftrightarrow> \<not> js_space c \<and> c \<notin> set '';&|()'' \<and> c \<noteq> CHR 0x60"

definition SLEEP_WORD :: rx where
  "SLEEP_WORD = seqs [lit ''sleep'', Many 1 None js_space, Grp 1 (Many 1 None sleep_arg_char)]"

definition at_command_word :: "(char \<Rightarrow> bool) \<Rightarrow> rx \<Rightarrow> string \<Rightarrow> string \<Rightarrow> (string \<times> (nat \<times> string) list) option" where
  "at_command_word sep r b a = (case (if b = [] then match_at r b a else None) of
     Some m \<Rightarrow> Some m
   | None \<Rightarrow> match_at (Seq (one sep) r) b a)"

text \<open>\<open>command.matchAll(SLEEP_OCCURRENCE)\<close>, the first group of each match.\<close>

function sleep_args_from :: "string \<Rightarrow> string \<Rightarrow> string list" where
  "sleep_args_from b a =
     (case at_command_word sleep_sep SLEEP_WORD b a of
        Some (s, g) \<Rightarrow>
          if s = [] then [] else group g 1 # sleep_args_from (rev s @ b) (drop (length s) a)
      | None \<Rightarrow> (case a of [] \<Rightarrow> [] | c # cs \<Rightarrow> sleep_args_from (c # b) cs))"
  by pat_completeness auto
termination
  by (relation "measure (\<lambda>(b, a). length a)")
     (auto simp: at_command_word_def match_at_def split: list.splits prod.splits if_splits option.splits)

declare sleep_args_from.simps [simp del]

definition sleep_args :: "string \<Rightarrow> string list" where
  "sleep_args command = sleep_args_from [] command"

text \<open>\<open>RegExp.test\<close>: some position matches.\<close>

fun test_from :: "(string \<Rightarrow> string \<Rightarrow> bool) \<Rightarrow> string \<Rightarrow> string \<Rightarrow> bool" where
  "test_from f b [] = f b []"
| "test_from f b (c # cs) = (f b (c # cs) \<or> test_from f (c # b) cs)"

definition loop_sep :: "char \<Rightarrow> bool" where
  "loop_sep c \<longleftrightarrow> c \<in> set '';&|({'' \<or> c = CHR 0x60 \<or> js_space c"

definition LOOP_KEYWORD :: rx where
  "LOOP_KEYWORD = Seq (Alt (lit ''while'') (Alt (lit ''until'') (lit ''for''))) (one js_space)"

definition DONE_WORD :: rx where
  "DONE_WORD = seqs [Word_edge, lit ''done'', Word_edge]"

definition loop_command :: "string \<Rightarrow> bool" where
  "loop_command command \<longleftrightarrow> test_from (\<lambda>b a. at_command_word loop_sep LOOP_KEYWORD b a \<noteq> None) [] command \<and>
     test_from (\<lambda>b a. match_at DONE_WORD b a \<noteq> None) [] command"

text \<open>\<open>/^([0-9]*\.?[0-9]+)(s|m|h|d)?$/\<close>, matched up to the end of the argument.\<close>

definition SLEEP_DURATION :: rx where
  "SLEEP_DURATION = Seq (Grp 1 (seqs [Many 0 None is_digit_char, Many 0 (Some 1) (\<lambda>c. c = CHR ''.''), Many 1 None is_digit_char]))
     (Grp 2 (Many 0 (Some 1) (\<lambda>c. c \<in> set ''smhd'')))"

definition SUFFIX_SECONDS :: "string \<Rightarrow> rat" where
  "SUFFIX_SECONDS s = (if s = ''m'' then 60 else if s = ''h'' then 3600 else if s = ''d'' then 86400 else 1)"

definition sleep_seconds :: "string \<Rightarrow> rat option" where
  "sleep_seconds arg = (case find (\<lambda>(b, a, g). a = []) (rmatch SLEEP_DURATION ([], arg, [])) of
     None \<Rightarrow> None
   | Some (b, a, g) \<Rightarrow> map_option (\<lambda>q. q * SUFFIX_SECONDS (group g 2)) (js_value (group g 1)))"

section \<open>The verdict\<close>

datatype guard_rule = Loop_sleep | Cumulative_sleep | Unparsable_sleep

datatype bash_verdict = Allow_command | Deny_command guard_rule string

definition GUIDANCE :: string where
  "GUIDANCE = ''In-session waiting is forbidden - never sleep/poll for a precondition (CI, a deploy, '' @
     ''another ticket, a human answer, infrastructure recovery). If you are blocked on something '' @
     ''outside this session, end the session instead: call '' @
     ''mcp__brigadir__request_human(blocking=true, ...) when a person must act, or '' @
     ''mcp__brigadir__complete_task(outcome='' @ [CHR 0x22] @ ''failure'' @ [CHR 0x22] @ '' or '' @ [CHR 0x22] @ ''needs_human'' @ [CHR 0x22] @
     '') describing exactly what '' @
     ''you are waiting for. The platform restarts the run when the condition holds.''"

definition deny :: "guard_rule \<Rightarrow> string \<Rightarrow> bash_verdict" where
  "deny rule detail = Deny_command rule (BASH_GUARD_PREFIX @ '' Denied: '' @ detail @ ''. '' @ GUIDANCE)"

fun total_seconds :: "string list \<Rightarrow> rat \<Rightarrow> rat option" where
  "total_seconds [] t = Some t"
| "total_seconds (x # xs) t = (case sleep_seconds x of None \<Rightarrow> None | Some q \<Rightarrow> total_seconds xs (t + q))"

definition analyze_bash_command :: "string \<Rightarrow> bash_verdict" where
  "analyze_bash_command command =
     (let args = sleep_args command in
      if args = [] then Allow_command
      else if loop_command command then deny Loop_sleep ''sleep inside a while/until/for loop''
      else case total_seconds args 0 of
             None \<Rightarrow> deny Unparsable_sleep ''sleep with an unbounded/dynamic duration''
           | Some t \<Rightarrow>
               if MAX_SLEEP_SECONDS < t then deny Cumulative_sleep
                 (''cumulative sleep of '' @ show_num t @ ''s exceeds the '' @ show_num MAX_SLEEP_SECONDS @ ''s limit'')
               else Allow_command)"

section \<open>The hook process\<close>

definition extract_command :: "string \<Rightarrow> string option" where
  "extract_command raw = (case (if raw = [] then Some (JObj []) else json_parse raw) of
     None \<Rightarrow> None
   | Some input \<Rightarrow>
       if jget_str input ''tool_name'' \<noteq> Some ''Bash'' then None
       else Option.bind (jget input ''tool_input'') (\<lambda>t. jget_str t ''command''))"

text \<open>What the hook writes to its standard output; it exits with 0 whatever happens.\<close>

definition guard_output :: "string \<Rightarrow> string" where
  "guard_output raw = (case map_option analyze_bash_command (extract_command raw) of
     Some (Deny_command rule reason) \<Rightarrow>
       json_stringify (JObj [(''hookSpecificOutput'', JObj [(''hookEventName'', JStr ''PreToolUse''),
         (''permissionDecision'', JStr ''deny''), (''permissionDecisionReason'', JStr reason)])])
   | _ \<Rightarrow> [])"

lemma guard_examples:
  "analyze_bash_command ''npm test; sleep 5'' = Allow_command"
  "analyze_bash_command ''sleep 1m'' = deny Cumulative_sleep ''cumulative sleep of 60s exceeds the 15s limit''"
  "analyze_bash_command ''until x; do sleep 2; done'' = deny Loop_sleep ''sleep inside a while/until/for loop''"
  "analyze_bash_command ''sleep $N'' = deny Unparsable_sleep ''sleep with an unbounded/dynamic duration''"
  "analyze_bash_command ''grep (sleep'' = Allow_command"
  "sleep_args ''sleep 10; sleep 0.5m&&x'' = [''10'', ''0.5m'']"
  by code_simp+

section \<open>Every denial reaches the timeline\<close>

lemma contains_prefix: "contains_text (p @ s) p"
proof (cases "p @ s")
  case (Cons c cs)
  have "take (length p) (p @ s) = p" by simp
  then show ?thesis unfolding Cons by (simp add: is_prefix_at_def)
qed simp

lemma contains_later: "contains_text s p \<Longrightarrow> contains_text (a @ s) p"
  by (induction a) auto

lemma denial_reason: "analyze_bash_command c = Deny_command rule reason \<Longrightarrow> \<exists>rest. reason = BASH_GUARD_PREFIX @ rest"
  by (auto simp: analyze_bash_command_def deny_def Let_def split: if_splits option.splits)

text \<open>
  A denial is recorded: the two packages agree on the marker, so when the guard denies a command
  and the CLI shows its reason anywhere in the result of that tool use, the stream parser emits
  exactly one \<open>tool_denied\<close> event, which names the command when the tool use is still remembered,
  and forgets the tool use.
\<close>

theorem denial_is_recorded:
  assumes "analyze_bash_command c = Deny_command rule reason"
    and "jget_str b ''type'' = Some ''tool_result''" and "jget_str b ''tool_use_id'' = Some i"
    and "jget b ''content'' = Some (JStr (before @ reason @ after))"
    and "map_of (ps_pending st) i = Some \<lparr>pu_name = n, pu_command = Some c\<rparr>"
  shows "\<exists>payload. user_block cfg b st =
      ([P_event Se_tool_denied payload], st\<lparr>ps_pending := filter (\<lambda>(k, u). k \<noteq> i) (ps_pending st)\<rparr>) \<and>
    map_of payload ''command'' = Some (walk (po_scrub cfg) ''command'' (JStr c)) \<and>
    map_of payload ''reason'' = Some (walk (po_scrub cfg) ''reason'' (JStr (before @ reason @ after)))"
proof -
  obtain rest where "reason = BASH_GUARD_PREFIX @ rest" using denial_reason [OF assms(1)] by blast
  then have "contains_text (before @ reason @ after) BASH_GUARD_DENY_PREFIX"
    using contains_later [of "reason @ after"] contains_prefix [of BASH_GUARD_PREFIX "rest @ after"]
    by (simp add: BASH_GUARD_PREFIX_def BASH_GUARD_DENY_PREFIX_def)
  then show ?thesis using assms
    by (simp add: user_block_def Let_def sanitize_tool_input_def fld_def)
qed

theorem denial_is_recorded_witness:
  "\<exists>payload. user_block (default_options (\<lambda>s. s))
      (JObj [(''type'', JStr ''tool_result''), (''tool_use_id'', JStr ''t1''),
         (''content'', JStr (''Error: '' @ BASH_GUARD_PREFIX @ '' Denied: sleep inside a while/until/for loop. '' @ GUIDANCE))])
      \<lparr>ps_progress = 0, ps_last = None, ps_pending = [(''t1'', \<lparr>pu_name = ''Bash'', pu_command = Some ''until x; do sleep 2; done''\<rparr>)]\<rparr> =
      ([P_event Se_tool_denied payload], \<lparr>ps_progress = 0, ps_last = None, ps_pending = []\<rparr>) \<and>
    map_of payload ''command'' = Some (JStr ''until x; do sleep 2; done'')"
proof -
  let ?c = "''until x; do sleep 2; done''" and ?p = "\<lparr>ps_progress = 0, ps_last = None,
      ps_pending = [(''t1'', \<lparr>pu_name = ''Bash'', pu_command = Some ''until x; do sleep 2; done''\<rparr>)]\<rparr>"
  let ?r = "BASH_GUARD_PREFIX @ '' Denied: sleep inside a while/until/for loop. '' @ GUIDANCE"
  let ?b = "JObj [(''type'', JStr ''tool_result''), (''tool_use_id'', JStr ''t1''), (''content'', JStr (''Error: '' @ ?r))]"
  have deny: "analyze_bash_command ?c = Deny_command Loop_sleep ?r"
    using guard_examples(3) by (simp add: deny_def)
  have cmd: "walk (\<lambda>s. s) ''command'' (JStr ?c) = JStr ?c"
    by (simp add: sanitize_string_def HUMAN_TEXT_FIELDS_def FILE_CONTENT_FIELDS_def MAX_FIELD_CHARS_def)
  from denial_is_recorded [OF deny, of ?b "''t1''" "''Error: ''" "[]" ?p "''Bash''" "default_options (\<lambda>s. s)"]
  show ?thesis using cmd by (simp add: jget_str_def default_options_def del: walk.simps) blast
qed

lemma fraction_of_a_minute: "sleep_seconds ''.5m'' = Some 30"
  by code_simp

end
