(* ===== verification/RunToken.thy ===== *)
theory RunToken
  imports JsonText
begin

text \<open>
  The per-run token of the callback API (\<open>packages/contracts/src/run-token.ts\<close>): an HS256 JWT
  written with Node's \<open>crypto\<close>. Base64url and UTF-8 are modelled; the digest of
  \<open>createHmac('sha256', secret)\<close> is the parameter \<open>hmac\<close>, any function of the secret and the
  signed text. Code units are below 256, so UTF-8 sequences for others make the decoder fail.
\<close>

section \<open>UTF-8 and base64url\<close>

definition utf8_char :: "char \<Rightarrow> nat list" where
  "utf8_char c = (let n = of_char c in if n < 128 then [n] else [192 + n div 64, 128 + n mod 64])"

definition utf8_bytes :: "string \<Rightarrow> nat list" where
  "utf8_bytes s = concat (map utf8_char s)"

fun utf8_string :: "nat list \<Rightarrow> string option" where
  "utf8_string [] = Some []"
| "utf8_string (n # r) =
     (if n < 128 then map_option (Cons (char_of n)) (utf8_string r)
      else case r of [] \<Rightarrow> None
        | m # r' \<Rightarrow> if 194 \<le> n \<and> n < 196 \<and> 128 \<le> m \<and> m < 192
            then map_option (Cons (char_of ((n - 192) * 64 + (m - 128)))) (utf8_string r') else None)"

definition b64_alphabet :: string where
  "b64_alphabet = ''ABCDEFGHIJKLMNOPQRSTUVWXYZabcdefghijklmnopqrstuvwxyz0123456789-_''"

definition b64_char :: "nat \<Rightarrow> char" where
  "b64_char n = b64_alphabet ! n"

definition b64_value :: "char \<Rightarrow> nat option" where
  "b64_value c = (let c' = (if c = CHR ''+'' then CHR ''-'' else if c = CHR ''/'' then CHR ''_'' else c)
     in map_of (zip b64_alphabet [0..<64]) c')"

fun base64url :: "nat list \<Rightarrow> string" where
  "base64url [] = []"
| "base64url [a] = [b64_char (a div 4), b64_char (a mod 4 * 16)]"
| "base64url [a, b] = [b64_char (a div 4), b64_char (a mod 4 * 16 + b div 16), b64_char (b mod 16 * 4)]"
| "base64url (a # b # c # r) =
     [b64_char (a div 4), b64_char (a mod 4 * 16 + b div 16), b64_char (b mod 16 * 4 + c div 64), b64_char (c mod 64)]
     @ base64url r"

text \<open>\<open>Buffer.from(s, 'base64url')\<close>: up to the padding, characters outside the alphabet skipped.\<close>

fun sextets_bytes :: "nat list \<Rightarrow> nat list" where
  "sextets_bytes (p # q # r # s # t) =
     [p * 4 + q div 16, q mod 16 * 16 + r div 4, r mod 4 * 64 + s] @ sextets_bytes t"
| "sextets_bytes [p, q, r] = [p * 4 + q div 16, q mod 16 * 16 + r div 4]"
| "sextets_bytes [p, q] = [p * 4 + q div 16]"
| "sextets_bytes _ = []"

definition base64url_decode :: "string \<Rightarrow> nat list" where
  "base64url_decode s = sextets_bytes (List.map_filter b64_value (takeWhile (\<lambda>c. c \<noteq> CHR ''='') s))"

section \<open>Tokens\<close>

record run_token_claims =
  tc_sub :: string
  tc_wsp :: string
  tc_tkt :: "string option"
  tc_exp :: int

fun split_on :: "char \<Rightarrow> string \<Rightarrow> string list" where
  "split_on c [] = [[]]"
| "split_on c (x # xs) =
     (if x = c then [] # split_on c xs
      else case split_on c xs of [] \<Rightarrow> [[x]] | y # ys \<Rightarrow> (x # y) # ys)"

definition token_part :: "json \<Rightarrow> string" where
  "token_part j = base64url (utf8_bytes (json_stringify j))"

definition token_signature :: "(string \<Rightarrow> string \<Rightarrow> nat list) \<Rightarrow> string \<Rightarrow> string \<Rightarrow> string" where
  "token_signature hmac secret s = base64url (hmac secret s)"

definition claims_json :: "run_token_claims \<Rightarrow> int \<Rightarrow> json" where
  "claims_json c iat = JObj ([(''sub'', JStr (tc_sub c)), (''wsp'', JStr (tc_wsp c))] @ fld ''tkt'' JStr (tc_tkt c) @
     [(''exp'', JNum (of_int (tc_exp c))), (''iat'', JNum (of_int iat))])"

definition sign_run_token :: "(string \<Rightarrow> string \<Rightarrow> nat list) \<Rightarrow> int \<Rightarrow> run_token_claims \<Rightarrow> string \<Rightarrow> string" where
  "sign_run_token hmac now c secret =
     (let header = token_part (JObj [(''alg'', JStr ''HS256''), (''typ'', JStr ''JWT'')]);
          payload = token_part (claims_json c (now div 1000));
          input = header @ ''.'' @ payload
      in input @ ''.'' @ token_signature hmac secret input)"

datatype token_error = Malformed_token | Signature_mismatch | Malformed_payload | Token_expired

definition expired :: "int \<Rightarrow> json \<Rightarrow> bool" where
  "expired now j = (case jget j ''exp'' of Some (JNum e) \<Rightarrow> e < of_int (now div 1000) | _ \<Rightarrow> True)"

definition verify_run_token :: "(string \<Rightarrow> string \<Rightarrow> nat list) \<Rightarrow> int \<Rightarrow> string \<Rightarrow> string \<Rightarrow> token_error + json" where
  "verify_run_token hmac now token secret =
     (case split_on (CHR ''.'') token of
        [header, payload, signature] \<Rightarrow>
          if token_signature hmac secret (header @ ''.'' @ payload) \<noteq> signature then Inl Signature_mismatch
          else (case Option.bind (utf8_string (base64url_decode payload)) json_parse of
                  None \<Rightarrow> Inl Malformed_payload
                | Some j \<Rightarrow> if expired now j then Inl Token_expired else Inr j)
      | _ \<Rightarrow> Inl Malformed_token)"

section \<open>Decoding what was encoded\<close>

lemma of_char_less: "(of_char c :: nat) < 256"
  by simp

lemma utf8_char_back: "utf8_string (utf8_char c @ r) = map_option (Cons c) (utf8_string r)"
proof (cases "(of_char c :: nat) < 128")
  case False
  then have "2 \<le> (of_char c :: nat) div 64" "(of_char c :: nat) div 64 < 4" using of_char_less [of c] by linarith+
  then show ?thesis using False by (simp add: utf8_char_def Let_def)
qed (simp add: utf8_char_def)

lemma utf8_back: "utf8_string (utf8_bytes s) = Some s"
  by (induction s) (simp_all add: utf8_bytes_def utf8_char_back)

lemma utf8_byte: "n \<in> set (utf8_bytes s) \<Longrightarrow> n < 256"
proof -
  have "(of_char c :: nat) div 64 < 64" for c using of_char_less [of c] by linarith
  then have "n < 256" if "n \<in> set (utf8_char c)" for c
    using that by (auto simp: utf8_char_def Let_def split: if_splits)
  then show "n \<in> set (utf8_bytes s) \<Longrightarrow> n < 256" by (auto simp: utf8_bytes_def)
qed

lemma b64_length: "length b64_alphabet = 64"
  by (simp add: b64_alphabet_def)

lemma b64_distinct: "distinct b64_alphabet"
  by (simp add: b64_alphabet_def)

lemma b64_member: "n < 64 \<Longrightarrow> b64_char n \<in> set b64_alphabet"
  by (simp add: b64_char_def b64_length)

lemma b64_plain: "c \<in> set b64_alphabet \<Longrightarrow> c \<noteq> CHR ''.'' \<and> c \<noteq> CHR ''='' \<and> c \<noteq> CHR ''+'' \<and> c \<noteq> CHR ''/''"
  by (auto simp: b64_alphabet_def)

lemma b64_value_char: "n < 64 \<Longrightarrow> b64_value (b64_char n) = Some n"
proof -
  assume n: "n < 64"
  then have "map_of (zip b64_alphabet [0..<64]) (b64_alphabet ! n) = Some ([0..<64] ! n)"
    by (intro map_of_zip_nth) (simp_all add: b64_length b64_distinct)
  then show ?thesis using b64_plain [OF b64_member [OF n]] n by (simp add: b64_value_def b64_char_def)
qed

lemma base64url_alphabet: "\<forall>n\<in>set bs. n < 256 \<Longrightarrow> set (base64url bs) \<subseteq> set b64_alphabet"
proof (induction bs rule: base64url.induct)
  case (4 a b c r)
  then have "a div 4 < 64" "a mod 4 * 16 + b div 16 < 64" "b mod 16 * 4 + c div 64 < 64" "c mod 64 < 64" by auto
  then show ?case using 4 by (auto simp: b64_member)
qed (auto intro!: b64_member)

lemma sextets_back: "\<forall>n\<in>set bs. n < 256 \<Longrightarrow> sextets_bytes (List.map_filter b64_value (base64url bs)) = bs"
proof (induction bs rule: base64url.induct)
  case (4 a b c r)
  then have "a div 4 < 64" "a mod 4 * 16 + b div 16 < 64" "b mod 16 * 4 + c div 64 < 64" "c mod 64 < 64"
      "b div 16 < 16" "c div 64 < 4" by auto
  moreover have "4 * (a div 4) + a mod 4 = a" "16 * (b div 16) + b mod 16 = b" "64 * (c div 64) + c mod 64 = c" by simp_all
  ultimately show ?case using 4 by (simp add: b64_value_char map_filter_simps)
next
  case (3 a b)
  then have "a div 4 < 64" "a mod 4 * 16 + b div 16 < 64" "b mod 16 * 4 < 64" "b div 16 < 16" by auto
  moreover have "4 * (a div 4) + a mod 4 = a" "16 * (b div 16) + b mod 16 = b" by simp_all
  ultimately show ?case by (simp add: b64_value_char map_filter_simps)
next
  case (2 a)
  then have "a div 4 < 64" "a mod 4 * 16 < 64" by auto
  then show ?case by (simp add: b64_value_char map_filter_simps)
qed (simp add: map_filter_simps)

lemma base64url_back: "\<forall>n\<in>set bs. n < 256 \<Longrightarrow> base64url_decode (base64url bs) = bs"
proof -
  assume bs: "\<forall>n\<in>set bs. n < 256"
  then have "takeWhile (\<lambda>c. c \<noteq> CHR ''='') (base64url bs) = base64url bs"
    using base64url_alphabet [OF bs] b64_plain by (subst takeWhile_eq_all_conv) blast
  then show ?thesis using sextets_back [OF bs] by (simp only: base64url_decode_def)
qed

lemma split_on_none: "c \<notin> set a \<Longrightarrow> split_on c a = [a]"
  by (induction a) auto

lemma split_on_append: "c \<notin> set a \<Longrightarrow> split_on c (a @ c # b) = a # split_on c b"
  by (induction a) auto

lemma token_part_plain: "CHR ''.'' \<notin> set (token_part j)"
  using base64url_alphabet [of "utf8_bytes (json_stringify j)"] utf8_byte b64_plain by (fastforce simp: token_part_def)

lemma claims_plain: "json_plain (claims_json c iat)"
  by (auto simp: claims_json_def fld_def split: option.splits)

lemma verify_signed:
  assumes "\<And>k s n. n \<in> set (hmac k s) \<Longrightarrow> n < 256"
  shows "verify_run_token hmac now (sign_run_token hmac issued c secret) secret =
    (if now div 1000 \<le> tc_exp c then Inr (claims_json c (issued div 1000)) else Inl Token_expired)"
proof -
  let ?h = "token_part (JObj [(''alg'', JStr ''HS256''), (''typ'', JStr ''JWT'')])"
  let ?j = "claims_json c (issued div 1000)"
  let ?s = "token_signature hmac secret (?h @ ''.'' @ token_part ?j)"
  have "set ?s \<subseteq> set b64_alphabet" unfolding token_signature_def using assms by (intro base64url_alphabet) blast
  then have "CHR ''.'' \<notin> set ?s" using b64_plain by blast
  then have split: "split_on (CHR ''.'') (sign_run_token hmac issued c secret) = [?h, token_part ?j, ?s]"
    by (simp add: sign_run_token_def Let_def split_on_append split_on_none token_part_plain)
  have "base64url_decode (token_part ?j) = utf8_bytes (json_stringify ?j)"
    unfolding token_part_def using utf8_byte by (intro base64url_back) blast
  then have "Option.bind (utf8_string (base64url_decode (token_part ?j))) json_parse = Some ?j"
    by (simp add: utf8_back json_parse_stringify claims_plain)
  moreover have "expired now ?j \<longleftrightarrow> tc_exp c < now div 1000"
    by (auto simp: expired_def claims_json_def fld_def split: option.splits)
  ultimately show ?thesis using split by (simp add: verify_run_token_def not_le)
qed

lemma signed_chars:
  assumes "\<And>k s n. n \<in> set (hmac k s) \<Longrightarrow> n < 256"
  shows "set (sign_run_token hmac now c secret) \<subseteq> insert (CHR ''.'') (set b64_alphabet)"
proof -
  have "set (token_part j) \<subseteq> set b64_alphabet" for j
    unfolding token_part_def using utf8_byte by (intro base64url_alphabet) blast
  moreover have "set (token_signature hmac secret s) \<subseteq> set b64_alphabet" for s
    unfolding token_signature_def using assms by (intro base64url_alphabet) blast
  ultimately show ?thesis unfolding sign_run_token_def Let_def by auto
qed

end
