(* ===== verification/RunEnv.thy ===== *)
theory RunEnv
  imports "HOL-Library.AList" StreamParser RunToken
begin

text \<open>
  What the spawned agent process gets from the platform: the environment
  (\<open>env-allowlist.ts\<close>, \<open>user-env.ts\<close>, the env part of \<open>packages/contracts\<close>), the authentication and
  provider variables and the defaulted configuration (\<open>claude-cli.config.ts\<close>), the argument vector
  (\<open>args.ts\<close>) and the MCP configuration file (\<open>mcp-config.ts\<close>). An object of strings is an
  association list in insertion order; \<open>AList.update\<close> is its assignment. Paths are joined with a slash.
\<close>

type_synonym env_map = "(string \<times> string) list"

definition the_default :: "'a \<Rightarrow> 'a option \<Rightarrow> 'a" where
  "the_default d x = (case x of Some y \<Rightarrow> y | None \<Rightarrow> d)"

section \<open>Reserved keys and the schema of operator environments\<close>

definition RESERVED_ENV_KEYS :: "string list" where
  "RESERVED_ENV_KEYS = [''PATH'', ''HOME'', ''USER'', ''LOGNAME'', ''SHELL'', ''LANG'', ''TERM'', ''TMPDIR'', ''SSH_AUTH_SOCK'',
     ''GIT_AUTHOR_NAME'', ''GIT_AUTHOR_EMAIL'', ''GIT_COMMITTER_NAME'', ''GIT_COMMITTER_EMAIL'', ''NODE_EXTRA_CA_CERTS'']"

definition RESERVED_ENV_PREFIXES :: "string list" where
  "RESERVED_ENV_PREFIXES = [''ANTHROPIC_'', ''AWS_'', ''CLAUDE_'', ''FAKE_CLAUDE_'', ''BRIGADIR_'']"

definition is_reserved_env_key :: "string \<Rightarrow> bool" where
  "is_reserved_env_key key \<longleftrightarrow> key \<in> set RESERVED_ENV_KEYS \<or> list_ex (\<lambda>p. is_prefix_at p key) RESERVED_ENV_PREFIXES"

definition ENV_VALUE_MAX_BYTES :: nat where
  "ENV_VALUE_MAX_BYTES = 8192"

definition ENV_TOTAL_MAX_BYTES :: nat where
  "ENV_TOTAL_MAX_BYTES = 65536"

definition env_byte_length :: "string \<Rightarrow> nat" where
  "env_byte_length v = length (utf8_bytes v)"

text \<open>\<open>/^[A-Za-z_][A-Za-z0-9_]*$/\<close>.\<close>

definition env_key_format :: "string \<Rightarrow> bool" where
  "env_key_format k \<longleftrightarrow> k \<noteq> [] \<and> (hd k = CHR ''_'' \<or> in_range (CHR ''A'') (CHR ''Z'') (hd k) \<or> in_range (CHR ''a'') (CHR ''z'') (hd k)) \<and>
     list_all word_char k"

datatype env_issue = Key_invalid string | Key_reserved string | Value_too_long string | Scope_too_long

text \<open>The issues \<open>EnvMapSchema\<close> reports for a record of strings; none means accepted.\<close>

definition env_map_issues :: "env_map \<Rightarrow> env_issue list" where
  "env_map_issues m =
     concat (map (\<lambda>(k, v).
       (if \<not> env_key_format k then [Key_invalid k] else if is_reserved_env_key k then [Key_reserved k] else []) @
       (if ENV_VALUE_MAX_BYTES < env_byte_length v then [Value_too_long k] else [])) m) @
     (if ENV_TOTAL_MAX_BYTES < sum_list (map (\<lambda>(k, v). env_byte_length k + env_byte_length v) m) then [Scope_too_long] else [])"

section \<open>The allowlist\<close>

definition ALLOWLIST_KEYS :: "string list" where
  "ALLOWLIST_KEYS = [''HOME'', ''PATH'', ''USER'', ''LOGNAME'', ''SHELL'', ''LANG'', ''TERM'', ''TMPDIR'',
     ''GIT_AUTHOR_NAME'', ''GIT_AUTHOR_EMAIL'', ''GIT_COMMITTER_NAME'', ''GIT_COMMITTER_EMAIL'', ''SSH_AUTH_SOCK'',
     ''FAKE_CLAUDE_FIXTURE'', ''FAKE_CLAUDE_STDIN_DUMP'', ''FAKE_CLAUDE_ENV_DUMP'', ''FAKE_CLAUDE_ARGV_DUMP'',
     ''FAKE_CLAUDE_SPAWN_CHILD'', ''FAKE_CLAUDE_CHILD_PID_FILE'', ''FAKE_CLAUDE_SELF_PID_FILE'', ''FAKE_CLAUDE_STDERR_TEXT'',
     ''FAKE_CLAUDE_EXIT_CODE'', ''FAKE_CLAUDE_LINE_DELAY_MS'', ''FAKE_CLAUDE_CALLBACKS'']"

definition build_child_env :: "(string \<Rightarrow> string option) \<Rightarrow> env_map" where
  "build_child_env source = foldl (\<lambda>env key. case source key of None \<Rightarrow> env | Some v \<Rightarrow> AList.update key v env) [] ALLOWLIST_KEYS"

section \<open>The operator's layers\<close>

definition object_assign :: "env_map \<Rightarrow> env_map \<Rightarrow> env_map" where
  "object_assign target m = foldl (\<lambda>env (k, v). AList.update k v env) target m"

definition compose_user_env :: "env_map option \<Rightarrow> env_map list \<Rightarrow> env_map option \<Rightarrow> env_map" where
  "compose_user_env workspace repos agent =
     object_assign (foldl object_assign (object_assign [] (the_default [] workspace)) repos) (the_default [] agent)"

record env_secrets =
  es_workspace :: "env_map option"
  es_repos :: "(string \<times> env_map) list option"
  es_agents :: "(string \<times> env_map) list option"

record mounted_repo =
  mr_id :: "string option"
  mr_env :: "env_map option"

record assemble_input =
  ai_workspace_env :: "env_map option"
  ai_agent_env :: "env_map option"
  ai_mounted :: "mounted_repo list"
  ai_agent_id :: string
  ai_secrets :: env_secrets

text \<open>The sealed secrets of one mounted repository: keyed by its id, when it has one.\<close>

definition repo_secrets :: "env_secrets \<Rightarrow> mounted_repo \<Rightarrow> env_map" where
  "repo_secrets s r = (case mr_id r of None \<Rightarrow> [] | Some i \<Rightarrow>
     if i = [] then [] else the_default [] (Option.bind (es_repos s) (\<lambda>m. map_of m i)))"

definition agent_secrets :: "env_secrets \<Rightarrow> string \<Rightarrow> env_map" where
  "agent_secrets s i = (if i = [] then [] else the_default [] (Option.bind (es_agents s) (\<lambda>m. map_of m i)))"

definition assemble_run_user_env :: "assemble_input \<Rightarrow> env_map \<times> string list" where
  "assemble_run_user_env i =
     (let s = ai_secrets i;
          ws = the_default [] (es_workspace s);
          workspace_layer = object_assign (object_assign [] (the_default [] (ai_workspace_env i))) ws;
          repo_layers = map (\<lambda>r. object_assign (object_assign [] (the_default [] (mr_env r))) (repo_secrets s r)) (ai_mounted i);
          ag = agent_secrets s (ai_agent_id i);
          agent_layer = object_assign (object_assign [] (the_default [] (ai_agent_env i))) ag
      in (compose_user_env (Some workspace_layer) repo_layers (Some agent_layer),
          map snd ws @ concat (map (\<lambda>r. map snd (repo_secrets s r)) (ai_mounted i)) @ map snd ag))"

definition apply_user_env :: "env_map \<Rightarrow> env_map \<Rightarrow> env_map \<times> string list" where
  "apply_user_env env user =
     (object_assign env (filter (\<lambda>(k, v). \<not> is_reserved_env_key k) user), map fst (filter (\<lambda>(k, v). is_reserved_env_key k) user))"

text \<open>The names-only projection of the sealed document.\<close>

definition env_secret_keys :: "env_secrets \<Rightarrow> string list \<times> (string \<times> string list) list \<times> (string \<times> string list) list" where
  "env_secret_keys s =
     (let per_ref = (\<lambda>m. map (\<lambda>(r, e). (r, map fst e)) (the_default [] m))
      in (map fst (the_default [] (es_workspace s)), per_ref (es_repos s), per_ref (es_agents s)))"

section \<open>Authentication and provider\<close>

datatype auth_mode = Host_subscription | Api_key | Bedrock

datatype effective_auth =
    Auth_host_subscription
  | Auth_api_key
  | Auth_bedrock string "string option" "string option"

record provider_preset =
  pp_type :: string
  pp_base_url :: "string option"

definition MOONSHOT_ANTHROPIC_BASE_URL :: string where
  "MOONSHOT_ANTHROPIC_BASE_URL = ''https://api.moonshot.ai/anthropic''"

definition DEEPSEEK_ANTHROPIC_BASE_URL :: string where
  "DEEPSEEK_ANTHROPIC_BASE_URL = ''https://api.deepseek.com/anthropic''"

definition PROVIDER_PRESETS :: "provider_preset list" where
  "PROVIDER_PRESETS = [\<lparr>pp_type = ''claude_cli'', pp_base_url = None\<rparr>,
     \<lparr>pp_type = ''kimi'', pp_base_url = Some MOONSHOT_ANTHROPIC_BASE_URL\<rparr>,
     \<lparr>pp_type = ''deepseek_api'', pp_base_url = Some DEEPSEEK_ANTHROPIC_BASE_URL\<rparr>]"

definition API_KEY_ONLY_EXECUTOR_TYPES :: "string list" where
  "API_KEY_ONLY_EXECUTOR_TYPES = [''kimi'', ''deepseek_api'']"

definition API_KEY_ONLY_PROVIDER_LABELS :: "(string \<times> string) list" where
  "API_KEY_ONLY_PROVIDER_LABELS = [(''kimi'', ''Moonshot''), (''deepseek_api'', ''DeepSeek'')]"

text \<open>The stored \<open>executors.config\<close> of a harness profile.\<close>

record cli_config_input =
  ci_model :: string
  ci_cli_path :: string
  ci_allowed_tools :: "string list option"
  ci_keep_failed :: bool
  ci_worktree_root :: "string option"
  ci_repo_cache_root :: "string option"
  ci_max_turns :: "int option"
  ci_kill_grace :: "json option"
  ci_cancel_poll :: int
  ci_settle_grace :: "json option"
  ci_bootstrap_timeout :: "json option"
  ci_pm_cache_root :: "string option"
  ci_callback :: bool
  ci_auth :: "auth_mode option"
  ci_aws_region :: "string option"
  ci_aws_profile :: "string option"
  ci_ca_bundle :: "string option"

definition BEDROCK_NO_REGION :: string where
  "BEDROCK_NO_REGION = ''executor config has auth '' @ [CHR 0x22] @ ''bedrock'' @ [CHR 0x22] @ '' but no awsRegion - re-save the profile''"

definition resolve_effective_auth :: "cli_config_input \<Rightarrow> bool \<Rightarrow> string + effective_auth" where
  "resolve_effective_auth c has_key =
     (case (case ci_auth c of Some m \<Rightarrow> m | None \<Rightarrow> if has_key then Api_key else Host_subscription) of
        Host_subscription \<Rightarrow> Inr Auth_host_subscription
      | Api_key \<Rightarrow> Inr Auth_api_key
      | Bedrock \<Rightarrow> (case ci_aws_region c of
            Some r \<Rightarrow> if r = [] then Inl BEDROCK_NO_REGION else Inr (Auth_bedrock r (ci_aws_profile c) (ci_ca_bundle c))
          | None \<Rightarrow> Inl BEDROCK_NO_REGION))"

definition set_if :: "string \<Rightarrow> string option \<Rightarrow> env_map \<Rightarrow> env_map" where
  "set_if k v env = (case v of Some s \<Rightarrow> if s = [] then env else AList.update k s env | None \<Rightarrow> env)"

fun apply_auth_env :: "effective_auth \<Rightarrow> string option \<Rightarrow> env_map \<Rightarrow> env_map" where
  "apply_auth_env Auth_host_subscription key env = env"
| "apply_auth_env Auth_api_key key env = set_if ''ANTHROPIC_API_KEY'' key env"
| "apply_auth_env (Auth_bedrock region profile bundle) key env =
     set_if ''NODE_EXTRA_CA_CERTS'' bundle (set_if ''AWS_PROFILE'' profile
       (AList.update ''AWS_REGION'' region (AList.update ''CLAUDE_CODE_USE_BEDROCK'' ''1'' env)))"

definition apply_provider_env :: "provider_preset \<Rightarrow> env_map \<Rightarrow> env_map" where
  "apply_provider_env p env = set_if ''ANTHROPIC_BASE_URL'' (pp_base_url p) env"

text \<open>The environment of the child process as \<open>runProcess\<close> puts it together.\<close>

definition child_env :: "(string \<Rightarrow> string option) \<Rightarrow> env_map \<Rightarrow> effective_auth \<Rightarrow> string option \<Rightarrow> provider_preset \<Rightarrow> env_map" where
  "child_env host user auth key preset =
     apply_provider_env preset (apply_auth_env auth key (fst (apply_user_env (build_child_env host) user)))"

section \<open>The defaulted configuration\<close>

definition clamp_ms :: "int \<Rightarrow> int \<Rightarrow> int \<Rightarrow> json option \<Rightarrow> int" where
  "clamp_ms lo hi dflt raw = (case raw of
     Some (JNum q) \<Rightarrow> (let i = js_round q in if i < lo then lo else if hi < i then hi else i)
   | _ \<Rightarrow> dflt)"

definition normalize_kill_grace_ms :: "json option \<Rightarrow> int" where
  "normalize_kill_grace_ms = clamp_ms 1000 60000 10000"

definition normalize_settle_grace_ms :: "json option \<Rightarrow> int" where
  "normalize_settle_grace_ms = clamp_ms 100 60000 5000"

definition normalize_bootstrap_timeout_ms :: "json option \<Rightarrow> int" where
  "normalize_bootstrap_timeout_ms = clamp_ms 10000 1800000 600000"

definition DEFAULT_REPO_RUN_ALLOWED_TOOLS :: "string list" where
  "DEFAULT_REPO_RUN_ALLOWED_TOOLS = [''Read'', ''Glob'', ''Grep'', ''Write'', ''Edit'', ''MultiEdit'', ''NotebookEdit'', ''TodoWrite'',
     ''Task'', ''Skill'', ''Bash'', ''WebFetch'', ''WebSearch'']"

record cli_runtime_config =
  rc_model :: string
  rc_cli_path :: string
  rc_allowed_tools :: "string list"
  rc_keep_failed :: bool
  rc_worktree_root :: string
  rc_repo_cache_root :: string
  rc_max_turns :: "int option"
  rc_kill_grace :: int
  rc_cancel_poll :: int
  rc_settle_grace :: int
  rc_bootstrap_timeout :: int
  rc_pm_cache_root :: string
  rc_callback :: bool

definition path_join :: "string list \<Rightarrow> string" where
  "path_join ps = join_with ''/'' ps"

definition resolve_claude_cli_config :: "string \<Rightarrow> cli_config_input \<Rightarrow> string list \<Rightarrow> cli_runtime_config" where
  "resolve_claude_cli_config home raw agent_tools =
     \<lparr>rc_model = ci_model raw, rc_cli_path = ci_cli_path raw,
      rc_allowed_tools = (case ci_allowed_tools raw of Some (t # ts) \<Rightarrow> t # ts | _ \<Rightarrow> agent_tools),
      rc_keep_failed = ci_keep_failed raw,
      rc_worktree_root = the_default (path_join [home, ''.brigadir'', ''worktrees'']) (ci_worktree_root raw),
      rc_repo_cache_root = the_default (path_join [home, ''.brigadir'', ''repos'']) (ci_repo_cache_root raw),
      rc_max_turns = ci_max_turns raw,
      rc_kill_grace = normalize_kill_grace_ms (ci_kill_grace raw),
      rc_cancel_poll = ci_cancel_poll raw,
      rc_settle_grace = normalize_settle_grace_ms (ci_settle_grace raw),
      rc_bootstrap_timeout = normalize_bootstrap_timeout_ms (ci_bootstrap_timeout raw),
      rc_pm_cache_root = the_default (path_join [home, ''.brigadir'', ''pm-cache'']) (ci_pm_cache_root raw),
      rc_callback = ci_callback raw\<rparr>"

section \<open>Arguments and the MCP configuration\<close>

definition CALLBACK_TOOL_NAMES :: "string list" where
  "CALLBACK_TOOL_NAMES = [''mcp__brigadir__report_progress'', ''mcp__brigadir__request_human'', ''mcp__brigadir__complete_task'',
     ''mcp__brigadir__get_project_overview'', ''mcp__brigadir__search_tickets'', ''mcp__brigadir__get_ticket'',
     ''mcp__brigadir__list_role_templates'', ''mcp__brigadir__get_role_template'']"

record args_input =
  ar_model :: string
  ar_worktree_dir :: string
  ar_allowed_tools :: "string list"
  ar_max_turns :: "int option"
  ar_max_budget :: "rat option"
  ar_callback :: bool
  ar_mcp_config :: "string option"
  ar_settings :: "string option"

definition flag :: "string \<Rightarrow> ('a \<Rightarrow> string) \<Rightarrow> 'a option \<Rightarrow> string list" where
  "flag name f v = (case v of None \<Rightarrow> [] | Some x \<Rightarrow> [name, f x])"

text \<open>\<open>schema_text\<close> is the JSON schema of the report as the schema library renders it.\<close>

definition build_args :: "string \<Rightarrow> args_input \<Rightarrow> string list" where
  "build_args schema_text i =
     [''-p'', ''--output-format'', ''stream-json'', ''--verbose''] @
     (if ar_callback i then [] else [''--json-schema'', schema_text]) @
     [''--model'', ar_model i, ''--append-system-prompt-file'', path_join [ar_worktree_dir i, ''.brigadir'', ''wrapper.txt''],
      ''--allowed-tools'', join_with '','' (ar_allowed_tools i @ (if ar_callback i then CALLBACK_TOOL_NAMES else [])),
      ''--strict-mcp-config''] @
     (if ar_callback i then (case ar_mcp_config i of Some p \<Rightarrow> if p = [] then [] else [''--mcp-config'', p] | None \<Rightarrow> []) else []) @
     (if ar_callback i then [''--disallowed-tools'', ''ScheduleWakeup''] else []) @
     [''--settings'', (if ar_callback i then the_default ''{}'' (ar_settings i) else ''{}''), ''--permission-mode'', ''dontAsk''] @
     flag ''--max-turns'' show_int (ar_max_turns i) @ flag ''--max-budget-usd'' show_num (ar_max_budget i)"

record mcp_input =
  mi_run_id :: string
  mi_callback_url :: string
  mi_run_token :: string
  mi_entry :: string
  mi_repo_dirs :: "(string \<times> string) list"

definition MAIN_JS :: string where
  "MAIN_JS = ''main.js''"

text \<open>\<open>entry.replace(/main\.js$/, name)\<close>.\<close>

definition entry_sibling :: "string \<Rightarrow> string \<Rightarrow> string" where
  "entry_sibling entry name =
     (if length MAIN_JS \<le> length entry \<and> drop (length entry - length MAIN_JS) entry = MAIN_JS
      then take (length entry - length MAIN_JS) entry @ name else entry)"

record mcp_config =
  mc_config_path :: string
  mc_marker_path :: string
  mc_content :: string
  mc_settings :: string

definition mcp_config_json :: "mcp_input \<Rightarrow> string \<Rightarrow> json" where
  "mcp_config_json i marker =
     JObj [(''mcpServers'', JObj [(''brigadir'', JObj [(''command'', JStr ''node''), (''args'', JArr [JStr (mi_entry i)]),
       (''env'', JObj ([(''BRIGADIR_RUN_ID'', JStr (mi_run_id i)), (''BRIGADIR_CALLBACK_URL'', JStr (mi_callback_url i)),
          (''BRIGADIR_RUN_TOKEN'', JStr (mi_run_token i)), (''BRIGADIR_MARKER_PATH'', JStr marker)] @
          (if mi_repo_dirs i = [] then []
           else [(''BRIGADIR_REPO_DIRS'', JStr (json_stringify (JObj (map (\<lambda>(k, v). (k, JStr v)) (mi_repo_dirs i)))))])))])])]"

definition hook_settings_json :: "string \<Rightarrow> string \<Rightarrow> json" where
  "hook_settings_json entry marker =
     JObj [(''hooks'', JObj [
       (''PreToolUse'', JArr [JObj [(''matcher'', JStr ''Bash''), (''hooks'', JArr [JObj [(''type'', JStr ''command''),
          (''command'', JStr (''node '' @ entry_sibling entry ''bash-guard.js''))]])]]),
       (''Stop'', JArr [JObj [(''hooks'', JArr [JObj [(''type'', JStr ''command''),
          (''command'', JStr (''node '' @ entry_sibling entry ''stop-hook.js'' @ '' '' @ marker))]])]])])]"

definition write_mcp_config :: "mcp_input \<Rightarrow> string \<Rightarrow> mcp_config" where
  "write_mcp_config i config_root =
     (let marker = path_join [config_root, mi_run_id i @ ''.marker''] in
      \<lparr>mc_config_path = path_join [config_root, mi_run_id i @ ''.mcp.json''], mc_marker_path = marker,
       mc_content = json_stringify (mcp_config_json i marker), mc_settings = json_stringify (hook_settings_json (mi_entry i) marker)\<rparr>)"

section \<open>Reading an environment\<close>

lemma map_of_object_assign:
  "distinct (map fst m) \<Longrightarrow> map_of (object_assign env m) k = (case map_of m k of Some v \<Rightarrow> Some v | None \<Rightarrow> map_of env k)"
proof (induction m arbitrary: env)
  case (Cons kv m)
  obtain a v where kv: "kv = (a, v)" by fastforce
  have "map_of m a = None" using Cons.prems kv by (simp add: map_of_eq_None_iff)
  then show ?case using Cons kv
    by (auto simp: object_assign_def update_conv' split: option.splits)
qed (simp add: object_assign_def)

lemma keys_object_assign: "fst ` set (object_assign env m) = fst ` set env \<union> fst ` set m"
proof (induction m arbitrary: env)
  case (Cons kv m)
  then show ?case by (cases kv) (auto simp: object_assign_def dom_update)
qed (simp add: object_assign_def)

lemma distinct_object_assign: "distinct (map fst env) \<Longrightarrow> distinct (map fst (object_assign env m))"
proof (induction m arbitrary: env)
  case (Cons kv m)
  then show ?case by (cases kv) (simp add: object_assign_def distinct_update)
qed (simp add: object_assign_def)

lemma map_of_child_env:
  "distinct ks \<Longrightarrow> map_of (foldl (\<lambda>env key. case source key of None \<Rightarrow> env | Some v \<Rightarrow> AList.update key v env) env ks) k =
    (if k \<in> set ks then (case source k of Some v \<Rightarrow> Some v | None \<Rightarrow> map_of env k) else map_of env k)"
  by (induction ks arbitrary: env) (auto simp: update_conv' split: option.split)

lemma allowlist_distinct: "distinct ALLOWLIST_KEYS"
  by code_simp

lemma allowlist_reserved: "k \<in> set ALLOWLIST_KEYS \<Longrightarrow> is_reserved_env_key k"
proof -
  have "list_all is_reserved_env_key ALLOWLIST_KEYS" by code_simp
  then show "k \<in> set ALLOWLIST_KEYS \<Longrightarrow> ?thesis" by (simp add: list_all_iff)
qed

lemma map_of_build_child_env: "map_of (build_child_env host) k = (if k \<in> set ALLOWLIST_KEYS then host k else None)"
  by (simp add: build_child_env_def map_of_child_env [OF allowlist_distinct] split: option.split)

lemma map_of_apply_user_env:
  assumes "distinct (map fst user)"
  shows "map_of (fst (apply_user_env env user)) k =
    (if is_reserved_env_key k then map_of env k else (case map_of user k of Some v \<Rightarrow> Some v | None \<Rightarrow> map_of env k))"
proof -
  have "distinct (map fst (filter (\<lambda>(k, v). \<not> is_reserved_env_key k) user))" using assms by (rule distinct_map_filter)
  moreover have "map_of (filter (\<lambda>(k, v). \<not> is_reserved_env_key k) user) k = (if is_reserved_env_key k then None else map_of user k)"
    by (induction user) auto
  ultimately show ?thesis by (simp add: apply_user_env_def map_of_object_assign)
qed

lemma map_of_set_if: "map_of (set_if k v env) j = (if j = k \<and> v \<noteq> None \<and> v \<noteq> Some [] then v else map_of env j)"
  by (auto simp: set_if_def update_conv' split: option.split)

text \<open>What the platform itself puts into the environment.\<close>

definition platform_env :: "effective_auth \<Rightarrow> string option \<Rightarrow> provider_preset \<Rightarrow> string \<Rightarrow> string option" where
  "platform_env auth key preset k = map_of (apply_provider_env preset (apply_auth_env auth key [])) k"

lemma map_of_platform:
  "map_of (apply_provider_env preset (apply_auth_env auth key env)) k =
    (case platform_env auth key preset k of Some v \<Rightarrow> Some v | None \<Rightarrow> map_of env k)"
  unfolding platform_env_def apply_provider_env_def
  by (cases auth) (auto simp: map_of_set_if update_conv' split: option.split)

lemma platform_keys_reserved: "platform_env auth key preset k = Some v \<Longrightarrow> is_reserved_env_key k"
proof -
  have "list_all is_reserved_env_key [''ANTHROPIC_API_KEY'', ''CLAUDE_CODE_USE_BEDROCK'', ''AWS_REGION'', ''AWS_PROFILE'',
      ''NODE_EXTRA_CA_CERTS'', ''ANTHROPIC_BASE_URL'']" by code_simp
  then show "platform_env auth key preset k = Some v \<Longrightarrow> ?thesis"
    unfolding platform_env_def apply_provider_env_def
    by (cases auth) (auto simp: map_of_set_if update_conv' split: if_splits)
qed

text \<open>
  C25. Nobody but the platform sets a reserved variable, and nothing of the host leaks: every variable
  of the agent process is one the platform injects, else - for the reserved names - the host's value of
  an allowlisted name, else the operator's value; whatever the host's environment and the operator's are.
\<close>

theorem child_env_by_origin:
  assumes "distinct (map fst user)"
  shows "map_of (child_env host user auth key preset) k =
    (case platform_env auth key preset k of
       Some v \<Rightarrow> Some v
     | None \<Rightarrow> if is_reserved_env_key k then (if k \<in> set ALLOWLIST_KEYS then host k else None) else map_of user k)"
  unfolding child_env_def map_of_platform
  using allowlist_reserved
  by (auto simp: map_of_apply_user_env [OF assms] map_of_build_child_env split: option.split)

text \<open>
  The layers of the operator's environment from the weakest to the strongest: at each scope the sealed
  values over the plain ones, the workspace under the repositories in mount order under the agent.
\<close>

definition env_layers :: "assemble_input \<Rightarrow> env_map list" where
  "env_layers i = [the_default [] (ai_workspace_env i), the_default [] (es_workspace (ai_secrets i))] @
     concat (map (\<lambda>r. [the_default [] (mr_env r), repo_secrets (ai_secrets i) r]) (ai_mounted i)) @
     [the_default [] (ai_agent_env i), agent_secrets (ai_secrets i) (ai_agent_id i)]"

definition strongest :: "env_map list \<Rightarrow> string \<Rightarrow> string option" where
  "strongest ls k = foldl (\<lambda>acc l. case map_of l k of Some v \<Rightarrow> Some v | None \<Rightarrow> acc) None ls"

lemma strongest_snoc: "strongest (ls @ [l]) k = (case map_of l k of Some v \<Rightarrow> Some v | None \<Rightarrow> strongest ls k)"
  unfolding strongest_def by simp

lemma strongest_append: "strongest (ls @ ms) k = (case strongest ms k of Some v \<Rightarrow> Some v | None \<Rightarrow> strongest ls k)"
proof (induction ms rule: rev_induct)
  case Nil
  then show ?case by (simp add: strongest_def)
next
  case (snoc m ms)
  then show ?case
    by (simp add: strongest_snoc flip: append_assoc split: option.split)
qed

lemma strongest_simps [simp]: "strongest [] k = None" "strongest [l] k = map_of l k"
  by (simp_all add: strongest_def split: option.split)

text \<open>Assigning an object that is itself the result of assignments.\<close>

lemma map_of_assign_twice:
  assumes "distinct (map fst p)" and "distinct (map fst q)"
  shows "map_of (object_assign env (object_assign (object_assign [] p) q)) k =
    (case strongest [p, q] k of Some v \<Rightarrow> Some v | None \<Rightarrow> map_of env k)"
  using assms by (simp add: map_of_object_assign distinct_object_assign strongest_def split: option.split)

lemma map_of_repo_layers:
  assumes "\<forall>(p, q)\<in>set ls. distinct (map fst p) \<and> distinct (map fst q)"
  shows "map_of (foldl object_assign env (map (\<lambda>(p, q). object_assign (object_assign [] p) q) ls)) k =
    (case strongest (concat (map (\<lambda>(p, q). [p, q]) ls)) k of Some v \<Rightarrow> Some v | None \<Rightarrow> map_of env k)"
  using assms
proof (induction ls arbitrary: env)
  case (Cons pq ls)
  obtain p q where pq: "pq = (p, q)" by fastforce
  have "map_of (foldl object_assign env (map (\<lambda>(p, q). object_assign (object_assign [] p) q) (pq # ls))) k =
      (case strongest (concat (map (\<lambda>(p, q). [p, q]) ls)) k of Some v \<Rightarrow> Some v
       | None \<Rightarrow> map_of (object_assign env (object_assign (object_assign [] p) q)) k)"
    using Cons pq by simp
  also have "\<dots> = (case strongest ([p, q] @ concat (map (\<lambda>(p, q). [p, q]) ls)) k of Some v \<Rightarrow> Some v | None \<Rightarrow> map_of env k)"
    unfolding strongest_append using Cons.prems pq by (subst map_of_assign_twice) (auto split: option.split)
  finally show ?case by (simp add: pq)
qed simp

lemma map_of_composed:
  assumes "distinct (map fst wp)" "distinct (map fst wq)" "distinct (map fst ap)" "distinct (map fst aq)"
    and "\<forall>(p, q)\<in>set ls. distinct (map fst p) \<and> distinct (map fst q)"
  shows "map_of (compose_user_env (Some (object_assign (object_assign [] wp) wq))
      (map (\<lambda>(p, q). object_assign (object_assign [] p) q) ls) (Some (object_assign (object_assign [] ap) aq))) k =
    strongest ([wp, wq] @ concat (map (\<lambda>(p, q). [p, q]) ls) @ [ap, aq]) k"
  unfolding compose_user_env_def the_default_def option.case strongest_append
    map_of_assign_twice [OF assms(3,4)] map_of_repo_layers [OF assms(5)] map_of_assign_twice [OF assms(1,2)]
  by (simp split: option.split)

text \<open>
  Precedence and secrecy of the operator's environment: a variable has the value of the strongest
  layer that defines it - agent over repositories, a later mounted repository over an earlier one, over
  the workspace, and at each scope the sealed value over the plain one - and a value that no plain
  layer holds is in the list the run's scrubber is built from.
\<close>

theorem assembled_env_precedence:
  assumes "list_all (\<lambda>l. distinct (map fst l)) (env_layers i)"
  shows "map_of (fst (assemble_run_user_env i)) k = strongest (env_layers i) k \<and>
    (\<forall>v. strongest (env_layers i) k = Some v \<longrightarrow> v \<in> set (snd (assemble_run_user_env i)) \<or>
       (k, v) \<in> set (the_default [] (ai_workspace_env i)) \<union> set (the_default [] (ai_agent_env i)) \<union>
         (\<Union>r\<in>set (ai_mounted i). set (the_default [] (mr_env r))))"
proof -
  let ?pairs = "map (\<lambda>r. (the_default [] (mr_env r), repo_secrets (ai_secrets i) r)) (ai_mounted i)"
  have dist: "\<forall>l\<in>set (env_layers i). distinct (map fst l)" using assms by (simp add: list_all_iff)
  have repos: "map (\<lambda>(p, q). object_assign (object_assign [] p) q) ?pairs =
      map (\<lambda>r. object_assign (object_assign [] (the_default [] (mr_env r))) (repo_secrets (ai_secrets i) r)) (ai_mounted i)"
      "concat (map (\<lambda>(p, q). [p, q]) ?pairs) = concat (map (\<lambda>r. [the_default [] (mr_env r), repo_secrets (ai_secrets i) r]) (ai_mounted i))"
    by (simp_all add: comp_def)
  have ok: "\<forall>(p, q)\<in>set ?pairs. distinct (map fst p) \<and> distinct (map fst q)" using dist by (auto simp: env_layers_def)
  have val: "map_of (fst (assemble_run_user_env i)) k = strongest (env_layers i) k"
    unfolding assemble_run_user_env_def Let_def fst_conv env_layers_def repos [symmetric]
    by (rule map_of_composed) (use dist ok in \<open>auto simp: env_layers_def\<close>)
  have origin: "strongest ls k = Some v \<Longrightarrow> \<exists>l\<in>set ls. (k, v) \<in> set l" for ls v
    by (induction ls rule: rev_induct) (auto simp: strongest_append dest: map_of_SomeD split: option.splits)
  have secrets: "snd (assemble_run_user_env i) = map snd (the_default [] (es_workspace (ai_secrets i))) @
      concat (map (\<lambda>r. map snd (repo_secrets (ai_secrets i) r)) (ai_mounted i)) @ map snd (agent_secrets (ai_secrets i) (ai_agent_id i))"
    by (simp add: assemble_run_user_env_def Let_def)
  show ?thesis
    using val origin [of "env_layers i"] unfolding secrets env_layers_def
    by (auto simp: image_iff) (force dest: spec)+
qed

section \<open>Accepted environments, bounded timeouts, one completion channel\<close>

text \<open>What the write surfaces accept is injected whole.\<close>

theorem accepted_env_is_injected:
  assumes "env_map_issues m = []"
  shows "apply_user_env env m = (object_assign env m, [])"
proof -
  have "\<forall>(k, v)\<in>set m. \<not> is_reserved_env_key k"
    using assms by (force simp: env_map_issues_def split: if_splits)
  then have "filter (\<lambda>(k, v). \<not> is_reserved_env_key k) m = m" "filter (\<lambda>(k, v). is_reserved_env_key k) m = []"
    by (auto simp: filter_id_conv filter_empty_conv)
  then show ?thesis by (simp add: apply_user_env_def)
qed

lemma clamp_bounds: "lo \<le> dflt \<Longrightarrow> dflt \<le> hi \<Longrightarrow> lo \<le> clamp_ms lo hi dflt raw \<and> clamp_ms lo hi dflt raw \<le> hi"
  by (auto simp: clamp_ms_def Let_def split: option.split json.split)

text \<open>
  Whatever the stored configuration says, an agent that is told to stop gets between one second and one
  minute, a settlement window is never zero and a bootstrap command never holds a slot for more than
  half an hour.
\<close>

theorem timeouts_are_bounded:
  "rc_kill_grace (resolve_claude_cli_config home raw tools) \<in> {1000..60000} \<and>
   rc_settle_grace (resolve_claude_cli_config home raw tools) \<in> {100..60000} \<and>
   rc_bootstrap_timeout (resolve_claude_cli_config home raw tools) \<in> {10000..1800000}"
  by (simp add: resolve_claude_cli_config_def normalize_kill_grace_ms_def normalize_settle_grace_ms_def
      normalize_bootstrap_timeout_ms_def clamp_bounds)

text \<open>A run has one completion channel: the schema flag without the callback channel, the tools with it.\<close>

lemma one_channel:
  assumes "\<not> ar_callback i"
  shows "build_args schema i = [''-p'', ''--output-format'', ''stream-json'', ''--verbose'', ''--json-schema'', schema,
    ''--model'', ar_model i, ''--append-system-prompt-file'', path_join [ar_worktree_dir i, ''.brigadir'', ''wrapper.txt''],
    ''--allowed-tools'', join_with '','' (ar_allowed_tools i), ''--strict-mcp-config'', ''--settings'', ''{}'',
    ''--permission-mode'', ''dontAsk''] @ flag ''--max-turns'' show_int (ar_max_turns i) @ flag ''--max-budget-usd'' show_num (ar_max_budget i)"
  using assms by (simp add: build_args_def)

section \<open>The theorems on concrete environments\<close>

definition sample_host :: "string \<Rightarrow> string option" where
  "sample_host = [''HOME'' \<mapsto> ''/home/w'', ''ANTHROPIC_API_KEY'' \<mapsto> ''host-key'', ''EDITOR'' \<mapsto> ''vi'']"

theorem child_env_by_origin_witness:
  "map_of (child_env sample_host [(''HOME'', ''/tmp''), (''DEBUG'', ''1'')] Auth_api_key (Some ''own-key'') \<lparr>pp_type = ''claude_cli'', pp_base_url = None\<rparr>)
     ''ANTHROPIC_API_KEY'' = Some ''own-key'' \<and>
   map_of (child_env sample_host [(''HOME'', ''/tmp''), (''DEBUG'', ''1'')] Auth_api_key (Some ''own-key'') \<lparr>pp_type = ''claude_cli'', pp_base_url = None\<rparr>)
     ''HOME'' = Some ''/home/w''"
proof -
  let ?u = "[(''HOME'', ''/tmp''), (''DEBUG'', ''1'')]" and ?p = "\<lparr>pp_type = ''claude_cli'', pp_base_url = None\<rparr> :: provider_preset"
  have "distinct (map fst ?u)" by simp
  note origin = child_env_by_origin [OF this, of sample_host Auth_api_key "Some ''own-key''" ?p]
  have "is_reserved_env_key ''HOME''" "''HOME'' \<in> set ALLOWLIST_KEYS" by code_simp+
  moreover have "platform_env Auth_api_key (Some ''own-key'') ?p ''HOME'' = None"
    "platform_env Auth_api_key (Some ''own-key'') ?p ''ANTHROPIC_API_KEY'' = Some ''own-key''" by code_simp+
  ultimately show ?thesis using origin [of "''HOME''"] origin [of "''ANTHROPIC_API_KEY''"] by (simp add: sample_host_def)
qed

definition sample_layers :: assemble_input where
  "sample_layers = \<lparr>ai_workspace_env = Some [(''URL'', ''w''), (''MODE'', ''x'')], ai_agent_env = None,
     ai_mounted = [\<lparr>mr_id = Some ''r1'', mr_env = Some [(''URL'', ''r'')]\<rparr>], ai_agent_id = ''a1'',
     ai_secrets = \<lparr>es_workspace = None, es_repos = Some [(''r1'', [(''PW'', ''s3cret'')])], es_agents = None\<rparr>\<rparr>"

theorem assembled_env_precedence_witness:
  "map_of (fst (assemble_run_user_env sample_layers)) ''URL'' = Some ''r'' \<and>
   map_of (fst (assemble_run_user_env sample_layers)) ''PW'' = Some ''s3cret'' \<and> ''s3cret'' \<in> set (snd (assemble_run_user_env sample_layers))"
proof -
  have d: "list_all (\<lambda>l. distinct (map fst l)) (env_layers sample_layers)" by code_simp
  have s: "strongest (env_layers sample_layers) ''URL'' = Some ''r''" "strongest (env_layers sample_layers) ''PW'' = Some ''s3cret''"
    by code_simp+
  show ?thesis using assembled_env_precedence [OF d, of "''URL''"] assembled_env_precedence [OF d, of "''PW''"] s
    by (simp add: sample_layers_def the_default_def)
qed

end
