(* ===== verification/DependencyGate.thy ===== *)
theory DependencyGate
  imports Samples "HOL-Library.Multiset"
begin

text \<open>
  The dependency gate (\<open>libs/pipeline/src/dependency-gate.ts\<close>): which "is blocked by" links
  of an issue still hold it back, under the done-category rule and, when configured, the
  release status of the workspace. With the scope query builder of \<open>libs/jira/src/scope-jql.ts\<close>,
  the priority parser of \<open>priority.ts\<close> and the settings accessors the release pass reads.
\<close>

section \<open>The gate\<close>

definition IS_BLOCKED_BY :: string where
  "IS_BLOCKED_BY = ''is blocked by''"

definition is_blocked_by_link :: "issue_link \<Rightarrow> bool" where
  "is_blocked_by_link l \<longleftrightarrow> il_inward_issue l \<noteq> None \<and> to_lower (il_inward l) = IS_BLOCKED_BY"

definition normalize :: "string \<Rightarrow> string" where
  "normalize v = to_lower (js_trim v)"

definition links_of :: "jira_issue \<Rightarrow> issue_link list" where
  "links_of i = (case i_links i of None \<Rightarrow> [] | Some ls \<Rightarrow> ls)"

definition link_blocks :: "string option \<Rightarrow> issue_link \<Rightarrow> bool" where
  "link_blocks wanted l =
     (if \<not> is_blocked_by_link l then False
      else case il_inward_issue l of None \<Rightarrow> False
        | Some li \<Rightarrow>
            if li_category li = Cat_done then False
            else case wanted of
                None \<Rightarrow> True
              | Some wd \<Rightarrow> \<not> (0 < length wd \<and> normalize (li_status li) = wd))"

definition blocking_links :: "string option \<Rightarrow> jira_issue \<Rightarrow> issue_link list" where
  "blocking_links release i =
     (let wanted = map_option normalize release in filter (link_blocks wanted) (links_of i))"

definition inward_key :: "issue_link \<Rightarrow> string" where
  "inward_key l = (case il_inward_issue l of None \<Rightarrow> '''' | Some li \<Rightarrow> li_key li)"

definition blocking_keys :: "string option \<Rightarrow> jira_issue \<Rightarrow> string list" where
  "blocking_keys release i = map inward_key (blocking_links release i)"

datatype gate = Clear | Blocked

definition evaluate_dependency_gate :: "string option \<Rightarrow> jira_issue \<Rightarrow> gate" where
  "evaluate_dependency_gate release i = (if 0 < length (blocking_links release i) then Blocked else Clear)"

definition all_blocked_by_keys :: "jira_issue \<Rightarrow> string list" where
  "all_blocked_by_keys i = map inward_key (filter is_blocked_by_link (links_of i))"

definition early_link :: "string \<Rightarrow> issue_link \<Rightarrow> bool" where
  "early_link wd l \<longleftrightarrow> is_blocked_by_link l \<and>
     (case il_inward_issue l of None \<Rightarrow> False
        | Some li \<Rightarrow> li_category li \<noteq> Cat_done \<and> normalize (li_status li) = wd)"

definition inward_status :: "issue_link \<Rightarrow> string" where
  "inward_status l = (case il_inward_issue l of None \<Rightarrow> '''' | Some li \<Rightarrow> li_status li)"

definition early_release_blockers :: "string option \<Rightarrow> jira_issue \<Rightarrow> (string \<times> string) list" where
  "early_release_blockers release i =
     (case map_option normalize release of
        None \<Rightarrow> []
      | Some wd \<Rightarrow> if length wd = 0 then []
          else map (\<lambda>l. (inward_key l, inward_status l)) (filter (early_link wd) (links_of i)))"

section \<open>Priorities\<close>

fun digits_value :: "int \<Rightarrow> string \<Rightarrow> int" where
  "digits_value n [] = n"
| "digits_value n (c # cs) = digits_value (10 * n + (int (of_char c) - 48)) cs"

definition parse_jira_priority :: "jira_issue \<Rightarrow> int option \<times> string option" where
  "parse_jira_priority i =
     (case i_priority i of None \<Rightarrow> (None, None)
      | Some (pid, name) \<Rightarrow>
          (if pid \<noteq> [] \<and> list_all is_digit_char pid then Some (digits_value 0 pid) else None,
           if name = [] then None else Some name))"

section \<open>Scope queries\<close>

definition build_scope_jql ::
  "board_type \<Rightarrow> string \<Rightarrow> int list option \<Rightarrow> string option \<Rightarrow> string option \<Rightarrow> string" where
  "build_scope_jql bt pk sprints scope since =
     join_with '' AND ''
       ([''project = \"'' @ pk @ ''\"'']
        @ (case sprints of Some ids \<Rightarrow> if bt = Scrum \<and> ids \<noteq> []
             then [''sprint in ('' @ join_with '','' (map show_int ids) @ '')''] else [] | None \<Rightarrow> [])
        @ (case scope of Some q \<Rightarrow> if q \<noteq> [] then [''('' @ q @ '')''] else [] | None \<Rightarrow> [])
        @ (case since of Some d \<Rightarrow> if d \<noteq> [] then [''updated >= \"'' @ d @ ''\"''] else [] | None \<Rightarrow> []))
     @ '' ORDER BY updated ASC''"

definition POLL_FIELDS :: "string list" where
  "POLL_FIELDS = [''status'', ''summary'', ''updated'', ''issuelinks'', ''priority'']"

section \<open>Workspace settings\<close>

definition get_settings :: "id \<Rightarrow> ws_settings handler" where
  "get_settings ws = bnd (gets (find_workspace ws)) (\<lambda>s. case s of
     None \<Rightarrow> throw (mk_error Other_failure ''workspace not found'') | Some x \<Rightarrow> ret (s_settings x))"

definition get_scope_jql :: "id \<Rightarrow> string option handler" where
  "get_scope_jql ws = bnd (get_settings ws) (\<lambda>st. ret (st_scope_jql st))"

definition DEFAULT_REWORK_MAX :: int where
  "DEFAULT_REWORK_MAX = 2"

definition get_rework_max :: "id \<Rightarrow> int handler" where
  "get_rework_max ws = bnd (get_settings ws)
     (\<lambda>st. ret (case st_rework_max st of None \<Rightarrow> DEFAULT_REWORK_MAX | Some n \<Rightarrow> n))"

definition get_dependency_release_status :: "id \<Rightarrow> string option handler" where
  "get_dependency_release_status ws = bnd (get_settings ws) (\<lambda>st.
     ret (case st_dependency_release_status st of None \<Rightarrow> None
          | Some s \<Rightarrow> let t = js_trim s in if t \<noteq> [] then Some t else None))"

context base_relation
begin

lemma steps_get_settings [steps_intros]: "steps R (get_settings ws)"
  unfolding get_settings_def by (intro steps_intros)

lemma steps_settings_reads [steps_intros]:
  "steps R (get_scope_jql ws)" "steps R (get_rework_max ws)" "steps R (get_dependency_release_status ws)"
  unfolding get_scope_jql_def get_rework_max_def get_dependency_release_status_def
  by (intro steps_intros)+

end

section \<open>Properties\<close>

lemma link_blocks_subset: "link_blocks wanted l \<Longrightarrow> is_blocked_by_link l"
  by (simp add: link_blocks_def split: if_splits)

lemma early_or_blocking:
  assumes "wd \<noteq> []"
  shows "link_blocks None l \<longleftrightarrow> link_blocks (Some wd) l \<or> early_link wd l"
  using assms by (auto simp: link_blocks_def early_link_def is_blocked_by_link_def split: option.splits)

lemma early_not_blocking: "wd \<noteq> [] \<Longrightarrow> early_link wd l \<Longrightarrow> \<not> link_blocks (Some wd) l"
  by (auto simp: link_blocks_def early_link_def split: option.splits)

lemma blocked_iff: "evaluate_dependency_gate rel i = Blocked \<longleftrightarrow> (\<exists>l\<in>set (links_of i). link_blocks (map_option normalize rel) l)"
  by (auto simp: evaluate_dependency_gate_def blocking_links_def Let_def filter_empty_conv)

text \<open>
  The gate in terms of the board: an issue is blocked exactly when it has an inward
  "is blocked by" link to an issue outside the done category whose status, trimmed and
  lower-cased, is not the non-blank release status of the workspace.
\<close>

theorem gate_blocked_iff:
  "evaluate_dependency_gate rel i = Blocked \<longleftrightarrow>
     (\<exists>l\<in>set (links_of i). \<exists>li. il_inward_issue l = Some li \<and> to_lower (il_inward l) = IS_BLOCKED_BY \<and>
        li_category li \<noteq> Cat_done \<and>
        (\<forall>s. rel = Some s \<longrightarrow> normalize s = [] \<or> normalize (li_status li) \<noteq> normalize s))"
  unfolding blocked_iff
  by (rule bex_cong [OF refl])
     (auto simp: link_blocks_def is_blocked_by_link_def split: option.splits)

theorem gate_blocked_iff_witness:
  "evaluate_dependency_gate (Some '' In Review '')
     \<lparr>i_key = ''P-2'', i_id = ''2'', i_summary = None, i_status = ''To Do'', i_category = Cat_new, i_updated = '''',
      i_links = Some [\<lparr>il_inward = ''Is Blocked By'', il_inward_issue =
          Some \<lparr>li_key = ''P-1'', li_status = ''In Progress'', li_category = Cat_indeterminate\<rparr>,
          il_outward_issue = None\<rparr>],
      i_priority = None, i_resolution = None\<rparr> = Blocked"
  by (subst gate_blocked_iff) (simp add: links_of_def; code_simp)

text \<open>
  Configuring a release status can only release: it never blocks an issue the plain
  done-category rule lets through, it is inert when blank, and the blockers it releases early
  are exactly those reported by \<open>earlyReleaseBlockers\<close> - under the plain rule the open
  blockers are, in link order, those still open together with those released early.
\<close>

theorem release_status_only_releases:
  "(evaluate_dependency_gate None i = Clear \<longrightarrow> evaluate_dependency_gate (Some s) i = Clear) \<and>
   (normalize s = [] \<longrightarrow> blocking_links (Some s) i = blocking_links None i \<and> early_release_blockers (Some s) i = []) \<and>
   mset (map fst (early_release_blockers (Some s) i)) + mset (blocking_keys (Some s) i) = mset (blocking_keys None i)"
proof (cases "normalize s = []")
  case True
  have same: "link_blocks (Some []) = link_blocks None"
    by (rule ext) (auto simp: link_blocks_def split: option.splits)
  with True show ?thesis
    by (simp add: evaluate_dependency_gate_def blocking_links_def blocking_keys_def early_release_blockers_def)
next
  case False
  let ?wd = "normalize s"
  have split: "mset (filter (link_blocks None) ls) = mset (filter (early_link ?wd) ls) + mset (filter (link_blocks (Some ?wd)) ls)" for ls
    using early_or_blocking [OF False] early_not_blocking [OF False] by (induction ls) auto
  have "mset (blocking_keys None i) = image_mset inward_key (mset (filter (link_blocks None) (links_of i)))"
    by (simp add: blocking_keys_def blocking_links_def)
  also have "\<dots> = mset (map fst (early_release_blockers (Some s) i)) + mset (blocking_keys (Some s) i)"
    unfolding split using False
    by (simp add: early_release_blockers_def blocking_keys_def blocking_links_def comp_def)
  finally have "mset (map fst (early_release_blockers (Some s) i)) + mset (blocking_keys (Some s) i) = mset (blocking_keys None i)"
    by simp
  moreover have "evaluate_dependency_gate None i = Clear \<longrightarrow> evaluate_dependency_gate (Some s) i = Clear"
    using early_or_blocking [OF False] by (auto simp: evaluate_dependency_gate_def blocking_links_def filter_empty_conv)
  ultimately show ?thesis using False by simp
qed

theorem release_status_only_releases_witness:
  "evaluate_dependency_gate (Some ''Done'')
     \<lparr>i_key = ''P-2'', i_id = ''2'', i_summary = None, i_status = ''To Do'', i_category = Cat_new, i_updated = '''',
      i_links = None, i_priority = None, i_resolution = None\<rparr> = Clear"
  using release_status_only_releases [of "\<lparr>i_key = ''P-2'', i_id = ''2'', i_summary = None, i_status = ''To Do'',
      i_category = Cat_new, i_updated = '''', i_links = None, i_priority = None, i_resolution = None\<rparr>" "''Done''"]
  by (simp add: evaluate_dependency_gate_def blocking_links_def links_of_def)

end
