(* ===== verification/CycleOrder.thy ===== *)
theory CycleOrder
  imports Prelude "HOL-Library.Char_ord" "HOL-Library.Multiset"
begin

text \<open>
  Cycle detection among waiting tickets and the canonical release order
  (\<open>findCycleTickets\<close> and \<open>compareReleaseOrder\<close> of
  \<open>libs/pipeline/src/dependency-release.service.ts\<close>). The depth-first search is the
  iterative one of the code, with its explicit path of frames, its colours, and its stack of
  grey nodes; it is proved to terminate, to mark only tickets on a cycle, and to mark something
  whenever a cycle exists. A concrete graph shows that it does not mark every ticket on a cycle.
\<close>

section \<open>The search\<close>

text \<open>A \<open>Map<string, string[]>\<close> in insertion order.\<close>

type_synonym edges = "(string \<times> string list) list"

datatype color = Gray | Black

definition succs :: "edges \<Rightarrow> string \<Rightarrow> string list" where
  "succs E n = filter (\<lambda>m. m \<in> fst ` set E) (case map_of E n of None \<Rightarrow> [] | Some ns \<Rightarrow> ns)"

text \<open>\<open>Set.add\<close>, keeping insertion order.\<close>

definition add_to :: "string \<Rightarrow> string list \<Rightarrow> string list" where
  "add_to x xs = (if x \<in> set xs then xs else xs @ [x])"

definition index_of :: "string \<Rightarrow> string list \<Rightarrow> nat" where
  "index_of x xs = length (takeWhile (\<lambda>y. y \<noteq> x) xs)"

definition search_weight :: "edges \<Rightarrow> (string \<times> string list) list \<Rightarrow> (string \<Rightarrow> color option) \<Rightarrow> nat" where
  "search_weight E path col = (\<Sum>f\<leftarrow>path. Suc (2 * length (snd f))) +
     (\<Sum>k\<in>{k\<in>fst ` set E. col k = None}. Suc (2 * length (succs E k)))"

text \<open>The \<open>while\<close> loop of \<open>visit\<close>; the head of \<open>path\<close> is the top frame.\<close>

function visit_loop :: "edges \<Rightarrow> (string \<times> string list) list \<Rightarrow> (string \<Rightarrow> color option) \<Rightarrow> string list \<Rightarrow>
    string list \<Rightarrow> (string \<Rightarrow> color option) \<times> string list \<times> string list" where
  "visit_loop E [] col stack cyc = (col, stack, cyc)"
| "visit_loop E ((node, nexts) # rest) col stack cyc =
     (if nexts = [] then visit_loop E rest (col(node \<mapsto> Black)) (butlast stack) cyc
      else let next = last nexts; frame = (node, butlast nexts) in
        if col next = Some Gray
        then visit_loop E (frame # rest) col stack (fold add_to (drop (index_of next stack) stack) cyc)
        else if col next = Some Black then visit_loop E (frame # rest) col stack cyc
        else visit_loop E ((next, succs E next) # frame # rest) (col(next \<mapsto> Gray)) (stack @ [next]) cyc)"
  by pat_completeness auto

lemma weight_blacken: "search_weight E rest (col(n \<mapsto> c)) < search_weight E ((n, []) # rest) col"
proof -
  have "(\<Sum>k\<in>{k\<in>fst ` set E. (col(n \<mapsto> c)) k = None}. Suc (2 * length (succs E k))) \<le>
      (\<Sum>k\<in>{k\<in>fst ` set E. col k = None}. Suc (2 * length (succs E k)))"
    by (rule sum_mono2) auto
  then show ?thesis by (simp add: search_weight_def)
qed

lemma weight_push:
  assumes "nexts \<noteq> []" and "col m = None"
  shows "search_weight E ((m, succs E m) # (n, butlast nexts) # rest) (col(m \<mapsto> c)) <
    search_weight E ((n, nexts) # rest) col"
proof (cases "m \<in> fst ` set E")
  case True
  let ?w = "\<lambda>k. Suc (2 * length (succs E k))"
  have "{k\<in>fst ` set E. (col(m \<mapsto> c)) k = None} = {k\<in>fst ` set E. col k = None} - {m}" by auto
  moreover have "(\<Sum>k\<in>{k\<in>fst ` set E. col k = None}. ?w k) = ?w m + (\<Sum>k\<in>{k\<in>fst ` set E. col k = None} - {m}. ?w k)"
    using True assms(2) by (subst sum.remove [of _ m]) auto
  moreover have "length nexts = Suc (length (butlast nexts))" using assms(1) by (cases nexts) auto
  ultimately show ?thesis by (simp add: search_weight_def)
next
  case False
  then have "succs E m = []" by (simp add: succs_def map_of_eq_None_iff [symmetric])
  moreover from False have "{k\<in>fst ` set E. (col(m \<mapsto> c)) k = None} = {k\<in>fst ` set E. col k = None}" by auto
  moreover have "length nexts = Suc (length (butlast nexts))" using assms(1) by (cases nexts) auto
  ultimately show ?thesis by (simp add: search_weight_def)
qed

lemma weight_pop:
  "nexts \<noteq> [] \<Longrightarrow> search_weight E ((n, butlast nexts) # rest) col < search_weight E ((n, nexts) # rest) col"
  by (cases nexts) (auto simp: search_weight_def)

lemma color_cases: "c \<noteq> Some Gray \<Longrightarrow> c \<noteq> Some Black \<Longrightarrow> c = None"
  by (cases c) (auto intro: color.exhaust)

termination visit_loop
  by (relation "measure (\<lambda>(E, path, col, stack, cyc). search_weight E path col)")
     (auto simp: weight_blacken weight_pop weight_push color_cases simp del: fun_upd_apply)

declare visit_loop.simps(2) [simp del]

lemma visit_loop_steps:
  "visit_loop E ((n, []) # rest) col stack cyc = visit_loop E rest (col(n \<mapsto> Black)) (butlast stack) cyc"
  "ns \<noteq> [] \<Longrightarrow> col (last ns) = Some Gray \<Longrightarrow> visit_loop E ((n, ns) # rest) col stack cyc =
    visit_loop E ((n, butlast ns) # rest) col stack (fold add_to (drop (index_of (last ns) stack) stack) cyc)"
  "ns \<noteq> [] \<Longrightarrow> col (last ns) = Some Black \<Longrightarrow> visit_loop E ((n, ns) # rest) col stack cyc =
    visit_loop E ((n, butlast ns) # rest) col stack cyc"
  "ns \<noteq> [] \<Longrightarrow> col (last ns) = None \<Longrightarrow> visit_loop E ((n, ns) # rest) col stack cyc =
    visit_loop E ((last ns, succs E (last ns)) # (n, butlast ns) # rest) (col(last ns \<mapsto> Gray)) (stack @ [last ns]) cyc"
  by (simp_all add: visit_loop.simps(2) [of E n] Let_def del: fun_upd_apply)

text \<open>The loop over the keys; \<open>color.has\<close> is definedness.\<close>

definition visit :: "edges \<Rightarrow> string \<Rightarrow> (string \<Rightarrow> color option) \<times> string list \<times> string list \<Rightarrow>
    (string \<Rightarrow> color option) \<times> string list \<times> string list" where
  "visit E n s = (case s of (col, stack, cyc) \<Rightarrow>
     if col n = None then visit_loop E [(n, succs E n)] (col(n \<mapsto> Gray)) (stack @ [n]) cyc else (col, stack, cyc))"

definition find_cycle_tickets :: "edges \<Rightarrow> string list" where
  "find_cycle_tickets E = snd (snd (fold (visit E) (map fst E) (\<lambda>_. None, [], [])))"

section \<open>Every marked ticket is on a cycle; some ticket is marked if there is one\<close>

definition edge :: "edges \<Rightarrow> string \<Rightarrow> string \<Rightarrow> bool" where
  "edge E u v \<longleftrightarrow> v \<in> set (succs E u)"

definition on_cycle :: "edges \<Rightarrow> string \<Rightarrow> bool" where
  "on_cycle E n \<longleftrightarrow> (edge E)\<^sup>+\<^sup>+ n n"

definition black_edges :: "edges \<Rightarrow> (string \<Rightarrow> color option) \<Rightarrow> (string \<times> string) set" where
  "black_edges E col = {(u, v). col u = Some Black \<and> edge E u v}"

fun frames_done :: "edges \<Rightarrow> (string \<Rightarrow> color option) \<Rightarrow> string option \<Rightarrow> (string \<times> string list) list \<Rightarrow> bool" where
  "frames_done E col nxt [] \<longleftrightarrow> True"
| "frames_done E col nxt ((n, ns) # rest) \<longleftrightarrow>
     (\<forall>v. edge E n v \<longrightarrow> v \<in> set ns \<or> col v = Some Black \<or> nxt = Some v) \<and> frames_done E col (Some n) rest"

definition path_ok :: "edges \<Rightarrow> (string \<times> string list) list \<Rightarrow> (string \<Rightarrow> color option) \<Rightarrow> string list \<Rightarrow> bool" where
  "path_ok E path col stack \<longleftrightarrow> stack = rev (map fst path) \<and> distinct (map fst path) \<and>
     (\<forall>n. col n = Some Gray \<longleftrightarrow> n \<in> fst ` set path) \<and> successively (\<lambda>v u. edge E u v) (map fst path) \<and>
     (\<forall>f\<in>set path. set (snd f) \<subseteq> set (succs E (fst f)))"

definition black_ok :: "edges \<Rightarrow> (string \<times> string list) list \<Rightarrow> (string \<Rightarrow> color option) \<Rightarrow> bool" where
  "black_ok E path col \<longleftrightarrow> (\<forall>u v. col u = Some Black \<longrightarrow> edge E u v \<longrightarrow> col v = Some Black) \<and>
     acyclic (black_edges E col) \<and> frames_done E col None path"

definition search_inv :: "edges \<Rightarrow> (string \<times> string list) list \<Rightarrow> (string \<Rightarrow> color option) \<Rightarrow> string list \<Rightarrow>
    string list \<Rightarrow> bool" where
  "search_inv E path col stack cyc \<longleftrightarrow> path_ok E path col stack \<and> (\<forall>n\<in>set cyc. on_cycle E n) \<and>
     (cyc = [] \<longrightarrow> black_ok E path col)"

lemma set_fold_add_to: "set (fold add_to xs ys) = set xs \<union> set ys"
  by (induction xs arbitrary: ys) (auto simp: add_to_def)

lemma drop_index_of: "x \<in> set xs \<Longrightarrow> \<exists>ys. drop (index_of x xs) xs = x # ys"
  by (induction xs) (auto simp: index_of_def)

lemma frames_done_mono:
  "frames_done E col nxt path \<Longrightarrow> (\<And>v. col v = Some Black \<Longrightarrow> col' v = Some Black) \<Longrightarrow>
    (\<And>v. nxt = Some v \<Longrightarrow> col' v = Some Black \<or> nxt' = Some v) \<Longrightarrow> frames_done E col' nxt' path"
  by (induction path arbitrary: nxt nxt') (auto, blast+)

lemma chain_reach:
  "successively (\<lambda>u v. edge E u v) (x # xs) \<Longrightarrow> y \<in> set xs \<Longrightarrow> (edge E)\<^sup>+\<^sup>+ x y"
proof (induction xs arbitrary: x)
  case (Cons z zs)
  then show ?case by (cases "y = z") (auto simp: successively_Cons intro: tranclp_into_tranclp2)
qed simp

text \<open>A chain closed by a back edge from its end to its beginning is a cycle through all its members.\<close>

lemma chain_cycle:
  assumes "successively (\<lambda>u v. edge E u v) (x # xs)" and "edge E (last (x # xs)) x" and "y \<in> set (x # xs)"
  shows "on_cycle E y"
proof -
  let ?l = "last (x # xs)"
  have xy: "(edge E)\<^sup>*\<^sup>* x y" using chain_reach [OF assms(1)] assms(3)
    by (cases "y = x") (auto intro: tranclp_into_rtranclp)
  have yl: "(edge E)\<^sup>*\<^sup>* y ?l"
  proof -
    obtain as bs where split: "x # xs = as @ y # bs" using assms(3) split_list by fast
    then have "successively (\<lambda>u v. edge E u v) (y # bs)"
      using assms(1) by (simp only: split successively_append_iff)
    moreover have "?l = last (y # bs)" by (simp only: split) simp
    ultimately show ?thesis using chain_reach [of E y bs "last bs"] by (cases "bs = []") (auto intro: tranclp_into_rtranclp)
  qed
  have "(edge E)\<^sup>+\<^sup>+ y x" using yl assms(2) by (simp add: rtranclp_into_tranclp1)
  then show ?thesis using xy unfolding on_cycle_def by (rule tranclp_rtranclp_tranclp)
qed

lemma inv_back_edge:
  assumes "search_inv E ((n, ns) # rest) col stack cyc" and "ns \<noteq> []" and "col (last ns) = Some Gray"
  shows "search_inv E ((n, butlast ns) # rest) col stack
    (fold add_to (drop (index_of (last ns) stack) stack) cyc)"
proof -
  let ?m = "last ns"
  from assms(1) have path: "path_ok E ((n, ns) # rest) col stack" and cyc: "\<forall>n\<in>set cyc. on_cycle E n"
    by (auto simp: search_inv_def)
  have stack: "stack = rev (map fst rest) @ [n]" using path by (simp add: path_ok_def)
  have "?m \<in> set stack" using path assms(3) by (auto simp: path_ok_def stack)
  then obtain ys where ys: "drop (index_of ?m stack) stack = ?m # ys" using drop_index_of by blast
  have "successively (\<lambda>u v. edge E u v) stack"
    using path successively_rev [of "\<lambda>u v. edge E u v" "map fst ((n, ns) # rest)"]
    by (simp add: path_ok_def del: successively.simps)
  then have "successively (\<lambda>u v. edge E u v) (?m # ys)"
    by (metis append_take_drop_id successively_append_iff ys)
  moreover have "last (?m # ys) = n"
    using ys stack by (metis last_appendR last_drop last_snoc drop_eq_Nil list.distinct(1) not_le)
  moreover have "edge E n ?m"
    using path assms(2) by (auto simp: path_ok_def edge_def)
  ultimately have "\<forall>y\<in>set (?m # ys). on_cycle E y" using chain_cycle [of E ?m ys] by metis
  moreover have "path_ok E ((n, butlast ns) # rest) col stack"
    using path by (auto simp: path_ok_def dest: in_set_butlastD)
  moreover have "fold add_to (?m # ys) cyc \<noteq> []" by (metis set_fold_add_to Un_empty list.set(1) set_empty list.distinct(1))
  ultimately show ?thesis using cyc by (auto simp: search_inv_def ys set_fold_add_to simp del: fold.simps)
qed

lemma inv_black:
  assumes "search_inv E ((n, ns) # rest) col stack cyc" and "ns \<noteq> []" and "col (last ns) = Some Black"
  shows "search_inv E ((n, butlast ns) # rest) col stack cyc"
proof -
  have "v \<in> set ns \<Longrightarrow> v \<in> set (butlast ns) \<or> col v = Some Black" for v
    using assms(2,3) by (metis append_butlast_last_id in_set_conv_decomp_last rotate1.simps(2) set_ConsD set_rotate1)
  then have "black_ok E ((n, ns) # rest) col \<Longrightarrow> black_ok E ((n, butlast ns) # rest) col"
    by (auto simp: black_ok_def)
  then show ?thesis
    using assms(1) by (auto simp: search_inv_def path_ok_def dest: in_set_butlastD)
qed

lemma inv_push:
  assumes "search_inv E ((n, ns) # rest) col stack cyc" and "ns \<noteq> []" and "col (last ns) = None"
  shows "search_inv E ((last ns, succs E (last ns)) # (n, butlast ns) # rest) (col(last ns \<mapsto> Gray))
    (stack @ [last ns]) cyc"
proof -
  let ?m = "last ns" and ?col = "col(last ns \<mapsto> Gray)"
  from assms(1) have path: "path_ok E ((n, ns) # rest) col stack" by (simp add: search_inv_def)
  have split: "v \<in> set ns \<Longrightarrow> v \<in> set (butlast ns) \<or> v = ?m" for v
    using assms(2) by (metis append_butlast_last_id in_set_conv_decomp_last rotate1.simps(2) set_ConsD set_rotate1)
  have new: "?m \<notin> fst ` set ((n, ns) # rest)"
    using path assms(3) unfolding path_ok_def by (metis option.distinct(1))
  have "edge E n ?m" using path assms(2) by (auto simp: path_ok_def edge_def)
  then have "path_ok E ((?m, succs E ?m) # (n, butlast ns) # rest) ?col (stack @ [?m])"
    using path new by (auto simp: path_ok_def dest: in_set_butlastD)
  moreover have "black_ok E ((?m, succs E ?m) # (n, butlast ns) # rest) ?col" if b: "black_ok E ((n, ns) # rest) col"
  proof -
    have same: "?col v = Some Black \<longleftrightarrow> col v = Some Black" for v using assms(3) by auto
    have "frames_done E ?col (Some ?m) ((n, butlast ns) # rest)"
      using b split by (auto simp: black_ok_def same simp del: fun_upd_apply elim!: frames_done_mono)
    then show ?thesis using b by (auto simp: black_ok_def black_edges_def same edge_def simp del: fun_upd_apply)
  qed
  ultimately show ?thesis using assms(1) by (simp add: search_inv_def)
qed

lemma inv_pop:
  assumes "search_inv E ((n, []) # rest) col stack cyc"
  shows "search_inv E rest (col(n \<mapsto> Black)) (butlast stack) cyc"
proof -
  let ?col = "col(n \<mapsto> Black)"
  from assms have path: "path_ok E ((n, []) # rest) col stack" by (simp add: search_inv_def)
  then have "path_ok E rest ?col (butlast stack)"
    by (auto simp: path_ok_def successively_Cons butlast_append)
  moreover have "black_ok E rest ?col" if b: "black_ok E ((n, []) # rest) col"
  proof -
    have "col n = Some Gray" using path by (auto simp: path_ok_def)
    then have gray: "col n \<noteq> Some Black" by simp
    have closed: "edge E n v \<Longrightarrow> col v = Some Black" for v using b by (auto simp: black_ok_def)
    have "black_edges E ?col = black_edges E col \<union> {n} \<times> {v. edge E n v}"
      using gray by (auto simp: black_edges_def split: if_splits)
    moreover have "acyclic (black_edges E col \<union> {n} \<times> {v. edge E n v})"
    proof (rule acyclicI, rule allI, rule notI)
      fix x
      let ?E = "black_edges E col \<union> {n} \<times> {v. edge E n v}"
      have stay: "(u, v) \<in> ?E\<^sup>+ \<Longrightarrow> col v = Some Black" for u v
        by (induction rule: trancl_induct) (use b closed in \<open>auto simp: black_edges_def black_ok_def\<close>)
      have inside: "(u, v) \<in> ?E\<^sup>+ \<Longrightarrow> col u = Some Black \<Longrightarrow> (u, v) \<in> (black_edges E col)\<^sup>+" for u v
      proof (induction rule: trancl_induct)
        case (base y)
        then show ?case using gray by auto
      next
        case (step y z)
        then have "col y = Some Black" using stay by blast
        then have "(y, z) \<in> black_edges E col" using step.hyps(2) gray by auto
        then show ?case using step by (meson trancl.trancl_into_trancl)
      qed
      assume "(x, x) \<in> ?E\<^sup>+"
      then show False using stay inside b by (metis acyclic_def black_ok_def)
    qed
    moreover have "frames_done E ?col None rest"
      using b by (auto simp: black_ok_def elim!: frames_done_mono)
    ultimately show ?thesis using b closed by (auto simp: black_ok_def)
  qed
  ultimately show ?thesis using assms by (simp add: search_inv_def)
qed

lemma visit_loop_inv:
  "search_inv E path col stack cyc \<Longrightarrow> visit_loop E path col stack cyc = (col', stack', cyc') \<Longrightarrow>
    search_inv E [] col' stack' cyc' \<and> dom col \<subseteq> dom col'"
proof (induction E path col stack cyc rule: visit_loop.induct)
  case (1 E col stack cyc)
  then show ?case by simp
next
  case (2 E node nexts rest col stack cyc)
  show ?case
  proof (cases "nexts = []")
    case True
    have "search_inv E [] col' stack' cyc' \<and> dom (col(node \<mapsto> Black)) \<subseteq> dom col'"
      by (rule 2(1) [OF True inv_pop]) (use 2(5,6) True in \<open>simp_all add: visit_loop_steps del: fun_upd_apply\<close>)
    then show ?thesis by auto
  next
    case nonempty: False
    consider "col (last nexts) = Some Gray" | "col (last nexts) = Some Black" | "col (last nexts) = None"
      using color_cases [of "col (last nexts)"] by argo
    then show ?thesis
    proof cases
      case 1
      note eq = 2(6) [unfolded visit_loop_steps(2) [of nexts col, OF nonempty 1]]
      show ?thesis
        using 2(2) [OF nonempty refl refl 1 inv_back_edge [OF 2(5) nonempty 1] eq] .
    next
      case black: 2
      note eq = 2(6) [unfolded visit_loop_steps(3) [of nexts col, OF nonempty black]]
      show ?thesis
        using 2(3) [OF nonempty refl refl _ black inv_black [OF 2(5) nonempty black] eq] black by simp
    next
      case 3
      note eq = 2(6) [unfolded visit_loop_steps(4) [of nexts col, OF nonempty 3]]
      have "search_inv E [] col' stack' cyc' \<and> dom (col(last nexts \<mapsto> Gray)) \<subseteq> dom col'"
        using 2(4) [OF nonempty refl refl _ _ inv_push [OF 2(5) nonempty 3] eq] 3
        by (simp only: option.distinct if_False simp_thms not_False_eq_True)
      then show ?thesis by auto
    qed
  qed
qed

lemma visit_inv:
  assumes "search_inv E [] col stack cyc" and "visit E n (col, stack, cyc) = (col', stack', cyc')"
  shows "search_inv E [] col' stack' cyc' \<and> dom col \<union> {n} \<subseteq> dom col'"
proof (cases "col n = None")
  case True
  have "black_edges E (col(n \<mapsto> Gray)) = black_edges E col"
    using True by (auto simp: black_edges_def split: if_splits)
  then have "search_inv E [(n, succs E n)] (col(n \<mapsto> Gray)) [n] cyc"
    using assms(1) True by (auto simp: search_inv_def path_ok_def black_ok_def edge_def)
  moreover have "stack = []" using assms(1) by (simp add: search_inv_def path_ok_def)
  ultimately show ?thesis
    using visit_loop_inv assms(2) True by (fastforce simp: visit_def)
next
  case False
  then show ?thesis using assms by (auto simp: visit_def)
qed

lemma visits_inv:
  "search_inv E [] col stack cyc \<Longrightarrow> fold (visit E) ns (col, stack, cyc) = (col', stack', cyc') \<Longrightarrow>
    search_inv E [] col' stack' cyc' \<and> dom col \<union> set ns \<subseteq> dom col'"
proof (induction ns arbitrary: col stack cyc)
  case (Cons n ns)
  obtain c1 s1 y1 where v: "visit E n (col, stack, cyc) = (c1, s1, y1)" by (cases "visit E n (col, stack, cyc)") auto
  from visit_inv [OF Cons.prems(1) v] Cons.IH [of c1 s1 y1] Cons.prems(2) v show ?case by auto
qed simp

lemma search_result:
  obtains col where "search_inv E [] col [] (find_cycle_tickets E)" and "fst ` set E \<subseteq> dom col"
proof -
  obtain col stack cyc where r: "fold (visit E) (map fst E) (\<lambda>_. None, [], []) = (col, stack, cyc)"
    by (cases "fold (visit E) (map fst E) (\<lambda>_. None, [], [])") auto
  have "search_inv E [] (\<lambda>_. None) [] []"
    by (auto simp: search_inv_def path_ok_def black_ok_def black_edges_def acyclic_def)
  from visits_inv [OF this r] have "search_inv E [] col stack cyc" "fst ` set E \<subseteq> dom col" by auto
  moreover from this have "stack = []" by (simp add: search_inv_def path_ok_def)
  ultimately show thesis using that r by (simp add: find_cycle_tickets_def)
qed

text \<open>
  Cycle detection is sound: every ticket reported as part of a cycle waits, through
  blockers that are themselves waiting tickets, on itself - so no ticket is held for a cycle
  it is not in.
\<close>

theorem find_cycle_tickets_sound: "\<forall>n\<in>set (find_cycle_tickets E). on_cycle E n"
  by (rule search_result [of E]) (simp add: search_inv_def)

theorem find_cycle_tickets_sound_witness:
  "find_cycle_tickets [(''A'', [''B'', ''X'']), (''B'', [''A'']), (''C'', [''A''])] = [''A'', ''B''] \<and>
   on_cycle [(''A'', [''B'', ''X'']), (''B'', [''A'']), (''C'', [''A''])] ''B''"
proof -
  have "find_cycle_tickets [(''A'', [''B'', ''X'']), (''B'', [''A'']), (''C'', [''A''])] = [''A'', ''B'']"
    by code_simp
  then show ?thesis
    using find_cycle_tickets_sound [of "[(''A'', [''B'', ''X'']), (''B'', [''A'']), (''C'', [''A''])]"] by simp
qed

text \<open>
  A cycle never goes unnoticed: the search reports at least one ticket exactly when the
  waiting tickets contain a cycle (self-links included).
\<close>

theorem find_cycle_tickets_detects: "find_cycle_tickets E \<noteq> [] \<longleftrightarrow> (\<exists>n. on_cycle E n)"
proof (rule search_result [of E])
  fix col
  assume inv: "search_inv E [] col [] (find_cycle_tickets E)" and keys: "fst ` set E \<subseteq> dom col"
  show ?thesis
  proof
    assume "find_cycle_tickets E \<noteq> []"
    then show "\<exists>n. on_cycle E n" using inv by (metis last_in_set search_inv_def)
  next
    assume "\<exists>n. on_cycle E n"
    then obtain n where n: "(edge E)\<^sup>+\<^sup>+ n n" by (auto simp: on_cycle_def)
    show "find_cycle_tickets E \<noteq> []"
    proof
      assume "find_cycle_tickets E = []"
      then have acyclic: "acyclic (black_edges E col)" using inv by (simp add: search_inv_def black_ok_def)
      have "edge E u v \<Longrightarrow> col u = Some Black" for u v
      proof -
        assume "edge E u v"
        then have "u \<in> fst ` set E" 
          by (auto simp: edge_def succs_def split: option.splits) (metis fst_conv image_eqI map_of_SomeD)
        moreover have "col u \<noteq> Some Gray" using inv by (simp add: search_inv_def path_ok_def)
        ultimately show "col u = Some Black" using keys color_cases by (metis domIff subsetD)
      qed
      then have "black_edges E col = {(u, v). edge E u v}" by (auto simp: black_edges_def)
      then show False using acyclic n by (simp add: acyclic_def trancl_def)
    qed
  qed
qed

text \<open>
  Detection is per graph, not per ticket: a ticket can be on a cycle and still not be
  reported, when the search reaches it after closing another cycle. In the graph below C
  waits on B, B on A and A on C, yet only A and B are reported.
\<close>

theorem find_cycle_tickets_incomplete:
  "\<exists>E n. distinct (map fst E) \<and> on_cycle E n \<and> n \<notin> set (find_cycle_tickets E)"
proof (intro exI conjI)
  let ?E = "[(''A'', [''C'', ''B'']), (''B'', [''A'']), (''C'', [''B''])]"
  show "distinct (map fst ?E)" by simp
  have "edge ?E ''C'' ''B''" "edge ?E ''B'' ''A''" "edge ?E ''A'' ''C''" by (simp_all add: edge_def succs_def)
  then show "on_cycle ?E ''C''" unfolding on_cycle_def
    by (blast intro: tranclp.r_into_trancl tranclp.trancl_into_trancl)
  show "''C'' \<notin> set (find_cycle_tickets ?E)" by code_simp
qed

section \<open>Release order\<close>

text \<open>The sign of the comparator's number is what \<open>sort\<close> reads.\<close>

fun compare_release_order :: "int option \<times> string \<Rightarrow> int option \<times> string \<Rightarrow> int" where
  "compare_release_order (pa, ka) (pb, kb) =
     (if pa \<noteq> pb then
        (case pa of None \<Rightarrow> 1 | Some x \<Rightarrow> (case pb of None \<Rightarrow> -1 | Some y \<Rightarrow> x - y))
      else if ord_class.lexordp ka kb then -1 else if ord_class.lexordp kb ka then 1 else 0)"

text \<open>\<open>Array.sort\<close> is stable; a stable insertion sort by the comparator.\<close>

fun insert_by :: "('a \<Rightarrow> 'a \<Rightarrow> int) \<Rightarrow> 'a \<Rightarrow> 'a list \<Rightarrow> 'a list" where
  "insert_by cmp x [] = [x]"
| "insert_by cmp x (y # ys) = (if cmp x y \<le> 0 then x # y # ys else y # insert_by cmp x ys)"

definition js_sort :: "('a \<Rightarrow> 'a \<Rightarrow> int) \<Rightarrow> 'a list \<Rightarrow> 'a list" where
  "js_sort cmp xs = foldr (insert_by cmp) xs []"

lemma mset_insert_by: "mset (insert_by cmp x ys) = add_mset x (mset ys)"
  by (induction ys) auto

lemma sorted_insert_by:
  assumes total: "\<And>a b. cmp a b \<le> 0 \<or> cmp b a \<le> 0"
    and trans: "\<And>a b c. cmp a b \<le> 0 \<Longrightarrow> cmp b c \<le> 0 \<Longrightarrow> cmp a c \<le> (0::int)"
  shows "sorted_wrt (\<lambda>a b. cmp a b \<le> 0) ys \<Longrightarrow> sorted_wrt (\<lambda>a b. cmp a b \<le> 0) (insert_by cmp x ys)"
proof (induction ys)
  case (Cons y ys)
  show ?case
  proof (cases "cmp x y \<le> 0")
    case True
    then show ?thesis using Cons.prems trans by auto
  next
    case False
    then have "cmp y x \<le> 0" using total by blast
    moreover have "set (insert_by cmp x ys) = insert x (set ys)" by (metis mset_insert_by set_mset_add_mset_insert set_mset_mset)
    ultimately show ?thesis using Cons False by auto
  qed
qed simp

lemma js_sort_perm: "mset (js_sort cmp xs) = mset xs"
  by (induction xs) (auto simp: js_sort_def mset_insert_by)

lemma set_js_sort [simp]: "set (js_sort cmp xs) = set xs"
  by (metis js_sort_perm set_mset_mset)

lemma js_sort_sorted:
  assumes "\<And>a b. cmp a b \<le> 0 \<or> cmp b a \<le> 0" and "\<And>a b c. cmp a b \<le> 0 \<Longrightarrow> cmp b c \<le> 0 \<Longrightarrow> cmp a c \<le> (0::int)"
  shows "sorted_wrt (\<lambda>a b. cmp a b \<le> 0) (js_sort cmp xs)"
  unfolding js_sort_def using sorted_insert_by [of cmp, OF assms] by (induction xs) auto

text \<open>The order the comparator means: important first, tickets without a priority last, then by key.\<close>

definition release_before :: "int option \<times> string \<Rightarrow> int option \<times> string \<Rightarrow> bool" where
  "release_before a b \<longleftrightarrow> (case (fst a, fst b) of
       (Some x, Some y) \<Rightarrow> x < y \<or> x = y \<and> ord_class.lexordp_eq (snd a) (snd b)
     | (Some x, None) \<Rightarrow> True | (None, Some y) \<Rightarrow> False
     | (None, None) \<Rightarrow> ord_class.lexordp_eq (snd a) (snd b))"

lemma compare_release_before: "compare_release_order a b \<le> 0 \<longleftrightarrow> release_before a b"
proof -
  have key: "\<not> ord_class.lexordp (snd b) (snd a) \<longleftrightarrow> ord_class.lexordp_eq (snd a) (snd b)"
    by (metis lexordp_conv_lexordp_eq lexordp_eq_linear)
  have asym: "ord_class.lexordp (snd a) (snd b) \<Longrightarrow> ord_class.lexordp_eq (snd a) (snd b)"
    by (rule lexordp_into_lexordp_eq)
  show ?thesis
    by (cases a; cases b) (use key asym in \<open>auto simp: release_before_def split: option.splits\<close>)
qed

text \<open>
  The release order is deterministic and complete: sorting the candidates by the
  comparator keeps every candidate, and each comes before the next one in priority - smaller
  Jira priority id first, tickets without a priority last, ties by ticket key.
\<close>

theorem release_order_sorted:
  "mset (js_sort (\<lambda>a b. compare_release_order (f a) (f b)) xs) = mset xs \<and>
   sorted_wrt (\<lambda>a b. release_before (f a) (f b)) (js_sort (\<lambda>a b. compare_release_order (f a) (f b)) xs)"
proof -
  have eq_total: "ord_class.lexordp_eq s t \<or> ord_class.lexordp_eq t s" for s t :: string
    by (rule lexordp_eq_linear)
  have eq_trans: "ord_class.lexordp_eq s t \<Longrightarrow> ord_class.lexordp_eq t u \<Longrightarrow> ord_class.lexordp_eq s u" for s t u :: string
    by (rule lexordp_eq_trans)
  have "release_before a b \<or> release_before b a" for a b
    using eq_total by (auto simp: release_before_def split: option.splits)
  moreover have "release_before a b \<Longrightarrow> release_before b c \<Longrightarrow> release_before a c" for a b c
    using eq_trans by (auto simp: release_before_def split: option.splits)
  ultimately have "sorted_wrt (\<lambda>a b. compare_release_order (f a) (f b) \<le> 0)
      (js_sort (\<lambda>a b. compare_release_order (f a) (f b)) xs)"
    by (intro js_sort_sorted) (simp_all only: compare_release_before)
  then show ?thesis by (simp add: js_sort_perm compare_release_before)
qed

end
