(* ===== verification/HumanTasks.thy ===== *)
theory HumanTasks
  imports TriggerEvents
begin

text \<open>
  The queue of tasks that need a person (\<open>libs/human-tasks/src/human-task.service.ts\<close> and
  \<open>libs/database/src/human-task-queries.ts\<close>): creation with its deduplication rules, the
  guarded park of the run behind a blocking task, and the Jira side effects.
\<close>

section \<open>Requests\<close>

record task_request =
  tq_kind :: task_kind
  tq_title :: string
  tq_details :: "string option"
  tq_blocking :: bool
  tq_options :: "answer_option list option"

record task_result =
  tr_created :: bool
  tr_blocking :: bool
  tr_may_finish :: bool

definition new_task :: "id \<Rightarrow> id option \<Rightarrow> id option \<Rightarrow> task_kind \<Rightarrow> string \<Rightarrow> string option \<Rightarrow>
    answer_option list option \<Rightarrow> bool \<Rightarrow> human_task" where
  "new_task ws run tk kind title details opts blocking =
     \<lparr>h_id = 0, h_workspace = ws, h_run = run, h_ticket = tk, h_kind = kind, h_title = title,
      h_details = details, h_options = opts, h_blocking = blocking, h_status = Open,
      h_resolution = None, h_created = 0, h_resolved_at = None, h_resolved_by = None\<rparr>"

section \<open>Tasks of a ticket without a run\<close>

definition open_ticket_task :: "id \<Rightarrow> human_task \<Rightarrow> bool" where
  "open_ticket_task tk h \<longleftrightarrow> h_ticket h = Some tk \<and> h_run h = None \<and> h_status h = Open"

definition create_ticket_blocked :: "id \<Rightarrow> id \<Rightarrow> string \<Rightarrow> string option \<Rightarrow> bool handler" where
  "create_ticket_blocked ws tk title details =
     bnd (gets (\<lambda>w. find (open_ticket_task tk) (w_tasks w))) (\<lambda>existing.
     if existing \<noteq> None then ret False
     else andthen (insert_task (new_task ws None (Some tk) Blocker title details None False)) (ret True))"

definition create_keyed_ticket_task :: "id \<Rightarrow> id \<Rightarrow> string \<Rightarrow> string option \<Rightarrow> bool handler" where
  "create_keyed_ticket_task ws tk title details =
     bnd (gets (\<lambda>w. find (\<lambda>h. open_ticket_task tk h \<and> h_title h = title) (w_tasks w))) (\<lambda>existing.
     if existing \<noteq> None then ret False
     else andthen (insert_task (new_task ws None (Some tk) Blocker title details None False)) (ret True))"

section \<open>Tasks of a run\<close>

text \<open>\<open>parkRun\<close>: the same guarded update as \<open>RunsService.parkIfStillRunning\<close>.\<close>

definition park_run :: "id \<Rightarrow> bool handler" where
  "park_run i = update_run i (\<lambda>r. r_status r = Running) (\<lambda>now r. r\<lparr>r_status := Awaiting_human\<rparr>)"

definition transition_and_comment :: "env \<Rightarrow> id \<Rightarrow> id \<Rightarrow> id option \<Rightarrow> task_request \<Rightarrow> unit handler" where
  "transition_and_comment E ws ag tk q =
     (case tk of None \<Rightarrow> ret ()
      | Some t \<Rightarrow>
        bnd (gets (find_agent ag)) (\<lambda>agent.
        bnd (gets (find_ticket t)) (\<lambda>ticket.
        case agent of None \<Rightarrow> ret () | Some a \<Rightarrow>
        (case ticket of None \<Rightarrow> ret () | Some tt \<Rightarrow>
          catch (andthen (jira_connect E ws)
                (andthen (jira_transition_to E ws (t_jira_key tt) (a_status_failure a))
                   (jira_add_comment E ws (t_jira_key tt)
                      (Task_comment (tq_kind q) (tq_title q) (tq_details q) (tq_options q) (tq_blocking q)))))
            (\<lambda>e. ret ())))))"

definition dedup_event :: "id \<Rightarrow> json" where
  "dedup_event task = JObj [(''source'', JStr ''callback''),
     (''message'', JStr (''request_human deduplicated against open task '' @ show_nat task @ '' - no new task created'')), (''deduplicated'', JBool True), (''task_id'', jid task)]"

definition create_from_request :: "env \<Rightarrow> id \<Rightarrow> task_request \<Rightarrow> task_result handler" where
  "create_from_request E i q =
     bnd (gets (find_run i)) (\<lambda>run.
     case run of None \<Rightarrow> throw (mk_error Other_failure ''run not found'')
     | Some r \<Rightarrow>
       bnd (gets (\<lambda>w. find (open_task_of_run i (tq_blocking q)) (w_tasks w))) (\<lambda>existing.
       case existing of
         Some h \<Rightarrow>
           andthen (insert_event i Ev_log (dedup_event (h_id h)))
          (andthen (if tq_blocking q then bnd (park_run i) (\<lambda>_. ret ()) else ret ())
             (ret \<lparr>tr_created = False, tr_blocking = tq_blocking q, tr_may_finish = tq_blocking q\<rparr>))
       | None \<Rightarrow>
           andthen (insert_task (new_task (r_workspace r) (Some i) (r_ticket r) (tq_kind q) (tq_title q)
                      (tq_details q) (tq_options q) (tq_blocking q)))
           (if \<not> tq_blocking q then ret \<lparr>tr_created = True, tr_blocking = False, tr_may_finish = False\<rparr>
            else bnd (park_run i) (\<lambda>parked.
              andthen (if parked then transition_and_comment E (r_workspace r) (r_agent r) (r_ticket r) q else ret ())
                (ret \<lparr>tr_created = True, tr_blocking = True, tr_may_finish = True\<rparr>)))))"

definition create_non_blocking :: "env \<Rightarrow> id \<Rightarrow> task_kind \<Rightarrow> string \<Rightarrow> string option \<Rightarrow> task_result handler" where
  "create_non_blocking E i kind title details = create_from_request E i
     \<lparr>tq_kind = kind, tq_title = title, tq_details = details, tq_blocking = False, tq_options = None\<rparr>"

definition has_open_blocking_task :: "id \<Rightarrow> bool handler" where
  "has_open_blocking_task i =
     bnd (gets (\<lambda>w. find (open_task_of_run i True) (w_tasks w))) (\<lambda>h. ret (h \<noteq> None))"

section \<open>Steps\<close>

context base_relation
begin

lemma steps_ticket_tasks [steps_intros]:
  "steps R (create_ticket_blocked ws tk title d)" "steps R (create_keyed_ticket_task ws tk title d)"
  unfolding create_ticket_blocked_def create_keyed_ticket_task_def by (intro steps_intros)+

lemma steps_transition_and_comment [steps_intros]: "steps R (transition_and_comment E ws ag tk q)"
  unfolding transition_and_comment_def by (intro steps_intros)

lemma steps_create_non_blocking [steps_intros]: "steps R (create_non_blocking E i kind title d)"
  unfolding create_non_blocking_def create_from_request_def by (simp, intro steps_intros)

lemma steps_has_open_blocking [steps_intros]: "steps R (has_open_blocking_task i)"
  unfolding has_open_blocking_task_def by (intro steps_intros)

end

context world_relation
begin

lemma steps_park_run [steps_intros]: "steps R (park_run i)"
  unfolding park_run_def by (rule R_update_run, rule run_step.park) (auto simp: same_run_def)

lemma steps_create_from_request [steps_intros]: "steps R (create_from_request E i q)"
  unfolding create_from_request_def by (intro steps_intros)

end

section \<open>Properties\<close>

definition tasks_deduped :: "human_task list \<Rightarrow> bool" where
  "tasks_deduped hs \<longleftrightarrow> (\<forall>i b. length (filter (open_task_of_run i b) hs) \<le> 1)"

lemma tasks_deduped_append:
  assumes "tasks_deduped hs" and "find (open_task_of_run i (h_blocking h)) hs = None" and "h_run h = Some i"
  shows "tasks_deduped (hs @ [h])"
  unfolding tasks_deduped_def
proof (intro allI)
  fix j b
  show "length (filter (open_task_of_run j b) (hs @ [h])) \<le> 1"
  proof (cases "open_task_of_run j b h")
    case True
    then have "j = i" "b = h_blocking h" using assms(3) by (auto simp: open_task_of_run_def)
    then have "filter (open_task_of_run j b) hs = []"
      using assms(2) by (auto simp: find_None_iff filter_empty_conv)
    then show ?thesis by simp
  next
    case False
    then show ?thesis using assms(1) by (simp add: tasks_deduped_def)
  qed
qed

text \<open>What a parking update does to the run it hits and to the other tables.\<close>

lemma park_run_parks:
  assumes "world_ok w" and "r \<in> set (w_runs w)" and "r_status r = Running"
  shows "park_run (r_id r) w = (Inr True, w\<lparr>w_runs := map (\<lambda>s. if r_id s = r_id r then r\<lparr>r_status := Awaiting_human\<rparr> else s) (w_runs w)\<rparr>)"
  unfolding park_run_def using assms by (intro update_run_hit) (auto simp: same_run_def active_def)

lemma transition_and_comment_frame:
  "\<exists>cs. transition_and_comment E ws ag tk q w = (Inr (), w\<lparr>w_jira := w_jira w @ cs\<rparr>)"
proof -
  have id: "\<exists>cs. w = w\<lparr>w_jira := w_jira w @ cs\<rparr>" by (rule exI [of _ "[]"]) simp
  show ?thesis
    by (auto simp: transition_and_comment_def act_simps jira_connect_def jira_transition_to_def
      jira_add_comment_def answer_def done_or_def id split: option.splits)
qed

text \<open>
  A blocking question is never lost: on a running run of a consistent database,
  \<open>request_human\<close> with \<open>blocking\<close> leaves the run parked and an open blocking task of the run
  behind, whether it created the task or found it there, and tells the agent that it may end
  its turn; whatever Jira answers to the transition and the comment changes none of it.
\<close>

theorem blocking_request_parks:
  assumes "world_ok w" and "find_run i w = Some r" and "r_status r = Running" and "tq_blocking q"
  shows "\<exists>res w'. create_from_request E i q w = (Inr res, w') \<and> tr_may_finish res \<and>
     (\<exists>r'. find_run i w' = Some r' \<and> r_status r' = Awaiting_human \<and> same_run r r') \<and>
     (\<exists>h\<in>set (w_tasks w'). open_task_of_run i True h) \<and>
     (tr_created res \<longleftrightarrow> (\<forall>h\<in>set (w_tasks w). \<not> open_task_of_run i True h))"
proof -
  from assms(2) have r: "r \<in> set (w_runs w)" "r_id r = i" using find_run_Some by blast+
  let ?r' = "r\<lparr>r_status := Awaiting_human\<rparr>"
  let ?rs = "map (\<lambda>s. if r_id s = i then ?r' else s) (w_runs w)"
  have park: "park_run i v = (Inr True, v\<lparr>w_runs := ?rs\<rparr>)" if "w_runs v = w_runs w" "world_ok v" for v
    using park_run_parks [of v r] that r assms(3) by simp
  have found: "find_run i v = Some ?r'" if "w_runs v = ?rs" for v
    using find_run_updated [OF r(1), of ?r' v] that r(2) by simp
  show ?thesis
  proof (cases "find (open_task_of_run i True) (w_tasks w)")
    case (Some h)
    let ?v = "w\<lparr>w_events := w_events w @ [\<lparr>e_run = i, e_type = Ev_log, e_payload = dedup_event (h_id h), e_created = w_now w\<rparr>]\<rparr>"
    have "park_run i ?v = (Inr True, ?v\<lparr>w_runs := ?rs\<rparr>)"
      using assms(1) by (intro park) (simp_all add: world_ok_def)
    then show ?thesis
      using Some assms(2,4) found [of "?v\<lparr>w_runs := ?rs\<rparr>"] find_Some_mem [OF Some]
      by (auto simp: create_from_request_def act_simps insert_event_def same_run_def)
  next
    case None
    let ?h = "(new_task (r_workspace r) (Some i) (r_ticket r) (tq_kind q) (tq_title q) (tq_details q)
        (tq_options q) True)\<lparr>h_id := w_next w, h_created := w_now w\<rparr>"
    let ?v = "w\<lparr>w_tasks := w_tasks w @ [?h], w_next := Suc (w_next w)\<rparr>"
    have "world_ok ?v" using assms(1) by (auto simp: world_ok_def less_Suc_eq)
    then have park': "park_run i ?v = (Inr True, ?v\<lparr>w_runs := ?rs\<rparr>)" by (intro park) simp_all
    obtain cs where cs: "transition_and_comment E (r_workspace r) (r_agent r) (r_ticket r) q (?v\<lparr>w_runs := ?rs\<rparr>) =
        (Inr (), ?v\<lparr>w_runs := ?rs, w_jira := w_jira (?v\<lparr>w_runs := ?rs\<rparr>) @ cs\<rparr>)"
      using transition_and_comment_frame by blast
    have "open_task_of_run i True ?h" by (simp add: open_task_of_run_def new_task_def)
    moreover have "\<forall>h\<in>set (w_tasks w). \<not> open_task_of_run i True h" using None by (auto simp: find_None_iff)
    ultimately show ?thesis
      using None assms(2,4) park' cs found [of "?v\<lparr>w_runs := ?rs, w_jira := w_jira w @ cs\<rparr>"]
      by (auto simp: create_from_request_def act_simps insert_task_def same_run_def)
  qed
qed

theorem blocking_request_parks_witness:
  "\<exists>res w'. create_from_request sample_env 7
       \<lparr>tq_kind = Question, tq_title = ''?'', tq_details = None, tq_blocking = True, tq_options = None\<rparr>
       (sample_world [sample_run 7 (Some 4) Running]) = (Inr res, w') \<and> tr_created res"
proof -
  let ?q = "\<lparr>tq_kind = Question, tq_title = ''?'', tq_details = None, tq_blocking = True, tq_options = None\<rparr>"
  have "find_run 7 (sample_world [sample_run 7 (Some 4) Running]) = Some (sample_run 7 (Some 4) Running)"
    by (simp add: find_run_def sample_defs)
  from blocking_request_parks [OF sample_single_ok this, of ?q sample_env]
  show ?thesis by (auto simp: sample_defs)
qed

text \<open>A relation for what leaves the task table alone.\<close>

definition same_tasks :: "world \<Rightarrow> world \<Rightarrow> bool" where
  "same_tasks u v \<longleftrightarrow> w_tasks v = w_tasks u"

interpretation st: state_relation same_tasks
  by unfold_locales (auto simp: same_tasks_def)

lemma same_tasks_park [steps_intros]: "steps same_tasks (park_run i)"
proof (rule stepsI)
  fix w
  show "same_tasks w (snd (park_run i w))"
    unfolding park_run_def same_tasks_def
    by (cases rule: update_run_cases [of i "\<lambda>r. r_status r = Running" "\<lambda>now r. r\<lparr>r_status := Awaiting_human\<rparr>" w]) auto
qed

lemma same_tasks_event [steps_intros]: "steps same_tasks (insert_event i ty p)"
  by (simp add: steps_def same_tasks_def insert_event_def modify_def)

lemma same_tasks_comment [steps_intros]: "steps same_tasks (transition_and_comment E ws ag tk q)"
proof (rule stepsI)
  fix w
  show "same_tasks w (snd (transition_and_comment E ws ag tk q w))"
    using transition_and_comment_frame [of E ws ag tk q w] by (auto simp: same_tasks_def)
qed

definition request_row :: "id \<Rightarrow> run \<Rightarrow> task_request \<Rightarrow> human_task" where
  "request_row i r q = new_task (r_workspace r) (Some i) (r_ticket r) (tq_kind q) (tq_title q)
     (tq_details q) (tq_options q) (tq_blocking q)"

lemma request_tasks:
  assumes "find_run i w = Some r"
  shows "w_tasks (snd (create_from_request E i q w)) =
    (if find (open_task_of_run i (tq_blocking q)) (w_tasks w) = None
     then w_tasks w @ [(request_row i r q)\<lparr>h_id := w_next w, h_created := w_now w\<rparr>] else w_tasks w)"
proof (cases "find (open_task_of_run i (tq_blocking q)) (w_tasks w)")
  case None
  let ?v = "w\<lparr>w_tasks := w_tasks w @ [(request_row i r q)\<lparr>h_id := w_next w, h_created := w_now w\<rparr>], w_next := Suc (w_next w)\<rparr>"
  let ?k = "if \<not> tq_blocking q then ret \<lparr>tr_created = True, tr_blocking = False, tr_may_finish = False\<rparr>
      else bnd (park_run i) (\<lambda>parked.
        andthen (if parked then transition_and_comment E (r_workspace r) (r_agent r) (r_ticket r) q else ret ())
          (ret \<lparr>tr_created = True, tr_blocking = True, tr_may_finish = True\<rparr>))"
  have "create_from_request E i q w = ?k ?v"
    using assms None by (simp add: create_from_request_def bnd_app gets_app andthen_app insert_task_def request_row_def)
  moreover have "steps same_tasks ?k" by (intro steps_intros)
  ultimately show ?thesis using None stepsD [of same_tasks ?k ?v] by (simp add: same_tasks_def)
next
  case (Some h)
  let ?k = "andthen (insert_event i Ev_log (dedup_event (h_id h)))
      (andthen (if tq_blocking q then bnd (park_run i) (\<lambda>_. ret ()) else ret ())
        (ret \<lparr>tr_created = False, tr_blocking = tq_blocking q, tr_may_finish = tq_blocking q\<rparr>))"
  have "create_from_request E i q w = ?k w"
    using assms Some by (simp add: create_from_request_def bnd_app gets_app)
  moreover have "steps same_tasks ?k" by (intro steps_intros)
  ultimately show ?thesis using Some stepsD [of same_tasks ?k w] by (simp add: same_tasks_def)
qed

text \<open>
  Tasks are deduplicated per run and blocking-ness and nothing more: if no run has two
  open tasks of one blocking-ness, the same holds after any request, and after a request on an
  existing run an open task of the requested blocking-ness exists - so an open non-blocking
  notice never swallows a blocking question, nor the other way round.
\<close>

theorem create_from_request_dedups:
  assumes "tasks_deduped (w_tasks w)"
  shows "tasks_deduped (w_tasks (snd (create_from_request E i q w))) \<and>
    (find_run i w \<noteq> None \<longrightarrow>
      (\<exists>h\<in>set (w_tasks (snd (create_from_request E i q w))). open_task_of_run i (tq_blocking q) h))"
proof (cases "find_run i w")
  case None
  then show ?thesis using assms by (simp add: create_from_request_def act_simps)
next
  case (Some r)
  show ?thesis
  proof (cases "find (open_task_of_run i (tq_blocking q)) (w_tasks w)")
    case None
    then show ?thesis
      using assms Some by (auto simp: request_tasks intro!: tasks_deduped_append)
        (auto simp: request_row_def new_task_def open_task_of_run_def)
  next
    case found: (Some h)
    then show ?thesis using assms Some find_Some_mem [OF found] by (auto simp: request_tasks)
  qed
qed

theorem create_from_request_dedups_witness:
  "tasks_deduped (w_tasks (snd (create_from_request sample_env 7
       \<lparr>tq_kind = Question, tq_title = ''?'', tq_details = None, tq_blocking = False, tq_options = None\<rparr>
       (sample_world [sample_run 7 (Some 4) Running]))))"
  by (rule create_from_request_dedups [THEN conjunct1]) (simp add: tasks_deduped_def sample_world_def)

end
