(* ===== verification/Release.thy ===== *)
theory Release
  imports DependencyGate CycleOrder HumanTasks
begin

text \<open>
  The pull-based release of blocked tickets
  (\<open>libs/pipeline/src/dependency-release.service.ts\<close>): the candidate query, the re-fetch and the
  gate on every candidate, the triggers in release order, the waiting cache of the tickets, and
  the classification of those still blocked.
\<close>

section \<open>Candidates\<close>

record release_scope =
  rs_id :: id
  rs_project_key :: string
  rs_board_id :: "int option"
  rs_board_type :: board_type

record candidate =
  cd_ticket :: id
  cd_key :: string
  cd_agent :: id
  cd_behavior :: json

text \<open>A run that takes the (ticket, agent) pair out of the candidate set.\<close>

definition suppresses :: "id \<Rightarrow> id \<Rightarrow> run \<Rightarrow> bool" where
  "suppresses tk ag r \<longleftrightarrow> r_ticket r = Some tk \<and> r_agent r = ag \<and>
     r_status r \<in> {Queued, Running, Awaiting_human, Succeeded, Cancelled}"

definition joins :: "id \<Rightarrow> string option \<Rightarrow> world \<Rightarrow> ticket \<Rightarrow> agent \<Rightarrow> bool" where
  "joins ws blocker w t a \<longleftrightarrow> a_workspace a = t_workspace t \<and> a_trigger_status a \<noteq> None \<and>
     a_trigger_status a = t_last_seen_status t \<and> a_enabled a \<and> t_workspace t = ws \<and>
     (case blocker of None \<Rightarrow> True
        | Some k \<Rightarrow> (case t_blocked_by t of None \<Rightarrow> False | Some ks \<Rightarrow> k \<in> set ks)) \<and>
     \<not> (\<exists>r\<in>set (w_runs w). suppresses (t_id t) (a_id a) r)"

definition candidates :: "id \<Rightarrow> string option \<Rightarrow> candidate list handler" where
  "candidates ws blocker = gets (\<lambda>w. concat (map (\<lambda>t.
     map (\<lambda>a. \<lparr>cd_ticket = t_id t, cd_key = t_jira_key t, cd_agent = a_id a, cd_behavior = a_behavior a\<rparr>)
       (filter (joins ws blocker w t) (w_agents w))) (w_tickets w)))"

section \<open>The pass\<close>

definition load_scope_filter :: "env \<Rightarrow> release_scope \<Rightarrow> (string option \<times> int list) handler" where
  "load_scope_filter E ws = bnd (get_scope_jql (rs_id ws)) (\<lambda>scope.
     bnd (case (rs_board_type ws, rs_board_id ws) of
            (Scrum, Some b) \<Rightarrow> jira_active_sprint_ids E (rs_id ws) b | _ \<Rightarrow> ret [])
       (\<lambda>ids. ret (scope, ids)))"

text \<open>The scope query restricted to some keys.\<close>

definition keys_jql :: "release_scope \<Rightarrow> string option \<times> int list \<Rightarrow> string list \<Rightarrow> string" where
  "keys_jql ws scope keys =
     (let key_list = join_with '', '' keys in
      build_scope_jql (rs_board_type ws) (rs_project_key ws) (Some (snd scope))
        (Some (case truthy (fst scope) of
           Some q \<Rightarrow> ''('' @ q @ '') AND key in ('' @ key_list @ '')''
         | None \<Rightarrow> ''key in ('' @ key_list @ '')'')) None)"

definition uniq :: "string list \<Rightarrow> string list" where
  "uniq xs = fold add_to xs []"

text \<open>\<open>new Map(issues.map(i => [i.key, i]))\<close>: the last issue of a key wins.\<close>

definition by_key :: "jira_issue list \<Rightarrow> string \<Rightarrow> jira_issue option" where
  "by_key is k = find (\<lambda>i. i_key i = k) (rev is)"

definition priority_of :: "jira_issue option \<Rightarrow> int option" where
  "priority_of i = (case i of None \<Rightarrow> None | Some x \<Rightarrow> fst (parse_jira_priority x))"

definition release_key :: "jira_issue list \<Rightarrow> candidate \<Rightarrow> int option \<times> string" where
  "release_key is c = (priority_of (by_key is (cd_key c)), cd_key c)"

definition early_message :: "string \<Rightarrow> (string \<times> string) list \<Rightarrow> string" where
  "early_message status blockers = ''Released early: blocker(s) ['' @ join_with '', '' (map fst blockers) @
     ''] reached \"'' @ status @ ''\" without being done.''"

definition record_early_release :: "id \<Rightarrow> string \<Rightarrow> (string \<times> string) list \<Rightarrow> unit handler" where
  "record_early_release run status blockers = insert_event run Ev_log
     (JObj [(''source'', JStr ''dependency-release''), (''early'', JBool True), (''matched_status'', JStr status),
        (''blockers'', JArr (map (\<lambda>(k, s). JObj [(''key'', JStr k), (''status'', JStr s)]) blockers)),
        (''message'', JStr (early_message status blockers))])"

record waiting_ticket =
  wt_ticket :: id
  wt_issue :: jira_issue
  wt_blockers :: "string list"

text \<open>\<open>Map.set\<close>: a known key keeps its place.\<close>

fun map_set :: "'k \<Rightarrow> 'v \<Rightarrow> ('k \<times> 'v) list \<Rightarrow> ('k \<times> 'v) list" where
  "map_set k v [] = [(k, v)]"
| "map_set k v ((k', v') # kvs) = (if k' = k then (k, v) # kvs else (k', v') # map_set k v kvs)"

definition cache_ticket :: "id \<Rightarrow> jira_issue \<Rightarrow> blocked_state option \<Rightarrow> unit handler" where
  "cache_ticket tk i st = update_ticket tk (\<lambda>t. t\<lparr>t_blocked_by := Some (all_blocked_by_keys i),
     t_blocked_state := st, t_priority_id := fst (parse_jira_priority i), t_priority_name := snd (parse_jira_priority i)\<rparr>)"

definition release_one :: "env \<Rightarrow> string option \<Rightarrow> jira_issue list \<Rightarrow> candidate \<Rightarrow>
    (string \<times> waiting_ticket) list \<Rightarrow> (string \<times> waiting_ticket) list handler" where
  "release_one E release is c waiting =
     (case by_key is (cd_key c) of None \<Rightarrow> ret waiting
      | Some i \<Rightarrow>
        if evaluate_dependency_gate release i \<noteq> Clear
        then ret (map_set (cd_key c) \<lparr>wt_ticket = cd_ticket c, wt_issue = i, wt_blockers = blocking_keys release i\<rparr> waiting)
        else let early = early_release_blockers release i in
          bnd (trigger E (Some (cd_ticket c)) (cd_agent c) (Some (build_agent_trigger_event Src_poller (cd_behavior c)))) (\<lambda>res.
          andthen (cache_ticket (cd_ticket c) i None)
         (andthen (case res of Deduplicated h \<Rightarrow> ret ()
              | Triggered run \<Rightarrow> (case release of
                    Some st \<Rightarrow> if early \<noteq> [] then record_early_release run st early else ret () | None \<Rightarrow> ret ()))
            (ret waiting))))"

section \<open>Classification of the tickets that keep waiting\<close>

definition classify :: "string list \<Rightarrow> string list \<Rightarrow> string list \<Rightarrow> string \<Rightarrow> string list \<Rightarrow> blocked_state" where
  "classify cycle in_scope dead_end key blockers =
     (if key \<in> set cycle then Cycle
      else if \<exists>b\<in>set blockers. b \<notin> set in_scope then Out_of_scope
      else if \<exists>b\<in>set blockers. b \<in> set dead_end then Dead_end
      else Waiting)"

definition dead_end_issue :: "jira_issue \<Rightarrow> bool" where
  "dead_end_issue b \<longleftrightarrow> i_resolution b \<noteq> None \<and> i_category b \<noteq> Cat_done"

definition out_of_scope_details :: "string \<Rightarrow> string list \<Rightarrow> string" where
  "out_of_scope_details key outside = key @ '' sits in a trigger status but waits on ['' @ join_with '', '' outside @
     ''], which the system does not observe on this board. '' @
     ''Bring the blocker(s) into the sprint/board scope, or break the link on the board.''"

definition classify_waiting :: "env \<Rightarrow> release_scope \<Rightarrow> (string \<times> waiting_ticket) list \<Rightarrow>
    string option \<times> int list \<Rightarrow> unit handler" where
  "classify_waiting E ws waiting scope =
     (if waiting = [] then ret () else
      let cycle = find_cycle_tickets (map (\<lambda>(k, w). (k, wt_blockers w)) waiting);
          probe = uniq (concat (map (\<lambda>(k, w). wt_blockers w) (filter (\<lambda>(k, w). k \<notin> set cycle) waiting)))
      in bnd (if probe = [] then ret ([], [])
              else bnd (jira_search_updated E (rs_id ws) (''key in ('' @ join_with '', '' probe @ '')'') [''status'', ''resolution'']) (\<lambda>fetched.
                   bnd (jira_search_updated E (rs_id ws) (keys_jql ws scope probe) [''status'']) (\<lambda>inside.
                   ret (map i_key (filter dead_end_issue fetched), map i_key inside)))) (\<lambda>(dead_end, in_scope).
         for_each waiting (\<lambda>(key, w).
           let st = classify cycle in_scope dead_end key (wt_blockers w) in
           andthen (cache_ticket (wt_ticket w) (wt_issue w) (Some st))
             (if st = Out_of_scope
              then bnd (create_ticket_blocked (rs_id ws) (wt_ticket w)
                     (key @ '' is blocked by ticket(s) outside this board's scope'')
                     (Some (out_of_scope_details key (filter (\<lambda>b. b \<notin> set in_scope) (wt_blockers w))))) (\<lambda>_. ret ())
              else ret ()))))"

definition process :: "env \<Rightarrow> release_scope \<Rightarrow> candidate list \<Rightarrow> unit handler" where
  "process E ws cs =
     (if cs = [] then ret () else
      bnd (get_dependency_release_status (rs_id ws)) (\<lambda>release.
      bnd (load_scope_filter E ws) (\<lambda>scope.
      bnd (jira_search_updated E (rs_id ws) (keys_jql ws scope (uniq (map cd_key cs))) POLL_FIELDS) (\<lambda>is.
      bnd (for_fold (js_sort (\<lambda>a b. compare_release_order (release_key is a) (release_key is b)) cs) []
             (release_one E release is)) (\<lambda>waiting.
      classify_waiting E ws waiting scope)))))"

definition release_for :: "env \<Rightarrow> release_scope \<Rightarrow> unit handler" where
  "release_for E ws = bnd (candidates (rs_id ws) None) (process E ws)"

definition release_dependents_of :: "env \<Rightarrow> release_scope \<Rightarrow> string \<Rightarrow> unit handler" where
  "release_dependents_of E ws blocker = bnd (candidates (rs_id ws) (Some blocker)) (\<lambda>cs.
     if cs = [] then ret () else process E ws cs)"

context base_relation
begin

lemma steps_candidates [steps_intros]: "steps R (candidates ws b)"
  unfolding candidates_def by (intro steps_intros)

lemma steps_load_scope [steps_intros]: "steps R (load_scope_filter E ws)"
  unfolding load_scope_filter_def
  by (intro steps_intros) (auto split: board_type.splits option.splits intro!: steps_intros)

lemma steps_cache_ticket [steps_intros]: "steps R (cache_ticket tk i st)"
  unfolding cache_ticket_def by (intro steps_intros)

lemma steps_early [steps_intros]: "steps R (record_early_release run st bs)"
  unfolding record_early_release_def by (intro steps_intros)

lemma steps_classify_waiting [steps_intros]: "steps R (classify_waiting E ws wt sc)"
  unfolding classify_waiting_def by (intro steps_intros)

end

context insert_relation
begin

lemma steps_release_one [steps_intros]: "steps R (release_one E rel is c wt)"
  unfolding release_one_def
  by (intro steps_intros) (auto split: trigger_result.splits option.splits intro!: steps_intros)

lemma steps_process [steps_intros]: "steps R (process E ws cs)"
  unfolding process_def by (intro steps_intros)

lemma steps_release [steps_intros]: "steps R (release_for E ws)" "steps R (release_dependents_of E ws k)"
  unfolding release_for_def release_dependents_of_def by (intro steps_intros)+

end

section \<open>What a pass may start\<close>

text \<open>The runs a pass may start: of a candidate for which Jira returned an issue past the gate.\<close>

definition releasable :: "env \<Rightarrow> string option \<Rightarrow> candidate list \<Rightarrow> run \<Rightarrow> bool" where
  "releasable E release cs r \<longleftrightarrow> (\<exists>c\<in>set cs. r_ticket r = Some (cd_ticket c) \<and> r_agent r = cd_agent c \<and>
     r_status r = Queued \<and>
     (\<exists>h ws q fs is i. env_search E h ws q fs = Inr is \<and> i \<in> set is \<and> i_key i = cd_key c \<and>
        evaluate_dependency_gate release i = Clear))"

lemma by_key_mem: "by_key is k = Some i \<Longrightarrow> i \<in> set is \<and> i_key i = k"
  unfolding by_key_def by (auto dest: find_Some_mem)

lemma release_one_appends:
  assumes "c \<in> set cs" and "\<exists>h ws q fs. env_search E h ws q fs = Inr is"
  shows "steps (appends (releasable E release cs)) (release_one E release is c wt)"
proof (cases "by_key is (cd_key c)")
  case None
  then show ?thesis unfolding release_one_def by (simp add: ap.steps_ret)
next
  case (Some i)
  show ?thesis
  proof (cases "evaluate_dependency_gate release i = Clear")
    case True
    have ex: "\<exists>h ws q fs is i. env_search E h ws q fs = Inr is \<and> i \<in> set is \<and> i_key i = cd_key c \<and>
        evaluate_dependency_gate release i = Clear"
      using assms True by_key_mem [OF Some] by blast
    have "releasable E release cs ((queued_run w (Some (cd_ticket c)) (cd_agent c) ty n e)\<lparr>r_id := j, r_created := now\<rparr>)"
      for w ty n e j now
      unfolding releasable_def using assms(1) ex
      by (intro bexI [of _ c] conjI) (simp_all add: queued_run_def)
    then show ?thesis
      unfolding release_one_def using Some
      by (auto simp: Let_def split: trigger_result.splits option.splits intro!: steps_intros steps_trigger_appends)
  next
    case False
    then show ?thesis unfolding release_one_def using Some by (simp add: ap.steps_ret)
  qed
qed

lemma board_search_result:
  "jira_search_updated E ws q fs w = (Inr is, w') \<Longrightarrow> \<exists>h ws q fs. env_search E h ws q fs = Inr is"
  by (auto simp: jira_search_updated_def answer_def)

lemma release_status_app:
  "find_workspace ws w = Some s \<Longrightarrow> get_dependency_release_status ws w =
    (Inr (case st_dependency_release_status (s_settings s) of None \<Rightarrow> None
       | Some x \<Rightarrow> truthy (Some (js_trim x))), w)"
  by (simp add: get_dependency_release_status_def get_settings_def act_simps truthy_def Let_def split: option.split)

lemma jira_search_steps: "steps (appends A) (jira_search_updated E ws q fs)"
  by (rule ap.steps_jira_search)

lemma process_appends:
  assumes "find_workspace (rs_id ws) w = Some s"
    and "release = fst (get_dependency_release_status (rs_id ws) w)"
  shows "\<exists>rel. release = Inr rel \<and> appends (releasable E rel cs) w (snd (process E ws cs w))"
proof (cases "cs = []")
  case True
  then show ?thesis using assms by (simp add: process_def act_simps release_status_app appends_same)
next
  case False
  obtain rel where rel: "get_dependency_release_status (rs_id ws) w = (Inr rel, w)"
    using release_status_app [OF assms(1)] by blast
  let ?rest = "bnd (load_scope_filter E ws) (\<lambda>scope.
      bnd (jira_search_updated E (rs_id ws) (keys_jql ws scope (uniq (map cd_key cs))) POLL_FIELDS) (\<lambda>is.
      bnd (for_fold (js_sort (\<lambda>a b. compare_release_order (release_key is a) (release_key is b)) cs) []
             (release_one E rel is)) (\<lambda>waiting. classify_waiting E ws waiting scope)))"
  have "steps (appends (releasable E rel cs)) ?rest"
    by (intro ap.steps_bnd_result [OF jira_search_steps] ap.steps_bnd ap.steps_for_fold
          ap.steps_load_scope ap.steps_classify_waiting)
       (auto intro!: release_one_appends dest: board_search_result)
  then have "appends (releasable E rel cs) w (snd (?rest w))" by (rule stepsD)
  then show ?thesis using False rel assms(2) by (simp add: process_def bnd_app)
qed

text \<open>
  C9. The release pass starts only what the board and the history allow: every run it adds is
  queued for an enabled agent whose trigger status is the status the ticket was last seen in,
  on a ticket of the workspace for which Jira returned an issue past the dependency gate, and
  only where the pair had no active, succeeded or cancelled run; runs that were there are left
  as they were.
\<close>

theorem release_starts_only_clear:
  assumes "find_workspace (rs_id ws) w = Some s" and "get_dependency_release_status (rs_id ws) w = (Inr release, w)"
    and "release_for E ws w = (res, w')"
  shows "\<exists>new. w_runs w' = w_runs w @ new \<and> (\<forall>r\<in>set new. r_status r = Queued \<and>
    (\<exists>t\<in>set (w_tickets w). \<exists>a\<in>set (w_agents w). r_ticket r = Some (t_id t) \<and> r_agent r = a_id a \<and>
       t_workspace t = rs_id ws \<and> a_enabled a \<and> a_trigger_status a = t_last_seen_status t \<and>
       \<not> (\<exists>r'\<in>set (w_runs w). suppresses (t_id t) (a_id a) r') \<and>
       (\<exists>h ws' q fs is i. env_search E h ws' q fs = Inr is \<and> i \<in> set is \<and> i_key i = t_jira_key t \<and>
          evaluate_dependency_gate release i = Clear)))"
proof -
  obtain cs where cs: "candidates (rs_id ws) None w = (Inr cs, w)"
    and mem: "\<And>c. c \<in> set cs \<Longrightarrow> \<exists>t\<in>set (w_tickets w). \<exists>a\<in>set (w_agents w). joins (rs_id ws) None w t a \<and>
      cd_ticket c = t_id t \<and> cd_agent c = a_id a \<and> cd_key c = t_jira_key t"
    by (fastforce simp: candidates_def act_simps)
  then have "snd (process E ws cs w) = w'" using assms(3) by (simp add: release_for_def bnd_app)
  moreover obtain rel where "fst (get_dependency_release_status (rs_id ws) w) = Inr rel"
    "appends (releasable E rel cs) w (snd (process E ws cs w))"
    using process_appends [OF assms(1) refl] by blast
  ultimately obtain new where new: "w_runs w' = w_runs w @ new" "\<forall>r\<in>set new. releasable E release cs r"
    using assms(2) by (auto simp: appends_def)
  show ?thesis
  proof (intro exI conjI ballI)
    fix r
    assume "r \<in> set new"
    with new obtain c where c: "c \<in> set cs" "r_ticket r = Some (cd_ticket c)" "r_agent r = cd_agent c" "r_status r = Queued"
      and clear: "\<exists>h ws' q fs is i. env_search E h ws' q fs = Inr is \<and> i \<in> set is \<and> i_key i = cd_key c \<and>
        evaluate_dependency_gate release i = Clear"
      unfolding releasable_def by blast
    show "r_status r = Queued" by fact
    from mem [OF c(1)] obtain t a where ta: "t \<in> set (w_tickets w)" "a \<in> set (w_agents w)" "joins (rs_id ws) None w t a"
      "cd_ticket c = t_id t" "cd_agent c = a_id a" "cd_key c = t_jira_key t" by blast
    show "\<exists>t\<in>set (w_tickets w). \<exists>a\<in>set (w_agents w). r_ticket r = Some (t_id t) \<and> r_agent r = a_id a \<and>
       t_workspace t = rs_id ws \<and> a_enabled a \<and> a_trigger_status a = t_last_seen_status t \<and>
       \<not> (\<exists>r'\<in>set (w_runs w). suppresses (t_id t) (a_id a) r') \<and>
       (\<exists>h ws' q fs is i. env_search E h ws' q fs = Inr is \<and> i \<in> set is \<and> i_key i = t_jira_key t \<and>
          evaluate_dependency_gate release i = Clear)"
      using ta c(2,3) clear by (intro bexI [of _ t] bexI [of _ a]) (simp_all add: joins_def)
  qed (rule new(1))
qed

text \<open>A board on which one ticket is clear and Jira says so.\<close>

definition clear_issue :: jira_issue where
  "clear_issue = \<lparr>i_key = ''PRJ-1'', i_id = ''10001'', i_summary = None, i_status = ''To Do'', i_category = Cat_new,
     i_updated = '''', i_links = None, i_priority = None, i_resolution = None\<rparr>"

definition clear_env :: env where
  "clear_env = sample_env\<lparr>env_search := \<lambda>_ _ _ _. Inr [clear_issue]\<rparr>"

definition sample_scope :: release_scope where
  "sample_scope = \<lparr>rs_id = 1, rs_project_key = ''PRJ'', rs_board_id = None, rs_board_type = Kanban\<rparr>"

theorem release_starts_only_clear_witness:
  "\<exists>new. w_runs (snd (release_for clear_env sample_scope (sample_world []))) = new \<and> length new = 1 \<and>
     (\<forall>r\<in>set new. r_status r = Queued)"
proof -
  have ws: "find_workspace (rs_id sample_scope) (sample_world []) = Some sample_workspace"
    by (simp add: find_workspace_def sample_scope_def sample_defs)
  have st: "get_dependency_release_status (rs_id sample_scope) (sample_world []) = (Inr None, sample_world [])"
    by (simp add: release_status_app [OF ws]) (simp add: sample_defs)
  obtain res w' where run: "release_for clear_env sample_scope (sample_world []) = (res, w')" by fastforce
  have "length (w_runs (snd (release_for clear_env sample_scope (sample_world [])))) = 1"
    by code_simp
  then show ?thesis
    using release_starts_only_clear [OF ws st run] run by (auto simp: sample_world_def)
qed

end
