(* ===== verification/Pipeline.thy ===== *)
theory Pipeline
  imports Release
begin

text \<open>
  The pipeline (\<open>libs/pipeline/src/pipeline.service.ts\<close>, \<open>rework-budget.ts\<close>): what a status
  change triggers, the running transition, and the completion of worker, orchestrator and
  workspace-setup runs with their Jira writes, the triage and routing decisions and the
  \<open>jira_action\<close> marker that makes completion idempotent.
\<close>

section \<open>The rework budget\<close>

record rework_budget =
  rb_cycle_count :: int
  rb_max :: int
  rb_available :: bool

definition is_rework_on :: "id \<Rightarrow> run \<Rightarrow> bool" where
  "is_rework_on tk r \<longleftrightarrow> r_ticket r = Some tk \<and> trigger_source (r_trigger r) = Some ''rework''"

definition rework_count :: "id \<Rightarrow> world \<Rightarrow> int" where
  "rework_count tk w = int (length (filter (is_rework_on tk) (w_runs w)))"

definition get_rework_budget :: "id \<Rightarrow> id \<Rightarrow> rework_budget handler" where
  "get_rework_budget tk ws = bnd (gets (rework_count tk)) (\<lambda>n. bnd (get_rework_max ws) (\<lambda>m.
     ret \<lparr>rb_cycle_count = n, rb_max = m, rb_available = (n < m)\<rparr>))"

section \<open>Status changes\<close>

definition clear_waiting_state :: "id \<Rightarrow> unit handler" where
  "clear_waiting_state tk = update_ticket tk (\<lambda>t. if t_blocked_state t \<noteq> None then t\<lparr>t_blocked_state := None\<rparr> else t)"

definition observe_links :: "id \<Rightarrow> jira_issue \<Rightarrow> blocked_state option \<Rightarrow> unit handler" where
  "observe_links tk i st = update_ticket tk (\<lambda>t. t\<lparr>t_blocked_by := Some (all_blocked_by_keys i), t_blocked_state := st\<rparr>)"

definition trigger_matching :: "env \<Rightarrow> id \<Rightarrow> change_source \<Rightarrow> string option \<Rightarrow> (string \<times> string) list \<Rightarrow> agent \<Rightarrow> unit handler" where
  "trigger_matching E tk src release early a =
     bnd (trigger E (Some tk) (a_id a) (Some (build_agent_trigger_event src (a_behavior a)))) (\<lambda>res.
     case res of Deduplicated h \<Rightarrow> ret ()
     | Triggered run \<Rightarrow> (case release of
           Some st \<Rightarrow> if early \<noteq> [] then record_early_release run st early else ret () | None \<Rightarrow> ret ()))"

definition on_status_changed :: "env \<Rightarrow> id \<Rightarrow> jira_issue \<Rightarrow> string \<Rightarrow> change_source \<Rightarrow> unit handler" where
  "on_status_changed E tk i to_status src =
     bnd (gets (find_ticket tk)) (\<lambda>found.
     case found of None \<Rightarrow> ret ()
     | Some t \<Rightarrow>
       bnd (gets (\<lambda>w. filter (\<lambda>a. a_workspace a = t_workspace t \<and> a_trigger_status a = Some to_status \<and> a_enabled a)
              (w_agents w))) (\<lambda>agents.
       if agents = [] then clear_waiting_state tk
       else bnd (get_dependency_release_status (t_workspace t)) (\<lambda>release.
         if evaluate_dependency_gate release i = Blocked then observe_links tk i (Some Waiting)
         else andthen (observe_links tk i None)
                (for_each agents (trigger_matching E tk src release (early_release_blockers release i))))))"

section \<open>Run start\<close>

definition on_run_started :: "env \<Rightarrow> id \<Rightarrow> unit handler" where
  "on_run_started E i =
     bnd (gets (find_run i)) (\<lambda>found.
     case found of None \<Rightarrow> ret ()
     | Some r \<Rightarrow> (case r_ticket r of None \<Rightarrow> ret ()
       | Some tk \<Rightarrow>
         bnd (gets (find_agent (r_agent r))) (\<lambda>agent.
         case Option.bind agent (\<lambda>a. truthy (a_status_running a)) of None \<Rightarrow> ret ()
         | Some st \<Rightarrow>
           bnd (gets (find_ticket tk)) (\<lambda>ticket.
           case ticket of None \<Rightarrow> ret ()
           | Some t \<Rightarrow>
             catch (andthen (jira_connect E (r_workspace r)) (jira_transition_to E (r_workspace r) (t_jira_key t) st))
               (\<lambda>e. ret ())))))"

section \<open>Reports written to the board\<close>

definition invalid_routed_report :: "agent_report \<Rightarrow> agent_report" where
  "invalid_routed_report rep = \<lparr>rp_schema_version = 1, rp_outcome = Failure,
     rp_summary = ''Agent returned an invalid \"routed\" outcome - only the orchestrator may route a ticket. '' @
       ''Original summary: '' @ rp_summary rep,
     rp_checks = rp_checks rep, rp_human_task = None, rp_routing = None, rp_team = None,
     rp_artifacts = rp_artifacts rep\<rparr>"

definition synthetic_failure_report :: "string option \<Rightarrow> agent_report" where
  "synthetic_failure_report err = \<lparr>rp_schema_version = 1, rp_outcome = Failure,
     rp_summary = (case truthy err of Some e \<Rightarrow> ''Run did not complete: '' @ e | None \<Rightarrow> ''Run did not complete successfully.''),
     rp_checks = [], rp_human_task = None, rp_routing = None, rp_team = None, rp_artifacts = None\<rparr>"

section \<open>Lookups\<close>

definition find_enabled_orchestrator :: "id \<Rightarrow> agent option handler" where
  "find_enabled_orchestrator ws = gets (\<lambda>w.
     find (\<lambda>a. a_workspace a = ws \<and> a_is_orchestrator a \<and> a_enabled a) (w_agents w))"

definition resolve_routing_target :: "id \<Rightarrow> string \<Rightarrow> agent option handler" where
  "resolve_routing_target ws key = gets (\<lambda>w.
     find (\<lambda>a. a_workspace a = ws \<and> a_key a = key \<and> a_enabled a \<and> \<not> a_is_orchestrator a) (w_agents w))"

definition decided_by :: "id \<Rightarrow> id \<Rightarrow> run \<Rightarrow> bool" where
  "decided_by tk deciding r \<longleftrightarrow> r_ticket r = Some tk \<and> jget (r_trigger r) ''deciding_run_id'' = Some (jid deciding)"

definition find_existing_rework_run :: "id \<Rightarrow> id \<Rightarrow> run option handler" where
  "find_existing_rework_run tk deciding = gets (\<lambda>w. find (decided_by tk deciding) (w_runs w))"

text \<open>The inner join with \<open>agents\<close> drops a run whose agent is gone.\<close>

definition find_active_run_on_ticket :: "id \<Rightarrow> id \<Rightarrow> (run \<times> agent) option handler" where
  "find_active_run_on_ticket tk excluded = gets (\<lambda>w.
     case find (\<lambda>r. r_ticket r = Some tk \<and> active (r_status r) \<and> r_id r \<noteq> excluded \<and> find_agent (r_agent r) w \<noteq> None)
            (w_runs w) of
       None \<Rightarrow> None
     | Some r \<Rightarrow> map_option (Pair r) (find_agent (r_agent r) w))"

definition has_jira_action_marker :: "id \<Rightarrow> bool handler" where
  "has_jira_action_marker i = gets (\<lambda>w. \<exists>e\<in>set (w_events w). e_run e = i \<and> e_type e = Ev_jira_action)"

definition record_completion_error :: "id \<Rightarrow> string \<Rightarrow> error \<Rightarrow> unit handler" where
  "record_completion_error i stage e =
     insert_event i Ev_error (JObj [(''stage'', JStr stage), (''error'', JStr (en_message e))])"

section \<open>Triage\<close>

definition budget_details :: "int \<Rightarrow> string" where
  "budget_details m = ''This ticket has used its '' @ show_int m @ '' rework cycle(s); automated triage was skipped.''"

definition triage_event :: "id \<Rightarrow> json \<Rightarrow> json" where
  "triage_event failing behavior = JObj ([(''source'', JStr ''triage''), (''failing_run_id'', jid failing)]
     @ fld ''mock_scenario'' JStr (truthy (mock_scenario_of behavior))
     @ fld ''target_agent'' JStr (truthy (route_target_of behavior)))"

definition decide_triage :: "env \<Rightarrow> id \<Rightarrow> id \<Rightarrow> id \<Rightarrow> string handler" where
  "decide_triage E failing tk ws =
     bnd (get_rework_budget tk ws) (\<lambda>budget.
     if \<not> rb_available budget then
       bnd (create_non_blocking E failing Blocker ''Rework budget exhausted - manual attention needed''
              (Some (budget_details (rb_max budget)))) (\<lambda>_. ret ''cycle_limit'')
     else bnd (find_enabled_orchestrator ws) (\<lambda>orchestrator.
       case orchestrator of None \<Rightarrow> ret ''no_orchestrator''
       | Some a \<Rightarrow>
         bnd (trigger E (Some tk) (a_id a) (Some (triage_event failing (a_behavior a)))) (\<lambda>res.
         case res of Deduplicated h \<Rightarrow> ret ''triage_deduplicated'' | Triggered run \<Rightarrow> ret ''triaged'')))"

section \<open>Worker completion\<close>

definition release_dependents_safely :: "env \<Rightarrow> id \<Rightarrow> string \<Rightarrow> unit handler" where
  "release_dependents_safely E ws key =
     catch (bnd (gets (find_workspace ws)) (\<lambda>found.
            case found of None \<Rightarrow> ret ()
            | Some s \<Rightarrow> (case s_board_type s of None \<Rightarrow> ret ()
              | Some bt \<Rightarrow> andthen (jira_connect E ws)
                  (release_dependents_of E \<lparr>rs_id = ws, rs_project_key = s_project_key s,
                     rs_board_id = s_board_id s, rs_board_type = bt\<rparr> key))))
       (\<lambda>e. ret ())"

definition worker_marker :: "string \<Rightarrow> string option \<Rightarrow> json" where
  "worker_marker target decision = JObj ([(''transitioned_to'', JStr target), (''commented'', JBool True)]
     @ fld ''triage_decision'' JStr (truthy decision))"

definition on_worker_finished :: "env \<Rightarrow> run \<Rightarrow> id \<Rightarrow> agent \<Rightarrow> string \<Rightarrow> unit handler" where
  "on_worker_finished E r tk a key =
     (let raw = (case r_report r of Some rep \<Rightarrow> rep | None \<Rightarrow> synthetic_failure_report (r_error r));
          invalid_routed = (rp_outcome raw = Routed);
          rep = (if invalid_routed then invalid_routed_report raw else raw);
          succeeded = (r_status r = Succeeded \<and> \<not> invalid_routed);
          target = (if succeeded then a_status_success a else a_status_failure a)
      in catch
           (andthen (jira_connect E (r_workspace r))
           (andthen (jira_transition_to E (r_workspace r) key target)
           (andthen (jira_add_comment E (r_workspace r) key (Run_comment rep))
           (bnd (if r_status r = Failed \<or> r_status r = Timed_out
                 then bnd (decide_triage E (r_id r) tk (r_workspace r)) (\<lambda>d. ret (Some d)) else ret None) (\<lambda>decision.
            andthen (insert_event (r_id r) Ev_jira_action (worker_marker target decision))
              (if succeeded then release_dependents_safely E (r_workspace r) key else ret ()))))))
           (\<lambda>e. if en_kind e = No_transition_path
                then insert_event (r_id r) Ev_error
                       (JObj [(''stage'', JStr ''jira_transition''), (''error'', JStr (en_message e))])
                else throw e))"

section \<open>Orchestrator completion\<close>

fun status_name :: "run_status \<Rightarrow> string" where
  "status_name Queued = ''queued''"
| "status_name Running = ''running''"
| "status_name Awaiting_human = ''awaiting_human''"
| "status_name Succeeded = ''succeeded''"
| "status_name Failed = ''failed''"
| "status_name Cancelled = ''cancelled''"
| "status_name Timed_out = ''timed_out''"
| "status_name Superseded = ''superseded''"

text \<open>\<open>x ? \<lbrace>k: x\<rbrace> : \<lbrace>\<rbrace>\<close> on an id of the trigger event; an id is never falsy.\<close>

definition id_member :: "json \<Rightarrow> string \<Rightarrow> (string \<times> json) list" where
  "id_member ev k = (case jget ev k of None \<Rightarrow> [] | Some JNull \<Rightarrow> [] | Some v \<Rightarrow> [(k, v)])"

definition rework_event :: "run \<Rightarrow> report_routing \<Rightarrow> json \<Rightarrow> json" where
  "rework_event r routing behavior = JObj ([(''source'', JStr ''rework''), (''deciding_run_id'', jid (r_id r)),
     (''target_agent'', JStr (rt_target_agent routing)), (''task'', JStr (rt_task routing))]
     @ id_member (r_trigger r) ''failing_run_id'' @ id_member (r_trigger r) ''human_task_id''
     @ fld ''mock_scenario'' JStr (truthy (mock_scenario_of behavior)))"

definition override_reason :: "agent option \<Rightarrow> bool \<Rightarrow> rework_budget \<Rightarrow> string \<Rightarrow> string" where
  "override_reason target human_granted budget wanted =
     (let used = ''rework budget exhausted ('' @ show_int (rb_cycle_count budget) @ '' of '' @ show_int (rb_max budget) @ '')''
      in case target of
           None \<Rightarrow> ''target agent \"'' @ wanted @ ''\" is not a valid, enabled worker in this workspace''
         | Some a \<Rightarrow> if human_granted then used @ '' - the one human-granted extra cycle is already used'' else used)"

definition blank_line :: string where
  "blank_line = [CHR 0x0A, CHR 0x0A]"

definition override_details :: "string \<Rightarrow> string \<Rightarrow> string" where
  "override_details task reason = task @ blank_line @ ''Override reason: '' @ reason @ ''.''"

text \<open>
  The staged part of a routing decision: the transition, the comment, and only then the
  enqueue; a failure is recorded with its stage, tagged and rethrown.
\<close>

definition staged :: "id \<Rightarrow> string \<Rightarrow> 'a handler \<Rightarrow> 'a handler" where
  "staged i stage m = catch m (\<lambda>e. andthen (record_completion_error i stage e) (throw (e\<lparr>en_diagnosed := True\<rparr>)))"

definition execute_routing :: "env \<Rightarrow> run \<Rightarrow> id \<Rightarrow> string \<Rightarrow> agent_report \<Rightarrow> report_routing \<Rightarrow> agent \<Rightarrow> trigger_result handler" where
  "execute_routing E r tk key rep routing target =
     andthen (staged (r_id r) ''jira_transition''
       (andthen (jira_connect E (r_workspace r))
         (case truthy (a_status_running target) of None \<Rightarrow> ret ()
          | Some st \<Rightarrow> jira_transition_to E (r_workspace r) key st)))
    (andthen (staged (r_id r) ''jira_comment'' (jira_add_comment E (r_workspace r) key (Run_comment rep)))
       (staged (r_id r) ''enqueue_rework''
         (trigger E (Some tk) (a_id target) (Some (rework_event r routing (a_behavior target))))))"

definition conflict_details :: "report_routing \<Rightarrow> run \<Rightarrow> agent \<Rightarrow> string" where
  "conflict_details routing c a = rt_task routing @ blank_line @ ''Override reason: agent \"'' @ a_name a @
     ''\" already has an active run '' @ show_nat (r_id c) @ '' ('' @ status_name (r_status c) @
     '') on this ticket, so routing to \"'' @ rt_target_agent routing @ ''\" was not '' @
     ''executed and no Jira transition was made. Wait for (or cancel) the active run, then re-route or '' @
     ''handle manually.''"

definition race_details :: "report_routing \<Rightarrow> id option \<Rightarrow> agent \<Rightarrow> string" where
  "race_details routing holder target = rt_task routing @ blank_line @
     ''Override reason: while this routing decision was being executed, run '' @
     (case holder of None \<Rightarrow> ''unknown'' | Some i \<Rightarrow> show_nat i) @
     '' became active on the ticket, so the rework run for \"'' @ rt_target_agent routing @
     ''\" was NOT created. Note: the Jira transition/comment for this decision '' @
     ''had already been applied - the ticket may have been transitioned'' @
     (case truthy (a_status_running target) of None \<Rightarrow> '''' | Some st \<Rightarrow> '' to \"'' @ st @ ''\"'') @
     '' without a matching run; move it back manually if needed.''"

definition override_title :: string where
  "override_title = ''Routing overridden - another agent is active on this ticket''"

definition decide_routing :: "env \<Rightarrow> run \<Rightarrow> id \<Rightarrow> string \<Rightarrow> agent_report \<Rightarrow> report_routing \<Rightarrow> string handler" where
  "decide_routing E r tk key rep routing =
     bnd (find_existing_rework_run tk (r_id r)) (\<lambda>existing.
     if existing \<noteq> None then ret ''routed''
     else
       bnd (resolve_routing_target (r_workspace r) (rt_target_agent routing)) (\<lambda>target.
       bnd (get_rework_budget tk (r_workspace r)) (\<lambda>budget.
       let human_granted = (trigger_source (r_trigger r) = Some ''answer-triage'');
           grant_allows = (human_granted \<and> rb_cycle_count budget < rb_max budget + 1)
       in
       (case target of
          None \<Rightarrow> bnd (create_non_blocking E (r_id r) Blocker ''Routing overridden - manual attention needed''
              (Some (override_details (rt_task routing) (override_reason None human_granted budget (rt_target_agent routing)))))
              (\<lambda>_. ret ''override_invalid_target'')
        | Some g \<Rightarrow>
          if \<not> rb_available budget \<and> \<not> grant_allows
          then bnd (create_non_blocking E (r_id r) Blocker ''Routing overridden - manual attention needed''
              (Some (override_details (rt_task routing) (override_reason (Some g) human_granted budget (rt_target_agent routing)))))
              (\<lambda>_. ret ''override_budget'')
          else bnd (find_active_run_on_ticket tk (r_id r)) (\<lambda>conflict.
            case conflict of
              Some (c, ca) \<Rightarrow> bnd (create_non_blocking E (r_id r) Blocker override_title
                  (Some (conflict_details routing c ca))) (\<lambda>_. ret ''override_active_run'')
            | None \<Rightarrow>
              bnd (execute_routing E r tk key rep routing g) (\<lambda>res.
              case res of
                Triggered run \<Rightarrow> ret ''routed''
              | Deduplicated h \<Rightarrow> bnd (create_non_blocking E (r_id r) Blocker override_title
                  (Some (race_details routing h g))) (\<lambda>_.
                  ret ''override_active_run'')))))))"

definition orchestrator_invalid :: "env \<Rightarrow> run \<Rightarrow> agent \<Rightarrow> string handler" where
  "orchestrator_invalid E r a = bnd (create_non_blocking E (r_id r) Blocker
     ''Orchestrator returned an unexpected outcome - manual triage needed''
     (Some (''The orchestrator (\"'' @ a_name a @
        ''\") did not return a routing decision. Decide how to proceed manually.''))) (\<lambda>_. ret ''orchestrator_invalid'')"

definition process_orchestrator_decision :: "env \<Rightarrow> run \<Rightarrow> id \<Rightarrow> agent \<Rightarrow> string \<Rightarrow> string handler" where
  "process_orchestrator_decision E r tk a key =
     (if r_status r = Failed \<or> r_status r = Timed_out
      then bnd (create_non_blocking E (r_id r) Blocker ''Orchestrator triage run failed - manual triage needed''
             (Some (''The orchestrator (\"'' @ a_name a @ ''\") run '' @ status_name (r_status r) @
                ''. Decide how to proceed with this ticket manually.''))) (\<lambda>_. ret ''orchestrator_failed'')
      else if r_status r = Awaiting_human \<or> (case r_report r of Some rep \<Rightarrow> rp_outcome rep = Needs_human | None \<Rightarrow> False)
      then ret ''needs_human''
      else case r_report r of None \<Rightarrow> orchestrator_invalid E r a
         | Some rep \<Rightarrow> (case rp_routing rep of None \<Rightarrow> orchestrator_invalid E r a
           | Some routing \<Rightarrow> if rp_outcome rep \<noteq> Routed then orchestrator_invalid E r a
               else decide_routing E r tk key rep routing))"

definition orchestrator_marker :: "string \<Rightarrow> json" where
  "orchestrator_marker decision =
     JObj [(''orchestrator_decision'', JStr decision), (''transitioned'', JBool (decision = ''routed''))]"

definition on_orchestrator_finished :: "env \<Rightarrow> run \<Rightarrow> id \<Rightarrow> agent \<Rightarrow> string \<Rightarrow> unit handler" where
  "on_orchestrator_finished E r tk a key =
     bnd (catch (bnd (process_orchestrator_decision E r tk a key) (\<lambda>d. ret (Some d)))
            (\<lambda>e. if en_kind e = No_transition_path then ret None
                 else andthen (if en_diagnosed e then ret () else record_completion_error (r_id r) ''orchestrator_completion'' e)
                        (throw e))) (\<lambda>decision.
     case decision of None \<Rightarrow> ret ()
     | Some d \<Rightarrow> insert_event (r_id r) Ev_jira_action (orchestrator_marker d))"

section \<open>Setup completion\<close>

definition last_validation_issues :: "string option \<Rightarrow> string option" where
  "last_validation_issues err = map_option (\<lambda>e. ''Last error:'' @ [CHR 0x0A] @ e) (truthy err)"

definition setup_failed_details :: "run \<Rightarrow> agent \<Rightarrow> string" where
  "setup_failed_details r a = ''The orchestrator (\"'' @ a_name a @ ''\") setup run '' @
     (if r_status r = Failed then ''failed'' else ''timed out'') @ ''.'' @
     (case last_validation_issues (r_error r) of None \<Rightarrow> '''' | Some i \<Rightarrow> blank_line @ i) @
     blank_line @ ''Fix the problem and press \"Generate agents\" again - no agents were created.''"

definition setup_marker :: "string \<Rightarrow> nat option \<Rightarrow> json" where
  "setup_marker setup n = JObj ([(''setup'', JStr setup)] @ fld ''agents_created'' (\<lambda>k. JNum (of_nat k)) n)"

definition on_setup_finished :: "env \<Rightarrow> run \<Rightarrow> agent \<Rightarrow> unit handler" where
  "on_setup_finished E r a =
     bnd (if r_status r = Failed \<or> r_status r = Timed_out
          then bnd (create_non_blocking E (r_id r) Blocker ''Workspace setup failed - team not generated''
                 (Some (setup_failed_details r a))) (\<lambda>_. ret (''failed'', None))
          else if r_status r = Awaiting_human then ret (''needs_human'', None)
          else ret (''applied'', Some (case r_report r of None \<Rightarrow> 0
             | Some rep \<Rightarrow> if rp_outcome rep = Team then (case rp_team rep of None \<Rightarrow> 0 | Some as \<Rightarrow> length as) else 0)))
       (\<lambda>(setup, n). insert_event (r_id r) Ev_jira_action (setup_marker setup n))"

section \<open>Run completion\<close>

definition pipeline_terminal :: "run_status \<Rightarrow> bool" where
  "pipeline_terminal s \<longleftrightarrow> s \<in> {Succeeded, Failed, Timed_out, Awaiting_human}"

definition on_run_finished :: "env \<Rightarrow> id \<Rightarrow> unit handler" where
  "on_run_finished E i =
     bnd (has_jira_action_marker i) (\<lambda>marked.
     if marked then ret () else
     bnd (gets (find_run i)) (\<lambda>found.
     case found of None \<Rightarrow> ret ()
     | Some r \<Rightarrow>
       if \<not> pipeline_terminal (r_status r) then ret () else
       bnd (gets (find_agent (r_agent r))) (\<lambda>agent.
       case agent of None \<Rightarrow> ret ()
       | Some a \<Rightarrow>
         (case r_ticket r of
            None \<Rightarrow> if a_is_orchestrator a then on_setup_finished E r a else ret ()
          | Some tk \<Rightarrow>
            bnd (gets (find_ticket tk)) (\<lambda>ticket.
            case ticket of None \<Rightarrow> ret ()
            | Some t \<Rightarrow>
              if a_is_orchestrator a then on_orchestrator_finished E r tk a (t_jira_key t)
              else on_worker_finished E r tk a (t_jira_key t))))))"

section \<open>Steps\<close>

context base_relation
begin

lemma steps_budget [steps_intros]: "steps R (get_rework_budget tk ws)"
  unfolding get_rework_budget_def by (intro steps_intros)

lemma steps_pipeline_reads [steps_intros]:
  "steps R (find_enabled_orchestrator ws)" "steps R (resolve_routing_target ws k)"
  "steps R (find_existing_rework_run tk d)" "steps R (find_active_run_on_ticket tk d)"
  "steps R (has_jira_action_marker i)"
  unfolding find_enabled_orchestrator_def resolve_routing_target_def find_existing_rework_run_def
    find_active_run_on_ticket_def has_jira_action_marker_def
  by (intro steps_intros)+

lemma steps_completion_error [steps_intros]: "steps R (record_completion_error i st e)"
  unfolding record_completion_error_def by (intro steps_intros)

lemma steps_ticket_cache [steps_intros]: "steps R (clear_waiting_state tk)" "steps R (observe_links tk i st)"
  unfolding clear_waiting_state_def observe_links_def by (intro steps_intros)+

lemma steps_staged [steps_intros]: "steps R m \<Longrightarrow> steps R (staged i st m)"
  unfolding staged_def by (intro steps_intros)

lemma steps_on_run_started [steps_intros]: "steps R (on_run_started E i)"
  unfolding on_run_started_def by (intro steps_intros)

end

context insert_relation
begin

lemma steps_trigger_matching [steps_intros]: "steps R (trigger_matching E tk src rel early a)"
  unfolding trigger_matching_def by (intro steps_intros) (auto split: trigger_result.splits option.splits intro!: steps_intros)

lemma steps_on_status_changed [steps_intros]: "steps R (on_status_changed E tk i st src)"
  unfolding on_status_changed_def by (intro steps_intros)

lemma steps_decide_triage [steps_intros]: "steps R (decide_triage E i tk ws)"
  unfolding decide_triage_def by (intro steps_intros) (auto split: trigger_result.splits intro!: steps_intros)

lemma steps_release_safely [steps_intros]: "steps R (release_dependents_safely E ws k)"
  unfolding release_dependents_safely_def by (intro steps_intros)

lemma steps_on_worker_finished [steps_intros]: "steps R (on_worker_finished E r tk a k)"
  unfolding on_worker_finished_def by (intro steps_intros)

lemma steps_execute_routing [steps_intros]: "steps R (execute_routing E r tk k rep rt g)"
  unfolding execute_routing_def by (intro steps_intros)

lemma steps_decide_routing [steps_intros]: "steps R (decide_routing E r tk k rep rt)"
  unfolding decide_routing_def by (intro steps_intros) (auto split: trigger_result.splits intro!: steps_intros)

lemma steps_orchestrator_decision [steps_intros]: "steps R (process_orchestrator_decision E r tk a k)"
  unfolding process_orchestrator_decision_def orchestrator_invalid_def by (intro steps_intros)

lemma steps_on_orchestrator_finished [steps_intros]: "steps R (on_orchestrator_finished E r tk a k)"
  unfolding on_orchestrator_finished_def by (intro steps_intros)

lemma steps_on_setup_finished [steps_intros]: "steps R (on_setup_finished E r a)"
  unfolding on_setup_finished_def by (intro steps_intros)

lemma steps_on_run_finished [steps_intros]: "steps R (on_run_finished E i)"
  unfolding on_run_finished_def by (intro steps_intros)

end

section \<open>Properties\<close>

lemma appends_none: "appends (\<lambda>_. False) w w' \<Longrightarrow> w_runs w' = w_runs w"
  by (auto simp: appends_def)

text \<open>
  A blocked ticket starts nothing: when an open blocker holds the issue back, a status
  change into a trigger status adds no run and no job and calls nothing outside, and the ticket
  is remembered as waiting with every observed blocker.
\<close>

theorem blocked_ticket_waits:
  assumes "find_ticket tk w = Some t" and "find_workspace (t_workspace t) w \<noteq> None"
    and "get_dependency_release_status (t_workspace t) w = (Inr release, w)"
    and "evaluate_dependency_gate release i = Blocked"
    and "\<exists>a\<in>set (w_agents w). a_workspace a = t_workspace t \<and> a_trigger_status a = Some st \<and> a_enabled a"
  shows "\<exists>w'. on_status_changed E tk i st src w = (Inr (), w') \<and> w_runs w' = w_runs w \<and> w_jobs w' = w_jobs w \<and>
    w_jira w' = w_jira w \<and>
    (\<exists>t'. find_ticket tk w' = Some t' \<and> t_blocked_state t' = Some Waiting \<and> t_blocked_by t' = Some (all_blocked_by_keys i))"
proof -
  let ?t' = "t\<lparr>t_blocked_by := Some (all_blocked_by_keys i), t_blocked_state := Some Waiting\<rparr>"
  let ?w' = "snd (observe_links tk i (Some Waiting) w)"
  have "filter (\<lambda>a. a_workspace a = t_workspace t \<and> a_trigger_status a = Some st \<and> a_enabled a) (w_agents w) \<noteq> []"
    using assms(5) by (auto simp: filter_empty_conv)
  then have "on_status_changed E tk i st src w = (Inr (), ?w')"
    using assms(1,3,4) by (simp add: on_status_changed_def bnd_app gets_app observe_links_def update_ticket_def modify_def)
  moreover have "find_ticket tk ?w' = Some ?t'"
  proof -
    from assms(1) have id: "t_id t = tk" by (auto simp: find_ticket_def dest: find_Some_mem)
    have "find (\<lambda>u. t_id u = tk) ts = Some t \<Longrightarrow> find (\<lambda>u. t_id u = tk) (map (\<lambda>u. if t_id u = tk
        then u\<lparr>t_blocked_by := Some (all_blocked_by_keys i), t_blocked_state := Some Waiting\<rparr> else u) ts) = Some ?t'" for ts
      by (induction ts) (auto split: if_splits)
    then show ?thesis using assms(1)
      by (simp add: find_ticket_def observe_links_def update_ticket_def modify_def)
  qed
  ultimately show ?thesis by (auto simp: observe_links_def update_ticket_def modify_def)
qed

definition blocked_issue :: jira_issue where
  "blocked_issue = \<lparr>i_key = ''PRJ-1'', i_id = ''10001'', i_summary = None, i_status = ''To Do'', i_category = Cat_new,
     i_updated = '''', i_links = Some [\<lparr>il_inward = ''is blocked by'', il_inward_issue =
        Some \<lparr>li_key = ''PRJ-0'', li_status = ''In Progress'', li_category = Cat_indeterminate\<rparr>, il_outward_issue = None\<rparr>],
     i_priority = None, i_resolution = None\<rparr>"

theorem blocked_ticket_waits_witness:
  "\<exists>w'. on_status_changed sample_env 4 blocked_issue ''To Do'' Src_poller (sample_world []) = (Inr (), w') \<and> w_runs w' = []"
proof -
  have t: "find_ticket 4 (sample_world []) = Some sample_ticket"
    by (simp add: find_ticket_def sample_defs)
  have ws: "find_workspace (t_workspace sample_ticket) (sample_world []) = Some sample_workspace"
    by (simp add: find_workspace_def sample_defs)
  have st: "get_dependency_release_status (t_workspace sample_ticket) (sample_world []) = (Inr None, sample_world [])"
    by (simp add: release_status_app [OF ws]) (simp add: sample_defs)
  have gate: "evaluate_dependency_gate None blocked_issue = Blocked" by code_simp
  have "\<exists>a\<in>set (w_agents (sample_world [])). a_workspace a = t_workspace sample_ticket \<and>
      a_trigger_status a = Some ''To Do'' \<and> a_enabled a"
    by (simp add: sample_defs)
  from blocked_ticket_waits [OF t _ st gate this, of sample_env Src_poller] ws
  show ?thesis by (auto simp: sample_world_def)
qed

text \<open>
  One status change starts at most one run: however many enabled agents share the trigger
  status, the handler leaves every existing run as it was and adds at most one, on that ticket.
\<close>

theorem status_change_starts_one:
  assumes "world_ok w"
  shows "\<exists>new. w_runs (snd (on_status_changed E tk i st src w)) = w_runs w @ new \<and> length new \<le> 1 \<and>
    (\<forall>r\<in>set new. r_ticket r = Some tk \<and> r_status r = Queued)"
proof -
  let ?A = "\<lambda>r. r_ticket r = Some tk \<and> r_status r = Queued"
  let ?w' = "snd (on_status_changed E tk i st src w)"
  have "steps (appends ?A) (trigger_matching E tk src rel early a)" for rel early a
    unfolding trigger_matching_def
    by (intro steps_intros steps_trigger_appends)
       (auto simp: queued_run_def split: trigger_result.splits option.splits intro!: steps_intros)
  then have "steps (appends ?A) (on_status_changed E tk i st src)"
    unfolding on_status_changed_def by (intro steps_intros)
  from stepsD [OF this, of w] obtain new where new: "w_runs ?w' = w_runs w @ new" "\<forall>r\<in>set new. ?A r"
    by (auto simp: appends_def)
  have ok: "world_ok ?w'"
    using stepsD [OF wf.steps_on_status_changed] assms unfolding keeps_ok_def by blast
  have "length new \<le> 1"
  proof (rule ccontr)
    assume "\<not> length new \<le> 1"
    then obtain a b rest where ab: "new = a # b # rest" by (cases new rule: remdups_adj.cases) auto
    then have "r_id a \<noteq> r_id b" using ok new(1) by (auto simp: world_ok_def)
    moreover have "?A a" "?A b" using new(2) ab by auto
    ultimately have "index_clash a b" by (simp add: index_clash_def active_def)
    then show False using ok new(1) ab by (auto simp: world_ok_def one_active_def)
  qed
  with new show ?thesis by blast
qed

theorem status_change_starts_one_witness:
  "\<exists>new. w_runs (snd (on_status_changed sample_env 4 clear_issue ''To Do'' Src_poller (sample_world []))) = new \<and> length new \<le> 1"
  using status_change_starts_one [OF sample_empty_ok, of sample_env 4 clear_issue "''To Do''" Src_poller]
  by (auto simp: sample_world_def)

text \<open>How many runs an action adds, and which.\<close>

definition adds :: "(run \<Rightarrow> bool) \<Rightarrow> world \<Rightarrow> world \<Rightarrow> bool" where
  "adds A w v \<longleftrightarrow> (\<exists>new. w_runs v = w_runs w @ new \<and> length new \<le> 1 \<and> (\<forall>r\<in>set new. A r))"

definition adds_one :: "(run \<Rightarrow> bool) \<Rightarrow> 'a handler \<Rightarrow> bool" where
  "adds_one A m \<longleftrightarrow> (\<forall>w. adds A w (snd (m w)))"

lemma adds_same: "w_runs v = w_runs w \<Longrightarrow> adds A w v"
  by (simp add: adds_def)

lemma adds_cong: "w_runs w' = w_runs w \<Longrightarrow> w_runs v' = w_runs v \<Longrightarrow> adds A w v \<Longrightarrow> adds A w' v'"
  by (simp add: adds_def)

lemma same_runs_after: "steps (appends (\<lambda>_. False)) m \<Longrightarrow> m w = (res, v) \<Longrightarrow> w_runs v = w_runs w"
  by (metis appends_none steps_run)

lemma insert_queued_adds:
  assumes "\<And>i now. A (r0\<lparr>r_id := i, r_created := now\<rparr>)"
  shows "adds A w (snd (insert_queued r0 w))"
  using assms by (auto simp: adds_def insert_queued_def act_simps insert_run_def Let_def unique_violation_def mk_error_def)

lemma adds_one_trigger:
  assumes "\<And>ws ty n i now. A ((queued_run ws tk ag ty n (trigger_event_or_manual ev))\<lparr>r_id := i, r_created := now\<rparr>)"
  shows "adds_one A (trigger E tk ag ev)"
  unfolding adds_one_def
proof
  fix w
  show "adds A w (snd (trigger E tk ag ev w))"
  proof (cases "find_agent ag w")
    case None
    then show ?thesis by (simp add: trigger_def act_simps adds_same)
  next
    case a: (Some a)
    show ?thesis
    proof (cases "find_executor (a_executor a) w")
      case None
      with a show ?thesis by (simp add: trigger_def act_simps adds_same)
    next
      case (Some x)
      let ?r0 = "queued_run (a_workspace a) tk ag (x_type x) 1 (trigger_event_or_manual ev)"
      obtain res v where ins: "insert_queued ?r0 w = (res, v)" by fastforce
      have "adds A w v" using insert_queued_adds [of A ?r0 w] assms ins by simp
      moreover have "w_runs (snd (trigger E tk ag ev w)) = w_runs v"
        using a Some ins
        by (auto simp: trigger_def act_simps trigger_event_or_manual_def [symmetric] queue_add_def Let_def
            split: sum.splits trigger_result.splits option.splits)
      ultimately show ?thesis using adds_cong by blast
    qed
  qed
qed

lemma adds_one_after:
  assumes m: "steps (appends (\<lambda>_. False)) m" and k: "\<And>x. adds_one A (k x)"
  shows "adds_one A (bnd m k)"
  unfolding adds_one_def
proof
  fix w
  obtain res v where mv: "m w = (res, v)" by fastforce
  have same: "w_runs v = w_runs w" by (rule same_runs_after [OF m mv])
  show "adds A w (snd (bnd m k w))"
  proof (cases res)
    case (Inl e)
    then show ?thesis using mv same by (simp add: bnd_app adds_same)
  next
    case (Inr x)
    have "adds A v (snd (k x v))" using k by (simp add: adds_one_def)
    then show ?thesis using mv Inr same adds_cong [of w v] by (simp add: bnd_app)
  qed
qed

lemma adds_one_before:
  assumes m: "adds_one A m" and k: "\<And>x. steps (appends (\<lambda>_. False)) (k x)"
  shows "adds_one A (bnd m k)"
  unfolding adds_one_def
proof
  fix w
  obtain res v where mv: "m w = (res, v)" by fastforce
  then have v: "adds A w v" using m by (metis adds_one_def snd_conv)
  show "adds A w (snd (bnd m k w))"
  proof (cases res)
    case (Inl e)
    then show ?thesis using mv v by (simp add: bnd_app)
  next
    case (Inr x)
    have "w_runs (snd (k x v)) = w_runs v" using stepsD [OF k] by (rule appends_none)
    then show ?thesis using mv Inr v adds_cong [of w w] by (simp add: bnd_app)
  qed
qed

lemma adds_one_none: "steps (appends (\<lambda>_. False)) m \<Longrightarrow> adds_one A m"
  by (simp add: adds_one_def adds_same appends_none stepsD)

lemma adds_one_staged:
  assumes m: "adds_one A m"
  shows "adds_one A (staged i st m)"
  unfolding adds_one_def
proof
  fix w
  obtain res v where mv: "m w = (res, v)" by fastforce
  then have v: "adds A w v" using m by (metis adds_one_def snd_conv)
  moreover have "w_runs (snd (staged i st m w)) = w_runs v"
    using mv by (cases res) (simp_all add: staged_def act_simps record_completion_error_def insert_event_def)
  ultimately show "adds A w (snd (staged i st m w))" using adds_cong by blast
qed

definition reworks :: "id \<Rightarrow> id \<Rightarrow> run \<Rightarrow> bool" where
  "reworks tk deciding r \<longleftrightarrow> r_ticket r = Some tk \<and> r_status r = Queued \<and>
     trigger_source (r_trigger r) = Some ''rework'' \<and> jget (r_trigger r) ''deciding_run_id'' = Some (jid deciding)"

lemma rework_event_simps [simp]:
  "trigger_source (rework_event r rt b) = Some ''rework''"
  "jget (rework_event r rt b) ''deciding_run_id'' = Some (jid (r_id r))"
  by (simp_all add: rework_event_def)

lemma execute_routing_adds: "adds_one (reworks tk (r_id r)) (execute_routing E r tk k rep rt g)"
  unfolding execute_routing_def andthen_def
  by (intro adds_one_after adds_one_staged adds_one_trigger steps_intros)
     (auto simp: reworks_def queued_run_def trigger_event_or_manual_def)

lemma decide_routing_adds: "adds_one (reworks tk (r_id r)) (decide_routing E r tk k rep rt)"
  unfolding decide_routing_def Let_def
  by (rule adds_one_after [OF ap.steps_pipeline_reads(3)])
     (auto split: option.splits prod.splits trigger_result.splits
       intro!: adds_one_none [OF ap.steps_ret] adds_one_after [OF ap.steps_pipeline_reads(2)] adds_one_after [OF ap.steps_budget]
         adds_one_after [OF ap.steps_create_non_blocking] adds_one_after [OF ap.steps_pipeline_reads(4)]
         adds_one_before [OF execute_routing_adds] ap.steps_ret ap.steps_bnd ap.steps_create_non_blocking)

definition rework_max_of :: "workspace \<Rightarrow> int" where
  "rework_max_of s = (case st_rework_max (s_settings s) of None \<Rightarrow> DEFAULT_REWORK_MAX | Some n \<Rightarrow> n)"

definition cycle_bound :: "workspace \<Rightarrow> run \<Rightarrow> int" where
  "cycle_bound s r = rework_max_of s + (if trigger_source (r_trigger r) = Some ''answer-triage'' then 1 else 0)"

lemma budget_app:
  "find_workspace ws w = Some s \<Longrightarrow> get_rework_budget tk ws w =
    (Inr \<lparr>rb_cycle_count = rework_count tk w, rb_max = rework_max_of s, rb_available = (rework_count tk w < rework_max_of s)\<rparr>, w)"
  by (simp add: get_rework_budget_def get_rework_max_def get_settings_def act_simps rework_max_of_def)

lemma resolve_target_app: "resolve_routing_target ws key w =
    (Inr (find (\<lambda>a. a_workspace a = ws \<and> a_key a = key \<and> a_enabled a \<and> \<not> a_is_orchestrator a) (w_agents w)), w)"
  by (simp add: resolve_routing_target_def act_simps)

lemma find_existing_app:
  "find_existing_rework_run tk d w = (Inr (find (decided_by tk d) (w_runs w)), w)"
  by (simp add: find_existing_rework_run_def act_simps)

lemma non_blocking_runs: "w_runs (snd (bnd (create_non_blocking E i k t d) (\<lambda>_. ret x) w)) = w_runs w"
  by (rule appends_none, rule stepsD) (intro steps_intros)

lemma rework_count_append: "w_runs v = w_runs w @ new \<Longrightarrow> rework_count tk v \<le> rework_count tk w + int (length new)"
  by (simp add: rework_count_def)

text \<open>No permission, no run: an exhausted budget (or a target that is no worker) leaves the runs alone.\<close>

lemma decide_routing_denied:
  assumes "find_workspace (r_workspace r) w = Some s" and "cycle_bound s r \<le> rework_count tk w"
  shows "w_runs (snd (decide_routing E r tk k rep rt w)) = w_runs w"
proof (cases "find (decided_by tk (r_id r)) (w_runs w)")
  case (Some x)
  then show ?thesis by (simp add: decide_routing_def bnd_app find_existing_app ret_app)
next
  case None
  then show ?thesis
    using assms
    by (auto simp: decide_routing_def bnd_app [of "find_existing_rework_run _ _"] find_existing_app
        bnd_app [of "resolve_routing_target _ _"] resolve_target_app
        bnd_app [of "get_rework_budget _ _"] budget_app Let_def cycle_bound_def non_blocking_runs
        split: option.split if_splits)
qed

text \<open>
  C6. The rework loop is bounded and a decision is executed once. Executing an orchestrator's
  routing decision adds at most one run, a rework run carrying the decision's id; if one was
  ever minted for this decision, in whatever status it is now, nothing at all changes; and the
  rework runs of the ticket never exceed the workspace's budget, plus one when the decision
  came from a person's answer.
\<close>

theorem routing_is_bounded:
  assumes "find_workspace (r_workspace r) w = Some s" and "decide_routing E r tk key rep routing w = (res, w')"
  shows "(\<exists>new. w_runs w' = w_runs w @ new \<and> length new \<le> 1 \<and> (\<forall>n\<in>set new. reworks tk (r_id r) n)) \<and>
    ((\<exists>r'\<in>set (w_runs w). decided_by tk (r_id r) r') \<longrightarrow> res = Inr ''routed'' \<and> w' = w) \<and>
    rework_count tk w' \<le> max (rework_count tk w) (cycle_bound s r)"
proof (intro conjI impI)
  have "adds (reworks tk (r_id r)) w w'"
    using decide_routing_adds [of tk r E key rep routing] assms(2) by (metis adds_one_def snd_conv)
  then obtain new where new: "w_runs w' = w_runs w @ new" "length new \<le> 1" "\<forall>n\<in>set new. reworks tk (r_id r) n"
    by (auto simp: adds_def)
  then show "\<exists>new. w_runs w' = w_runs w @ new \<and> length new \<le> 1 \<and> (\<forall>n\<in>set new. reworks tk (r_id r) n)" by blast
  show "rework_count tk w' \<le> max (rework_count tk w) (cycle_bound s r)"
  proof (cases "cycle_bound s r \<le> rework_count tk w")
    case True
    then have "w_runs w' = w_runs w" using decide_routing_denied [OF assms(1) True] assms(2) by (metis snd_conv)
    then show ?thesis by (simp add: rework_count_def)
  next
    case False
    then show ?thesis using rework_count_append [OF new(1), of tk] new(2) by linarith
  qed
next
  assume ex: "\<exists>r'\<in>set (w_runs w). decided_by tk (r_id r) r'"
  then obtain x where "find (decided_by tk (r_id r)) (w_runs w) = Some x"
    using find_None_mem [of "decided_by tk (r_id r)" "w_runs w"] by (cases "find (decided_by tk (r_id r)) (w_runs w)") auto
  then show "res = Inr ''routed''" "w' = w"
    using assms(2) by (simp_all add: decide_routing_def bnd_app find_existing_app ret_app)
qed

definition routed_report :: agent_report where
  "routed_report = sample_report\<lparr>rp_outcome := Routed, rp_routing := Some \<lparr>rt_target_agent = ''dev'', rt_task = ''fix it''\<rparr>\<rparr>"

theorem routing_is_bounded_witness:
  "\<exists>res w'. decide_routing sample_env (sample_run 7 (Some 4) Succeeded) 4 ''PRJ-1'' routed_report
       \<lparr>rt_target_agent = ''dev'', rt_task = ''fix it''\<rparr> (sample_world [sample_run 7 (Some 4) Succeeded]) = (res, w') \<and>
     rework_count 4 w' \<le> 2"
proof -
  let ?r = "sample_run 7 (Some 4) Succeeded" and ?w = "sample_world [sample_run 7 (Some 4) Succeeded]"
  let ?rt = "\<lparr>rt_target_agent = ''dev'', rt_task = ''fix it''\<rparr>"
  have ws: "find_workspace (r_workspace ?r) ?w = Some sample_workspace"
    by (simp add: find_workspace_def sample_defs)
  obtain res w' where run: "decide_routing sample_env ?r 4 ''PRJ-1'' routed_report ?rt ?w = (res, w')" by fastforce
  have "cycle_bound sample_workspace ?r = 2"
    by (simp add: cycle_bound_def rework_max_of_def DEFAULT_REWORK_MAX_def sample_defs)
  moreover have "rework_count 4 ?w = 0" by (simp add: rework_count_def is_rework_on_def sample_defs)
  ultimately show ?thesis using routing_is_bounded [OF ws run] run by auto
qed

section \<open>Order of the routing effects\<close>

lemma answer_app: "answer c a w = (a, w\<lparr>w_jira := w_jira w @ [(c, case a of Inl e \<Rightarrow> False | Inr x \<Rightarrow> True)]\<rparr>)"
  by (simp add: answer_def)

text \<open>
  Jira comes before the enqueue: if executing a routing decision adds a run, then the
  connection, the transition to the target's running status (when it has one) and the routing
  comment were all accepted before, in this order; so a failing board leaves nothing enqueued
  that a replay would enqueue again.
\<close>

theorem routing_writes_board_first:
  assumes "execute_routing E r tk key rep routing g w = (res, w')" and "w_runs w' \<noteq> w_runs w"
  shows "\<exists>later. w_jira w' = w_jira w @ [(J_connect (r_workspace r), True)] @
    (case truthy (a_status_running g) of None \<Rightarrow> [] | Some st \<Rightarrow> [(J_transition (r_workspace r) key st, True)]) @
    [(J_comment (r_workspace r) key (Run_comment rep), True)] @ later"
proof -
  define T where "T = staged (r_id r) ''enqueue_rework''
      (trigger E (Some tk) (a_id g) (Some (rework_event r routing (a_behavior g))))"
  have "steps history T" unfolding T_def by (rule hist.steps_staged) (rule hist.steps_trigger)
  then have later: "\<exists>cs. w_jira v' = w_jira v @ cs" if "T v = (x, v')" for v x v'
    using steps_run [of history T v x v'] that by (auto simp: history_def)
  show ?thesis
  proof (cases "truthy (a_status_running g)")
    case None
    then show ?thesis
      using assms unfolding execute_routing_def T_def [symmetric]
      by (auto simp: staged_def act_simps jira_connect_def jira_add_comment_def
          answer_app done_or_def record_completion_error_def insert_event_def
          split: option.splits dest!: later)
  next
    case (Some st)
    then show ?thesis
      using assms unfolding execute_routing_def T_def [symmetric]
      by (auto simp: staged_def act_simps jira_connect_def jira_transition_to_def jira_add_comment_def
          answer_app done_or_def record_completion_error_def insert_event_def
          split: option.splits dest!: later)
  qed
qed

theorem routing_writes_board_first_witness:
  "\<exists>res w' later. execute_routing sample_env (sample_run 7 (Some 4) Succeeded) 4 ''PRJ-1'' routed_report
       \<lparr>rt_target_agent = ''dev'', rt_task = ''fix it''\<rparr> sample_agent (sample_world []) = (res, w') \<and>
     w_jira w' = [(J_connect 1, True), (J_transition 1 ''PRJ-1'' ''In Progress'', True),
       (J_comment 1 ''PRJ-1'' (Run_comment routed_report), True)] @ later"
proof -
  let ?rt = "\<lparr>rt_target_agent = ''dev'', rt_task = ''fix it''\<rparr>"
  obtain res w' where run: "execute_routing sample_env (sample_run 7 (Some 4) Succeeded) 4 ''PRJ-1'' routed_report
      ?rt sample_agent (sample_world []) = (res, w')" by fastforce
  have "length (w_runs (snd (execute_routing sample_env (sample_run 7 (Some 4) Succeeded) 4 ''PRJ-1'' routed_report
      ?rt sample_agent (sample_world [])))) = 1"
    by code_simp
  then have "w_runs w' \<noteq> w_runs (sample_world [])" using run by (auto simp: sample_world_def)
  from routing_writes_board_first [OF run this] run show ?thesis
    by (auto simp: sample_defs truthy_def)
qed

section \<open>Triage\<close>

lemma find_orchestrator_app: "find_enabled_orchestrator ws w =
    (Inr (find (\<lambda>a. a_workspace a = ws \<and> a_is_orchestrator a \<and> a_enabled a) (w_agents w)), w)"
  by (simp add: find_enabled_orchestrator_def act_simps)

text \<open>
  The triage decision on a failed worker run, on every branch: with the rework budget used
  up no run is added and the answer is \<open>cycle_limit\<close>; without an enabled orchestrator nothing
  changes; with one, nothing changes while another run is active on the ticket, and otherwise
  exactly one run of the orchestrator is queued, carrying the id of the failed run.
\<close>

theorem triage_decision:
  assumes "world_ok w" and "find_workspace ws w = Some s" and "decide_triage E failing tk ws w = (Inr d, w')"
    and "\<forall>a x. find (\<lambda>a. a_workspace a = ws \<and> a_is_orchestrator a \<and> a_enabled a) (w_agents w) = Some a \<longrightarrow>
       find_agent (a_id a) w = Some a \<and> find_executor (a_executor a) w \<noteq> None"
  shows "(rework_max_of s \<le> rework_count tk w \<and> d = ''cycle_limit'' \<and> w_runs w' = w_runs w \<and> w_jobs w' = w_jobs w) \<or>
    (rework_count tk w < rework_max_of s \<and>
      (d = ''no_orchestrator'' \<and> w' = w \<and> \<not> (\<exists>a\<in>set (w_agents w). a_workspace a = ws \<and> a_is_orchestrator a \<and> a_enabled a) \<or>
       (\<exists>a\<in>set (w_agents w). a_workspace a = ws \<and> a_is_orchestrator a \<and> a_enabled a \<and>
         (d = ''triage_deduplicated'' \<and> w' = w \<and> (\<exists>r\<in>set (w_runs w). r_ticket r = Some tk \<and> active (r_status r)) \<or>
          d = ''triaged'' \<and> (\<exists>r j. w_runs w' = w_runs w @ [r] \<and> w_jobs w' = w_jobs w @ [j] \<and> j_run j = r_id r \<and>
            r_ticket r = Some tk \<and> r_agent r = a_id a \<and> r_status r = Queued \<and>
            jget (r_trigger r) ''failing_run_id'' = Some (jid failing))))))"
proof (cases "rework_count tk w < rework_max_of s")
  case False
  let ?m = "bnd (create_non_blocking E failing Blocker ''Rework budget exhausted - manual attention needed''
      (Some (budget_details (rework_max_of s)))) (\<lambda>_. ret ''cycle_limit'')"
  have eq: "decide_triage E failing tk ws w = ?m w"
    using False by (simp add: decide_triage_def bnd_app [of "get_rework_budget _ _"] budget_app [OF assms(2)])
  have "w_runs w' = w_runs w" using non_blocking_runs assms(3) eq by (metis snd_conv)
  moreover have "w_jobs w' = w_jobs w"
    using assms(3) eq by (auto simp: create_non_blocking_def create_from_request_def act_simps insert_event_def insert_task_def
        split: option.splits)
  moreover have "d = ''cycle_limit''"
    using assms(3) eq by (auto simp: bnd_app ret_app split: prod.splits sum.splits)
  ultimately show ?thesis using False by simp
next
  case True
  let ?o = "find (\<lambda>a. a_workspace a = ws \<and> a_is_orchestrator a \<and> a_enabled a) (w_agents w)"
  show ?thesis
  proof (cases ?o)
    case None
    then have "d = ''no_orchestrator'' \<and> w' = w"
      using True assms(2,3) by (auto simp: decide_triage_def act_simps budget_app find_orchestrator_app)
    moreover have "\<not> (\<exists>a\<in>set (w_agents w). a_workspace a = ws \<and> a_is_orchestrator a \<and> a_enabled a)"
      using None by (auto simp: find_None_iff)
    ultimately show ?thesis using True by blast
  next
    case (Some a)
    then have a: "a \<in> set (w_agents w)" "a_workspace a = ws" "a_is_orchestrator a" "a_enabled a"
      using find_Some_mem [OF Some] by auto
    from assms(4) Some obtain x where ax: "find_agent (a_id a) w = Some a" "find_executor (a_executor a) w = Some x" by auto
    let ?ev = "triage_event failing (a_behavior a)"
    have ev: "jget ?ev ''failing_run_id'' = Some (jid failing)" by (simp add: triage_event_def)
    have eq: "decide_triage E failing tk ws w =
        bnd (trigger E (Some tk) (a_id a) (Some ?ev))
          (\<lambda>res. case res of Deduplicated h \<Rightarrow> ret ''triage_deduplicated'' | Triggered run \<Rightarrow> ret ''triaged'') w"
      using True assms(2) Some by (simp add: decide_triage_def bnd_app budget_app find_orchestrator_app)
    show ?thesis
    proof (cases "find (slot_holder (Some tk) (a_workspace a)) (w_runs w)")
      case (Some h)
      then have "h \<in> set (w_runs w)" "r_ticket h = Some tk" "active (r_status h)"
        using find_Some_mem [OF Some] by (auto simp: slot_holder_def)
      moreover have "d = ''triage_deduplicated'' \<and> w' = w"
        using assms(3) eq trigger_app [OF assms(1) ax, of E "Some tk" "Some ?ev"] Some by (simp add: bnd_app ret_app)
      ultimately show ?thesis using True a by blast
    next
      case None
      let ?r = "(queued_run (a_workspace a) (Some tk) (a_id a) (x_type x) 1 ?ev)\<lparr>r_id := w_next w, r_created := w_now w\<rparr>"
      have "d = ''triaged'' \<and> w_runs w' = w_runs w @ [?r] \<and> w_jobs w' = w_jobs w @ [run_job a x (w_next w) (Some tk) (Some ?ev)]"
        using assms(3) eq trigger_app [OF assms(1) ax, of E "Some tk" "Some ?ev"] None
        by (auto simp: bnd_app ret_app Let_def trigger_event_or_manual_def split: option.splits)
      moreover have "r_ticket ?r = Some tk" "r_agent ?r = a_id a" "r_status ?r = Queued" "r_id ?r = w_next w"
        "jget (r_trigger ?r) ''failing_run_id'' = Some (jid failing)"
        using ev by (simp_all add: queued_run_def)
      moreover have "j_run (run_job a x (w_next w) (Some tk) (Some ?ev)) = w_next w" by (simp add: run_job_def)
      ultimately show ?thesis using True a by metis
    qed
  qed
qed

definition sample_orchestrator :: agent where
  "sample_orchestrator = sample_agent\<lparr>a_id := 5, a_key := ''brigadir'', a_is_orchestrator := True,
     a_trigger_status := None, a_status_running := None\<rparr>"

definition triage_world :: "run list \<Rightarrow> world" where
  "triage_world rs = (sample_world rs)\<lparr>w_agents := [sample_agent, sample_orchestrator]\<rparr>"

lemma triage_world_ok: "world_ok (sample_world rs) \<Longrightarrow> world_ok (triage_world rs)"
  by (simp add: world_ok_def triage_world_def sample_orchestrator_def agent_handle_def sample_defs)

theorem triage_decision_witness:
  "\<exists>w' (r :: run) j. decide_triage sample_env 7 4 1 (triage_world [sample_run 7 (Some 4) Failed]) = (Inr ''triaged'', w') \<and>
     w_jobs w' = [j] \<and> j_run j = r_id r \<and> r_agent r = 5"
proof -
  let ?w = "triage_world [sample_run 7 (Some 4) Failed]"
  obtain d w' where run: "decide_triage sample_env 7 4 1 ?w = (d, w')" by fastforce
  have "fst (decide_triage sample_env 7 4 1 ?w) = Inr ''triaged''" by code_simp
  then have d: "d = Inr ''triaged''" using run by simp
  have ws: "find_workspace 1 ?w = Some sample_workspace"
    by (simp add: find_workspace_def triage_world_def sample_defs)
  have orch: "\<forall>a x. find (\<lambda>a. a_workspace a = 1 \<and> a_is_orchestrator a \<and> a_enabled a) (w_agents ?w) = Some a \<longrightarrow>
      find_agent (a_id a) ?w = Some a \<and> find_executor (a_executor a) ?w \<noteq> None"
    by (simp add: triage_world_def sample_orchestrator_def find_agent_def find_executor_def sample_defs)
  have ok: "world_ok ?w" by (rule triage_world_ok, rule sample_single_ok) simp
  from triage_decision [OF ok ws run [unfolded d] orch]
  obtain a r j where "a \<in> set (w_agents ?w)" "a_is_orchestrator a" "w_jobs w' = w_jobs ?w @ [j]"
    "j_run j = r_id (r :: run)" "r_agent r = a_id a" by auto
  moreover from this(1,2) have "a_id a = 5"
    by (auto simp: triage_world_def sample_orchestrator_def sample_agent_def)
  moreover have "w_jobs ?w = []" by (simp add: triage_world_def sample_world_def)
  ultimately show ?thesis using run d by (intro exI [of _ w'] exI [of _ r] exI [of _ j]) simp
qed

text \<open>
  C7. Completing a successful worker run moves its ticket once: with the board answering, the
  first call transitions the ticket to the agent's success status, posts the report and leaves
  the marker behind - in this order, whatever the release of dependents then does - and any
  later call finds the marker and does nothing at all.
\<close>

theorem worker_success_completed_once:
  assumes "\<forall>e\<in>set (w_events w). \<not> (e_run e = i \<and> e_type e = Ev_jira_action)"
    and "find_run i w = Some r" and "r_status r = Succeeded" and "r_report r = Some rep" and "rp_outcome rep \<noteq> Routed"
    and "r_ticket r = Some tk" and "find_agent (r_agent r) w = Some a" and "\<not> a_is_orchestrator a"
    and "find_ticket tk w = Some t"
    and "\<forall>h ws k st c. env_connect E h ws = None \<and> env_transition E h ws k st = None \<and> env_comment E h ws k c = None"
  shows "\<exists>w' later. on_run_finished E i w = (Inr (), w') \<and>
    w_jira w' = w_jira w @ [(J_connect (r_workspace r), True),
      (J_transition (r_workspace r) (t_jira_key t) (a_status_success a), True),
      (J_comment (r_workspace r) (t_jira_key t) (Run_comment rep), True)] @ later \<and>
    on_run_finished E i w' = (Inr (), w')"
proof -
  have id: "r_id r = i" using assms(2) find_run_Some by blast
  let ?ws = "r_workspace r"
  let ?mark = "\<lparr>e_run = i, e_type = Ev_jira_action, e_payload = worker_marker (a_status_success a) None, e_created = w_now w\<rparr>"
  let ?calls = "[(J_connect ?ws, True), (J_transition ?ws (t_jira_key t) (a_status_success a), True),
      (J_comment ?ws (t_jira_key t) (Run_comment rep), True)]"
  let ?v = "w\<lparr>w_jira := w_jira w @ ?calls, w_events := w_events w @ [?mark]\<rparr>"
  obtain res w' where rel: "release_dependents_safely E ?ws (t_jira_key t) ?v = (res, w')" by fastforce
  have res: "res = Inr ()"
    using rel by (auto simp: release_dependents_safely_def catch_app ret_app split: sum.splits prod.splits)
  have "history ?v w'" by (rule steps_run [OF hist.steps_release_safely rel])
  then obtain es cs where later: "w_events w' = w_events ?v @ es" "w_jira w' = w_jira ?v @ cs"
    by (auto simp: history_def)
  have mark: "(\<exists>e\<in>set (w_events w). e_run e = i \<and> e_type e = Ev_jira_action) = False" using assms(1) by blast
  have "on_run_finished E i w = (Inr (), w')"
    using assms(2-10) id mark rel res
    by (simp add: on_run_finished_def has_jira_action_marker_def on_worker_finished_def pipeline_terminal_def act_simps
        jira_connect_def jira_transition_to_def jira_add_comment_def answer_app done_or_def insert_event_def Let_def) blast
  moreover have "on_run_finished E i w' = (Inr (), w')"
    using later(1) by (simp add: on_run_finished_def has_jira_action_marker_def act_simps)
  ultimately show ?thesis using later(2) by auto
qed

theorem worker_success_completed_once_witness:
  "\<exists>w'. on_run_finished sample_env 7
       (sample_world [(sample_run 7 (Some 4) Succeeded)\<lparr>r_report := Some sample_report\<rparr>]) = (Inr (), w') \<and>
     (J_transition 1 ''PRJ-1'' ''Review'', True) \<in> set (w_jira w')"
proof -
  let ?r = "(sample_run 7 (Some 4) Succeeded)\<lparr>r_report := Some sample_report\<rparr>"
  let ?w = "sample_world [?r]"
  have "find_run 7 ?w = Some ?r" "find_agent (r_agent ?r) ?w = Some sample_agent" "find_ticket 4 ?w = Some sample_ticket"
    by (simp_all add: find_run_def find_agent_def find_ticket_def sample_defs)
  from worker_success_completed_once [OF _ this(1) _ _ _ _ this(2) _ this(3), of sample_report sample_env]
  show ?thesis by (auto simp: sample_report_def sample_defs)
qed

section \<open>A rescued run the board never hears of\<close>

text \<open>
  When a failed run was completed on the board before its durable report arrived, the
  rescue changes the run to succeeded but the marker of the failed completion stands: the
  completion that follows does nothing, so the ticket keeps the failure status and comment.
\<close>

theorem rescue_after_completion_is_silent:
  assumes "world_ok w" and "r \<in> set (w_runs w)" and "r_id r = i" and "r_status r = Failed" and "r_outcome r = None"
    and "report_schema raw = Some rep" and "rp_outcome rep = Success"
    and "e \<in> set (w_events w)" and "e_run e = i" and "e_type e = Ev_jira_action"
  shows "\<exists>w' r'. reconcile_with_report i raw fx w = (Inr True, w') \<and> find_run i w' = Some r' \<and>
    r_status r' = Succeeded \<and> on_run_finished E i w' = (Inr (), w') \<and> w_jira w' = w_jira w"
proof -
  let ?upd = "\<lambda>now r. with_report rep fx (r\<lparr>r_status := report_terminal_status rep, r_finished := Some now\<rparr>)"
  let ?r' = "?upd (w_now w) r"
  let ?w1 = "w\<lparr>w_runs := map (\<lambda>s. if r_id s = i then ?r' else s) (w_runs w)\<rparr>"
  let ?w2 = "?w1\<lparr>w_checks := w_checks w @ check_rows i rep\<rparr>"
  have st: "report_terminal_status rep = Succeeded" using assms(7) by (simp add: report_terminal_status_def)
  have "update_run (r_id r) (\<lambda>r. active (r_status r) \<or> (r_status r = Failed \<or> r_status r = Timed_out) \<and> r_outcome r = None)
      ?upd w = (Inr True, w\<lparr>w_runs := map (\<lambda>s. if r_id s = r_id r then ?r' else s) (w_runs w)\<rparr>)"
    by (rule update_run_hit) (use assms st in \<open>auto simp: same_run_def active_def\<close>)
  then have "reconcile_with_report i raw fx w = (Inr True, ?w2)"
    using assms(3,6,7) by (auto simp: reconcile_with_report_def parse_report_def act_simps apply_report_effects_def
        write_checks_app split: option.split)
  moreover have "find_run i ?w2 = Some ?r'"
    using find_run_updated [OF assms(2), of ?r' ?w2] assms(3) by simp
  moreover have "on_run_finished E i ?w2 = (Inr (), ?w2)"
    using assms(8-10) by (auto simp: on_run_finished_def has_jira_action_marker_def act_simps)
  ultimately show ?thesis using st by (intro exI [of _ ?w2] exI [of _ ?r']) simp
qed

theorem rescue_after_completion_is_silent_witness:
  "\<exists>w' r'. reconcile_with_report 7 (report_json sample_report) no_extra
       ((sample_world [sample_run 7 (Some 4) Failed])\<lparr>w_events := [\<lparr>e_run = 7, e_type = Ev_jira_action, e_payload = JNull, e_created = 900\<rparr>]\<rparr>)
     = (Inr True, w') \<and> find_run 7 w' = Some r' \<and> r_status r' = Succeeded \<and> w_jira w' = []"
proof -
  let ?e = "\<lparr>e_run = 7, e_type = Ev_jira_action, e_payload = JNull, e_created = 900\<rparr>"
  let ?w = "(sample_world [sample_run 7 (Some 4) Failed])\<lparr>w_events := [?e]\<rparr>"
  have "world_ok ?w" using sample_single_ok [of 7 "Some 4" Failed] by (simp add: world_ok_def)
  from rescue_after_completion_is_silent [OF this _ _ _ _ sample_report_parses, of "sample_run 7 (Some 4) Failed" 7 ?e no_extra sample_env]
  show ?thesis by (auto simp: sample_report_def sample_defs)
qed

end
