(* ===== verification/Ingest.thy ===== *)
theory Ingest
  imports Pipeline JsValues
begin

text \<open>
  The reconcile pass (\<open>libs/ingest/src\<close>): the watchdog that reaps runs that hang, the poller
  that diffs the board against the ticket cache, the drift repair of pending Jira writes, and
  the pass that strings them together with its two layers of error isolation.
\<close>

section \<open>Watchdog\<close>

definition DEFAULT_GRACE_MINUTES :: rat where
  "DEFAULT_GRACE_MINUTES = 5"

definition DEFAULT_QUEUED_SWEEP_MINUTES :: rat where
  "DEFAULT_QUEUED_SWEEP_MINUTES = 720"

text \<open>The minutes and whether the setting was malformed.\<close>

definition resolve_minutes_setting :: "string option \<Rightarrow> rat \<Rightarrow> rat \<times> bool" where
  "resolve_minutes_setting raw fallback =
     (case raw of None \<Rightarrow> (fallback, False)
      | Some s \<Rightarrow>
          (let trimmed = js_trim s; parsed = (if trimmed = [] then None else js_number trimmed)
           in case parsed of None \<Rightarrow> (fallback, True)
              | Some q \<Rightarrow> if q < 0 then (fallback, True) else (q, False)))"

text \<open>\<open>process.env\<close>.\<close>

type_synonym vars = "string \<Rightarrow> string option"

definition resolve_setting :: "vars \<Rightarrow> string \<Rightarrow> rat \<Rightarrow> rat" where
  "resolve_setting V k fallback = fst (resolve_minutes_setting (V k) fallback)"

definition grace_minutes :: "vars \<Rightarrow> rat" where
  "grace_minutes V = resolve_setting V ''WATCHDOG_GRACE_MINUTES'' DEFAULT_GRACE_MINUTES"

definition queued_minutes :: "vars \<Rightarrow> rat" where
  "queued_minutes V = resolve_setting V ''WATCHDOG_QUEUED_SWEEP_MINUTES'' DEFAULT_QUEUED_SWEEP_MINUTES"

definition minutes_ms :: "rat \<Rightarrow> rat" where
  "minutes_ms q = q * 60000"

text \<open>\<open>settings->>'enabled' is distinct from 'false'\<close>.\<close>

definition ws_enabled :: "workspace \<Rightarrow> bool" where
  "ws_enabled s \<longleftrightarrow> st_enabled (s_settings s) \<noteq> Some False"

definition enabled_workspace_ids :: "id list handler" where
  "enabled_workspace_ids = gets (\<lambda>w. map s_id (filter ws_enabled (w_workspaces w)))"

definition in_scope :: "id option \<Rightarrow> run \<Rightarrow> bool" where
  "in_scope ws r \<longleftrightarrow> (case ws of None \<Rightarrow> True | Some i \<Rightarrow> r_workspace r = i)"

definition stale_running :: "rat \<Rightarrow> int \<Rightarrow> agent \<Rightarrow> run \<Rightarrow> bool" where
  "stale_running grace now a r \<longleftrightarrow> r_status r = Running \<and>
     (case r_started r of None \<Rightarrow> False
      | Some t \<Rightarrow> of_int t < of_int now - minutes_ms (of_int (a_timeout_minutes a) + grace))"

definition stale_queued :: "rat \<Rightarrow> int \<Rightarrow> run \<Rightarrow> bool" where
  "stale_queued after now r \<longleftrightarrow> r_status r = Queued \<and> r_started r = None \<and>
     of_int (r_created r) < of_int now - minutes_ms after"

definition started_or_zero :: "run \<Rightarrow> int" where
  "started_or_zero r = (case r_started r of None \<Rightarrow> 0 | Some t \<Rightarrow> t)"

definition select_stale_running :: "id option \<Rightarrow> rat \<Rightarrow> (run \<times> int) list handler" where
  "select_stale_running ws grace = gets (\<lambda>w.
     map (\<lambda>r. (r, case find_agent (r_agent r) w of None \<Rightarrow> 0 | Some a \<Rightarrow> a_timeout_minutes a))
       (sort_key started_or_zero (filter (\<lambda>r. in_scope ws r \<and>
          (case find_agent (r_agent r) w of None \<Rightarrow> False | Some a \<Rightarrow> stale_running grace (w_now w) a r)) (w_runs w))))"

definition select_stale_queued :: "id option \<Rightarrow> rat \<Rightarrow> run list handler" where
  "select_stale_queued ws after = gets (\<lambda>w.
     sort_key r_created (filter (\<lambda>r. in_scope ws r \<and> stale_queued after (w_now w) r) (w_runs w)))"

definition watchdog_event :: "string \<Rightarrow> json" where
  "watchdog_event msg = JObj [(''source'', JStr ''watchdog''), (''message'', JStr msg)]"

definition finalize_stale :: "env \<Rightarrow> id \<Rightarrow> bool \<Rightarrow> run_status \<Rightarrow> string \<Rightarrow> string \<Rightarrow> unit handler" where
  "finalize_stale E i ws_on status err msg =
     catch (bnd (finalize_status i status (no_extra\<lparr>fx_error := Some err\<rparr>)) (\<lambda>finalized.
            if \<not> finalized then ret ()
            else andthen (catch (insert_event i Ev_log (watchdog_event msg)) (\<lambda>e. ret ()))
                   (if ws_on then on_run_finished E i else ret ())))
       (\<lambda>e. ret ())"

definition timeout_text :: "int \<Rightarrow> rat \<Rightarrow> string" where
  "timeout_text timeout grace = ''exceeded timeout ('' @ show_int timeout @ ''m) + grace ('' @ show_num grace @ ''m)''"

definition queued_text :: "rat \<Rightarrow> string" where
  "queued_text after = ''stuck in queued for over '' @ show_num after @ ''m (job lost or never consumed)''"

definition sweep_scoped :: "vars \<Rightarrow> env \<Rightarrow> id option \<Rightarrow> unit handler" where
  "sweep_scoped V E ws =
     (let grace = grace_minutes V; after = queued_minutes V in
      bnd enabled_workspace_ids (\<lambda>on.
      bnd (select_stale_running ws grace) (\<lambda>stale.
      andthen (for_each stale (\<lambda>(r, timeout).
                finalize_stale E (r_id r) (r_workspace r \<in> set on) Timed_out
                  (''watchdog: '' @ timeout_text timeout grace)
                  (''watchdog: run '' @ timeout_text timeout grace @ '' - force-finalized as timed_out'')))
        (bnd (select_stale_queued ws after) (\<lambda>queued.
         for_each queued (\<lambda>r.
           finalize_stale E (r_id r) (r_workspace r \<in> set on) Failed
             (''watchdog: '' @ queued_text after)
             (''watchdog: run '' @ queued_text after @ '' - finalized as failed'')))))))"

definition sweep_all :: "vars \<Rightarrow> env \<Rightarrow> unit handler" where
  "sweep_all V E = sweep_scoped V E None"

section \<open>Drift repair\<close>

definition owes_jira_write :: "id \<Rightarrow> world \<Rightarrow> run \<Rightarrow> bool" where
  "owes_jira_write ws w r \<longleftrightarrow> r_workspace r = ws \<and> pipeline_terminal (r_status r) \<and>
     \<not> (\<exists>e\<in>set (w_events w). e_run e = r_id r \<and> e_type e = Ev_jira_action)"

definition repair :: "env \<Rightarrow> id \<Rightarrow> unit handler" where
  "repair E ws =
     bnd (gets (\<lambda>w. sort_key r_created (filter (owes_jira_write ws w) (w_runs w)))) (\<lambda>pending.
     for_each pending (\<lambda>r. catch (on_run_finished E (r_id r)) (\<lambda>e. ret ())))"

section \<open>Reconcile state\<close>

text \<open>\<open>toUtcIso\<close>: throws on an unparseable timestamp.\<close>

definition to_utc_iso :: "string \<Rightarrow> string handler" where
  "to_utc_iso v = (case parse_date v of
     None \<Rightarrow> throw (mk_error Other_failure ''setReconcileState: high_water_mark is not a parseable timestamp'')
   | Some t \<Rightarrow> ret (to_iso_string t))"

definition sprint_ids_of :: "ws_settings \<Rightarrow> int list option" where
  "sprint_ids_of st = (case st_active_sprint_ids st of Some ids \<Rightarrow> Some ids
     | None \<Rightarrow> map_option (\<lambda>i. [i]) (st_active_sprint_id st))"

definition get_reconcile_state :: "id \<Rightarrow> (string option \<times> int list option) handler" where
  "get_reconcile_state ws = bnd (get_settings ws) (\<lambda>st. ret (st_high_water_mark st, sprint_ids_of st))"

definition set_reconcile_state :: "id \<Rightarrow> string option \<Rightarrow> int list option \<Rightarrow> unit handler" where
  "set_reconcile_state ws hwm ids =
     bnd (get_settings ws) (\<lambda>cur.
     bnd (case truthy hwm of Some v \<Rightarrow> bnd (to_utc_iso v) (\<lambda>s. ret (Some s)) | None \<Rightarrow> ret (st_high_water_mark cur)) (\<lambda>mark.
     bnd (get_settings ws) (\<lambda>st.
     update_workspace ws (\<lambda>s. s\<lparr>s_settings := st\<lparr>st_high_water_mark := mark,
        st_active_sprint_ids := (case ids of Some xs \<Rightarrow> Some xs | None \<Rightarrow> sprint_ids_of cur),
        st_active_sprint_id := None\<rparr>\<rparr>))))"

section \<open>Poller\<close>

definition same_sprint_set :: "int list \<Rightarrow> int list option \<Rightarrow> bool" where
  "same_sprint_set cur prev = (case prev of None \<Rightarrow> False
     | Some ps \<Rightarrow> if length cur \<noteq> length ps then False else list_all (\<lambda>i. i \<in> set ps) cur)"

definition new_ticket :: "id \<Rightarrow> jira_issue \<Rightarrow> ticket" where
  "new_ticket ws i = \<lparr>t_id = 0, t_workspace = ws, t_jira_key = i_key i, t_jira_id = i_id i, t_summary = i_summary i,
     t_last_seen_status = None, t_last_seen_updated = None, t_priority_id = fst (parse_jira_priority i),
     t_priority_name = snd (parse_jira_priority i), t_blocked_by = None, t_blocked_state = None, t_verification = None\<rparr>"

definition upsert_ticket :: "id \<Rightarrow> jira_issue \<Rightarrow> (id \<times> string option) handler" where
  "upsert_ticket ws i =
     bnd (gets (\<lambda>w. find (\<lambda>t. t_workspace t = ws \<and> t_jira_key t = i_key i) (w_tickets w))) (\<lambda>existing.
     case existing of Some t \<Rightarrow> ret (t_id t, t_last_seen_status t)
     | None \<Rightarrow> bnd (insert_ticket (new_ticket ws i)) (\<lambda>n. ret (n, None)))"

text \<open>\<open>new Date(updated)\<close> in an update: an invalid date makes the write throw.\<close>

definition advance_cache :: "id \<Rightarrow> jira_issue \<Rightarrow> unit handler" where
  "advance_cache tk i = (case parse_date (i_updated i) of
     None \<Rightarrow> throw (mk_error Other_failure ''Invalid time value'')
   | Some u \<Rightarrow> update_ticket tk (\<lambda>t. t\<lparr>t_last_seen_status := Some (i_status i), t_last_seen_updated := Some u,
       t_summary := i_summary i, t_blocked_by := Some (all_blocked_by_keys i),
       t_priority_id := fst (parse_jira_priority i), t_priority_name := snd (parse_jira_priority i)\<rparr>))"

definition diff_ticket :: "env \<Rightarrow> id \<Rightarrow> string option \<Rightarrow> jira_issue \<Rightarrow> unit handler" where
  "diff_ticket E tk prev i =
     catch (andthen (case prev of
               None \<Rightarrow> on_status_changed E tk i (i_status i) Src_scope_entry
             | Some p \<Rightarrow> if p \<noteq> i_status i then on_status_changed E tk i (i_status i) Src_poller else ret ())
            (advance_cache tk i))
       (\<lambda>e. ret ())"

definition max_updated :: "string option \<Rightarrow> string \<Rightarrow> string option" where
  "max_updated cur u = (case truthy cur of None \<Rightarrow> Some u | Some m \<Rightarrow> if ord_class.lexordp m u then Some u else Some m)"

definition process_issues :: "env \<Rightarrow> id \<Rightarrow> jira_issue list \<Rightarrow> string option handler" where
  "process_issues E ws is = for_fold is None (\<lambda>i mx.
     bnd (upsert_ticket ws i) (\<lambda>(tk, prev).
     andthen (diff_ticket E tk prev i) (ret (max_updated mx (i_updated i)))))"

text \<open>Search, diff, and advance the mark when something was seen.\<close>

definition poll_query :: "env \<Rightarrow> release_scope \<Rightarrow> string \<Rightarrow> unit handler" where
  "poll_query E ws jql =
     bnd (jira_search_updated E (rs_id ws) jql POLL_FIELDS) (\<lambda>is.
     bnd (process_issues E (rs_id ws) is) (\<lambda>mx.
     case truthy mx of None \<Rightarrow> ret () | Some m \<Rightarrow> set_reconcile_state (rs_id ws) (Some m) None))"

definition poll_and_diff :: "env \<Rightarrow> release_scope \<Rightarrow> unit handler" where
  "poll_and_diff E ws =
     bnd (get_scope_jql (rs_id ws)) (\<lambda>scope.
     bnd (get_reconcile_state (rs_id ws)) (\<lambda>(hwm, active_ids).
     if rs_board_type ws = Scrum then
       bnd (case rs_board_id ws of Some b \<Rightarrow> jira_active_sprint_ids E (rs_id ws) b | None \<Rightarrow> ret []) (\<lambda>cur.
       if cur = [] then
         (case active_ids of Some (x # xs) \<Rightarrow> set_reconcile_state (rs_id ws) None (Some []) | _ \<Rightarrow> ret ())
       else if \<not> same_sprint_set cur active_ids then
         bnd (jira_search_updated E (rs_id ws) (build_scope_jql Scrum (rs_project_key ws) (Some cur) scope None) POLL_FIELDS) (\<lambda>is.
         bnd (process_issues E (rs_id ws) is) (\<lambda>mx.
         set_reconcile_state (rs_id ws) (case mx of Some m \<Rightarrow> Some m | None \<Rightarrow> hwm) (Some cur)))
       else poll_query E ws (build_scope_jql Scrum (rs_project_key ws) (Some cur) scope (since_clause hwm)))
     else poll_query E ws (build_scope_jql Kanban (rs_project_key ws) None scope (since_clause hwm))))"

section \<open>The pass\<close>

definition introspect_board_type :: "env \<Rightarrow> id \<Rightarrow> board_type handler" where
  "introspect_board_type E ws =
     bnd (gets (find_workspace ws)) (\<lambda>found.
     case found of None \<Rightarrow> throw (mk_error Other_failure ''workspace not found'')
     | Some s \<Rightarrow> (case s_board_id s of None \<Rightarrow> throw (mk_error Other_failure ''no jira_board_id'')
       | Some b \<Rightarrow> bnd (jira_board_type E ws) (\<lambda>bt.
           andthen (update_workspace ws (\<lambda>s. s\<lparr>s_board_type := Some bt\<rparr>)) (ret bt))))"

definition ensure_board_type :: "env \<Rightarrow> id \<Rightarrow> board_type option \<Rightarrow> board_type option handler" where
  "ensure_board_type E ws cur = (case cur of Some bt \<Rightarrow> ret (Some bt)
     | None \<Rightarrow> catch (bnd (introspect_board_type E ws) (\<lambda>bt. ret (Some bt))) (\<lambda>e. ret None))"

definition step :: "unit handler \<Rightarrow> unit handler" where
  "step m = catch m (\<lambda>e. ret ())"

definition reconcile_workspace :: "env \<Rightarrow> workspace \<Rightarrow> unit handler" where
  "reconcile_workspace E s =
     catch (andthen (jira_connect E (s_id s))
           (bnd (ensure_board_type E (s_id s) (s_board_type s)) (\<lambda>bt.
            case bt of None \<Rightarrow> ret ()
            | Some b \<Rightarrow>
              let ws = \<lparr>rs_id = s_id s, rs_project_key = s_project_key s, rs_board_id = s_board_id s, rs_board_type = b\<rparr> in
              andthen (step (poll_and_diff E ws))
             (andthen (step (release_for E ws)) (step (repair E (rs_id ws)))))))
       (\<lambda>e. ret ())"

definition reconcile_run :: "vars \<Rightarrow> env \<Rightarrow> unit handler" where
  "reconcile_run V E =
     andthen (step (sweep_all V E))
       (bnd (gets (\<lambda>w. filter ws_enabled (w_workspaces w))) (\<lambda>wss. for_each wss (reconcile_workspace E)))"

context insert_relation
begin

lemma steps_repair [steps_intros]: "steps R (repair E ws)"
  unfolding repair_def by (intro steps_intros)

lemma steps_reconcile_state [steps_intros]: "steps R (get_reconcile_state ws)" "steps R (set_reconcile_state ws h ids)"
  unfolding get_reconcile_state_def set_reconcile_state_def to_utc_iso_def by (intro steps_intros)+

lemma steps_diff_ticket [steps_intros]: "steps R (diff_ticket E tk p i)"
  unfolding diff_ticket_def advance_cache_def by (intro steps_intros)

lemma steps_process_issues [steps_intros]: "steps R (process_issues E ws is)"
  unfolding process_issues_def upsert_ticket_def by (intro steps_intros)

lemma steps_poll [steps_intros]: "steps R (poll_and_diff E ws)"
  unfolding poll_and_diff_def poll_query_def by (intro steps_intros)

lemma steps_board_type [steps_intros]: "steps R (ensure_board_type E ws bt)"
  unfolding ensure_board_type_def introspect_board_type_def by (intro steps_intros)

lemma steps_step [steps_intros]: "steps R m \<Longrightarrow> steps R (step m)"
  unfolding step_def by (intro steps_intros)

lemma steps_reconcile_workspace [steps_intros]: "steps R (reconcile_workspace E s)"
  unfolding reconcile_workspace_def by (intro steps_intros)

end

context world_relation
begin

lemma steps_finalize_stale [steps_intros]: "terminal_status s \<Longrightarrow> steps R (finalize_stale E i b s err msg)"
  unfolding finalize_stale_def by (intro steps_intros)

lemma steps_sweep [steps_intros]: "steps R (sweep_scoped V E ws)"
  unfolding sweep_scoped_def enabled_workspace_ids_def select_stale_running_def select_stale_queued_def
  by (intro steps_intros) (auto simp: terminal_status_def)

lemma steps_reconcile_run [steps_intros]: "steps R (reconcile_run V E)"
  unfolding reconcile_run_def sweep_all_def by (intro steps_intros)

end

section \<open>Properties\<close>

text \<open>
  A mistyped threshold never disables reaping: whatever string the environment holds, the
  resolved number of minutes is not negative when the default is not, it is the default exactly
  when the setting is absent or flagged as malformed, and otherwise it is the number written.
\<close>

theorem resolve_minutes_safe:
  assumes "0 \<le> fallback"
  shows "0 \<le> fst (resolve_minutes_setting raw fallback) \<and>
    (raw = None \<or> snd (resolve_minutes_setting raw fallback) \<longrightarrow> fst (resolve_minutes_setting raw fallback) = fallback) \<and>
    (\<forall>s. raw = Some s \<and> \<not> snd (resolve_minutes_setting raw fallback) \<longrightarrow>
       js_number (js_trim s) = Some (fst (resolve_minutes_setting raw fallback)) \<and> js_trim s \<noteq> [])"
  using assms by (auto simp: resolve_minutes_setting_def Let_def split: option.splits if_splits)

theorem resolve_minutes_safe_witness:
  "0 \<le> fst (resolve_minutes_setting (Some ''abc'') 5) \<and> resolve_minutes_setting (Some '' 7.5 '') 5 = (15 / 2, False) \<and>
   resolve_minutes_setting (Some ''1e1'') 5 = (10, False) \<and> resolve_minutes_setting (Some ''-3'') 5 = (5, True)"
  by (rule conjI, rule resolve_minutes_safe [THEN conjunct1], simp) code_simp

lemma update_run_no_clash:
  assumes "\<And>r. P r \<Longrightarrow> \<not> active (r_status (f (w_now w) r))"
  shows "fst (update_run i P f w) \<noteq> Inl e"
proof -
  have no: "(\<exists>r\<in>set (w_runs w). (r_id r = i \<and> P r) \<and>
      (\<exists>r'\<in>set (map (\<lambda>r. if r_id r = i \<and> P r then f (w_now w) r else r) (w_runs w)). index_clash (f (w_now w) r) r')) = False"
    using assms by (auto dest: index_clash_active)
  show ?thesis
    by (cases "\<exists>r\<in>set (w_runs w). r_id r = i \<and> P r") (simp_all only: update_run_app Let_def no if_True if_False fst_conv sum.distinct not_False_eq_True)
qed

lemma finalize_status_cases:
  assumes "\<not> active s"
  shows "finalize_status i s fx w = (Inr False, w) \<and> inactive i w \<or>
    finalize_status i s fx w = (Inr True, w\<lparr>w_runs := map (\<lambda>r. if r_id r = i \<and> active (r_status r)
      then apply_extra fx (r\<lparr>r_status := s, r_finished := Some (w_now w)\<rparr>) else r) (w_runs w)\<rparr>)"
proof (cases rule: update_run_cases [of i "\<lambda>r. active (r_status r)"
    "\<lambda>now r. apply_extra fx (r\<lparr>r_status := s, r_finished := Some now\<rparr>)" w])
  case none
  then show ?thesis by (simp add: finalize_status_def guarded_finalize_def inactive_def)
next
  case clash
  then show ?thesis
    using update_run_no_clash [of "\<lambda>r. active (r_status r)" "\<lambda>now r. apply_extra fx (r\<lparr>r_status := s, r_finished := Some now\<rparr>)" w i
      unique_violation] assms by simp
next
  case hit
  then show ?thesis by (simp add: finalize_status_def guarded_finalize_def)
qed

definition finalized_world :: "id \<Rightarrow> run_status \<Rightarrow> finalize_extra \<Rightarrow> world \<Rightarrow> world" where
  "finalized_world i s fx w = w\<lparr>w_runs := map (\<lambda>r. if r_id r = i \<and> active (r_status r)
      then apply_extra fx (r\<lparr>r_status := s, r_finished := Some (w_now w)\<rparr>) else r) (w_runs w)\<rparr>"

lemma finalized_world_run:
  assumes "r' \<in> set (w_runs (finalized_world i s fx w))"
  shows "r_id r' = i \<and> r_status r' = s \<or> r' \<in> set (w_runs w) \<and> \<not> (r_id r' = i \<and> active (r_status r'))"
proof -
  let ?g = "\<lambda>r. apply_extra fx (r\<lparr>r_status := s, r_finished := Some (w_now w)\<rparr>)"
  from assms obtain r where r: "r \<in> set (w_runs w)" "r' = (if r_id r = i \<and> active (r_status r) then ?g r else r)"
    unfolding finalized_world_def by auto
  show ?thesis
  proof (cases "r_id r = i \<and> active (r_status r)")
    case True
    then show ?thesis using r(2) by simp
  next
    case False
    then have "r' = r" using r(2) by (simp only: if_False)
    then show ?thesis using r(1) False by simp
  qed
qed

lemma finalized_world_inactive: "\<not> active s \<Longrightarrow> inactive i (finalized_world i s fx w)"
  unfolding inactive_def using finalized_world_run by blast

lemma finalized_world_no_revival:
  assumes "\<not> active s"
  shows "no_revival w (finalized_world i s fx w)"
  unfolding no_revival_def
proof (intro conjI allI impI)
  fix j assume old: "inactive j w"
  show "inactive j (finalized_world i s fx w)"
    unfolding inactive_def
  proof (intro ballI impI)
    fix r' assume "r' \<in> set (w_runs (finalized_world i s fx w))" "r_id r' = j"
    then show "\<not> active (r_status r')"
      using finalized_world_run [of r' i s fx w] old assms unfolding inactive_def by blast
  qed
qed (simp_all add: finalized_world_def)

lemma finalize_status_out:
  assumes "\<not> active s"
  obtains "finalize_status i s fx w = (Inr False, w)" and "inactive i w"
  | "finalize_status i s fx w = (Inr True, finalized_world i s fx w)"
  using finalize_status_cases [OF assms, of i fx w] unfolding finalized_world_def by blast

lemma finalize_status_inactive:
  assumes "\<not> active s"
  shows "inactive i (snd (finalize_status i s fx w))"
  by (rule finalize_status_out [OF assms, of i fx w]) (simp_all add: finalized_world_inactive assms)

lemma finalize_status_no_revival:
  assumes "\<not> active s"
  shows "steps no_revival (finalize_status i s fx)"
proof (rule stepsI)
  fix w
  show "no_revival w (snd (finalize_status i s fx w))"
    by (rule finalize_status_out [OF assms, of i fx w]) (simp_all add: finalized_world_no_revival assms nr.R_refl)
qed

lemma finalize_stale_no_revival: "\<not> active s \<Longrightarrow> steps no_revival (finalize_stale E i b s err msg)"
  unfolding finalize_stale_def by (intro steps_intros finalize_status_no_revival)

lemma finalize_stale_returns: "fst (finalize_stale E i b s err msg w) = Inr ()"
  by (auto simp: finalize_stale_def catch_app ret_app split: prod.splits sum.splits)

lemma finalize_stale_inactive:
  assumes "\<not> active s" and "i < w_next w"
  shows "inactive i (snd (finalize_stale E i b s err msg w))"
proof -
  let ?fin = "finalize_status i s (no_extra\<lparr>fx_error := Some err\<rparr>)"
  let ?rest = "\<lambda>finalized. if \<not> finalized then ret ()
      else andthen (catch (insert_event i Ev_log (watchdog_event msg)) (\<lambda>e. ret ())) (if b then on_run_finished E i else ret ())"
  obtain f v where fin: "?fin w = (Inr f, v)" using finalize_status_cases [OF assms(1)] by blast
  have "inactive i v" using finalize_status_inactive [OF assms(1), of i "no_extra\<lparr>fx_error := Some err\<rparr>" w] fin by simp
  moreover have "w_next v = w_next w"
    by (rule finalize_status_out [OF assms(1), of i "no_extra\<lparr>fx_error := Some err\<rparr>" w])
       (use fin in \<open>simp_all add: finalized_world_def\<close>)
  ultimately have v: "inactive i v" "w_next v = w_next w" .
  have "snd (finalize_stale E i b s err msg w) = snd (?rest f v)"
    by (simp add: finalize_stale_def catch_app bnd_app fin ret_app split: prod.splits sum.splits)
  moreover have "no_revival v (snd (?rest f v))" by (rule stepsD) (intro steps_intros)
  ultimately show ?thesis using v assms(2) by (simp add: no_revival_def)
qed

lemma returned: "fst (m w) = Inr x \<Longrightarrow> m w = (Inr x, snd (m w))"
  by (cases "m w") simp

lemma finalize_stale_ends: obtains w' where "finalize_stale E i b s err msg w = (Inr (), w')"
  using returned [of "finalize_stale E i b s err msg" w "()"] finalize_stale_returns [of E i b s err msg w] by blast

lemma for_each_reaches:
  assumes "\<And>y. y \<in> set xs \<Longrightarrow> steps no_revival (f y)" and "\<And>y v. fst (f y v) = Inr ()"
    and "x \<in> set xs" and "\<And>v. i < w_next v \<Longrightarrow> inactive i (snd (f x v))"
  shows "i < w_next w \<Longrightarrow> inactive i (snd (for_each xs f w))"
  using assms(1,3)
proof (induction xs arbitrary: w)
  case (Cons y ys)
  obtain v where fy: "f y w = (Inr (), v)" using assms(2) [of y w] by (cases "f y w") auto
  have "steps no_revival (f y)" using Cons.prems(2) by simp
  from steps_run [OF this fy] have nr: "no_revival w v" .
  then have next': "i < w_next v" using Cons.prems(1) by (simp add: no_revival_def)
  have rest: "steps no_revival (for_each ys f)" using Cons.prems(2) by (intro nr.steps_for_each) auto
  show ?case
  proof (cases "x = y")
    case True
    then have "inactive i v" using assms(4) [OF Cons.prems(1)] fy by simp
    then show ?thesis using stepsD [OF rest, of v] next' fy by (simp add: andthen_app no_revival_def)
  next
    case False
    then show ?thesis using Cons.IH [OF next'] Cons.prems(2,3) fy by (simp add: andthen_app)
  qed
qed simp

lemma for_each_returns: "(\<And>y v. fst (f y v) = Inr ()) \<Longrightarrow> fst (for_each xs f w) = Inr ()"
proof (induction xs arbitrary: w)
  case (Cons y ys)
  then show ?case by (cases "f y w") (metis (no_types, lifting) andthen_app for_each.simps(2) fst_conv old.prod.case sum.simps(6))
qed (simp add: ret_app)

section \<open>Rows the pass leaves alone\<close>

definition rows_of :: "id \<Rightarrow> world \<Rightarrow> run list" where
  "rows_of i w = filter (\<lambda>r. r_id r = i) (w_runs w)"

definition row_kept :: "id \<Rightarrow> world \<Rightarrow> world \<Rightarrow> bool" where
  "row_kept i u v \<longleftrightarrow> w_now v = w_now u \<and> w_next u \<le> w_next v \<and> (i < w_next u \<longrightarrow> rows_of i v = rows_of i u)"

lemma row_kept_same: "w_now v = w_now u \<Longrightarrow> w_next u \<le> w_next v \<Longrightarrow> w_runs v = w_runs u \<Longrightarrow> row_kept i u v"
  by (simp add: row_kept_def rows_of_def)

interpretation rk: insert_relation "row_kept i" for i
proof unfold_locales
  show "row_kept i u w" if "row_kept i u v" "row_kept i v w" for u v w
    using that by (simp add: row_kept_def)
  show "steps (row_kept i) (insert_run r0)" for r0
    by (auto simp: steps_def insert_run_def row_kept_def rows_of_def Let_def)
qed (auto simp: steps_def insert_event_def insert_checks_def insert_task_def update_task_def
    insert_ticket_def update_ticket_def insert_agent_def update_workspace_def answer_def
    queue_add_def modify_def intro!: row_kept_same split: option.splits)

lemma rows_of_member: "r \<in> set (rows_of i w) \<longleftrightarrow> r \<in> set (w_runs w) \<and> r_id r = i"
  by (auto simp: rows_of_def)

lemma filter_map_other:
  "(\<And>x. P x \<Longrightarrow> \<not> Q x \<and> \<not> Q (g x)) \<Longrightarrow> filter Q (map (\<lambda>x. if P x then g x else x) xs) = filter Q xs"
  by (induction xs) auto

lemma finalized_world_row_kept: "j \<noteq> i \<Longrightarrow> row_kept i w (finalized_world j s fx w)"
  unfolding row_kept_def rows_of_def finalized_world_def by (auto intro!: filter_map_other)

lemma find_run_rows: "rows_of i v = rows_of i w \<Longrightarrow> find_run i v = find_run i w"
proof -
  have "find P xs = (case filter P xs of [] \<Rightarrow> None | x # _ \<Rightarrow> Some x)" for P and xs :: "run list"
    by (induction xs) auto
  then show "rows_of i v = rows_of i w \<Longrightarrow> find_run i v = find_run i w" by (simp add: rows_of_def find_run_def)
qed

lemma finalize_stale_row_kept:
  assumes "\<not> active s" and "j \<noteq> i"
  shows "steps (row_kept i) (finalize_stale E j b s err msg)"
proof -
  have "steps (row_kept i) (finalize_status j s fx)" for fx
  proof (rule stepsI)
    fix w
    show "row_kept i w (snd (finalize_status j s fx w))"
      by (rule finalize_status_out [OF assms(1), of j fx w]) (simp_all add: finalized_world_row_kept assms(2) rk.R_refl)
  qed
  then show ?thesis unfolding finalize_stale_def by (intro steps_intros)
qed

text \<open>The sweep in two loops, neither of which throws.\<close>

definition reap_running :: "rat \<Rightarrow> env \<Rightarrow> id list \<Rightarrow> run \<times> int \<Rightarrow> unit handler" where
  "reap_running grace E on = (\<lambda>(r, timeout).
     finalize_stale E (r_id r) (r_workspace r \<in> set on) Timed_out
       (''watchdog: '' @ timeout_text timeout grace)
       (''watchdog: run '' @ timeout_text timeout grace @ '' - force-finalized as timed_out''))"

definition reap_queued :: "rat \<Rightarrow> env \<Rightarrow> id list \<Rightarrow> run \<Rightarrow> unit handler" where
  "reap_queued after E on = (\<lambda>r.
     finalize_stale E (r_id r) (r_workspace r \<in> set on) Failed
       (''watchdog: '' @ queued_text after)
       (''watchdog: run '' @ queued_text after @ '' - finalized as failed''))"

lemma reap_returns: "fst (reap_running g E on y w) = Inr ()" "fst (reap_queued q E on r w) = Inr ()"
  by (simp_all add: reap_running_def reap_queued_def finalize_stale_returns case_prod_beta)

lemma reap_no_revival: "steps no_revival (reap_running g E on y)" "steps no_revival (reap_queued q E on r)"
  unfolding reap_running_def reap_queued_def case_prod_beta
  by (rule finalize_stale_no_revival, simp add: active_def)+

lemma reap_inactive:
  "r_id (fst y) < w_next w \<Longrightarrow> inactive (r_id (fst y)) (snd (reap_running g E on y w))"
  "r_id r < w_next w \<Longrightarrow> inactive (r_id r) (snd (reap_queued q E on r w))"
  unfolding reap_running_def reap_queued_def case_prod_beta
  by (rule finalize_stale_inactive; simp add: active_def)+

lemma reap_row_kept:
  "r_id (fst y) \<noteq> i \<Longrightarrow> steps (row_kept i) (reap_running g E on y)"
  "r_id r \<noteq> i \<Longrightarrow> steps (row_kept i) (reap_queued q E on r)"
  unfolding reap_running_def reap_queued_def case_prod_beta
  by (rule finalize_stale_row_kept; simp add: active_def)+

lemma stale_running_members:
  assumes "select_stale_running ws g w = (Inr stale, w')"
  shows "w' = w" and "y \<in> set stale \<Longrightarrow> fst y \<in> set (w_runs w) \<and> r_status (fst y) = Running"
    and "r \<in> set (w_runs w) \<Longrightarrow> in_scope ws r \<Longrightarrow> find_agent (r_agent r) w = Some a \<Longrightarrow>
      stale_running g (w_now w) a r \<Longrightarrow> (r, a_timeout_minutes a) \<in> set stale"
proof -
  let ?P = "\<lambda>r. in_scope ws r \<and> (case find_agent (r_agent r) w of None \<Rightarrow> False | Some a \<Rightarrow> stale_running g (w_now w) a r)"
  let ?t = "\<lambda>r. (r, case find_agent (r_agent r) w of None \<Rightarrow> 0 | Some a \<Rightarrow> a_timeout_minutes a)"
  have sel: "w' = w" "stale = map ?t (sort_key started_or_zero (filter ?P (w_runs w)))"
    using assms unfolding select_stale_running_def gets_app prod.inject sum.inject by (blast dest: sym)+
  then show "w' = w" by simp
  have status: "r_status r = Running" if "?P r" for r
    using that by (cases "find_agent (r_agent r) w") (simp_all add: stale_running_def)
  show "fst y \<in> set (w_runs w) \<and> r_status (fst y) = Running" if "y \<in> set stale"
  proof -
    from that obtain r where "y = ?t r" "r \<in> set (w_runs w)" "?P r"
      unfolding sel(2) set_map set_sort set_filter by blast
    then show ?thesis using status by simp
  qed
  show "(r, a_timeout_minutes a) \<in> set stale"
    if "r \<in> set (w_runs w)" "in_scope ws r" "find_agent (r_agent r) w = Some a" "stale_running g (w_now w) a r"
  proof -
    have P: "?P r" and t: "?t r = (r, a_timeout_minutes a)" using that by simp_all
    show ?thesis unfolding sel(2) set_map set_sort set_filter t [symmetric]
      by (intro imageI CollectI conjI that(1) P [THEN conjunct1] P [THEN conjunct2])
  qed
qed

lemma sweep_loops:
  obtains on stale v where "select_stale_running ws (grace_minutes V) w = (Inr stale, w)"
    and "for_each stale (reap_running (grace_minutes V) E on) w = (Inr (), v)"
    and "sweep_scoped V E ws w = for_each (sort_key r_created (filter (\<lambda>r. in_scope ws r \<and>
       stale_queued (queued_minutes V) (w_now v) r) (w_runs v))) (reap_queued (queued_minutes V) E on) v"
proof -
  obtain stale where stale: "select_stale_running ws (grace_minutes V) w = (Inr stale, w)"
    by (simp add: select_stale_running_def gets_app)
  let ?on = "map s_id (filter ws_enabled (w_workspaces w))"
  obtain v where v: "for_each stale (reap_running (grace_minutes V) E ?on) w = (Inr (), v)"
    using returned [of "for_each stale (reap_running (grace_minutes V) E ?on)" w]
    by (simp add: for_each_returns reap_returns)
  have "sweep_scoped V E ws w = for_each (sort_key r_created (filter (\<lambda>r. in_scope ws r \<and>
       stale_queued (queued_minutes V) (w_now v) r) (w_runs v))) (reap_queued (queued_minutes V) E ?on) v"
    using v unfolding sweep_scoped_def Let_def reap_running_def reap_queued_def
    by (simp add: act_simps enabled_workspace_ids_def stale) (simp add: act_simps select_stale_queued_def)
  with stale v show thesis by (rule that)
qed

lemma sweep_reaps_running:
  assumes "world_ok w" and "r \<in> set (w_runs w)" and "in_scope ws r" and "find_agent (r_agent r) w = Some a"
    and "stale_running (grace_minutes V) (w_now w) a r"
  shows "inactive (r_id r) (snd (sweep_scoped V E ws w))"
proof (rule sweep_loops [of ws V w E])
  fix on stale v
  assume sel: "select_stale_running ws (grace_minutes V) w = (Inr stale, w)"
    and loop: "for_each stale (reap_running (grace_minutes V) E on) w = (Inr (), v)"
    and rest: "sweep_scoped V E ws w = for_each (sort_key r_created (filter (\<lambda>r. in_scope ws r \<and>
       stale_queued (queued_minutes V) (w_now v) r) (w_runs v))) (reap_queued (queued_minutes V) E on) v"
  have bound: "r_id r < w_next w" using assms(1,2) by (simp add: world_ok_def)
  have "inactive (r_id r) (snd (for_each stale (reap_running (grace_minutes V) E on) w))"
    by (rule for_each_reaches [OF reap_no_revival(1) reap_returns(1) stale_running_members(3) [OF sel assms(2-5)] _ bound])
       (use reap_inactive(1) [of "(r, a_timeout_minutes a)"] in simp)
  then have "inactive (r_id r) v" using loop by simp
  moreover have "r_id r < w_next v"
    using steps_run [OF nr.steps_for_each loop] reap_no_revival(1) bound by (simp add: no_revival_def)
  moreover have "no_revival v (snd (sweep_scoped V E ws w))"
    unfolding rest by (rule stepsD) (intro nr.steps_for_each reap_no_revival(2))
  ultimately show ?thesis by (simp add: no_revival_def)
qed

lemma sweep_reaps_queued:
  assumes "world_ok w" and "r \<in> set (w_runs w)" and "in_scope ws r"
    and "stale_queued (queued_minutes V) (w_now w) r"
  shows "inactive (r_id r) (snd (sweep_scoped V E ws w))"
proof (rule sweep_loops [of ws V w E])
  fix on stale v
  assume sel: "select_stale_running ws (grace_minutes V) w = (Inr stale, w)"
    and loop: "for_each stale (reap_running (grace_minutes V) E on) w = (Inr (), v)"
    and rest: "sweep_scoped V E ws w = for_each (sort_key r_created (filter (\<lambda>r. in_scope ws r \<and>
       stale_queued (queued_minutes V) (w_now v) r) (w_runs v))) (reap_queued (queued_minutes V) E on) v"
  have bound: "r_id r < w_next w" using assms(1,2) by (simp add: world_ok_def)
  have "s = r" if "s \<in> set (w_runs w)" "r_id s = r_id r" for s
    using assms(1,2) that by (auto simp: world_ok_def distinct_map dest: inj_onD)
  then have other: "r_id (fst y) \<noteq> r_id r" if "y \<in> set stale" for y
    using stale_running_members(2) [OF sel that] assms(4) unfolding stale_queued_def by (metis run_status.distinct(1))
  have kept: "row_kept (r_id r) w v"
    by (rule steps_run [OF rk.steps_for_each loop]) (intro reap_row_kept(1) other)
  then have "r \<in> set (rows_of (r_id r) v)" using assms(2) bound by (simp add: row_kept_def rows_of_def)
  then have mem: "r \<in> set (sort_key r_created (filter (\<lambda>r. in_scope ws r \<and>
       stale_queued (queued_minutes V) (w_now v) r) (w_runs v)))"
    using assms(3,4) kept by (simp add: rows_of_member row_kept_def)
  have "r_id r < w_next v" using kept bound by (simp add: row_kept_def)
  then show ?thesis
    unfolding rest by (intro for_each_reaches [OF reap_no_revival(2) reap_returns(2) mem] reap_inactive(2))
qed

lemma sweep_keeps:
  assumes "i < w_next w" and "\<And>r. r \<in> set (w_runs w) \<Longrightarrow> r_id r = i \<Longrightarrow> r_status r \<noteq> Running"
    and "\<And>r. r \<in> set (w_runs w) \<Longrightarrow> r_id r = i \<Longrightarrow> r_status r = Queued \<Longrightarrow> r_started r \<noteq> None"
  shows "row_kept i w (snd (sweep_scoped V E ws w))"
proof (rule sweep_loops [of ws V w E])
  fix on stale v
  assume sel: "select_stale_running ws (grace_minutes V) w = (Inr stale, w)"
    and loop: "for_each stale (reap_running (grace_minutes V) E on) w = (Inr (), v)"
    and rest: "sweep_scoped V E ws w = for_each (sort_key r_created (filter (\<lambda>r. in_scope ws r \<and>
       stale_queued (queued_minutes V) (w_now v) r) (w_runs v))) (reap_queued (queued_minutes V) E on) v"
  have kept: "row_kept i w v"
    by (rule steps_run [OF rk.steps_for_each loop], rule reap_row_kept(1))
       (use stale_running_members(2) [OF sel] assms(2) in blast)
  then have "rows_of i v = rows_of i w" using assms(1) by (simp add: row_kept_def)
  then have same: "r \<in> set (w_runs v) \<and> r_id r = i \<longleftrightarrow> r \<in> set (w_runs w) \<and> r_id r = i" for r
    using rows_of_member by metis
  have "row_kept i v (snd (sweep_scoped V E ws w))"
    unfolding rest by (rule stepsD, intro rk.steps_for_each reap_row_kept(2))
       (use same assms(3) in \<open>unfold set_sort set_filter stale_queued_def, blast\<close>)
  then show ?thesis by (rule rk.R_trans [OF kept])
qed

lemma step_returns: "fst (step m w) = Inr ()"
  by (auto simp: step_def catch_app ret_app split: prod.splits sum.splits)

lemma reconcile_workspace_returns: "fst (reconcile_workspace E s w) = Inr ()"
  by (auto simp: reconcile_workspace_def catch_app ret_app split: prod.splits sum.splits)

text \<open>The pass is the sweep followed by the workspaces, and neither throws.\<close>

lemma reconcile_run_app:
  obtains wss where "reconcile_run V E w = for_each wss (reconcile_workspace E) (snd (sweep_all V E w))"
proof -
  have "step (sweep_all V E) w = (Inr (), snd (sweep_all V E w))"
    by (auto simp: step_def catch_app ret_app split: prod.splits sum.splits)
  then show thesis by (intro that) (simp add: reconcile_run_def andthen_app bnd_app gets_app)
qed

lemma reconcile_run_returns: "fst (reconcile_run V E w) = Inr ()"
  by (rule reconcile_run_app [of V E w]) (simp add: for_each_returns reconcile_workspace_returns)

lemma workspaces_no_revival: "steps no_revival (for_each wss (reconcile_workspace E))"
  by (intro steps_intros)


definition hung_run :: run where
  "hung_run = (sample_run 7 (Some 4) Running)\<lparr>r_started := Some (- 100000000)\<rparr>"


text \<open>
  The blind spot of the queued sweep: a run put back to \<open>queued\<close> after a crash keeps its
  start time, so no reconcile pass ever finalizes it, however long it has been waiting and
  whatever the thresholds; its rows are the same after the pass, and it keeps its ticket's slot.
\<close>

theorem requeued_run_is_never_reaped:
  assumes "world_ok w" and "r \<in> set (w_runs w)" and "r_status r = Queued" and "r_started r \<noteq> None"
  shows "r \<in> set (w_runs (snd (reconcile_run V E w)))"
proof -
  have bound: "r_id r < w_next w" using assms(1,2) by (simp add: world_ok_def)
  have "s = r" if "s \<in> set (w_runs w)" "r_id s = r_id r" for s
    using assms(1,2) that by (auto simp: world_ok_def distinct_map dest: inj_onD)
  then have "row_kept (r_id r) w (snd (sweep_all V E w))"
    unfolding sweep_all_def using assms(3,4) run_status.distinct(1) by (intro sweep_keeps bound) metis+
  moreover have "row_kept (r_id r) u (snd (for_each wss (reconcile_workspace E) u))" for u wss
    by (rule stepsD) (intro steps_intros)
  ultimately have "row_kept (r_id r) w (snd (reconcile_run V E w))"
    using reconcile_run_app [of V E w] rk.R_trans by metis
  then show ?thesis using rows_of_member assms(2) bound by (metis row_kept_def)
qed

theorem requeued_run_is_never_reaped_witness:
  "(sample_run 7 (Some 4) Queued)\<lparr>r_started := Some (- 100000000)\<rparr> \<in>
     set (w_runs (snd (reconcile_run (\<lambda>_. None) sample_env
       (sample_world [(sample_run 7 (Some 4) Queued)\<lparr>r_started := Some (- 100000000)\<rparr>]))))"
proof (rule requeued_run_is_never_reaped)
  show "world_ok (sample_world [(sample_run 7 (Some 4) Queued)\<lparr>r_started := Some (- 100000000)\<rparr>])"
    by (rule sample_world_ok) (simp_all add: sample_run_def one_active_single)
qed (simp_all add: sample_run_def sample_world_def)

definition finalized_stale_run :: "run_status \<Rightarrow> string \<Rightarrow> int \<Rightarrow> run \<Rightarrow> run" where
  "finalized_stale_run s err now r = apply_extra (no_extra\<lparr>fx_error := Some err\<rparr>) (r\<lparr>r_status := s, r_finished := Some now\<rparr>)"

lemma finalized_stale_run_simps [simp]:
  "r_status (finalized_stale_run s err now r) = s" "r_id (finalized_stale_run s err now r) = r_id r"
  by (simp_all add: finalized_stale_run_def)

lemma finalize_stale_row:
  assumes "world_ok w" and "r \<in> set (w_runs w)" and "active (r_status r)" and "\<not> active s"
  shows "find_run (r_id r) (snd (finalize_stale E (r_id r) on s err msg w)) =
    Some (finalized_stale_run s err (w_now w) r)"
proof -
  let ?r = "finalized_stale_run s err (w_now w) r"
  let ?v = "w\<lparr>w_runs := map (\<lambda>q. if r_id q = r_id r then ?r else q) (w_runs w)\<rparr>"
  let ?rest = "andthen (catch (insert_event (r_id r) Ev_log (watchdog_event msg)) (\<lambda>e. ret ()))
      (if on then on_run_finished E (r_id r) else ret ())"
  have fin: "finalize_status (r_id r) s (no_extra\<lparr>fx_error := Some err\<rparr>) w = (Inr True, ?v)"
    unfolding finalize_status_def guarded_finalize_def finalized_stale_run_def
    using assms by (intro update_run_hit) (auto simp: same_run_def apply_extra_def)
  have "snd (finalize_stale E (r_id r) on s err msg w) = snd (?rest ?v)"
    by (simp add: finalize_stale_def catch_app bnd_app fin ret_app split: prod.splits sum.splits)
  moreover have "row_kept (r_id r) ?v (snd (?rest ?v))" by (rule stepsD) (intro steps_intros)
  moreover have "r_id r < w_next ?v" using assms(1,2) by (simp add: world_ok_def)
  ultimately have "rows_of (r_id r) (snd (finalize_stale E (r_id r) on s err msg w)) = rows_of (r_id r) ?v"
    by (simp add: row_kept_def)
  then have "find_run (r_id r) (snd (finalize_stale E (r_id r) on s err msg w)) = find_run (r_id r) ?v"
    by (rule find_run_rows)
  then show ?thesis using find_run_updated [OF assms(2), of ?r ?v] by simp
qed

text \<open>
  The race between the watchdog's select and its write: the guard of \<open>finalizeStatus\<close>
  admits every active status, so a run that an agent parks for a person after it was selected
  as stale is finalized \<open>timed_out\<close> all the same.
\<close>

theorem watchdog_clobbers_a_fresh_park:
  assumes "world_ok w" and "r \<in> set (w_runs w)" and "r_status r = Running"
  shows "\<exists>w1 w2 s. park_if_still_running (r_id r) w = (Inr True, w1) \<and>
    find_run (r_id r) w1 = Some (r\<lparr>r_status := Awaiting_human\<rparr>) \<and>
    finalize_stale E (r_id r) on Timed_out err msg w1 = (Inr (), w2) \<and>
    find_run (r_id r) w2 = Some s \<and> r_status s = Timed_out"
proof -
  let ?i = "r_id r" and ?r1 = "r\<lparr>r_status := Awaiting_human\<rparr>"
  let ?w1 = "w\<lparr>w_runs := map (\<lambda>s. if r_id s = ?i then ?r1 else s) (w_runs w)\<rparr>"
  have park: "park_if_still_running ?i w = (Inr True, ?w1)"
    unfolding park_if_still_running_def using assms by (intro update_run_hit) (auto simp: same_run_def active_def)
  have ok: "world_ok ?w1" using steps_run [OF wf.steps_park_if_running park] assms(1) by (simp add: keeps_ok_def)
  have found: "find_run ?i ?w1 = Some ?r1" using find_run_updated [OF assms(2), of ?r1 ?w1] by simp
  then have r1: "?r1 \<in> set (w_runs ?w1)" using find_run_Some by blast
  obtain w2 where w2: "finalize_stale E ?i on Timed_out err msg ?w1 = (Inr (), w2)"
    by (rule finalize_stale_ends)
  have "find_run ?i w2 = Some (finalized_stale_run Timed_out err (w_now ?w1) ?r1)"
    using finalize_stale_row [OF ok r1, of Timed_out E on err msg] w2 by (simp add: active_def)
  with park found w2 show ?thesis using finalized_stale_run_simps(1) by blast
qed

theorem watchdog_clobbers_a_fresh_park_witness:
  "\<exists>w1 w2 s. park_if_still_running 7 (sample_world [sample_run 7 (Some 4) Running]) = (Inr True, w1) \<and>
    finalize_stale sample_env 7 True Timed_out ''late'' ''late'' w1 = (Inr (), w2) \<and>
    find_run 7 w2 = Some s \<and> r_status s = Timed_out"
proof -
  let ?w = "sample_world [sample_run 7 (Some 4) Running]" and ?r = "sample_run 7 (Some 4) Running"
  have "world_ok ?w" "?r \<in> set (w_runs ?w)" "r_status ?r = Running" "r_id ?r = 7"
    by (simp_all add: sample_single_ok) (simp_all add: sample_defs)
  with watchdog_clobbers_a_fresh_park [of ?w ?r sample_env True "''late''" "''late''"] show ?thesis by auto
qed

end
