(* ===== verification/SetupApply.thy ===== *)
theory SetupApply
  imports Ingest AgentKeys
begin

text \<open>
  The accept path of a workspace-setup run (\<open>libs/pipeline/src/setup-apply.service.ts\<close>): the
  orchestrator's \<open>team\<close> report is validated as a whole against the board, the executor profiles
  and the existing agents, and applied in one transaction that finalizes the run, inserts the
  agents and queues one review task.
\<close>

section \<open>Validation\<close>

datatype path_elem = P_key string | P_idx nat

record team_issue =
  ti_path :: "path_elem list"
  ti_code :: string
  ti_message :: string

datatype team_accept_result = Applied nat | Invalid "team_issue list" | Conflict | Recast_failure

definition existing_lintable :: "agent \<Rightarrow> lintable" where
  "existing_lintable a = \<lparr>la_id = Some (show_nat (a_id a)), la_name = a_name a, la_trigger_status = a_trigger_status a,
     la_trigger_jql = a_trigger_jql a, la_status_running = a_status_running a, la_status_success = a_status_success a,
     la_status_failure = a_status_failure a, la_enabled = Some (a_enabled a)\<rparr>"

definition proposed_lintable :: "string option \<Rightarrow> team_agent \<Rightarrow> lintable" where
  "proposed_lintable i p = \<lparr>la_id = i, la_name = ta_name p, la_trigger_status = Some (ta_trigger_status p),
     la_trigger_jql = None, la_status_running = ta_status_running p, la_status_success = ta_status_success p,
     la_status_failure = ta_status_failure p, la_enabled = Some True\<rparr>"

definition prior_lintables :: "team_agent list \<Rightarrow> lintable list" where
  "prior_lintables ps = map (\<lambda>(i, p). proposed_lintable (Some (''proposal-'' @ show_nat i)) p) (enumerate 0 ps)"

text \<open>A \<open>Map\<close> built from rows keeps the last row of a name.\<close>

definition profile_by_name :: "executor list \<Rightarrow> string \<Rightarrow> executor option" where
  "profile_by_name xs n = find (\<lambda>x. x_name x = n) (rev xs)"

definition team_key :: "team_agent \<Rightarrow> string" where
  "team_key p = slugify_agent_key (ta_name p) (ta_role p)"

definition at_agent :: "nat \<Rightarrow> string \<Rightarrow> path_elem list" where
  "at_agent i k = [P_key ''team'', P_key ''agents'', P_idx i, P_key k]"

definition key_issues :: "nat \<Rightarrow> string list \<Rightarrow> team_agent \<Rightarrow> team_issue list" where
  "key_issues i seen p = (if team_key p \<in> set seen
     then [\<lparr>ti_path = at_agent i ''name'', ti_code = ''duplicate_name'',
            ti_message = ''\"'' @ ta_name p @ ''\"'' @ (case ta_role p of None \<Rightarrow> [] | Some r \<Rightarrow> '' ('' @ r @ '')'') @
              '' collides with another proposed agent (both derive key \"'' @ team_key p @ ''\") - give them distinct personas''\<rparr>]
     else [])"

definition executor_issues :: "executor list \<Rightarrow> nat \<Rightarrow> team_agent \<Rightarrow> team_issue list" where
  "executor_issues profiles i p = (case profile_by_name profiles (ta_executor p) of
     None \<Rightarrow> [\<lparr>ti_path = at_agent i ''executor'', ti_code = ''executor_unknown'',
        ti_message = ''\"'' @ ta_executor p @ ''\" is not an executor profile - use one of the profiles listed in your handoff''\<rparr>]
   | Some x \<Rightarrow> if x_enabled x then [] else [\<lparr>ti_path = at_agent i ''executor'', ti_code = ''executor_disabled'',
        ti_message = ''executor profile \"'' @ ta_executor p @ ''\" is disabled''\<rparr>])"

definition lint_code_text :: "lint_code \<Rightarrow> string" where
  "lint_code_text c = (case c of Status_absent \<Rightarrow> ''status_absent'' | Duplicate_trigger \<Rightarrow> ''duplicate_trigger''
     | Status_cycle \<Rightarrow> ''status_cycle'')"

definition lint_issues :: "lintable list \<Rightarrow> string list \<Rightarrow> team_agent list \<Rightarrow> team_agent \<Rightarrow> team_issue list" where
  "lint_issues existing board prior p =
     map (\<lambda>e. \<lparr>ti_path = at_agent (length prior) (ls_path e), ti_code = lint_code_text (ls_code e), ti_message = ls_message e\<rparr>)
       (fst (lint_agent (proposed_lintable None p) (existing @ prior_lintables prior) board))"

text \<open>The \<open>forEach\<close> over the proposal; \<open>prior\<close> holds the agents before the current one.\<close>

primrec check_agents ::
  "lintable list \<Rightarrow> executor list \<Rightarrow> string list \<Rightarrow> team_agent list \<Rightarrow> team_agent list \<Rightarrow> team_issue list" where
  "check_agents existing profiles board prior [] = []"
| "check_agents existing profiles board prior (p # rest) =
     key_issues (length prior) (map team_key prior) p @ executor_issues profiles (length prior) p @
     lint_issues existing board prior p @ check_agents existing profiles board (prior @ [p]) rest"

definition workspace_agents :: "id \<Rightarrow> world \<Rightarrow> agent list" where
  "workspace_agents ws w = filter (\<lambda>a. a_workspace a = ws) (w_agents w)"

text \<open>The board's statuses, or the issues that end the validation early.\<close>

definition fetch_board :: "env \<Rightarrow> id \<Rightarrow> (team_issue list + string list) handler" where
  "fetch_board E ws =
     catch (bnd (gets (find_workspace ws)) (\<lambda>found.
            case found of None \<Rightarrow> ret (Inl [\<lparr>ti_path = [], ti_code = ''workspace_missing'', ti_message = ''workspace not found''\<rparr>])
            | Some s \<Rightarrow> andthen (jira_connect E ws)
                (bnd (jira_project_statuses E ws (s_project_key s)) (\<lambda>b. ret (Inr b)))))
       (\<lambda>e. ret (Inl [\<lparr>ti_path = [], ti_code = ''statuses_unavailable'',
          ti_message = ''board statuses could not be fetched ('' @ en_message e @ '') - fix nothing, retry complete_task''\<rparr>]))"

definition validate_team :: "env \<Rightarrow> id \<Rightarrow> team_agent list \<Rightarrow> team_issue list handler" where
  "validate_team E ws proposed =
     bnd (fetch_board E ws) (\<lambda>res.
     case res of Inl issues \<Rightarrow> ret issues
     | Inr board \<Rightarrow>
         bnd (gets (\<lambda>w. (map existing_lintable (workspace_agents ws w), w_executors w))) (\<lambda>(existing, profiles).
         ret (check_agents existing profiles board [] proposed)))"

section \<open>Application\<close>

text \<open>
  The rows of the batch insert: each key is made unique against the workspace's keys and the
  keys assigned before it. \<^const>\<open>None\<close>: a profile is gone, and the insert violates a constraint.
\<close>

primrec team_rows :: "executor list \<Rightarrow> id \<Rightarrow> string list \<Rightarrow> team_agent list \<Rightarrow> agent list option" where
  "team_rows profiles ws taken [] = Some []"
| "team_rows profiles ws taken (p # ps) =
     (case (profile_by_name profiles (ta_executor p), ensure_unique_agent_key (team_key p) taken) of
        (Some x, Some k) \<Rightarrow> map_option (Cons
           \<lparr>a_id = 0, a_workspace = ws, a_executor = x_id x, a_name = ta_name p, a_role = ta_role p, a_key = k,
            a_description = Some (ta_description p), a_instruction = ta_instruction p, a_is_orchestrator = False,
            a_trigger_status = Some (ta_trigger_status p), a_trigger_jql = None, a_status_running = ta_status_running p,
            a_status_success = ta_status_success p, a_status_failure = ta_status_failure p, a_behavior = JObj [],
            a_timeout_minutes = 45, a_max_attempts = 2, a_enabled = True\<rparr>)
           (team_rows profiles ws (k # taken) ps)
      | _ \<Rightarrow> None)"

definition insert_team_agents :: "executor list \<Rightarrow> id \<Rightarrow> team_agent list \<Rightarrow> unit handler" where
  "insert_team_agents profiles ws proposed =
     bnd (gets (\<lambda>w. map a_key (workspace_agents ws w))) (\<lambda>taken.
     case team_rows profiles ws taken proposed of
       None \<Rightarrow> throw (mk_error Other_failure ''null value in column executor_id'')
     | Some rows \<Rightarrow> for_each rows insert_agent)"

definition persona :: "team_agent \<Rightarrow> string" where
  "persona p = ''**'' @ ta_name p @ ''**'' @ (case ta_role p of None \<Rightarrow> [] | Some r \<Rightarrow> '' ('' @ r @ '')'')"

definition review_task :: "id \<Rightarrow> id \<Rightarrow> team_agent list \<Rightarrow> human_task" where
  "review_task ws i proposed = \<lparr>h_id = 0, h_workspace = ws, h_run = Some i, h_ticket = None, h_kind = Review,
     h_title = ''Team assembled - review the workspace'',
     h_details = Some (''The orchestrator proposed '' @ show_nat (length proposed) @ '' agent(s): '' @
       join_with '', '' (map persona proposed) @
       ''.'' @ [CHR 0x0A, CHR 0x0A] @ ''Review and edit them in the Agents tab, then start the workspace when ready.''),
     h_options = None, h_blocking = False, h_status = Open, h_resolution = None, h_created = 0, h_resolved_at = None, h_resolved_by = None\<rparr>"

definition raced_issue :: "path_elem list \<Rightarrow> string \<Rightarrow> team_accept_result" where
  "raced_issue path what = Invalid [\<lparr>ti_path = path, ti_code = ''duplicate_name'',
     ti_message = ''an agent with one of the proposed '' @ what @ '' was created concurrently - adjust and re-submit''\<rparr>]"

definition apply_team :: "id \<Rightarrow> id \<Rightarrow> agent_report \<Rightarrow> team_agent list \<Rightarrow> team_accept_result handler" where
  "apply_team i ws rep proposed =
     bnd (gets w_executors) (\<lambda>profiles.
     catch (bnd (transaction
              (bnd (update_run i (\<lambda>r. active (r_status r))
                      (\<lambda>now r. r\<lparr>r_status := Succeeded, r_finished := Some now, r_outcome := Some Team, r_report := Some rep\<rparr>)) (\<lambda>hit.
               if \<not> hit then ret False
               else andthen (insert_team_agents profiles ws proposed)
                   (bnd (insert_task (review_task ws i proposed)) (\<lambda>_.
                    andthen (write_checks i rep) (ret True))))))
            (\<lambda>applied. ret (if applied then Applied (length proposed) else Conflict)))
       (\<lambda>e. if en_kind e = Unique_violation then ret (raced_issue [P_key ''team'', P_key ''agents''] ''keys'') else throw e))"

definition recast_report :: "agent_report \<Rightarrow> agent_report" where
  "recast_report rep = \<lparr>rp_schema_version = 1, rp_outcome = Failure,
     rp_summary = ''Agent returned an invalid \"team\" outcome - only the orchestrator'' @ [CHR 0x27] @ ''s workspace-setup run may propose a team. '' @
       ''Original summary: '' @ rp_summary rep,
     rp_checks = rp_checks rep, rp_human_task = None, rp_routing = None, rp_team = None, rp_artifacts = None\<rparr>"

definition finalize_invalid_outcome :: "id \<Rightarrow> agent_report \<Rightarrow> bool handler" where
  "finalize_invalid_outcome i rep = update_run i (\<lambda>r. active (r_status r))
     (\<lambda>now r. r\<lparr>r_status := Failed, r_finished := Some now, r_outcome := Some Failure, r_report := Some (recast_report rep),
        r_error := Some ''invalid team outcome from a non-setup run''\<rparr>)"

definition may_propose_team :: "run \<Rightarrow> agent \<Rightarrow> bool" where
  "may_propose_team r a \<longleftrightarrow> a_is_orchestrator a \<and> trigger_source (r_trigger r) = Some ''workspace-setup''"

definition run_with_agent :: "id \<Rightarrow> world \<Rightarrow> (run \<times> agent) option" where
  "run_with_agent i w = (case find_run i w of None \<Rightarrow> None
     | Some r \<Rightarrow> map_option (Pair r) (find_agent (r_agent r) w))"

definition accept_team_report :: "env \<Rightarrow> id \<Rightarrow> agent_report \<Rightarrow> team_accept_result handler" where
  "accept_team_report E i rep =
     (case (if rp_outcome rep = Team then rp_team rep else None) of
        None \<Rightarrow> ret (Invalid [\<lparr>ti_path = [P_key ''team''], ti_code = ''missing'', ti_message = ''team payload required''\<rparr>])
      | Some proposed \<Rightarrow>
          bnd (gets (run_with_agent i)) (\<lambda>row.
          case row of None \<Rightarrow> ret Conflict
          | Some (r, a) \<Rightarrow>
              if \<not> active (r_status r) then ret Conflict
              else if \<not> may_propose_team r a then
                bnd (finalize_invalid_outcome i rep) (\<lambda>hit. ret (if hit then Recast_failure else Conflict))
              else bnd (validate_team E (r_workspace r) proposed) (\<lambda>issues.
                if issues \<noteq> [] then ret (Invalid issues) else apply_team i (r_workspace r) rep proposed)))"

text \<open>The admin plane's \<open>create_team\<close>: the same validator and inserter, no run and no task.\<close>

definition create_team_direct :: "env \<Rightarrow> id \<Rightarrow> team_agent list \<Rightarrow> team_accept_result handler" where
  "create_team_direct E ws proposed =
     bnd (validate_team E ws proposed) (\<lambda>issues.
     if issues \<noteq> [] then ret (Invalid issues)
     else bnd (gets w_executors) (\<lambda>profiles.
       catch (andthen (transaction (insert_team_agents profiles ws proposed)) (ret (Applied (length proposed))))
         (\<lambda>e. if en_kind e = Unique_violation then ret (raced_issue [P_key ''agents''] ''names'') else throw e)))"

section \<open>Run steps\<close>

context base_relation
begin

lemma steps_validate_team [steps_intros]: "steps R (validate_team E ws ps)"
  unfolding validate_team_def fetch_board_def by (intro steps_intros)

lemma steps_insert_team [steps_intros]: "steps R (insert_team_agents profiles ws ps)"
  unfolding insert_team_agents_def by (intro steps_intros)

lemma steps_create_team_direct [steps_intros]: "steps R (create_team_direct E ws ps)"
  unfolding create_team_direct_def by (intro steps_intros)

end

context world_relation
begin

lemma steps_accept_team [steps_intros]: "steps R (accept_team_report E i rep)"
  unfolding accept_team_report_def apply_team_def finalize_invalid_outcome_def write_checks_def
  by (intro steps_intros R_update_run run_step.finish) (auto simp: same_run_def)

end

section \<open>The batch of rows\<close>

text \<open>
  What an accepted proposal asks for: the agent as proposed, on the enabled profile it names, a
  worker of the workspace without a JQL filter and with the schema's defaults. The keys are those the
  slugs yield, in the order of the proposal, each made unique against the keys in use before it.
\<close>

definition created_as :: "executor list \<Rightarrow> id \<Rightarrow> team_agent \<Rightarrow> agent \<Rightarrow> bool" where
  "created_as profiles ws p b \<longleftrightarrow>
     (\<exists>x\<in>set profiles. x_name x = ta_executor p \<and> x_enabled x \<and> a_executor b = x_id x) \<and>
     a_workspace b = ws \<and> a_name b = ta_name p \<and> a_role b = ta_role p \<and>
     a_description b = Some (ta_description p) \<and> a_instruction b = ta_instruction p \<and>
     a_trigger_status b = Some (ta_trigger_status p) \<and> a_trigger_jql b = None \<and>
     a_status_running b = ta_status_running p \<and> a_status_success b = ta_status_success p \<and>
     a_status_failure b = ta_status_failure p \<and> a_behavior b = JObj [] \<and> a_timeout_minutes b = 45 \<and>
     a_max_attempts b = 2 \<and> a_enabled b \<and> \<not> a_is_orchestrator b"

definition keys_in_turn :: "string list \<Rightarrow> team_agent list \<Rightarrow> agent list \<Rightarrow> bool" where
  "keys_in_turn taken ps new \<longleftrightarrow> length new = length ps \<and> (\<forall>n<length ps.
     ensure_unique_agent_key (team_key (ps ! n)) (rev (map a_key (take n new)) @ taken) = Some (a_key (new ! n)))"

lemma keys_in_turn_Cons:
  assumes "ensure_unique_agent_key (team_key p) taken = Some (a_key b)" and "keys_in_turn (a_key b # taken) ps new"
  shows "keys_in_turn taken (p # ps) (b # new)"
  unfolding keys_in_turn_def
proof (intro conjI allI impI)
  fix n
  assume "n < length (p # ps)"
  then show "ensure_unique_agent_key (team_key ((p # ps) ! n)) (rev (map a_key (take n (b # new))) @ taken) =
      Some (a_key ((b # new) ! n))"
    using assms by (cases n) (auto simp: keys_in_turn_def)
qed (use assms(2) in \<open>simp add: keys_in_turn_def\<close>)

definition usable :: "executor list \<Rightarrow> team_agent \<Rightarrow> bool" where
  "usable profiles p \<longleftrightarrow> (\<exists>x. profile_by_name profiles (ta_executor p) = Some x \<and> x_enabled x)"

lemma created_as_id [simp]: "created_as profiles ws p (b\<lparr>a_id := n\<rparr>) = created_as profiles ws p b"
  by (simp add: created_as_def)

lemma profile_found: "profile_by_name profiles n = Some x \<Longrightarrow> x \<in> set profiles \<and> x_name x = n"
  by (auto simp: profile_by_name_def dest: find_Some_mem)

lemma team_rows_ok:
  assumes "\<forall>p\<in>set ps. usable profiles p"
  shows "\<exists>rows. team_rows profiles ws taken ps = Some rows \<and> list_all2 (created_as profiles ws) ps rows \<and>
    keys_in_turn taken ps rows \<and> distinct (map a_key rows) \<and> a_key ` set rows \<inter> set taken = {} \<and>
    (\<forall>a\<in>set rows. a_id a = 0 \<and> a_workspace a = ws \<and> a_key a \<noteq> ORCHESTRATOR_AGENT_KEY)"
  using assms
proof (induction ps arbitrary: taken)
  case (Cons p ps)
  obtain k where k: "ensure_unique_agent_key (team_key p) taken = Some k" "is_free taken k"
    using ensure_unique_total by blast
  from Cons.prems obtain x where x: "profile_by_name profiles (ta_executor p) = Some x" "x_enabled x"
    by (auto simp: usable_def)
  obtain rows where rows: "team_rows profiles ws (k # taken) ps = Some rows" "list_all2 (created_as profiles ws) ps rows"
    "keys_in_turn (k # taken) ps rows" "distinct (map a_key rows)" "a_key ` set rows \<inter> set (k # taken) = {}"
    "\<forall>a\<in>set rows. a_id a = 0 \<and> a_workspace a = ws \<and> a_key a \<noteq> ORCHESTRATOR_AGENT_KEY"
    using Cons.IH [of "k # taken"] Cons.prems by auto
  obtain b where b: "team_rows profiles ws taken (p # ps) = Some (b # rows)" "created_as profiles ws p b" "a_key b = k" "a_id b = 0" "a_workspace b = ws"
    using rows(1) k(1) x profile_found [OF x(1)] by (auto simp: created_as_def)
  have "keys_in_turn taken (p # ps) (b # rows)" using k(1) b(3) rows(3) by (intro keys_in_turn_Cons) simp_all
  then show ?case
    using k(2) b rows by (intro exI [of _ "b # rows"]) (auto simp: is_free_def RESERVED_AGENT_KEYS_def simp del: team_rows.simps)
qed (simp add: keys_in_turn_def)

lemma insert_agents_app:
  assumes "\<forall>a\<in>set rows. a_id a = 0 \<and> a_workspace a = ws" and "distinct (map a_key rows)"
    and "a_key ` set (workspace_agents ws w) \<inter> a_key ` set rows = {}"
  shows "\<exists>new. for_each rows insert_agent w =
      (Inr (), w\<lparr>w_agents := w_agents w @ new, w_next := w_next w + length rows\<rparr>) \<and>
    map (\<lambda>a. a\<lparr>a_id := 0\<rparr>) new = rows \<and> map a_id new = [w_next w..<w_next w + length rows]"
  using assms
proof (induction rows arbitrary: w)
  case Nil
  show ?case by (intro exI [of _ "[]"]) (simp add: ret_app)
next
  case (Cons a rows)
  let ?a = "a\<lparr>a_id := w_next w\<rparr>"
  let ?v = "w\<lparr>w_agents := w_agents w @ [?a], w_next := Suc (w_next w)\<rparr>"
  have free: "\<not> (\<exists>b\<in>set (w_agents w). a_workspace b = a_workspace a \<and> a_key b = a_key a)"
  proof
    assume "\<exists>b\<in>set (w_agents w). a_workspace b = a_workspace a \<and> a_key b = a_key a"
    then obtain b where "b \<in> set (workspace_agents ws w)" "a_key b = a_key a"
      using Cons.prems(1) by (auto simp: workspace_agents_def)
    then show False using Cons.prems(3) by (metis IntI empty_iff imageI list.set_intros(1))
  qed
  then have ins: "insert_agent a w = (Inr (), ?v)" unfolding insert_agent_def by (simp only: free if_False)
  have 1: "\<forall>a\<in>set rows. a_id a = 0 \<and> a_workspace a = ws" and 2: "distinct (map a_key rows)"
    using Cons.prems(1,2) by simp_all
  have "a_key ` set (workspace_agents ws ?v) \<inter> a_key ` set rows = {}"
    using Cons.prems by (auto simp: workspace_agents_def)
  from Cons.IH [OF 1 2 this] obtain new where
    new: "for_each rows insert_agent ?v = (Inr (), ?v\<lparr>w_agents := w_agents ?v @ new, w_next := w_next ?v + length rows\<rparr>)"
      "map (\<lambda>a. a\<lparr>a_id := 0\<rparr>) new = rows" "map a_id new = [w_next ?v..<w_next ?v + length rows]" by blast
  have "[w_next w..<w_next w + length (a # rows)] = w_next w # [w_next ?v..<w_next ?v + length rows]"
    by (subst upt_conv_Cons) simp_all
  then show ?case
    by (intro exI [of _ "?a # new"]) (use ins new Cons.prems(1) in \<open>simp add: andthen_app\<close>)
qed

lemma rows_numbered:
  assumes "map (\<lambda>a. a\<lparr>a_id := 0\<rparr>) new = rows"
  shows "map a_key new = map a_key rows" "keys_in_turn taken ps rows \<Longrightarrow> keys_in_turn taken ps new"
    "list_all2 (created_as profiles ws) ps rows \<Longrightarrow> list_all2 (created_as profiles ws) ps new"
proof -
  show "map a_key new = map a_key rows" using assms by auto
  show "keys_in_turn taken ps new" if "keys_in_turn taken ps rows"
    using that assms by (auto simp: keys_in_turn_def take_map o_def)
  show "list_all2 (created_as profiles ws) ps new" if "list_all2 (created_as profiles ws) ps rows"
    using that unfolding assms [symmetric] by (simp add: list_all2_map2)
qed

lemma handles_append:
  assumes "distinct (map agent_handle as)" and "distinct (map a_key new)" and "\<forall>b\<in>set new. a_workspace b = ws"
    and "a_key ` set new \<inter> a_key ` set (filter (\<lambda>a. a_workspace a = ws) as) = {}"
  shows "distinct (map agent_handle (as @ new))"
proof -
  have "distinct (map agent_handle new)" using assms(2) by (auto simp: distinct_map inj_on_def agent_handle_def)
  moreover have "agent_handle b \<noteq> agent_handle c" if "b \<in> set as" "c \<in> set new" for b c
    using that assms(3,4) by (auto simp: agent_handle_def disjoint_iff)
  then have "agent_handle ` set as \<inter> agent_handle ` set new = {}" by blast
  ultimately show ?thesis using assms(1) by simp
qed

lemma check_agents_usable:
  "check_agents existing profiles board prior ps = [] \<Longrightarrow> p \<in> set ps \<Longrightarrow> usable profiles p"
  by (induction ps arbitrary: prior) (auto simp: executor_issues_def usable_def split: option.splits if_splits)

lemma fetch_board_jira: "\<exists>js. snd (fetch_board E ws w) = w\<lparr>w_jira := js\<rparr>"
proof -
  have "\<exists>js. w = w\<lparr>w_jira := js\<rparr>" by (rule exI [of _ "w_jira w"]) simp
  then show ?thesis
    by (auto simp: fetch_board_def act_simps jira_connect_def jira_project_statuses_def answer_app done_or_def
        split: option.splits sum.splits prod.splits)
qed

lemma validate_team_jira: "\<exists>js. snd (validate_team E ws ps w) = w\<lparr>w_jira := js\<rparr>"
  using fetch_board_jira [of E ws w]
  by (auto simp: validate_team_def act_simps split: prod.splits sum.splits)

lemma fetch_board_issues: "fst (fetch_board E ws w) \<noteq> Inr (Inl [])"
  by (auto simp: fetch_board_def act_simps split: option.splits sum.splits prod.splits)

lemma validated_usable:
  assumes "fst (validate_team E ws ps w) = Inr []" and "p \<in> set ps"
  shows "usable (w_executors w) p"
proof -
  obtain js where js: "snd (fetch_board E ws w) = w\<lparr>w_jira := js\<rparr>" using fetch_board_jira by blast
  obtain existing board where "check_agents existing (w_executors w) board [] ps = []"
    using assms(1) js fetch_board_issues [of E ws w] by (auto simp: validate_team_def act_simps split: prod.splits sum.splits)
  then show ?thesis using check_agents_usable assms(2) by blast
qed

lemma apply_team_out:
  assumes "apply_team i ws rep ps w = (res, w')"
  shows "(\<exists>n. res = Inr (Applied n)) \<or> w' = w"
proof -
  let ?upd = "update_run i (\<lambda>r. active (r_status r))
      (\<lambda>now r. r\<lparr>r_status := Succeeded, r_finished := Some now, r_outcome := Some Team, r_report := Some rep\<rparr>)"
  let ?tx = "bnd ?upd (\<lambda>hit. if \<not> hit then ret False
       else andthen (insert_team_agents (w_executors w) ws ps)
           (bnd (insert_task (review_task ws i ps)) (\<lambda>_. andthen (write_checks i rep) (ret True))))"
  have refused: "v = w" if "?tx w = (Inr False, v)" for v
  proof (cases rule: update_run_cases [of i "\<lambda>r. active (r_status r)"
      "\<lambda>now r. r\<lparr>r_status := Succeeded, r_finished := Some now, r_outcome := Some Team, r_report := Some rep\<rparr>" w])
    case none
    with that show ?thesis by (simp only: bnd_app) (simp add: ret_app)
  next
    case clash
    with that show ?thesis by (simp only: bnd_app) simp
  next
    case hit
    with that show ?thesis
      by (simp only: bnd_app) (simp add: act_simps split: prod.splits sum.splits)
  qed
  obtain x v where x: "?tx w = (x, v)" by fastforce
  show ?thesis
  proof (cases x)
    case (Inl e)
    with assms x show ?thesis unfolding apply_team_def
      by (auto simp: gets_app bnd_app [of "gets w_executors"] catch_app bnd_app [of "transaction _"] transaction_app ret_app throw_app
          split: if_splits)
  next
    case (Inr b)
    then show ?thesis using assms x refused unfolding apply_team_def
      by (cases b) (auto simp: gets_app bnd_app [of "gets w_executors"] catch_app bnd_app [of "transaction _"] transaction_app ret_app)
  qed
qed

lemma accept_cases:
  obtains (early) x where "accept_team_report E i rep w = (Inr x, w)"
  | (recast) "accept_team_report E i rep w =
      bnd (finalize_invalid_outcome i rep) (\<lambda>hit. ret (if hit then Recast_failure else Conflict)) w"
  | (team) r :: run and ps where "accept_team_report E i rep w = bnd (validate_team E (r_workspace r) ps) (\<lambda>issues.
      if issues \<noteq> [] then ret (Invalid issues) else apply_team i (r_workspace r) rep ps) w"
proof (cases "if rp_outcome rep = Team then rp_team rep else None")
  case None
  have "\<exists>x. accept_team_report E i rep w = (Inr x, w)"
    unfolding accept_team_report_def None by (simp add: ret_app)
  then show thesis using early by blast
next
  case (Some ps)
  note run = accept_team_report_def Some option.case bnd_app [of "gets _"] gets_app prod.case sum.case
  show thesis
  proof (cases "run_with_agent i w")
    case None
    then show thesis by (intro early [of Conflict]) (simp only: run, simp add: ret_app)
  next
    case row: (Some ra)
    obtain r a where ra: "ra = (r, a)" by (cases ra)
    show thesis
    proof (cases "active (r_status r)")
      case False
      then show thesis by (intro early [of Conflict]) (simp only: run row ra not_False_eq_True if_True ret_app)
    next
      case active: True
      show thesis
      proof (cases "may_propose_team r a")
        case False
        then show thesis by (intro recast) (simp only: run row ra active not_True_eq_False not_False_eq_True if_False if_True)
      next
        case True
        then show thesis by (intro team [of r ps]) (simp only: run row ra active not_True_eq_False if_False)
      qed
    qed
  qed
qed

section \<open>Properties\<close>

text \<open>
  C10. A valid proposal is applied as a whole: for an active workspace-setup run of the
  orchestrator whose proposal passes validation, the run succeeds with the report stored; the rows
  added are the proposed agents in order, with fresh ids, each with its name, role, description,
  instruction, trigger and target statuses as proposed, on the enabled profile it names, keyed by its
  own slug made unique, never by the orchestrator's key, all handles of the installation still
  distinct; exactly one open non-blocking review task is queued and the checklist is recorded.
\<close>

theorem valid_team_applied:
  assumes "world_ok w" and "run_with_agent i w = Some (r, a)" and "active (r_status r)" and "may_propose_team r a"
    and "rp_outcome rep = Team" and "rp_team rep = Some ps"
    and "fst (validate_team E (r_workspace r) ps w) = Inr []"
  shows "\<exists>w' new t. accept_team_report E i rep w = (Inr (Applied (length ps)), w') \<and>
    find_run i w' = Some (r\<lparr>r_status := Succeeded, r_finished := Some (w_now w), r_outcome := Some Team, r_report := Some rep\<rparr>) \<and>
    w_agents w' = w_agents w @ new \<and> list_all2 (created_as (w_executors w) (r_workspace r)) ps new \<and>
    map a_id new = [w_next w..<w_next w + length ps] \<and>
    keys_in_turn (map a_key (workspace_agents (r_workspace r) w)) ps new \<and>
    distinct (map agent_handle (w_agents w')) \<and> list_all (\<lambda>b. a_key b \<noteq> ORCHESTRATOR_AGENT_KEY) new \<and>
    w_tasks w' = w_tasks w @ [t] \<and> h_kind t = Review \<and> \<not> h_blocking t \<and> h_status t = Open \<and> h_run t = Some i \<and>
    w_checks w' = w_checks w @ check_rows i rep"
proof -
  let ?ws = "r_workspace r"
  let ?r' = "r\<lparr>r_status := Succeeded, r_finished := Some (w_now w), r_outcome := Some Team, r_report := Some rep\<rparr>"
  from assms(2) have run: "find_run i w = Some r" by (auto simp: run_with_agent_def split: option.splits)
  then have r: "r \<in> set (w_runs w)" "r_id r = i" using find_run_Some by blast+
  obtain js where v: "validate_team E ?ws ps w = (Inr [], w\<lparr>w_jira := js\<rparr>)"
    using validate_team_jira [of E ?ws ps w] assms(7) by (metis prod.collapse)
  let ?v = "w\<lparr>w_jira := js\<rparr>"
  let ?v1 = "?v\<lparr>w_runs := map (\<lambda>s. if r_id s = r_id r then ?r' else s) (w_runs ?v)\<rparr>"
  have ok: "world_ok ?v" using assms(1) by (simp add: world_ok_def)
  have upd: "update_run i (\<lambda>r. active (r_status r))
      (\<lambda>now r. r\<lparr>r_status := Succeeded, r_finished := Some now, r_outcome := Some Team, r_report := Some rep\<rparr>) ?v = (Inr True, ?v1)"
    using update_run_hit [OF ok, of r "\<lambda>r. active (r_status r)"
        "\<lambda>now r. r\<lparr>r_status := Succeeded, r_finished := Some now, r_outcome := Some Team, r_report := Some rep\<rparr>"] r assms(3)
    by (simp add: same_run_def)
  have taken: "workspace_agents ?ws ?v1 = workspace_agents ?ws w" by (simp add: workspace_agents_def)
  obtain rows where rows: "team_rows (w_executors w) ?ws (map a_key (workspace_agents ?ws w)) ps = Some rows"
      "list_all2 (created_as (w_executors w) ?ws) ps rows" "keys_in_turn (map a_key (workspace_agents ?ws w)) ps rows"
      "distinct (map a_key rows)" "a_key ` set rows \<inter> set (map a_key (workspace_agents ?ws w)) = {}"
      "\<forall>a\<in>set rows. a_id a = 0 \<and> a_workspace a = ?ws \<and> a_key a \<noteq> ORCHESTRATOR_AGENT_KEY"
    using team_rows_ok [of ps "w_executors w"] validated_usable [OF assms(7)] by blast
  have len: "length rows = length ps" using rows(2) by (simp add: list_all2_lengthD)
  obtain new where new: "for_each rows insert_agent ?v1 =
        (Inr (), ?v1\<lparr>w_agents := w_agents ?v1 @ new, w_next := w_next ?v1 + length rows\<rparr>)"
      "map (\<lambda>a. a\<lparr>a_id := 0\<rparr>) new = rows" "map a_id new = [w_next ?v1..<w_next ?v1 + length rows]"
    using insert_agents_app [of rows ?ws ?v1] rows(4-6) taken by (auto simp: Int_commute)
  let ?n = "w_next w + length ps"
  let ?t = "(review_task ?ws i ps)\<lparr>h_id := ?n, h_created := w_now w\<rparr>"
  let ?w' = "?v1\<lparr>w_agents := w_agents w @ new, w_next := Suc ?n, w_tasks := w_tasks w @ [?t],
      w_checks := w_checks w @ check_rows i rep\<rparr>"
  have "insert_team_agents (w_executors w) ?ws ps ?v1 = (Inr (), ?v1\<lparr>w_agents := w_agents w @ new, w_next := ?n\<rparr>)"
    using rows(1) new(1) taken len by (simp add: insert_team_agents_def act_simps)
  then have acc: "accept_team_report E i rep w = (Inr (Applied (length ps)), ?w')"
    using assms(2-6) v upd
    by (simp add: accept_team_report_def apply_team_def act_simps insert_task_def write_checks_app)
  have props: "b \<in> set new \<Longrightarrow> a_workspace b = ?ws \<and> a_key b \<noteq> ORCHESTRATOR_AGENT_KEY" for b
    using rows(6) new(2) by auto
  note keys = rows_numbered(1) [OF new(2)]
  have "distinct (map agent_handle (w_agents w @ new))"
  proof (rule handles_append)
    show "distinct (map agent_handle (w_agents w))" using assms(1) by (simp add: world_ok_def)
    show "distinct (map a_key new)" using rows(4) keys by simp
    show "\<forall>b\<in>set new. a_workspace b = ?ws" using props by blast
    show "a_key ` set new \<inter> a_key ` set (filter (\<lambda>a. a_workspace a = ?ws) (w_agents w)) = {}"
      using rows(5) arg_cong [OF keys, of set] unfolding workspace_agents_def [symmetric] by (simp only: set_map)
  qed
  moreover have "find_run i ?w' = Some ?r'" using find_run_updated [OF r(1), of ?r' ?w'] r(2) by simp
  ultimately show ?thesis
    using acc props rows_numbered(2,3) [OF new(2)] rows(2,3) new(3) len
    by (intro exI [of _ ?w'] exI [of _ new] exI [of _ ?t]) (simp add: review_task_def list_all_iff)
qed

text \<open>
  C11. All or nothing: when the proposal is not applied - it is invalid, the run is not active,
  a handle raced another insert, or an error is thrown - nothing of the database has changed: no
  agent, no task, no check and no change to any run; only Jira may have been asked for its
  statuses. The one exception is a team from a run that may not propose one, and then only runs
  changed.
\<close>

theorem team_all_or_nothing:
  assumes "accept_team_report E i rep w = (res, w')" and "\<forall>n. res \<noteq> Inr (Applied n)"
  shows "w' = w\<lparr>w_jira := w_jira w', w_runs := w_runs w'\<rparr> \<and> (res \<noteq> Inr Recast_failure \<longrightarrow> w_runs w' = w_runs w)"
proof -
  have same: "w = w\<lparr>w_jira := w_jira w, w_runs := w_runs w\<rparr>" by simp
  have ex: "\<exists>rs. w = w\<lparr>w_runs := rs\<rparr>" by (rule exI [of _ "w_runs w"]) simp
  have invalid: "(\<exists>rs. snd (finalize_invalid_outcome i rep w) = w\<lparr>w_runs := rs\<rparr>) \<and>
      (fst (finalize_invalid_outcome i rep w) \<noteq> Inr True \<longrightarrow> snd (finalize_invalid_outcome i rep w) = w)"
    unfolding finalize_invalid_outcome_def
    by (rule update_run_cases [of i "\<lambda>r. active (r_status r)" "\<lambda>now r. r\<lparr>r_status := Failed, r_finished := Some now,
        r_outcome := Some Failure, r_report := Some (recast_report rep), r_error := Some ''invalid team outcome from a non-setup run''\<rparr>" w])
       (use ex in auto)
  show ?thesis
  proof (cases rule: accept_cases [of E i rep w])
    case early
    with same assms(1) show ?thesis by simp
  next
    case recast
    obtain x v where x: "finalize_invalid_outcome i rep w = (x, v)" by fastforce
    with invalid obtain rs where v: "v = w\<lparr>w_runs := rs\<rparr>" "x \<noteq> Inr True \<longrightarrow> v = w" by auto
    have "w' = v" using recast assms(1) x by (cases x) (simp_all add: act_simps)
    moreover have "w' = w" if "res \<noteq> Inr Recast_failure"
      using recast assms(1) x v(2) that by (cases x) (simp_all add: act_simps split: if_splits)
    ultimately show ?thesis using v(1) by auto
  next
    case (team r ps)
    obtain x v where x: "validate_team E (r_workspace r) ps w = (x, v)" by fastforce
    obtain js where js: "v = w\<lparr>w_jira := js\<rparr>" using validate_team_jira [of E "r_workspace r" ps w] x by auto
    have "w' = v"
    proof (cases x)
      case (Inr issues)
      show ?thesis
      proof (cases "issues = []")
        case True
        then have "apply_team i (r_workspace r) rep ps v = (res, w')" using team assms(1) x Inr by (simp add: act_simps)
        then show ?thesis using apply_team_out assms(2) by blast
      qed (use team assms(1) x Inr in \<open>simp add: act_simps\<close>)
    qed (use team assms(1) x in \<open>simp add: act_simps\<close>)
    then show ?thesis using js by simp
  qed
qed

definition setup_env :: env where
  "setup_env = sample_env\<lparr>env_statuses := \<lambda>_ _ _. Inr [''To Do'', ''In Progress'', ''Review'']\<rparr>"

definition setup_world :: world where
  "setup_world = (sample_world [(sample_run 7 None Running)\<lparr>r_trigger := JObj [(''source'', JStr ''workspace-setup'')]\<rparr>])
     \<lparr>w_agents := [sample_agent\<lparr>a_is_orchestrator := True, a_key := ''brigadir'', a_trigger_status := None\<rparr>]\<rparr>"

definition team_report :: agent_report where
  "team_report = \<lparr>rp_schema_version = 1, rp_outcome = Team, rp_summary = ''team'', rp_checks = [],
     rp_human_task = None, rp_routing = None,
     rp_team = Some [\<lparr>ta_name = ''Hera'', ta_role = Some ''Reviewer'', ta_description = ''d'', ta_instruction = ''i'',
       ta_trigger_status = ''To Do'', ta_status_running = None, ta_status_success = ''Review'',
       ta_status_failure = ''To Do'', ta_executor = ''claude''\<rparr>], rp_artifacts = None\<rparr>"

theorem valid_team_applied_witness:
  "\<exists>w' new. accept_team_report setup_env 7 team_report setup_world = (Inr (Applied 1), w') \<and>
     w_agents w' = w_agents setup_world @ new \<and> map a_name new = [''Hera''] \<and>
     map a_status_success new = [''Review''] \<and> map a_status_failure new = [''To Do''] \<and> map a_key new = [''hera-reviewer'']"
proof -
  let ?r = "(sample_run 7 None Running)\<lparr>r_trigger := JObj [(''source'', JStr ''workspace-setup'')]\<rparr>"
  let ?a = "sample_agent\<lparr>a_is_orchestrator := True, a_key := ''brigadir'', a_trigger_status := None\<rparr>"
  let ?ps = "the (rp_team team_report)"
  have "world_ok (sample_world [?r])" by (rule sample_world_ok) (simp_all add: sample_run_def one_active_single)
  then have ok: "world_ok setup_world" by (simp add: world_ok_def setup_world_def)
  have row: "run_with_agent 7 setup_world = Some (?r, ?a)"
    by (simp add: run_with_agent_def find_run_def find_agent_def setup_world_def sample_defs)
  have act: "active (r_status ?r)" "may_propose_team ?r ?a"
    by (simp_all add: active_def may_propose_team_def trigger_source_def jget_str_def sample_run_def)
  have rep: "rp_outcome team_report = Team" "rp_team team_report = Some ?ps" by (simp_all add: team_report_def)
  have valid: "fst (validate_team setup_env (r_workspace ?r) ?ps setup_world) = Inr []" by code_simp
  have key: "ensure_unique_agent_key (team_key (?ps ! 0)) (map a_key (workspace_agents (r_workspace ?r) setup_world)) =
      Some ''hera-reviewer''" and one: "length ?ps = 1" "?ps ! 0 = hd ?ps" by code_simp+
  from valid_team_applied [OF ok row act rep valid] obtain w' new where
    res: "accept_team_report setup_env 7 team_report setup_world = (Inr (Applied 1), w')"
      "w_agents w' = w_agents setup_world @ new" "list_all2 (created_as (w_executors setup_world) (r_workspace ?r)) ?ps new"
      "keys_in_turn (map a_key (workspace_agents (r_workspace ?r) setup_world)) ?ps new"
    unfolding one by blast
  obtain b where b: "new = [b]" using res(3) one by (cases new) (auto simp: list_all2_iff)
  have "created_as (w_executors setup_world) (r_workspace ?r) (?ps ! 0) b"
    using res(3) one(1) unfolding b by (simp add: list_all2_conv_all_nth)
  then have "a_name b = ''Hera''" "a_status_success b = ''Review''" "a_status_failure b = ''To Do''"
    by (simp_all add: created_as_def team_report_def)
  moreover have "a_key b = ''hera-reviewer''" using res(4) key one(1) unfolding b by (simp add: keys_in_turn_def)
  ultimately show ?thesis using res(1,2) b by simp
qed

theorem team_all_or_nothing_witness:
  "snd (accept_team_report setup_env 7 sample_report setup_world) =
     setup_world\<lparr>w_jira := w_jira (snd (accept_team_report setup_env 7 sample_report setup_world)),
       w_runs := w_runs (snd (accept_team_report setup_env 7 sample_report setup_world))\<rparr>"
proof -
  have "fst (accept_team_report setup_env 7 sample_report setup_world) \<noteq> Inr (Applied n)" for n
    by (simp add: accept_team_report_def sample_report_def ret_app)
  with team_all_or_nothing [of setup_env 7 sample_report setup_world, OF surjective_pairing] show ?thesis by blast
qed

end
