(* ===== verification/RunsApi.thy ===== *)
theory RunsApi
  imports Pipeline JsValues RunToken "HOL-Library.Product_Lexorder"
begin

text \<open>
  The runs surface of the dashboard (\<open>apps/backend/src/dashboard/runs.controller.ts\<close>, with
  \<open>dashboard.helpers.ts\<close> and the query schemas of \<open>packages/contracts\<close>): the paginated table of a
  workspace, the bounded list across workspaces, the card of a run, the spend figure, and the three
  writes - cancel, cancel all, retry. Ids compare as numbers. Where an \<open>ORDER BY\<close> leaves rows tied,
  the order Postgres yields them in is an argument.
\<close>

section \<open>Query parameters\<close>

definition DEFAULT_PAGE_SIZE :: int where
  "DEFAULT_PAGE_SIZE = 10"

definition MAX_PAGE_SIZE :: int where
  "MAX_PAGE_SIZE = 100"

definition GLOBAL_RUNS_DEFAULT_LIMIT :: int where
  "GLOBAL_RUNS_DEFAULT_LIMIT = 10"

definition GLOBAL_RUNS_MAX_LIMIT :: int where
  "GLOBAL_RUNS_MAX_LIMIT = 50"

text \<open>\<open>z.coerce.number().int().min(1).max(hi).catch(d).default(d)\<close> on a query parameter.\<close>

definition positive_param :: "int \<Rightarrow> int \<Rightarrow> string option \<Rightarrow> int" where
  "positive_param hi d raw = (case raw of None \<Rightarrow> d
     | Some s \<Rightarrow> (case js_number s of None \<Rightarrow> d
        | Some q \<Rightarrow> if q = of_int \<lfloor>q\<rfloor> \<and> 1 \<le> \<lfloor>q\<rfloor> \<and> \<lfloor>q\<rfloor> \<le> hi then \<lfloor>q\<rfloor> else d))"

record pagination =
  pg_page :: int
  pg_size :: int
  pg_offset :: int

definition parse_pagination :: "string option \<Rightarrow> string option \<Rightarrow> pagination" where
  "parse_pagination page sz =
     (let p = positive_param MAX_SAFE_INTEGER 1 page; n = positive_param MAX_PAGE_SIZE DEFAULT_PAGE_SIZE sz
      in \<lparr>pg_page = p, pg_size = n, pg_offset = (p - 1) * n\<rparr>)"

text \<open>\<open>LIMIT n OFFSET o\<close>.\<close>

definition window :: "pagination \<Rightarrow> 'a list \<Rightarrow> 'a list" where
  "window pg xs = take (nat (pg_size pg)) (drop (nat (pg_offset pg)) xs)"

text \<open>A query parameter is used when it is a non-empty string.\<close>

definition given :: "string option \<Rightarrow> string option" where
  "given s = (case s of Some (c # cs) \<Rightarrow> s | _ \<Rightarrow> None)"

text \<open>\<open>text ILIKE pattern\<close>: \<open>%\<close>, \<open>_\<close> and the backslash are special.\<close>

fun like :: "string \<Rightarrow> string \<Rightarrow> bool" where
  "like [] t \<longleftrightarrow> t = []"
| "like (p # ps) t \<longleftrightarrow>
     (if p = CHR ''%'' then like ps t \<or> (case t of [] \<Rightarrow> False | c # cs \<Rightarrow> like (p # ps) cs)
      else if p = CHR 0x5C then (case (ps, t) of (q # qs, c # cs) \<Rightarrow> c = q \<and> like qs cs | _ \<Rightarrow> False)
      else (case t of [] \<Rightarrow> False | c # cs \<Rightarrow> (p = CHR ''_'' \<or> c = p) \<and> like ps cs))"

definition ilike :: "string \<Rightarrow> string \<Rightarrow> bool" where
  "ilike pat t = like (to_lower pat) (to_lower t)"

section \<open>What a row shows\<close>

definition strip_slashes :: "string \<Rightarrow> string" where
  "strip_slashes s = rev (dropWhile (\<lambda>c. c = CHR ''/'') (rev s))"

definition deep_link :: "string \<Rightarrow> string \<Rightarrow> string" where
  "deep_link site key = strip_slashes site @ ''/browse/'' @ key"

definition duration_ms :: "int \<Rightarrow> int option \<Rightarrow> int option \<Rightarrow> int option" where
  "duration_ms now started finished = (case started of None \<Rightarrow> None
     | Some t \<Rightarrow> Some ((case finished of Some u \<Rightarrow> u | None \<Rightarrow> now) - t))"

record agent_ref =
  agr_id :: id
  agr_name :: string
  agr_key :: string
  agr_role :: "string option"

record ticket_ref =
  tr_key :: string
  tr_summary :: "string option"
  tr_url :: string

record run_item =
  ri_run :: id
  ri_agent :: agent_ref
  ri_ticket :: "ticket_ref option"
  ri_status :: run_status
  ri_attempt :: int
  ri_executor_type :: string
  ri_duration :: "int option"
  ri_started :: "int option"
  ri_cost :: "rat option"
  ri_created :: int
  ri_alert :: bool

definition agent_ref_of :: "agent \<Rightarrow> agent_ref" where
  "agent_ref_of a = \<lparr>agr_id = a_id a, agr_name = a_name a, agr_key = a_key a, agr_role = a_role a\<rparr>"

definition ticket_of :: "world \<Rightarrow> run \<Rightarrow> ticket option" where
  "ticket_of w r = Option.bind (r_ticket r) (\<lambda>t. find_ticket t w)"

definition ticket_ref_of :: "string \<Rightarrow> world \<Rightarrow> run \<Rightarrow> ticket_ref option" where
  "ticket_ref_of site w r = map_option (\<lambda>t. \<lparr>tr_key = t_jira_key t, tr_summary = t_summary t,
     tr_url = deep_link site (t_jira_key t)\<rparr>) (ticket_of w r)"

definition callback_alert :: "world \<Rightarrow> run \<Rightarrow> bool" where
  "callback_alert w r = list_ex (\<lambda>e. e_run e = r_id r \<and> (e_type e = Ev_undelivered_report \<or> e_type e = Ev_channel_failure)) (w_events w)"

text \<open>A run with the agent it is joined to; a run without one drops out of the join.\<close>

definition run_item_of :: "string \<Rightarrow> world \<Rightarrow> run \<Rightarrow> run_item option" where
  "run_item_of site w r = map_option (\<lambda>a. \<lparr>ri_run = r_id r, ri_agent = agent_ref_of a,
     ri_ticket = ticket_ref_of site w r, ri_status = r_status r, ri_attempt = r_attempt r,
     ri_executor_type = r_executor_type r, ri_duration = duration_ms (w_now w) (r_started r) (r_finished r),
     ri_started = r_started r, ri_cost = r_cost r, ri_created = r_created r, ri_alert = callback_alert w r\<rparr>)
     (find_agent (r_agent r) w)"

definition site_url :: "world \<Rightarrow> id \<Rightarrow> string" where
  "site_url w ws = (case find_workspace ws w of Some s \<Rightarrow> s_site_url s | None \<Rightarrow> [])"

section \<open>The table of a workspace\<close>

record runs_query =
  rq_agent :: "id option"
  rq_status :: "string option"
  rq_ticket :: "string option"
  rq_source :: "string option"

definition runs_filter :: "world \<Rightarrow> id \<Rightarrow> runs_query \<Rightarrow> run \<Rightarrow> bool" where
  "runs_filter w ws q r \<longleftrightarrow> r_workspace r = ws \<and> opt_all (\<lambda>a. r_agent r = a) (rq_agent q) \<and>
     opt_all (\<lambda>s. status_name (r_status r) = s) (given (rq_status q)) \<and>
     opt_all (\<lambda>k. case ticket_of w r of None \<Rightarrow> False | Some t \<Rightarrow> ilike (''%'' @ k @ ''%'') (t_jira_key t)) (given (rq_ticket q)) \<and>
     opt_all (\<lambda>s. trigger_source (r_trigger r) = Some s) (given (rq_source q))"

record 'a page_result =
  pp_items :: "'a list"
  pp_page :: int
  pp_size :: int
  pp_total :: nat

text \<open>\<open>ORDER BY created_at DESC\<close>: \<open>db_order\<close> is the order the rows come out in.\<close>

definition list_runs :: "(run list \<Rightarrow> run list) \<Rightarrow> world \<Rightarrow> id \<Rightarrow> runs_query \<Rightarrow> string option \<Rightarrow> string option \<Rightarrow>
    run_item page_result" where
  "list_runs db_order w ws q page sz =
     (let pg = parse_pagination page sz; rows = filter (runs_filter w ws q) (w_runs w)
      in \<lparr>pp_items = window pg (List.map_filter (run_item_of (site_url w ws) w) (db_order rows)),
          pp_page = pg_page pg, pp_size = pg_size pg, pp_total = length rows\<rparr>)"

definition newest_first :: "(run list \<Rightarrow> run list) \<Rightarrow> bool" where
  "newest_first db_order \<longleftrightarrow> (\<forall>rs. mset (db_order rs) = mset rs \<and> sorted (map (\<lambda>r. - r_created r) (db_order rs)))"

section \<open>The spend of a workspace\<close>

definition HOUR_MS :: int where
  "HOUR_MS = 3600000"

definition period_hours :: "string \<Rightarrow> int option" where
  "period_hours p = (if p = ''24h'' then Some 24 else if p = ''7d'' then Some (24 * 7) else if p = ''30d'' then Some (24 * 30) else None)"

text \<open>\<open>RunCostPeriodSchema.catch('7d')\<close>.\<close>

definition cost_hours :: "string option \<Rightarrow> int" where
  "cost_hours raw = (case raw of None \<Rightarrow> 24 * 7 | Some p \<Rightarrow> (case period_hours p of None \<Rightarrow> 24 * 7 | Some h \<Rightarrow> h))"

definition created_within :: "world \<Rightarrow> int \<Rightarrow> run \<Rightarrow> bool" where
  "created_within w hours r \<longleftrightarrow> w_now w - hours * HOUR_MS \<le> r_created r"

definition sum_cost :: "run list \<Rightarrow> rat" where
  "sum_cost rs = sum_list (map (\<lambda>r. case r_cost r of Some c \<Rightarrow> c | None \<Rightarrow> 0) rs)"

definition runs_cost :: "world \<Rightarrow> id \<Rightarrow> string option \<Rightarrow> rat \<times> nat" where
  "runs_cost w ws period =
     (let rs = filter (\<lambda>r. r_workspace r = ws \<and> created_within w (cost_hours period) r) (w_runs w)
      in (sum_cost rs, length rs))"

section \<open>The list across workspaces\<close>

definition status_of_name :: "string \<Rightarrow> run_status option" where
  "status_of_name s = find (\<lambda>x. status_name x = s)
     [Queued, Running, Awaiting_human, Succeeded, Failed, Cancelled, Timed_out, Superseded]"

fun all_some :: "'a option list \<Rightarrow> 'a list option" where
  "all_some [] = Some []"
| "all_some (None # xs) = None"
| "all_some (Some x # xs) = map_option ((#) x) (all_some xs)"

text \<open>\<open>GlobalRunsStatusFilterSchema\<close>: a comma-separated list, required and not empty.\<close>

definition status_filter :: "string option \<Rightarrow> run_status list option" where
  "status_filter raw = (case raw of None \<Rightarrow> None
     | Some s \<Rightarrow> (case all_some (map status_of_name (filter (\<lambda>x. x \<noteq> []) (map js_trim (split_on (CHR '','') s)))) of
         Some (x # xs) \<Rightarrow> Some (x # xs) | _ \<Rightarrow> None))"

record global_query =
  gq_status :: "run_status list"
  gq_within :: "int option"
  gq_limit :: int

definition global_query_of :: "string option \<Rightarrow> string option \<Rightarrow> string option \<Rightarrow> global_query option" where
  "global_query_of status period limit = (case status_filter status of None \<Rightarrow> None
     | Some ss \<Rightarrow> (case period of
         None \<Rightarrow> Some \<lparr>gq_status = ss, gq_within = None, gq_limit = positive_param GLOBAL_RUNS_MAX_LIMIT GLOBAL_RUNS_DEFAULT_LIMIT limit\<rparr>
       | Some p \<Rightarrow> (case period_hours p of None \<Rightarrow> None
           | Some h \<Rightarrow> Some \<lparr>gq_status = ss, gq_within = Some h, gq_limit = positive_param GLOBAL_RUNS_MAX_LIMIT GLOBAL_RUNS_DEFAULT_LIMIT limit\<rparr>)))"

definition finished_within :: "world \<Rightarrow> int \<Rightarrow> run \<Rightarrow> bool" where
  "finished_within w hours r \<longleftrightarrow> (case r_finished r of None \<Rightarrow> False | Some t \<Rightarrow> w_now w - hours * HOUR_MS \<le> t)"

definition global_filter :: "world \<Rightarrow> global_query \<Rightarrow> run \<Rightarrow> bool" where
  "global_filter w q r \<longleftrightarrow> r_status r \<in> set (gq_status q) \<and> opt_all (\<lambda>h. finished_within w h r) (gq_within q)"

definition status_rank :: "run_status \<Rightarrow> nat" where
  "status_rank s = (case s of Running \<Rightarrow> 0 | Queued \<Rightarrow> 1 | _ \<Rightarrow> 2)"

text \<open>The second key, with the infinite values last: a running run by its start, a queued one by its creation, any other by its end, latest first.\<close>

definition within_rank :: "run \<Rightarrow> bool \<times> int" where
  "within_rank r =
     (case r_status r of
        Running \<Rightarrow> (case r_started r of Some t \<Rightarrow> (False, t) | None \<Rightarrow> (True, 0))
      | Queued \<Rightarrow> (False, r_created r)
      | _ \<Rightarrow> (case r_finished r of Some t \<Rightarrow> (False, - t) | None \<Rightarrow> (True, 0)))"

definition global_key :: "run \<Rightarrow> nat \<times> (bool \<times> int) \<times> id" where
  "global_key r = (status_rank (r_status r), within_rank r, r_id r)"

text \<open>A row here shows of \<open>gi_run\<close> all but the executor type and the alert.\<close>

record global_item =
  gi_run :: run_item
  gi_workspace :: "id \<times> string"
  gi_finished :: "int option"

definition global_item_of :: "world \<Rightarrow> run \<Rightarrow> global_item option" where
  "global_item_of w r = (case find_workspace (r_workspace r) w of None \<Rightarrow> None
     | Some s \<Rightarrow> map_option (\<lambda>i. \<lparr>gi_run = i, gi_workspace = (s_id s, s_name s), gi_finished = r_finished r\<rparr>)
         (run_item_of (s_site_url s) w r))"

definition global_list :: "(run list \<Rightarrow> run list) \<Rightarrow> world \<Rightarrow> global_query \<Rightarrow> global_item list \<times> nat" where
  "global_list db_order w q =
     (let rows = filter (global_filter w q) (w_runs w)
      in (take (nat (gq_limit q)) (List.map_filter (global_item_of w) (db_order rows)), length rows))"

definition global_order :: "(run list \<Rightarrow> run list) \<Rightarrow> bool" where
  "global_order db_order \<longleftrightarrow> (\<forall>rs. mset (db_order rs) = mset rs \<and> sorted (map global_key (db_order rs)))"

section \<open>The writes\<close>

datatype cancel_result = Cancel_not_found | Cancel_done | Cancel_not_running

definition cancel_row :: "int \<Rightarrow> run \<Rightarrow> run" where
  "cancel_row now r = r\<lparr>r_status := Cancelled, r_finished := Some now\<rparr>"

definition cancel :: "id \<Rightarrow> cancel_result handler" where
  "cancel i = bnd (update_run i (\<lambda>r. r_status r = Running) cancel_row) (\<lambda>flipped.
     if flipped then ret Cancel_done
     else bnd (gets (find_run i)) (\<lambda>exists.
       ret (case exists of None \<Rightarrow> Cancel_not_found | Some r \<Rightarrow> Cancel_not_running)))"

definition stoppable :: "id \<Rightarrow> run \<Rightarrow> bool" where
  "stoppable ws r \<longleftrightarrow> r_workspace r = ws \<and> (r_status r = Queued \<or> r_status r = Running)"

text \<open>One \<open>UPDATE\<close> over the rows of the workspace, row by row; the answer is the number of rows.\<close>

definition cancel_rows :: "id \<Rightarrow> id list \<Rightarrow> nat handler" where
  "cancel_rows ws is = for_fold is 0 (\<lambda>i n. bnd (update_run i (stoppable ws) cancel_row) (\<lambda>hit. ret (if hit then Suc n else n)))"

definition cancel_all :: "id \<Rightarrow> nat option handler" where
  "cancel_all ws = bnd (gets (find_workspace ws)) (\<lambda>s. case s of None \<Rightarrow> ret None
     | Some _ \<Rightarrow> bnd (gets (\<lambda>w. map r_id (w_runs w))) (\<lambda>is. bnd (cancel_rows ws is) (\<lambda>n. ret (Some n))))"

datatype retry_result = Retry_not_found | Retry_conflict | Retried id

definition retry_run :: "env \<Rightarrow> id \<Rightarrow> retry_result handler" where
  "retry_run E i = bnd (gets (find_run i)) (\<lambda>run. case run of None \<Rightarrow> ret Retry_not_found
     | Some r \<Rightarrow> bnd (trigger E (r_ticket r) (r_agent r) None) (\<lambda>res.
         ret (case res of Deduplicated _ \<Rightarrow> Retry_conflict | Triggered n \<Rightarrow> Retried n)))"

section \<open>The card of a run\<close>

record history_item =
  hi_run :: id
  hi_agent :: string
  hi_executor_type :: string
  hi_attempt :: int
  hi_duration :: "int option"
  hi_cost :: "rat option"
  hi_outcome :: "outcome option"
  hi_status :: run_status

record run_card =
  cd_run :: run
  cd_agent :: agent_ref
  cd_duration :: "int option"
  cd_ticket :: "ticket_ref option"
  cd_checks :: "(nat \<times> string \<times> check_status \<times> string option) list"
  cd_artifacts :: "(string option \<times> string option \<times> string option \<times> nat option \<times> int option) list"
  cd_events :: "(event_type \<times> json \<times> int) list"
  cd_history :: "history_item list"

definition history_item_of :: "world \<Rightarrow> run \<Rightarrow> history_item option" where
  "history_item_of w r = map_option (\<lambda>a. \<lparr>hi_run = r_id r, hi_agent = a_name a, hi_executor_type = r_executor_type r,
     hi_attempt = r_attempt r, hi_duration = duration_ms (w_now w) (r_started r) (r_finished r), hi_cost = r_cost r,
     hi_outcome = r_outcome r, hi_status = r_status r\<rparr>) (find_agent (r_agent r) w)"

definition in_history :: "run \<Rightarrow> run \<Rightarrow> bool" where
  "in_history r r' \<longleftrightarrow> (case r_ticket r of None \<Rightarrow> r_workspace r' = r_workspace r \<and> r_ticket r' = None
     | Some t \<Rightarrow> r_ticket r' = Some t)"

text \<open>The rows of \<open>run_events\<close> are in the order of their ids.\<close>

definition run_card_of :: "(run list \<Rightarrow> run list) \<Rightarrow> world \<Rightarrow> id \<Rightarrow> run_card option" where
  "run_card_of db_order w i =
     (case find_run i w of None \<Rightarrow> None | Some r \<Rightarrow>
      (case (find_agent (r_agent r) w, find_workspace (r_workspace r) w) of
         (Some a, Some s) \<Rightarrow> Some \<lparr>cd_run = r, cd_agent = agent_ref_of a,
           cd_duration = duration_ms (w_now w) (r_started r) (r_finished r),
           cd_ticket = ticket_ref_of (s_site_url s) w r,
           cd_checks = map (\<lambda>k. (k_position k, k_name k, k_status k, k_reason k))
             (sort_key k_position (filter (\<lambda>k. k_run k = i) (w_checks w))),
           cd_artifacts = (case r_report r of None \<Rightarrow> [] | Some rep \<Rightarrow> map (\<lambda>a. (na_repo a, na_branch a, na_pr_url a,
             map_option length (na_commits a), na_files_changed a)) (normalize_report_artifacts rep)),
           cd_events = map (\<lambda>e. (e_type e, e_payload e, e_created e)) (filter (\<lambda>e. e_run e = i) (w_events w)),
           cd_history = List.map_filter (history_item_of w) (db_order (filter (in_history r) (w_runs w)))\<rparr>
       | _ \<Rightarrow> None))"

section \<open>Lemmas\<close>

context world_relation
begin

lemma steps_cancel_row: "(\<And>r. P r \<Longrightarrow> active (r_status r)) \<Longrightarrow> steps R (update_run i P cancel_row)"
  by (rule R_update_run, rule step_finish [of Cancelled]) (auto simp: terminal_status_def same_run_def cancel_row_def)

lemma steps_cancel [steps_intros]: "steps R (cancel i)"
  unfolding cancel_def by (intro steps_intros steps_cancel_row) (auto simp: active_def)

lemma steps_cancel_all [steps_intros]: "steps R (cancel_all ws)"
  unfolding cancel_all_def cancel_rows_def by (intro steps_intros steps_cancel_row) (auto simp: active_def stoppable_def)

lemma steps_retry [steps_intros]: "steps R (retry_run E i)"
  unfolding retry_run_def by (intro steps_intros)

end

lemma cancel_row_simps [simp]:
  "r_status (cancel_row t r) = Cancelled" "r_id (cancel_row t r) = r_id r" "r_workspace (cancel_row t r) = r_workspace r"
  by (simp_all add: cancel_row_def)

lemma update_run_to_inactive:
  assumes "\<And>r. P r \<Longrightarrow> \<not> active (r_status (f (w_now w) r))"
  shows "update_run i P f w = (Inr (\<exists>r\<in>set (w_runs w). r_id r = i \<and> P r),
     w\<lparr>w_runs := map (\<lambda>r. if r_id r = i \<and> P r then f (w_now w) r else r) (w_runs w)\<rparr>)"
proof (cases rule: update_run_cases [of i P f w])
  case none
  then have "map (\<lambda>r. if r_id r = i \<and> P r then f (w_now w) r else r) (w_runs w) = w_runs w" by (intro map_if_id) auto
  then show ?thesis using none by (auto simp del: map_map)
next
  case clash
  then show ?thesis
    using assms unfolding update_run_app Let_def by (auto dest: index_clash_active split: if_splits)
next
  case hit
  then show ?thesis by simp
qed

lemma cancel_app:
  "cancel i w = (if \<exists>r\<in>set (w_runs w). r_id r = i \<and> r_status r = Running
     then (Inr Cancel_done, w\<lparr>w_runs := map (\<lambda>r. if r_id r = i \<and> r_status r = Running then cancel_row (w_now w) r else r) (w_runs w)\<rparr>)
     else (Inr (case find_run i w of None \<Rightarrow> Cancel_not_found | Some r \<Rightarrow> Cancel_not_running), w))"
proof -
  have "update_run i (\<lambda>r. r_status r = Running) cancel_row w = (Inr (\<exists>r\<in>set (w_runs w). r_id r = i \<and> r_status r = Running),
     w\<lparr>w_runs := map (\<lambda>r. if r_id r = i \<and> r_status r = Running then cancel_row (w_now w) r else r) (w_runs w)\<rparr>)"
    by (rule update_run_to_inactive) (simp add: active_def)
  moreover have "map (\<lambda>r. if r_id r = i \<and> r_status r = Running then cancel_row (w_now w) r else r) (w_runs w) = w_runs w"
    if "\<not> (\<exists>r\<in>set (w_runs w). r_id r = i \<and> r_status r = Running)"
    using that by (intro map_if_id) auto
  ultimately show ?thesis by (auto simp: cancel_def act_simps simp del: map_map)
qed

definition stop_rows :: "id \<Rightarrow> id set \<Rightarrow> world \<Rightarrow> world" where
  "stop_rows ws is w = w\<lparr>w_runs := map (\<lambda>r. if r_id r \<in> is \<and> stoppable ws r then cancel_row (w_now w) r else r) (w_runs w)\<rparr>"

lemma count_one_more:
  assumes "distinct (map r_id rs)" and "i \<notin> is"
  shows "length (filter (\<lambda>r. r_id r \<in> insert i is \<and> P r) rs) =
    (if \<exists>r\<in>set rs. r_id r = i \<and> P r then 1 else 0) + length (filter (\<lambda>r. r_id r \<in> is \<and> P r) rs)"
  using assms by (induction rs) auto

lemma cancel_rows_app:
  "distinct is \<Longrightarrow> distinct (map r_id (w_runs w)) \<Longrightarrow>
    for_fold is n (\<lambda>i n. bnd (update_run i (stoppable ws) cancel_row) (\<lambda>hit. ret (if hit then Suc n else n))) w =
      (Inr (n + length (filter (\<lambda>r. r_id r \<in> set is \<and> stoppable ws r) (w_runs w))), stop_rows ws (set is) w)"
proof (induction "is" arbitrary: n w)
  case Nil
  have "map (\<lambda>r. if False then cancel_row (w_now w) r else r) (w_runs w) = w_runs w" by simp
  then show ?case by (simp add: act_simps stop_rows_def)
next
  case (Cons i "is")
  have upd: "update_run i (stoppable ws) cancel_row w = (Inr (\<exists>r\<in>set (w_runs w). r_id r = i \<and> stoppable ws r), stop_rows ws {i} w)"
    unfolding stop_rows_def by (subst update_run_to_inactive) (simp_all add: active_def)
  have runs: "map r_id (w_runs (stop_rows ws {i} w)) = map r_id (w_runs w)"
    by (simp add: stop_rows_def cong: if_cong)
  have count: "length (filter (\<lambda>r. r_id r \<in> set is \<and> stoppable ws r) (w_runs (stop_rows ws {i} w))) =
      length (filter (\<lambda>r. r_id r \<in> set is \<and> stoppable ws r) (w_runs w))"
    using Cons.prems(1) by (auto simp: stop_rows_def filter_map o_def intro!: arg_cong [where f = length] filter_cong)
  have stop: "stop_rows ws (set is) (stop_rows ws {i} w) = stop_rows ws (set (i # is)) w"
  proof -
    have "map (\<lambda>r. if r_id r \<in> set is \<and> stoppable ws r then cancel_row t r else r)
        (map (\<lambda>r. if r_id r \<in> {i} \<and> stoppable ws r then cancel_row t r else r) rs) =
      map (\<lambda>r. if r_id r \<in> set (i # is) \<and> stoppable ws r then cancel_row t r else r) rs" for t rs
      by (induction rs) (auto simp: stoppable_def)
    then show ?thesis by (simp add: stop_rows_def del: map_map cong: if_cong)
  qed
  show ?case
    using Cons.IH [of "stop_rows ws {i} w"] Cons.prems runs count_one_more [OF Cons.prems(2), of i "set is" "stoppable ws"]
    by (simp add: act_simps upd stop count del: map_map)
qed

lemma window_concat:
  "concat (map (\<lambda>k. take n (drop (k * n) xs)) [0..<m]) = take (m * n) xs"
proof (induction m)
  case (Suc m)
  have "take (Suc m * n) xs = take (m * n) xs @ take n (drop (m * n) xs)" by (metis add.commute mult_Suc take_add)
  then show ?case using Suc by simp
qed simp

text \<open>The n-th page of a list, as the query asks for it.\<close>

lemma window_page:
  assumes "0 < n"
  shows "window \<lparr>pg_page = int k + 1, pg_size = int n, pg_offset = (int k + 1 - 1) * int n\<rparr> xs = take n (drop (k * n) xs)"
  by (simp add: window_def flip: of_nat_mult)

lemma order_unique:
  assumes "mset ys = mset xs" and "inj_on f (set xs)" and "sorted (map f ys)"
  shows "ys = sort_key f xs"
  using sort_key_inj_key_eq [of xs ys f] assms by simp

lemma newest_first_unique:
  assumes "newest_first db_order" and "distinct (map r_created rs)"
  shows "db_order rs = sort_key (\<lambda>r. - r_created r) rs"
  using assms by (intro order_unique) (auto simp: newest_first_def distinct_map inj_on_def)

lemma global_key_inj: "distinct (map r_id rs) \<Longrightarrow> inj_on global_key (set rs)"
  by (auto simp: global_key_def inj_on_def distinct_map)

section \<open>The writes are guarded\<close>

text \<open>
  A cancel request only ever stops a running run: a run that is queued, waits for a person or has
  ended is left as it is, as is every other row, and the answer says which of the three cases it was.
\<close>

theorem cancel_is_guarded:
  assumes "distinct (map r_id (w_runs w))"
  shows "cancel i w =
    (case find_run i w of
       None \<Rightarrow> (Inr Cancel_not_found, w)
     | Some r \<Rightarrow> if r_status r = Running
         then (Inr Cancel_done, w\<lparr>w_runs := map (\<lambda>s. if r_id s = i then cancel_row (w_now w) r else s) (w_runs w)\<rparr>)
         else (Inr Cancel_not_running, w))"
proof (cases "find_run i w")
  case None
  then have "\<not> (\<exists>r\<in>set (w_runs w). r_id r = i \<and> r_status r = Running)" by (auto simp: find_run_def find_None_iff)
  then show ?thesis by (simp add: cancel_app None)
next
  case (Some r)
  have r: "r \<in> set (w_runs w)" "r_id r = i" using find_run_Some [OF Some] by auto
  have only: "s = r" if "s \<in> set (w_runs w)" "r_id s = i" for s
    using assms that r by (auto simp: distinct_map dest: inj_onD)
  show ?thesis
  proof (cases "r_status r = Running")
    case True
    then have "map (\<lambda>s. if r_id s = i \<and> r_status s = Running then cancel_row (w_now w) s else s) (w_runs w) =
        map (\<lambda>s. if r_id s = i then cancel_row (w_now w) r else s) (w_runs w)"
      by (intro map_cong) (auto dest: only)
    then show ?thesis using r True Some by (auto simp: cancel_app simp del: map_map)
  next
    case False
    then show ?thesis using Some only by (auto simp: cancel_app)
  qed
qed

text \<open>
  C28. Stopping a workspace cancels exactly its queued and running runs, and counts them: a run that
  waits for a person, a finished run and every run of another workspace keep their rows.
\<close>

theorem cancel_all_stops_active:
  assumes "distinct (map r_id (w_runs w))" and "find_workspace ws w = Some s"
  shows "let hit = \<lambda>r. r_workspace r = ws \<and> r_status r \<in> {Queued, Running} in
    cancel_all ws w = (Inr (Some (length (filter hit (w_runs w)))),
      w\<lparr>w_runs := map (\<lambda>r. if hit r then r\<lparr>r_status := Cancelled, r_finished := Some (w_now w)\<rparr> else r) (w_runs w)\<rparr>)"
proof -
  have hit: "(\<lambda>r. r_workspace r = ws \<and> r_status r \<in> {Queued, Running}) = stoppable ws" by (auto simp: stoppable_def)
  have "filter (\<lambda>r. r_id r \<in> set (map r_id (w_runs w)) \<and> stoppable ws r) (w_runs w) = filter (stoppable ws) (w_runs w)"
    by (rule filter_cong) auto
  moreover have "stop_rows ws (set (map r_id (w_runs w))) w = w\<lparr>w_runs := map (\<lambda>r. if stoppable ws r then cancel_row (w_now w) r else r) (w_runs w)\<rparr>"
    unfolding stop_rows_def by (intro arg_cong [where f = "\<lambda>rs. w\<lparr>w_runs := rs\<rparr>"] map_cong) auto
  ultimately show ?thesis unfolding Let_def hit cancel_row_def [symmetric]
    using assms cancel_rows_app [of "map r_id (w_runs w)" w 0 ws] by (simp add: cancel_all_def cancel_rows_def act_simps del: set_map map_map)
qed

text \<open>
  A retry is a trigger of the run's agent on its ticket: it is refused, and nothing is written, exactly
  when some run of the slot is active; otherwise it queues one new run.
\<close>

theorem retry_takes_a_free_slot:
  assumes "world_ok w" and "find_run i w = Some r" and "find_agent (r_agent r) w = Some a"
    and "find_executor (a_executor a) w = Some x" and "\<forall>js j. env_queue_add E js j = None"
  shows "if \<exists>h\<in>set (w_runs w). slot_holder (r_ticket r) (a_workspace a) h then retry_run E i w = (Inr Retry_conflict, w)
    else \<exists>w' n. retry_run E i w = (Inr (Retried (r_id n)), w') \<and> w_runs w' = w_runs w @ [n] \<and> r_status n = Queued \<and>
      r_agent n = r_agent r \<and> r_ticket n = r_ticket r"
proof (cases "find (slot_holder (r_ticket r) (a_workspace a)) (w_runs w)")
  case None
  have "trigger E (r_ticket r) (r_agent r) None w = (Inr (Triggered (w_next w)), w\<lparr>w_runs := w_runs w @
      [(queued_run (a_workspace a) (r_ticket r) (r_agent r) (x_type x) 1 (trigger_event_or_manual None))\<lparr>r_id := w_next w, r_created := w_now w\<rparr>],
      w_next := Suc (w_next w), w_jobs := w_jobs w @ [run_job a x (w_next w) (r_ticket r) None]\<rparr>)"
    using trigger_app [OF assms(1,3,4), of E "r_ticket r" None] None assms(5) by (simp add: Let_def)
  moreover have "\<not> (\<exists>h\<in>set (w_runs w). slot_holder (r_ticket r) (a_workspace a) h)" using None by (simp add: find_None_iff)
  ultimately show ?thesis using assms(2) by (simp add: retry_run_def act_simps queued_run_def)
next
  case (Some h)
  then show ?thesis using assms(2) find_Some_mem [OF Some] trigger_app [OF assms(1,3,4), of E "r_ticket r" None]
    by (auto simp: retry_run_def act_simps)
qed

section \<open>The lists\<close>

text \<open>
  Pages partition the table: when no two matching runs were created at the same instant, the pages
  of a workspace's table - each fetched by its own query, whatever order Postgres gives ties - together
  show the matching runs newest first, each exactly once.
\<close>

theorem runs_pages_partition:
  assumes "\<forall>k<m. newest_first (db k)"
    and "distinct (map r_created (filter (runs_filter w ws q) (w_runs w)))"
    and "\<forall>k<m. parse_pagination (page k) sz = \<lparr>pg_page = int k + 1, pg_size = int n, pg_offset = int k * int n\<rparr>"
  shows "concat (map (\<lambda>k. pp_items (list_runs (db k) w ws q (page k) sz)) [0..<m]) =
    take (m * n) (List.map_filter (run_item_of (site_url w ws) w)
      (sort_key (\<lambda>r. - r_created r) (filter (runs_filter w ws q) (w_runs w))))"
proof -
  let ?rows = "filter (runs_filter w ws q) (w_runs w)"
  let ?items = "List.map_filter (run_item_of (site_url w ws) w) (sort_key (\<lambda>r. - r_created r) ?rows)"
  have "pp_items (list_runs (db k) w ws q (page k) sz) = take n (drop (k * n) ?items)" if "k < m" for k
    using assms that newest_first_unique [of "db k" ?rows]
    by (simp add: list_runs_def Let_def window_def flip: of_nat_mult)
  then have "map (\<lambda>k. pp_items (list_runs (db k) w ws q (page k) sz)) [0..<m] = map (\<lambda>k. take n (drop (k * n) ?items)) [0..<m]"
    by (intro map_cong) simp_all
  then show ?thesis using window_concat [of n ?items m] by (simp only:)
qed

text \<open>
  The list across workspaces is determined by its query: its order is total, so whatever order
  Postgres gives ties the same rows come out, at most fifty of them, running ones first.
\<close>

theorem global_list_is_determined:
  assumes "global_query_of status period limit = Some q" and "distinct (map r_id (w_runs w))"
    and "global_order db" and "global_order db'"
  shows "global_list db w q = global_list db' w q \<and> length (fst (global_list db w q)) \<le> 50"
proof -
  let ?rows = "filter (global_filter w q) (w_runs w)"
  have "distinct (map r_id ?rows)" using assms(2) by (simp add: distinct_map_filter)
  then have inj: "inj_on global_key (set ?rows)" by (rule global_key_inj)
  have "db ?rows = sort_key global_key ?rows" "db' ?rows = sort_key global_key ?rows"
    using assms(3,4) by (auto intro!: order_unique [OF _ inj] simp: global_order_def)
  moreover have "gq_limit q \<le> 50"
    using assms(1) by (auto simp: global_query_of_def positive_param_def GLOBAL_RUNS_MAX_LIMIT_def GLOBAL_RUNS_DEFAULT_LIMIT_def
        split: option.splits if_splits)
  ultimately show ?thesis by (simp add: global_list_def Let_def)
qed

text \<open>
  The pages as fetched when Postgres breaks a tie one way for the first request and the other way for the
  second.
\<close>

definition no_query :: runs_query where
  "no_query = \<lparr>rq_agent = None, rq_status = None, rq_ticket = None, rq_source = None\<rparr>"

definition tied_world :: world where
  "tied_world = sample_world [sample_run 7 (Some 4) Succeeded, sample_run 8 (Some 4) Failed]"

definition by_age :: "run list \<Rightarrow> run list" where
  "by_age = sort_key (\<lambda>r. - r_created r)"

definition by_age_reversed :: "run list \<Rightarrow> run list" where
  "by_age_reversed rs = sort_key (\<lambda>r. - r_created r) (rev rs)"

lemma by_age_orders: "newest_first by_age" "newest_first by_age_reversed"
  by (simp_all add: newest_first_def by_age_def by_age_reversed_def)

lemma tied_pages:
  "map ri_run (pp_items (list_runs by_age tied_world 1 no_query (Some ''1'') (Some ''1''))) = [7]"
  "map ri_run (pp_items (list_runs by_age_reversed tied_world 1 no_query (Some ''2'') (Some ''1''))) = [7]"
  by code_simp+

text \<open>
  Ties fall between pages: with two runs created at the same instant Postgres may order them
  differently for two requests, and then one run is on both pages and the other on neither.
\<close>

theorem tied_runs_fall_between_pages:
  "\<exists>db0 db1. newest_first db0 \<and> newest_first db1 \<and> runs_filter tied_world 1 no_query (sample_run 8 (Some 4) Failed) \<and>
     8 \<notin> set (map ri_run (pp_items (list_runs db0 tied_world 1 no_query (Some ''1'') (Some ''1'')) @
       pp_items (list_runs db1 tied_world 1 no_query (Some ''2'') (Some ''1''))))"
  using by_age_orders tied_pages
  by (intro exI [of _ by_age] exI [of _ by_age_reversed])
    (simp add: runs_filter_def no_query_def given_def opt_all_def sample_run_def del: set_map)

section \<open>The theorems on the sample world\<close>

theorem cancel_is_guarded_witness:
  "cancel 7 (sample_world [sample_run 7 (Some 4) Awaiting_human]) =
     (Inr Cancel_not_running, sample_world [sample_run 7 (Some 4) Awaiting_human])"
  using cancel_is_guarded [of "sample_world [sample_run 7 (Some 4) Awaiting_human]" 7]
  by (simp add: find_run_def sample_world_def sample_run_def)

theorem cancel_all_stops_active_witness:
  "cancel_all 1 (sample_world [sample_run 7 (Some 4) Running, sample_run 8 None Awaiting_human]) =
     (Inr (Some 1), sample_world [cancel_row 1000 (sample_run 7 (Some 4) Running), sample_run 8 None Awaiting_human])"
  using cancel_all_stops_active [of "sample_world [sample_run 7 (Some 4) Running, sample_run 8 None Awaiting_human]" 1 sample_workspace]
  by (simp add: find_workspace_def sample_world_def sample_workspace_def sample_run_def cancel_row_def Let_def)

theorem runs_pages_partition_witness:
  "concat (map (\<lambda>k. pp_items (list_runs by_age (sample_world [sample_run 7 (Some 4) Failed]) 1 no_query ([Some ''1'', Some ''2''] ! k) (Some ''1''))) [0..<2]) =
     take (2 * 1) (List.map_filter (run_item_of (site_url (sample_world [sample_run 7 (Some 4) Failed]) 1) (sample_world [sample_run 7 (Some 4) Failed]))
      (sort_key (\<lambda>r. - r_created r) (filter (runs_filter (sample_world [sample_run 7 (Some 4) Failed]) 1 no_query) (w_runs (sample_world [sample_run 7 (Some 4) Failed])))))"
proof (rule runs_pages_partition [where db = "\<lambda>_. by_age"])
  have "parse_pagination (Some ''1'') (Some ''1'') = \<lparr>pg_page = 1, pg_size = 1, pg_offset = 0\<rparr>"
    "parse_pagination (Some ''2'') (Some ''1'') = \<lparr>pg_page = 2, pg_size = 1, pg_offset = 1\<rparr>" by code_simp+
  then show "\<forall>k<2. parse_pagination ([Some ''1'', Some ''2''] ! k) (Some ''1'') = \<lparr>pg_page = int k + 1, pg_size = int 1, pg_offset = int k * int 1\<rparr>"
    by (auto simp: less_2_cases_iff)
qed (simp_all add: by_age_orders sample_world_def)

theorem global_list_is_determined_witness:
  "\<exists>q. global_query_of (Some ''running,queued'') None (Some ''20'') = Some q \<and>
     global_list (sort_key global_key) tied_world q = global_list (sort_key global_key) tied_world q \<and>
     length (fst (global_list (sort_key global_key) tied_world q)) \<le> 50"
proof -
  have q: "global_query_of (Some ''running,queued'') None (Some ''20'') = Some \<lparr>gq_status = [Running, Queued], gq_within = None, gq_limit = 20\<rparr>"
    by code_simp
  have "global_order (sort_key global_key)" by (simp add: global_order_def)
  from global_list_is_determined [OF q _ this this, of tied_world] show ?thesis
    unfolding q by (simp add: tied_world_def sample_world_def sample_run_def)
qed

end
