(* ===== verification/ConfigApi.thy ===== *)
theory ConfigApi
  imports Samples RunEnv AgentKeys SetupApply RunsApi JsonText
begin

text \<open>
  The settings and the environment secrets of a workspace
  (\<open>apps/backend/src/dashboard/workspaces.controller.ts\<close>: \<open>updateSettings\<close>, \<open>updateEnvSecrets\<close> and the
  names-only view, with \<open>libs/database/src/workspace-settings.ts\<close> and \<open>env-secrets.ts\<close>). The state adds to
  the database the columns of a workspace that the rest of the model leaves out. A blob sealed with the
  platform's key opens to the document that was sealed; any other blob does not open. Requests are as the
  zod schemas return them, with the refinements of the schemas as explicit guards.
\<close>

section \<open>State\<close>

record repo_entry =
  re_id :: "string option"
  re_name :: string
  re_git_url :: string
  re_default_branch :: string
  re_env :: "env_map option"
  re_bootstrap :: "string option"

datatype blob = Sealed env_secrets | Unopenable

record config =
  cf_workspace :: id
  cf_branch_prefix :: "string option"
  cf_env :: "env_map option"
  cf_repos :: "repo_entry list option"
  cf_ticket_scoping :: "bool option"
  cf_instructions :: "json option"
  cf_token :: "string option"
  cf_secrets :: "blob option"

record console =
  cn_world :: world
  cn_config :: "config list"

datatype api_error =
    Invalid_body
  | Unprocessable string "team_issue list" "team_issue list"
  | Conflicting string
  | Not_there string
  | Statuses_unavailable
  | Server_error error

type_synonym 'a endpoint = "(console, api_error, 'a) act"

definition on_world :: "'a handler \<Rightarrow> 'a endpoint" where
  "on_world m = (\<lambda>c. case m (cn_world c) of
     (Inl e, w) \<Rightarrow> (Inl (Server_error e), c\<lparr>cn_world := w\<rparr>)
   | (Inr x, w) \<Rightarrow> (Inr x, c\<lparr>cn_world := w\<rparr>))"

text \<open>
  An id in a request is a text. Postgres compares the row's uuid, so it accepts more than one text for an id
  (the letters of a uuid in either case); here, where ids are numbers, a text of digits denotes its number,
  leading zeros or not. The code that compares texts, or uses one as the key of an object, sees the difference:
  only \<open>show_nat i\<close> is the text in which the database gives the id out.
\<close>

definition id_of_text :: "string \<Rightarrow> id option" where
  "id_of_text t = (if all_digits t then Some (nat (decimal t)) else None)"

definition find_config :: "id \<Rightarrow> console \<Rightarrow> config option" where
  "find_config i c = find (\<lambda>f. cf_workspace f = i) (cn_config c)"

definition update_config :: "id \<Rightarrow> (config \<Rightarrow> config) \<Rightarrow> unit endpoint" where
  "update_config i f = modify (\<lambda>c. c\<lparr>cn_config := map (\<lambda>g. if cf_workspace g = i then f g else g) (cn_config c)\<rparr>)"

text \<open>\<open>k in m\<close> on a plain object: the members of \<open>Object.prototype\<close> count.\<close>

definition OBJECT_MEMBERS :: "string list" where
  "OBJECT_MEMBERS = [''constructor'', ''__defineGetter__'', ''__defineSetter__'', ''hasOwnProperty'', ''__lookupGetter__'',
     ''__lookupSetter__'', ''isPrototypeOf'', ''propertyIsEnumerable'', ''toString'', ''valueOf'', ''__proto__'',
     ''toLocaleString'']"

definition js_in :: "string \<Rightarrow> string list \<Rightarrow> bool" where
  "js_in k ks \<longleftrightarrow> k \<in> set ks \<or> k \<in> set OBJECT_MEMBERS"

definition keys_of :: "env_map option \<Rightarrow> string list" where
  "keys_of m = map fst (the_default [] m)"

text \<open>\<open>row.envSecrets ? openEnvSecrets(row.envSecrets) : \<lbrace>\<rbrace>\<close>, which throws on a blob that does not open.\<close>

definition no_secrets :: env_secrets where
  "no_secrets = \<lparr>es_workspace = None, es_repos = None, es_agents = None\<rparr>"

definition secret_box_error :: api_error where
  "secret_box_error = Server_error (mk_error Other_failure ''SecretBoxError'')"

definition open_or_empty :: "blob option \<Rightarrow> env_secrets endpoint" where
  "open_or_empty b = (case b of None \<Rightarrow> ret no_secrets | Some (Sealed s) \<Rightarrow> ret s | Some Unopenable \<Rightarrow> throw secret_box_error)"

text \<open>\<open>readEnvSecretKeys\<close>.\<close>

definition read_env_secret_keys ::
  "blob option \<Rightarrow> string list \<times> (string \<times> string list) list \<times> (string \<times> string list) list" where
  "read_env_secret_keys b = (case b of Some (Sealed s) \<Rightarrow> env_secret_keys s | _ \<Rightarrow> ([], [], []))"

definition collision :: "string list \<Rightarrow> string list \<Rightarrow> string option" where
  "collision ks ms = find (\<lambda>k. js_in k ms) ks"

definition guard_no_secret_collision :: "env_map \<Rightarrow> env_map option \<Rightarrow> string \<Rightarrow> unit endpoint" where
  "guard_no_secret_collision plain secret label = (case secret of None \<Rightarrow> ret ()
   | Some m \<Rightarrow> (case collision (map fst plain) (map fst m) of None \<Rightarrow> ret ()
      | Some k \<Rightarrow> throw (Conflicting (''env key \"'' @ k @ ''\" is already defined as a secret in '' @ label))))"

section \<open>Secrets\<close>

text \<open>The ids of a scope are the texts of the request.\<close>

datatype env_scope = Scope_workspace | Scope_repo string | Scope_agent string

record secrets_write =
  sw_scope :: env_scope
  sw_set :: "env_map option"
  sw_delete :: "string list option"

definition agent_env :: "agent \<Rightarrow> string list" where
  "agent_env a = (case jget (a_behavior a) ''env'' of Some (JObj kvs) \<Rightarrow> map fst kvs | _ \<Rightarrow> [])"

text \<open>The non-secret keys of the scope, or why there is no such scope.\<close>

definition plaintext_of :: "console \<Rightarrow> config \<Rightarrow> env_scope \<Rightarrow> api_error + string list" where
  "plaintext_of c f sc = (case sc of
     Scope_workspace \<Rightarrow> Inr (keys_of (cf_env f))
   | Scope_repo i \<Rightarrow> (case find (\<lambda>r. re_id r = Some i) (the_default [] (cf_repos f)) of
        None \<Rightarrow> Inl (Not_there ''repository_not_found'') | Some r \<Rightarrow> Inr (keys_of (re_env r)))
   | Scope_agent i \<Rightarrow> (case find (\<lambda>a. id_of_text i = Some (a_id a) \<and> a_workspace a = cf_workspace f) (w_agents (cn_world c)) of
        None \<Rightarrow> Inl (Not_there ''agent_not_found'') | Some a \<Rightarrow> Inr (agent_env a)))"

definition scope_submap :: "env_secrets \<Rightarrow> env_scope \<Rightarrow> env_map" where
  "scope_submap s sc = (case sc of
     Scope_workspace \<Rightarrow> the_default [] (es_workspace s)
   | Scope_repo i \<Rightarrow> the_default [] (map_of (the_default [] (es_repos s)) i)
   | Scope_agent i \<Rightarrow> the_default [] (map_of (the_default [] (es_agents s)) i))"

text \<open>\<open>if (next) m[k] = next; else delete m[k]\<close> on a copy of the map.\<close>

definition put :: "string \<Rightarrow> 'a option \<Rightarrow> (string \<times> 'a) list option \<Rightarrow> (string \<times> 'a) list option" where
  "put k v m = Some (case v of Some x \<Rightarrow> AList.update k x (the_default [] m) | None \<Rightarrow> AList.delete k (the_default [] m))"

definition apply_scope :: "env_scope \<Rightarrow> env_map option \<Rightarrow> env_secrets \<Rightarrow> env_secrets" where
  "apply_scope sc v s = (case sc of
     Scope_workspace \<Rightarrow> s\<lparr>es_workspace := v\<rparr>
   | Scope_repo i \<Rightarrow> s\<lparr>es_repos := put i v (es_repos s)\<rparr>
   | Scope_agent i \<Rightarrow> s\<lparr>es_agents := put i v (es_agents s)\<rparr>)"

definition written_map :: "secrets_write \<Rightarrow> env_map \<Rightarrow> env_map" where
  "written_map q m = foldl (\<lambda>n k. AList.delete k n) (object_assign m (the_default [] (sw_set q))) (the_default [] (sw_delete q))"

definition written_secrets :: "secrets_write \<Rightarrow> env_secrets \<Rightarrow> env_secrets" where
  "written_secrets q s =
     (let m = written_map q (scope_submap s (sw_scope q)) in apply_scope (sw_scope q) (if m = [] then None else Some m) s)"

definition update_env_secrets :: "id \<Rightarrow> secrets_write \<Rightarrow> unit endpoint" where
  "update_env_secrets i q =
     (if env_map_issues (the_default [] (sw_set q)) \<noteq> [] then throw Invalid_body else
      bnd (gets (find_config i)) (\<lambda>row.
      case row of None \<Rightarrow> throw (Not_there ''workspace_not_found'')
      | Some f \<Rightarrow>
        bnd (gets (\<lambda>c. plaintext_of c f (sw_scope q))) (\<lambda>plain.
        case plain of Inl e \<Rightarrow> throw e
        | Inr ks \<Rightarrow>
          (case collision (keys_of (sw_set q)) ks of
             Some k \<Rightarrow> throw (Conflicting (''env key \"'' @ k @ ''\" is already defined as a non-secret value in this scope''))
           | None \<Rightarrow>
               bnd (open_or_empty (cf_secrets f)) (\<lambda>s.
               update_config i (\<lambda>g. g\<lparr>cf_secrets := Some (Sealed (written_secrets q s))\<rparr>))))))"

section \<open>Settings\<close>

text \<open>\<^const>\<open>None\<close> is absent; the tri-state members carry \<open>Some None\<close> for \<open>null\<close>.\<close>

record settings_patch =
  sp_scope_jql :: "string option"
  sp_branch_prefix :: "string option"
  sp_repos :: "repo_entry list option"
  sp_env :: "env_map option"
  sp_enabled :: "bool option"
  sp_ticket_scoping :: "bool option"
  sp_release_status :: "string option option"
  sp_instructions :: "json option option"
  sp_token :: "string option option"

definition env_ok :: "env_map option \<Rightarrow> bool" where
  "env_ok m \<longleftrightarrow> env_map_issues (the_default [] m) = []"

definition repo_ok :: "repo_entry \<Rightarrow> bool" where
  "repo_ok r \<longleftrightarrow> re_name r \<noteq> [] \<and> re_git_url r \<noteq> [] \<and> re_default_branch r \<noteq> [] \<and> env_ok (re_env r) \<and> re_id r \<noteq> Some [] \<and>
     (case re_bootstrap r of None \<Rightarrow> True | Some s \<Rightarrow> s \<noteq> [] \<and> length s \<le> 500)"

definition settings_ok :: "settings_patch \<Rightarrow> bool" where
  "settings_ok p \<longleftrightarrow> sp_scope_jql p \<noteq> Some [] \<and> sp_branch_prefix p \<noteq> Some [] \<and> env_ok (sp_env p) \<and>
     list_all repo_ok (the_default [] (sp_repos p))"

text \<open>\<open>normalizeRepositoryIds\<close>: \<open>fresh\<close> gives the ids \<open>randomUUID\<close> yields.\<close>

primrec normalize_repository_ids :: "(nat \<Rightarrow> string) \<Rightarrow> nat \<Rightarrow> repo_entry list \<Rightarrow> repo_entry list" where
  "normalize_repository_ids fresh n [] = []"
| "normalize_repository_ids fresh n (r # rs) = (case re_id r of
     None \<Rightarrow> r\<lparr>re_id := Some (fresh n)\<rparr> # normalize_repository_ids fresh (Suc n) rs
   | Some i \<Rightarrow> r # normalize_repository_ids fresh n rs)"

definition over :: "'a option \<Rightarrow> 'a option \<Rightarrow> 'a option" where
  "over p old = (case p of None \<Rightarrow> old | Some x \<Rightarrow> Some x)"

text \<open>The merged blob of \<open>patchWorkspaceSettings\<close>: ids are filled in whenever there is a list.\<close>

definition merge_config :: "(nat \<Rightarrow> string) \<Rightarrow> settings_patch \<Rightarrow> config \<Rightarrow> config" where
  "merge_config fresh p f = f\<lparr>cf_branch_prefix := over (sp_branch_prefix p) (cf_branch_prefix f),
     cf_env := over (sp_env p) (cf_env f),
     cf_repos := map_option (normalize_repository_ids fresh 0) (over (sp_repos p) (cf_repos f)),
     cf_ticket_scoping := over (sp_ticket_scoping p) (cf_ticket_scoping f)\<rparr>"

definition merge_settings :: "settings_patch \<Rightarrow> ws_settings \<Rightarrow> ws_settings" where
  "merge_settings p s = s\<lparr>st_scope_jql := over (sp_scope_jql p) (st_scope_jql s), st_enabled := over (sp_enabled p) (st_enabled s),
     st_repositories := over (map_option (map re_name) (sp_repos p)) (st_repositories s)\<rparr>"

definition patch_workspace_settings :: "(nat \<Rightarrow> string) \<Rightarrow> id \<Rightarrow> settings_patch \<Rightarrow> config endpoint" where
  "patch_workspace_settings fresh i p =
     bnd (gets (find_config i)) (\<lambda>row.
     case row of None \<Rightarrow> throw (Server_error (mk_error Other_failure (''workspace '' @ show_nat i @ '' not found'')))
     | Some f \<Rightarrow>
        andthen (on_world (update_workspace i (\<lambda>s. s\<lparr>s_settings := merge_settings p (s_settings s)\<rparr>)))
          (andthen (update_config i (merge_config fresh p)) (ret (merge_config fresh p f))))"

definition set_dependency_release_status :: "id \<Rightarrow> string option \<Rightarrow> unit endpoint" where
  "set_dependency_release_status i v =
     (let t = js_trim (the_default [] v) in
      on_world (update_workspace i (\<lambda>s. s\<lparr>s_settings := (s_settings s)
        \<lparr>st_dependency_release_status := if t = [] then None else Some t\<rparr>\<rparr>)))"

definition guard_repo_env :: "env_secrets \<Rightarrow> repo_entry \<Rightarrow> unit endpoint" where
  "guard_repo_env s r = (case (re_id r, re_env r) of
     (Some k, Some e) \<Rightarrow> guard_no_secret_collision e (map_of (the_default [] (es_repos s)) k) (''repository \"'' @ re_name r @ ''\"'')
   | _ \<Rightarrow> ret ())"

text \<open>The secrets of repositories that are no longer listed are dropped, if there are any.\<close>

definition live_ids :: "config \<Rightarrow> string list" where
  "live_ids f = List.map_filter re_id (the_default [] (cf_repos f))"

definition prune_repos :: "id \<Rightarrow> env_secrets \<Rightarrow> config \<Rightarrow> unit endpoint" where
  "prune_repos i s f = (case es_repos s of None \<Rightarrow> ret ()
   | Some m \<Rightarrow> let kept = filter (\<lambda>(k, e). k \<in> set (live_ids f)) m in
       if list_all (\<lambda>(k, e). k \<in> set (live_ids f)) m then ret ()
       else update_config i (\<lambda>g. g\<lparr>cf_secrets := Some (Sealed (s\<lparr>es_repos := Some kept\<rparr>))\<rparr>))"

definition update_settings :: "(nat \<Rightarrow> string) \<Rightarrow> id \<Rightarrow> settings_patch \<Rightarrow> unit endpoint" where
  "update_settings fresh i p =
     (if \<not> settings_ok p then throw Invalid_body else
      bnd (gets (find_config i)) (\<lambda>row.
      bnd (open_or_empty (Option.bind row cf_secrets)) (\<lambda>s.
      andthen (case sp_env p of None \<Rightarrow> ret () | Some e \<Rightarrow> guard_no_secret_collision e (es_workspace s) ''workspace'')
      (andthen (for_each (the_default [] (sp_repos p)) (guard_repo_env s))
      (bnd (patch_workspace_settings fresh i p) (\<lambda>f'.
      andthen (if sp_repos p = None then ret () else prune_repos i s f')
      (andthen (case sp_release_status p of None \<Rightarrow> ret () | Some v \<Rightarrow> set_dependency_release_status i v)
      (andthen (case sp_instructions p of None \<Rightarrow> ret () | Some v \<Rightarrow> update_config i (\<lambda>g. g\<lparr>cf_instructions := v\<rparr>))
        (case sp_token p of None \<Rightarrow> ret ()
         | Some v \<Rightarrow> update_config i (\<lambda>g. g\<lparr>cf_token := if v = Some [] then None else v\<rparr>))))))))))"

end
