(* ===== verification/AgentsApi.thy ===== *)
theory AgentsApi
  imports ConfigApi
begin

text \<open>
  The agents surface of the dashboard (\<open>apps/backend/src/dashboard/agents.controller.ts\<close>, with
  \<open>AgentWriteRequestSchema\<close> of \<open>packages/contracts/src/dashboard.schema.ts\<close> and the board statuses of
  \<open>libs/jira/src/statuses.service.ts\<close>): list, create, update, remove and test run. The budget column, which
  no part of the model reads, is decoded and not stored. Properties: which fields an update can change, that
  agents with runs are kept, that enabled agents of a workspace keep distinct triggers, and that an
  environment variable of a scope is either secret or not.
\<close>

section \<open>The request\<close>

record behavior =
  bh_members :: "(string \<times> json) list"
  bh_repository :: "string option"
  bh_repositories :: "string list option"
  bh_env :: "env_map option"

record agent_write =
  aw_workspace :: string
  aw_name :: string
  aw_role :: "string option"
  aw_description :: "string option"
  aw_instruction :: string
  aw_executor :: string
  aw_trigger_status :: string
  aw_trigger_jql :: "string option"
  aw_status_running :: "string option"
  aw_status_success :: string
  aw_status_failure :: string
  aw_status_ids :: "json option"
  aw_timeout_minutes :: int
  aw_max_budget :: "rat option"
  aw_max_attempts :: int
  aw_behavior :: behavior
  aw_enabled :: "bool option"

text \<open>\<open>.nullable().optional()\<close> where \<open>null\<close> and absent are read alike.\<close>

definition opt_null :: "string \<Rightarrow> 'a decoder \<Rightarrow> (string \<times> json) list \<Rightarrow> 'a option option" where
  "opt_null k d kvs = (case map_of kvs k of None \<Rightarrow> Some None | Some JNull \<Rightarrow> Some None | Some j \<Rightarrow> map_option Some (d j))"

fun d_status_ids :: "json decoder" where
  "d_status_ids (JObj kvs) =
     (if only_keys [''trigger'', ''running'', ''success'', ''failure''] kvs \<and> list_all (\<lambda>(k, v). d_str 0 None v \<noteq> None) kvs
      then Some (JObj kvs) else None)"
| "d_status_ids _ = None"

fun d_env_members :: "(string \<times> json) list \<Rightarrow> env_map option" where
  "d_env_members [] = Some []"
| "d_env_members ((k, JStr v) # kvs) = map_option (Cons (k, v)) (d_env_members kvs)"
| "d_env_members (_ # kvs) = None"

fun d_env :: "env_map decoder" where
  "d_env (JObj kvs) = (case d_env_members kvs of None \<Rightarrow> None | Some m \<Rightarrow> if env_map_issues m = [] then Some m else None)"
| "d_env _ = None"

fun d_positive :: "rat decoder" where
  "d_positive (JNum q) = (if 0 < q then Some q else None)"
| "d_positive _ = None"

text \<open>\<open>AgentBehaviorRequestSchema\<close>: known members are checked, unknown ones pass.\<close>

fun d_behavior :: "behavior decoder" where
  "d_behavior (JObj kvs) =
     (case (opt_null ''branch_prefix'' (d_str 0 None) kvs, opt_null ''repository'' (d_str 0 None) kvs,
            opt ''repositories'' (d_arr 0 None (d_str 1 None)) kvs, opt ''allowed_tools'' (d_arr 0 None (d_str 0 None)) kvs,
            opt ''required_checks'' (d_arr 0 None (d_str 0 None)) kvs, opt ''use_callback_channel'' d_bool kvs,
            opt ''status_ids'' d_status_ids kvs, opt ''env'' d_env kvs) of
        (Some _, Some r, Some rs, Some _, Some _, Some _, Some _, Some e) \<Rightarrow>
          Some \<lparr>bh_members = kvs, bh_repository = r, bh_repositories = rs, bh_env = e\<rparr>
      | _ \<Rightarrow> None)"
| "d_behavior _ = None"

definition AGENT_WRITE_KEYS :: "string list" where
  "AGENT_WRITE_KEYS = [''workspace_id'', ''name'', ''role'', ''description'', ''instruction'', ''executor_id'', ''trigger_status'',
     ''trigger_jql'', ''status_running'', ''status_success'', ''status_failure'', ''status_ids'', ''timeout_minutes'',
     ''max_budget_usd'', ''max_attempts'', ''behavior'', ''enabled'']"

definition no_behavior :: behavior where
  "no_behavior = \<lparr>bh_members = [], bh_repository = None, bh_repositories = None, bh_env = None\<rparr>"

fun agent_write_schema :: "agent_write decoder" where
  "agent_write_schema (JObj kvs) =
     (if \<not> only_keys AGENT_WRITE_KEYS kvs then None else
      Option.bind (req ''workspace_id'' (d_str 1 None) kvs) (\<lambda>ws.
      Option.bind (req ''name'' (d_str 1 None) kvs) (\<lambda>n.
      Option.bind (opt_null ''role'' (d_str 0 (Some 100)) kvs) (\<lambda>ro.
      Option.bind (opt_null ''description'' (d_str 0 (Some 2000)) kvs) (\<lambda>de.
      Option.bind (req ''instruction'' (d_str 1 None) kvs) (\<lambda>ins.
      Option.bind (req ''executor_id'' (d_str 1 None) kvs) (\<lambda>ex.
      Option.bind (req ''trigger_status'' (d_str 1 None) kvs) (\<lambda>ts.
      Option.bind (opt_null ''trigger_jql'' (d_str 0 None) kvs) (\<lambda>tj.
      Option.bind (opt_null ''status_running'' (d_str 0 None) kvs) (\<lambda>sr.
      Option.bind (req ''status_success'' (d_str 1 None) kvs) (\<lambda>ss.
      Option.bind (req ''status_failure'' (d_str 1 None) kvs) (\<lambda>sf.
      Option.bind (opt ''status_ids'' d_status_ids kvs) (\<lambda>si.
      Option.bind (opt ''timeout_minutes'' (d_int (Some 1)) kvs) (\<lambda>tm.
      Option.bind (opt_null ''max_budget_usd'' d_positive kvs) (\<lambda>mb.
      Option.bind (opt ''max_attempts'' (d_int (Some 1)) kvs) (\<lambda>ma.
      Option.bind (opt ''behavior'' d_behavior kvs) (\<lambda>bh.
      Option.bind (opt ''enabled'' d_bool kvs) (\<lambda>en.
      Some \<lparr>aw_workspace = ws, aw_name = n, aw_role = ro, aw_description = de, aw_instruction = ins, aw_executor = ex,
        aw_trigger_status = ts, aw_trigger_jql = tj, aw_status_running = sr, aw_status_success = ss, aw_status_failure = sf,
        aw_status_ids = si, aw_timeout_minutes = the_default 45 tm, aw_max_budget = mb, aw_max_attempts = the_default 2 ma,
        aw_behavior = the_default no_behavior bh, aw_enabled = en\<rparr>))))))))))))))))))"
| "agent_write_schema _ = None"

definition parse_agent :: "json \<Rightarrow> agent_write endpoint" where
  "parse_agent j = (case agent_write_schema j of None \<Rightarrow> throw Invalid_body | Some q \<Rightarrow> ret q)"

section \<open>Checks\<close>

text \<open>A value bound to a \<open>uuid\<close> parameter: a string that is no id makes the statement fail.\<close>

definition as_id :: "string \<Rightarrow> id endpoint" where
  "as_id s = (case id_of_text s of Some n \<Rightarrow> ret n
     | None \<Rightarrow> throw (Server_error (mk_error Other_failure ''invalid input syntax for type uuid'')))"

definition not_saved :: string where
  "not_saved = ''Agent could not be saved.''"

definition unknown_repository :: "path_elem list \<Rightarrow> string \<Rightarrow> team_issue" where
  "unknown_repository p n = \<lparr>ti_path = p, ti_code = ''unknown_repository'',
     ti_message = ''references unknown repository \"'' @ n @ ''\" - must match a workspace repository name''\<rparr>"

definition repository_issues :: "string list \<Rightarrow> string list \<Rightarrow> string option \<Rightarrow> team_issue list" where
  "repository_issues declared names single =
     List.map_filter (\<lambda>(j, n). if n \<in> set declared then None
        else Some (unknown_repository [P_key ''behavior'', P_key ''repositories'', P_key (show_nat j)] n)) (enumerate 0 names) @
     (case single of None \<Rightarrow> [] | Some n \<Rightarrow> if n = [] \<or> n \<in> set declared then []
        else [unknown_repository [P_key ''behavior'', P_key ''repository''] n])"

definition validate_repository_scope :: "agent_write \<Rightarrow> unit endpoint" where
  "validate_repository_scope q =
     (let names = the_default [] (bh_repositories (aw_behavior q)); single = bh_repository (aw_behavior q) in
      if names = [] \<and> the_default [] single = [] then ret () else
      bnd (as_id (aw_workspace q)) (\<lambda>ws.
      bnd (gets (\<lambda>c. map re_name (the_default [] (Option.bind (find_config ws c) cf_repos)))) (\<lambda>declared.
      if declared = [] \<or> repository_issues declared names single = [] then ret ()
      else throw (Unprocessable not_saved (repository_issues declared names single) []))))"

text \<open>\<open>StatusesService.get\<close> with \<open>refresh\<close>: \<^const>\<open>None\<close> is \<open>StatusesUnavailable\<close>.\<close>

definition board_statuses :: "env \<Rightarrow> id \<Rightarrow> string list option handler" where
  "board_statuses E ws =
     bnd (gets (find_workspace ws)) (\<lambda>found.
     case found of None \<Rightarrow> ret None
     | Some s \<Rightarrow> catch (andthen (jira_connect E ws) (bnd (jira_project_statuses E ws (s_project_key s)) (\<lambda>b. ret (Some b))))
                  (\<lambda>e. ret None))"

definition candidate_of :: "agent_write \<Rightarrow> string option \<Rightarrow> lintable" where
  "candidate_of q editing = \<lparr>la_id = editing, la_name = aw_name q, la_trigger_status = Some (aw_trigger_status q),
     la_trigger_jql = aw_trigger_jql q, la_status_running = aw_status_running q, la_status_success = aw_status_success q,
     la_status_failure = aw_status_failure q, la_enabled = Some True\<rparr>"

definition issue_of :: "lint_issue \<Rightarrow> team_issue" where
  "issue_of e = \<lparr>ti_path = [P_key (ls_path e)], ti_code = lint_code_text (ls_code e), ti_message = ls_message e\<rparr>"

definition lint_or_throw :: "env \<Rightarrow> agent_write \<Rightarrow> string option \<Rightarrow> team_issue list endpoint" where
  "lint_or_throw E q editing =
     bnd (as_id (aw_workspace q)) (\<lambda>ws.
     bnd (on_world (board_statuses E ws)) (\<lambda>board.
     case board of None \<Rightarrow> throw Statuses_unavailable
     | Some b \<Rightarrow>
        bnd (gets (\<lambda>c. map existing_lintable (workspace_agents ws (cn_world c)))) (\<lambda>others.
        case lint_agent (candidate_of q editing) others b of (errs, warns) \<Rightarrow>
          if errs \<noteq> [] then throw (Unprocessable not_saved (map issue_of errs) (map issue_of warns))
          else ret (map issue_of warns))))"

section \<open>Writes\<close>

definition behavior_json :: "agent_write \<Rightarrow> json" where
  "behavior_json q = JObj (case aw_status_ids q of None \<Rightarrow> bh_members (aw_behavior q)
     | Some j \<Rightarrow> AList.update ''status_ids'' j (bh_members (aw_behavior q)))"

text \<open>\<open>toInsertValues\<close> on a row: the identity columns are left as they are.\<close>

definition to_insert_values :: "agent_write \<Rightarrow> id \<Rightarrow> agent \<Rightarrow> agent" where
  "to_insert_values q x a = a\<lparr>a_executor := x, a_name := aw_name q, a_role := aw_role q, a_description := aw_description q,
     a_instruction := aw_instruction q, a_trigger_status := Some (aw_trigger_status q), a_trigger_jql := aw_trigger_jql q,
     a_status_running := aw_status_running q, a_status_success := aw_status_success q, a_status_failure := aw_status_failure q,
     a_behavior := behavior_json q, a_timeout_minutes := aw_timeout_minutes q, a_max_attempts := aw_max_attempts q\<rparr>"

definition orchestrator_values :: "agent_write \<Rightarrow> id \<Rightarrow> agent \<Rightarrow> agent" where
  "orchestrator_values q x a = a\<lparr>a_executor := x, a_description := aw_description q, a_instruction := aw_instruction q,
     a_behavior := behavior_json q, a_timeout_minutes := aw_timeout_minutes q, a_max_attempts := aw_max_attempts q\<rparr>"

definition with_enabled :: "agent_write \<Rightarrow> agent \<Rightarrow> agent" where
  "with_enabled q a = (case aw_enabled q of None \<Rightarrow> a | Some b \<Rightarrow> a\<lparr>a_enabled := b\<rparr>)"

text \<open>The row with the column defaults, before the values are put in.\<close>

definition blank_agent :: "id \<Rightarrow> string \<Rightarrow> agent" where
  "blank_agent ws k = \<lparr>a_id = 0, a_workspace = ws, a_executor = 0, a_name = [], a_role = None, a_key = k, a_description = None,
     a_instruction = [], a_is_orchestrator = False, a_trigger_status = None, a_trigger_jql = None, a_status_running = None,
     a_status_success = [], a_status_failure = [], a_behavior = JObj [], a_timeout_minutes = 45, a_max_attempts = 2,
     a_enabled = True\<rparr>"

definition references_ok :: "id \<Rightarrow> id \<Rightarrow> world \<Rightarrow> bool" where
  "references_ok ws x w \<longleftrightarrow> find_workspace ws w \<noteq> None \<and> find_executor x w \<noteq> None"

definition missing_reference :: error where
  "missing_reference = mk_error Other_failure ''23503''"

text \<open>\<open>INSERT INTO agents \<dots> RETURNING *\<close>, with the foreign keys.\<close>

definition insert_agent_row :: "agent \<Rightarrow> agent handler" where
  "insert_agent_row a = (\<lambda>w. if \<not> references_ok (a_workspace a) (a_executor a) w then (Inl missing_reference, w)
     else andthen (insert_agent a) (ret (a\<lparr>a_id := w_next w\<rparr>)) w)"

text \<open>\<open>UPDATE agents SET \<dots> WHERE id = i RETURNING *\<close>: \<open>f\<close> does not touch the key.\<close>

definition update_agent :: "id \<Rightarrow> id \<Rightarrow> (agent \<Rightarrow> agent) \<Rightarrow> unit handler" where
  "update_agent i x f = (\<lambda>w. if find_executor x w = None then (Inl missing_reference, w)
     else (Inr (), w\<lparr>w_agents := map (\<lambda>a. if a_id a = i then f a else a) (w_agents w)\<rparr>))"

text \<open>The attempts of \<open>create\<close>; a unique violation retries while an attempt is left.\<close>

primrec insert_with_key :: "nat \<Rightarrow> string \<Rightarrow> id \<Rightarrow> id \<Rightarrow> agent_write \<Rightarrow> agent handler" where
  "insert_with_key 0 base ws x q = throw (mk_error Other_failure ''no row'')"
| "insert_with_key (Suc n) base ws x q =
     bnd (gets (\<lambda>w. map a_key (workspace_agents ws w))) (\<lambda>taken.
     case ensure_unique_agent_key base taken of None \<Rightarrow> throw (mk_error Other_failure ''no free key'')
     | Some k \<Rightarrow> catch (insert_agent_row (to_insert_values q x (blank_agent ws k)))
         (\<lambda>e. if en_kind e = Unique_violation \<and> 0 < n then insert_with_key n base ws x q else throw e))"

definition create_agent :: "env \<Rightarrow> json \<Rightarrow> (agent \<times> team_issue list) endpoint" where
  "create_agent E body =
     bnd (parse_agent body) (\<lambda>q.
     andthen (validate_repository_scope q)
     (bnd (lint_or_throw E q None) (\<lambda>warns.
      bnd (as_id (aw_workspace q)) (\<lambda>ws.
      bnd (as_id (aw_executor q)) (\<lambda>x.
      bnd (on_world (insert_with_key 5 (slugify_agent_key (aw_name q) (aw_role q)) ws x q)) (\<lambda>a.
      ret (a, warns)))))))"

text \<open>\<open>guardAgentEnvNoSecretCollision\<close>: a blob that does not open guards nothing.\<close>

definition guard_agent_env :: "string \<Rightarrow> string \<Rightarrow> env_map option \<Rightarrow> unit endpoint" where
  "guard_agent_env ws i e =
     (if the_default [] e = [] then ret () else
      bnd (as_id ws) (\<lambda>w.
      bnd (gets (\<lambda>c. Option.bind (find_config w c) cf_secrets)) (\<lambda>b.
      case b of Some (Sealed s) \<Rightarrow>
          (case map_of (the_default [] (es_agents s)) i of None \<Rightarrow> ret ()
           | Some m \<Rightarrow> (case collision (keys_of e) (map fst m) of None \<Rightarrow> ret ()
               | Some k \<Rightarrow> throw (Conflicting (''env key \"'' @ k @ ''\" is already defined as a secret for this agent''))))
      | _ \<Rightarrow> ret ())))"

definition agent_not_found :: api_error where
  "agent_not_found = Unprocessable ''Agent not found.''
     [\<lparr>ti_path = [P_key ''id''], ti_code = ''not_found'', ti_message = ''Agent not found.''\<rparr>] []"

definition updated_row :: "id \<Rightarrow> agent endpoint" where
  "updated_row i = bnd (gets (\<lambda>c. find_agent i (cn_world c))) (\<lambda>found.
     case found of None \<Rightarrow> throw agent_not_found | Some a \<Rightarrow> ret a)"

text \<open>
  The statements take the path's id as a row id; the guard of the secrets and the linter take it as the text it
  is.
\<close>

definition update_agent_route :: "env \<Rightarrow> string \<Rightarrow> json \<Rightarrow> (agent \<times> team_issue list) endpoint" where
  "update_agent_route E t body =
     bnd (parse_agent body) (\<lambda>q.
     andthen (validate_repository_scope q)
     (bnd (as_id t) (\<lambda>i.
      bnd (gets (\<lambda>c. find_agent i (cn_world c))) (\<lambda>found.
      case found of None \<Rightarrow> throw agent_not_found
      | Some a \<Rightarrow>
        andthen (guard_agent_env (aw_workspace q) t (bh_env (aw_behavior q)))
        (if a_is_orchestrator a then
           bnd (as_id (aw_executor q)) (\<lambda>x.
           andthen (on_world (update_agent i x (\<lambda>b. with_enabled q (orchestrator_values q x b))))
             (bnd (updated_row i) (\<lambda>r. ret (r, []))))
         else
           bnd (lint_or_throw E q (Some t)) (\<lambda>warns.
           bnd (as_id (aw_executor q)) (\<lambda>x.
           andthen (on_world (update_agent i x (\<lambda>b. with_enabled q (to_insert_values q x b))))
             (bnd (updated_row i) (\<lambda>r. ret (r, warns))))))))))"

section \<open>Removal\<close>

definition prune_agent_secrets :: "id \<Rightarrow> string \<Rightarrow> unit endpoint" where
  "prune_agent_secrets ws t =
     bnd (gets (\<lambda>c. Option.bind (find_config ws c) cf_secrets)) (\<lambda>b.
     case b of Some (Sealed s) \<Rightarrow>
         if js_in t (map fst (the_default [] (es_agents s))) \<and> es_agents s \<noteq> None
         then update_config ws (\<lambda>g. g\<lparr>cf_secrets := Some (Sealed (s\<lparr>es_agents := put t None (es_agents s)\<rparr>))\<rparr>)
         else ret ()
     | _ \<Rightarrow> ret ())"

text \<open>The route answers whether the agent was only disabled.\<close>

definition remove_agent :: "string \<Rightarrow> bool endpoint" where
  "remove_agent t =
     bnd (as_id t) (\<lambda>i.
     bnd (gets (\<lambda>c. find_agent i (cn_world c))) (\<lambda>found.
     if map_option a_is_orchestrator found = Some True
     then throw (Conflicting ''The orchestrator agent cannot be deleted; disable it instead.'')
     else
       bnd (gets (\<lambda>c. list_ex (\<lambda>r. r_agent r = i) (w_runs (cn_world c)))) (\<lambda>has_runs.
       if has_runs then
         andthen (on_world (modify (\<lambda>w. w\<lparr>w_agents := map (\<lambda>a. if a_id a = i then a\<lparr>a_enabled := False\<rparr> else a) (w_agents w)\<rparr>)))
           (ret True)
       else
         bnd (gets (\<lambda>c. find_agent i (cn_world c))) (\<lambda>doomed.
         andthen (on_world (modify (\<lambda>w. w\<lparr>w_agents := filter (\<lambda>a. a_id a \<noteq> i) (w_agents w)\<rparr>)))
           (andthen (case doomed of None \<Rightarrow> ret () | Some a \<Rightarrow> prune_agent_secrets (a_workspace a) t) (ret False))))))"

section \<open>Listing and test runs\<close>

text \<open>\<open>db_order\<close> is the order \<open>ORDER BY key\<close> brings the rows in.\<close>

definition list_agents :: "(agent list \<Rightarrow> agent list) \<Rightarrow> id \<Rightarrow> string option \<Rightarrow> string option \<Rightarrow> console \<Rightarrow> agent page_result" where
  "list_agents db_order ws page sz c =
     (let pg = parse_pagination page sz; rows = workspace_agents ws (cn_world c)
      in \<lparr>pp_items = window pg (db_order rows), pp_page = pg_page pg, pp_size = pg_size pg, pp_total = length rows\<rparr>)"

fun test_run_schema :: "string decoder" where
  "test_run_schema (JObj kvs) = (if only_keys [''ticket_key''] kvs then req ''ticket_key'' (d_str 1 None) kvs else None)"
| "test_run_schema _ = None"

definition upsert_test_ticket :: "id \<Rightarrow> string \<Rightarrow> id handler" where
  "upsert_test_ticket ws k =
     bnd (gets (\<lambda>w. find (\<lambda>t. t_workspace t = ws \<and> t_jira_key t = k) (w_tickets w))) (\<lambda>found.
     case found of Some t \<Rightarrow> ret (t_id t)
     | None \<Rightarrow> insert_ticket \<lparr>t_id = 0, t_workspace = ws, t_jira_key = k, t_jira_id = k,
         t_summary = Some (''Test run for '' @ k), t_last_seen_status = None, t_last_seen_updated = None,
         t_priority_id = None, t_priority_name = None, t_blocked_by = None, t_blocked_state = None, t_verification = None\<rparr>)"

definition test_run :: "env \<Rightarrow> string \<Rightarrow> json \<Rightarrow> trigger_result endpoint" where
  "test_run E s body = (case test_run_schema body of None \<Rightarrow> throw Invalid_body
   | Some k \<Rightarrow>
      bnd (as_id s) (\<lambda>i.
      bnd (gets (\<lambda>c. find_agent i (cn_world c))) (\<lambda>found.
      case found of None \<Rightarrow> throw agent_not_found
      | Some a \<Rightarrow> on_world (bnd (upsert_test_ticket (a_workspace a) k) (\<lambda>t. trigger E (Some t) i None)))))"

end
