(* ===== verification/EnvHomes.thy ===== *)
theory EnvHomes
  imports AgentsApi
begin

text \<open>
  Where an environment key lives: the plain keys of a scope (a workspace, a repository, an agent) and the
  secrets sealed for it. An agent's secrets are those under the text the database gives its id out in: that is
  what its runs read. The invariant \<open>one_home\<close> keeps the two apart; this theory states it, with the
  uniqueness of ids it rests on, and shows that the writes of secrets and of settings preserve it.
\<close>

section \<open>One home per key\<close>

text \<open>The plain keys a scope has: its homes. Scopes that do not exist have none.\<close>

definition homes :: "agent list \<Rightarrow> config \<Rightarrow> env_scope \<Rightarrow> string list set" where
  "homes ags f sc = (case sc of
     Scope_workspace \<Rightarrow> {keys_of (cf_env f)}
   | Scope_repo k \<Rightarrow> {keys_of (re_env r) | r. r \<in> set (the_default [] (cf_repos f)) \<and> re_id r = Some k}
   | Scope_agent t \<Rightarrow> {agent_env a | a. a \<in> set ags \<and> a_workspace a = cf_workspace f \<and> show_nat (a_id a) = t})"

definition apart :: "string list \<Rightarrow> env_map \<Rightarrow> bool" where
  "apart ks m \<longleftrightarrow> set ks \<inter> fst ` set m = {}"

definition secrets_apart :: "agent list \<Rightarrow> config \<Rightarrow> env_secrets \<Rightarrow> bool" where
  "secrets_apart ags f s \<longleftrightarrow> (\<forall>sc. \<forall>ks\<in>homes ags f sc. apart ks (scope_submap s sc))"

definition config_apart :: "agent list \<Rightarrow> config \<Rightarrow> bool" where
  "config_apart ags f \<longleftrightarrow> (\<forall>s. cf_secrets f = Some (Sealed s) \<longrightarrow> secrets_apart ags f s)"

definition one_home :: "console \<Rightarrow> bool" where
  "one_home c \<longleftrightarrow> (\<forall>f\<in>set (cn_config c). config_apart (w_agents (cn_world c)) f)"

text \<open>Ids are unique and were all issued; secrets are kept for issued agents only.\<close>

definition config_ids :: "id \<Rightarrow> config \<Rightarrow> bool" where
  "config_ids n f \<longleftrightarrow> distinct (live_ids f) \<and>
     (\<forall>s. cf_secrets f = Some (Sealed s) \<longrightarrow> (\<forall>i\<ge>n. scope_submap s (Scope_agent (show_nat i)) = []))"

definition ids_ok :: "console \<Rightarrow> bool" where
  "ids_ok c \<longleftrightarrow> distinct (map cf_workspace (cn_config c)) \<and> distinct (map a_id (w_agents (cn_world c))) \<and>
     (\<forall>a\<in>set (w_agents (cn_world c)). a_id a < w_next (cn_world c)) \<and>
     (\<forall>f\<in>set (cn_config c). config_ids (w_next (cn_world c)) f)"

definition console_ok :: "console \<Rightarrow> bool" where
  "console_ok c \<longleftrightarrow> ids_ok c \<and> one_home c"

lemma show_nat_eq [simp]: "show_nat i = show_nat j \<longleftrightarrow> i = j"
  using decimal_show_nat by (metis of_nat_eq_iff)

lemma id_of_text_show [simp]: "id_of_text (show_nat i) = Some i"
  by (simp add: id_of_text_def all_digits_def decimal_show_nat show_nat_digits show_nat_nonempty)

lemma the_default_simps [simp]: "the_default d None = d" "the_default d (Some x) = x"
  by (simp_all add: the_default_def)

lemma apart_Nil [simp]: "apart ks []" "apart [] m"
  by (simp_all add: apart_def)

lemma apart_subset: "apart ks m \<Longrightarrow> fst ` set m' \<subseteq> fst ` set m \<Longrightarrow> apart ks m'"
  unfolding apart_def by blast

lemma collision_None: "collision ks (map fst m) = None \<Longrightarrow> apart ks m"
  by (force simp: collision_def find_None_iff js_in_def apart_def)

lemma collision_None_plain: "collision (map fst m) ks = None \<Longrightarrow> apart ks m"
  by (force simp: collision_def find_None_iff js_in_def apart_def)

section \<open>Writing secrets\<close>

lemma map_of_put: "map_of (the_default [] (put k v m)) k' = (if k' = k then v else map_of (the_default [] m) k')"
  by (cases v) (auto simp: put_def update_conv' delete_conv')

lemma scope_submap_apply:
  "scope_submap (apply_scope sc v s) sc' = (if sc' = sc then the_default [] v else scope_submap s sc')"
  by (cases sc; cases sc') (auto simp: scope_submap_def apply_scope_def map_of_put)

lemma keys_delete_all: "fst ` set (foldl (\<lambda>n k. AList.delete k n) m ks) = fst ` set m - set ks"
proof (induction ks arbitrary: m)
  case (Cons k ks)
  then show ?case by (auto simp: delete_keys [of k m, THEN arg_cong [of _ _ set], simplified])
qed simp

text \<open>What a write leaves in its scope, and that it touches no other.\<close>

lemma keys_written: "fst ` set (written_map q m) = (fst ` set m \<union> set (keys_of (sw_set q))) - set (the_default [] (sw_delete q))"
  by (simp add: written_map_def keys_delete_all keys_object_assign keys_of_def)

lemma written_secrets_scope:
  "scope_submap (written_secrets q s) sc =
     (if sc = sw_scope q then written_map q (scope_submap s sc) else scope_submap s sc)"
  by (simp add: written_secrets_def scope_submap_apply Let_def)

lemma map_filter_unique:
  "distinct (List.map_filter f xs) \<Longrightarrow> x \<in> set xs \<Longrightarrow> y \<in> set xs \<Longrightarrow> f x = Some k \<Longrightarrow> f y = Some k \<Longrightarrow> x = y"
proof (induction xs)
  case (Cons z zs)
  have "k \<in> set (List.map_filter f zs)" if "w \<in> set zs" "f w = Some k" for w
    using that by (force simp: map_filter_def)
  with Cons show ?case by (auto simp: map_filter_simps split: option.splits)
qed simp

lemma plaintext_home:
  assumes plain: "plaintext_of c f sc = Inr ks" and ids: "distinct (live_ids f)" "distinct (map a_id (w_agents (cn_world c)))"
  shows "homes (w_agents (cn_world c)) f sc \<subseteq> {ks}"
proof (cases sc)
  case Scope_workspace
  then show ?thesis using plain by (simp add: homes_def plaintext_of_def)
next
  case (Scope_repo k)
  with plain obtain r where r: "find (\<lambda>r. re_id r = Some k) (the_default [] (cf_repos f)) = Some r" and ks: "ks = keys_of (re_env r)"
    by (auto simp: plaintext_of_def split: option.splits)
  then show ?thesis using find_Some_mem [OF r] map_filter_unique [OF ids(1) [unfolded live_ids_def], of _ r k]
    by (auto simp: homes_def Scope_repo)
next
  case (Scope_agent t)
  with plain obtain a where a: "find (\<lambda>a. id_of_text t = Some (a_id a) \<and> a_workspace a = cf_workspace f) (w_agents (cn_world c)) = Some a"
    and ks: "ks = agent_env a" by (auto simp: plaintext_of_def split: option.splits)
  have "b = a" if "b \<in> set (w_agents (cn_world c))" "show_nat (a_id b) = t" for b
    using that find_Some_mem [OF a] ids(2) by (auto simp: distinct_map inj_on_def)
  then show ?thesis using ks by (auto simp: homes_def Scope_agent)
qed

lemma secrets_apart_none [simp]: "secrets_apart ags f no_secrets"
  by (auto simp: secrets_apart_def scope_submap_def no_secrets_def split: env_scope.split)

lemma opened_apart:
  assumes "config_apart ags f" and "open_or_empty (cf_secrets f) c = (Inr s, c')"
  shows "secrets_apart ags f s" and "c' = c"
  using assms by (auto simp: config_apart_def open_or_empty_def act_simps split: option.splits blob.splits)

lemma written_apart:
  assumes "secrets_apart ags f s" and "homes ags f (sw_scope q) \<subseteq> {ks}" and "collision (keys_of (sw_set q)) ks = None"
  shows "secrets_apart ags f (written_secrets q s)"
proof -
  have new: "apart ks (the_default [] (sw_set q))"
    by (rule collision_None_plain) (use assms(3) in \<open>simp add: keys_of_def\<close>)
  have "apart ks' (written_map q (scope_submap s (sw_scope q)))" if "ks' \<in> homes ags f (sw_scope q)" for ks'
  proof -
    have "ks' = ks" "apart ks' (scope_submap s (sw_scope q))" using assms(1,2) that by (auto simp: secrets_apart_def)
    then show ?thesis using new unfolding apart_def keys_written keys_of_def by auto
  qed
  then show ?thesis using assms(1) by (auto simp: secrets_apart_def written_secrets_scope)
qed

text \<open>Replacing the secrets of one workspace.\<close>

definition replace_secrets :: "id \<Rightarrow> env_secrets \<Rightarrow> console \<Rightarrow> console" where
  "replace_secrets i s c = c\<lparr>cn_config := map (\<lambda>g. if cf_workspace g = i then g\<lparr>cf_secrets := Some (Sealed s)\<rparr> else g) (cn_config c)\<rparr>"

lemma config_with_secrets [simp]:
  "homes ags (f\<lparr>cf_secrets := b\<rparr>) sc = homes ags f sc" "live_ids (f\<lparr>cf_secrets := b\<rparr>) = live_ids f"
  "cf_workspace (f\<lparr>cf_secrets := b\<rparr>) = cf_workspace f" "secrets_apart ags (f\<lparr>cf_secrets := b\<rparr>) s = secrets_apart ags f s"
  by (simp_all add: homes_def live_ids_def secrets_apart_def cong: env_scope.case_cong)

lemma find_config_mem: "find_config i c = Some f \<Longrightarrow> f \<in> set (cn_config c) \<and> cf_workspace f = i"
  unfolding find_config_def by (drule find_Some_mem) simp

lemma find_config_unique:
  "ids_ok c \<Longrightarrow> find_config i c = Some f \<Longrightarrow> g \<in> set (cn_config c) \<Longrightarrow> cf_workspace g = i \<Longrightarrow> g = f"
  by (auto simp: ids_ok_def distinct_map inj_on_def dest: find_config_mem)

lemma replace_secrets_ok:
  assumes ok: "console_ok c" and f: "find_config i c = Some f" and s: "secrets_apart (w_agents (cn_world c)) f s"
    and fresh: "\<And>j. w_next (cn_world c) \<le> j \<Longrightarrow> scope_submap s (Scope_agent (show_nat j)) = []"
  shows "console_ok (replace_secrets i s c)"
proof -
  have ids: "ids_ok c" using ok by (simp add: console_ok_def)
  have same: "map cf_workspace (cn_config (replace_secrets i s c)) = map cf_workspace (cn_config c)"
    by (simp add: replace_secrets_def)
  have world: "cn_world (replace_secrets i s c) = cn_world c" by (simp add: replace_secrets_def)
  have cfgs: "g \<in> set (cn_config c) \<and> cf_workspace g \<noteq> i \<or> g = f\<lparr>cf_secrets := Some (Sealed s)\<rparr>"
    if "g \<in> set (cn_config (replace_secrets i s c))" for g
    using that find_config_unique [OF ids f] by (auto simp: replace_secrets_def split: if_splits)
  have fmem: "f \<in> set (cn_config c)" using find_config_mem [OF f] by simp
  have "config_ids (w_next (cn_world c)) (f\<lparr>cf_secrets := Some (Sealed s)\<rparr>)"
    using ids fmem fresh by (auto simp: ids_ok_def config_ids_def)
  moreover have "config_apart (w_agents (cn_world c)) (f\<lparr>cf_secrets := Some (Sealed s)\<rparr>)"
    using s by (simp add: config_apart_def)
  ultimately show ?thesis
    using ok cfgs unfolding console_ok_def ids_ok_def one_home_def world same by blast
qed

lemma update_config_secrets: "update_config i (\<lambda>g. g\<lparr>cf_secrets := Some (Sealed s)\<rparr>) c = (Inr (), replace_secrets i s c)"
  by (simp add: update_config_def act_simps replace_secrets_def)

lemma update_env_secrets_run:
  "update_env_secrets i q c =
     (if env_map_issues (the_default [] (sw_set q)) \<noteq> [] then (Inl Invalid_body, c) else
      case find_config i c of None \<Rightarrow> (Inl (Not_there ''workspace_not_found''), c)
      | Some f \<Rightarrow> (case plaintext_of c f (sw_scope q) of Inl e \<Rightarrow> (Inl e, c)
        | Inr ks \<Rightarrow> (case collision (keys_of (sw_set q)) ks of
            Some k \<Rightarrow> (Inl (Conflicting (''env key \"'' @ k @ ''\" is already defined as a non-secret value in this scope'')), c)
          | None \<Rightarrow> (case open_or_empty (cf_secrets f) c of (Inl e, c') \<Rightarrow> (Inl e, c')
             | (Inr s, c') \<Rightarrow> (Inr (), replace_secrets i (written_secrets q s) c')))))"
  by (simp add: update_env_secrets_def bnd_app gets_app throw_app update_config_secrets split: option.split sum.split prod.split)

lemma open_or_empty_same: "open_or_empty b c = (r, c') \<Longrightarrow> c' = c"
  by (auto simp: open_or_empty_def act_simps split: option.splits blob.splits)

lemma update_env_secrets_cases:
  assumes run: "update_env_secrets i q c = (r, c')"
  obtains "c' = c" "\<exists>e. r = Inl e"
  | f ks s where "find_config i c = Some f" "plaintext_of c f (sw_scope q) = Inr ks" "collision (keys_of (sw_set q)) ks = None"
      "open_or_empty (cf_secrets f) c = (Inr s, c)" "c' = replace_secrets i (written_secrets q s) c"
      "env_map_issues (the_default [] (sw_set q)) = []" "r = Inr ()"
proof (cases "find_config i c")
  case None
  then show ?thesis using run that(1) by (auto simp: update_env_secrets_run split: if_splits)
next
  case f: (Some f)
  show ?thesis
  proof (cases "plaintext_of c f (sw_scope q)")
    case (Inl e)
    then show ?thesis using run that(1) by (auto simp: update_env_secrets_run f split: if_splits)
  next
    case ks: (Inr ks)
    obtain o' d where opn: "open_or_empty (cf_secrets f) c = (o', d)" by fastforce
    with open_or_empty_same have d: "d = c" by blast
    show ?thesis
    proof (cases "collision (keys_of (sw_set q)) ks")
      case None
      then show ?thesis using run that(1) that(2) [OF f ks None] opn d
        by (cases o') (auto simp: update_env_secrets_run f ks split: if_splits)
    next
      case (Some k)
      then show ?thesis using run that(1) by (auto simp: update_env_secrets_run f ks split: if_splits)
    qed
  qed
qed

lemma opened_fresh:
  assumes "config_ids n f" and "open_or_empty (cf_secrets f) c = (Inr s, c')" and "n \<le> j"
  shows "scope_submap s (Scope_agent (show_nat j)) = []"
  using assms by (auto simp: config_ids_def open_or_empty_def act_simps no_secrets_def scope_submap_def
    split: option.splits blob.splits)

lemma update_env_secrets_ok:
  assumes ok: "console_ok c" and run: "update_env_secrets i q c = (r, c')"
  shows "console_ok c'"
  using run
proof (cases rule: update_env_secrets_cases)
  case 1
  then show ?thesis using ok by simp
next
  case (2 f ks s)
  let ?ags = "w_agents (cn_world c)"
  have ids: "ids_ok c" and f: "f \<in> set (cn_config c)" using ok find_config_mem [OF 2(1)] by (auto simp: console_ok_def)
  then have cf: "config_ids (w_next (cn_world c)) f" and "config_apart ?ags f"
    using ok by (auto simp: ids_ok_def console_ok_def one_home_def)
  then have s: "secrets_apart ?ags f s" using opened_apart(1) 2(4) by blast
  have "homes ?ags f (sw_scope q) \<subseteq> {ks}"
    using plaintext_home [OF 2(2)] ids cf by (simp add: ids_ok_def config_ids_def)
  then have "secrets_apart ?ags f (written_secrets q s)" using written_apart [OF s _ 2(3)] by simp
  moreover have "scope_submap (written_secrets q s) (Scope_agent (show_nat j)) = []" if j: "w_next (cn_world c) \<le> j" for j
  proof -
    have "sw_scope q \<noteq> Scope_agent (show_nat j)"
    proof
      assume sc: "sw_scope q = Scope_agent (show_nat j)"
      then obtain a where "a \<in> set ?ags" "a_id a = j"
        using 2(2) by (auto simp: plaintext_of_def split: option.splits dest: find_Some_mem)
      then have "j < w_next (cn_world c)" using ids by (auto simp: ids_ok_def)
      with j show False by simp
    qed
    then show ?thesis using opened_fresh [OF cf 2(4) j] by (simp add: written_secrets_scope)
  qed
  ultimately show ?thesis unfolding 2(5) using replace_secrets_ok [OF ok 2(1)] by blast
qed

section \<open>Writing settings\<close>

lemma config_ids_mono: "config_ids m f \<Longrightarrow> m \<le> n \<Longrightarrow> config_ids n f"
  by (auto simp: config_ids_def)

lemma world_change_ok:
  assumes "console_ok c" and "w_agents w = w_agents (cn_world c)" and "w_next (cn_world c) \<le> w_next w"
  shows "console_ok (c\<lparr>cn_world := w\<rparr>)"
  using assms by (auto simp: console_ok_def ids_ok_def one_home_def intro: config_ids_mono less_le_trans)

lemma update_config_ok:
  assumes ok: "console_ok c"
    and h: "\<And>g. g \<in> set (cn_config c) \<Longrightarrow> cf_workspace g = i \<Longrightarrow>
      cf_workspace (h g) = i \<and> config_ids (w_next (cn_world c)) (h g) \<and> config_apart (w_agents (cn_world c)) (h g)"
  shows "console_ok (c\<lparr>cn_config := map (\<lambda>g. if cf_workspace g = i then h g else g) (cn_config c)\<rparr>)"
proof -
  let ?c = "c\<lparr>cn_config := map (\<lambda>g. if cf_workspace g = i then h g else g) (cn_config c)\<rparr>"
  have d: "map cf_workspace (cn_config ?c) = map cf_workspace (cn_config c)"
    using h by simp
  have "\<forall>g\<in>set (cn_config ?c). config_ids (w_next (cn_world c)) g"
    using ok h by (auto simp: console_ok_def ids_ok_def)
  then have "ids_ok ?c" using ok unfolding ids_ok_def d by (simp add: console_ok_def ids_ok_def)
  moreover have "one_home ?c" using ok h by (auto simp: console_ok_def one_home_def)
  ultimately show ?thesis by (simp add: console_ok_def)
qed

lemma update_config_run: "update_config i h c =
    (Inr (), c\<lparr>cn_config := map (\<lambda>g. if cf_workspace g = i then h g else g) (cn_config c)\<rparr>)"
  by (simp add: update_config_def act_simps)

text \<open>Handlers that leave the agents alone.\<close>

definition agents_kept :: "world \<Rightarrow> world \<Rightarrow> bool" where
  "agents_kept w w' \<longleftrightarrow> w_agents w' = w_agents w \<and> w_next w \<le> w_next w'"

interpretation agents_kept: state_relation agents_kept
  by unfold_locales (auto simp: agents_kept_def)

lemma agents_kept_prims [steps_intros]:
  "steps agents_kept (answer cl x)" "steps agents_kept (insert_run r0)" "steps agents_kept (insert_ticket t0)"
  "steps agents_kept (queue_add E j)" "steps agents_kept (update_workspace i f)"
  by (auto simp: steps_def agents_kept_def answer_def insert_run_def insert_ticket_def queue_add_def update_workspace_def
      act_simps Let_def split: option.split sum.split)

lemma agents_kept_calls [steps_intros]:
  "steps agents_kept (jira_connect E ws)" "steps agents_kept (jira_project_statuses E ws k)"
  by (auto simp: jira_connect_def jira_project_statuses_def intro!: stepsI stepsD [OF agents_kept_prims(1)])

lemma on_world_ok:
  assumes "steps agents_kept m" and "console_ok c" and "on_world m c = (r, c')"
  shows "console_ok c'"
proof -
  obtain x w where m: "m (cn_world c) = (x, w)" by fastforce
  then have "agents_kept (cn_world c) w" using steps_run [OF assms(1)] by blast
  then show ?thesis using assms(2,3) m world_change_ok by (auto simp: on_world_def agents_kept_def split: sum.splits)
qed

subsection \<open>Repository ids\<close>

definition fresh_ids :: "(nat \<Rightarrow> string) \<Rightarrow> settings_patch \<Rightarrow> console \<Rightarrow> bool" where
  "fresh_ids fresh p c \<longleftrightarrow> inj fresh \<and> (\<forall>n. fresh n \<notin> set (List.map_filter re_id (the_default [] (sp_repos p))) \<and>
     (\<forall>f\<in>set (cn_config c). fresh n \<notin> set (live_ids f) \<and>
        (\<forall>s. cf_secrets f = Some (Sealed s) \<longrightarrow> scope_submap s (Scope_repo (fresh n)) = [])))"

lemma normalized_mem:
  "r' \<in> set (normalize_repository_ids fresh n rs) \<Longrightarrow>
     r' \<in> set rs \<and> re_id r' \<noteq> None \<or> (\<exists>r\<in>set rs. \<exists>m\<ge>n. re_id r = None \<and> r' = r\<lparr>re_id := Some (fresh m)\<rparr>)"
proof (induction rs arbitrary: n)
  case (Cons x xs)
  then show ?case by (cases "re_id x") (auto dest!: Cons.IH dest: Suc_leD)
qed simp

lemma normalized_ids:
  "set (List.map_filter re_id (normalize_repository_ids fresh n rs)) \<subseteq> set (List.map_filter re_id rs) \<union> fresh ` {n..}"
proof (induction rs arbitrary: n)
  case (Cons x xs)
  have "fresh ` {Suc n..} \<subseteq> fresh ` {n..}" by auto
  with Cons [of n] Cons [of "Suc n"] show ?case by (cases "re_id x") (auto simp: map_filter_simps)
qed (simp add: map_filter_simps)

lemma normalized_distinct:
  assumes "inj fresh"
  shows "distinct (List.map_filter re_id rs) \<Longrightarrow> \<forall>m. fresh m \<notin> set (List.map_filter re_id rs) \<Longrightarrow>
    distinct (List.map_filter re_id (normalize_repository_ids fresh n rs))"
proof (induction rs arbitrary: n)
  case (Cons x xs)
  show ?case
  proof (cases "re_id x")
    case None
    have "fresh n \<notin> set (List.map_filter re_id (normalize_repository_ids fresh (Suc n) xs))"
      using normalized_ids [of fresh "Suc n" xs] Cons.prems(2) None assms
      by (fastforce simp: map_filter_simps dest!: subsetD dest: injD)
    then show ?thesis using Cons None by (simp add: map_filter_simps)
  next
    case (Some k)
    have "k \<notin> set (List.map_filter re_id (normalize_repository_ids fresh n xs))"
      using normalized_ids [of fresh n xs] Cons.prems Some by (auto simp: map_filter_simps dest!: subsetD)
    then show ?thesis using Cons Some by (simp add: map_filter_simps)
  qed
qed (simp add: map_filter_simps)

subsection \<open>The guards and the merge\<close>

lemma guard_no_secret_collision_ok:
  "guard_no_secret_collision e sec l c = (r, c') \<Longrightarrow> c' = c \<and> (r = Inr () \<longrightarrow> apart (map fst e) (the_default [] sec))"
  by (auto simp: guard_no_secret_collision_def act_simps dest: collision_None split: option.splits)

lemma guard_repo_env_ok:
  "guard_repo_env s r c = (x, c') \<Longrightarrow> c' = c \<and> (x = Inr () \<longrightarrow> (\<forall>k. re_id r = Some k \<longrightarrow>
     apart (keys_of (re_env r)) (scope_submap s (Scope_repo k))))"
  by (auto simp: guard_repo_env_def act_simps keys_of_def scope_submap_def split: option.splits dest: guard_no_secret_collision_ok)

lemma guard_repos_ok:
  "for_each rs (guard_repo_env s) c = (x, c') \<Longrightarrow> c' = c \<and> (x = Inr () \<longrightarrow> (\<forall>r\<in>set rs. \<forall>k. re_id r = Some k \<longrightarrow>
     apart (keys_of (re_env r)) (scope_submap s (Scope_repo k))))"
proof (induction rs)
  case (Cons r rs)
  obtain y d where g: "guard_repo_env s r c = (y, d)" by fastforce
  with guard_repo_env_ok have "d = c" by blast
  with g Cons show ?case using guard_repo_env_ok [OF g] by (cases y) (auto simp: act_simps)
qed (simp add: act_simps)

definition patch_guarded :: "settings_patch \<Rightarrow> env_secrets \<Rightarrow> bool" where
  "patch_guarded p s \<longleftrightarrow> (\<forall>e. sp_env p = Some e \<longrightarrow> apart (map fst e) (scope_submap s Scope_workspace)) \<and>
     (\<forall>r\<in>set (the_default [] (sp_repos p)). \<forall>k. re_id r = Some k \<longrightarrow>
        apart (keys_of (re_env r)) (scope_submap s (Scope_repo k)))"

lemma merge_config_simps [simp]:
  "cf_workspace (merge_config fresh p f) = cf_workspace f" "cf_secrets (merge_config fresh p f) = cf_secrets f"
  "cf_env (merge_config fresh p f) = over (sp_env p) (cf_env f)"
  "cf_repos (merge_config fresh p f) = map_option (normalize_repository_ids fresh 0) (over (sp_repos p) (cf_repos f))"
  by (simp_all add: merge_config_def)

lemma merged_apart:
  assumes s: "secrets_apart ags f s" and g: "patch_guarded p s"
    and fr: "\<And>n. scope_submap s (Scope_repo (fresh n)) = []"
  shows "secrets_apart ags (merge_config fresh p f) s"
  unfolding secrets_apart_def
proof (intro allI ballI)
  fix sc ks assume ks: "ks \<in> homes ags (merge_config fresh p f) sc"
  have old: "ks' \<in> homes ags f sc \<Longrightarrow> apart ks' (scope_submap s sc)" for ks'
    using s by (simp add: secrets_apart_def)
  show "apart ks (scope_submap s sc)"
  proof (cases sc)
    case Scope_workspace
    then show ?thesis using ks g old
      by (cases "sp_env p") (auto simp: homes_def over_def patch_guarded_def keys_of_def)
  next
    case (Scope_agent i)
    then show ?thesis using ks old by (auto simp: homes_def)
  next
    case (Scope_repo k)
    let ?rs = "the_default [] (over (sp_repos p) (cf_repos f))"
    obtain r' where r': "r' \<in> set (normalize_repository_ids fresh 0 ?rs)" "re_id r' = Some k" "ks = keys_of (re_env r')"
      using ks by (cases "over (sp_repos p) (cf_repos f)") (auto simp: homes_def Scope_repo)
    show ?thesis
    proof (cases "r' \<in> set ?rs")
      case True
      then show ?thesis using g old r' Scope_repo
        by (cases "sp_repos p") (auto simp: homes_def over_def patch_guarded_def)
    next
      case False
      with normalized_mem [OF r'(1)] r'(2) obtain m where "k = fresh m" by auto
      then show ?thesis using fr by (simp add: Scope_repo)
    qed
  qed
qed

lemma fresh_idsD:
  assumes "fresh_ids fresh p c" and "f \<in> set (cn_config c)"
  shows "inj fresh" and "fresh n \<notin> set (List.map_filter re_id (the_default [] (sp_repos p)))" and "fresh n \<notin> set (live_ids f)"
    and "cf_secrets f = Some (Sealed s) \<Longrightarrow> scope_submap s (Scope_repo (fresh n)) = []"
  using assms by (auto simp: fresh_ids_def)

lemma merged_ids:
  assumes "config_ids n f" and "distinct (List.map_filter re_id (the_default [] (sp_repos p)))"
    and "fresh_ids fresh p c" and "f \<in> set (cn_config c)"
  shows "config_ids n (merge_config fresh p f)"
proof -
  let ?rs = "the_default [] (over (sp_repos p) (cf_repos f))"
  have "distinct (List.map_filter re_id ?rs)" "\<forall>m. fresh m \<notin> set (List.map_filter re_id ?rs)"
    using assms fresh_idsD [OF assms(3,4)] by (cases "sp_repos p"; auto simp: over_def config_ids_def live_ids_def)+
  then have "distinct (List.map_filter re_id (normalize_repository_ids fresh 0 ?rs))"
    using normalized_distinct [OF fresh_idsD(1) [OF assms(3,4)]] by blast
  then show ?thesis using assms(1)
    by (cases "over (sp_repos p) (cf_repos f)") (auto simp: config_ids_def live_ids_def map_filter_simps)
qed

subsection \<open>The whole write\<close>

definition keeps :: "console \<Rightarrow> console \<Rightarrow> bool" where
  "keeps c c' \<longleftrightarrow> (console_ok c \<longrightarrow> console_ok c')"

interpretation keeps: state_relation keeps
  by unfold_locales (auto simp: keeps_def)

lemma keeps_on_world [steps_intros]: "steps agents_kept m \<Longrightarrow> steps keeps (on_world m)"
  unfolding steps_def [of keeps] keeps_def using on_world_ok [of m] by (metis prod.collapse)

lemma keeps_update_config [steps_intros]:
  assumes "\<And>g. cf_workspace (h g) = cf_workspace g \<and> cf_env (h g) = cf_env g \<and> cf_repos (h g) = cf_repos g \<and> cf_secrets (h g) = cf_secrets g"
  shows "steps keeps (update_config i h)"
  unfolding steps_def keeps_def update_config_run snd_conv
proof (intro allI impI update_config_ok)
  fix c g assume "console_ok c" "g \<in> set (cn_config c)" "cf_workspace g = i"
  moreover have "live_ids (h g) = live_ids g" "homes ags (h g) sc = homes ags g sc" for ags sc
    using assms [of g] by (simp_all add: live_ids_def homes_def cong: env_scope.case_cong)
  ultimately show "cf_workspace (h g) = i \<and> config_ids (w_next (cn_world c)) (h g) \<and> config_apart (w_agents (cn_world c)) (h g)"
    using assms [of g]
    by (auto simp: console_ok_def ids_ok_def one_home_def config_ids_def config_apart_def secrets_apart_def)
qed

lemma map_of_filter_keys: "map_of (filter (\<lambda>(k, e). P k) m) k = (if P k then map_of m k else None)"
  by (induction m) auto

lemma pruned_submap:
  "es_repos s = Some m \<Longrightarrow> scope_submap (s\<lparr>es_repos := Some (filter (\<lambda>(k, e). P k) m)\<rparr>) sc =
     (case sc of Scope_repo k \<Rightarrow> if P k then scope_submap s sc else [] | _ \<Rightarrow> scope_submap s sc)"
  by (cases sc) (simp_all add: scope_submap_def map_of_filter_keys)

lemma prune_repos_ok:
  assumes ok: "console_ok c" and f: "find_config i c = Some f" and s: "secrets_apart (w_agents (cn_world c)) f s"
    and fresh: "\<And>j. w_next (cn_world c) \<le> j \<Longrightarrow> scope_submap s (Scope_agent (show_nat j)) = []"
    and run: "prune_repos i s f' c = (r, c')"
  shows "console_ok c'"
proof (cases "es_repos s")
  case None
  then show ?thesis using run ok by (simp add: prune_repos_def act_simps)
next
  case (Some m)
  let ?s = "s\<lparr>es_repos := Some (filter (\<lambda>(k, e). k \<in> set (live_ids f')) m)\<rparr>"
  have "secrets_apart (w_agents (cn_world c)) f ?s"
    using s by (auto simp: secrets_apart_def pruned_submap [OF Some] split: env_scope.split)
  moreover have "scope_submap ?s (Scope_agent (show_nat j)) = []" if "w_next (cn_world c) \<le> j" for j
    using fresh [OF that] by (simp add: pruned_submap [OF Some])
  ultimately have "console_ok (replace_secrets i ?s c)" using replace_secrets_ok [OF ok f] by blast
  then show ?thesis using run ok Some
    by (auto simp: prune_repos_def act_simps update_config_secrets Let_def split: if_splits)
qed

text \<open>The configuration after the patch.\<close>

definition patched :: "(nat \<Rightarrow> string) \<Rightarrow> id \<Rightarrow> settings_patch \<Rightarrow> console \<Rightarrow> console" where
  "patched fresh i p c = c\<lparr>cn_world := (cn_world c)\<lparr>w_workspaces := map (\<lambda>s. if s_id s = i
       then s\<lparr>s_settings := merge_settings p (s_settings s)\<rparr> else s) (w_workspaces (cn_world c))\<rparr>,
     cn_config := map (\<lambda>g. if cf_workspace g = i then merge_config fresh p g else g) (cn_config c)\<rparr>"

lemma patch_run:
  "find_config i c = Some f \<Longrightarrow> patch_workspace_settings fresh i p c = (Inr (merge_config fresh p f), patched fresh i p c)"
  by (simp add: patch_workspace_settings_def act_simps on_world_def update_workspace_def update_config_def patched_def)

lemma find_config_patched: "find_config i c = Some f \<Longrightarrow> find_config i (patched fresh i p c) = Some (merge_config fresh p f)"
proof -
  have "find (\<lambda>g. cf_workspace g = i) cs = Some f \<Longrightarrow>
      find (\<lambda>g. cf_workspace g = i) (map (\<lambda>g. if cf_workspace g = i then merge_config fresh p g else g) cs) =
      Some (merge_config fresh p f)" for cs by (induction cs) (auto split: if_splits)
  then show "find_config i c = Some f \<Longrightarrow> ?thesis" by (simp add: find_config_def patched_def)
qed

lemma patched_ok:
  assumes ok: "console_ok c" and f: "find_config i c = Some f" and s: "secrets_apart (w_agents (cn_world c)) f s"
    and opn: "\<And>s'. cf_secrets f = Some (Sealed s') \<Longrightarrow> s' = s"
    and g: "patch_guarded p s" and d: "distinct (List.map_filter re_id (the_default [] (sp_repos p)))"
    and fr: "fresh_ids fresh p c" and none: "\<And>n. scope_submap s (Scope_repo (fresh n)) = []"
  shows "console_ok (patched fresh i p c)"
proof -
  let ?d = "c\<lparr>cn_config := map (\<lambda>g. if cf_workspace g = i then merge_config fresh p g else g) (cn_config c)\<rparr>"
  have ids: "ids_ok c" using ok by (simp add: console_ok_def)
  have "console_ok ?d"
  proof (rule update_config_ok [OF ok])
    fix h assume h: "h \<in> set (cn_config c)" "cf_workspace h = i"
    then have "h = f" using find_config_unique [OF ids f] by blast
    then show "cf_workspace (merge_config fresh p h) = i \<and> config_ids (w_next (cn_world c)) (merge_config fresh p h) \<and>
        config_apart (w_agents (cn_world c)) (merge_config fresh p h)"
      using h merged_ids [OF _ d fr h(1)] ids merged_apart [OF s g none] opn
      by (auto simp: ids_ok_def config_apart_def)
  qed
  then have "console_ok (?d\<lparr>cn_world := cn_world (patched fresh i p c)\<rparr>)"
    by (rule world_change_ok) (simp_all add: patched_def)
  moreover have "?d\<lparr>cn_world := cn_world (patched fresh i p c)\<rparr> = patched fresh i p c" by (simp add: patched_def)
  ultimately show ?thesis by simp
qed

definition patch_ids_ok :: "(nat \<Rightarrow> string) \<Rightarrow> settings_patch \<Rightarrow> console \<Rightarrow> bool" where
  "patch_ids_ok fresh p c \<longleftrightarrow> distinct (List.map_filter re_id (the_default [] (sp_repos p))) \<and> fresh_ids fresh p c"

text \<open>What follows the patch: the pruning, then the members with accessors of their own.\<close>

definition after_prune :: "id \<Rightarrow> settings_patch \<Rightarrow> unit endpoint" where
  "after_prune i p =
     andthen (case sp_release_status p of None \<Rightarrow> ret () | Some v \<Rightarrow> set_dependency_release_status i v)
     (andthen (case sp_instructions p of None \<Rightarrow> ret () | Some v \<Rightarrow> update_config i (\<lambda>g. g\<lparr>cf_instructions := v\<rparr>))
       (case sp_token p of None \<Rightarrow> ret ()
        | Some v \<Rightarrow> update_config i (\<lambda>g. g\<lparr>cf_token := if v = Some [] then None else v\<rparr>)))"

lemma after_prune_keeps: "steps keeps (after_prune i p)"
  unfolding after_prune_def set_dependency_release_status_def Let_def
  by (intro steps_intros keeps.steps_ret keeps.steps_andthen) simp_all

lemma guard_env_ok:
  "(case sp_env p of None \<Rightarrow> ret () | Some e \<Rightarrow> guard_no_secret_collision e (es_workspace s) ''workspace'') c = (r, c') \<Longrightarrow>
     c' = c \<and> (r = Inr () \<longrightarrow> (\<forall>e. sp_env p = Some e \<longrightarrow> apart (map fst e) (scope_submap s Scope_workspace)))"
  by (auto simp: act_simps scope_submap_def split: option.splits dest: guard_no_secret_collision_ok)

text \<open>Before the patch nothing is written; the guards and the opened document carry over to it.\<close>

lemma update_settings_cases:
  assumes run: "update_settings fresh i p c = (r, c')"
  obtains "c' = c" "\<exists>e. r = Inl e"
  | f s where "find_config i c = Some f" "open_or_empty (cf_secrets f) c = (Inr s, c)" "patch_guarded p s"
      "andthen (if sp_repos p = None then ret () else prune_repos i s (merge_config fresh p f)) (after_prune i p)
         (patched fresh i p c) = (r, c')"
proof (cases "settings_ok p")
  case False
  then show ?thesis using run that(1) by (auto simp: update_settings_def act_simps)
next
  case valid: True
  obtain x where opn: "open_or_empty (Option.bind (find_config i c) cf_secrets) c = (x, c)"
    using open_or_empty_same by (metis surj_pair)
  show ?thesis
  proof (cases x)
    case (Inl e)
    then show ?thesis using run that(1) valid opn by (auto simp: update_settings_def act_simps)
  next
    case (Inr s)
    obtain y where y: "(case sp_env p of None \<Rightarrow> ret () | Some e \<Rightarrow> guard_no_secret_collision e (es_workspace s) ''workspace'') c = (y, c)"
      using guard_env_ok by (metis surj_pair)
    obtain z where z: "for_each (the_default [] (sp_repos p)) (guard_repo_env s) c = (z, c)"
      using guard_repos_ok by (metis surj_pair)
    show ?thesis
    proof (cases "find_config i c")
      case None
      then show ?thesis using run that(1) valid opn Inr y z
        by (cases y; cases z) (auto simp: update_settings_def act_simps patch_workspace_settings_def)
    next
      case f: (Some f)
      show ?thesis
      proof (cases "y = Inr () \<and> z = Inr ()")
        case True
        then have "patch_guarded p s" using guard_env_ok [OF y] guard_repos_ok [OF z] by (simp add: patch_guarded_def)
        moreover have "andthen (if sp_repos p = None then ret () else prune_repos i s (merge_config fresh p f)) (after_prune i p)
           (patched fresh i p c) = (r, c')"
          using run valid opn Inr y z True f patch_run [OF f]
          by (simp add: update_settings_def after_prune_def bnd_app andthen_app gets_app)
        ultimately show ?thesis using that(2) f opn Inr by simp
      next
        case False
        then show ?thesis using run that(1) valid opn Inr y z f
          by (cases y; cases z) (auto simp: update_settings_def bnd_app andthen_app gets_app)
      qed
    qed
  qed
qed

lemma update_settings_ok:
  assumes ok: "console_ok c" and p: "patch_ids_ok fresh p c" and run: "update_settings fresh i p c = (r, c')"
  shows "console_ok c'"
  using run
proof (cases rule: update_settings_cases)
  case 1
  then show ?thesis using ok by simp
next
  case (2 f s)
  let ?d = "patched fresh i p c" and ?ags = "w_agents (cn_world c)"
  have ids: "ids_ok c" and fm: "f \<in> set (cn_config c)" using ok find_config_mem [OF 2(1)] by (auto simp: console_ok_def)
  then have cf: "config_ids (w_next (cn_world c)) f" and ca: "config_apart ?ags f"
    using ok by (auto simp: ids_ok_def console_ok_def one_home_def)
  have s: "secrets_apart ?ags f s" by (rule opened_apart(1) [OF ca 2(2)])
  have opn: "s' = s" if "cf_secrets f = Some (Sealed s')" for s'
    using 2(2) that by (auto simp: open_or_empty_def act_simps)
  have none: "scope_submap s (Scope_repo (fresh n)) = []" for n
    using 2(2) p fm by (auto simp: patch_ids_ok_def fresh_ids_def open_or_empty_def act_simps no_secrets_def scope_submap_def
      split: option.splits blob.splits)
  have fr: "fresh_ids fresh p c" and dis: "distinct (List.map_filter re_id (the_default [] (sp_repos p)))"
    using p by (simp_all add: patch_ids_ok_def)
  have d: "console_ok ?d" by (rule patched_ok [OF ok 2(1) s opn 2(3) dis fr none])
  have m: "secrets_apart (w_agents (cn_world ?d)) (merge_config fresh p f) s"
    using merged_apart [OF s 2(3) none] by (simp add: patched_def)
  have n: "scope_submap s (Scope_agent (show_nat j)) = []" if "w_next (cn_world ?d) \<le> j" for j
    using opened_fresh [OF cf 2(2)] that by (simp add: patched_def)
  obtain x e where pr: "(if sp_repos p = None then ret () else prune_repos i s (merge_config fresh p f)) ?d = (x, e)" by fastforce
  then have "console_ok e"
    using d prune_repos_ok [OF d find_config_patched [OF 2(1)] m n] by (auto simp: act_simps split: if_splits)
  then show ?thesis using 2(4) pr stepsD [OF after_prune_keeps, of e i p]
    by (cases x) (auto simp: andthen_app keeps_def)
qed

end
