(* ===== verification/ConfigSafety.thy ===== *)
theory ConfigSafety
  imports EnvHomes
begin

text \<open>
  What the configuration surface keeps: an environment variable of a scope is either a plain value or a
  secret, never both ("one home per key"); enabled agents of a workspace react to different triggers; an
  update leaves an agent's identity alone; an agent with runs is never deleted. The first two are shown for
  every sequence of the modelled endpoints, with the one hypothesis they need: an update names the
  workspace the agent belongs to.
\<close>

section \<open>Agents\<close>

subsection \<open>Requests\<close>

definition env_keys :: "json \<Rightarrow> string list" where
  "env_keys j = (case jget j ''env'' of Some (JObj kvs) \<Rightarrow> map fst kvs | _ \<Rightarrow> [])"

lemma agent_env_keys: "agent_env a = env_keys (a_behavior a)"
  by (simp add: agent_env_def env_keys_def)

lemma d_env_members_keys: "d_env_members kvs = Some m \<Longrightarrow> map fst m = map fst kvs"
  by (induction kvs arbitrary: m rule: d_env_members.induct) auto

lemma behavior_env:
  assumes "d_behavior j = Some b"
  shows "env_keys (JObj (bh_members b)) = keys_of (bh_env b)"
proof -
  obtain kvs where j: "j = JObj kvs" using assms by (cases j) auto
  with assms have b: "bh_members b = kvs" "opt ''env'' d_env kvs = Some (bh_env b)"
    by (auto split: option.splits)
  show ?thesis
  proof (cases "map_of kvs ''env''")
    case None
    then show ?thesis using b by (simp add: env_keys_def keys_of_def opt_def)
  next
    case (Some e)
    then obtain m where m: "d_env e = Some m" "bh_env b = Some m" using b(2) by (cases "d_env e") (auto simp: opt_def)
    then obtain es where "e = JObj es" "d_env_members es = Some m"
      by (cases e) (auto split: option.splits if_splits)
    then show ?thesis using Some m b(1) by (simp add: env_keys_def keys_of_def d_env_members_keys)
  qed
qed

lemma agent_write_SomeD:
  assumes "agent_write_schema j = Some q"
  shows "env_keys (behavior_json q) = keys_of (bh_env (aw_behavior q))" and "aw_trigger_status q \<noteq> []"
proof -
  obtain kvs where j: "j = JObj kvs" using assms by (cases j) auto
  obtain bh where bh: "opt ''behavior'' d_behavior kvs = Some bh" "aw_behavior q = the_default no_behavior bh"
    and ts: "req ''trigger_status'' (d_str 1 None) kvs = Some (aw_trigger_status q)"
    using assms unfolding j by (auto simp: Option.bind_eq_Some_conv split: if_splits)
  show "aw_trigger_status q \<noteq> []" using ts by (auto simp: req_def dest!: d_str_SomeD split: option.splits)
  have "env_keys (JObj (bh_members (aw_behavior q))) = keys_of (bh_env (aw_behavior q))"
  proof (cases bh)
    case None
    then show ?thesis using bh(2) by (simp add: no_behavior_def env_keys_def keys_of_def)
  next
    case (Some b)
    then have "\<exists>e. d_behavior e = Some b" using bh(1) by (auto simp: opt_def split: option.splits)
    then show ?thesis using Some bh(2) behavior_env by auto
  qed
  then show "env_keys (behavior_json q) = keys_of (bh_env (aw_behavior q))"
    by (auto simp: behavior_json_def env_keys_def update_conv' split: option.split)
qed

lemma as_id_same: "as_id s c = (r, c') \<Longrightarrow> c' = c"
  by (auto simp: as_id_def act_simps split: option.splits)

lemma as_id_Inr: "as_id s c = (Inr n, c') \<Longrightarrow> id_of_text s = Some n"
  by (auto simp: as_id_def act_simps split: option.splits)

lemma as_id_text [simp]: "id_of_text s = Some n \<Longrightarrow> as_id s c = (Inr n, c)"
  by (simp add: as_id_def act_simps)

lemma validate_same: "validate_repository_scope q c = (r, c') \<Longrightarrow> c' = c"
  by (auto simp: validate_repository_scope_def act_simps Let_def split: if_splits prod.splits sum.splits dest: as_id_same)

lemma guard_agent_env_ok:
  assumes "guard_agent_env wt t e c = (r, c')" and "id_of_text wt = Some ws"
    and "find_config ws c = Some f" and "cf_secrets f = Some (Sealed s)"
  shows "r = Inr () \<Longrightarrow> apart (keys_of e) (scope_submap s (Scope_agent t))"
  using assms by (auto simp: guard_agent_env_def act_simps keys_of_def scope_submap_def split: if_splits option.splits
    dest: collision_None)

lemma guard_agent_env_same: "guard_agent_env ws i e c = (r, c') \<Longrightarrow> c' = c"
  by (auto simp: guard_agent_env_def act_simps split: if_splits option.splits prod.splits sum.splits blob.splits dest: as_id_same)

lemma board_statuses_kept: "steps agents_kept (board_statuses E ws)"
  unfolding board_statuses_def
  by (intro steps_intros agents_kept.steps_bnd agents_kept.steps_gets agents_kept.steps_ret agents_kept.steps_catch agents_kept.steps_andthen)

text \<open>The linter writes nothing but the log of calls; if it passes, the request fits its workspace.\<close>

lemma lint_or_throw_run:
  assumes "lint_or_throw E q ed c = (r, c')"
  obtains w where "c' = c\<lparr>cn_world := w\<rparr>" and "agents_kept (cn_world c) w"
    and "\<And>ws x. r = Inr x \<Longrightarrow> id_of_text (aw_workspace q) = Some ws \<Longrightarrow>
      \<exists>b. fst (lint_agent (candidate_of q ed) (map existing_lintable (workspace_agents ws (cn_world c))) b) = []"
proof -
  obtain x d where as: "as_id (aw_workspace q) c = (x, d)" by fastforce
  then have d: "d = c" by (rule as_id_same)
  show ?thesis
  proof (cases x)
    case (Inl e)
    then show ?thesis using assms as d that [of "cn_world c"] agents_kept.R_refl
      by (auto simp: lint_or_throw_def bnd_app)
  next
    case (Inr ws)
    obtain y w where bs: "board_statuses E ws (cn_world c) = (y, w)" by fastforce
    have kept: "agents_kept (cn_world c) w" using steps_run [OF board_statuses_kept bs] .
    have as': "as_id (aw_workspace q) c = (Inr ws, c)" using as d Inr by simp
    have own: "ws' = ws" if "id_of_text (aw_workspace q) = Some ws'" for ws' using as' that by simp
    have agents: "workspace_agents ws w = workspace_agents ws (cn_world c)" using kept by (simp add: agents_kept_def workspace_agents_def)
    show ?thesis
    proof (rule that [of w])
      show "c' = c\<lparr>cn_world := w\<rparr>" using assms as' bs unfolding lint_or_throw_def bnd_app on_world_def
        by (cases y) (auto simp: act_simps split: option.splits prod.splits if_splits)
      show "agents_kept (cn_world c) w" by (rule kept)
      fix ws' x assume r: "r = Inr x" "id_of_text (aw_workspace q) = Some ws'"
      then show "\<exists>b. fst (lint_agent (candidate_of q ed) (map existing_lintable (workspace_agents ws' (cn_world c))) b) = []"
        using assms as' bs agents own unfolding lint_or_throw_def bnd_app on_world_def
        by (cases y) (auto simp: act_simps split: option.splits prod.splits if_splits, metis fst_conv)
    qed
  qed
qed

subsection \<open>Distinct triggers\<close>

definition clash :: "agent \<Rightarrow> agent \<Rightarrow> bool" where
  "clash a b \<longleftrightarrow> a_id a \<noteq> a_id b \<and> a_workspace a = a_workspace b \<and> a_enabled a \<and> a_enabled b \<and>
     (case a_trigger_status a of None \<Rightarrow> False | Some t \<Rightarrow> t \<noteq> [] \<and> a_trigger_status b = Some t \<and>
        normalize_jql (a_trigger_jql a) = normalize_jql (a_trigger_jql b))"

definition triggers_distinct :: "world \<Rightarrow> bool" where
  "triggers_distinct w \<longleftrightarrow> (\<forall>a\<in>set (w_agents w). \<forall>b\<in>set (w_agents w). \<not> clash a b) \<and>
     (\<forall>a\<in>set (w_agents w). a_is_orchestrator a \<longrightarrow> a_trigger_status a = None)"

lemma clash_sym: "clash a b \<Longrightarrow> clash b a"
  by (auto simp: clash_def split: option.splits)

lemma triggers_kept: "agents_kept w w' \<Longrightarrow> triggers_distinct w' = triggers_distinct w"
  by (simp add: agents_kept_def triggers_distinct_def)

text \<open>A row written from a request that the linter passed clashes with no other row of its workspace.\<close>

lemma linted_no_clash:
  assumes lint: "fst (lint_agent (candidate_of q ed) (map existing_lintable (workspace_agents ws w)) board) = []"
    and row: "a_trigger_status a = Some (aw_trigger_status q)" "a_trigger_jql a = aw_trigger_jql q" "a_workspace a = ws"
    and ed: "\<And>t. ed = Some t \<Longrightarrow> show_nat (a_id a) = t" and b: "b \<in> set (w_agents w)"
  shows "\<not> clash a b"
proof
  assume cl: "clash a b"
  let ?b = "existing_lintable b"
  have "?b \<in> set (map existing_lintable (workspace_agents ws w))"
    using b cl row(3) by (auto simp: workspace_agents_def clash_def)
  moreover have "other_enabled (candidate_of q ed) ?b"
    using cl ed by (cases ed) (auto simp: other_enabled_def existing_lintable_def candidate_of_def clash_def)
  moreover have "same_trigger (candidate_of q ed) (aw_trigger_status q) ?b" "aw_trigger_status q \<noteq> []"
    using cl row by (auto simp: same_trigger_def existing_lintable_def candidate_of_def clash_def)
  ultimately show False using lint by (auto simp: lint_ok_iff candidate_of_def)
qed

subsection \<open>Writing rows\<close>

definition with_agents :: "(agent list \<Rightarrow> agent list) \<Rightarrow> console \<Rightarrow> console" where
  "with_agents h c = c\<lparr>cn_world := (cn_world c)\<lparr>w_agents := h (w_agents (cn_world c))\<rparr>\<rparr>"

lemma edit_agents_ok:
  assumes ok: "console_ok c"
    and g: "\<And>a. a_id (g a) = a_id a \<and> a_workspace (g a) = a_workspace a"
    and sec: "\<And>a f s. a \<in> set (w_agents (cn_world c)) \<Longrightarrow> a_id a = i \<Longrightarrow> find_config (a_workspace a) c = Some f \<Longrightarrow>
      cf_secrets f = Some (Sealed s) \<Longrightarrow> apart (agent_env (g a)) (scope_submap s (Scope_agent (show_nat i)))"
  shows "console_ok (with_agents (map (\<lambda>a. if a_id a = i then g a else a)) c)"
proof -
  let ?h = "\<lambda>a. if a_id a = i then g a else a" and ?ags = "w_agents (cn_world c)"
  have ids: "ids_ok c" using ok by (simp add: console_ok_def)
  have d: "map a_id (map ?h ?ags) = map a_id ?ags" using g by simp
  have "ids_ok (with_agents (map ?h) c)"
  proof -
    have "\<forall>a\<in>set (map ?h ?ags). a_id a < w_next (cn_world c)" using ids g by (auto simp: ids_ok_def)
    then show ?thesis using ids unfolding ids_ok_def with_agents_def by (simp add: d del: map_map set_map)
  qed
  moreover have "config_apart (map ?h ?ags) f" if f: "f \<in> set (cn_config c)" for f
    unfolding config_apart_def secrets_apart_def
  proof (intro allI impI ballI)
    fix s sc ks assume s: "cf_secrets f = Some (Sealed s)" and ks: "ks \<in> homes (map ?h ?ags) f sc"
    have old: "ks' \<in> homes ?ags f sc \<Longrightarrow> apart ks' (scope_submap s sc)" for ks'
      using ok f s by (simp add: console_ok_def one_home_def config_apart_def secrets_apart_def)
    show "apart ks (scope_submap s sc)"
    proof (cases sc)
      case (Scope_agent t)
      then obtain a where a: "a \<in> set ?ags" "ks = agent_env (?h a)" "a_workspace a = cf_workspace f" "show_nat (a_id a) = t"
        using ks g by (auto simp: homes_def split: if_splits)
      have "find_config (a_workspace a) c = Some f"
        using ids f a(3) unfolding find_config_def ids_ok_def by (simp add: find_distinct)
      then show ?thesis using a sec [OF a(1) _ _ s] old by (cases "a_id a = i") (auto simp: homes_def Scope_agent)
    qed (use ks old in \<open>auto simp: homes_def\<close>)
  qed
  ultimately show ?thesis by (simp add: console_ok_def one_home_def with_agents_def)
qed

lemma edit_triggers:
  assumes t: "triggers_distinct w"
    and g: "\<And>a. a \<in> set (w_agents w) \<Longrightarrow> a_id a = i \<Longrightarrow> a_id (g a) = i \<and> (a_is_orchestrator (g a) \<longrightarrow> a_trigger_status (g a) = None) \<and>
      (\<forall>b\<in>set (w_agents w). \<not> clash (g a) b)"
  shows "triggers_distinct (w\<lparr>w_agents := map (\<lambda>a. if a_id a = i then g a else a) (w_agents w)\<rparr>)"
proof -
  let ?h = "\<lambda>a. if a_id a = i then g a else a"
  have "\<not> clash (?h a) (?h b)" if "a \<in> set (w_agents w)" "b \<in> set (w_agents w)" for a b
  proof (cases "a_id a = i")
    case True
    show ?thesis
    proof (cases "a_id b = i")
      case both: True
      then show ?thesis using g [OF that(1) True] g [OF that(2) both] True by (auto simp: clash_def)
    qed (use g [OF that(1) True] that(2) True in auto)
  next
    case False
    then show ?thesis using t g [OF that(2)] that clash_sym
      by (cases "a_id b = i") (auto simp: triggers_distinct_def)
  qed
  then have "\<forall>a\<in>?h ` set (w_agents w). \<forall>b\<in>?h ` set (w_agents w). \<not> clash a b" by blast
  moreover have "\<forall>a\<in>?h ` set (w_agents w). a_is_orchestrator a \<longrightarrow> a_trigger_status a = None"
    using t g by (auto simp: triggers_distinct_def)
  moreover have rows: "w_agents (w\<lparr>w_agents := map ?h (w_agents w)\<rparr>) = map ?h (w_agents w)" by simp
  ultimately show ?thesis unfolding triggers_distinct_def rows set_map by (intro conjI)
qed

subsection \<open>The endpoints\<close>

text \<open>What is kept: one home per key with its ids, and with \<open>st\<close> the distinct triggers as well.\<close>

definition sound :: "bool \<Rightarrow> console \<Rightarrow> bool" where
  "sound st c \<longleftrightarrow> console_ok c \<and> (st \<longrightarrow> triggers_distinct (cn_world c))"

lemma sound_world_change:
  "sound st c \<Longrightarrow> agents_kept (cn_world c) w \<Longrightarrow> sound st (c\<lparr>cn_world := w\<rparr>)"
  by (auto simp: sound_def triggers_kept agents_kept_def triggers_distinct_def intro: world_change_ok)

definition names_own_workspace :: "id \<Rightarrow> json \<Rightarrow> console \<Rightarrow> bool" where
  "names_own_workspace i body c \<longleftrightarrow> (\<forall>q a. agent_write_schema body = Some q \<longrightarrow> find_agent i (cn_world c) = Some a \<longrightarrow>
     id_of_text (aw_workspace q) = Some (a_workspace a))"

lemma update_agent_run:
  "on_world (update_agent i x f) c =
     (if find_executor x (cn_world c) = None then (Inl (Server_error missing_reference), c)
      else (Inr (), with_agents (map (\<lambda>a. if a_id a = i then f a else a)) c))"
  by (simp add: on_world_def update_agent_def with_agents_def)

lemma updated_row_same: "updated_row i c = (r, c') \<Longrightarrow> c' = c"
  by (auto simp: updated_row_def act_simps split: option.splits)

text \<open>The last statements of both branches of \<open>update\<close>.\<close>

definition write_row :: "id \<Rightarrow> string \<Rightarrow> (id \<Rightarrow> agent \<Rightarrow> agent) \<Rightarrow> team_issue list \<Rightarrow> (agent \<times> team_issue list) endpoint" where
  "write_row i ex g warns = bnd (as_id ex) (\<lambda>x. andthen (on_world (update_agent i x (g x))) (bnd (updated_row i) (\<lambda>r. ret (r, warns))))"

lemma update_agent_route_eq:
  "update_agent_route E t body =
     bnd (parse_agent body) (\<lambda>q. andthen (validate_repository_scope q) (bnd (as_id t) (\<lambda>i. bnd (gets (\<lambda>c. find_agent i (cn_world c))) (\<lambda>found.
       case found of None \<Rightarrow> throw agent_not_found
       | Some a \<Rightarrow> andthen (guard_agent_env (aw_workspace q) t (bh_env (aw_behavior q)))
           (if a_is_orchestrator a then write_row i (aw_executor q) (\<lambda>x b. with_enabled q (orchestrator_values q x b)) []
            else bnd (lint_or_throw E q (Some t)) (write_row i (aw_executor q) (\<lambda>x b. with_enabled q (to_insert_values q x b))))))))"
  unfolding update_agent_route_def write_row_def [abs_def] by (rule refl)

lemma write_row_cases:
  assumes "write_row i ex g warns c = (r, c')"
  obtains "c' = c" | x where "c' = with_agents (map (\<lambda>a. if a_id a = i then g x a else a)) c"
proof -
  obtain y d where y: "as_id ex c = (y, d)" by fastforce
  then have "d = c" by (rule as_id_same)
  then show ?thesis using assms y that unfolding write_row_def
    by (cases y) (auto simp: bnd_app andthen_app update_agent_run ret_app split: if_splits prod.splits sum.splits dest!: updated_row_same)
qed

lemma update_route_cases:
  assumes run: "update_agent_route E t body c = (r, c')"
  obtains "c' = c" "\<exists>e. r = Inl e"
  | q i a where "agent_write_schema body = Some q" "id_of_text t = Some i" "find_agent i (cn_world c) = Some a" "a_is_orchestrator a"
      "guard_agent_env (aw_workspace q) t (bh_env (aw_behavior q)) c = (Inr (), c)"
      "write_row i (aw_executor q) (\<lambda>x b. with_enabled q (orchestrator_values q x b)) [] c = (r, c')"
  | q i a x d where "agent_write_schema body = Some q" "id_of_text t = Some i" "find_agent i (cn_world c) = Some a" "\<not> a_is_orchestrator a"
      "guard_agent_env (aw_workspace q) t (bh_env (aw_behavior q)) c = (Inr (), c)" "lint_or_throw E q (Some t) c = (x, d)"
      "case x of Inl e \<Rightarrow> r = Inl e \<and> c' = d
       | Inr warns \<Rightarrow> write_row i (aw_executor q) (\<lambda>y b. with_enabled q (to_insert_values q y b)) warns d = (r, c')"
proof (cases "agent_write_schema body")
  case None
  then show ?thesis using run that(1) by (auto simp: update_agent_route_def parse_agent_def act_simps)
next
  case q: (Some q)
  obtain v where v: "validate_repository_scope q c = (v, c)" using validate_same by (metis surj_pair)
  obtain y where y: "as_id t c = (y, c)" using as_id_same by (metis surj_pair)
  obtain g where g: "guard_agent_env (aw_workspace q) t (bh_env (aw_behavior q)) c = (g, c)"
    using guard_agent_env_same by (metis surj_pair)
  obtain x d where l: "lint_or_throw E q (Some t) c = (x, d)" by fastforce
  show ?thesis
  proof (cases "\<exists>u i. v = Inr u \<and> y = Inr i")
    case False
    then show ?thesis using run that(1) q v y
      by (cases v; cases y) (auto simp: update_agent_route_def parse_agent_def bnd_app andthen_app ret_app)
  next
    case True
    then obtain u i where ok: "v = Inr u" "y = Inr i" by blast
    then have i: "id_of_text t = Some i" using y as_id_Inr by blast
    show ?thesis
    proof (cases "find_agent i (cn_world c)")
      case None
      then show ?thesis using run that(1) q v y ok
        by (auto simp: update_agent_route_def parse_agent_def bnd_app andthen_app ret_app gets_app throw_app)
    next
      case a: (Some a)
      have run': "(case g of Inl e \<Rightarrow> (Inl e, c) | Inr _ \<Rightarrow>
          (if a_is_orchestrator a then write_row i (aw_executor q) (\<lambda>x b. with_enabled q (orchestrator_values q x b)) []
           else bnd (lint_or_throw E q (Some t)) (write_row i (aw_executor q) (\<lambda>x b. with_enabled q (to_insert_values q x b)))) c) = (r, c')"
        using run q v y ok a g by (cases g) (simp_all add: update_agent_route_eq parse_agent_def bnd_app andthen_app ret_app gets_app)
      show ?thesis
      proof (cases g)
        case (Inl e)
        show ?thesis by (rule that(1)) (use run' Inl in auto)
      next
        case (Inr u')
        then show ?thesis using run' that(2) [OF q i a] that(3) [OF q i a _ _ l] g l
          by (cases "a_is_orchestrator a"; cases x) (auto simp: bnd_app)
      qed
    qed
  qed
qed

lemma find_agent_unique:
  assumes "ids_ok c" and "find_agent i (cn_world c) = Some a" and "b \<in> set (w_agents (cn_world c))" and "a_id b = i"
  shows "b = a"
proof -
  have "a \<in> set (w_agents (cn_world c))" "a_id a = i" using assms(2) unfolding find_agent_def by (auto dest: find_Some_mem)
  then show ?thesis using assms(1,3,4) by (auto simp: ids_ok_def distinct_map inj_on_def)
qed

lemma edit_sound:
  assumes sound: "sound st c" and a: "find_agent i (cn_world c) = Some a"
    and g: "\<And>b. a_id (g b) = a_id b \<and> a_workspace (g b) = a_workspace b"
    and sec: "\<And>f s. find_config (a_workspace a) c = Some f \<Longrightarrow> cf_secrets f = Some (Sealed s) \<Longrightarrow>
      apart (agent_env (g a)) (scope_submap s (Scope_agent (show_nat i)))"
    and orch: "st \<Longrightarrow> a_is_orchestrator (g a) \<Longrightarrow> a_trigger_status (g a) = None"
    and no: "\<And>b. st \<Longrightarrow> b \<in> set (w_agents (cn_world c)) \<Longrightarrow> \<not> clash (g a) b"
  shows "sound st (with_agents (map (\<lambda>a. if a_id a = i then g a else a)) c)"
proof -
  have ok: "console_ok c" and t: "st \<Longrightarrow> triggers_distinct (cn_world c)" using sound by (simp_all add: sound_def)
  have ids: "ids_ok c" using ok by (simp add: console_ok_def)
  note own = find_agent_unique [OF ids a]
  have "console_ok (with_agents (map (\<lambda>a. if a_id a = i then g a else a)) c)"
    by (rule edit_agents_ok [OF ok g]) (use own sec in blast)
  moreover have "triggers_distinct ((cn_world c)\<lparr>w_agents := map (\<lambda>a. if a_id a = i then g a else a) (w_agents (cn_world c))\<rparr>)" if st
    by (rule edit_triggers [OF t [OF that]]) (use own orch [OF that] no [OF that] g in auto)
  ultimately show ?thesis by (simp add: sound_def with_agents_def)
qed

lemma values_simps [simp]:
  "a_id (with_enabled q a) = a_id a" "a_workspace (with_enabled q a) = a_workspace a"
  "a_key (with_enabled q a) = a_key a" "a_name (with_enabled q a) = a_name a"
  "a_is_orchestrator (with_enabled q a) = a_is_orchestrator a" "a_trigger_status (with_enabled q a) = a_trigger_status a"
  "a_trigger_jql (with_enabled q a) = a_trigger_jql a" "a_behavior (with_enabled q a) = a_behavior a"
  by (simp_all add: with_enabled_def split: option.split)

lemma update_sound:
  assumes sound: "sound st c" and own: "names_own_workspace i body c" and run: "update_agent_route E (show_nat i) body c = (r, c')"
  shows "sound st c'"
  using run
proof (cases rule: update_route_cases)
  case 1
  then show ?thesis using sound by simp
next
  case (2 q j a)
  have j: "j = i" using 2(2) by simp
  have a: "a \<in> set (w_agents (cn_world c))" using 2(3) unfolding find_agent_def by (auto dest: find_Some_mem)
  have trig: "st \<Longrightarrow> a_trigger_status a = None" using sound a 2(4) by (auto simp: sound_def triggers_distinct_def)
  have ws: "id_of_text (aw_workspace q) = Some (a_workspace a)" using own 2(1,3) by (simp add: names_own_workspace_def j)
  have "sound st (with_agents (map (\<lambda>b. if a_id b = i then with_enabled q (orchestrator_values q x b) else b)) c)" for x
    by (rule edit_sound [OF sound 2(3) [unfolded j]])
      (use trig guard_agent_env_ok [OF 2(5) ws] in
        \<open>auto simp: orchestrator_values_def clash_def agent_env_keys agent_write_SomeD(1) [OF 2(1)]\<close>)
  then show ?thesis using write_row_cases [OF 2(6)] sound j by blast
next
  case (3 q j a x d)
  have j: "j = i" using 3(2) by simp
  have ws: "id_of_text (aw_workspace q) = Some (a_workspace a)" using own 3(1,3) by (simp add: names_own_workspace_def j)
  obtain w where d: "d = c\<lparr>cn_world := w\<rparr>" and kept: "agents_kept (cn_world c) w"
    and lint: "\<And>v. x = Inr v \<Longrightarrow>
      \<exists>b. fst (lint_agent (candidate_of q (Some (show_nat i))) (map existing_lintable (workspace_agents (a_workspace a) (cn_world c))) b) = []"
    using lint_or_throw_run [OF 3(6)] ws by metis
  have sd: "sound st d" unfolding d by (rule sound_world_change [OF sound kept])
  have ad: "find_agent i (cn_world d) = Some a" and ids: "a_id a = i"
    using 3(3) kept unfolding find_agent_def by (auto simp: d j agents_kept_def dest: find_Some_mem)
  show ?thesis
  proof (cases x)
    case (Inl e)
    then show ?thesis using 3(7) sd by simp
  next
    case (Inr warns)
    then obtain board where b: "fst (lint_agent (candidate_of q (Some (show_nat i)))
        (map existing_lintable (workspace_agents (a_workspace a) (cn_world d))) board) = []"
      using lint kept by (auto simp: d agents_kept_def workspace_agents_def)
    have gd: "apart (keys_of (bh_env (aw_behavior q))) (scope_submap s (Scope_agent (show_nat i)))"
      if "find_config (a_workspace a) d = Some f" "cf_secrets f = Some (Sealed s)" for f s
      using guard_agent_env_ok [OF 3(5) ws _ that(2)] that(1) by (simp add: find_config_def d)
    have "sound st (with_agents (map (\<lambda>b. if a_id b = i then with_enabled q (to_insert_values q y b) else b)) d)" for y
    proof (rule edit_sound [OF sd ad])
      show "\<not> clash (with_enabled q (to_insert_values q y a)) b" if "b \<in> set (w_agents (cn_world d))" for b
        by (rule linted_no_clash [OF b _ _ _ _ that]) (simp_all add: to_insert_values_def ids)
    qed (use gd 3(4) in \<open>auto simp: to_insert_values_def agent_env_keys agent_write_SomeD(1) [OF 3(1)]\<close>)
    moreover have "write_row i (aw_executor q) (\<lambda>y b. with_enabled q (to_insert_values q y b)) warns d = (r, c')"
      using 3(7) Inr j by simp
    ultimately show ?thesis using sd by (elim write_row_cases) simp_all
  qed
qed

lemma append_sound:
  assumes sound: "sound st c" and new: "a_id a = w_next (cn_world c)" "\<not> a_is_orchestrator a"
    and no: "\<And>b. b \<in> set (w_agents (cn_world c)) \<Longrightarrow> \<not> clash a b"
  shows "sound st (c\<lparr>cn_world := (cn_world c)\<lparr>w_agents := w_agents (cn_world c) @ [a], w_next := Suc (w_next (cn_world c))\<rparr>\<rparr>)"
    (is "sound st ?c")
proof -
  let ?ags = "w_agents (cn_world c)"
  have ids: "ids_ok c" and home: "one_home c" and t: "st \<Longrightarrow> triggers_distinct (cn_world c)"
    using sound by (simp_all add: sound_def console_ok_def)
  have "ids_ok ?c" using ids new by (auto simp: ids_ok_def intro: config_ids_mono)
  moreover have "config_apart (?ags @ [a]) f" if f: "f \<in> set (cn_config c)" for f
    unfolding config_apart_def secrets_apart_def
  proof (intro allI impI ballI)
    fix s sc ks assume s: "cf_secrets f = Some (Sealed s)" and ks: "ks \<in> homes (?ags @ [a]) f sc"
    have "ks \<in> homes ?ags f sc \<or> sc = Scope_agent (show_nat (w_next (cn_world c)))"
      using ks new by (auto simp: homes_def split: env_scope.splits)
    moreover have "scope_submap s (Scope_agent (show_nat (w_next (cn_world c)))) = []"
      using ids f s by (auto simp: ids_ok_def config_ids_def)
    ultimately show "apart ks (scope_submap s sc)"
      using home f s by (auto simp: one_home_def config_apart_def secrets_apart_def)
  qed
  moreover have "\<not> clash a a" by (simp add: clash_def)
  then have "triggers_distinct (cn_world ?c)" if st
    using t [OF that] no new(2) clash_sym by (auto simp: triggers_distinct_def)
  ultimately show ?thesis by (simp add: sound_def console_ok_def one_home_def)
qed

lemma free_key:
  "is_free (map a_key (workspace_agents ws w)) k \<Longrightarrow> \<not> (\<exists>b\<in>set (w_agents w). a_workspace b = ws \<and> a_key b = k)"
  by (force simp: is_free_def workspace_agents_def)

lemma insert_row_run: "is_free (map a_key (workspace_agents (a_workspace a) w)) (a_key a) \<Longrightarrow>
    insert_agent_row a w = (if references_ok (a_workspace a) (a_executor a) w
      then (Inr (a\<lparr>a_id := w_next w\<rparr>), w\<lparr>w_agents := w_agents w @ [a\<lparr>a_id := w_next w\<rparr>], w_next := Suc (w_next w)\<rparr>)
      else (Inl missing_reference, w))"
  using free_key [of "a_workspace a" w "a_key a"]
  by (auto simp: insert_agent_row_def insert_agent_def act_simps)

text \<open>The first attempt decides: its key is free, so no unique index refuses it.\<close>

lemma insert_with_key_run:
  obtains k where "ensure_unique_agent_key base (map a_key (workspace_agents ws w)) = Some k"
    "is_free (map a_key (workspace_agents ws w)) k"
    "insert_with_key (Suc n) base ws x q w = (let a = to_insert_values q x (blank_agent ws k)\<lparr>a_id := w_next w\<rparr> in
       if references_ok ws x w then (Inr a, w\<lparr>w_agents := w_agents w @ [a], w_next := Suc (w_next w)\<rparr>)
       else (Inl missing_reference, w))"
proof -
  obtain k where k: "ensure_unique_agent_key base (map a_key (workspace_agents ws w)) = Some k"
    "is_free (map a_key (workspace_agents ws w)) k" using ensure_unique_total by blast
  have row: "insert_agent_row (to_insert_values q x (blank_agent ws k)) w =
      (let a = to_insert_values q x (blank_agent ws k)\<lparr>a_id := w_next w\<rparr> in
       if references_ok ws x w then (Inr a, w\<lparr>w_agents := w_agents w @ [a], w_next := Suc (w_next w)\<rparr>)
       else (Inl missing_reference, w))"
    using k(2) by (subst insert_row_run) (simp_all add: to_insert_values_def blank_agent_def Let_def)
  show ?thesis
    by (rule that [OF k]) (simp add: bnd_app gets_app k(1) catch_app row Let_def throw_app missing_reference_def mk_error_def)
qed

lemma create_sound:
  assumes sound: "sound st c" and run: "create_agent E body c = (r, c')"
  shows "sound st c'"
proof (cases "agent_write_schema body")
  case None
  then show ?thesis using run sound by (simp add: create_agent_def parse_agent_def bnd_app throw_app)
next
  case q: (Some q)
  obtain v where v: "validate_repository_scope q c = (v, c)" using validate_same by (metis surj_pair)
  obtain x d where l: "lint_or_throw E q None c = (x, d)" by fastforce
  obtain w where d: "d = c\<lparr>cn_world := w\<rparr>" "agents_kept (cn_world c) w"
    and lint: "\<And>ws y. x = Inr y \<Longrightarrow> id_of_text (aw_workspace q) = Some ws \<Longrightarrow>
      \<exists>b. fst (lint_agent (candidate_of q None) (map existing_lintable (workspace_agents ws (cn_world c))) b) = []"
    by (rule lint_or_throw_run [OF l]) (rule that; blast)
  have sd: "sound st d" unfolding d(1) by (rule sound_world_change [OF sound d(2)])
  obtain y where y: "as_id (aw_workspace q) d = (y, d)" using as_id_same by (metis surj_pair)
  obtain z where z: "as_id (aw_executor q) d = (z, d)" using as_id_same by (metis surj_pair)
  show ?thesis
  proof (cases "\<exists>u warns ws ex. v = Inr u \<and> x = Inr warns \<and> y = Inr ws \<and> z = Inr ex")
    case False
    then show ?thesis using run sound sd q v l y z
      by (cases v; cases x; cases y; cases z) (auto simp: create_agent_def parse_agent_def bnd_app andthen_app ret_app)
  next
    case True
    then obtain u warns ws ex where all: "v = Inr u" "x = Inr warns" "y = Inr ws" "z = Inr ex" by blast
    have ws: "id_of_text (aw_workspace q) = Some ws" using y all(3) as_id_Inr by blast
    obtain k where k: "insert_with_key 5 (slugify_agent_key (aw_name q) (aw_role q)) ws ex q (cn_world d) =
       (let a = to_insert_values q ex (blank_agent ws k)\<lparr>a_id := w_next (cn_world d)\<rparr> in
        if references_ok ws ex (cn_world d)
        then (Inr a, (cn_world d)\<lparr>w_agents := w_agents (cn_world d) @ [a], w_next := Suc (w_next (cn_world d))\<rparr>)
        else (Inl missing_reference, cn_world d))"
      using insert_with_key_run [of "slugify_agent_key (aw_name q) (aw_role q)" ws "cn_world d" 4 ex q]
      by (metis eval_nat_numeral(3))
    let ?a = "to_insert_values q ex (blank_agent ws k)\<lparr>a_id := w_next (cn_world d)\<rparr>"
    obtain board where b: "fst (lint_agent (candidate_of q None) (map existing_lintable (workspace_agents ws (cn_world d))) board) = []"
      using lint [OF all(2) ws] d by (auto simp: agents_kept_def workspace_agents_def)
    have "sound st (d\<lparr>cn_world := (cn_world d)\<lparr>w_agents := w_agents (cn_world d) @ [?a], w_next := Suc (w_next (cn_world d))\<rparr>\<rparr>)"
    proof (rule append_sound [OF sd])
      show "\<not> clash ?a b" if "b \<in> set (w_agents (cn_world d))" for b
        by (rule linted_no_clash [OF b _ _ _ _ that]) (simp_all add: to_insert_values_def blank_agent_def)
    qed (simp_all add: to_insert_values_def blank_agent_def)
    then show ?thesis using run sd q v l y z all k
      by (auto simp: create_agent_def parse_agent_def bnd_app andthen_app ret_app on_world_def Let_def split: if_splits)
  qed
qed

subsection \<open>Removal and test runs\<close>

lemma filter_agents_sound:
  assumes "sound st c"
  shows "sound st (with_agents (filter P) c)"
proof -
  have "homes (filter P ags) f sc \<subseteq> homes ags f sc" for ags f sc by (auto simp: homes_def split: env_scope.split)
  then have "config_apart ags f \<Longrightarrow> config_apart (filter P ags) f" for ags f
    unfolding config_apart_def secrets_apart_def by blast
  then show ?thesis using assms
    by (auto simp: sound_def console_ok_def ids_ok_def one_home_def triggers_distinct_def with_agents_def
      intro: distinct_map_filter)
qed

lemma disable_agent_sound:
  assumes sound: "sound st c"
  shows "sound st (with_agents (map (\<lambda>a. if a_id a = i then a\<lparr>a_enabled := False\<rparr> else a)) c)"
proof -
  have ok: "console_ok c" and t: "st \<Longrightarrow> triggers_distinct (cn_world c)" using sound by (simp_all add: sound_def)
  have "console_ok (with_agents (map (\<lambda>a. if a_id a = i then a\<lparr>a_enabled := False\<rparr> else a)) c)"
  proof (rule edit_agents_ok [OF ok])
    fix a f s assume a: "a \<in> set (w_agents (cn_world c))" "a_id a = i" "find_config (a_workspace a) c = Some f"
      "cf_secrets f = Some (Sealed s)"
    then have f: "f \<in> set (cn_config c)" "agent_env a \<in> homes (w_agents (cn_world c)) f (Scope_agent (show_nat i))"
      using find_config_mem [OF a(3)] by (auto simp: homes_def)
    have "apart (agent_env a) (scope_submap s (Scope_agent (show_nat i)))"
      using ok f a(4) by (simp add: console_ok_def one_home_def config_apart_def secrets_apart_def)
    then show "apart (agent_env (a\<lparr>a_enabled := False\<rparr>)) (scope_submap s (Scope_agent (show_nat i)))"
      by (simp add: agent_env_def)
  qed simp
  moreover have "triggers_distinct ((cn_world c)\<lparr>w_agents :=
      map (\<lambda>a. if a_id a = i then a\<lparr>a_enabled := False\<rparr> else a) (w_agents (cn_world c))\<rparr>)" if st
    by (rule edit_triggers [OF t [OF that]]) (use t [OF that] in \<open>auto simp: clash_def triggers_distinct_def\<close>)
  ultimately show ?thesis by (simp add: sound_def with_agents_def)
qed

lemma prune_agent_sound:
  assumes sound: "sound st c" and run: "prune_agent_secrets ws t c = (r, c')"
  shows "sound st c'"
proof (cases "Option.bind (find_config ws c) cf_secrets")
  case None
  then show ?thesis using run sound by (simp add: prune_agent_secrets_def bnd_app gets_app ret_app)
next
  case (Some b)
  then obtain f where f: "find_config ws c = Some f" "cf_secrets f = Some b" by (auto simp: Option.bind_eq_Some_conv)
  show ?thesis
  proof (cases b)
    case Unopenable
    then show ?thesis using run sound Some by (simp add: prune_agent_secrets_def bnd_app gets_app ret_app)
  next
    case (Sealed s)
    let ?s = "apply_scope (Scope_agent t) None s"
    have fm: "f \<in> set (cn_config c)" using find_config_mem [OF f(1)] by simp
    have ok: "console_ok c" using sound by (simp add: sound_def)
    have "secrets_apart (w_agents (cn_world c)) f s" "config_ids (w_next (cn_world c)) f"
      using ok fm f(2) Sealed by (auto simp: console_ok_def one_home_def config_apart_def ids_ok_def)
    then have "secrets_apart (w_agents (cn_world c)) f ?s" "w_next (cn_world c) \<le> j \<Longrightarrow> scope_submap ?s (Scope_agent (show_nat j)) = []" for j
      using f(2) Sealed by (auto simp: secrets_apart_def scope_submap_apply config_ids_def)
    then have "console_ok (replace_secrets ws ?s c)" by (rule replace_secrets_ok [OF ok f(1)])
    moreover have "cn_world (replace_secrets ws ?s c) = cn_world c" by (simp add: replace_secrets_def)
    ultimately have "sound st (replace_secrets ws ?s c)" using sound by (simp add: sound_def)
    then show ?thesis using run sound Some Sealed
      by (auto simp: prune_agent_secrets_def bnd_app gets_app ret_app update_config_secrets apply_scope_def split: if_splits)
  qed
qed

text \<open>The four ways a removal goes.\<close>

lemma remove_agent_run:
  "remove_agent t c = (case id_of_text t of
      None \<Rightarrow> (Inl (Server_error (mk_error Other_failure ''invalid input syntax for type uuid'')), c)
    | Some i \<Rightarrow>
     (let found = find_agent i (cn_world c); gone = with_agents (filter (\<lambda>a. a_id a \<noteq> i)) c in
      if map_option a_is_orchestrator found = Some True
      then (Inl (Conflicting ''The orchestrator agent cannot be deleted; disable it instead.''), c)
      else if list_ex (\<lambda>r. r_agent r = i) (w_runs (cn_world c))
      then (Inr True, with_agents (map (\<lambda>a. if a_id a = i then a\<lparr>a_enabled := False\<rparr> else a)) c)
      else (case found of None \<Rightarrow> (Inr False, gone)
        | Some a \<Rightarrow> (Inr False, snd (prune_agent_secrets (a_workspace a) t gone)))))"
proof (cases "id_of_text t")
  case None
  then show ?thesis by (simp add: remove_agent_def bnd_app as_id_def throw_app)
next
  case i: (Some i)
  show ?thesis
  proof (cases "find_agent i (cn_world c)")
    case None
    then show ?thesis using i
      by (simp add: remove_agent_def bnd_app andthen_app gets_app ret_app modify_app on_world_def with_agents_def)
  next
    case (Some a)
    let ?gone = "with_agents (filter (\<lambda>a. a_id a \<noteq> i)) c"
    have "\<exists>d. prune_agent_secrets ws t e = (Inr (), d)" for ws e
      by (auto simp: prune_agent_secrets_def act_simps update_config_secrets split: option.split blob.split)
    then obtain d where "prune_agent_secrets (a_workspace a) t ?gone = (Inr (), d)" by blast
    then show ?thesis using Some i
      by (simp add: remove_agent_def bnd_app andthen_app gets_app ret_app throw_app modify_app on_world_def with_agents_def)
  qed
qed

lemma remove_sound:
  assumes sound: "sound st c" and run: "remove_agent t c = (r, c')"
  shows "sound st c'"
proof (cases "id_of_text t")
  case None
  then show ?thesis using run sound by (simp add: remove_agent_run)
next
  case (Some i)
  let ?gone = "with_agents (filter (\<lambda>a. a_id a \<noteq> i)) c"
  have gone: "sound st ?gone" by (rule filter_agents_sound [OF sound])
  have "sound st (snd (prune_agent_secrets ws t ?gone))" for ws
    using prune_agent_sound [OF gone] by (metis prod.collapse)
  then show ?thesis using run gone sound disable_agent_sound [OF sound, of i] Some
    by (cases "find_agent i (cn_world c)") (auto simp: remove_agent_run Let_def split: if_splits)
qed

lemma upsert_kept: "steps agents_kept (upsert_test_ticket ws k)"
  unfolding upsert_test_ticket_def by (intro steps_intros)

lemma trigger_kept: "steps agents_kept (trigger E tk i ev)"
  unfolding trigger_def insert_queued_def
  by (intro steps_intros) (auto split: trigger_result.split intro!: steps_intros)

lemma test_run_kept: "steps agents_kept (bnd (upsert_test_ticket ws k) (\<lambda>t. trigger E (Some t) i ev))"
  by (rule agents_kept.steps_bnd [OF upsert_kept trigger_kept])

lemma test_run_sound:
  assumes sound: "sound st c" and run: "test_run E s body c = (r, c')"
  shows "sound st c'"
proof -
  have "sound st d" if m: "on_world m c = (x, d)" and k: "steps agents_kept m" for m :: "trigger_result handler" and x d
  proof -
    obtain y w where "m (cn_world c) = (y, w)" by fastforce
    with m steps_run [OF k this] sound_world_change [OF sound] show ?thesis by (cases y) (auto simp: on_world_def)
  qed
  note this [OF _ test_run_kept]
  then show ?thesis using run sound
    by (auto simp: test_run_def act_simps split: option.splits sum.splits prod.splits dest: as_id_same)
qed

section \<open>Sequences of requests\<close>

text \<open>
  One request, whatever it answers, with what is asked of the requests: the repositories of a settings write
  carry distinct ids, the ids handed out for new ones are new, and an update has the agent's id in its path as
  the database gives it out and names the workspace its agent is in. Other requests are arbitrary.
\<close>

inductive config_step :: "console \<Rightarrow> console \<Rightarrow> bool" where
  secrets: "update_env_secrets i q c = (r, c') \<Longrightarrow> config_step c c'"
| settings: "update_settings fresh i p c = (r, c') \<Longrightarrow> patch_ids_ok fresh p c \<Longrightarrow> config_step c c'"
| create: "create_agent E body c = (r', c') \<Longrightarrow> config_step c c'"
| update: "update_agent_route E (show_nat i) body c = (r', c') \<Longrightarrow> names_own_workspace i body c \<Longrightarrow> config_step c c'"
| remove: "remove_agent t c = (b, c') \<Longrightarrow> config_step c c'"
| testing: "test_run E s body c = (t', c') \<Longrightarrow> config_step c c'"

lemma secrets_world: "update_env_secrets i q c = (r, c') \<Longrightarrow> cn_world c' = cn_world c"
  by (erule update_env_secrets_cases) (auto simp: replace_secrets_def)

definition same_agents :: "console \<Rightarrow> console \<Rightarrow> bool" where
  "same_agents c c' \<longleftrightarrow> w_agents (cn_world c') = w_agents (cn_world c)"

interpretation same_agents: state_relation same_agents
  by unfold_locales (auto simp: same_agents_def)

lemma same_agents_prims [steps_intros]:
  "steps same_agents (update_config i h)" "steps same_agents (on_world (update_workspace i k))"
  by (auto simp: steps_def same_agents_def update_config_run on_world_def update_workspace_def act_simps)

lemma guards_same_agents [steps_intros]:
  "steps same_agents (guard_no_secret_collision e m l)" "steps same_agents (open_or_empty b)"
  unfolding guard_no_secret_collision_def open_or_empty_def
  by (intro steps_intros) (auto split: blob.split intro!: steps_intros)

lemma settings_same_agents: "steps same_agents (update_settings fresh i p)"
  unfolding update_settings_def guard_repo_env_def patch_workspace_settings_def prune_repos_def set_dependency_release_status_def Let_def
  by (intro steps_intros)

lemma config_step_sound: "config_step c c' \<Longrightarrow> sound st c \<Longrightarrow> sound st c'"
proof (induction rule: config_step.induct)
  case (secrets i q c r c')
  then show ?case using update_env_secrets_ok secrets_world by (auto simp: sound_def)
next
  case (settings fresh i p c r c')
  have "same_agents c c'" using steps_run [OF settings_same_agents settings(1)] .
  then show ?case using settings update_settings_ok by (auto simp: sound_def same_agents_def triggers_distinct_def)
qed (auto intro: create_sound update_sound remove_sound test_run_sound)

lemma config_steps_sound: "config_step\<^sup>*\<^sup>* c c' \<Longrightarrow> sound st c \<Longrightarrow> sound st c'"
  by (induction rule: rtranclp_induct) (auto intro: config_step_sound)

section \<open>Samples\<close>

definition sample_config :: "id \<Rightarrow> env_secrets option \<Rightarrow> config" where
  "sample_config i s = \<lparr>cf_workspace = i, cf_branch_prefix = None, cf_env = Some [(''REGION'', ''eu'')], cf_repos = None,
     cf_ticket_scoping = None, cf_instructions = None, cf_token = None, cf_secrets = map_option Sealed s\<rparr>"

definition sample_console :: console where
  "sample_console = \<lparr>cn_world = sample_world [], cn_config = [sample_config 1 None]\<rparr>"

definition sample_write :: secrets_write where
  "sample_write = \<lparr>sw_scope = Scope_agent ''3'', sw_set = Some [(''TOKEN'', ''s3cret'')], sw_delete = None\<rparr>"

definition agent_secret :: env_secrets where
  "agent_secret = \<lparr>es_workspace = None, es_repos = None, es_agents = Some [(''3'', [(''TOKEN'', ''s3cret'')])]\<rparr>"

lemma sample_console_sound: "sound st sample_console"
  by (auto simp: sound_def console_ok_def ids_ok_def one_home_def config_apart_def config_ids_def live_ids_def sample_console_def
      sample_config_def sample_world_def sample_agent_def triggers_distinct_def clash_def map_filter_simps)

lemma token_key: "env_key_format ''TOKEN''" "\<not> is_reserved_env_key ''TOKEN''" "env_byte_length ''TOKEN'' = 5"
  by code_simp+

lemma token_bytes: "env_byte_length ''open'' = 4" "env_byte_length ''s3cret'' = 6"
  by code_simp+

lemma token_ok: "env_map_issues [(''TOKEN'', ''open'')] = []" "env_map_issues [(''TOKEN'', ''s3cret'')] = []"
  by (simp_all add: env_map_issues_def token_key token_bytes ENV_VALUE_MAX_BYTES_def ENV_TOTAL_MAX_BYTES_def)

lemma shown: "show_nat 3 = ''3''"
  by code_simp

lemma id_texts: "id_of_text ''1'' = Some 1" "id_of_text ''2'' = Some 2" "id_of_text ''3'' = Some 3" "id_of_text ''5'' = Some 5"
  "id_of_text ''03'' = Some 3"
  by code_simp+

lemma sample_write_run: "update_env_secrets 1 sample_write sample_console =
    (Inr (), replace_secrets 1 agent_secret sample_console)"
  by (simp add: update_env_secrets_run sample_write_def token_ok find_config_def sample_console_def sample_config_def plaintext_of_def
      sample_world_def sample_agent_def agent_env_def collision_def js_in_def keys_of_def OBJECT_MEMBERS_def open_or_empty_def
      ret_app written_secrets_def written_map_def scope_submap_def no_secrets_def apply_scope_def put_def agent_secret_def id_texts
      object_assign_def)

text \<open>Two workspaces; agents 3 and 6 belong to the first, which keeps a secret for agent 3.\<close>

definition two_workspaces :: console where
  "two_workspaces = \<lparr>cn_world = (sample_world [])\<lparr>w_workspaces := [sample_workspace, sample_workspace\<lparr>s_id := 5\<rparr>],
       w_agents := [sample_agent, sample_agent\<lparr>a_id := 6, a_key := ''qa'', a_trigger_status := Some ''Review''\<rparr>]\<rparr>,
     cn_config = [sample_config 1 (Some agent_secret), sample_config 5 None]\<rparr>"

definition board_env :: env where
  "board_env = sample_env\<lparr>env_statuses := \<lambda>_ _ _. Inr [''Review'', ''Done'', ''To Do'']\<rparr>"

text \<open>An update of agent 3 that gives it the trigger of agent 6 and the secret's name as a plain variable.\<close>

definition foreign_update :: "string \<Rightarrow> json" where
  "foreign_update ws = JObj [(''workspace_id'', JStr ws), (''name'', JStr ''Dev''), (''instruction'', JStr ''work''),
     (''executor_id'', JStr ''2''), (''trigger_status'', JStr ''Review''), (''status_success'', JStr ''Done''),
     (''status_failure'', JStr ''To Do''), (''behavior'', JObj [(''env'', JObj [(''TOKEN'', JStr ''open'')])])]"

lemma two_workspaces_sound: "sound st two_workspaces"
proof -
  have "secrets_apart (w_agents (cn_world two_workspaces)) (sample_config 1 (Some agent_secret)) agent_secret"
    by (auto simp: secrets_apart_def homes_def scope_submap_def agent_secret_def two_workspaces_def sample_config_def sample_agent_def
        agent_env_def split: env_scope.split)
  moreover have "show_nat j = ''3'' \<longleftrightarrow> j = 3" for j
    by (metis show_nat_eq shown)
  then have "scope_submap agent_secret (Scope_agent (show_nat j)) = (if j = 3 then [(''TOKEN'', ''s3cret'')] else [])" for j
    by (simp add: scope_submap_def agent_secret_def)
  ultimately show ?thesis
    by (auto simp: sound_def console_ok_def ids_ok_def one_home_def config_apart_def config_ids_def live_ids_def
      two_workspaces_def sample_config_def sample_world_def sample_agent_def triggers_distinct_def clash_def map_filter_simps)
qed

definition foreign_request :: "string \<Rightarrow> agent_write" where
  "foreign_request ws = \<lparr>aw_workspace = ws, aw_name = ''Dev'', aw_role = None, aw_description = None, aw_instruction = ''work'',
     aw_executor = ''2'', aw_trigger_status = ''Review'', aw_trigger_jql = None, aw_status_running = None,
     aw_status_success = ''Done'', aw_status_failure = ''To Do'', aw_status_ids = None, aw_timeout_minutes = 45,
     aw_max_budget = None, aw_max_attempts = 2,
     aw_behavior = \<lparr>bh_members = [(''env'', JObj [(''TOKEN'', JStr ''open'')])], bh_repository = None, bh_repositories = None,
       bh_env = Some [(''TOKEN'', ''open'')]\<rparr>, aw_enabled = None\<rparr>"

lemma foreign_parsed: "ws \<noteq> [] \<Longrightarrow> agent_write_schema (foreign_update ws) = Some (foreign_request ws)"
  by (cases ws) (simp_all add: foreign_update_def foreign_request_def only_keys_def AGENT_WRITE_KEYS_def req_def opt_def opt_null_def token_ok)

lemmas as_ids = as_id_text [OF id_texts(1)] as_id_text [OF id_texts(2)] as_id_text [OF id_texts(3)] as_id_text [OF id_texts(4)]
  as_id_text [OF id_texts(5)]

lemma find_config_two:
  "find_config 1 two_workspaces = Some (sample_config 1 (Some agent_secret))" "find_config 5 two_workspaces = Some (sample_config 5 None)"
  by (simp_all add: find_config_def two_workspaces_def sample_config_def)

lemma foreign_guard: "guard_agent_env ''5'' ''3'' (Some [(''TOKEN'', ''open'')]) two_workspaces = (Inr (), two_workspaces)"
  by (simp add: guard_agent_env_def bnd_app gets_app as_ids find_config_two sample_config_def ret_app)

lemma own_guard: "guard_agent_env ''1'' ''3'' (Some [(''TOKEN'', ''open'')]) two_workspaces =
  (Inl (Conflicting ''env key \"TOKEN\" is already defined as a secret for this agent''), two_workspaces)"
  by (simp add: guard_agent_env_def bnd_app gets_app as_ids find_config_two sample_config_def ret_app throw_app
      agent_secret_def collision_def js_in_def keys_of_def del: One_nat_def)

definition after_lint :: console where
  "after_lint = two_workspaces\<lparr>cn_world := (cn_world two_workspaces)\<lparr>w_jira := [(J_connect 5, True), (J_statuses 5 ''PRJ'', True)]\<rparr>\<rparr>"

lemma foreign_lint: "lint_or_throw board_env (foreign_request ''5'') (Some ''3'') two_workspaces = (Inr [], after_lint)"
  by (simp add: lint_or_throw_def bnd_app foreign_request_def as_ids on_world_def board_statuses_def gets_app find_workspace_def
      two_workspaces_def sample_workspace_def sample_agent_def sample_world_def catch_app andthen_app jira_connect_def
      jira_project_statuses_def answer_def done_or_def board_env_def sample_env_def ret_app workspace_agents_def lint_agent_def
      candidate_of_def status_fields_def absent_issue_def after_lint_def)

definition after_foreign :: console where
  "after_foreign = with_agents (map (\<lambda>a. if a_id a = 3 then to_insert_values (foreign_request ''5'') 2 a else a)) after_lint"

lemma foreign_update_run:
  "\<exists>a. update_agent_route board_env ''3'' (foreign_update ''5'') two_workspaces = (Inr (a, []), after_foreign)"
proof -
  have a: "find_agent 3 (cn_world two_workspaces) = Some sample_agent" "\<not> a_is_orchestrator sample_agent"
    by (simp_all add: find_agent_def two_workspaces_def sample_agent_def)
  have v: "validate_repository_scope (foreign_request ''5'') two_workspaces = (Inr (), two_workspaces)"
    by (simp add: validate_repository_scope_def foreign_request_def ret_app Let_def)
  have w: "\<exists>a. write_row 3 ''2'' (\<lambda>y b. with_enabled (foreign_request ''5'') (to_insert_values (foreign_request ''5'') y b)) [] after_lint
      = (Inr (a, []), after_foreign)"
    by (simp add: write_row_def bnd_app andthen_app as_ids update_agent_run find_executor_def sample_world_def
      sample_executor_def updated_row_def gets_app with_enabled_def foreign_request_def
      after_foreign_def with_agents_def find_agent_def after_lint_def two_workspaces_def sample_agent_def to_insert_values_def ret_app)
  have "aw_executor (foreign_request ''5'') = ''2''" "aw_workspace (foreign_request ''5'') = ''5''"
    "bh_env (aw_behavior (foreign_request ''5'')) = Some [(''TOKEN'', ''open'')]" by (simp_all add: foreign_request_def)
  with a v w show ?thesis
    by (simp add: update_agent_route_eq parse_agent_def foreign_parsed bnd_app andthen_app ret_app gets_app as_ids foreign_guard foreign_lint)
qed

lemma foreign_breaks: "\<not> one_home after_foreign" "\<not> triggers_distinct (cn_world after_foreign)"
proof -
  let ?a = "to_insert_values (foreign_request ''5'') 2 sample_agent"
  have a: "?a \<in> set (w_agents (cn_world after_foreign))" "agent_env ?a = [''TOKEN'']" "a_workspace ?a = 1" "a_id ?a = 3"
    and b: "sample_agent\<lparr>a_id := 6, a_key := ''qa'', a_trigger_status := Some ''Review''\<rparr> \<in> set (w_agents (cn_world after_foreign))"
    by (simp_all add: after_foreign_def with_agents_def after_lint_def two_workspaces_def sample_agent_def to_insert_values_def
        foreign_request_def agent_env_def behavior_json_def)
  have f: "sample_config 1 (Some agent_secret) \<in> set (cn_config after_foreign)"
    by (simp add: after_foreign_def with_agents_def after_lint_def two_workspaces_def)
  have "[''TOKEN''] \<in> homes (w_agents (cn_world after_foreign)) (sample_config 1 (Some agent_secret)) (Scope_agent ''3'')"
    using a shown by (force simp: homes_def sample_config_def)
  moreover have "\<not> apart [''TOKEN''] (scope_submap agent_secret (Scope_agent ''3''))"
    by (simp add: apart_def scope_submap_def agent_secret_def)
  ultimately show "\<not> one_home after_foreign"
    using f unfolding one_home_def config_apart_def secrets_apart_def by (force simp: sample_config_def)
  have "clash ?a (sample_agent\<lparr>a_id := 6, a_key := ''qa'', a_trigger_status := Some ''Review''\<rparr>)"
    by (simp add: clash_def to_insert_values_def foreign_request_def sample_agent_def)
  then show "\<not> triggers_distinct (cn_world after_foreign)" using a(1) b by (auto simp: triggers_distinct_def)
qed

section \<open>Identity, removal, secrets\<close>

definition identity :: "agent \<Rightarrow> id \<times> id \<times> string \<times> bool" where
  "identity a = (a_id a, a_workspace a, a_key a, a_is_orchestrator a)"

definition orchestrator_part :: "agent \<Rightarrow> string \<times> string option \<times> string option \<times> string option \<times> string option \<times> string \<times> string" where
  "orchestrator_part a = (a_name a, a_role a, a_trigger_status a, a_trigger_jql a, a_status_running a, a_status_success a, a_status_failure a)"

definition allowed_edit :: "string \<Rightarrow> agent \<Rightarrow> agent \<Rightarrow> bool" where
  "allowed_edit t a a' \<longleftrightarrow> identity a' = identity a \<and> (id_of_text t \<noteq> Some (a_id a) \<longrightarrow> a' = a) \<and>
     (a_is_orchestrator a \<longrightarrow> orchestrator_part a' = orchestrator_part a)"

lemma allowed_edit_refl: "list_all2 (allowed_edit t) ags ags"
  by (simp add: list_all2_same allowed_edit_def)

lemma allowed_edits:
  assumes "id_of_text t = Some i" and "\<And>b. b \<in> set ags \<Longrightarrow> a_id b = i \<Longrightarrow> allowed_edit t b (g b)"
  shows "list_all2 (allowed_edit t) ags (map (\<lambda>b. if a_id b = i then g b else b) ags)"
  using assms by (auto simp: list_all2_map2 list_all2_same allowed_edit_def)

lemma edited_rows: "w_agents (cn_world (with_agents h c)) = h (w_agents (cn_world c))"
  by (simp add: with_agents_def)

lemma values_allowed:
  assumes "id_of_text t = Some (a_id b)"
  shows "\<not> a_is_orchestrator b \<Longrightarrow> allowed_edit t b (with_enabled q (to_insert_values q x b))"
    and "allowed_edit t b (with_enabled q (orchestrator_values q x b))"
  using assms by (auto simp: allowed_edit_def identity_def orchestrator_part_def to_insert_values_def orchestrator_values_def with_enabled_def
      split: option.split)

lemma update_allowed:
  assumes ids: "ids_ok c" and run: "update_agent_route E t body c = (r, c')"
  shows "list_all2 (allowed_edit t) (w_agents (cn_world c)) (w_agents (cn_world c'))"
  using run
proof (cases rule: update_route_cases)
  case 1
  then show ?thesis by (simp add: allowed_edit_refl)
next
  case (2 q i a)
  from 2(6) show ?thesis
  proof (cases rule: write_row_cases)
    case (2 x)
    then show ?thesis unfolding 2 edited_rows using \<open>id_of_text t = Some i\<close> by (intro allowed_edits values_allowed) auto
  qed (simp add: allowed_edit_refl)
next
  case (3 q i a x d)
  have d: "w_agents (cn_world d) = w_agents (cn_world c)"
    using lint_or_throw_run [OF 3(6)] by (metis agents_kept_def console.select_convs(1) console.surjective console.update_convs(1))
  show ?thesis
  proof (cases x)
    case (Inl e)
    then show ?thesis using 3(7) d by (simp add: allowed_edit_refl)
  next
    case (Inr warns)
    with 3(7) have "write_row i (aw_executor q) (\<lambda>y b. with_enabled q (to_insert_values q y b)) warns d = (r, c')" by simp
    then show ?thesis
    proof (cases rule: write_row_cases)
      case (2 y)
      have "\<not> a_is_orchestrator b" if "b \<in> set (w_agents (cn_world c))" "a_id b = i" for b
        using find_agent_unique [OF ids 3(3) that] 3(4) by simp
      then show ?thesis unfolding 2 edited_rows d using \<open>id_of_text t = Some i\<close> by (intro allowed_edits values_allowed) auto
    qed (simp add: d allowed_edit_refl)
  qed
qed

lemma find_map_keeps: "(\<And>x. k (h x) = k x) \<Longrightarrow> find (\<lambda>x. k x = i) (map h xs) = map_option h (find (\<lambda>x. k x = i) xs)"
  by (induction xs) auto

lemma find_filter_other: "j \<noteq> i \<Longrightarrow> find (\<lambda>x. k x = j) (filter (\<lambda>x. k x \<noteq> i) xs) = find (\<lambda>x. k x = j) xs"
  by (induction xs) auto

lemma prune_agent_clears:
  assumes run: "snd (prune_agent_secrets ws k c) = c'" and ids: "distinct (map cf_workspace (cn_config c))"
    and g: "g \<in> set (cn_config c')" "cf_workspace g = ws" "cf_secrets g = Some (Sealed s)"
  shows "scope_submap s (Scope_agent k) = []"
proof -
  have u: "h = h'" if "h \<in> set (cn_config c)" "h' \<in> set (cn_config c)" "cf_workspace h = cf_workspace h'" for h h'
    using ids that by (auto simp: distinct_map inj_on_def)
  have "g \<in> set (cn_config c) \<Longrightarrow> find_config ws c = Some g"
    using g(2) find_distinct [OF ids, of g] by (simp add: find_config_def)
  show ?thesis
  proof (cases "Option.bind (find_config ws c) cf_secrets")
    case None
    then have "c' = c" using run by (simp add: prune_agent_secrets_def bnd_app gets_app ret_app)
    then show ?thesis using None g \<open>g \<in> set (cn_config c) \<Longrightarrow> find_config ws c = Some g\<close> by simp
  next
    case (Some b)
    then obtain f where f: "find_config ws c = Some f" "cf_secrets f = Some b" by (auto simp: Option.bind_eq_Some_conv)
    show ?thesis
    proof (cases "\<exists>t. b = Sealed t \<and> js_in k (map fst (the_default [] (es_agents t))) \<and> es_agents t \<noteq> None")
      case True
      then obtain t where t: "b = Sealed t" and c': "c' = replace_secrets ws (apply_scope (Scope_agent k) None t) c"
        using run Some by (auto simp: prune_agent_secrets_def bnd_app gets_app update_config_secrets apply_scope_def)
      obtain h where h: "g = (if cf_workspace h = ws then h\<lparr>cf_secrets := Some (Sealed (apply_scope (Scope_agent k) None t))\<rparr> else h)"
      proof -
        have "g \<in> (\<lambda>h. if cf_workspace h = ws then h\<lparr>cf_secrets := Some (Sealed (apply_scope (Scope_agent k) None t))\<rparr> else h)
            ` set (cn_config c)" using g(1) by (simp add: c' replace_secrets_def)
        then show ?thesis using that by blast
      qed
      then have "cf_workspace h = ws" using g(2) by (metis config_with_secrets(3))
      with h g(3) have "s = apply_scope (Scope_agent k) None t" by simp
      then show ?thesis by (simp add: scope_submap_apply)
    next
      case False
      then have c': "c' = c" using run Some
        by (auto simp: prune_agent_secrets_def bnd_app gets_app ret_app split: blob.splits if_splits)
      then have "g = f" using f(1) g find_config_mem [OF f(1)] u by blast
      then have b: "b = Sealed s" using f(2) g(3) by simp
      with False have "map_of (the_default [] (es_agents s)) k = None"
        by (auto simp: js_in_def map_of_eq_None_iff)
      then show ?thesis by (simp add: scope_submap_def)
    qed
  qed
qed

lemma map_of_delete_all: "map_of (foldl (\<lambda>n k. AList.delete k n) m ks) k = (if k \<in> set ks then None else map_of m k)"
  by (induction ks arbitrary: m) (auto simp: delete_conv')

lemma find_replaced: "find_config i c = Some f \<Longrightarrow> find_config i (replace_secrets i s c) = Some (f\<lparr>cf_secrets := Some (Sealed s)\<rparr>)"
proof -
  have "find (\<lambda>g. cf_workspace g = i) cs = Some f \<Longrightarrow>
      find (\<lambda>g. cf_workspace g = i) (map (\<lambda>g. if cf_workspace g = i then g\<lparr>cf_secrets := Some (Sealed s)\<rparr> else g) cs) =
      Some (f\<lparr>cf_secrets := Some (Sealed s)\<rparr>)" for cs by (induction cs) (auto split: if_splits)
  then show "find_config i c = Some f \<Longrightarrow> ?thesis" by (simp add: find_config_def replace_secrets_def)
qed

section \<open>Properties\<close>

text \<open> C35.
  One home per key: start from a configuration in which no scope (a workspace, a repository, an agent) has an
  environment key both as a plain value and as a secret, and in which ids are unique. Then no sequence of
  settings writes, secret writes, agent creations, updates, removals and test runs, whatever each of them
  answers, leads to one in which some scope has a key twice. Four things are asked of the requests, and the
  code checks none of them: the repositories of a settings write carry distinct ids (the schema does not ask for
  it, see \<open>duplicate_repositories_split_a_key\<close>); the ids handed out for new repositories are new; an
  update names the workspace its agent is in (see \<open>foreign_workspace_bypasses_checks\<close>); and it has the
  agent's id in its path as the database gives it out (see \<open>other_spelling_bypasses_guard\<close>).
\<close>

theorem every_key_has_one_home:
  assumes "ids_ok c" and "one_home c" and "config_step\<^sup>*\<^sup>* c c'"
  shows "one_home c'"
  using config_steps_sound [OF assms(3), of False] assms(1,2) by (simp add: sound_def console_ok_def)

theorem every_key_has_one_home_witness:
  "one_home (replace_secrets 1 agent_secret sample_console)"
proof (rule every_key_has_one_home)
  show "ids_ok sample_console" "one_home sample_console"
    using sample_console_sound [of False] by (simp_all add: sound_def console_ok_def)
  show "config_step\<^sup>*\<^sup>* sample_console (replace_secrets 1 agent_secret sample_console)"
    by (rule r_into_rtranclp, rule config_step.secrets, rule sample_write_run)
qed

text \<open> C36.
  Distinct triggers: from a configuration in which no two enabled agents of a workspace react to the same status
  with the same (or equally absent) JQL, no orchestrator has a trigger and keys have one home, no sequence of these requests, with the same asked
  of them, leads to one with two such agents. (Two agents on one status with different JQL are accepted.)
\<close>

theorem triggers_stay_distinct:
  assumes "console_ok c" and "triggers_distinct (cn_world c)" and "config_step\<^sup>*\<^sup>* c c'"
  shows "triggers_distinct (cn_world c')"
  using config_steps_sound [OF assms(3), of True] assms(1,2) by (simp add: sound_def)

theorem triggers_stay_distinct_witness:
  "triggers_distinct (cn_world (snd (create_agent board_env (foreign_update ''1'') sample_console)))"
proof (rule triggers_stay_distinct)
  show "console_ok sample_console" "triggers_distinct (cn_world sample_console)"
    using sample_console_sound [of True] by (simp_all add: sound_def)
  show "config_step\<^sup>*\<^sup>* sample_console (snd (create_agent board_env (foreign_update ''1'') sample_console))"
    by (rule r_into_rtranclp, rule config_step.create, rule surjective_pairing)
qed

text \<open> C37.
  The proviso is needed: the update checks repositories, triggers and secrets against the workspace named in the
  body and never compares it with the agent's. One request that names another existing workspace is accepted
  without a warning, and gives two enabled agents of a workspace the same trigger and a key a second home; the same
  request with the agent's own workspace is refused and changes nothing.
\<close>

theorem foreign_workspace_bypasses_checks:
  "sound True two_workspaces \<and>
   (\<exists>a c'. update_agent_route board_env ''3'' (foreign_update ''5'') two_workspaces = (Inr (a, []), c') \<and>
      \<not> one_home c' \<and> \<not> triggers_distinct (cn_world c')) \<and>
   (\<exists>m. update_agent_route board_env ''3'' (foreign_update ''1'') two_workspaces = (Inl (Conflicting m), two_workspaces))"
proof (intro conjI)
  have a: "find_agent 3 (cn_world two_workspaces) = Some sample_agent" by (simp add: find_agent_def two_workspaces_def sample_agent_def)
  have v: "validate_repository_scope (foreign_request ''1'') two_workspaces = (Inr (), two_workspaces)"
    by (simp add: validate_repository_scope_def foreign_request_def ret_app Let_def)
  have "aw_workspace (foreign_request ''1'') = ''1''"
    "bh_env (aw_behavior (foreign_request ''1'')) = Some [(''TOKEN'', ''open'')]" by (simp_all add: foreign_request_def)
  with a v show "\<exists>m. update_agent_route board_env ''3'' (foreign_update ''1'') two_workspaces = (Inl (Conflicting m), two_workspaces)"
    by (simp add: update_agent_route_eq parse_agent_def foreign_parsed bnd_app andthen_app ret_app gets_app as_ids own_guard)
qed (use two_workspaces_sound foreign_update_run foreign_breaks in blast)+

text \<open> C38.
  An update, accepted or refused, changes at most the row it names, never an agent's id, workspace, key or
  orchestrator flag, and of an orchestrator neither its name and role nor its trigger and statuses; no row
  appears or disappears.
\<close>

theorem update_keeps_identity:
  assumes "ids_ok c" and "update_agent_route E t body c = (r, c')"
  shows "list_all2 (\<lambda>a a'. identity a' = identity a \<and> (id_of_text t \<noteq> Some (a_id a) \<longrightarrow> a' = a) \<and>
      (a_is_orchestrator a \<longrightarrow> orchestrator_part a' = orchestrator_part a))
    (w_agents (cn_world c)) (w_agents (cn_world c'))"
  using update_allowed [OF assms] by (simp add: allowed_edit_def [abs_def])

theorem update_keeps_identity_witness:
  "map a_key (w_agents (cn_world after_foreign)) = [''dev'', ''qa'']"
proof -
  obtain a where run: "update_agent_route board_env ''3'' (foreign_update ''5'') two_workspaces = (Inr (a, []), after_foreign)"
    using foreign_update_run by blast
  have "ids_ok two_workspaces" using two_workspaces_sound [of True] by (simp add: sound_def console_ok_def)
  from update_keeps_identity [OF this run] have "map a_key (w_agents (cn_world after_foreign)) = map a_key (w_agents (cn_world two_workspaces))"
    by (auto simp: identity_def list_all2_conv_all_nth intro!: nth_equalityI)
  then show ?thesis by (simp add: two_workspaces_def sample_agent_def)
qed

text \<open> C39.
  Removing an agent leaves nothing dangling: every run whose agent existed still finds it, no run is touched, an agent
  with runs is disabled instead, and when the row is gone its sealed secrets are gone from its workspace as well -
  for a path with the id as the database gives it out, and a document that opens
  (\<open>other_spelling_keeps_secrets\<close> is what any other spelling does).
\<close>

theorem removal_leaves_nothing_dangling:
  assumes ids: "ids_ok c" and run: "remove_agent (show_nat i) c = (r, c')"
  shows "w_runs (cn_world c') = w_runs (cn_world c) \<and>
    (\<forall>x\<in>set (w_runs (cn_world c)). find_agent (r_agent x) (cn_world c) \<noteq> None \<longrightarrow> find_agent (r_agent x) (cn_world c') \<noteq> None) \<and>
    (r = Inr True \<longrightarrow> (\<exists>x\<in>set (w_runs (cn_world c)). r_agent x = i) \<and>
       (\<forall>a\<in>set (w_agents (cn_world c')). a_id a = i \<longrightarrow> \<not> a_enabled a)) \<and>
    (r = Inr False \<longrightarrow> find_agent i (cn_world c') = None \<and>
       (\<forall>a f s. find_agent i (cn_world c) = Some a \<and> f \<in> set (cn_config c') \<and> cf_workspace f = a_workspace a \<and>
          cf_secrets f = Some (Sealed s) \<longrightarrow> scope_submap s (Scope_agent (show_nat i)) = []))"
proof -
  let ?gone = "with_agents (filter (\<lambda>a. a_id a \<noteq> i)) c"
  have world: "cn_world (snd (prune_agent_secrets ws t d)) = cn_world d" for ws t d
    by (auto simp: prune_agent_secrets_def act_simps update_config_secrets replace_secrets_def split: option.split blob.split)
  have dc: "distinct (map cf_workspace (cn_config ?gone))" using ids by (simp add: ids_ok_def with_agents_def)
  note clears = prune_agent_clears [OF refl dc]
  have off: "find_agent j (cn_world (with_agents (map (\<lambda>a. if a_id a = i then a\<lparr>a_enabled := False\<rparr> else a)) c)) =
      map_option (\<lambda>a. if a_id a = i then a\<lparr>a_enabled := False\<rparr> else a) (find_agent j (cn_world c))" for j
    unfolding find_agent_def edited_rows by (rule find_map_keeps) simp
  have left: "find_agent j (cn_world ?gone) = (if j = i then None else find_agent j (cn_world c))" for j
    by (auto simp: find_agent_def edited_rows find_None_iff intro: find_filter_other)
  show ?thesis
    using run world clears off left
    by (cases "find_agent i (cn_world c)") (auto simp: remove_agent_run Let_def list_ex_iff edited_rows with_agents_def split: if_splits)
qed

theorem removal_leaves_nothing_dangling_witness:
  "find_agent 3 (cn_world (snd (remove_agent ''3'' two_workspaces))) = None"
proof -
  have ids: "ids_ok two_workspaces" using two_workspaces_sound [of True] by (simp add: sound_def console_ok_def)
  have "fst (remove_agent ''3'' two_workspaces) = Inr False"
    by (simp add: remove_agent_run id_texts find_agent_def two_workspaces_def sample_agent_def sample_world_def)
  then have "remove_agent (show_nat 3) two_workspaces = (Inr False, snd (remove_agent ''3'' two_workspaces))"
    unfolding shown by (metis prod.collapse)
  from removal_leaves_nothing_dangling [OF ids this] show ?thesis by simp
qed

text \<open> C40.
  A write of secrets that is accepted does exactly what it says: in its scope a key that is deleted is gone, a key
  that is set has its new value, every other key keeps its own; no other scope of the document, no other workspace and
  nothing of the database changes.
\<close>

theorem secrets_write_exact:
  assumes f: "find_config i c = Some f" and d: "distinct (keys_of (sw_set q))"
    and run: "update_env_secrets i q c = (Inr (), c')"
  shows "\<exists>s s'. open_or_empty (cf_secrets f) c = (Inr s, c) \<and>
    find_config i c' = Some (f\<lparr>cf_secrets := Some (Sealed s')\<rparr>) \<and>
    map_of (scope_submap s' (sw_scope q)) =
      (\<lambda>k. if k \<in> set (the_default [] (sw_delete q)) then None
           else case map_of (the_default [] (sw_set q)) k of Some v \<Rightarrow> Some v | None \<Rightarrow> map_of (scope_submap s (sw_scope q)) k) \<and>
    {sc. sc \<noteq> sw_scope q \<and> scope_submap s' sc \<noteq> scope_submap s sc} = {} \<and>
    filter (\<lambda>g. cf_workspace g \<noteq> i) (cn_config c') = filter (\<lambda>g. cf_workspace g \<noteq> i) (cn_config c) \<and>
    cn_world c' = cn_world c"
  using run
proof (cases rule: update_env_secrets_cases)
  case 1
  then show ?thesis by simp
next
  case (2 f' ks s)
  have vals: "map_of (written_map q m) k = (if k \<in> set (the_default [] (sw_delete q)) then None
      else case map_of (the_default [] (sw_set q)) k of Some v \<Rightarrow> Some v | None \<Rightarrow> map_of m k)" for m k
    using d by (simp add: written_map_def map_of_delete_all map_of_object_assign keys_of_def)
  have "filter (\<lambda>g. cf_workspace g \<noteq> i) (map (\<lambda>g. if cf_workspace g = i then g\<lparr>cf_secrets := b\<rparr> else g) cs) =
      filter (\<lambda>g. cf_workspace g \<noteq> i) cs" for b cs by (induction cs) auto
  then have "filter (\<lambda>g. cf_workspace g \<noteq> i) (cn_config c') = filter (\<lambda>g. cf_workspace g \<noteq> i) (cn_config c)"
    unfolding 2(5) replace_secrets_def by simp
  moreover have "find_config i c' = Some (f\<lparr>cf_secrets := Some (Sealed (written_secrets q s))\<rparr>)"
    unfolding 2(5) by (rule find_replaced [OF f])
  moreover have "cn_world c' = cn_world c" unfolding 2(5) by (simp add: replace_secrets_def)
  ultimately show ?thesis using 2(1,4) f
    by (intro exI [of _ s] exI [of _ "written_secrets q s"]) (auto simp: written_secrets_scope vals fun_eq_iff)
qed

theorem secrets_write_exact_witness:
  "\<exists>s'. find_config 1 (replace_secrets 1 agent_secret sample_console) = Some ((sample_config 1 None)\<lparr>cf_secrets := Some (Sealed s')\<rparr>) \<and>
    map_of (scope_submap s' (Scope_agent ''3'')) ''TOKEN'' = Some ''s3cret''"
proof -
  have "find_config 1 sample_console = Some (sample_config 1 None)" "distinct (keys_of (sw_set sample_write))"
    by (simp_all add: find_config_def sample_console_def sample_config_def sample_write_def keys_of_def)
  from secrets_write_exact [OF this sample_write_run] obtain s s' where
    "find_config 1 (replace_secrets 1 agent_secret sample_console) = Some ((sample_config 1 None)\<lparr>cf_secrets := Some (Sealed s')\<rparr>)"
    "map_of (scope_submap s' (sw_scope sample_write)) = (\<lambda>k. if k \<in> set (the_default [] (sw_delete sample_write)) then None
       else case map_of (the_default [] (sw_set sample_write)) k of Some v \<Rightarrow> Some v
         | None \<Rightarrow> map_of (scope_submap s (sw_scope sample_write)) k)" by blast
  then show ?thesis by (intro exI [of _ s']) (simp add: sample_write_def)
qed

text \<open>
  A blob that does not open blocks both writes of the workspace, whatever they carry - a pause of the workspace
  included -, and nothing is changed by the refusal.
\<close>

theorem corrupt_blob_blocks_writes:
  assumes "find_config i c = Some f" and "cf_secrets f = Some Unopenable"
  shows "\<exists>e. update_settings fresh i p c = (Inl e, c)" and "\<exists>e. update_env_secrets i q c = (Inl e, c)"
proof -
  show "\<exists>e. update_settings fresh i p c = (Inl e, c)"
    using assms by (simp add: update_settings_def bnd_app gets_app throw_app open_or_empty_def)
  have "\<exists>e c'. update_env_secrets i q c = (Inl e, c') \<and> c' = c"
  proof (cases "update_env_secrets i q c")
    case (Pair r c')
    then show ?thesis
    proof (cases rule: update_env_secrets_cases)
      case 1
      then show ?thesis using Pair by fastforce
    next
      case (2 f' ks s)
      then show ?thesis using assms by (simp add: open_or_empty_def throw_app)
    qed
  qed
  then show "\<exists>e. update_env_secrets i q c = (Inl e, c)" by blast
qed

text \<open>
  Membership is tested with \<open>in\<close> on a plain object: a key that is spelled like a member of \<open>Object.prototype\<close>
  passes the schema and is always refused as a duplicate, though the scope has no such key.
\<close>

theorem prototype_key_is_refused:
  assumes "find_config i c = Some f" and "plaintext_of c f (sw_scope q) = Inr ks" and "sw_set q = Some [(''constructor'', v)]"
    and "env_map_issues [(''constructor'', v)] = []"
  shows "\<exists>m. update_env_secrets i q c = (Inl (Conflicting m), c)"
  using assms by (simp add: update_env_secrets_run collision_def js_in_def keys_of_def OBJECT_MEMBERS_def)

section \<open>Why the provisos are needed\<close>

text \<open>
  The same agent under another text of its id: agent 3 of the first workspace, in whose secrets \<open>TOKEN\<close> is
  sealed, gets a plain variable of that name (and a trigger of its own).
\<close>

definition spelled_request :: agent_write where
  "spelled_request = (foreign_request ''1'')\<lparr>aw_trigger_status := ''Done'', aw_status_success := ''Review''\<rparr>"

definition spelled_update :: json where
  "spelled_update = JObj [(''workspace_id'', JStr ''1''), (''name'', JStr ''Dev''), (''instruction'', JStr ''work''),
     (''executor_id'', JStr ''2''), (''trigger_status'', JStr ''Done''), (''status_success'', JStr ''Review''),
     (''status_failure'', JStr ''To Do''), (''behavior'', JObj [(''env'', JObj [(''TOKEN'', JStr ''open'')])])]"

lemma spelled_parsed: "agent_write_schema spelled_update = Some spelled_request"
  by (simp add: spelled_update_def spelled_request_def foreign_request_def only_keys_def AGENT_WRITE_KEYS_def req_def opt_def opt_null_def token_ok)

lemma spelled_fields: "aw_workspace spelled_request = ''1''" "aw_executor spelled_request = ''2''"
  "bh_env (aw_behavior spelled_request) = Some [(''TOKEN'', ''open'')]" "aw_enabled spelled_request = None"
  by (simp_all add: spelled_request_def foreign_request_def)

lemma spelled_valid: "validate_repository_scope spelled_request two_workspaces = (Inr (), two_workspaces)"
  by (simp add: validate_repository_scope_def spelled_request_def foreign_request_def ret_app Let_def)

lemma spelled_guard: "guard_agent_env ''1'' ''03'' (Some [(''TOKEN'', ''open'')]) two_workspaces = (Inr (), two_workspaces)"
  by (simp add: guard_agent_env_def bnd_app gets_app as_ids find_config_two sample_config_def ret_app agent_secret_def del: One_nat_def)

lemma spelled_lint: "case lint_or_throw board_env spelled_request (Some ''03'') two_workspaces of (Inl e, c) \<Rightarrow> False
    | (Inr ws, c) \<Rightarrow> w_agents (cn_world c) = w_agents (cn_world two_workspaces) \<and> w_executors (cn_world c) = [sample_executor] \<and>
        cn_config c = cn_config two_workspaces"
  by code_simp

theorem other_spelling_bypasses_guard:
  "(\<exists>a ws c'. update_agent_route board_env ''03'' spelled_update two_workspaces = (Inr (a, ws), c') \<and> \<not> one_home c') \<and>
   (\<exists>m. update_agent_route board_env ''3'' spelled_update two_workspaces = (Inl (Conflicting m), two_workspaces))"
proof
  have a: "find_agent 3 (cn_world two_workspaces) = Some sample_agent" "\<not> a_is_orchestrator sample_agent"
    by (simp_all add: find_agent_def two_workspaces_def sample_agent_def)
  obtain ws c where lint: "lint_or_throw board_env spelled_request (Some ''03'') two_workspaces = (Inr ws, c)"
    and c: "w_agents (cn_world c) = w_agents (cn_world two_workspaces)" "w_executors (cn_world c) = [sample_executor]"
      "cn_config c = cn_config two_workspaces"
    using spelled_lint by (auto split: prod.splits sum.splits)
  let ?g = "\<lambda>b. with_enabled spelled_request (to_insert_values spelled_request 2 b)"
  let ?c = "with_agents (map (\<lambda>b. if a_id b = 3 then ?g b else b)) c"
  have row: "\<exists>r. write_row 3 ''2'' (\<lambda>x b. with_enabled spelled_request (to_insert_values spelled_request x b)) ws c = (Inr (r, ws), ?c)"
    by (simp add: write_row_def bnd_app andthen_app as_ids update_agent_run find_executor_def c(2) sample_executor_def updated_row_def
        gets_app find_agent_def with_agents_def c(1) two_workspaces_def sample_agent_def to_insert_values_def ret_app)
  have run: "\<exists>r. update_agent_route board_env ''03'' spelled_update two_workspaces = (Inr (r, ws), ?c)"
    using row by (simp add: update_agent_route_eq parse_agent_def spelled_parsed bnd_app andthen_app ret_app gets_app as_ids spelled_valid
        spelled_fields spelled_guard lint a)
  have "?g sample_agent \<in> set (w_agents (cn_world ?c))"
    by (simp add: with_agents_def c(1) two_workspaces_def sample_agent_def)
  moreover have "agent_env (?g sample_agent) = [''TOKEN'']" "a_workspace (?g sample_agent) = 1" "a_id (?g sample_agent) = 3"
    by (simp_all add: spelled_request_def foreign_request_def to_insert_values_def agent_env_def behavior_json_def with_enabled_def sample_agent_def)
  ultimately have "[''TOKEN''] \<in> homes (w_agents (cn_world ?c)) (sample_config 1 (Some agent_secret)) (Scope_agent ''3'')"
    using shown by (force simp: homes_def sample_config_def)
  moreover have "\<not> apart [''TOKEN''] (scope_submap agent_secret (Scope_agent ''3''))"
    by (simp add: apart_def scope_submap_def agent_secret_def)
  moreover have "sample_config 1 (Some agent_secret) \<in> set (cn_config ?c)"
    by (simp add: with_agents_def c(3) two_workspaces_def)
  ultimately have "\<not> one_home ?c"
    unfolding one_home_def config_apart_def secrets_apart_def by (force simp: sample_config_def)
  with run show "\<exists>a ws c'. update_agent_route board_env ''03'' spelled_update two_workspaces = (Inr (a, ws), c') \<and> \<not> one_home c'"
    by blast
  show "\<exists>m. update_agent_route board_env ''3'' spelled_update two_workspaces = (Inl (Conflicting m), two_workspaces)"
    by (simp add: update_agent_route_eq parse_agent_def spelled_parsed bnd_app andthen_app ret_app gets_app as_ids spelled_valid
        spelled_fields own_guard a)
qed

text \<open>Removing that agent under another text of its id deletes the row and leaves its secrets in the document.\<close>

theorem other_spelling_keeps_secrets:
  "\<exists>c'. remove_agent ''03'' two_workspaces = (Inr False, c') \<and> find_agent 3 (cn_world c') = None \<and>
     find_config 1 c' = Some (sample_config 1 (Some agent_secret))"
proof -
  let ?gone = "with_agents (filter (\<lambda>a. a_id a \<noteq> 3)) two_workspaces"
  have "prune_agent_secrets 1 ''03'' ?gone = (Inr (), ?gone)"
    by (simp add: prune_agent_secrets_def bnd_app gets_app ret_app with_agents_def find_config_def two_workspaces_def sample_config_def
        agent_secret_def js_in_def OBJECT_MEMBERS_def)
  moreover have "find_agent 3 (cn_world two_workspaces) = Some sample_agent" "\<not> a_is_orchestrator sample_agent" "a_workspace sample_agent = 1"
    "w_runs (cn_world two_workspaces) = []"
    by (simp_all add: find_agent_def two_workspaces_def sample_agent_def sample_world_def)
  ultimately have "remove_agent ''03'' two_workspaces = (Inr False, ?gone)"
    by (simp add: remove_agent_run id_texts del: One_nat_def)
  then show ?thesis
    by (simp add: find_agent_def find_None_iff with_agents_def find_config_def two_workspaces_def sample_config_def)
qed

text \<open>
  Two repositories with one id in one settings write, the second with a plain variable \<open>TOKEN\<close>; then a secret of that
  name for the id: the write looks at the first repository only, and the second has the key twice.
\<close>

definition twin :: "string \<Rightarrow> env_map option \<Rightarrow> repo_entry" where
  "twin n e = \<lparr>re_id = Some ''r'', re_name = n, re_git_url = ''u'', re_default_branch = ''main'', re_env = e, re_bootstrap = None\<rparr>"

definition twins :: settings_patch where
  "twins = \<lparr>sp_scope_jql = None, sp_branch_prefix = None, sp_repos = Some [twin ''a'' None, twin ''b'' (Some [(''TOKEN'', ''open'')])],
     sp_env = None, sp_enabled = None, sp_ticket_scoping = None, sp_release_status = None, sp_instructions = None, sp_token = None\<rparr>"

definition twin_secret :: secrets_write where
  "twin_secret = \<lparr>sw_scope = Scope_repo ''r'', sw_set = Some [(''TOKEN'', ''s3cret'')], sw_delete = None\<rparr>"

lemma twins_ok: "settings_ok twins"
  by (simp add: settings_ok_def twins_def twin_def repo_ok_def env_ok_def token_ok) (simp add: env_map_issues_def)

lemma twins_fields: "sp_env twins = None" "sp_release_status twins = None" "sp_instructions twins = None" "sp_token twins = None"
  "sp_repos twins = Some [twin ''a'' None, twin ''b'' (Some [(''TOKEN'', ''open'')])]"
  by (simp_all add: twins_def)

lemma unguarded: "guard_repo_env no_secrets r c = (Inr (), c)"
  by (simp add: guard_repo_env_def guard_no_secret_collision_def no_secrets_def ret_app split: option.split)

definition twin_console :: console where
  "twin_console = \<lparr>cn_world = cn_world (patched show_nat 1 twins sample_console), cn_config = [(sample_config 1 None)
     \<lparr>cf_repos := Some [twin ''a'' None, twin ''b'' (Some [(''TOKEN'', ''open'')])]\<rparr>]\<rparr>"

lemma twins_run: "update_settings show_nat 1 twins sample_console = (Inr (), twin_console)"
proof -
  have f: "find_config 1 sample_console = Some (sample_config 1 None)"
    by (simp add: find_config_def sample_console_def sample_config_def)
  have "merge_config show_nat twins (sample_config 1 None) =
      (sample_config 1 None)\<lparr>cf_repos := Some [twin ''a'' None, twin ''b'' (Some [(''TOKEN'', ''open'')])]\<rparr>"
    by (simp add: merge_config_def twins_def twin_def over_def sample_config_def)
  then have "cn_config (patched show_nat 1 twins sample_console) = cn_config twin_console"
    by (simp add: patched_def twin_console_def sample_console_def) (simp add: sample_config_def)
  then have "patched show_nat 1 twins sample_console = twin_console" by (simp add: twin_console_def)
  then show ?thesis
    by (simp add: update_settings_def twins_ok twins_fields bnd_app andthen_app gets_app ret_app patch_run [OF f] f open_or_empty_def
        unguarded prune_repos_def no_secrets_def [THEN arg_cong, of es_repos, simplified] sample_config_def del: One_nat_def)
qed

theorem duplicate_repositories_split_a_key:
  "\<exists>c c'. update_settings show_nat 1 twins sample_console = (Inr (), c) \<and> one_home c \<and>
     update_env_secrets 1 twin_secret c = (Inr (), c') \<and> \<not> one_home c'"
proof -
  let ?s = "no_secrets\<lparr>es_repos := Some [(''r'', [(''TOKEN'', ''s3cret'')])]\<rparr>"
  have two: "update_env_secrets 1 twin_secret twin_console = (Inr (), replace_secrets 1 ?s twin_console)"
    by (simp add: twin_console_def update_env_secrets_run twin_secret_def token_ok find_config_def sample_config_def plaintext_of_def twin_def
        collision_def keys_of_def open_or_empty_def ret_app written_secrets_def written_map_def scope_submap_def no_secrets_def
        apply_scope_def put_def object_assign_def js_in_def OBJECT_MEMBERS_def)
  have "[''TOKEN''] \<in> homes ags ((sample_config 1 b)\<lparr>cf_repos := Some [twin ''a'' None, twin ''b'' (Some [(''TOKEN'', ''open'')])],
      cf_secrets := Some (Sealed ?s)\<rparr>) (Scope_repo ''r'')" for ags b
    by (force simp: homes_def twin_def keys_of_def)
  moreover have "\<not> apart [''TOKEN''] (scope_submap ?s (Scope_repo ''r''))" by (simp add: apart_def scope_submap_def)
  ultimately have "\<not> one_home (replace_secrets 1 ?s twin_console)"
    unfolding one_home_def config_apart_def secrets_apart_def by (force simp: replace_secrets_def twin_console_def sample_config_def)
  moreover have "one_home twin_console" by (simp add: twin_console_def one_home_def config_apart_def sample_config_def)
  ultimately show ?thesis using twins_run two by blast
qed

end
