(* ===== verification/Handoff.thy ===== *)
theory Handoff
  imports Pipeline
begin

text \<open>
  The handoff section a run's instruction is prefixed with (\<open>libs/pipeline/src/handoff.ts\<close>):
  assembled from the run history when a run starts, for each of the trigger sources that carry a
  handoff. The role template catalogue (resolved from git repositories) and the operator-editable
  setup protocol are arguments. Properties: what the section promises about the rework budget is
  what routing enforces, and how far its size is bounded.
\<close>

section \<open>Pieces\<close>

definition SUMMARY_BUDGET :: nat where "SUMMARY_BUDGET = 1500"
definition REASON_BUDGET :: nat where "REASON_BUDGET = 400"
definition DESCRIPTION_BUDGET :: nat where "DESCRIPTION_BUDGET = 300"
definition TASK_BUDGET :: nat where "TASK_BUDGET = 4000"
definition DETAILS_BUDGET :: nat where "DETAILS_BUDGET = 4000"
definition SETUP_PROTOCOL_BUDGET :: nat where "SETUP_PROTOCOL_BUDGET = 20000"
definition TEMPLATE_CATALOG_BUDGET :: nat where "TEMPLATE_CATALOG_BUDGET = 4000"

definition trunc :: "string \<Rightarrow> nat \<Rightarrow> string" where
  "trunc s n = (if length s \<le> n then s else take n s @ [CHR 0x85])"

definition newline :: string where
  "newline = [CHR 0x0A]"

text \<open>The template literal \<open>x ? prefix x suffix : ''\<close>.\<close>

definition if_some :: "string \<Rightarrow> string option \<Rightarrow> string \<Rightarrow> string" where
  "if_some pre x post = (case truthy x of None \<Rightarrow> [] | Some s \<Rightarrow> pre @ s @ post)"

datatype source_level = Lv_workspace | Lv_global | Lv_builtin

record role_template =
  tp_slug :: string
  tp_description :: "string option"
  tp_model_hint :: "string option"

record template_catalog =
  cat_level :: source_level
  cat_git_url :: "string option"
  cat_diagnostic :: "string option"
  cat_templates :: "role_template list"

definition role_template_catalog_lines :: "template_catalog \<Rightarrow> string list" where
  "role_template_catalog_lines c =
     (let url = (case cat_git_url c of None \<Rightarrow> [] | Some u \<Rightarrow> u);
          place = (case cat_level c of Lv_workspace \<Rightarrow> js_trim (''workspace repo '' @ url)
            | Lv_global \<Rightarrow> js_trim (''global repo '' @ url) | Lv_builtin \<Rightarrow> ''built-in defaults'');
          rows = map (\<lambda>t. ''- '' @ tp_slug t @ if_some '' - '' (tp_description t) [] @
            if_some '' (hint: '' (tp_model_hint t) '')'') (cat_templates c);
          note = (case truthy (cat_diagnostic c) of None \<Rightarrow> [] | Some d \<Rightarrow> [''(note: '' @ d @ '')''])
      in [trunc (join_with newline ([''Role templates available (source: '' @ place @ ''):''] @ rows @ note @
            [''Fetch a template'' @ [CHR 0x27] @ ''s full text with get_role_template(slug); adapt it to THIS project.'']))
            TEMPLATE_CATALOG_BUDGET])"

definition artifact_parts :: "normalized_artifact \<Rightarrow> string" where
  "artifact_parts e = join_with '', ''
     ((case truthy (na_branch e) of None \<Rightarrow> [] | Some b \<Rightarrow> [''branch '' @ b]) @
      (case truthy (na_pr_url e) of None \<Rightarrow> [] | Some u \<Rightarrow> [''PR '' @ u]))"

definition artifact_lines :: "agent_report option \<Rightarrow> string \<Rightarrow> string list" where
  "artifact_lines rep label =
     (let entries = (case rep of None \<Rightarrow> [] | Some r \<Rightarrow> normalize_report_artifacts r) in
      if entries = [] then []
      else if length entries = 1 \<and> na_repo (hd entries) = None
      then (let parts = artifact_parts (hd entries) in if parts \<noteq> [] then [label @ '': '' @ parts] else [])
      else (let bulleted = List.map_filter (\<lambda>e. let parts = artifact_parts e in if parts = [] then None
                  else Some (''- '' @ (case na_repo e of None \<Rightarrow> ''undefined'' | Some n \<Rightarrow> n) @ '': '' @ parts)) entries
            in if bulleted \<noteq> [] then (label @ '':'') # bulleted else []))"

section \<open>Facts\<close>

definition event_id :: "json \<Rightarrow> string \<Rightarrow> id option" where
  "event_id ev k = (case jget ev k of Some (JNum q) \<Rightarrow> Some (nat \<lfloor>q\<rfloor>) | _ \<Rightarrow> None)"

definition load_failing_run :: "id option \<Rightarrow> world \<Rightarrow> run option" where
  "load_failing_run i w = Option.bind i (\<lambda>i. find_run i w)"

definition summary_line :: "string \<Rightarrow> agent_report option \<Rightarrow> string list" where
  "summary_line label rep = (case Option.bind rep (\<lambda>r. truthy (Some (rp_summary r))) of
     None \<Rightarrow> [] | Some s \<Rightarrow> [label @ trunc s SUMMARY_BUDGET])"

definition check_line :: "report_check \<Rightarrow> string" where
  "check_line c = ''- '' @ c_name c @ '': '' @ check_status_name (c_status c) @
     if_some '' - '' (map_option (\<lambda>s. trunc s REASON_BUDGET) (c_reason c)) []"

definition checks_where :: "(check_status \<Rightarrow> bool) \<Rightarrow> agent_report option \<Rightarrow> report_check list" where
  "checks_where P rep = (case rep of None \<Rightarrow> [] | Some r \<Rightarrow> filter (\<lambda>c. P (c_status c)) (rp_checks r))"

definition failure_lines :: "agent_report option \<Rightarrow> bool \<Rightarrow> string list" where
  "failure_lines rep include_warnings =
     (let relevant = checks_where (\<lambda>s. s = Fail \<or> include_warnings \<and> s = Warn) rep in
      summary_line ''Failing run: '' rep @
      (if relevant \<noteq> [] then ''Failed/warning checks:'' # map check_line relevant else []) @
      artifact_lines rep ''Artifacts'')"

definition roster_line :: "agent \<Rightarrow> string" where
  "roster_line a = ''- '' @ a_key a @ '' - '' @ a_name a @ if_some '' ('' (a_role a) '')'' @
     if_some '': '' (map_option (\<lambda>s. trunc s DESCRIPTION_BUDGET) (a_description a)) []"

definition roster_header :: string where
  "roster_header = ''Available worker agents (to route, set routing.target_agent to the KEY - the first token on each line - copied exactly):''"

definition roster_and_budget_lines :: "id \<Rightarrow> id \<Rightarrow> (string list \<times> rework_budget) handler" where
  "roster_and_budget_lines ws tk =
     bnd (gets (\<lambda>w. filter (\<lambda>a. a_workspace a = ws \<and> a_enabled a \<and> \<not> a_is_orchestrator a) (w_agents w))) (\<lambda>roster.
     bnd (get_rework_budget tk ws) (\<lambda>budget.
       ret ((if roster \<noteq> [] then roster_header # map roster_line roster @ [[]] else []) @
            [''Rework cycles used: '' @ show_int (rb_cycle_count budget) @ '' of '' @ show_int (rb_max budget), []], budget)))"

definition DECISION_PROTOCOL_LINES :: "string list" where
  "DECISION_PROTOCOL_LINES = [''Decision protocol:'',
     ''- Reply with outcome '' @ [CHR 0x22] @ ''routed'' @ [CHR 0x22] @
       '' (target_agent = the worker KEY from the roster above, + task) to send it back to a worker, OR'',
     ''- outcome '' @ [CHR 0x22] @ ''needs_human'' @ [CHR 0x22] @
       '' to escalate. Do not exceed the rework budget - the system enforces it.'']"

section \<open>Sections\<close>

definition question_answer_lines :: "json \<Rightarrow> world \<Rightarrow> string list" where
  "question_answer_lines ev w =
     (case Option.bind (event_id ev ''human_task_id'') (\<lambda>i. find_task i w) of
        None \<Rightarrow> []
      | Some h \<Rightarrow> if h_title h = [] then []
          else [''Question: '' @ trunc (h_title h) SUMMARY_BUDGET] @
            (case truthy (h_details h) of None \<Rightarrow> [] | Some d \<Rightarrow> [trunc d DETAILS_BUDGET]) @ [[]]) @
     (case truthy (jget_str ev ''resolution'') of None \<Rightarrow> [] | Some a \<Rightarrow> [''Answer: '' @ trunc a DETAILS_BUDGET])"

definition grant_line :: string where
  "grant_line = ''The rework budget above is exhausted, but because a human answered, the system permits ONE more rework cycle for this decision.''"

definition spent_line :: string where
  "spent_line = ''The rework budget above is exhausted, including the one human-granted extra cycle - a routed decision will be '' @
     ''overridden to a human task. Reply needs_human unless a human raises the rework budget first.''"

definition grant_note :: "rework_budget \<Rightarrow> string list" where
  "grant_note b = (if rb_available b then []
     else [if rb_cycle_count b < rb_max b + 1 then grant_line else spent_line, []])"

definition ticket_block :: "run option \<Rightarrow> (rework_budget \<Rightarrow> string list) \<Rightarrow> string list handler" where
  "ticket_block failing note =
     (case failing of None \<Rightarrow> ret []
      | Some r \<Rightarrow> (case r_ticket r of None \<Rightarrow> ret []
          | Some tk \<Rightarrow> bnd (roster_and_budget_lines (r_workspace r) tk) (\<lambda>(ls, b). ret (ls @ note b))))"

definition build_triage_section :: "json \<Rightarrow> string handler" where
  "build_triage_section ev =
     bnd (gets (load_failing_run (event_id ev ''failing_run_id''))) (\<lambda>failing.
     bnd (ticket_block failing (\<lambda>b. [])) (\<lambda>block.
     ret (join_with newline
       ([''## Handoff - triage'', ''A worker run failed on this ticket. Decide how to proceed.'', []] @
        failure_lines (Option.bind failing r_report) True @ [[]] @ block @ DECISION_PROTOCOL_LINES))))"

definition build_answer_triage_section :: "json \<Rightarrow> string handler" where
  "build_answer_triage_section ev =
     bnd (gets (load_failing_run (event_id ev ''failing_run_id''))) (\<lambda>failing.
     bnd (gets (question_answer_lines ev)) (\<lambda>qa.
     bnd (ticket_block failing grant_note) (\<lambda>block.
     ret (join_with newline
       ([''## Handoff - triage (human answered)'',
         ''A blocked question on this ticket received a human answer. Read the Q&A first and let the answer drive your decision.'', []] @
        (if qa \<noteq> [] then qa @ [[]] else []) @
        failure_lines (Option.bind failing r_report) True @ [[]] @ block @ DECISION_PROTOCOL_LINES)))))"

definition rework_section_lines :: "string option \<Rightarrow> agent_report option \<Rightarrow> string list" where
  "rework_section_lines task rep =
     (let failed = checks_where (\<lambda>s. s = Fail) rep in
      [''## Handoff - rework (fix of existing work)'',
       ''This is a FIX of existing work, not a fresh implementation. Continue on the existing branch/PR.'', []] @
      (case truthy task of None \<Rightarrow> [] | Some t \<Rightarrow> [''Task from the orchestrator:'', trunc t TASK_BUDGET, []]) @
      summary_line ''Original failure: '' rep @
      (if failed \<noteq> [] then ''Failed checks:'' # map check_line failed else []) @
      artifact_lines rep ''Continue on'')"

definition build_rework_section :: "json \<Rightarrow> string handler" where
  "build_rework_section ev =
     bnd (gets (load_failing_run (event_id ev ''failing_run_id''))) (\<lambda>failing.
     ret (join_with newline (rework_section_lines (jget_str ev ''task'') (Option.bind failing r_report))))"

definition build_human_resume_section :: "json \<Rightarrow> string handler" where
  "build_human_resume_section ev =
     bnd (gets (question_answer_lines ev)) (\<lambda>qa.
     ret (join_with newline ([''## Handoff - human answer'', ''You earlier asked for help. A human responded.'', []] @ qa)))"

text \<open>The catalogue is absent when its resolution throws.\<close>

record setup_context =
  sx_catalog :: "template_catalog option"
  sx_protocol :: string

fun board_name :: "board_type \<Rightarrow> string" where
  "board_name Kanban = ''kanban''"
| "board_name Scrum = ''scrum''"

definition repositories_line :: "string list option \<Rightarrow> string list" where
  "repositories_line rs =
     (case filter (\<lambda>n. n \<noteq> []) (case rs of None \<Rightarrow> [] | Some ns \<Rightarrow> ns) of
        [] \<Rightarrow> []
      | n # ns \<Rightarrow> [''Repositories: '' @ join_with '', '' ((n @ '' (default)'') # ns)])"

definition profile_line :: "executor \<Rightarrow> string" where
  "profile_line x = ''- '' @ x_name x @ '' - '' @ x_type x @ if_some '' ('' (jget_str (x_config x) ''model'') '')''"

definition build_workspace_setup_section :: "setup_context \<Rightarrow> json \<Rightarrow> id \<Rightarrow> string handler" where
  "build_workspace_setup_section S ev ws = gets (\<lambda>w.
     case find_workspace ws w of None \<Rightarrow> []
     | Some s \<Rightarrow>
         let profiles = filter x_enabled (w_executors w); qa = question_answer_lines ev w in
         join_with newline
           ([''## Workspace setup'',
             ''You are preparing the agent team for workspace '' @ [CHR 0x22] @ trunc (s_name s) DESCRIPTION_BUDGET @ [CHR 0x22] @
               '' (Jira project '' @ s_project_key s @
               (case s_board_type s of None \<Rightarrow> [] | Some b \<Rightarrow> '', '' @ board_name b @ '' board'') @ '').'',
             ''No worker agents exist yet. Study the project, then propose the team.'', []] @
            repositories_line (st_repositories (s_settings s)) @
            (if profiles \<noteq> [] then ''Executor profiles available (reference by NAME):'' # map profile_line profiles else []) @ [[]] @
            (case sx_catalog S of None \<Rightarrow> [] | Some c \<Rightarrow> role_template_catalog_lines c @ [[]]) @
            [trunc (sx_protocol S) SETUP_PROTOCOL_BUDGET] @
            (if qa \<noteq> [] then [[], ''Earlier question and the operator'' @ [CHR 0x27] @ ''s answer:''] @ qa else [])))"

definition build_handoff_section :: "setup_context \<Rightarrow> json \<Rightarrow> id \<Rightarrow> string handler" where
  "build_handoff_section S ev ws =
     catch (let source = trigger_source ev in
       if source = Some ''triage'' then build_triage_section ev
       else if source = Some ''answer-triage'' then build_answer_triage_section ev
       else if source = Some ''rework'' then build_rework_section ev
       else if source = Some ''human-resume'' then build_human_resume_section ev
       else if source = Some ''workspace-setup'' then build_workspace_setup_section S ev ws
       else ret [])
       (\<lambda>e. ret [])"

context base_relation
begin

lemma steps_handoff [steps_intros]: "steps R (build_handoff_section S ev ws)"
  unfolding build_handoff_section_def build_triage_section_def build_answer_triage_section_def build_rework_section_def
    build_human_resume_section_def build_workspace_setup_section_def ticket_block_def roster_and_budget_lines_def Let_def
  by (intro steps_intros)

end

text \<open>Assembling the section reads and does not write.\<close>

lemma handoff_reads: "\<exists>s. build_handoff_section S ev ws w = (Inr s, w)"
  by (simp add: build_handoff_section_def build_triage_section_def build_answer_triage_section_def build_rework_section_def
      build_human_resume_section_def build_workspace_setup_section_def ticket_block_def roster_and_budget_lines_def
      get_rework_budget_def get_rework_max_def get_settings_def act_simps Let_def
      split: option.split sum.split prod.split)

section \<open>The promise about the budget\<close>

lemma ticket_block_app:
  assumes "ticket_block (Some f) note w = (Inr block, w)" and "r_ticket f = Some tk"
  obtains pre b where "get_rework_budget tk (r_workspace f) w = (Inr b, w)" and "block = pre @ note b"
    and "grant_line \<notin> set pre" and "spent_line \<notin> set pre"
proof -
  obtain b where b: "get_rework_budget tk (r_workspace f) w = (Inr b, w)"
    using assms by (auto simp: ticket_block_def roster_and_budget_lines_def get_rework_budget_def get_rework_max_def
        get_settings_def act_simps split: sum.splits option.splits prod.splits)
  show thesis
    by (rule that [OF b, of "fst (projr (fst (roster_and_budget_lines (r_workspace f) tk w)))"])
      (use assms b in \<open>auto simp: ticket_block_def roster_and_budget_lines_def act_simps
        grant_line_def spent_line_def roster_line_def roster_header_def split: if_splits\<close>)
qed

lemma create_non_blocking_keeps:
  "w_runs (snd (create_non_blocking E i k t d w)) = w_runs w \<and> w_jobs (snd (create_non_blocking E i k t d w)) = w_jobs w"
  by (simp add: create_non_blocking_def create_from_request_def insert_event_def insert_task_def act_simps
      split: option.split)

lemma lines_differ: "grant_line \<noteq> spent_line"
  by (simp add: grant_line_def spent_line_def)

text \<open>
  What the orchestrator is told is what the system does: when the handoff of an answered question
  announces the one extra rework cycle, a routing decision made in that state is not overridden for
  the budget; and when it announces that the extra cycle is spent, no run and no job is created.
\<close>

theorem announced_grant_is_honoured:
  assumes "trigger_source (r_trigger r) = Some ''answer-triage''"
    and "ticket_block (Some f) grant_note w = (Inr block, w)" and "r_ticket f = Some tk" and "r_workspace f = r_workspace r"
    and "find_existing_rework_run tk (r_id r) w = (Inr None, w)"
    and "resolve_routing_target (r_workspace r) (rt_target_agent routing) w = (Inr (Some g), w)"
  shows "(grant_line \<in> set block \<longrightarrow> fst (decide_routing E r tk key rep routing w) \<noteq> Inr ''override_budget'') \<and>
    (spent_line \<in> set block \<longrightarrow> w_runs (snd (decide_routing E r tk key rep routing w)) = w_runs w \<and>
       w_jobs (snd (decide_routing E r tk key rep routing w)) = w_jobs w)"
proof -
  obtain pre b where b: "get_rework_budget tk (r_workspace r) w = (Inr b, w)" "block = pre @ grant_note b"
      "grant_line \<notin> set pre" "spent_line \<notin> set pre"
    using ticket_block_app [OF assms(2,3)] assms(4) by metis
  have empties: "grant_line \<noteq> []" "spent_line \<noteq> []" by (simp_all add: grant_line_def spent_line_def)
  let ?decide = "decide_routing E r tk key rep routing w"
  let ?override = "bnd (create_non_blocking E (r_id r) Blocker ''Routing overridden - manual attention needed''
      (Some (override_details (rt_task routing) (override_reason (Some g) True b (rt_target_agent routing)))))
      (\<lambda>_. ret ''override_budget'') w"
  have exhausted: "?decide = ?override" if "\<not> rb_available b" "\<not> rb_cycle_count b < rb_max b + 1"
    using that assms(1,5,6) b(1) by (simp add: decide_routing_def act_simps)
  have granted: "fst ?decide \<noteq> Inr ''override_budget''" if "rb_cycle_count b < rb_max b + 1"
    using that assms(1,5,6) b(1)
    by (auto simp: decide_routing_def act_simps split: option.split sum.split prod.split trigger_result.split)
  have keeps: "w_runs (snd ?override) = w_runs w \<and> w_jobs (snd ?override) = w_jobs w"
    using create_non_blocking_keeps by (auto simp: act_simps split: sum.split prod.split) (metis snd_conv)+
  have "grant_line \<in> set block \<Longrightarrow> rb_cycle_count b < rb_max b + 1"
    "spent_line \<in> set block \<Longrightarrow> \<not> rb_available b \<and> \<not> rb_cycle_count b < rb_max b + 1"
    using b lines_differ empties by (auto simp: grant_note_def split: if_splits)
  then show ?thesis using granted exhausted keeps by metis
qed

definition sample_budget_world :: world where
  "sample_budget_world = (sample_world [sample_run 7 (Some 4) Failed])\<lparr>w_workspaces :=
     [sample_workspace\<lparr>s_settings := sample_settings\<lparr>st_rework_max := Some 0\<rparr>\<rparr>]\<rparr>"

definition sample_decider :: run where
  "sample_decider = (sample_run 8 (Some 4) Succeeded)\<lparr>r_trigger := JObj [(''source'', JStr ''answer-triage'')]\<rparr>"

theorem announced_grant_is_honoured_witness:
  "\<exists>block. ticket_block (Some (sample_run 7 (Some 4) Failed)) grant_note sample_budget_world = (Inr block, sample_budget_world) \<and>
     grant_line \<in> set block \<and>
     fst (decide_routing sample_env sample_decider 4 ''PRJ-1'' sample_report \<lparr>rt_target_agent = ''dev'', rt_task = ''fix''\<rparr>
       sample_budget_world) \<noteq> Inr ''override_budget''"
proof -
  let ?w = sample_budget_world and ?f = "sample_run 7 (Some 4) Failed" and ?routing = "\<lparr>rt_target_agent = ''dev'', rt_task = ''fix''\<rparr>"
  have budget: "get_rework_budget 4 1 ?w = (Inr \<lparr>rb_cycle_count = 0, rb_max = 0, rb_available = False\<rparr>, ?w)"
    by (simp add: get_rework_budget_def get_rework_max_def get_settings_def act_simps rework_count_def is_rework_on_def
        sample_budget_world_def sample_defs find_workspace_def trigger_source_def jget_str_def manual_event_def)
  obtain block where block: "ticket_block (Some ?f) grant_note ?w = (Inr block, ?w)" "grant_line \<in> set block"
    using budget by (auto simp: ticket_block_def roster_and_budget_lines_def act_simps sample_run_def grant_note_def)
  have "find_existing_rework_run 4 (r_id sample_decider) ?w = (Inr None, ?w)"
    "resolve_routing_target (r_workspace sample_decider) (rt_target_agent ?routing) ?w = (Inr (Some sample_agent), ?w)"
    "trigger_source (r_trigger sample_decider) = Some ''answer-triage''"
    by (simp_all add: find_existing_rework_run_def resolve_routing_target_def act_simps decided_by_def sample_decider_def
        sample_budget_world_def sample_defs trigger_source_def jget_str_def manual_event_def)
  with announced_grant_is_honoured [of sample_decider ?f ?w block 4 ?routing sample_agent] block show ?thesis
    by (auto simp: sample_decider_def sample_run_def)
qed

section \<open>How large a section can be\<close>

definition text_size :: "string list \<Rightarrow> nat" where
  "text_size ls = sum_list (map (\<lambda>l. Suc (length l)) ls)"

lemma text_size_simps [simp]:
  "text_size [] = 0" "text_size (l # ls) = Suc (length l) + text_size ls" "text_size (xs @ ys) = text_size xs + text_size ys"
  by (simp_all add: text_size_def)

lemma join_size: "length (join_with newline ls) \<le> text_size ls"
  by (induction newline ls rule: join_with.induct) (simp_all add: newline_def)

lemma text_size_filtered:
  "(\<And>x l. x \<in> set xs \<Longrightarrow> f x = Some l \<Longrightarrow> length l < n) \<Longrightarrow> text_size (List.map_filter f xs) \<le> length xs * n"
proof (induction xs)
  case (Cons x xs)
  have "text_size (List.map_filter f xs) \<le> length xs * n" by (rule Cons.IH) (use Cons.prems in auto)
  moreover have "length l < n" if "f x = Some l" for l by (rule Cons.prems [OF _ that]) simp
  ultimately show ?case by (cases "f x") (fastforce simp: map_filter_simps)+
qed (simp add: map_filter_simps)

lemma text_size_map: "(\<And>x. x \<in> set xs \<Longrightarrow> length (f x) < n) \<Longrightarrow> text_size (map f xs) \<le> length xs * n"
proof -
  assume "\<And>x. x \<in> set xs \<Longrightarrow> length (f x) < n"
  then have "text_size (List.map_filter (\<lambda>x. Some (f x)) xs) \<le> length xs * n" by (intro text_size_filtered) auto
  then show ?thesis by (simp add: map_filter_def comp_def)
qed

lemma length_trunc: "length (trunc s n) \<le> Suc n"
  by (simp add: trunc_def)

lemma check_line_size: "check_ok c \<Longrightarrow> length (check_line c) < 620"
proof -
  assume "check_ok c"
  then have "length (c_name c) \<le> 200" by (simp add: check_ok_def len_between_def)
  moreover have "length (check_status_name s) \<le> 4" for s by (cases s) simp_all
  then have "length (check_status_name (c_status c)) \<le> 4" .
  moreover have "length (if_some '' - '' (map_option (\<lambda>s. trunc s REASON_BUDGET) (c_reason c)) []) \<le> 404"
    using length_trunc [of _ REASON_BUDGET] by (auto simp: if_some_def truthy_def REASON_BUDGET_def split: option.split)
  ultimately show ?thesis by (simp add: check_line_def)
qed

definition small_artifact :: "normalized_artifact \<Rightarrow> bool" where
  "small_artifact e \<longleftrightarrow> opt_all (\<lambda>s. length s \<le> 200) (na_repo e) \<and> opt_all (\<lambda>s. length s \<le> 300) (na_branch e) \<and>
     opt_all (\<lambda>s. length s \<le> 1000) (na_pr_url e)"

lemma artifact_parts_size: "small_artifact e \<Longrightarrow> length (artifact_parts e) \<le> 1312"
  by (auto simp: small_artifact_def artifact_parts_def opt_all_def truthy_def split: option.splits)

lemma artifact_lines_size:
  assumes "\<forall>e\<in>set (normalize_report_artifacts rep). small_artifact e" and "length (normalize_report_artifacts rep) \<le> 20"
  shows "text_size (artifact_lines (Some rep) label) \<le> 32000 + length label"
proof -
  let ?es = "normalize_report_artifacts rep"
  let ?f = "\<lambda>e. let parts = artifact_parts e in if parts = [] then None
      else Some (''- '' @ (case na_repo e of None \<Rightarrow> ''undefined'' | Some n \<Rightarrow> n) @ '': '' @ parts)"
  have line: "length l < 1520" if "e \<in> set ?es" "?f e = Some l" for e l
  proof -
    have "small_artifact e" using assms(1) that(1) by blast
    moreover from this have "length (case na_repo e of None \<Rightarrow> ''undefined'' | Some n \<Rightarrow> n) \<le> 200"
      by (auto simp: small_artifact_def opt_all_def split: option.splits)
    ultimately show ?thesis using that(2) artifact_parts_size [of e] by (auto simp: Let_def split: if_splits)
  qed
  have "text_size (List.map_filter ?f ?es) \<le> length ?es * 1520" by (rule text_size_filtered) (use line in blast)
  also have "\<dots> \<le> 30400" using assms(2) by simp
  finally have bullets: "text_size (List.map_filter ?f ?es) \<le> 30400" .
  have "length (artifact_parts (hd ?es)) \<le> 1312" if "?es \<noteq> []"
    using that assms(1) artifact_parts_size by (simp add: list.set_sel(1))
  then show ?thesis
    using bullets unfolding artifact_lines_def Let_def
    by (cases "?es = []"; cases "length ?es = 1 \<and> na_repo (hd ?es) = None") (auto split: if_splits)
qed

lemma repo_artifacts_small:
  assumes "report_ok rep" and "\<forall>a. rp_artifacts rep = Some a \<longrightarrow> ar_repos a \<noteq> None \<or> ar_branch a = None \<and> ar_pr_url a = None"
  shows "(\<forall>e\<in>set (normalize_report_artifacts rep). small_artifact e) \<and> length (normalize_report_artifacts rep) \<le> 20"
proof (cases "rp_artifacts rep")
  case (Some a)
  have "opt_all (\<lambda>rs. len_between 0 20 rs \<and> (\<forall>r\<in>set rs. repo_artifact_ok r)) (ar_repos a)"
    using assms(1) Some by (simp add: report_ok_def opt_all_def artifacts_ok_def)
  moreover have "small_artifact \<lparr>na_repo = Some (ra_repo r), na_branch = ra_branch r, na_pr_url = ra_pr_url r,
      na_commits = c, na_files_changed = f\<rparr>" if "repo_artifact_ok r" for r c f
    using that by (auto simp: repo_artifact_ok_def small_artifact_def opt_all_def len_between_def split: option.splits)
  moreover have "small_artifact \<lparr>na_repo = None, na_branch = None, na_pr_url = None, na_commits = c, na_files_changed = f\<rparr>" for c f
    by (simp add: small_artifact_def opt_all_def)
  ultimately show ?thesis
    using assms(2) Some
    by (cases "ar_repos a") (auto simp add: normalize_report_artifacts_def opt_all_def len_between_def)
qed (simp add: normalize_report_artifacts_def)

text \<open>
  A rework handoff cannot blow the prompt: for a report the schema accepts whose artifacts name
  their repositories, the section, whatever the task of the orchestrator says, has at most 70,000 characters.
\<close>

theorem rework_handoff_bounded:
  assumes "report_ok rep"
    and "\<forall>a. rp_artifacts rep = Some a \<longrightarrow> ar_repos a \<noteq> None \<or> ar_branch a = None \<and> ar_pr_url a = None"
  shows "length (join_with newline (rework_section_lines task (Some rep))) \<le> 70000"
proof -
  let ?failed = "checks_where (\<lambda>s. s = Fail) (Some rep)"
  have "\<forall>c\<in>set ?failed. check_ok c" using assms(1) by (auto simp: checks_where_def report_ok_def)
  then have "text_size (map check_line ?failed) \<le> length ?failed * 620"
    by (intro text_size_map check_line_size) blast
  moreover have "length ?failed \<le> 50"
    using assms(1) le_trans [OF length_filter_le [of "\<lambda>c. c_status c = Fail" "rp_checks rep"], of 50]
    by (simp add: checks_where_def report_ok_def len_between_def)
  ultimately have checks: "text_size (map check_line ?failed) \<le> 31000" by linarith
  have arts: "text_size (artifact_lines (Some rep) ''Continue on'') \<le> 32011"
    using artifact_lines_size [of rep "''Continue on''"] repo_artifacts_small [OF assms] by simp
  have task: "length (trunc t TASK_BUDGET) \<le> 4001" for t using length_trunc [of t TASK_BUDGET] by (simp add: TASK_BUDGET_def)
  have "text_size (case truthy task of None \<Rightarrow> [] | Some t \<Rightarrow> [''Task from the orchestrator:'', trunc t TASK_BUDGET, []]) \<le> 4100"
    by (auto split: option.split intro!: le_trans [OF task])
  moreover have "text_size (summary_line ''Original failure: '' (Some rep)) \<le> 1520"
    using length_trunc [of _ SUMMARY_BUDGET] by (auto simp: summary_line_def SUMMARY_BUDGET_def truthy_def)
  ultimately have "text_size (rework_section_lines task (Some rep)) \<le> 70000"
    unfolding rework_section_lines_def Let_def text_size_simps using checks arts by simp
  then show ?thesis using join_size le_trans by blast
qed

definition flat_report :: "nat \<Rightarrow> agent_report" where
  "flat_report n = sample_report\<lparr>rp_artifacts := Some \<lparr>ar_branch = Some (replicate (Suc n) (CHR ''b'')), ar_pr_url = None,
     ar_commits = None, ar_files_changed = None, ar_repos = None\<rparr>\<rparr>"

text \<open>
  A flat report is not bounded: the schema puts no limit on the branch of the legacy form and the
  section copies it whole, so for every size there is an accepted report with a longer section.
\<close>

theorem flat_handoff_unbounded:
  "report_schema (report_json (flat_report n)) = Some (flat_report n) \<and>
   n < length (join_with newline (rework_section_lines task (Some (flat_report n))))"
proof
  have "report_ok (flat_report n)"
    by (simp add: flat_report_def sample_report_def report_ok_def len_between_def check_ok_def opt_all_def artifacts_ok_def
        report_refinement_def)
  then show "report_schema (report_json (flat_report n)) = Some (flat_report n)" by (rule report_roundtrip)
  have last: "length l \<le> length (join_with sep ls)" if "l \<in> set ls" for l sep and ls :: "string list"
    using that by (induction sep ls rule: join_with.induct) auto
  have "''Continue on: branch '' @ replicate (Suc n) (CHR ''b'') \<in> set (rework_section_lines task (Some (flat_report n)))"
    by (simp add: rework_section_lines_def artifact_lines_def flat_report_def normalize_report_artifacts_def artifact_parts_def
        truthy_def Let_def)
  from last [OF this, of newline] show "n < length (join_with newline (rework_section_lines task (Some (flat_report n))))" by simp
qed

theorem rework_handoff_bounded_witness:
  "length (join_with newline (rework_section_lines (Some ''fix'') (Some sample_report))) \<le> 70000"
proof (rule rework_handoff_bounded)
  show "report_ok sample_report" by code_simp
  show "\<forall>a. rp_artifacts sample_report = Some a \<longrightarrow> ar_repos a \<noteq> None \<or> ar_branch a = None \<and> ar_pr_url a = None"
    by (simp add: sample_report_def)
qed

end
