(* ===== verification/RepoScope.thy ===== *)
theory RepoScope
  imports Handoff
begin

text \<open>
  Which repositories a run mounts: the agent's own list over the repositories of the workspace
  (\<open>claude-cli.executor.ts\<close>), narrowed by the Jira components of the ticket
  (\<open>scope-ticket.ts\<close>), with the question a person is asked when the components do not decide it.
\<close>

section \<open>The base set\<close>

record worktree_repo =
  wr_name :: string
  wr_url :: string
  wr_default_branch :: string
  wr_bootstrap :: "string option"

text \<open>An entry of \<open>settings.repositories\<close>, and one of the legacy \<open>agents.yaml\<close>.\<close>

record db_repo =
  db_name :: string
  db_git_url :: string
  db_default_branch :: string
  db_bootstrap_command :: "string option"

record yaml_repo =
  yr_name :: string
  yr_url :: string
  yr_default_branch :: string

fun nonempty_str :: "json \<Rightarrow> string option" where
  "nonempty_str (JStr s) = (if s = [] then None else Some s)"
| "nonempty_str _ = None"

definition resolve_repository_names :: "json \<Rightarrow> string list" where
  "resolve_repository_names behavior =
     (let names = (case jget behavior ''repositories'' of Some (JArr js) \<Rightarrow> List.map_filter nonempty_str js | _ \<Rightarrow> []) in
      if names \<noteq> [] then names
      else case jget behavior ''repository'' of
        Some j \<Rightarrow> (case nonempty_str j of Some s \<Rightarrow> [s] | None \<Rightarrow> [])
      | None \<Rightarrow> [])"

definition no_agents_yaml :: "bool \<Rightarrow> string" where
  "no_agents_yaml loaded = (if loaded then ''agents.yaml does not define it either'' else ''no agents.yaml is loaded'')"

definition missing_repository :: "string \<Rightarrow> bool \<Rightarrow> string" where
  "missing_repository name loaded =
     ''no repository '' @ [CHR 0x22] @ name @ [CHR 0x22] @ '' found: workspace settings has no repositories and '' @ no_agents_yaml loaded"

definition worktree_of_db :: "db_repo \<Rightarrow> worktree_repo" where
  "worktree_of_db r = \<lparr>wr_name = db_name r, wr_url = db_git_url r, wr_default_branch = db_default_branch r,
     wr_bootstrap = truthy (db_bootstrap_command r)\<rparr>"

definition worktree_of_yaml :: "yaml_repo \<Rightarrow> worktree_repo" where
  "worktree_of_yaml r = \<lparr>wr_name = yr_name r, wr_url = yr_url r, wr_default_branch = yr_default_branch r, wr_bootstrap = None\<rparr>"

definition pick_workspace_repositories ::
  "db_repo list \<Rightarrow> yaml_repo list \<Rightarrow> string list \<Rightarrow> bool \<Rightarrow> string + worktree_repo list" where
  "pick_workspace_repositories db yaml names loaded =
     (if db \<noteq> [] then
        case find (\<lambda>n. \<forall>r\<in>set db. db_name r \<noteq> n) names of
          Some n \<Rightarrow> Inl (''workspace has no repository named '' @ [CHR 0x22] @ n @ [CHR 0x22] @
            '' in settings.repositories (linter should have caught this)'')
        | None \<Rightarrow> Inr (map worktree_of_db (if names \<noteq> [] then filter (\<lambda>r. db_name r \<in> set names) db else db))
      else
        case find (\<lambda>n. \<forall>r\<in>set yaml. yr_name r \<noteq> n) names of
          Some n \<Rightarrow> Inl (missing_repository n loaded)
        | None \<Rightarrow>
            let selected = (if names \<noteq> [] then filter (\<lambda>r. yr_name r \<in> set names) yaml else yaml) in
            if selected = [] then Inl (missing_repository ''(default)'' loaded)
            else Inr (map worktree_of_yaml selected))"

section \<open>Narrowing by components\<close>

datatype scope_case = No_components | No_repo_components | Outside_agent_scope

datatype scope_gate = Gate_off | Skipped_single_repo | Passed | Parked scope_case | Components_unreadable

record narrowing_decision =
  nd_components :: "string list option"
  nd_matched :: "string list"
  nd_ignored :: "string list"
  nd_effective :: "string list"
  nd_gate :: scope_gate

datatype narrow_result =
    Scope_resolved "worktree_repo list" narrowing_decision
  | Scope_undeterminable scope_case narrowing_decision
  | Scope_unreadable narrowing_decision

definition norm_name :: "string \<Rightarrow> string" where
  "norm_name s = to_lower (js_trim s)"

text \<open>One round of the loop over the components: the names matched, those ignored and the matched set.\<close>

definition split_component ::
  "string list \<Rightarrow> string list \<times> string list \<times> string list \<Rightarrow> string \<Rightarrow> string list \<times> string list \<times> string list" where
  "split_component workspace acc c =
     (case acc of (matched, ignored, hits) \<Rightarrow>
        if norm_name c \<in> set workspace then
          (if norm_name c \<in> set hits then acc else (matched @ [c], ignored, hits @ [norm_name c]))
        else if c \<in> set ignored then acc
        else (matched, ignored @ [c], hits))"

definition narrow_by_ticket_components ::
  "worktree_repo list \<Rightarrow> string list option \<Rightarrow> string list \<Rightarrow> bool \<Rightarrow> narrow_result" where
  "narrow_by_ticket_components base components workspace scoping =
     (let decide = (\<lambda>m i e g. \<lparr>nd_components = components, nd_matched = m, nd_ignored = i, nd_effective = e, nd_gate = g\<rparr>) in
      if \<not> scoping then Scope_resolved base (decide [] [] (map wr_name base) Gate_off)
      else if length base \<le> 1 then Scope_resolved base (decide [] [] (map wr_name base) Skipped_single_repo)
      else case components of
        None \<Rightarrow> Scope_unreadable (decide [] [] [] Components_unreadable)
      | Some cs \<Rightarrow>
          let undeterminable = (\<lambda>why m i. Scope_undeterminable why (decide m i [] (Parked why)));
              seen = filter (\<lambda>c. c \<noteq> []) (map js_trim cs)
          in if seen = [] then undeterminable No_components [] []
             else
               (case foldl (split_component (map norm_name workspace)) ([], [], []) seen of (matched, ignored, hits) \<Rightarrow>
                  if matched = [] then undeterminable No_repo_components matched ignored
                  else
                    let repos = filter (\<lambda>r. norm_name (wr_name r) \<in> set hits) base in
                    if repos = [] then undeterminable Outside_agent_scope matched ignored
                    else Scope_resolved repos (decide matched ignored (map wr_name repos) Passed)))"

section \<open>What a person is asked\<close>

definition quoted_names :: "string list \<Rightarrow> string" where
  "quoted_names names = join_with '', '' (map (\<lambda>n. [CHR 0x60] @ n @ [CHR 0x60]) names)"

definition compose_scope_question ::
  "scope_case \<Rightarrow> string \<Rightarrow> string list \<Rightarrow> string list \<Rightarrow> string list \<Rightarrow> string \<times> string" where
  "compose_scope_question why key components agent_repos workspace_repos =
     (let apos = [CHR 0x27] in
      case why of
        No_components \<Rightarrow>
          (''Set Components on '' @ key @ '' so the agent knows which repositories to work in'',
           key @ '' has no Components, so the repository set for this run cannot be determined (ticket repository scoping is enabled for this workspace).'' @
           newline @ newline @ ''Set the ticket'' @ apos @ ''s **Components** field to the repositories the work touches, then resolve this task. Valid repository choices for this agent: '' @
           quoted_names agent_repos @ ''.'')
      | No_repo_components \<Rightarrow>
          (''None of '' @ key @ apos @ ''s components map to a repository - add the repository component'',
           key @ '' carries Components '' @ quoted_names components @
           '', but none of them names a workspace repository, so the repository set for this run cannot be determined.'' @
           newline @ newline @ ''Add the component matching the repository the work touches, then resolve this task. Repository components in this workspace: '' @
           quoted_names workspace_repos @ ''.'')
      | Outside_agent_scope \<Rightarrow>
          (key @ '' targets repositories this agent is not configured for - check routing or the agent'' @ apos @ ''s scope'',
           key @ apos @ ''s Components name repositories outside this agent'' @ apos @ ''s configured scope - the ticket and the routing contradict each other (this is a routing problem, not missing metadata).'' @
           newline @ newline @ ''Ticket repositories: '' @ quoted_names components @ ''. Agent scope: '' @ quoted_names agent_repos @ ''.'' @
           newline @ newline @ ''Either route the ticket to the agent that owns those repositories, or widen this agent'' @ apos @ ''s repository scope, then resolve this task.''))"

text \<open>The message of \<open>recordScopingEvent\<close>.\<close>

fun case_name :: "scope_case \<Rightarrow> string" where
  "case_name No_components = ''no_components''"
| "case_name No_repo_components = ''no_repo_components''"
| "case_name Outside_agent_scope = ''outside_agent_scope''"

fun gate_name :: "scope_gate \<Rightarrow> string" where
  "gate_name Gate_off = ''off''"
| "gate_name Skipped_single_repo = ''skipped_single_repo''"
| "gate_name Passed = ''passed''"
| "gate_name (Parked why) = ''parked:'' @ case_name why"
| "gate_name Components_unreadable = ''failed:components_unreadable''"

definition scoping_message :: "narrowing_decision \<Rightarrow> string" where
  "scoping_message d =
     (case nd_gate d of
        Passed \<Rightarrow> ''ticket components narrowed the repository set to: '' @ join_with '', '' (nd_effective d) @
          (if nd_ignored d = [] then [] else '' (ignored non-repository components: '' @ join_with '', '' (nd_ignored d) @ '')'')
      | Skipped_single_repo \<Rightarrow> ''ticket scoping skipped - single-repository base set (components add no information)''
      | Components_unreadable \<Rightarrow> ''ticket components could not be read from Jira - failing closed''
      | Gate_off \<Rightarrow> ''repository scope undeterminable (off) - parking to the human queue''
      | Parked why \<Rightarrow> ''repository scope undeterminable ('' @ case_name why @ '') - parking to the human queue'')"

fun decision_of :: "narrow_result \<Rightarrow> narrowing_decision" where
  "decision_of (Scope_resolved rs d) = d"
| "decision_of (Scope_undeterminable why d) = d"
| "decision_of (Scope_unreadable d) = d"

definition strings_json :: "string list \<Rightarrow> json" where
  "strings_json xs = JArr (map JStr xs)"

definition record_scoping_event :: "id \<Rightarrow> narrow_result \<Rightarrow> unit handler" where
  "record_scoping_event i res =
     (let d = decision_of res in
      insert_event i Ev_log (JObj [(''source'', JStr ''repo-scoping''), (''message'', JStr (scoping_message d)),
        (''components'', case nd_components d of None \<Rightarrow> JNull | Some cs \<Rightarrow> strings_json cs),
        (''matched'', strings_json (nd_matched d)), (''ignored'', strings_json (nd_ignored d)),
        (''effective'', strings_json (nd_effective d)), (''gate'', JStr (gate_name (nd_gate d)))]))"

text \<open>
  The part of \<open>loadRunConfig\<close> that settles the repositories of a run with a ticket: the
  repositories to mount and those left out, or why the run cannot go on.
\<close>

datatype scope_failure =
    Scope_error string
  | Scope_question scope_case string "string list" "string list" "string list"

definition unreadable_components :: "string \<Rightarrow> string" where
  "unreadable_components key =
     ''ticket '' @ key @ '': components could not be read from Jira while ticket scoping is enabled - failing closed (feature 020)''"

definition run_repositories ::
  "id \<Rightarrow> (string \<times> string list option) option \<Rightarrow> bool \<Rightarrow> db_repo list \<Rightarrow> yaml_repo list \<Rightarrow> bool \<Rightarrow> json \<Rightarrow>
    (scope_failure + worktree_repo list \<times> worktree_repo list) handler" where
  "run_repositories i ticket scoping_setting db yaml loaded behavior =
     (case pick_workspace_repositories db yaml (resolve_repository_names behavior) loaded of
        Inl msg \<Rightarrow> ret (Inl (Scope_error msg))
      | Inr base \<Rightarrow>
          let workspace = (if db \<noteq> [] then map db_name db else map yr_name yaml);
              components = (case ticket of None \<Rightarrow> None | Some (key, cs) \<Rightarrow> cs);
              scoping = (scoping_setting \<and> ticket \<noteq> None);
              narrowed = narrow_by_ticket_components base components workspace scoping
          in andthen (if scoping then record_scoping_event i narrowed else ret ())
               (case narrowed of
                  Scope_undeterminable why d \<Rightarrow>
                    ret (Inl (Scope_question why (fst (the ticket)) (case components of None \<Rightarrow> [] | Some cs \<Rightarrow> cs)
                      (map wr_name base) workspace))
                | Scope_unreadable d \<Rightarrow> ret (Inl (Scope_error (unreadable_components (fst (the ticket)))))
                | Scope_resolved repos d \<Rightarrow> ret (Inr (repos, filter (\<lambda>r. r \<notin> set repos) base))))"

section \<open>Components select, the base set bounds\<close>

lemma js_trim_idem [simp]: "js_trim (js_trim s) = js_trim s"
proof -
  have front: "dropWhile is_space (rev (dropWhile is_space (rev t))) = rev (dropWhile is_space (rev t))"
    if "t = [] \<or> \<not> is_space (hd t)" for t
  proof (cases "rev (dropWhile is_space (rev t))")
    case (Cons c cs)
    obtain us where "rev t = us @ dropWhile is_space (rev t)"
      by (metis takeWhile_dropWhile_id)
    then have "t = rev (dropWhile is_space (rev t)) @ rev us" by (metis rev_append rev_rev_ident)
    then have "t \<noteq> [] \<and> hd t = c" using Cons by (metis append_Cons list.sel(1) list.distinct(1))
    then show ?thesis using that Cons by simp
  next
    case Nil
    then show ?thesis by (simp only: dropWhile.simps)
  qed
  have "dropWhile is_space s = [] \<or> \<not> is_space (hd (dropWhile is_space s))" using hd_dropWhile by blast
  from front [OF this] show ?thesis by (simp add: js_trim_def)
qed

lemma norm_trimmed [simp]: "norm_name (js_trim c) = norm_name c"
  by (simp add: norm_name_def)

lemma split_components:
  "foldl (split_component W) (m, i, h) cs = (m', i', h') \<Longrightarrow> (m = [] \<longleftrightarrow> h = []) \<Longrightarrow>
    set h' = set h \<union> {n \<in> set W. \<exists>c\<in>set cs. norm_name c = n} \<and> (m' = [] \<longleftrightarrow> h' = [])"
proof (induction cs arbitrary: m i h)
  case (Cons c cs)
  obtain m1 i1 h1 where one: "split_component W (m, i, h) c = (m1, i1, h1)" by (metis prod_cases3)
  have "set h1 = set h \<union> {n \<in> set W. norm_name c = n} \<and> (m1 = [] \<longleftrightarrow> h1 = [])"
    using one Cons.prems(2) by (auto simp: split_component_def split: if_splits)
  moreover have "foldl (split_component W) (m1, i1, h1) cs = (m', i', h')" using Cons.prems(1) one by simp
  ultimately show ?case using Cons.IH [of m1 i1 h1] by auto
qed auto

text \<open>The component of the ticket that names a repository: a workspace repository, up to case and blanks.\<close>

definition named_by :: "string list \<Rightarrow> string list \<Rightarrow> string \<Rightarrow> bool" where
  "named_by cs workspace name \<longleftrightarrow> (\<exists>c\<in>set cs. js_trim c \<noteq> [] \<and> norm_name c = norm_name name) \<and>
     norm_name name \<in> norm_name ` set workspace"

text \<open>
  Scoping is an intersection: with the gate on, several repositories in the agent's base set and
  readable components, the run mounts exactly the base repositories a component names, in the order
  of the base set; when there are none the run is parked, with the reason that applies.
\<close>

theorem narrowing_is_intersection:
  assumes "1 < length base" and "narrow_by_ticket_components base (Some cs) workspace True = res"
  defines "hit \<equiv> filter (\<lambda>r. named_by cs workspace (wr_name r)) base"
  shows "if hit \<noteq> [] then \<exists>d. res = Scope_resolved hit d \<and> nd_effective d = map wr_name hit
    else \<exists>d. nd_effective d = [] \<and> res = Scope_undeterminable
      (if \<forall>c\<in>set cs. js_trim c = [] then No_components
       else if \<forall>c\<in>set cs. js_trim c \<noteq> [] \<longrightarrow> norm_name c \<notin> norm_name ` set workspace then No_repo_components
       else Outside_agent_scope) d"
proof -
  let ?seen = "filter (\<lambda>c. c \<noteq> []) (map js_trim cs)" and ?W = "map norm_name workspace"
  obtain m i h where split: "foldl (split_component ?W) ([], [], []) ?seen = (m, i, h)" by (metis prod_cases3)
  have h: "set h = {n \<in> set ?W. \<exists>c\<in>set ?seen. norm_name c = n}" and m: "m = [] \<longleftrightarrow> h = []"
    using split_components [OF split] by simp_all
  have hits: "norm_name (wr_name r) \<in> set h \<longleftrightarrow> named_by cs workspace (wr_name r)" for r
    unfolding h named_by_def by fastforce
  have seen: "?seen = [] \<longleftrightarrow> (\<forall>c\<in>set cs. js_trim c = [])"
    by (simp add: filter_empty_conv)
  have none: "m = [] \<longleftrightarrow> (\<forall>c\<in>set cs. js_trim c \<noteq> [] \<longrightarrow> norm_name c \<notin> norm_name ` set workspace)"
  proof -
    have "m = [] \<longleftrightarrow> set h = {}" using m by simp
    then show ?thesis unfolding h by fastforce
  qed
  have bound: "hit = []" if "m = []"
    using that m hits unfolding hit_def by (simp add: filter_empty_conv flip: hits)
  have repos: "filter (\<lambda>r. norm_name (wr_name r) \<in> set h) base = hit" by (simp add: hit_def hits)
  have shown: "res = (if ?seen = [] then Scope_undeterminable No_components \<lparr>nd_components = Some cs, nd_matched = [],
        nd_ignored = [], nd_effective = [], nd_gate = Parked No_components\<rparr>
      else if m = [] then Scope_undeterminable No_repo_components \<lparr>nd_components = Some cs, nd_matched = m,
        nd_ignored = i, nd_effective = [], nd_gate = Parked No_repo_components\<rparr>
      else if hit = [] then Scope_undeterminable Outside_agent_scope \<lparr>nd_components = Some cs, nd_matched = m,
        nd_ignored = i, nd_effective = [], nd_gate = Parked Outside_agent_scope\<rparr>
      else Scope_resolved hit \<lparr>nd_components = Some cs, nd_matched = m, nd_ignored = i,
        nd_effective = map wr_name hit, nd_gate = Passed\<rparr>)"
    unfolding assms(2) [symmetric] narrow_by_ticket_components_def Let_def
    using assms(1) by (simp add: split repos cong: if_cong)
  show ?thesis
  proof (cases "?seen = []")
    case True
    then have "m = []" using split by simp
    then show ?thesis using shown True bound seen by auto
  next
    case False
    then show ?thesis using shown bound none seen by auto
  qed
qed

definition sample_base :: "worktree_repo list" where
  "sample_base = [\<lparr>wr_name = ''api'', wr_url = ''u1'', wr_default_branch = ''main'', wr_bootstrap = None\<rparr>,
     \<lparr>wr_name = ''web'', wr_url = ''u2'', wr_default_branch = ''main'', wr_bootstrap = None\<rparr>]"

theorem narrowing_is_intersection_witness:
  "\<exists>d. narrow_by_ticket_components sample_base (Some [''Design'', '' WEB '']) [''api'', ''web'', ''ops''] True =
     Scope_resolved [sample_base ! 1] d \<and> nd_effective d = [''web'']"
proof -
  have "filter (\<lambda>r. named_by [''Design'', '' WEB ''] [''api'', ''web'', ''ops''] (wr_name r)) sample_base = [sample_base ! 1]"
    by code_simp
  moreover have "1 < length sample_base" by (simp add: sample_base_def)
  moreover have "wr_name (sample_base ! 1) = ''web''" by (simp add: sample_base_def)
  ultimately show ?thesis using narrowing_is_intersection [OF _ refl, of sample_base "[''Design'', '' WEB '']" "[''api'', ''web'', ''ops'']"]
    by simp
qed

text \<open>The base set of a run lists repositories of the workspace, all of them when the agent names none.\<close>

lemma picked_repositories:
  assumes "pick_workspace_repositories db yaml names loaded = Inr rs" and "db \<noteq> []"
  shows "rs = map worktree_of_db (filter (\<lambda>r. names = [] \<or> db_name r \<in> set names) db)"
    and "set names \<subseteq> wr_name ` set rs"
proof -
  have all: "\<forall>n\<in>set names. \<exists>r\<in>set db. db_name r = n" and rs: "rs = map worktree_of_db (if names \<noteq> [] then filter (\<lambda>r. db_name r \<in> set names) db else db)"
    using assms by (auto simp: pick_workspace_repositories_def find_None_iff split: option.splits)
  show "rs = map worktree_of_db (filter (\<lambda>r. names = [] \<or> db_name r \<in> set names) db)"
    using rs by (simp split: if_splits)
  show "set names \<subseteq> wr_name ` set rs" using all rs by (force simp: worktree_of_db_def)
qed

lemma mounted_within_base:
  assumes "run_repositories i ticket sc db yaml loaded behavior w = (Inr (Inr (repos, excluded)), w')"
  obtains base where "pick_workspace_repositories db yaml (resolve_repository_names behavior) loaded = Inr base"
    "set repos \<union> set excluded = set base" "set repos \<inter> set excluded = {}"
proof -
  obtain base where base: "pick_workspace_repositories db yaml (resolve_repository_names behavior) loaded = Inr base"
    using assms by (cases "pick_workspace_repositories db yaml (resolve_repository_names behavior) loaded")
      (auto simp: run_repositories_def act_simps)
  let ?cs = "case ticket of None \<Rightarrow> None | Some (key, cs) \<Rightarrow> cs" and ?b = "sc \<and> ticket \<noteq> None"
    and ?ws = "if db \<noteq> [] then map db_name db else map yr_name yaml"
  obtain d where res: "narrow_by_ticket_components base ?cs ?ws ?b = Scope_resolved repos d"
      and excluded: "excluded = filter (\<lambda>r. r \<notin> set repos) base"
    using assms base
    by (cases "narrow_by_ticket_components base ?cs ?ws ?b")
      (auto simp: run_repositories_def act_simps Let_def record_scoping_event_def insert_event_def split: if_splits)
  have "set repos \<subseteq> set base"
    using res by (auto simp: narrow_by_ticket_components_def Let_def split: if_splits option.splits prod.splits)
  then show ?thesis using that [OF base] excluded by auto
qed

end
