(* ===== verification/Callback.thy ===== *)
theory Callback
  imports SetupApply Scrubber RunToken
begin

text \<open>
  The callback API an agent reports through (\<open>libs/callback\<close>): the token guard, progress and
  human requests, and the completion of a run with its hand-off gate, the ticket's verification
  receipt and the review task; with the argument schemas
  (\<open>packages/contracts/src/callback-tools.schema.ts\<close>, \<open>verification-receipt.schema.ts\<close>).
  Run ids appear in URLs and payloads as text: \<open>uid\<close> renders them. The best-effort
  \<open>job.updateProgress\<close> has no effect on the state.
\<close>

section \<open>Argument schemas\<close>

record progress_input =
  pg_percent :: "rat option"
  pg_stage :: string
  pg_message :: string

fun report_progress_schema :: "progress_input decoder" where
  "report_progress_schema (JObj kvs) =
     (if only_keys [''percent'', ''stage'', ''message''] kvs then do {
        p \<leftarrow> opt ''percent'' (d_num_between 0 100) kvs;
        s \<leftarrow> req ''stage'' (d_str 0 None) kvs;
        m \<leftarrow> req ''message'' (d_str 0 (Some 4000)) kvs;
        Some \<lparr>pg_percent = p, pg_stage = s, pg_message = m\<rparr>
      } else None)"
| "report_progress_schema _ = None"

fun request_human_schema :: "task_request decoder" where
  "request_human_schema (JObj kvs) =
     (if only_keys [''kind'', ''title'', ''details'', ''blocking'', ''options''] kvs then do {
        k \<leftarrow> req ''kind'' (d_enum human_task_kinds) kvs;
        t \<leftarrow> req ''title'' (d_str 0 (Some 120)) kvs;
        d \<leftarrow> req ''details'' (d_str 0 (Some 4000)) kvs;
        b \<leftarrow> opt ''blocking'' d_bool kvs;
        os \<leftarrow> opt ''options'' answer_options_schema kvs;
        Some \<lparr>tq_kind = k, tq_title = t, tq_details = Some d,
              tq_blocking = (case b of None \<Rightarrow> True | Some x \<Rightarrow> x), tq_options = os\<rparr>
      } else None)"
| "request_human_schema _ = None"

section \<open>The token guard\<close>

datatype guard_error = Unauthorized | Conflict_status

text \<open>
  \<open>authorization\<close> is the header, or the first of several. A missing path parameter cannot
  reach the guard as a run id, so \<open>param\<close> is the empty string then.
\<close>

definition bearer_prefix :: string where
  "bearer_prefix = ''Bearer ''"

definition extract_bearer_token :: "string option \<Rightarrow> string option" where
  "extract_bearer_token authorization =
     (case truthy authorization of None \<Rightarrow> None
      | Some v \<Rightarrow> if take (length bearer_prefix) v = bearer_prefix
          then truthy (Some (js_trim (drop (length bearer_prefix) v))) else None)"

definition acceptable_run_status :: "run_status \<Rightarrow> bool" where
  "acceptable_run_status s \<longleftrightarrow> s = Running \<or> s = Awaiting_human"

definition run_by_uid :: "(id \<Rightarrow> string) \<Rightarrow> string \<Rightarrow> world \<Rightarrow> run option" where
  "run_by_uid uid s w = find (\<lambda>r. uid (r_id r) = s) (w_runs w)"

definition can_activate :: "(string \<Rightarrow> string \<Rightarrow> nat list) \<Rightarrow> string \<Rightarrow> (id \<Rightarrow> string) \<Rightarrow> string \<Rightarrow> string option \<Rightarrow>
    world \<Rightarrow> guard_error + id" where
  "can_activate hmac secret uid param authorization w =
     (if param = [] then Inl Unauthorized else
      case extract_bearer_token authorization of None \<Rightarrow> Inl Unauthorized
      | Some token \<Rightarrow>
          (case verify_run_token hmac (w_now w) token secret of
             Inl e \<Rightarrow> Inl Unauthorized
           | Inr claims \<Rightarrow>
               if jget_str claims ''sub'' \<noteq> Some param then Inl Unauthorized
               else (case run_by_uid uid param w of
                       None \<Rightarrow> Inl Conflict_status
                     | Some r \<Rightarrow> if acceptable_run_status (r_status r) then Inr (r_id r) else Inl Conflict_status)))"

section \<open>Progress and questions\<close>

datatype validation_error = Schema_errors | Handoff_errors "(string \<times> string \<times> string) list" | Team_errors "team_issue list"

datatype 'a callback_result = Ok 'a | Validation validation_error | Conflict_result

definition progress_payload :: "progress_input \<Rightarrow> json" where
  "progress_payload p = JObj ([(''stage'', JStr (pg_stage p)), (''message'', JStr (scrub (pg_message p)))] @
     fld ''percent'' JNum (pg_percent p) @ [(''via'', JStr ''callback'')])"

definition progress :: "id \<Rightarrow> json \<Rightarrow> unit callback_result handler" where
  "progress i body =
     (case report_progress_schema body of
        None \<Rightarrow> ret (Validation Schema_errors)
      | Some p \<Rightarrow> andthen (insert_event i Ev_progress (progress_payload p)) (ret (Ok ())))"

definition scrub_request :: "task_request \<Rightarrow> task_request" where
  "scrub_request q = q\<lparr>tq_title := scrub (tq_title q), tq_details := map_option scrub (tq_details q),
     tq_options := scrub_options (tq_options q)\<rparr>"

definition human :: "env \<Rightarrow> id \<Rightarrow> json \<Rightarrow> task_result callback_result handler" where
  "human E i body =
     (case request_human_schema body of
        None \<Rightarrow> ret (Validation Schema_errors)
      | Some q \<Rightarrow> bnd (create_from_request E i (scrub_request q)) (\<lambda>res. ret (Ok res)))"

section \<open>The completion gate\<close>

definition is_sha :: "string \<Rightarrow> bool" where
  "is_sha s \<longleftrightarrow> length s = 40 \<and> list_all (\<lambda>c. is_digit_char c \<or> in_range (CHR ''a'') (CHR ''f'') c) s"

definition MAX_REPOS :: nat where
  "MAX_REPOS = 20"

definition d_sha :: "string decoder" where
  "d_sha j = (case j of JStr s \<Rightarrow> if is_sha s then Some s else None | _ \<Rightarrow> None)"

text \<open>\<open>z.record\<close>: an object, its keys and values decoded.\<close>

definition d_record :: "nat \<Rightarrow> nat \<Rightarrow> 'a decoder \<Rightarrow> (string \<times> 'a) list decoder" where
  "d_record lo hi d j = (case j of
     JObj kvs \<Rightarrow>
       if list_all (\<lambda>(k, v). lo \<le> length k \<and> length k \<le> hi) kvs
       then map_option (zip (map fst kvs)) (d_list d (map snd kvs)) else None
   | _ \<Rightarrow> None)"

definition observed_heads_schema :: "(string \<times> string) list decoder" where
  "observed_heads_schema j = Option.bind (d_record 1 200 d_sha j) (\<lambda>m. if length m \<le> MAX_REPOS then Some m else None)"

definition parse_observed_heads :: "string option \<Rightarrow> (string \<times> string) list option" where
  "parse_observed_heads header =
     (case truthy header of None \<Rightarrow> None | Some h \<Rightarrow> Option.bind (json_parse h) observed_heads_schema)"

text \<open>A violation: the repository, its recorded start commit and its observed head.\<close>

definition reports_repo :: "normalized_artifact list \<Rightarrow> nat \<Rightarrow> string \<Rightarrow> bool" where
  "reports_repo arts mounted repo \<longleftrightarrow>
     (mounted = 1 \<and> arts \<noteq> [] \<and> na_repo (hd arts) = None) \<or> list_ex (\<lambda>a. na_repo a = Some repo) arts"

definition detect_handoff_violations :: "(string \<times> string) list \<Rightarrow> (string \<times> string) list option \<Rightarrow>
    normalized_artifact list \<Rightarrow> nat \<Rightarrow> (string \<times> string \<times> string) list" where
  "detect_handoff_violations start_refs observed arts mounted =
     (case observed of None \<Rightarrow> []
      | Some heads \<Rightarrow>
          List.map_filter (\<lambda>(repo, start). case map_of heads repo of None \<Rightarrow> None
            | Some head \<Rightarrow> if head = start \<or> reports_repo arts mounted repo then None else Some (repo, start, head))
          start_refs)"

definition start_ref :: "json \<Rightarrow> (string \<times> string) option" where
  "start_ref p = (if jget_str p ''source'' = Some ''start-ref''
     then (case (jget_str p ''repo'', jget_str p ''startSha'') of
             (Some r, Some s) \<Rightarrow> Some (r, s) | _ \<Rightarrow> None)
     else None)"

text \<open>The \<open>Map\<close> of a run's start-ref events: a later event of a repository replaces its commit.\<close>

definition start_refs :: "id \<Rightarrow> world \<Rightarrow> (string \<times> string) list" where
  "start_refs i w = fold (\<lambda>e m. case start_ref (e_payload e) of None \<Rightarrow> m | Some (r, s) \<Rightarrow> map_set r s m)
     (filter (\<lambda>e. e_run e = i \<and> e_type e = Ev_log) (w_events w)) []"

definition violation_json :: "string \<times> string \<times> string \<Rightarrow> json" where
  "violation_json v = (case v of (r, s, h) \<Rightarrow> JObj [(''repo'', JStr r), (''startSha'', JStr s), (''observedHead'', JStr h)])"

definition violation_message :: "(string \<times> string \<times> string) list \<Rightarrow> string" where
  "violation_message vs = ''completion rejected: unreported work in '' @
     join_with '', '' (map (\<lambda>(r, s, h). r @ '' ('' @ take 7 s @ ''... -> '' @ take 7 h @ ''...)'') vs)"

definition handoff_violation_event :: "(string \<times> string \<times> string) list \<Rightarrow> outcome \<Rightarrow> json" where
  "handoff_violation_event vs out = JObj [(''source'', JStr ''handoff-violation''), (''message'', JStr (violation_message vs)),
     (''violations'', JArr (map violation_json vs)), (''outcome'', JStr (outcome_name out))]"

definition check_handoff_gate :: "id \<Rightarrow> agent_report \<Rightarrow> string option \<Rightarrow> validation_error option handler" where
  "check_handoff_gate i rep header =
     (case parse_observed_heads header of None \<Rightarrow> ret None
      | Some heads \<Rightarrow>
          bnd (gets (start_refs i)) (\<lambda>refs.
          if refs = [] then ret None
          else let vs = detect_handoff_violations refs (Some heads) (normalize_report_artifacts rep) (length refs) in
            if vs = [] then ret None
            else andthen (insert_event i Ev_log (handoff_violation_event vs (rp_outcome rep))) (ret (Some (Handoff_errors vs)))))"

section \<open>The verification receipt\<close>

definition MAX_GATES :: nat where
  "MAX_GATES = 10"

definition MAX_GATE_NAME :: nat where
  "MAX_GATE_NAME = 120"

text \<open>One code unit stands for the ellipsis.\<close>

definition truncate_gate_name :: "string \<Rightarrow> string" where
  "truncate_gate_name name = (let t = js_trim name in
     if length t \<le> MAX_GATE_NAME then t else take (MAX_GATE_NAME - 1) t @ [CHR 0x85])"

fun collect_gates :: "string list \<Rightarrow> report_check list \<Rightarrow> string list" where
  "collect_gates gates [] = gates"
| "collect_gates gates (c # cs) =
     (let name = truncate_gate_name (c_name c) in
      if c_status c \<noteq> Pass \<or> name = [] \<or> name \<in> set gates then collect_gates gates cs
      else if MAX_GATES \<le> Suc (length gates) then gates @ [name]
      else collect_gates (gates @ [name]) cs)"

definition bounded :: "nat \<Rightarrow> string option \<Rightarrow> bool" where
  "bounded n s \<longleftrightarrow> (case s of None \<Rightarrow> True | Some x \<Rightarrow> length x \<le> n)"

definition receipt_valid :: "(id \<Rightarrow> string) \<Rightarrow> receipt \<Rightarrow> bool" where
  "receipt_valid uid v \<longleftrightarrow>
     1 \<le> length (uid (vr_run v)) \<and> length (uid (vr_run v)) \<le> 64 \<and>
     bounded 200 (vr_agent_role v) \<and> bounded 200 (vr_agent_name v) \<and>
     1 \<le> length (vr_gates v) \<and> length (vr_gates v) \<le> MAX_GATES \<and>
     list_all (\<lambda>g. 1 \<le> length g \<and> length g \<le> MAX_GATE_NAME) (vr_gates v) \<and>
     1 \<le> length (vr_repos v) \<and> length (vr_repos v) \<le> MAX_REPOS \<and>
     list_all (\<lambda>(k, s). 1 \<le> length k \<and> length k \<le> 200 \<and> is_sha s) (vr_repos v)"

definition build_verification_receipt :: "(id \<Rightarrow> string) \<Rightarrow> agent_report \<Rightarrow> (string \<times> string) list \<Rightarrow>
    id \<Rightarrow> string option \<Rightarrow> string option \<Rightarrow> int \<Rightarrow> receipt option" where
  "build_verification_receipt uid rep heads run role name now =
     (let gates = collect_gates [] (rp_checks rep);
          candidate = \<lparr>vr_run = run, vr_agent_role = role, vr_agent_name = name, vr_outcome = rp_outcome rep,
            vr_recorded_at = now, vr_gates = gates, vr_repos = heads\<rparr>
      in if heads = [] \<or> gates = [] \<or> \<not> receipt_valid uid candidate then None else Some candidate)"

text \<open>The stored receipt applies when it vouches for exactly the mounted repositories.\<close>

definition match_verification_receipt :: "receipt option \<Rightarrow> (string \<times> string) list \<Rightarrow> receipt option" where
  "match_verification_receipt stored mounted =
     (case stored of None \<Rightarrow> None
      | Some v \<Rightarrow>
          if mounted = [] \<or> length (vr_repos v) \<noteq> length mounted then None
          else if list_ex (\<lambda>(repo, sha). map_of (vr_repos v) repo \<noteq> Some sha) mounted then None
          else Some v)"

text \<open>Repository names in the order of their code units stand for \<open>localeCompare\<close>.\<close>

fun compare_names :: "string \<Rightarrow> string \<Rightarrow> int" where
  "compare_names [] [] = 0"
| "compare_names [] (d # ds) = -1"
| "compare_names (c # cs) [] = 1"
| "compare_names (c # cs) (d # ds) = (if c = d then compare_names cs ds
     else if (of_char c :: int) < of_char d then -1 else 1)"

definition receipt_event :: "receipt \<Rightarrow> json" where
  "receipt_event v =
     (let repos = join_with '', '' (map (\<lambda>(r, s). r @ ''@'' @ take 7 s) (js_sort (\<lambda>a b. compare_names (fst a) (fst b)) (vr_repos v)))
      in JObj [(''source'', JStr ''verification-receipt''),
           (''message'', JStr (''Verification receipt saved to the ticket: '' @ join_with '', '' (vr_gates v) @ '' - verified at '' @ repos)),
           (''gates'', jstrs (vr_gates v)), (''repos'', JObj (map (\<lambda>(r, s). (r, JStr s)) (vr_repos v))),
           (''outcome'', JStr (outcome_name (vr_outcome v)))])"

definition write_verification_receipt :: "(id \<Rightarrow> string) \<Rightarrow> id \<Rightarrow> agent_report \<Rightarrow> string option \<Rightarrow> unit handler" where
  "write_verification_receipt uid i rep header =
     catch (case parse_observed_heads header of None \<Rightarrow> ret ()
        | Some heads \<Rightarrow>
            bnd (gets (run_with_agent i)) (\<lambda>row.
            case Option.bind row (\<lambda>(r, a). map_option (\<lambda>tk. (tk, a)) (r_ticket r)) of None \<Rightarrow> ret ()
            | Some (tk, a) \<Rightarrow>
                bnd (gets (\<lambda>w. build_verification_receipt uid rep heads i (a_role a) (Some (a_name a)) (w_now w))) (\<lambda>receipt.
                case receipt of None \<Rightarrow> ret ()
                | Some v \<Rightarrow> andthen (update_ticket tk (\<lambda>t. t\<lparr>t_verification := Some v\<rparr>))
                    (insert_event i Ev_log (receipt_event v)))))
       (\<lambda>e. ret ())"

section \<open>The review task\<close>

definition pr_line :: "string option \<times> string \<Rightarrow> string" where
  "pr_line p = ''- '' @ (case truthy (fst p) of None \<Rightarrow> [] | Some r \<Rightarrow> r @ '': '') @ snd p"

definition review_request :: "(string option \<times> string) list \<Rightarrow> task_request" where
  "review_request prs = \<lparr>tq_kind = Review,
     tq_title = (case prs of [p] \<Rightarrow> ''Review PR: '' @ snd p | _ \<Rightarrow> ''Review PRs ('' @ show_nat (length prs) @ '')''),
     tq_details = Some (case prs of [p] \<Rightarrow> snd p | _ \<Rightarrow> join_with [CHR 0x0A] (map pr_line prs)),
     tq_blocking = False, tq_options = None\<rparr>"

definition reported_prs :: "agent_report \<Rightarrow> (string option \<times> string) list" where
  "reported_prs rep = List.map_filter (\<lambda>a. map_option (Pair (na_repo a)) (truthy (na_pr_url a))) (normalize_report_artifacts rep)"

definition maybe_queue_review_task :: "env \<Rightarrow> id \<Rightarrow> agent_report \<Rightarrow> unit handler" where
  "maybe_queue_review_task E i rep =
     (if rp_outcome rep \<noteq> Success \<or> reported_prs rep = [] then ret ()
      else bnd (gets (run_with_agent i)) (\<lambda>row.
        if Option.bind row (\<lambda>(r, a). jget_str (a_behavior a) ''code_delivery'') \<noteq> Some ''pull_request'' then ret ()
        else bnd (create_from_request E i (review_request (reported_prs rep))) (\<lambda>_. ret ())))"

section \<open>Completion\<close>

text \<open>
  The pipeline is told after the response is prepared and its failures are only logged; the
  model runs it last, with its exceptions caught.
\<close>

definition pipeline_notified :: "env \<Rightarrow> id \<Rightarrow> unit handler" where
  "pipeline_notified E i = catch (on_run_finished E i) (\<lambda>e. ret ())"

definition complete :: "(id \<Rightarrow> string) \<Rightarrow> env \<Rightarrow> id \<Rightarrow> json \<Rightarrow> string option \<Rightarrow> outcome callback_result handler" where
  "complete uid E i body header =
     (case report_schema body of
        None \<Rightarrow> ret (Validation Schema_errors)
      | Some parsed \<Rightarrow>
          let rep = scrub_agent_report parsed in
          bnd (check_handoff_gate i rep header) (\<lambda>gate.
          case gate of Some v \<Rightarrow> ret (Validation v)
          | None \<Rightarrow>
            if rp_outcome rep = Team then
              bnd (accept_team_report E i rep) (\<lambda>accepted.
              case accepted of
                Invalid issues \<Rightarrow> ret (Validation (Team_errors issues))
              | Conflict \<Rightarrow> ret Conflict_result
              | Applied n \<Rightarrow> andthen (pipeline_notified E i) (ret (Ok Team))
              | Recast_failure \<Rightarrow> andthen (pipeline_notified E i) (ret (Ok Failure)))
            else
              bnd (finalize_with_report i (report_json rep) no_extra) (\<lambda>finalized.
              if \<not> finalized then ret Conflict_result
              else andthen (write_verification_receipt uid i rep header)
                  (andthen (maybe_queue_review_task E i rep)
                  (andthen (pipeline_notified E i) (ret (Ok (rp_outcome rep))))))))"

section \<open>Steps\<close>

lemma steps_case_accept [steps_intros]:
  "(\<And>n. steps R (f n)) \<Longrightarrow> (\<And>is. steps R (g is)) \<Longrightarrow> steps R c \<Longrightarrow> steps R d \<Longrightarrow>
     steps R (case r of Applied n \<Rightarrow> f n | Invalid is \<Rightarrow> g is | Conflict \<Rightarrow> c | Recast_failure \<Rightarrow> d)"
  by (cases r) simp_all

context base_relation
begin

lemma steps_progress [steps_intros]: "steps R (progress i body)"
  unfolding progress_def by (intro steps_intros)

lemma steps_handoff_gate [steps_intros]: "steps R (check_handoff_gate i rep h)"
  unfolding check_handoff_gate_def by (intro steps_intros)

lemma steps_receipt [steps_intros]: "steps R (write_verification_receipt uid i rep h)"
  unfolding write_verification_receipt_def by (intro steps_intros)

end

context world_relation
begin

lemma steps_human [steps_intros]: "steps R (human E i body)"
  unfolding human_def by (intro steps_intros)

lemma steps_review_task [steps_intros]: "steps R (maybe_queue_review_task E i rep)"
  unfolding maybe_queue_review_task_def by (intro steps_intros)

lemma steps_notified [steps_intros]: "steps R (pipeline_notified E i)"
  unfolding pipeline_notified_def by (intro steps_intros)

lemma steps_complete [steps_intros]: "steps R (complete uid E i body h)"
  unfolding complete_def by (intro steps_intros)

end

section \<open>Properties\<close>

lemma dropWhile_none: "\<forall>c\<in>set s. \<not> P c \<Longrightarrow> dropWhile P s = s"
  by (cases s) simp_all

lemma trim_plain: "\<forall>c\<in>set s. \<not> is_space c \<Longrightarrow> js_trim s = s"
  by (simp add: js_trim_def dropWhile_none)

lemma token_char_plain: "c \<in> insert (CHR ''.'') (set b64_alphabet) \<Longrightarrow> \<not> is_space c"
  by (auto simp: b64_alphabet_def is_space_def)

lemma extract_bearer: "s \<noteq> [] \<Longrightarrow> js_trim s = s \<Longrightarrow> extract_bearer_token (Some (bearer_prefix @ s)) = Some s"
  by (cases s) (simp_all add: extract_bearer_token_def truthy_def bearer_prefix_def)

lemma bearer_of_signed:
  assumes "\<And>k s n. n \<in> set (hmac k s) \<Longrightarrow> n < 256"
  shows "extract_bearer_token (Some (bearer_prefix @ sign_run_token hmac now c secret)) = Some (sign_run_token hmac now c secret)"
proof (rule extract_bearer)
  show "sign_run_token hmac now c secret \<noteq> []" by (simp add: sign_run_token_def Let_def)
  show "js_trim (sign_run_token hmac now c secret) = sign_run_token hmac now c secret"
  proof (intro trim_plain ballI token_char_plain)
    show "x \<in> insert (CHR ''.'') (set b64_alphabet)" if "x \<in> set (sign_run_token hmac now c secret)" for x
      using subsetD [OF signed_chars [of hmac now c secret, OF assms] that] .
  qed
qed

text \<open>
  The guard follows the run, not the token: a token that was signed for a run and has not
  expired opens the callbacks of that run alone, and only while the database says the run is
  running or waiting for a person.
\<close>

theorem guard_follows_run_status:
  assumes "\<And>k s n. n \<in> set (hmac k s) \<Longrightarrow> n < 256"
    and "\<And>i j. uid i = uid j \<longleftrightarrow> i = j" and "uid i \<noteq> []"
    and "find_run i w = Some r" and "w_now w div 1000 \<le> tc_exp c" and "tc_sub c = uid j"
  shows "can_activate hmac secret uid (uid i) (Some (''Bearer '' @ sign_run_token hmac issued c secret)) w =
    (if i \<noteq> j then Inl Unauthorized
     else if r_status r = Running \<or> r_status r = Awaiting_human then Inr i else Inl Conflict_status)"
proof -
  have "jget_str (claims_json c (issued div 1000)) ''sub'' = Some (uid j)"
    using assms(6) by (simp add: claims_json_def jget_str_def)
  moreover have "run_by_uid uid (uid i) w = Some r"
    using assms(2,4) by (simp add: run_by_uid_def find_run_def)
  moreover have "r_id r = i" using assms(4) by (auto simp: find_run_def dest: find_Some_mem)
  moreover have "extract_bearer_token (Some (''Bearer '' @ sign_run_token hmac issued c secret)) = Some (sign_run_token hmac issued c secret)"
    using bearer_of_signed [of hmac, OF assms(1)] by (simp add: bearer_prefix_def)
  ultimately show ?thesis
    using assms(2) [of j i] verify_signed [of hmac "w_now w" issued c secret, OF assms(1)] assms(3,5)
    by (auto simp: can_activate_def acceptable_run_status_def)
qed

definition sample_uid :: "id \<Rightarrow> string" where
  "sample_uid i = ''run-'' @ show_nat i"

lemma show_nat_inject: "show_nat i = show_nat j \<longleftrightarrow> i = j"
  by (metis decimal_show_nat of_nat_eq_iff)

lemma sample_uid_inject: "sample_uid i = sample_uid j \<longleftrightarrow> i = j"
  by (simp add: sample_uid_def show_nat_inject)

text \<open>
  The contract of the gate. The baseline of a repository is the commit of its last start-ref event of
  the run; work is unreported when the observed head of a repository differs from its baseline and no
  entry of the report names the repository - a report without names speaks for the repository only
  when it is the only one with a baseline.
\<close>

definition baseline :: "id \<Rightarrow> world \<Rightarrow> string \<Rightarrow> string option" where
  "baseline i w = map_of (rev (List.map_filter
     (\<lambda>e. if e_run e = i \<and> e_type e = Ev_log then start_ref (e_payload e) else None) (w_events w)))"

definition unreported :: "id \<Rightarrow> world \<Rightarrow> (string \<times> string) list \<Rightarrow> normalized_artifact list \<Rightarrow>
    string \<times> string \<times> string \<Rightarrow> bool" where
  "unreported i w heads arts v \<longleftrightarrow> (case v of (repo, start, head) \<Rightarrow>
     baseline i w repo = Some start \<and> map_of heads repo = Some head \<and> head \<noteq> start \<and>
     (\<forall>a\<in>set arts. na_repo a \<noteq> Some repo) \<and>
     \<not> (dom (baseline i w) = {repo} \<and> arts \<noteq> [] \<and> na_repo (hd arts) = None))"

lemma keys_map_set: "set (map fst (map_set k v xs)) = insert k (set (map fst xs))"
  by (induction k v xs rule: map_set.induct) auto

lemma distinct_map_set: "distinct (map fst xs) \<Longrightarrow> distinct (map fst (map_set k v xs))"
  by (induction k v xs rule: map_set.induct) (auto simp: keys_map_set simp del: set_map)

lemma map_of_map_set: "map_of (map_set k v xs) = (map_of xs)(k \<mapsto> v)"
  by (induction k v xs rule: map_set.induct) auto

lemma mem_map_filter: "y \<in> set (List.map_filter f xs) \<longleftrightarrow> (\<exists>x\<in>set xs. f x = Some y)"
  by (induction xs) (auto simp: map_filter_simps split: option.splits)

lemma distinct_keys_filtered:
  assumes "\<And>x y. f x = Some y \<Longrightarrow> fst y = fst x" and "distinct (map fst xs)"
  shows "distinct (map fst (List.map_filter f xs))"
  using assms(2) by (induction xs) (fastforce simp: map_filter_simps mem_map_filter image_iff dest: assms(1) split: option.splits)+

lemma fold_start_refs:
  assumes "distinct (map fst m)"
  shows "distinct (map fst (fold (\<lambda>e m. case f e of None \<Rightarrow> m | Some (r, s) \<Rightarrow> map_set r s m) es m))"
    "map_of (fold (\<lambda>e m. case f e of None \<Rightarrow> m | Some (r, s) \<Rightarrow> map_set r s m) es m) =
       map_of m ++ map_of (rev (List.map_filter f es))"
  using assms
  by (induction es arbitrary: m) (auto simp: map_filter_simps distinct_map_set map_of_map_set map_add_def split: option.splits prod.splits)

lemma start_refs_baseline:
  "distinct (map fst (start_refs i w))" "map_of (start_refs i w) = baseline i w"
proof -
  let ?f = "\<lambda>e. start_ref (e_payload e)"
  have "List.map_filter ?f (filter (\<lambda>e. e_run e = i \<and> e_type e = Ev_log) es) =
      List.map_filter (\<lambda>e. if e_run e = i \<and> e_type e = Ev_log then start_ref (e_payload e) else None) es" for es
    by (induction es) (auto simp: map_filter_simps split: option.splits)
  from this [of "w_events w"] fold_start_refs [of "[]" ?f "filter (\<lambda>e. e_run e = i \<and> e_type e = Ev_log) (w_events w)"]
  show "distinct (map fst (start_refs i w))" "map_of (start_refs i w) = baseline i w"
    by (simp_all only: start_refs_def baseline_def list.map distinct.simps map_of.simps simp_thms empty_map_add)
qed

lemma single_baseline:
  assumes "baseline i w repo = Some start"
  shows "length (start_refs i w) = 1 \<longleftrightarrow> dom (baseline i w) = {repo}"
proof -
  have "length (start_refs i w) = card (dom (baseline i w))"
    using start_refs_baseline [of i w] by (metis distinct_card dom_map_of_conv_image_fst length_map set_map)
  moreover have "repo \<in> dom (baseline i w)" using assms by blast
  then have "card (dom (baseline i w)) = 1 \<longleftrightarrow> dom (baseline i w) = {repo}"
    by (metis card_1_singletonE is_singletonI is_singleton_altdef singletonD)
  ultimately show ?thesis by simp
qed

lemma violations_unreported:
  fixes i w heads arts
  defines "vs \<equiv> detect_handoff_violations (start_refs i w) (Some heads) arts (length (start_refs i w))"
  shows "v \<in> set vs \<longleftrightarrow> unreported i w heads arts v" "distinct (map fst vs)"
proof -
  obtain repo start head where v: "v = (repo, start, head)" by (cases v)
  have "v \<in> set vs \<longleftrightarrow> (repo, start) \<in> set (start_refs i w) \<and> map_of heads repo = Some head \<and> head \<noteq> start \<and>
      \<not> reports_repo arts (length (start_refs i w)) repo"
    by (auto simp: v vs_def detect_handoff_violations_def mem_map_filter split: option.splits if_splits intro!: bexI [of _ "(repo, start)"])
  moreover have "(repo, start) \<in> set (start_refs i w) \<longleftrightarrow> baseline i w repo = Some start"
    using start_refs_baseline [of i w] by (metis map_of_eq_Some_iff)
  ultimately show "v \<in> set vs \<longleftrightarrow> unreported i w heads arts v"
    using single_baseline [of i w repo start]
    by (cases "baseline i w repo = Some start") (auto simp: v unreported_def reports_repo_def list_ex_iff)
  show "distinct (map fst vs)"
    unfolding vs_def detect_handoff_violations_def option.case
    by (rule distinct_keys_filtered [OF _ start_refs_baseline(1)]) (auto split: prod.splits option.splits if_splits)
qed


definition sample_claims :: run_token_claims where
  "sample_claims = \<lparr>tc_sub = sample_uid 7, tc_wsp = ''w1'', tc_tkt = Some ''PRJ-1'', tc_exp = 2000\<rparr>"

theorem guard_follows_run_status_witness:
  "can_activate (\<lambda>k s. [1, 2, 255]) ''key'' sample_uid (sample_uid 7)
     (Some (''Bearer '' @ sign_run_token (\<lambda>k s. [1, 2, 255]) 0 sample_claims ''key''))
     (sample_world [sample_run 7 (Some 4) Running]) = Inr 7"
proof -
  have "\<And>n. n \<in> set [1, 2, 255] \<Longrightarrow> n < (256::nat)" by auto
  moreover have "sample_uid 7 \<noteq> []" by (simp add: sample_uid_def)
  moreover have "find_run 7 (sample_world [sample_run 7 (Some 4) Running]) = Some (sample_run 7 (Some 4) Running)"
    "w_now (sample_world [sample_run 7 (Some 4) Running]) div 1000 \<le> tc_exp sample_claims" "tc_sub sample_claims = sample_uid 7"
    by (simp_all add: find_run_def sample_defs sample_claims_def)
  ultimately show ?thesis
    using guard_follows_run_status [of "\<lambda>k s. [1, 2, 255]" sample_uid 7 "sample_world [sample_run 7 (Some 4) Running]"
        "sample_run 7 (Some 4) Running" sample_claims 7 "''key''" 0] sample_uid_inject
    by (simp add: sample_run_def)
qed

definition sample_heads :: "(string \<times> string) list" where
  "sample_heads = [(''app'', replicate 40 (CHR ''b''))]"

definition heads_text :: "(string \<times> string) list \<Rightarrow> string" where
  "heads_text hs = json_stringify (JObj (map (\<lambda>(k, s). (k, JStr s)) hs))"

definition sample_started :: world where
  "sample_started = (sample_world [sample_run 7 (Some 4) Running])\<lparr>w_events :=
     [\<lparr>e_run = 7, e_type = Ev_log, e_payload = JObj [(''source'', JStr ''start-ref''), (''repo'', JStr ''app''),
        (''startSha'', JStr (replicate 40 (CHR ''a'')))], e_created = 900\<rparr>]\<rparr>"

lemma sample_heads_parse: "parse_observed_heads (Some (heads_text sample_heads)) = Some sample_heads"
  by code_simp

lemma sample_report_scrubbed: "scrub_agent_report sample_report = sample_report"
proof -
  have "scrub ''done'' = ''done''" by code_simp
  then show ?thesis by (simp add: scrub_agent_report_def sample_report_def)
qed

lemma sample_start_refs: "start_refs 7 sample_started = [(''app'', replicate 40 (CHR ''a''))]"
  by (simp add: start_refs_def sample_started_def start_ref_def jget_str_def)

lemma sample_violations:
  "detect_handoff_violations (start_refs 7 sample_started) (Some sample_heads)
     (normalize_report_artifacts (scrub_agent_report sample_report)) (length (start_refs 7 sample_started)) =
   [(''app'', replicate 40 (CHR ''a''), replicate 40 (CHR ''b''))]"
  unfolding sample_start_refs sample_report_scrubbed by code_simp

lemma sample_baseline: "baseline 7 sample_started = [''app'' \<mapsto> replicate 40 (CHR ''a'')]"
  using start_refs_baseline(2) [of 7 sample_started] by (simp add: sample_start_refs)


lemma map_of_eq_entries:
  assumes "distinct (map fst xs)" and "distinct (map fst ys)"
  shows "length xs = length ys \<and> (\<forall>(k, v)\<in>set ys. map_of xs k = Some v) \<longleftrightarrow> map_of xs = map_of ys"
proof
  assume L: "length xs = length ys \<and> (\<forall>(k, v)\<in>set ys. map_of xs k = Some v)"
  then have sub: "set ys \<subseteq> set xs" by (auto dest: map_of_SomeD)
  moreover have "card (set xs) = card (set ys)"
    using L assms by (simp add: distinct_card distinct_map)
  ultimately have "set ys = set xs" by (simp add: card_subset_eq)
  then show "map_of xs = map_of ys" using assms by (metis map_of_inject_set)
next
  assume R: "map_of xs = map_of ys"
  then have "set xs = set ys" using assms by (metis map_of_inject_set)
  then have "length xs = length ys" using assms by (metis distinct_card distinct_map)
  then show "length xs = length ys \<and> (\<forall>(k, v)\<in>set ys. map_of xs k = Some v)"
    using R assms(2) by (auto intro: map_of_is_SomeI)
qed

text \<open>
  A stored receipt is applied exactly when it vouches for the workspace that was prepared:
  the repositories and commits it records are, as a map, the mounted ones, neither more nor less.
\<close>

theorem receipt_matches_same_workspace:
  assumes "distinct (map fst (vr_repos v))" and "distinct (map fst mounted)"
  shows "match_verification_receipt (Some v) mounted = Some v \<longleftrightarrow>
    mounted \<noteq> [] \<and> map_of (vr_repos v) = map_of mounted"
proof -
  have "list_ex (\<lambda>(repo, sha). map_of (vr_repos v) repo \<noteq> Some sha) mounted \<longleftrightarrow>
      \<not> (\<forall>(k, x)\<in>set mounted. map_of (vr_repos v) k = Some x)" by (auto simp: list_ex_iff)
  then show ?thesis
    using map_of_eq_entries [OF assms] by (auto simp: match_verification_receipt_def)
qed

theorem receipt_matches_same_workspace_witness:
  "\<exists>v. build_verification_receipt sample_uid sample_report sample_heads 7 None (Some ''Dev'') 1000 = Some v \<and>
     match_verification_receipt (Some v) sample_heads = Some v"
proof -
  have "build_verification_receipt sample_uid sample_report sample_heads 7 None (Some ''Dev'') 1000 =
      Some \<lparr>vr_run = 7, vr_agent_role = None, vr_agent_name = Some ''Dev'', vr_outcome = Success,
        vr_recorded_at = 1000, vr_gates = [''tests''], vr_repos = sample_heads\<rparr>" by code_simp
  then show ?thesis
    using receipt_matches_same_workspace [of "\<lparr>vr_run = 7, vr_agent_role = None, vr_agent_name = Some ''Dev'', vr_outcome = Success,
        vr_recorded_at = 1000, vr_gates = [''tests''], vr_repos = sample_heads\<rparr>" sample_heads]
    by (simp add: sample_heads_def)
qed

definition tight_title :: string where
  "tight_title = ''API_KEY=hunter22'' @ replicate 104 (CHR '' '')"

definition tight_report :: agent_report where
  "tight_report = sample_report\<lparr>rp_outcome := Needs_human, rp_human_task := Some \<lparr>ht_kind = Question,
     ht_title = tight_title, ht_details = None, ht_options = None\<rparr>\<rparr>"

lemma tight_title_scrubbed: "scrub tight_title = ''API_KEY=[REDACTED]'' @ replicate 104 (CHR '' '')"
  by code_simp

lemma tight_report_scrubbed:
  "scrub_agent_report tight_report = tight_report\<lparr>rp_human_task := Some \<lparr>ht_kind = Question,
     ht_title = ''API_KEY=[REDACTED]'' @ replicate 104 (CHR '' ''), ht_details = None, ht_options = None\<rparr>\<rparr>"
proof -
  have "scrub ''done'' = ''done''" by code_simp
  then show ?thesis
    by (simp add: scrub_agent_report_def scrub_human_task_def scrub_options_def tight_title_scrubbed tight_report_def sample_report_def)
qed

text \<open>
  Scrubbing can push an accepted report over a length limit: the placeholder is longer than the
  shortest secret it replaces, so a report that passed the schema is refused when the finalization
  parses it again, and the call throws instead of answering.
\<close>

theorem scrubbing_can_break_the_limit:
  "report_schema (report_json tight_report) = Some tight_report \<and>
   report_schema (report_json (scrub_agent_report tight_report)) = None \<and>
   (\<exists>e. complete sample_uid sample_env 7 (report_json tight_report) None (sample_world [sample_run 7 (Some 4) Running]) =
     (Inl e, sample_world [sample_run 7 (Some 4) Running]))"
proof -
  have 1: "report_schema (report_json tight_report) = Some tight_report" by code_simp
  have 2: "report_schema (report_json (scrub_agent_report tight_report)) = None"
    unfolding tight_report_scrubbed by code_simp
  have 3: "rp_outcome (scrub_agent_report tight_report) = Needs_human"
    unfolding tight_report_scrubbed by (simp add: tight_report_def)
  show ?thesis
    using 1 2 3 by (simp add: complete_def check_handoff_gate_def parse_observed_heads_def truthy_def
        finalize_with_report_def parse_report_def Let_def act_simps)
qed

end
