(* ===== verification/PriorWork.thy ===== *)
theory PriorWork
  imports RepoScope Callback
begin

text \<open>
  Where a run starts (\<open>prior-work.ts\<close>, \<open>blocker-tasks.ts\<close> and the inheritance part of
  \<open>claude-cli.executor.ts\<close>): the branches earlier runs of the ticket reported, the unmerged work of
  the tickets that block it, the plan per repository, and what happens when a blocker left nothing
  usable. Dictionaries keyed by repository name are maps; whether a branch is on origin is git's
  answer, an argument.
\<close>

section \<open>The ticket's own work\<close>

definition SCAN_WINDOW :: nat where
  "SCAN_WINDOW = 5"

definition branch_entries :: "agent_report option \<Rightarrow> normalized_artifact list" where
  "branch_entries rep = (case rep of None \<Rightarrow> []
     | Some r \<Rightarrow> filter (\<lambda>a. truthy (na_branch a) \<noteq> None) (normalize_report_artifacts r))"

record prior_work =
  pw_run :: id
  pw_entries :: "normalized_artifact list"

text \<open>The succeeded runs of a ticket, newest first, the first \<open>SCAN_WINDOW\<close> of them.\<close>

definition recent_successes :: "id \<Rightarrow> (run \<Rightarrow> bool) \<Rightarrow> world \<Rightarrow> run list" where
  "recent_successes tk P w = take SCAN_WINDOW
     (sort_key (\<lambda>r. - r_created r) (filter (\<lambda>r. r_ticket r = Some tk \<and> r_status r = Succeeded \<and> P r) (w_runs w)))"

definition first_reported :: "run list \<Rightarrow> (id \<times> normalized_artifact list) option" where
  "first_reported rs = find (\<lambda>(i, es). es \<noteq> []) (map (\<lambda>r. (r_id r, branch_entries (r_report r))) rs)"

definition get_prior_work :: "id \<Rightarrow> id \<Rightarrow> id option \<Rightarrow> world \<Rightarrow> prior_work option" where
  "get_prior_work tk current prefer w =
     (let named = (if prefer = None \<or> prefer = Some current then None
            else case find_run (the prefer) w of None \<Rightarrow> None
              | Some r \<Rightarrow> (let es = branch_entries (r_report r) in if es = [] then None else Some (r_id r, es)))
      in map_option (\<lambda>(i, es). \<lparr>pw_run = i, pw_entries = es\<rparr>)
           (case named of Some x \<Rightarrow> Some x
            | None \<Rightarrow> first_reported (recent_successes tk (\<lambda>r. r_id r \<noteq> current) w)))"

text \<open>\<open>resolveEntries\<close>: the mounted repository an entry names, by exact name or else by letter case.\<close>

definition resolve_entry :: "worktree_repo list \<Rightarrow> normalized_artifact \<Rightarrow> string option" where
  "resolve_entry repos e =
     (case na_repo e of
        None \<Rightarrow> (case repos of [r] \<Rightarrow> Some (wr_name r) | _ \<Rightarrow> None)
      | Some n \<Rightarrow>
          (case find (\<lambda>r. wr_name r = n) repos of Some r \<Rightarrow> Some (wr_name r)
           | None \<Rightarrow> map_option wr_name (find (\<lambda>r. to_lower (wr_name r) = to_lower n) (rev repos))))"

definition resolve_entries :: "normalized_artifact list \<Rightarrow> worktree_repo list \<Rightarrow>
    (normalized_artifact \<times> string \<times> string option) list" where
  "resolve_entries es repos =
     List.map_filter (\<lambda>e. map_option (\<lambda>b. (e, b, resolve_entry repos e)) (truthy (na_branch e))) es"

record branch_match =
  bm_continue :: "string \<rightharpoonup> string"
  bm_unmatched :: "string list"

definition reported_name :: "normalized_artifact \<Rightarrow> string \<Rightarrow> string" where
  "reported_name e branch = (case na_repo e of Some n \<Rightarrow> n | None \<Rightarrow> branch)"

definition match_reported_branches :: "normalized_artifact list \<Rightarrow> worktree_repo list \<Rightarrow> branch_match" where
  "match_reported_branches es repos =
     foldl (\<lambda>m (e, branch, name). case name of
         None \<Rightarrow> m\<lparr>bm_unmatched := bm_unmatched m @ [reported_name e branch]\<rparr>
       | Some n \<Rightarrow> if bm_continue m n = None then m\<lparr>bm_continue := (bm_continue m)(n \<mapsto> branch)\<rparr> else m)
       \<lparr>bm_continue = (\<lambda>_. None), bm_unmatched = []\<rparr> (resolve_entries es repos)"

section \<open>The work of the blockers\<close>

record blocker_work =
  bw_key :: string
  bw_run :: id
  bw_entries :: "normalized_artifact list"

datatype miss_reason = No_ticket | No_artifacts

text \<open>\<open>new Set(xs)\<close> in the order of first insertion.\<close>

definition js_unique :: "string list \<Rightarrow> string list" where
  "js_unique xs = rev (remdups (rev xs))"

definition blocker_of :: "id \<Rightarrow> id \<Rightarrow> world \<Rightarrow> string \<Rightarrow> blocker_work + (string \<times> miss_reason)" where
  "blocker_of ws current w key =
     (case find (\<lambda>t. t_workspace t = ws \<and> t_jira_key t = key \<and> t_id t \<noteq> current) (w_tickets w) of
        None \<Rightarrow> Inr (key, No_ticket)
      | Some t \<Rightarrow> (case first_reported (recent_successes (t_id t) (\<lambda>_. True) w) of
            Some (i, es) \<Rightarrow> Inl \<lparr>bw_key = key, bw_run = i, bw_entries = es\<rparr>
          | None \<Rightarrow> Inr (key, No_artifacts)))"

definition get_blocker_work :: "id \<Rightarrow> string list \<Rightarrow> id \<Rightarrow> world \<Rightarrow> blocker_work list \<times> (string \<times> miss_reason) list" where
  "get_blocker_work ws blocked_by current w =
     (let answers = map (blocker_of ws current w) (filter (\<lambda>k. k \<noteq> []) (js_unique blocked_by))
      in (List.map_filter (\<lambda>a. case a of Inl b \<Rightarrow> Some b | Inr m \<Rightarrow> None) answers,
          List.map_filter (\<lambda>a. case a of Inl b \<Rightarrow> None | Inr m \<Rightarrow> Some m) answers))"

section \<open>The start plan\<close>

datatype start_source = From_own | From_blocker | From_default

record blocker_branch =
  bb_key :: string
  bb_run :: id
  bb_branch :: string

record repo_start_plan =
  sp_source :: start_source
  sp_start :: "string option"
  sp_merge :: "string list"
  sp_blockers :: "blocker_branch list"

record unmounted_work =
  uw_key :: string
  uw_run :: id
  uw_repo :: string
  uw_branch :: string

record start_plan =
  pl_repos :: "string \<rightharpoonup> repo_start_plan"
  pl_unmounted :: "unmounted_work list"
  pl_unmatched :: "string list"

definition default_plan :: repo_start_plan where
  "default_plan = \<lparr>sp_source = From_default, sp_start = None, sp_merge = [], sp_blockers = []\<rparr>"

definition own_plan :: "branch_match \<Rightarrow> string \<Rightarrow> repo_start_plan" where
  "own_plan own name = (case truthy (bm_continue own name) of
     Some b \<Rightarrow> \<lparr>sp_source = From_own, sp_start = Some b, sp_merge = [], sp_blockers = []\<rparr>
   | None \<Rightarrow> default_plan)"

text \<open>One blocker naming a branch for a mounted repository.\<close>

definition add_blocker_branch :: "blocker_branch \<Rightarrow> repo_start_plan \<Rightarrow> repo_start_plan" where
  "add_blocker_branch b p =
     (case sp_source p of
        From_own \<Rightarrow> p
      | From_default \<Rightarrow> p\<lparr>sp_source := From_blocker, sp_start := Some (bb_branch b), sp_blockers := [b]\<rparr>
      | From_blocker \<Rightarrow>
          if sp_start p = Some (bb_branch b) \<or> bb_branch b \<in> set (sp_merge p) then p
          else p\<lparr>sp_merge := sp_merge p @ [bb_branch b], sp_blockers := sp_blockers p @ [b]\<rparr>)"

definition plan_entry :: "blocker_work \<Rightarrow> start_plan \<Rightarrow> normalized_artifact \<times> string \<times> string option \<Rightarrow> start_plan" where
  "plan_entry bw pl x = (case x of (e, branch, name) \<Rightarrow>
     (case name of
        None \<Rightarrow> pl\<lparr>pl_unmounted := pl_unmounted pl @
          [\<lparr>uw_key = bw_key bw, uw_run = bw_run bw, uw_repo = reported_name e branch, uw_branch = branch\<rparr>]\<rparr>
      | Some n \<Rightarrow> pl\<lparr>pl_repos := (pl_repos pl)(n :=
          map_option (add_blocker_branch \<lparr>bb_key = bw_key bw, bb_run = bw_run bw, bb_branch = branch\<rparr>) (pl_repos pl n))\<rparr>))"

definition build_start_plan :: "worktree_repo list \<Rightarrow> branch_match \<Rightarrow> blocker_work list \<Rightarrow> start_plan" where
  "build_start_plan repos own work =
     foldl (\<lambda>pl bw. foldl (plan_entry bw) pl (resolve_entries (bw_entries bw) repos))
       \<lparr>pl_repos = (\<lambda>n. if n \<in> wr_name ` set repos then Some (own_plan own n) else None),
        pl_unmounted = [], pl_unmatched = bm_unmatched own\<rparr> work"

section \<open>What the plan is\<close>

text \<open>The branches the blockers name for a repository, in their order; each branch once, under its first blocker.\<close>

definition named_branches :: "string \<Rightarrow> worktree_repo list \<Rightarrow> blocker_work list \<Rightarrow> blocker_branch list" where
  "named_branches n repos work = concat (map (\<lambda>bw. List.map_filter
     (\<lambda>(e, branch, name). if name = Some n then Some \<lparr>bb_key = bw_key bw, bb_run = bw_run bw, bb_branch = branch\<rparr> else None)
     (resolve_entries (bw_entries bw) repos)) work)"

definition keep_first :: "blocker_branch list \<Rightarrow> blocker_branch \<Rightarrow> blocker_branch list" where
  "keep_first ds b = (if bb_branch b \<in> bb_branch ` set ds then ds else ds @ [b])"

definition blocker_plan :: "blocker_branch list \<Rightarrow> repo_start_plan" where
  "blocker_plan ds = (case ds of [] \<Rightarrow> default_plan
     | b # bs \<Rightarrow> \<lparr>sp_source = From_blocker, sp_start = Some (bb_branch b), sp_merge = map bb_branch bs, sp_blockers = ds\<rparr>)"

lemma add_to_blocker_plan: "add_blocker_branch b (blocker_plan ds) = blocker_plan (keep_first ds b)"
  by (cases ds) (auto simp: blocker_plan_def add_blocker_branch_def keep_first_def default_plan_def)

lemma add_to_own: "sp_source p = From_own \<Longrightarrow> foldl (\<lambda>p b. add_blocker_branch b p) p bs = p"
  by (induction bs) (auto simp: add_blocker_branch_def)

lemma add_all_blockers: "foldl (\<lambda>p b. add_blocker_branch b p) (blocker_plan ds) bs = blocker_plan (foldl keep_first ds bs)"
  by (induction bs arbitrary: ds) (auto simp: add_to_blocker_plan)

lemma plan_entries: "pl_repos (foldl (plan_entry bw) pl xs) n =
    map_option (\<lambda>p. foldl (\<lambda>p b. add_blocker_branch b p) p (List.map_filter
      (\<lambda>(e, branch, name). if name = Some n then Some \<lparr>bb_key = bw_key bw, bb_run = bw_run bw, bb_branch = branch\<rparr> else None) xs))
    (pl_repos pl n)"
proof (induction xs arbitrary: pl)
  case (Cons x xs)
  obtain e branch name where x: "x = (e, branch, name)" by (metis prod_cases3)
  show ?case unfolding foldl_Cons Cons.IH
    by (cases name) (auto simp: x plan_entry_def map_filter_simps option.map_comp comp_def)
qed (simp add: map_filter_simps option.map_ident)

lemma plan_blockers: "pl_repos (foldl (\<lambda>pl bw. foldl (plan_entry bw) pl (resolve_entries (bw_entries bw) repos)) pl work) n =
    map_option (\<lambda>p. foldl (\<lambda>p b. add_blocker_branch b p) p (named_branches n repos work)) (pl_repos pl n)"
  by (induction work arbitrary: pl) (simp_all add: plan_entries named_branches_def option.map_ident option.map_comp comp_def)

lemma start_plan_spec:
  "pl_repos (build_start_plan repos own work) n =
    (if n \<notin> wr_name ` set repos then None
     else Some (case truthy (bm_continue own n) of
         Some b \<Rightarrow> \<lparr>sp_source = From_own, sp_start = Some b, sp_merge = [], sp_blockers = []\<rparr>
       | None \<Rightarrow> blocker_plan (foldl keep_first [] (named_branches n repos work))))"
proof -
  have none: "default_plan = blocker_plan []" by (simp add: blocker_plan_def)
  show ?thesis
    unfolding build_start_plan_def plan_blockers own_plan_def
    by (cases "truthy (bm_continue own n)") (simp_all add: add_to_own none add_all_blockers)
qed

text \<open>
  C14. The layered start resolution: a repository the run does not mount has no plan; one the ticket's
  own work names starts on that branch and merges nothing; any other starts on the first branch a
  blocker names for it, in the order of the blockers, with every further distinct one queued as a
  merge in that order; and on its default branch when no blocker names it.
\<close>

theorem start_plan_layers:
  "pl_repos (build_start_plan repos own work) n =
    (if n \<notin> wr_name ` set repos then None
     else Some (case truthy (bm_continue own n) of
         Some b \<Rightarrow> \<lparr>sp_source = From_own, sp_start = Some b, sp_merge = [], sp_blockers = []\<rparr>
       | None \<Rightarrow> blocker_plan (foldl keep_first [] (named_branches n repos work))))"
  by (rule start_plan_spec)

lemma keep_first_distinct: "distinct (map bb_branch ds) \<Longrightarrow> distinct (map bb_branch (foldl keep_first ds bs))"
  by (induction bs arbitrary: ds) (auto simp: keep_first_def)

lemma keep_first_subset: "set (foldl keep_first ds bs) \<subseteq> set ds \<union> set bs"
proof (induction bs arbitrary: ds)
  case (Cons b bs)
  have "set (keep_first ds b) \<subseteq> insert b (set ds)" by (auto simp: keep_first_def)
  then show ?case using Cons [of "keep_first ds b"] by auto
qed simp

section \<open>Notices to a person\<close>

definition branch_lost_title :: "string \<Rightarrow> string \<Rightarrow> string \<Rightarrow> string" where
  "branch_lost_title key blocker repo = ''[blocker_branch_lost] '' @ key @ '': no usable branch from '' @ blocker @ '' for '' @ repo"

definition code_quoted :: "string \<Rightarrow> string" where
  "code_quoted s = [CHR 0x60] @ s @ [CHR 0x60]"

definition apos_s :: string where
  "apos_s = CHR 0x27 # ''s''"

definition branch_lost_details :: "string \<Rightarrow> string \<Rightarrow> string \<Rightarrow> string \<Rightarrow> string \<Rightarrow> string" where
  "branch_lost_details key blocker repo status branch = join_with newline
     [''**'' @ key @ ''** is blocked by **'' @ blocker @ ''**, which is still open (status '' @ code_quoted status @
        ''), but no branch of its work could be found for repository '' @ code_quoted repo @ ''.'',
      [],
      ''The run started from '' @ code_quoted branch @ '' instead, so it does **not** contain '' @ blocker @ apos_s @ '' changes.'',
      [],
      ''What to check:'',
      ''- Did '' @ blocker @ apos_s @ '' run push its branch, and does the branch still exist on origin?'',
      ''- Does '' @ blocker @ apos_s @ '' report name '' @ code_quoted repo @ '' in '' @ code_quoted ''artifacts.repos'' @ ''?'',
      ''- If the work is genuinely elsewhere, re-run '' @ key @ '' once the branch is pushed.'']"

definition merge_conflict_title :: "string \<Rightarrow> string \<Rightarrow> string" where
  "merge_conflict_title key repo = ''[blocker_merge_conflict] '' @ key @ '': blocker branches conflict in '' @ repo"

definition merge_conflict_details :: "string \<Rightarrow> string \<Rightarrow> string \<Rightarrow> string list \<Rightarrow> string list \<Rightarrow> string" where
  "merge_conflict_details key repo start merges blockers = join_with newline
     ([''**'' @ key @ ''** inherits work from several blockers ('' @ join_with '', '' blockers @ '') in repository '' @ code_quoted repo @
         '', and their branches do not merge cleanly. **The run failed before the agent started** - nothing was committed, pushed, or resolved automatically.'',
       [],
       ''Merge order attempted:'',
       ''1. '' @ code_quoted start @ '' (start point)''] @
      map (\<lambda>(i, b). show_nat (i + 2) @ ''. '' @ code_quoted b) (enumerate 0 merges) @
      [[],
       ''How to fix:'',
       ''- Reconcile the blocker branches yourself (merge one into the other and push), then'',
       ''- re-trigger '' @ key @ ''; it will start from the reconciled branch.''])"

definition repo_unmounted_title :: "string \<Rightarrow> string \<Rightarrow> string \<Rightarrow> string" where
  "repo_unmounted_title key blocker repo =
     ''[blocker_repo_unmounted] '' @ key @ '': blocker '' @ blocker @ '' has work in unmounted '' @ repo"

definition repo_unmounted_details :: "string \<Rightarrow> string \<Rightarrow> string \<Rightarrow> string" where
  "repo_unmounted_details key blocker repo = join_with newline
     [''**'' @ blocker @ ''** reported work in repository '' @ code_quoted repo @ '', which the run for **'' @ key @
        ''** does not mount - so that work is invisible to the agent.'',
      [],
      ''Either fix works:'',
      ''- add the Jira Component that maps to '' @ code_quoted repo @ '' to **'' @ key @ ''**, or'',
      ''- widen the agent'' @ apos_s @ '' repository scope ('' @ code_quoted ''behavior.repositories'' @ '') to include '' @ code_quoted repo @ ''.'',
      [],
      ''Repository mounting is never widened automatically - inheritance follows the scope, it does not override it.'']"

text \<open>\<open>raiseBlockerTask\<close>: never fatal.\<close>

definition raise_blocker_task :: "id \<Rightarrow> id \<Rightarrow> string \<Rightarrow> string \<Rightarrow> unit handler" where
  "raise_blocker_task ws tk title details =
     catch (bnd (create_keyed_ticket_task ws tk title (Some details)) (\<lambda>created. ret ())) (\<lambda>e. ret ())"

definition record_blocker_drop_event :: "id \<Rightarrow> string \<Rightarrow> (string \<times> json) list \<Rightarrow> unit handler" where
  "record_blocker_drop_event i decision payload =
     insert_event i Ev_log (JObj ([(''source'', JStr ''start-ref''), (''decision'', JStr decision)] @ payload))"

section \<open>Blockers without a usable branch\<close>

record dropped_blocker =
  dr_key :: string
  dr_repo :: "string option"
  dr_branch :: "string option"
  dr_status :: "string option"

fun category_key :: "status_category \<Rightarrow> string" where
  "category_key Cat_new = ''new''"
| "category_key Cat_indeterminate = ''indeterminate''"
| "category_key Cat_done = ''done''"

text \<open>
  \<open>fetchBlockerStatuses\<close>: one search through the injected client, which is built for the first
  workspace row; the name and the category of a status are packed into one string.
\<close>

definition packed_status :: "jira_issue \<Rightarrow> string" where
  "packed_status i = i_status i @ ''|'' @ category_key (i_category i)"

definition no_workspace_error :: error where
  "no_workspace_error = mk_error Other_failure ''no workspace configured - cannot build a Jira client''"

definition status_failure :: "string list \<Rightarrow> error \<Rightarrow> error" where
  "status_failure keys e = mk_error Other_failure
     (''could not read the status of blocker(s) ['' @ join_with '', '' keys @
      ''] from Jira - refusing to guess whether their branches should still exist: '' @ en_message e)"

definition fetch_blocker_statuses :: "env \<Rightarrow> string list \<Rightarrow> (string \<rightharpoonup> string) handler" where
  "fetch_blocker_statuses E keys =
     catch
       (bnd (gets w_workspaces) (\<lambda>wss.
        case wss of [] \<Rightarrow> throw no_workspace_error
        | s # _ \<Rightarrow>
            bnd (jira_search_updated E (s_id s) (''key in ('' @ join_with '', '' keys @ '')'') [''status'']) (\<lambda>issues.
            ret (map_of (rev (map (\<lambda>i. (i_key i, packed_status i)) issues))))))
       (\<lambda>e. throw (status_failure keys e))"

fun split_char :: "char \<Rightarrow> string \<Rightarrow> string list" where
  "split_char c [] = [[]]"
| "split_char c (x # xs) = (if x = c then [] # split_char c xs
     else case split_char c xs of [] \<Rightarrow> [[x]] | y # ys \<Rightarrow> (x # y) # ys)"

text \<open>\<open>const [statusName, category] = (d.status ?? '|').split('|')\<close>.\<close>

definition unpack_status :: "string option \<Rightarrow> string \<times> string" where
  "unpack_status s = (let ps = split_char (CHR ''|'') (case s of None \<Rightarrow> ''|'' | Some x \<Rightarrow> x) in (ps ! 0, ps ! 1))"

definition or_text :: "string \<Rightarrow> string \<Rightarrow> string" where
  "or_text s t = (if s = [] then t else s)"

definition dropped_repo_name :: "worktree_repo list \<Rightarrow> dropped_blocker \<Rightarrow> string" where
  "dropped_repo_name repos d = (case dr_repo d of Some r \<Rightarrow> r | None \<Rightarrow> join_with '', '' (map wr_name repos))"

definition dropped_default :: "worktree_repo list \<Rightarrow> dropped_blocker \<Rightarrow> string" where
  "dropped_default repos d = (case find (\<lambda>r. Some (wr_name r) = dr_repo d) repos of
     Some r \<Rightarrow> wr_default_branch r | None \<Rightarrow> ''the default branch'')"

definition dropped_payload :: "dropped_blocker \<Rightarrow> string \<Rightarrow> (string \<times> json) list" where
  "dropped_payload d message =
     [(''repo'', jopt JStr (dr_repo d)),
      (''blockers'', JArr [JObj [(''key'', JStr (dr_key d)), (''branch'', jopt JStr (dr_branch d))]]),
      (''message'', JStr message)]"

definition this_runs_repositories :: string where
  "this_runs_repositories = ''this run'' @ apos_s @ '' repositories''"

definition apply_missing_branch :: "id \<Rightarrow> string \<Rightarrow> id \<Rightarrow> id \<Rightarrow> worktree_repo list \<Rightarrow> dropped_blocker \<Rightarrow> unit handler" where
  "apply_missing_branch i key ws tk repos d =
     (case unpack_status (dr_status d) of (name, category) \<Rightarrow>
        let repo = dropped_repo_name repos d; branch = dropped_default repos d in
        if category = ''done'' then
          record_blocker_drop_event i ''blocker_branch_merged'' (dropped_payload d
            (repo @ '': '' @ dr_key d @ '' is done and left no branch on origin - its work is already in '' @ branch @ ''; starting there.''))
        else
          andthen (record_blocker_drop_event i ''blocker_no_artifact'' (dropped_payload d
            (repo @ '': '' @ dr_key d @ '' is still open ('' @ or_text name ''status unknown'' @
             '') but left no usable branch - starting from '' @ branch @ '' WITHOUT its work.'')))
          (let shown = (case dr_repo d of Some r \<Rightarrow> r | None \<Rightarrow> this_runs_repositories) in
           raise_blocker_task ws tk (branch_lost_title key (dr_key d) shown)
             (branch_lost_details key (dr_key d) shown (or_text name ''unknown'') branch)))"

definition apply_missing_branch_matrix ::
  "id \<Rightarrow> string \<Rightarrow> id \<Rightarrow> id \<Rightarrow> worktree_repo list \<Rightarrow> dropped_blocker list \<Rightarrow> unit handler" where
  "apply_missing_branch_matrix i key ws tk repos ds = for_each ds (apply_missing_branch i key ws tk repos)"

definition unmounted_payload :: "string \<Rightarrow> unmounted_work \<Rightarrow> (string \<times> json) list" where
  "unmounted_payload key u =
     [(''repo'', JStr (uw_repo u)),
      (''blockers'', JArr [JObj [(''key'', JStr (uw_key u)), (''branch'', JStr (uw_branch u))]]),
      (''message'', JStr (uw_key u @ '' reported work in '' @ [CHR 0x22] @ uw_repo u @ [CHR 0x22] @
         '', which this run does not mount - add the matching Component to '' @ key @ '', or widen the agent'' @ apos_s @ '' repository scope.''))]"

definition report_unmounted :: "id \<Rightarrow> string \<Rightarrow> id \<Rightarrow> id \<Rightarrow> unmounted_work \<Rightarrow> unit handler" where
  "report_unmounted i key ws tk u =
     andthen (record_blocker_drop_event i ''blocker_artifacts_unmounted'' (unmounted_payload key u))
       (raise_blocker_task ws tk (repo_unmounted_title key (uw_key u) (uw_repo u))
         (repo_unmounted_details key (uw_key u) (uw_repo u)))"

definition report_unmounted_blocker_work :: "id \<Rightarrow> string \<Rightarrow> id \<Rightarrow> id \<Rightarrow> start_plan \<Rightarrow> unit handler" where
  "report_unmounted_blocker_work i key ws tk pl = for_each (pl_unmounted pl) (report_unmounted i key ws tk)"

section \<open>Inheritance\<close>

record linked_entry =
  le_key :: string
  le_status :: string
  le_branch :: "string option"
  le_pr_url :: "string option"

definition build_linked_tickets :: "string list \<Rightarrow> blocker_work list \<Rightarrow> (string \<rightharpoonup> string) \<Rightarrow> linked_entry list" where
  "build_linked_tickets keys work statuses =
     map (\<lambda>key. let e = Option.bind (find (\<lambda>b. bw_key b = key) (rev work))
                  (\<lambda>b. find (\<lambda>e. truthy (na_branch e) \<noteq> None) (bw_entries b)) in
            \<lparr>le_key = key,
             le_status = or_text (hd (split_char (CHR ''|'') (case statuses key of None \<Rightarrow> [] | Some s \<Rightarrow> s))) ''unknown'',
             le_branch = Option.bind e (\<lambda>e. truthy (na_branch e)),
             le_pr_url = Option.bind e (\<lambda>e. truthy (na_pr_url e))\<rparr>)
       (js_sort compare_names keys)"

record inheritance =
  in_continue :: "string \<rightharpoonup> string"
  in_merge :: "string \<rightharpoonup> string list"
  in_plan :: start_plan
  in_dropped :: "dropped_blocker list"
  in_unmounted :: "unmounted_work list"
  in_linked :: "linked_entry list"

definition nothing_inherited :: "branch_match \<Rightarrow> inheritance" where
  "nothing_inherited own = \<lparr>in_continue = bm_continue own, in_merge = (\<lambda>_. None),
     in_plan = \<lparr>pl_repos = (\<lambda>_. None), pl_unmounted = [], pl_unmatched = bm_unmatched own\<rparr>,
     in_dropped = [], in_unmounted = [], in_linked = []\<rparr>"

text \<open>A plan after the probes of origin: the blockers whose branch is gone drop out.\<close>

definition surviving_plan :: "(string \<Rightarrow> bool) \<Rightarrow> repo_start_plan \<Rightarrow> repo_start_plan" where
  "surviving_plan on_origin p =
     (case filter (\<lambda>b. on_origin (bb_branch b)) (sp_blockers p) of
        [] \<Rightarrow> default_plan
      | b # bs \<Rightarrow> p\<lparr>sp_start := Some (bb_branch b), sp_merge := map bb_branch bs, sp_blockers := b # bs\<rparr>)"

definition gone_blockers :: "(string \<Rightarrow> bool) \<Rightarrow> string \<Rightarrow> (string \<rightharpoonup> string) \<Rightarrow> repo_start_plan \<Rightarrow> dropped_blocker list" where
  "gone_blockers on_origin name statuses p =
     map (\<lambda>b. \<lparr>dr_key = bb_key b, dr_repo = Some name, dr_branch = Some (bb_branch b), dr_status = statuses (bb_key b)\<rparr>)
       (filter (\<lambda>b. \<not> on_origin (bb_branch b)) (sp_blockers p))"

definition drop_gone :: "(string \<Rightarrow> string \<Rightarrow> bool) \<Rightarrow> (string \<rightharpoonup> string) \<Rightarrow>
    start_plan \<times> dropped_blocker list \<Rightarrow> worktree_repo \<Rightarrow> start_plan \<times> dropped_blocker list" where
  "drop_gone probe statuses acc r =
     (case acc of (pl, ds) \<Rightarrow>
        (case pl_repos pl (wr_name r) of None \<Rightarrow> acc
         | Some p \<Rightarrow>
             if sp_source p \<noteq> From_blocker then acc
             else (pl\<lparr>pl_repos := (pl_repos pl)(wr_name r \<mapsto> surviving_plan (probe (wr_name r)) p)\<rparr>,
                   ds @ gone_blockers (probe (wr_name r)) (wr_name r) statuses p)))"

definition missing_blockers :: "(string \<rightharpoonup> string) \<Rightarrow> (string \<times> miss_reason) list \<Rightarrow> dropped_blocker list" where
  "missing_blockers statuses ms =
     map (\<lambda>(key, why). \<lparr>dr_key = key, dr_repo = None, dr_branch = None, dr_status = statuses key\<rparr>) ms"

definition inherited_branches :: "branch_match \<Rightarrow> start_plan \<Rightarrow> string \<rightharpoonup> string" where
  "inherited_branches own pl n =
     (case pl_repos pl n of Some p \<Rightarrow>
        if sp_source p = From_blocker \<and> truthy (sp_start p) \<noteq> None then sp_start p else bm_continue own n
      | None \<Rightarrow> bm_continue own n)"

definition inherited_merges :: "start_plan \<Rightarrow> string \<rightharpoonup> string list" where
  "inherited_merges pl n =
     (case pl_repos pl n of Some p \<Rightarrow>
        if sp_source p = From_blocker \<and> truthy (sp_start p) \<noteq> None \<and> sp_merge p \<noteq> [] then Some (sp_merge p) else None
      | None \<Rightarrow> None)"

definition apply_plan :: "(string \<Rightarrow> string \<Rightarrow> bool) \<Rightarrow> id \<Rightarrow> string \<Rightarrow> id \<Rightarrow> id \<Rightarrow> worktree_repo list \<Rightarrow> branch_match \<Rightarrow>
    string list \<Rightarrow> blocker_work list \<Rightarrow> (string \<times> miss_reason) list \<Rightarrow> (string \<rightharpoonup> string) \<Rightarrow> inheritance handler" where
  "apply_plan probe i key tk ws repos own keys found missing statuses =
     (case foldl (drop_gone probe statuses) (build_start_plan repos own found, []) repos of (pl, gone) \<Rightarrow>
        let dropped = gone @ missing_blockers statuses missing in
        andthen (apply_missing_branch_matrix i key ws tk repos dropped)
        (andthen (report_unmounted_blocker_work i key ws tk pl)
        (ret \<lparr>in_continue = inherited_branches own pl, in_merge = inherited_merges pl, in_plan = pl,
              in_dropped = dropped, in_unmounted = pl_unmounted pl,
              in_linked = build_linked_tickets keys found statuses\<rparr>)))"

definition blocker_keys :: "id \<Rightarrow> world \<Rightarrow> string list" where
  "blocker_keys tk w = js_sort compare_names (case Option.bind (find_ticket tk w) t_blocked_by of None \<Rightarrow> [] | Some ks \<Rightarrow> ks)"

definition resolve_inheritance :: "env \<Rightarrow> (string \<Rightarrow> string \<Rightarrow> bool) \<Rightarrow> id \<Rightarrow> (string \<times> id) option \<Rightarrow> id \<Rightarrow>
    worktree_repo list \<Rightarrow> branch_match \<Rightarrow> inheritance handler" where
  "resolve_inheritance E probe i ticket ws repos own =
     (case ticket of None \<Rightarrow> ret (nothing_inherited own)
      | Some (key, tk) \<Rightarrow>
          bnd (gets (blocker_keys tk)) (\<lambda>keys.
          if keys = [] then ret (nothing_inherited own)
          else
            bnd (gets (get_blocker_work ws keys tk)) (\<lambda>(found, missing).
            if found = [] \<and> missing = [] then ret (nothing_inherited own)
            else
              bnd (fetch_blocker_statuses E keys) (apply_plan probe i key tk ws repos own keys found missing))))"

context world_relation
begin

lemma steps_raise_task [steps_intros]: "steps R (raise_blocker_task ws tk t d)"
  unfolding raise_blocker_task_def by (intro steps_intros)

lemma steps_fetch_statuses [steps_intros]: "steps R (fetch_blocker_statuses E ks)"
  unfolding fetch_blocker_statuses_def by (intro steps_intros)

lemma steps_missing_branch [steps_intros]:
  "steps R (apply_missing_branch i key ws tk repos d)" "steps R (report_unmounted_blocker_work i key ws tk pl)"
  unfolding apply_missing_branch_def report_unmounted_blocker_work_def report_unmounted_def record_blocker_drop_event_def Let_def
  by (intro steps_intros)+

lemma steps_inheritance [steps_intros]: "steps R (resolve_inheritance E probe i ticket ws repos own)"
  unfolding resolve_inheritance_def apply_plan_def apply_missing_branch_matrix_def Let_def by (intro steps_intros)

end

section \<open>Inheritance follows origin and the ticket's own work\<close>

lemma surviving_source: "sp_source p = From_blocker \<Longrightarrow>
    sp_source (surviving_plan f p) = From_default \<and> surviving_plan f p = default_plan \<or>
    sp_source (surviving_plan f p) = From_blocker"
  by (auto simp: surviving_plan_def default_plan_def split: list.splits)

lemma surviving_twice: "surviving_plan f (surviving_plan f p) = surviving_plan f p"
proof (cases "filter (\<lambda>b. f (bb_branch b)) (sp_blockers p)")
  case (Cons b bs)
  have "filter (\<lambda>b. f (bb_branch b)) (b # bs) = b # bs" unfolding Cons [symmetric] by simp
  then show ?thesis using Cons by (simp add: surviving_plan_def)
qed (simp add: surviving_plan_def default_plan_def)

definition probed :: "(string \<Rightarrow> bool) \<Rightarrow> repo_start_plan \<Rightarrow> repo_start_plan" where
  "probed f p = (if sp_source p = From_blocker then surviving_plan f p else p)"

lemma probed_twice [simp]: "probed f (probed f p) = probed f p"
  by (simp add: probed_def surviving_twice)

lemma drop_gone_plan: "pl_repos (fst (foldl (drop_gone probe statuses) (pl, ds) rs)) n =
    map_option (if n \<in> wr_name ` set rs then probed (probe n) else (\<lambda>p. p)) (pl_repos pl n)"
proof (induction rs arbitrary: pl ds)
  case (Cons r rs)
  obtain pl1 ds1 where one: "drop_gone probe statuses (pl, ds) r = (pl1, ds1)" by (metis surj_pair)
  then have "pl_repos pl1 n = map_option (if n = wr_name r then probed (probe n) else (\<lambda>p. p)) (pl_repos pl n)"
    by (auto simp: drop_gone_def probed_def option.map_ident split: option.splits if_splits)
  then show ?case using Cons.IH [of pl1 ds1] by (auto simp: one option.map_comp comp_def option.map_ident)
qed (simp add: option.map_ident)

lemma drop_gone_unmounted: "pl_unmounted (fst (foldl (drop_gone probe statuses) (pl, ds) rs)) = pl_unmounted pl"
proof (induction rs arbitrary: pl ds)
  case (Cons r rs)
  obtain pl1 ds1 where one: "drop_gone probe statuses (pl, ds) r = (pl1, ds1)" by (metis surj_pair)
  then have "pl_unmounted pl1 = pl_unmounted pl" by (auto simp: drop_gone_def split: option.splits if_splits)
  then show ?case using Cons.IH [of pl1 ds1] by (simp add: one)
qed simp

lemma fetched_tasks: "fetch_blocker_statuses E keys w = (r, v) \<Longrightarrow> w_tasks v = w_tasks w"
  by (auto simp: fetch_blocker_statuses_def act_simps jira_search_updated_def answer_def split: list.splits sum.splits)

lemma inherited_cases:
  assumes "resolve_inheritance E probe i ticket ws repos own w = (Inr inh, w')"
  obtains (none) "inh = nothing_inherited own" "w' = w"
  | (some) key tk found missing statuses v where
      "ticket = Some (key, tk)" "(found, missing) = get_blocker_work ws (blocker_keys tk w) tk w" "w_tasks v = w_tasks w"
      "apply_plan probe i key tk ws repos own (blocker_keys tk w) found missing statuses v = (Inr inh, w')"
proof (cases ticket)
  case None
  then show ?thesis using assms none by (simp add: resolve_inheritance_def act_simps)
next
  case (Some x)
  obtain key tk where x: "x = (key, tk)" by (metis surj_pair)
  obtain found missing where work: "get_blocker_work ws (blocker_keys tk w) tk w = (found, missing)" by (metis surj_pair)
  have run: "(if blocker_keys tk w = [] then ret (nothing_inherited own)
      else if found = [] \<and> missing = [] then ret (nothing_inherited own)
      else bnd (fetch_blocker_statuses E (blocker_keys tk w))
        (apply_plan probe i key tk ws repos own (blocker_keys tk w) found missing)) w = (Inr inh, w')"
    using assms by (auto simp: resolve_inheritance_def Some x act_simps work split: if_splits)
  show ?thesis
  proof (cases "blocker_keys tk w = [] \<or> found = [] \<and> missing = []")
    case True
    then show ?thesis using run none by (auto simp: ret_app cong: if_cong split: if_splits)
  next
    case False
    then have "bnd (fetch_blocker_statuses E (blocker_keys tk w))
        (apply_plan probe i key tk ws repos own (blocker_keys tk w) found missing) w = (Inr inh, w')"
      using run by (simp split: if_splits)
    then obtain statuses v where "fetch_blocker_statuses E (blocker_keys tk w) w = (Inr statuses, v)"
        "apply_plan probe i key tk ws repos own (blocker_keys tk w) found missing statuses v = (Inr inh, w')"
      by (auto simp: bnd_app split: prod.splits sum.splits)
    then show ?thesis using some [OF _ work [symmetric] fetched_tasks] Some x by blast
  qed
qed

text \<open>What a plan built from the blockers looks like after the probes.\<close>

lemma probed_blocker_plan: "probed f (blocker_plan ds) = blocker_plan (filter (\<lambda>b. f (bb_branch b)) ds)"
  by (cases "filter (\<lambda>b. f (bb_branch b)) ds"; cases ds)
    (auto simp: probed_def blocker_plan_def surviving_plan_def default_plan_def split: if_splits list.splits)

lemma resolved_plan:
  assumes "foldl (drop_gone probe statuses) (build_start_plan repos own found, []) repos = (pl, gone)"
  shows "pl_repos pl n = (if n \<notin> wr_name ` set repos then None
     else Some (case truthy (bm_continue own n) of
         Some b \<Rightarrow> \<lparr>sp_source = From_own, sp_start = Some b, sp_merge = [], sp_blockers = []\<rparr>
       | None \<Rightarrow> blocker_plan (filter (\<lambda>b. probe n (bb_branch b)) (foldl keep_first [] (named_branches n repos found)))))"
proof (cases "n \<in> wr_name ` set repos")
  case True
  have own: "sp_source p = From_own \<Longrightarrow> probed f p = p" for f p by (simp add: probed_def)
  show ?thesis
    using drop_gone_plan [of probe statuses "build_start_plan repos own found" "[]" repos n] True
    by (cases "truthy (bm_continue own n)") (simp_all add: assms start_plan_spec own probed_blocker_plan)
next
  case False
  then show ?thesis
    using drop_gone_plan [of probe statuses "build_start_plan repos own found" "[]" repos n]
    by (simp add: assms start_plan_spec)
qed

text \<open>The title of the notice about a blocker, and whether its last known status says it is finished.\<close>

definition lost_title :: "string \<Rightarrow> dropped_blocker \<Rightarrow> string" where
  "lost_title key d = branch_lost_title key (dr_key d) (case dr_repo d of Some r \<Rightarrow> r | None \<Rightarrow> this_runs_repositories)"

definition known_done :: "dropped_blocker \<Rightarrow> bool" where
  "known_done d \<longleftrightarrow> snd (unpack_status (dr_status d)) = ''done''"

definition announced :: "id \<Rightarrow> string \<Rightarrow> world \<Rightarrow> bool" where
  "announced tk title w \<longleftrightarrow> (\<exists>h\<in>set (w_tasks w). open_ticket_task tk h \<and> h_title h = title)"

definition only_titles :: "string set \<Rightarrow> world \<Rightarrow> world \<Rightarrow> bool" where
  "only_titles T w w' \<longleftrightarrow> (\<exists>hs. w_tasks w' = w_tasks w @ hs \<and> (\<forall>h\<in>set hs. h_title h \<in> T))"

lemma only_titles_refl: "w_tasks w' = w_tasks w \<Longrightarrow> only_titles T w w'"
  by (simp add: only_titles_def)

lemma only_titles_trans: "only_titles T u v \<Longrightarrow> only_titles T v w \<Longrightarrow> only_titles T u w"
  by (fastforce simp: only_titles_def)

lemma announced_kept: "announced tk title w \<Longrightarrow> only_titles T w w' \<Longrightarrow> announced tk title w'"
  by (auto simp: announced_def only_titles_def)

lemma raise_task_result:
  obtains w' where "raise_blocker_task ws tk title details w = (Inr (), w')" "announced tk title w'" "only_titles {title} w w'"
proof (cases "find (\<lambda>h. open_ticket_task tk h \<and> h_title h = title) (w_tasks w)")
  case None
  let ?h = "(new_task ws None (Some tk) Blocker title (Some details) None False)\<lparr>h_id := w_next w, h_created := w_now w\<rparr>"
  let ?w = "w\<lparr>w_tasks := w_tasks w @ [?h], w_next := Suc (w_next w)\<rparr>"
  have "raise_blocker_task ws tk title details w = (Inr (), ?w)"
    by (simp add: raise_blocker_task_def create_keyed_ticket_task_def act_simps None insert_task_def)
  moreover have "announced tk title ?w" "only_titles {title} w ?w"
    by (simp_all add: announced_def only_titles_def open_ticket_task_def new_task_def)
  ultimately show ?thesis by (rule that)
next
  case (Some h)
  show ?thesis
    by (rule that [of w])
      (use find_Some_mem [OF Some] in \<open>auto simp: raise_blocker_task_def create_keyed_ticket_task_def act_simps Some
        announced_def only_titles_def\<close>)
qed

lemma drop_event_result:
  obtains w' where "record_blocker_drop_event i decision p w = (Inr (), w')" "w_tasks w' = w_tasks w"
  by (simp add: record_blocker_drop_event_def insert_event_def act_simps)

lemma missing_branch_result:
  "\<exists>w'. apply_missing_branch i key ws tk repos d w = (Inr (), w') \<and>
    (\<not> known_done d \<longrightarrow> announced tk (lost_title key d) w') \<and>
    only_titles (if known_done d then {} else {lost_title key d}) w w'"
proof (cases "known_done d")
  case True
  obtain name where u: "unpack_status (dr_status d) = (name, ''done'')" using True by (metis known_done_def prod.collapse)
  let ?p = "dropped_payload d (dropped_repo_name repos d @ '': '' @ dr_key d @
     '' is done and left no branch on origin - its work is already in '' @ dropped_default repos d @ ''; starting there.'')"
  obtain w' where "record_blocker_drop_event i ''blocker_branch_merged'' ?p w = (Inr (), w')" "w_tasks w' = w_tasks w"
    by (rule drop_event_result)
  then show ?thesis using True u by (simp add: apply_missing_branch_def Let_def only_titles_refl)
next
  case False
  obtain name category where u: "unpack_status (dr_status d) = (name, category)" "category \<noteq> ''done''"
    using False by (metis known_done_def prod.collapse)
  let ?shown = "case dr_repo d of Some r \<Rightarrow> r | None \<Rightarrow> this_runs_repositories" and ?default = "dropped_default repos d"
  let ?p = "dropped_payload d (dropped_repo_name repos d @ '': '' @ dr_key d @ '' is still open ('' @ or_text name ''status unknown'' @
     '') but left no usable branch - starting from '' @ ?default @ '' WITHOUT its work.'')"
  obtain w1 where w1: "record_blocker_drop_event i ''blocker_no_artifact'' ?p w = (Inr (), w1)" "w_tasks w1 = w_tasks w"
    by (rule drop_event_result)
  obtain w' where w': "raise_blocker_task ws tk (lost_title key d)
      (branch_lost_details key (dr_key d) ?shown (or_text name ''unknown'') ?default) w1 = (Inr (), w')"
      "announced tk (lost_title key d) w'" "only_titles {lost_title key d} w1 w'"
    by (rule raise_task_result)
  have "only_titles {lost_title key d} w w'" using w'(3) w1(2) by (simp add: only_titles_def)
  then show ?thesis
    using False u w1 w' by (simp add: apply_missing_branch_def Let_def act_simps lost_title_def)
qed

lemma only_titles_mono: "only_titles S w w' \<Longrightarrow> S \<subseteq> T \<Longrightarrow> only_titles T w w'"
  by (auto simp: only_titles_def)

lemma matrix_result:
  obtains w' where "apply_missing_branch_matrix i key ws tk repos ds w = (Inr (), w')"
    "\<forall>d\<in>set ds. \<not> known_done d \<longrightarrow> announced tk (lost_title key d) w'"
    "only_titles {lost_title key d | d. d \<in> set ds \<and> \<not> known_done d} w w'"
proof (induction ds arbitrary: w thesis)
  case Nil
  show ?case by (rule Nil [of w]) (simp_all add: apply_missing_branch_matrix_def ret_app only_titles_refl)
next
  case (Cons d ds)
  obtain w1 where w1: "apply_missing_branch i key ws tk repos d w = (Inr (), w1)"
    "\<not> known_done d \<longrightarrow> announced tk (lost_title key d) w1" "only_titles (if known_done d then {} else {lost_title key d}) w w1"
    using missing_branch_result [of i key ws tk repos d w] by blast
  obtain w2 where w2: "apply_missing_branch_matrix i key ws tk repos ds w1 = (Inr (), w2)"
    "\<forall>d\<in>set ds. \<not> known_done d \<longrightarrow> announced tk (lost_title key d) w2"
    "only_titles {lost_title key d | d. d \<in> set ds \<and> \<not> known_done d} w1 w2"
    by (rule Cons.IH)
  let ?T = "{lost_title key d' | d'. d' \<in> set (d # ds) \<and> \<not> known_done d'}"
  have "only_titles ?T w w1" by (rule only_titles_mono [OF w1(3)]) auto
  moreover have "only_titles ?T w1 w2" by (rule only_titles_mono [OF w2(3)]) auto
  ultimately have "only_titles ?T w w2" by (rule only_titles_trans)
  moreover have "\<forall>d'\<in>set (d # ds). \<not> known_done d' \<longrightarrow> announced tk (lost_title key d') w2"
    using w2(2) announced_kept [OF _ w2(3)] w1(2) by auto
  moreover have "apply_missing_branch_matrix i key ws tk repos (d # ds) w = (Inr (), w2)"
    using w1(1) w2(1) by (simp add: apply_missing_branch_matrix_def act_simps)
  ultimately show ?case using Cons.prems by blast
qed

lemma unmounted_result:
  obtains w' where "report_unmounted_blocker_work i key ws tk pl w = (Inr (), w')"
    "only_titles {repo_unmounted_title key (uw_key u) (uw_repo u) | u. u \<in> set (pl_unmounted pl)} w w'"
proof -
  let ?step = "report_unmounted i key ws tk"
  have one: "\<exists>v'. ?step u v = (Inr (), v') \<and> only_titles {repo_unmounted_title key (uw_key u) (uw_repo u)} v v'" for u v
  proof -
    obtain v1 where v1: "record_blocker_drop_event i ''blocker_artifacts_unmounted'' (unmounted_payload key u) v = (Inr (), v1)"
        "w_tasks v1 = w_tasks v"
      by (rule drop_event_result)
    obtain v2 where "raise_blocker_task ws tk (repo_unmounted_title key (uw_key u) (uw_repo u))
         (repo_unmounted_details key (uw_key u) (uw_repo u)) v1 = (Inr (), v2)"
        "only_titles {repo_unmounted_title key (uw_key u) (uw_repo u)} v1 v2"
      by (rule raise_task_result)
    then show ?thesis using v1 by (simp add: report_unmounted_def act_simps only_titles_def)
  qed
  have "\<exists>v'. for_each us ?step v = (Inr (), v') \<and>
      only_titles {repo_unmounted_title key (uw_key u) (uw_repo u) | u. u \<in> set us} v v'" for us v
  proof (induction us arbitrary: v)
    case Nil
    show ?case by (simp add: ret_app only_titles_refl)
  next
    case (Cons u us)
    obtain v1 where v1: "?step u v = (Inr (), v1)" "only_titles {repo_unmounted_title key (uw_key u) (uw_repo u)} v v1"
      using one by blast
    obtain v2 where v2: "for_each us ?step v1 = (Inr (), v2)"
        "only_titles {repo_unmounted_title key (uw_key u) (uw_repo u) | u. u \<in> set us} v1 v2"
      using Cons.IH by blast
    let ?T = "{repo_unmounted_title key (uw_key x) (uw_repo x) | x. x \<in> set (u # us)}"
    have "only_titles ?T v v1" by (rule only_titles_mono [OF v1(2)]) auto
    moreover have "only_titles ?T v1 v2" by (rule only_titles_mono [OF v2(2)]) auto
    ultimately have "only_titles ?T v v2" by (rule only_titles_trans)
    moreover have "for_each (u # us) ?step v = (Inr (), v2)" using v1(1) v2(1) by (simp add: andthen_app)
    ultimately show ?case by blast
  qed
  then show ?thesis using that unfolding report_unmounted_blocker_work_def by blast
qed

lemma apply_plan_result:
  assumes "apply_plan probe i key tk ws repos own keys found missing statuses v = (Inr inh, w')"
  obtains pl gone where "foldl (drop_gone probe statuses) (build_start_plan repos own found, []) repos = (pl, gone)"
    "inh = \<lparr>in_continue = inherited_branches own pl, in_merge = inherited_merges pl, in_plan = pl,
       in_dropped = gone @ missing_blockers statuses missing, in_unmounted = pl_unmounted pl,
       in_linked = build_linked_tickets keys found statuses\<rparr>"
    "\<forall>d\<in>set (in_dropped inh). \<not> known_done d \<longrightarrow> announced tk (lost_title key d) w'"
    "only_titles ({lost_title key d | d. d \<in> set (in_dropped inh) \<and> \<not> known_done d} \<union>
       {repo_unmounted_title key (uw_key u) (uw_repo u) | u. u \<in> set (in_unmounted inh)}) v w'"
proof -
  obtain pl gone where plan: "foldl (drop_gone probe statuses) (build_start_plan repos own found, []) repos = (pl, gone)"
    by (metis surj_pair)
  let ?ds = "gone @ missing_blockers statuses missing"
  let ?lost = "{lost_title key d | d. d \<in> set ?ds \<and> \<not> known_done d}"
  let ?unmounted = "{repo_unmounted_title key (uw_key u) (uw_repo u) | u. u \<in> set (pl_unmounted pl)}"
  obtain w1 where w1: "apply_missing_branch_matrix i key ws tk repos ?ds v = (Inr (), w1)"
      "\<forall>d\<in>set ?ds. \<not> known_done d \<longrightarrow> announced tk (lost_title key d) w1" "only_titles ?lost v w1"
    by (rule matrix_result)
  obtain w2 where w2: "report_unmounted_blocker_work i key ws tk pl w1 = (Inr (), w2)" "only_titles ?unmounted w1 w2"
    by (rule unmounted_result)
  have eq: "inh = \<lparr>in_continue = inherited_branches own pl, in_merge = inherited_merges pl, in_plan = pl,
       in_dropped = ?ds, in_unmounted = pl_unmounted pl, in_linked = build_linked_tickets keys found statuses\<rparr>" "w' = w2"
    using assms by (simp_all add: apply_plan_def plan Let_def act_simps w1(1) w2(1))
  have "only_titles (?lost \<union> ?unmounted) v w1" by (rule only_titles_mono [OF w1(3)]) simp
  moreover have "only_titles (?lost \<union> ?unmounted) w1 w2" by (rule only_titles_mono [OF w2(2)]) simp
  ultimately have "only_titles (?lost \<union> ?unmounted) v w2" by (rule only_titles_trans)
  then show ?thesis using that [OF plan eq(1)] w1(2) announced_kept [OF _ w2(2)] unfolding eq by simp
qed

lemma truthy_Some: "truthy x = Some b \<longleftrightarrow> x = Some b \<and> b \<noteq> []"
  by (auto simp: truthy_def split: option.splits)

lemma blocker_plan_simps:
  "sp_source (blocker_plan ds) = From_blocker \<longleftrightarrow> ds \<noteq> []"
  "sp_start (blocker_plan ds) = (if ds = [] then None else Some (bb_branch (hd ds)))"
  "sp_merge (blocker_plan ds) = map bb_branch (tl ds)"
  by (cases ds; simp add: blocker_plan_def default_plan_def)+

text \<open>
  C15. Inherited work is real: a repository with work of the ticket's own keeps it and merges nothing;
  whatever else a run starts from or merges is a branch that is on origin, in a repository it mounts,
  and the branches merged are distinct from each other and from the start.
\<close>

theorem inherited_work_is_on_origin:
  assumes "resolve_inheritance E probe i ticket ws repos own w = (Inr inh, w')"
  shows "(\<forall>n b. n \<in> wr_name ` set repos \<and> truthy (bm_continue own n) = Some b \<longrightarrow> in_continue inh n = Some b \<and> in_merge inh n = None) \<and>
    (\<forall>n b. in_continue inh n = Some b \<and> bm_continue own n \<noteq> Some b \<longrightarrow> n \<in> wr_name ` set repos \<and> probe n b) \<and>
    (\<forall>n ms. in_merge inh n = Some ms \<longrightarrow> n \<in> wr_name ` set repos \<and> list_all (probe n) ms \<and>
       distinct ms \<and> (\<exists>b. in_continue inh n = Some b \<and> b \<notin> set ms))"
using assms
proof (cases rule: inherited_cases)
  case none
  then show ?thesis by (auto simp: nothing_inherited_def truthy_Some)
next
  case (some key tk found missing statuses v)
  obtain pl gone where plan: "foldl (drop_gone probe statuses) (build_start_plan repos own found, []) repos = (pl, gone)"
    and inh: "in_continue inh = inherited_branches own pl" "in_merge inh = inherited_merges pl"
    using some(4) by (rule apply_plan_result) simp
  define ds where "ds n = filter (\<lambda>b. probe n (bb_branch b)) (foldl keep_first [] (named_branches n repos found))" for n
  have pl: "pl_repos pl n = (if n \<notin> wr_name ` set repos then None
     else Some (case truthy (bm_continue own n) of
         Some b \<Rightarrow> \<lparr>sp_source = From_own, sp_start = Some b, sp_merge = [], sp_blockers = []\<rparr>
       | None \<Rightarrow> blocker_plan (ds n)))" for n
    unfolding ds_def by (rule resolved_plan [OF plan])
  have "distinct (map bb_branch (foldl keep_first [] (named_branches n repos found)))" for n
    by (rule keep_first_distinct) simp
  then have dist: "distinct (map bb_branch (ds n))" for n by (simp add: ds_def distinct_map_filter)
  have on: "probe n (bb_branch b)" if "b \<in> set (ds n)" for n b using that by (simp add: ds_def)
  have merges: "list_all (probe n) (map bb_branch (tl (ds n)))" for n
    using on [of _ n] list.set_sel(2) [of "ds n"] by (cases "ds n") (auto simp: list_all_iff)
  have start: "bb_branch (hd (ds n)) \<notin> set (map bb_branch (tl (ds n)))" "distinct (map bb_branch (tl (ds n)))" if "ds n \<noteq> []" for n
    using dist [of n] that by (cases "ds n"; auto)+
  show ?thesis
    unfolding inh inherited_branches_def inherited_merges_def pl
    using merges start on [OF hd_in_set]
    by (auto simp: blocker_plan_simps truthy_Some truthy_def split: option.splits if_splits)
qed


lemma split_no_char: "c \<notin> set s \<Longrightarrow> split_char c s = [s]"
  by (induction s) auto

lemma split_at_char: "c \<notin> set s \<Longrightarrow> split_char c (s @ c # t) = s # split_char c t"
  by (induction s) auto

text \<open>
  A status name with a bar breaks the matrix: name and category travel in one string joined by
  \<open>|\<close>, so the finished blocker whose status is called, say, \<open>Done | Released\<close> reads as still open and
  a person is told that its work was lost.
\<close>

theorem barred_status_reads_as_open:
  assumes "i_category issue = Cat_done" and "i_status issue = pre @ ''|'' @ post" and "CHR ''|'' \<notin> set pre"
    and "CHR ''|'' \<notin> set post" and "post \<noteq> ''done''" and "dr_status d = Some (packed_status issue)"
  shows "\<exists>w'. apply_missing_branch i key ws tk repos d w = (Inr (), w') \<and> announced tk (lost_title key d) w'"
proof -
  have "packed_status issue = pre @ CHR ''|'' # post @ CHR ''|'' # ''done''"
    using assms(1,2) by (simp add: packed_status_def)
  then have "unpack_status (dr_status d) = (pre, post)"
    using assms(3,4,6) by (simp add: unpack_status_def split_at_char)
  then have "\<not> known_done d" using assms(5) by (simp add: known_done_def)
  then show ?thesis using missing_branch_result [of i key ws tk repos d w] by blast
qed

section \<open>The theorems on concrete work\<close>

definition finished_issue :: jira_issue where
  "finished_issue = \<lparr>i_key = ''PRJ-9'', i_id = ''10009'', i_summary = None, i_status = ''Done | Released'', i_category = Cat_done,
     i_updated = [], i_links = None, i_priority = None, i_resolution = None\<rparr>"

theorem barred_status_reads_as_open_witness:
  "\<exists>w'. apply_missing_branch 7 ''PRJ-1'' 1 4 sample_base
      \<lparr>dr_key = ''PRJ-9'', dr_repo = Some ''api'', dr_branch = Some ''feat'', dr_status = Some (packed_status finished_issue)\<rparr>
      (sample_world []) = (Inr (), w') \<and>
     announced 4 ''[blocker_branch_lost] PRJ-1: no usable branch from PRJ-9 for api'' w'"
  using barred_status_reads_as_open [of finished_issue "''Done ''" "'' Released''"
      "\<lparr>dr_key = ''PRJ-9'', dr_repo = Some ''api'', dr_branch = Some ''feat'', dr_status = Some (packed_status finished_issue)\<rparr>"
      7 "''PRJ-1''" 1 4 sample_base "sample_world []"]
  by (simp add: finished_issue_def lost_title_def branch_lost_title_def)

definition branch_report :: agent_report where
  "branch_report = sample_report\<lparr>rp_artifacts := Some \<lparr>ar_branch = None, ar_pr_url = None, ar_commits = None,
     ar_files_changed = None, ar_repos = Some [\<lparr>ra_repo = ''API'', ra_branch = Some ''feat'', ra_pr_url = None,
       ra_commits = None, ra_files_changed = None\<rparr>]\<rparr>\<rparr>"

text \<open>Ticket 4 is blocked by PRJ-9, whose run 6 reported a branch, and by PRJ-7, which is not known here.\<close>

definition blocked_world :: world where
  "blocked_world = (sample_world [(sample_run 6 (Some 5) Succeeded)\<lparr>r_report := Some branch_report\<rparr>])\<lparr>w_tickets :=
     [sample_ticket\<lparr>t_blocked_by := Some [''PRJ-9'', ''PRJ-7'']\<rparr>, sample_ticket\<lparr>t_id := 5, t_jira_key := ''PRJ-9''\<rparr>]\<rparr>"

definition no_own :: branch_match where
  "no_own = \<lparr>bm_continue = (\<lambda>_. None), bm_unmatched = []\<rparr>"

definition sample_resolution :: "(error + inheritance) \<times> world" where
  "sample_resolution = resolve_inheritance sample_env (\<lambda>n b. b = ''feat'') 7 (Some (''PRJ-1'', 4)) 1 sample_base no_own blocked_world"

lemma sample_resolution_value:
  "case fst sample_resolution of Inl e \<Rightarrow> False
   | Inr inh \<Rightarrow> in_continue inh ''api'' = Some ''feat'' \<and> in_dropped inh =
       [\<lparr>dr_key = ''PRJ-7'', dr_repo = None, dr_branch = None, dr_status = None\<rparr>]"
  by code_simp

lemma sample_inherits:
  obtains inh w' where
    "resolve_inheritance sample_env (\<lambda>n b. b = ''feat'') 7 (Some (''PRJ-1'', 4)) 1 sample_base no_own blocked_world = (Inr inh, w')"
    "in_continue inh ''api'' = Some ''feat''"
    "in_dropped inh = [\<lparr>dr_key = ''PRJ-7'', dr_repo = None, dr_branch = None, dr_status = None\<rparr>]"
proof -
  obtain r w' where r: "sample_resolution = (r, w')" by (metis surj_pair)
  note v = sample_resolution_value [unfolded r fst_conv]
  then obtain inh where inh: "r = Inr inh" by (cases r) auto
  show ?thesis using that [of inh w'] r v by (simp add: sample_resolution_def inh)
qed

theorem inherited_work_is_on_origin_witness:
  "\<exists>inh w'. resolve_inheritance sample_env (\<lambda>n b. b = ''feat'') 7 (Some (''PRJ-1'', 4)) 1 sample_base no_own blocked_world =
       (Inr inh, w') \<and> in_continue inh ''api'' = Some ''feat'' \<and>
     (\<forall>n b. in_continue inh n = Some b \<longrightarrow> n \<in> wr_name ` set sample_base \<and> b = ''feat'')"
proof (rule sample_inherits)
  fix inh w'
  assume run: "resolve_inheritance sample_env (\<lambda>n b. b = ''feat'') 7 (Some (''PRJ-1'', 4)) 1 sample_base no_own blocked_world = (Inr inh, w')"
    and api: "in_continue inh ''api'' = Some ''feat''"
  have "\<forall>n b. in_continue inh n = Some b \<longrightarrow> n \<in> wr_name ` set sample_base \<and> b = ''feat''"
    using conjunct1 [OF conjunct2 [OF inherited_work_is_on_origin [OF run]]] by (simp add: no_own_def)
  then show ?thesis using run api by (intro exI [of _ inh] exI [of _ w'] conjI)
qed


section \<open>What the run records about its start\<close>

text \<open>What git did for one repository (\<open>RepoStart\<close>).\<close>

record repo_start =
  rt_start_ref :: string
  rt_start_sha :: string
  rt_continue :: "string option"
  rt_merged :: "string list option"

definition blocker_json :: "(id \<Rightarrow> string) \<Rightarrow> blocker_branch \<Rightarrow> json" where
  "blocker_json uid b = JObj [(''key'', JStr (bb_key b)), (''runId'', JStr (uid (bb_run b))), (''branch'', JStr (bb_branch b))]"

text \<open>The decision and the message of one repository.\<close>

definition start_decision :: "(id \<Rightarrow> string) \<Rightarrow> prior_work option \<Rightarrow> blocker_branch list \<Rightarrow> worktree_repo \<Rightarrow> repo_start \<Rightarrow> string \<times> string" where
  "start_decision uid prior blockers r s =
     (let name = wr_name r;
          from = (case rt_continue s of Some b \<Rightarrow> b | None \<Rightarrow> ''undefined'');
          merged = (case rt_merged s of Some bs \<Rightarrow> bs | None \<Rightarrow> []) in
      case blockers of
        b # bs \<Rightarrow>
          if merged \<noteq> [] then (''merged_blockers'', name @ '': starting from '' @ from @ '' merged with '' @ join_with '', '' merged @
            '' - work inherited from '' @ join_with '', '' (map bb_key blockers))
          else (''inherited_from_blocker'', name @ '': starting from '' @ from @ '', inherited from blocker '' @ bb_key b)
      | [] \<Rightarrow>
          (case truthy (rt_continue s) of
             Some b \<Rightarrow> (''report_confirmed'', name @ '': continuing branch '' @ b @ '', reported by run '' @
               (case prior of Some p \<Rightarrow> uid (pw_run p) | None \<Rightarrow> ''undefined''))
           | None \<Rightarrow> (''default_branch'', name @ '': no branch reported by prior work - starting from '' @ wr_default_branch r)))"

definition plan_blockers_of :: "inheritance option \<Rightarrow> string \<Rightarrow> blocker_branch list" where
  "plan_blockers_of inh n = (case Option.bind inh (\<lambda>x. pl_repos (in_plan x) n) of
     Some p \<Rightarrow> if sp_source p = From_blocker then sp_blockers p else [] | None \<Rightarrow> [])"

definition start_ref_payload :: "(id \<Rightarrow> string) \<Rightarrow> prior_work option \<Rightarrow> branch_match \<Rightarrow> inheritance option \<Rightarrow> worktree_repo \<Rightarrow> repo_start \<Rightarrow> json" where
  "start_ref_payload uid prior matched inh r s =
     (let blockers = plan_blockers_of inh (wr_name r);
          merged = (case rt_merged s of Some bs \<Rightarrow> bs | None \<Rightarrow> []) in
      case start_decision uid prior blockers r s of (decision, message) \<Rightarrow>
        JObj ([(''source'', JStr ''start-ref''), (''message'', JStr message), (''repo'', JStr (wr_name r)),
               (''decision'', JStr decision), (''continueBranch'', jopt JStr (rt_continue s)),
               (''startSha'', JStr (rt_start_sha s)), (''reportedByRunId'', jopt (\<lambda>p. JStr (uid (pw_run p))) prior),
               (''unmatchedReportedRepos'', strings_json (bm_unmatched matched))] @
              (if blockers \<noteq> [] then [(''blockers'', JArr (map (blocker_json uid) blockers))] else []) @
              (if merged \<noteq> [] then [(''mergedBranches'', strings_json merged)] else [])))"

definition record_start_ref_event :: "(id \<Rightarrow> string) \<Rightarrow> id \<Rightarrow> (worktree_repo \<times> repo_start) list \<Rightarrow> prior_work option \<Rightarrow>
    branch_match \<Rightarrow> inheritance option \<Rightarrow> unit handler" where
  "record_start_ref_event uid i repos prior matched inh =
     for_each repos (\<lambda>(r, s). insert_event i Ev_log (start_ref_payload uid prior matched inh r s))"

text \<open>
  The verification receipt of the ticket against the prepared worktrees. The stored column holds a
  receipt or nothing; the model has no value the schema would reject.
\<close>

record verified_gates =
  vg_agent_role :: string
  vg_run :: id
  vg_gates :: "string list"
  vg_repo_shas :: "(string \<times> string) list"

definition shas_json :: "(string \<times> string) list \<Rightarrow> json" where
  "shas_json ps = JObj (map (\<lambda>(n, s). (n, JStr s)) ps)"

definition resolve_verification_receipt :: "(id \<Rightarrow> string) \<Rightarrow> id \<Rightarrow> id \<Rightarrow> (worktree_repo \<times> repo_start) list \<Rightarrow>
    verified_gates option handler" where
  "resolve_verification_receipt uid i tk repos =
     catch
       (bnd (gets (find_ticket tk)) (\<lambda>row.
        case Option.bind row t_verification of None \<Rightarrow> ret None
        | Some stored \<Rightarrow>
            let starts = map (\<lambda>(r, s). (wr_name r, rt_start_sha s)) repos in
            (case match_verification_receipt (Some stored) starts of
               None \<Rightarrow>
                 andthen (insert_event i Ev_log (JObj [(''source'', JStr ''receipt-stale''),
                     (''message'', JStr (''Verification receipt from run '' @ take 8 (uid (vr_run stored)) @
                        '' does not match this workspace state - recorded gates will be re-verified.'')),
                     (''receiptRunId'', JStr (uid (vr_run stored))), (''receiptRepos'', shas_json (vr_repos stored)),
                     (''startShas'', shas_json starts)]))
                   (ret None)
             | Some v \<Rightarrow>
                 andthen (insert_event i Ev_log (JObj [(''source'', JStr ''receipt-injected''),
                     (''message'', JStr (''Verification receipt injected: '' @ join_with '', '' (vr_gates v) @
                        '' already verified at this exact state (run '' @ take 8 (uid (vr_run v)) @ '').'')),
                     (''receiptRunId'', JStr (uid (vr_run v))), (''gates'', strings_json (vr_gates v)),
                     (''repos'', shas_json (vr_repos v))]))
                   (ret (Some \<lparr>vg_agent_role = (case vr_agent_role v of Some x \<Rightarrow> x
                        | None \<Rightarrow> (case vr_agent_name v of Some x \<Rightarrow> x | None \<Rightarrow> ''a previous agent'')),
                      vg_run = vr_run v, vg_gates = vr_gates v, vg_repo_shas = vr_repos v\<rparr>)))))
       (\<lambda>e. ret None)"

context world_relation
begin

lemma steps_start_events [steps_intros]:
  "steps R (record_start_ref_event uid i repos prior matched inh)" "steps R (resolve_verification_receipt uid i tk repos)"
  unfolding record_start_ref_event_def resolve_verification_receipt_def Let_def by (intro steps_intros)+

end

text \<open>Gates are only taken over when every mounted repository starts exactly where they were verified.\<close>

lemma injected_gates_verified:
  assumes "resolve_verification_receipt uid i tk repos w = (Inr (Some g), w')"
  shows "repos \<noteq> [] \<and> length (vg_repo_shas g) = length repos \<and>
    (\<forall>(r, s)\<in>set repos. map_of (vg_repo_shas g) (wr_name r) = Some (rt_start_sha s))"
  using assms
  by (auto simp: resolve_verification_receipt_def act_simps Let_def match_verification_receipt_def insert_event_def
      list_ex_iff split: option.splits if_splits)

end
