(* ===== verification/Worktree.thy ===== *)
theory Worktree
  imports PriorWork
begin

text \<open>
  The workspace of a run on disk: caches, detached worktrees, blocker merges, the all-or-nothing
  preparation and the cleanup (\<open>libs/executors/src/claude-cli/worktree.ts\<close>), and the dirty guard
  (\<open>bootstrap.ts\<close>). Git, the file system and the abort signal are a parameter \<open>'f host\<close>: what each
  call answers and does to the disk is arbitrary. The disk is paired with the log of the git commands
  issued and of the paths removed (with whether that worked), which no operation reads. Timeouts are failures git may answer with.
\<close>

section \<open>The host\<close>

record 'f host =
  ho_git :: "string list \<Rightarrow> string option \<Rightarrow> 'f \<Rightarrow> (string + string) \<times> 'f"
  ho_exists :: "string \<Rightarrow> 'f \<Rightarrow> bool"
  ho_mkdir :: "string \<Rightarrow> 'f \<Rightarrow> (string + unit) \<times> 'f"
  ho_rm :: "string \<Rightarrow> 'f \<Rightarrow> (string + unit) \<times> 'f"
  ho_aborted :: "'f \<Rightarrow> string option"

record 'f disk =
  dk_fs :: 'f
  dk_log :: "(string list \<times> string option) list"
  dk_removed :: "(string \<times> bool) list"

text \<open>The errors: \<open>WorktreePrepareError\<close>, \<open>BlockerMergeConflictError\<close>, and everything else by its message.\<close>

datatype wt_error =
    Prepare_failed string
  | Merge_conflict string string "string list" string
  | Other_error string

definition quoted :: "string \<Rightarrow> string" where
  "quoted s = [CHR 0x22] @ s @ [CHR 0x22]"

fun wt_message :: "wt_error \<Rightarrow> string" where
  "wt_message (Prepare_failed m) = m"
| "wt_message (Merge_conflict repo start merges detail) = ''repo '' @ quoted repo @ '': blocker branches conflict - '' @ quoted start @
     '' + merge of ['' @ join_with '', '' (map quoted merges) @ '']: '' @ detail"
| "wt_message (Other_error m) = m"

type_synonym ('f, 'a) fs = "('f disk, wt_error, 'a) act"

definition git_exec :: "'f host \<Rightarrow> string list \<Rightarrow> string option \<Rightarrow> ('f, string) fs" where
  "git_exec h args cwd = (\<lambda>d. case ho_git h args cwd (dk_fs d) of
     (res, f) \<Rightarrow> (case res of Inl e \<Rightarrow> Inl (Other_error e) | Inr out \<Rightarrow> Inr out,
        d\<lparr>dk_fs := f, dk_log := dk_log d @ [(args, cwd)]\<rparr>))"

definition mkdir :: "'f host \<Rightarrow> string \<Rightarrow> ('f, unit) fs" where
  "mkdir h p = (\<lambda>d. case ho_mkdir h p (dk_fs d) of
     (res, f) \<Rightarrow> (case res of Inl e \<Rightarrow> Inl (Other_error e) | Inr u \<Rightarrow> Inr (), d\<lparr>dk_fs := f\<rparr>))"

definition rm :: "'f host \<Rightarrow> string \<Rightarrow> ('f, unit) fs" where
  "rm h p = (\<lambda>d. case ho_rm h p (dk_fs d) of
     (res, f) \<Rightarrow> (case res of Inl e \<Rightarrow> Inl (Other_error e) | Inr u \<Rightarrow> Inr (),
        d\<lparr>dk_fs := f, dk_removed := dk_removed d @ [(p, case res of Inl e \<Rightarrow> False | Inr u \<Rightarrow> True)]\<rparr>))"

definition throw_if_aborted :: "'f host \<Rightarrow> ('f, unit) fs" where
  "throw_if_aborted h = bnd (gets (\<lambda>d. ho_aborted h (dk_fs d))) (\<lambda>r. case r of Some m \<Rightarrow> throw (Other_error m) | None \<Rightarrow> ret ())"

text \<open>A caught action as a value, and \<open>m.catch(() => {})\<close>.\<close>

definition attempt :: "('f, 'a) fs \<Rightarrow> ('f, wt_error + 'a) fs" where
  "attempt m = catch (bnd m (\<lambda>x. ret (Inr x))) (\<lambda>e. ret (Inl e))"

definition ignoring :: "('f, 'a) fs \<Rightarrow> ('f, unit) fs" where
  "ignoring m = catch (bnd m (\<lambda>x. ret ())) (\<lambda>e. ret ())"

text \<open>The wrapper that names the command in its error.\<close>

definition git :: "'f host \<Rightarrow> string list \<Rightarrow> string option \<Rightarrow> ('f, string) fs" where
  "git h args cwd = catch (git_exec h args cwd)
     (\<lambda>e. throw (Prepare_failed (''git '' @ join_with '' '' args @ '' failed: '' @ js_trim (wt_message e))))"

section \<open>Probes\<close>

definition succeeds :: "('f, 'a) fs \<Rightarrow> ('f, bool) fs" where
  "succeeds m = catch (bnd m (\<lambda>x. ret True)) (\<lambda>e. ret False)"

definition remote_branch_exists :: "'f host \<Rightarrow> string \<Rightarrow> string \<Rightarrow> ('f, bool) fs" where
  "remote_branch_exists h cache branch =
     succeeds (git_exec h [''show-ref'', ''--verify'', ''--quiet'', ''refs/remotes/origin/'' @ branch] (Some cache))"

definition invalid_branch :: "string \<Rightarrow> wt_error" where
  "invalid_branch branch = Prepare_failed (''reported branch name '' @ quoted branch @ '' is not a valid branch name'')"

definition assert_safe_branch_name :: "'f host \<Rightarrow> string \<Rightarrow> ('f, unit) fs" where
  "assert_safe_branch_name h branch =
     (if branch = [] \<or> hd branch = CHR ''-'' then throw (invalid_branch branch)
      else catch (bnd (git_exec h [''check-ref-format'', ''--branch'', branch] None) (\<lambda>x. ret ()))
             (\<lambda>e. throw (invalid_branch branch)))"

definition branch_exists_on_origin :: "'f host \<Rightarrow> string \<Rightarrow> string \<Rightarrow> ('f, bool) fs" where
  "branch_exists_on_origin h cache branch =
     bnd (succeeds (assert_safe_branch_name h branch)) (\<lambda>ok. if ok then remote_branch_exists h cache branch else ret False)"

definition is_healthy_repo :: "'f host \<Rightarrow> string \<Rightarrow> ('f, bool) fs" where
  "is_healthy_repo h cache = succeeds (git_exec h [''rev-parse'', ''--git-dir''] (Some cache))"

definition head_resolves :: "'f host \<Rightarrow> string \<Rightarrow> ('f, bool) fs" where
  "head_resolves h cache = succeeds (git_exec h [''cat-file'', ''-e'', ''HEAD''] (Some cache))"

definition exists_path :: "'f host \<Rightarrow> string \<Rightarrow> ('f, bool) fs" where
  "exists_path h p = gets (\<lambda>d. ho_exists h p (dk_fs d))"

section \<open>The cache\<close>

definition path_in :: "string \<Rightarrow> string \<Rightarrow> string" where
  "path_in dir name = dir @ ''/'' @ name"

definition clone :: "'f host \<Rightarrow> worktree_repo \<Rightarrow> string \<Rightarrow> ('f, unit) fs" where
  "clone h repo cache = bnd (git h [''clone'', wr_url repo, cache] None) (\<lambda>x. ret ())"

definition fetch_or_reclone :: "'f host \<Rightarrow> worktree_repo \<Rightarrow> string \<Rightarrow> ('f, unit) fs" where
  "fetch_or_reclone h repo cache =
     catch (bnd (git h [''fetch'', ''--prune'', ''origin''] (Some cache)) (\<lambda>x. ret ()))
       (\<lambda>e. bnd (gets (\<lambda>d. ho_aborted h (dk_fs d))) (\<lambda>a.
          if a \<noteq> None then throw e
          else bnd (head_resolves h cache) (\<lambda>ok.
            if ok then throw e else andthen (rm h cache) (clone h repo cache))))"

definition ensure_cache :: "'f host \<Rightarrow> worktree_repo \<Rightarrow> string \<Rightarrow> ('f, string) fs" where
  "ensure_cache h repo cache_root =
     (let cache = path_in cache_root (wr_name repo) in
      bnd (exists_path h cache) (\<lambda>there.
      andthen (if there then bnd (is_healthy_repo h cache) (\<lambda>ok. if ok then ret () else rm h cache) else ret ())
      (bnd (exists_path h cache) (\<lambda>kept.
       andthen (if kept then fetch_or_reclone h repo cache else clone h repo cache)
       (andthen (git h [''worktree'', ''prune''] (Some cache)) (ret cache))))))"

definition ensure_caches :: "'f host \<Rightarrow> worktree_repo list \<Rightarrow> string \<Rightarrow> ('f, string \<Rightarrow> string option) fs" where
  "ensure_caches h repos cache_root = andthen (mkdir h cache_root)
     (for_fold repos (\<lambda>_. None) (\<lambda>repo caches. andthen (throw_if_aborted h)
        (bnd (ensure_cache h repo cache_root) (\<lambda>c. ret (caches(wr_name repo \<mapsto> c))))))"

section \<open>One worktree\<close>

definition merge_args :: "string \<Rightarrow> string \<Rightarrow> string list" where
  "merge_args sref branch = [''-c'', ''user.name=brigadir'', ''-c'', ''user.email=brigadir@local'', ''merge'', ''--no-ff'', ''-m'',
     ''brigadir: merge blocker branch '' @ branch @ '' into '' @ sref, ''origin/'' @ branch]"

definition merge_into_worktree :: "'f host \<Rightarrow> worktree_repo \<Rightarrow> string \<Rightarrow> string \<Rightarrow> string \<Rightarrow> string list \<Rightarrow> ('f, string list) fs" where
  "merge_into_worktree h repo cache dir sref branches =
     for_fold branches [] (\<lambda>branch merged.
       andthen (assert_safe_branch_name h branch)
       (bnd (remote_branch_exists h cache branch) (\<lambda>there.
        if \<not> there then throw (Prepare_failed (''blocker branch '' @ quoted branch @ '' is not on origin - cannot merge it into the start point''))
        else
          bnd (catch (git h (merge_args sref branch) (Some dir))
                 (\<lambda>e. andthen (ignoring (git_exec h [''merge'', ''--abort''] (Some dir)))
                        (throw (Merge_conflict (wr_name repo) sref branches (wt_message e)))))
            (\<lambda>x. ret (merged @ [branch])))))"

definition start_ref_of :: "'f host \<Rightarrow> worktree_repo \<Rightarrow> string \<Rightarrow> string option \<Rightarrow> ('f, string) fs" where
  "start_ref_of h repo cache continue =
     (case continue of
        None \<Rightarrow> ret (''origin/'' @ wr_default_branch repo)
      | Some b \<Rightarrow> andthen (assert_safe_branch_name h b)
          (bnd (remote_branch_exists h cache b) (\<lambda>there.
           if there then ret (''origin/'' @ b)
           else throw (Prepare_failed (''previous run reported branch '' @ quoted b @ '' but origin has no such branch - '' @
             ''push it or clear the stale report, then retry'')))))"

definition add_repo_worktree :: "'f host \<Rightarrow> worktree_repo \<Rightarrow> string \<Rightarrow> string \<Rightarrow> string option \<Rightarrow> string list \<Rightarrow> ('f, repo_start) fs" where
  "add_repo_worktree h repo cache dir continue merges =
     bnd (start_ref_of h repo cache continue) (\<lambda>sref.
     andthen (git h [''worktree'', ''add'', ''--detach'', dir, sref] (Some cache))
     (bnd (merge_into_worktree h repo cache dir sref merges) (\<lambda>merged.
      bnd (git h [''rev-parse'', ''HEAD''] (Some dir)) (\<lambda>sha.
      ret \<lparr>rt_start_ref = sref, rt_start_sha = js_trim sha, rt_continue = continue,
           rt_merged = (if merged = [] then None else Some merged)\<rparr>))))"

section \<open>The workspace of a run\<close>

record repo_worktree =
  rp_repo :: worktree_repo
  rp_dir :: string
  rp_cache :: string
  rp_start :: repo_start

record prepare_options =
  po_continue :: "string \<Rightarrow> string option"
  po_merge :: "string \<Rightarrow> string list option"
  po_caches :: "string \<Rightarrow> string option"

definition prepare_one :: "'f host \<Rightarrow> prepare_options \<Rightarrow> string \<Rightarrow> string \<Rightarrow> worktree_repo \<Rightarrow> ('f, repo_worktree) fs" where
  "prepare_one h o' cache_root parent repo =
     andthen (throw_if_aborted h)
     (bnd (case po_caches o' (wr_name repo) of Some c \<Rightarrow> ret c | None \<Rightarrow> ensure_cache h repo cache_root) (\<lambda>cache.
      let dir = path_in parent (wr_name repo) in
      bnd (add_repo_worktree h repo cache dir (po_continue o' (wr_name repo))
             (case po_merge o' (wr_name repo) of Some ms \<Rightarrow> ms | None \<Rightarrow> [])) (\<lambda>start.
      ret \<lparr>rp_repo = repo, rp_dir = dir, rp_cache = cache, rp_start = start\<rparr>)))"

definition remove_worktree :: "'f host \<Rightarrow> repo_worktree \<Rightarrow> ('f, string) fs" where
  "remove_worktree h p = git h [''worktree'', ''remove'', ''--force'', rp_dir p] (Some (rp_cache p))"

text \<open>What the failure at a repository becomes: a conflict keeps its type, anything else is named by the repository.\<close>

fun rethrown :: "worktree_repo \<Rightarrow> wt_error \<Rightarrow> wt_error" where
  "rethrown repo (Merge_conflict a b c d) = Merge_conflict a b c d"
| "rethrown repo e = Prepare_failed (''repo '' @ quoted (wr_name repo) @ '': '' @ wt_message e)"

definition unwind :: "'f host \<Rightarrow> string \<Rightarrow> repo_worktree list \<Rightarrow> worktree_repo \<Rightarrow> wt_error \<Rightarrow> ('f, 'a) fs" where
  "unwind h parent prepared repo e =
     andthen (for_each prepared (\<lambda>p. ignoring (remove_worktree h p)))
     (andthen (rm h parent) (throw (rethrown repo e)))"

fun prepare_loop :: "'f host \<Rightarrow> prepare_options \<Rightarrow> string \<Rightarrow> string \<Rightarrow> worktree_repo list \<Rightarrow> repo_worktree list \<Rightarrow>
    ('f, repo_worktree list) fs" where
  "prepare_loop h o' cache_root parent [] prepared = ret prepared"
| "prepare_loop h o' cache_root parent (repo # repos) prepared =
     bnd (attempt (prepare_one h o' cache_root parent repo)) (\<lambda>r. case r of
        Inl e \<Rightarrow> unwind h parent prepared repo e
      | Inr p \<Rightarrow> prepare_loop h o' cache_root parent repos (prepared @ [p]))"

definition prepare_all :: "'f host \<Rightarrow> worktree_repo list \<Rightarrow> string \<Rightarrow> string \<Rightarrow> string \<Rightarrow> prepare_options \<Rightarrow>
    ('f, string \<times> repo_worktree list) fs" where
  "prepare_all h repos run worktree_root cache_root o' =
     (if repos = [] then throw (Prepare_failed ''no repositories to prepare for this run'')
      else
        let parent = path_in worktree_root run in
        andthen (mkdir h cache_root) (andthen (mkdir h parent)
        (bnd (prepare_loop h o' cache_root parent repos []) (\<lambda>ps. ret (parent, ps)))))"

text \<open>\<open>cleanupAll\<close>: every worktree and the parent are removed; the first failure is thrown at the end.\<close>

definition cleanup_all :: "'f host \<Rightarrow> string \<Rightarrow> repo_worktree list \<Rightarrow> bool \<Rightarrow> ('f, unit) fs" where
  "cleanup_all h parent ps keep =
     (if keep then ret ()
      else bnd (for_fold ps None (\<lambda>p first. bnd (attempt (remove_worktree h p)) (\<lambda>r.
             ret (case (first, r) of (None, Inl e) \<Rightarrow> Some e | _ \<Rightarrow> first)))) (\<lambda>first.
           andthen (rm h parent) (case first of Some e \<Rightarrow> throw e | None \<Rightarrow> ret ())))"

section \<open>The dirty guard\<close>

record dirty_state =
  dt_modified :: "string list"
  dt_untracked :: "string list"

definition parse_porcelain :: "string \<Rightarrow> dirty_state" where
  "parse_porcelain out =
     (let ls = filter (\<lambda>l. js_trim l \<noteq> []) (split_on (CHR 0x0A) out);
          new = (\<lambda>l. take 2 l = ''??'')
      in \<lparr>dt_modified = map (drop 3) (filter (\<lambda>l. \<not> new l) ls), dt_untracked = map (drop 3) (filter new ls)\<rparr>)"

definition status_porcelain :: "'f host \<Rightarrow> string \<Rightarrow> ('f, dirty_state) fs" where
  "status_porcelain h dir = bnd (git_exec h [''status'', ''--porcelain''] (Some dir)) (\<lambda>out. ret (parse_porcelain out))"

definition revert_tracked :: "'f host \<Rightarrow> string \<Rightarrow> ('f, unit) fs" where
  "revert_tracked h dir = bnd (git_exec h [''checkout'', ''--'', ''.''] (Some dir)) (\<lambda>x. ret ())"

record dirty_guard_result =
  dg_found :: dirty_state
  dg_reverted :: "string list"
  dg_residual :: dirty_state

definition dirty_guard :: "'f host \<Rightarrow> string \<Rightarrow> ('f, dirty_guard_result) fs" where
  "dirty_guard h dir = bnd (status_porcelain h dir) (\<lambda>found.
     if dt_modified found = [] then ret \<lparr>dg_found = found, dg_reverted = [], dg_residual = found\<rparr>
     else andthen (revert_tracked h dir) (bnd (status_porcelain h dir) (\<lambda>residual.
       ret \<lparr>dg_found = found, dg_reverted = dt_modified found, dg_residual = residual\<rparr>)))"

section \<open>The commands issued\<close>

definition plain_arg :: "string \<Rightarrow> bool" where
  "plain_arg a \<longleftrightarrow> a = [] \<or> hd a \<noteq> CHR ''-''"

definition GIT_OPTIONS :: "string list" where
  "GIT_OPTIONS = [''--verify'', ''--quiet'', ''--branch'', ''--git-dir'', ''-e'', ''--prune'', ''--detach'', ''-c'', ''--no-ff'', ''-m'',
     ''--abort'', ''--force'']"

definition safe_args :: "string list \<Rightarrow> bool" where
  "safe_args args \<longleftrightarrow> (\<forall>a\<in>set args. plain_arg a \<or> a \<in> set GIT_OPTIONS)"

text \<open>From one disk to a later one only commands with the code's own options were issued.\<close>

definition safely :: "'f disk \<Rightarrow> 'f disk \<Rightarrow> bool" where
  "safely d d' \<longleftrightarrow> (\<exists>new. dk_log d' = dk_log d @ new \<and> (\<forall>c\<in>set new. safe_args (fst c)))"

interpretation wt: state_relation safely
proof
  show "safely w w" for w :: "'a disk" by (simp add: safely_def)
  show "safely u v \<Longrightarrow> safely v w \<Longrightarrow> safely u w" for u v w :: "'a disk"
    unfolding safely_def by fastforce
qed

lemma plain_prefixes:
  "plain_arg (''origin/'' @ b)" "plain_arg (''refs/remotes/origin/'' @ b)" "plain_arg (''brigadir: merge blocker branch '' @ m)"
  by (simp_all add: plain_arg_def)

lemma plain_path [simp]: "plain_arg dir \<Longrightarrow> plain_arg (path_in dir name)"
  by (cases dir) (simp_all add: plain_arg_def path_in_def)

lemma steps_git_exec: "safe_args args \<Longrightarrow> steps safely (git_exec h args cwd)"
  by (simp add: steps_def git_exec_def safely_def split: prod.split)

lemma steps_git: "safe_args args \<Longrightarrow> steps safely (git h args cwd)"
  unfolding git_def by (intro wt.steps_catch wt.steps_throw steps_git_exec)

lemma steps_disk: "steps safely (mkdir h p)" "steps safely (rm h p)"
  by (simp_all add: steps_def mkdir_def rm_def safely_def split: prod.split)

lemmas wt_steps = wt.steps_ret wt.steps_throw wt.steps_gets wt.steps_bnd wt.steps_andthen wt.steps_catch wt.steps_for_each
  wt.steps_for_fold steps_case_option steps_case_sum steps_if steps_Let steps_git steps_git_exec steps_disk

lemma safe_literals:
  "safe_args [''show-ref'', ''--verify'', ''--quiet'', ''refs/remotes/origin/'' @ b]"
  "plain_arg b \<Longrightarrow> safe_args [''check-ref-format'', ''--branch'', b]"
  "safe_args [''rev-parse'', ''--git-dir'']" "safe_args [''cat-file'', ''-e'', ''HEAD'']"
  "plain_arg url \<Longrightarrow> plain_arg dir \<Longrightarrow> safe_args [''clone'', url, dir]"
  "safe_args [''fetch'', ''--prune'', ''origin'']" "safe_args [''worktree'', ''prune'']"
  "safe_args [''merge'', ''--abort'']" "safe_args [''rev-parse'', ''HEAD'']"
  "plain_arg dir \<Longrightarrow> safe_args [''worktree'', ''add'', ''--detach'', dir, ''origin/'' @ b]"
  "plain_arg dir \<Longrightarrow> safe_args [''worktree'', ''remove'', ''--force'', dir]"
  "safe_args (merge_args sref b)"
  by (auto simp: safe_args_def GIT_OPTIONS_def plain_arg_def merge_args_def)

lemma steps_probes:
  "steps safely (remote_branch_exists h cache b)" "steps safely (is_healthy_repo h cache)"
  "steps safely (head_resolves h cache)" "steps safely (exists_path h p)" "steps safely (throw_if_aborted h)"
  unfolding remote_branch_exists_def is_healthy_repo_def head_resolves_def exists_path_def throw_if_aborted_def succeeds_def
  by (intro wt_steps safe_literals)+

lemma steps_assert_safe: "steps safely (assert_safe_branch_name h b)"
proof (cases "b = [] \<or> hd b = CHR ''-''")
  case True
  then show ?thesis by (simp add: assert_safe_branch_name_def wt.steps_throw)
next
  case False
  have "steps safely (catch (bnd (git_exec h [''check-ref-format'', ''--branch'', b] None) (\<lambda>x. ret ())) (\<lambda>e. throw (invalid_branch b)))"
    by (intro wt_steps safe_literals) (use False in \<open>simp add: plain_arg_def\<close>)
  then show ?thesis using False by (simp add: assert_safe_branch_name_def)
qed

lemma steps_ensure_cache:
  assumes "plain_arg (wr_url repo)" and "plain_arg cache_root"
  shows "steps safely (ensure_cache h repo cache_root)"
  unfolding ensure_cache_def fetch_or_reclone_def clone_def Let_def
  by (intro wt_steps steps_probes safe_literals plain_path assms)

lemma steps_merge: "steps safely (merge_into_worktree h repo cache dir sref branches)"
  unfolding merge_into_worktree_def ignoring_def by (intro wt_steps steps_probes steps_assert_safe safe_literals)

lemma start_ref_shape: "start_ref_of h repo cache continue d = (Inr r, d') \<Longrightarrow> \<exists>b. r = ''origin/'' @ b"
  by (auto simp: start_ref_of_def act_simps split: option.splits if_splits prod.splits sum.splits)

lemma steps_add_worktree:
  assumes "plain_arg dir"
  shows "steps safely (add_repo_worktree h repo cache dir continue merges)"
  unfolding add_repo_worktree_def
proof (rule wt.steps_bnd_result)
  show "steps safely (start_ref_of h repo cache continue)"
    unfolding start_ref_of_def by (intro wt_steps steps_probes steps_assert_safe)
next
  fix sref d d'
  assume "start_ref_of h repo cache continue d = (Inr sref, d')"
  then obtain b where b: "sref = ''origin/'' @ b" using start_ref_shape by blast
  show "steps safely (andthen (git h [''worktree'', ''add'', ''--detach'', dir, sref] (Some cache))
     (bnd (merge_into_worktree h repo cache dir sref merges) (\<lambda>merged.
      bnd (git h [''rev-parse'', ''HEAD''] (Some dir)) (\<lambda>sha.
      ret \<lparr>rt_start_ref = sref, rt_start_sha = js_trim sha, rt_continue = continue,
           rt_merged = (if merged = [] then None else Some merged)\<rparr>))))"
    unfolding b by (intro wt_steps steps_merge safe_literals assms)
qed

lemma steps_prepare_one:
  assumes "plain_arg (wr_url repo)" and "plain_arg cache_root" and "plain_arg parent"
  shows "steps safely (prepare_one h o' cache_root parent repo)"
  unfolding prepare_one_def Let_def
  by (intro wt_steps steps_probes steps_add_worktree steps_ensure_cache plain_path assms)

lemma prepare_one_dir: "prepare_one h o' cache_root parent repo d = (Inr p, d') \<Longrightarrow> rp_dir p = path_in parent (wr_name repo) \<and> rp_repo p = repo"
  by (auto simp: prepare_one_def act_simps Let_def split: option.splits prod.splits sum.splits)

lemma attempt_result:
  "attempt m d = (r, d') \<Longrightarrow> \<exists>x. r = Inr x \<and> m d = (x, d')"
  by (auto simp: attempt_def act_simps split: prod.splits sum.splits)

lemma steps_unwind:
  assumes "\<forall>p\<in>set prepared. plain_arg (rp_dir p)"
  shows "steps safely (unwind h parent prepared repo e)"
  unfolding unwind_def ignoring_def remove_worktree_def by (intro wt_steps safe_literals) (use assms in simp)

lemma steps_prepare_loop:
  assumes "\<forall>repo\<in>set repos. plain_arg (wr_url repo)" and "plain_arg cache_root" and "plain_arg parent"
    and "\<forall>p\<in>set prepared. plain_arg (rp_dir p)"
  shows "steps safely (prepare_loop h o' cache_root parent repos prepared)"
  using assms(1,4)
proof (induction repos arbitrary: prepared)
  case (Cons repo repos)
  show ?case unfolding prepare_loop.simps
  proof (rule wt.steps_bnd_result)
    show "steps safely (attempt (prepare_one h o' cache_root parent repo))"
      unfolding attempt_def by (intro wt_steps steps_prepare_one) (use Cons.prems assms in simp_all)
  next
    fix r d d'
    assume "attempt (prepare_one h o' cache_root parent repo) d = (Inr r, d')"
    from attempt_result [OF this] have r: "prepare_one h o' cache_root parent repo d = (r, d')" by simp
    show "steps safely (case r of Inl e \<Rightarrow> unwind h parent prepared repo e | Inr p \<Rightarrow> prepare_loop h o' cache_root parent repos (prepared @ [p]))"
    proof (cases r)
      case (Inl e)
      then show ?thesis using steps_unwind [OF Cons.prems(2)] by simp
    next
      case (Inr p)
      have "plain_arg (rp_dir p)" using prepare_one_dir [OF r [unfolded Inr]] assms(3) by simp
      then show ?thesis using Inr Cons.IH Cons.prems by simp
    qed
  qed
qed (simp add: wt.steps_ret)

text \<open>
  C26. No option injection: whatever branch names the reports of agents contain - to continue from or to
  merge - every argument of every git command the preparation issues is either one of the options
  written in the code or does not begin with a dash.
\<close>

theorem no_option_injection:
  assumes "\<forall>repo\<in>set repos. plain_arg (wr_url repo)" and "plain_arg cache_root" and "plain_arg worktree_root"
  shows "\<exists>new. dk_log (snd (prepare_all h repos run worktree_root cache_root o' d)) = dk_log d @ new \<and>
    (\<forall>(args, cwd)\<in>set new. \<forall>a\<in>set args. plain_arg a \<or> a \<in> set GIT_OPTIONS)"
proof -
  have "steps safely (prepare_all h repos run worktree_root cache_root o')"
    unfolding prepare_all_def Let_def by (intro wt_steps steps_prepare_loop) (use assms in simp_all)
  from stepsD [OF this, of d] show ?thesis by (force simp: safely_def safe_args_def)
qed

definition demo_host :: "unit host" where
  "demo_host = \<lparr>ho_git = (\<lambda>args cwd f. (Inr ''abc'', f)), ho_exists = (\<lambda>p f. True), ho_mkdir = (\<lambda>p f. (Inr (), f)),
     ho_rm = (\<lambda>p f. (Inr (), f)), ho_aborted = (\<lambda>f. None)\<rparr>"

definition demo_repo :: worktree_repo where
  "demo_repo = \<lparr>wr_name = ''app'', wr_url = ''git@host:app'', wr_default_branch = ''main'', wr_bootstrap = None\<rparr>"

definition demo_options :: prepare_options where
  "demo_options = \<lparr>po_continue = [''app'' \<mapsto> ''--upload-pack=x''], po_merge = Map.empty, po_caches = Map.empty\<rparr>"

theorem no_option_injection_witness:
  "\<exists>new. dk_log (snd (prepare_all demo_host [demo_repo] ''r'' ''/w'' ''/c'' demo_options \<lparr>dk_fs = (), dk_log = [], dk_removed = []\<rparr>)) = [] @ new \<and>
    (\<forall>(args, cwd)\<in>set new. \<forall>a\<in>set args. plain_arg a \<or> a \<in> set GIT_OPTIONS)"
  using no_option_injection [of "[demo_repo]" "''/c''" "''/w''" demo_host "''r''" demo_options "\<lparr>dk_fs = (), dk_log = [], dk_removed = []\<rparr>"]
  by (simp add: plain_arg_def demo_repo_def)

section \<open>All or nothing\<close>

text \<open>The errors an action can throw.\<close>

definition throws :: "(wt_error \<Rightarrow> bool) \<Rightarrow> ('f, 'a) fs \<Rightarrow> bool" where
  "throws P m \<longleftrightarrow> (\<forall>d e d'. m d = (Inl e, d') \<longrightarrow> P e)"

lemma throws_rules:
  "throws P (ret x)" "throws P (gets f)" "P e \<Longrightarrow> throws P (throw e)"
  "throws P m \<Longrightarrow> (\<And>x. throws P (k x)) \<Longrightarrow> throws P (bnd m k)"
  "throws P m \<Longrightarrow> throws P m1 \<Longrightarrow> throws P (andthen m m1)"
  "throws P m \<Longrightarrow> (\<And>e. P e \<Longrightarrow> throws P (c e)) \<Longrightarrow> throws P (catch m c)"
  "(b \<Longrightarrow> throws P m) \<Longrightarrow> (\<not> b \<Longrightarrow> throws P m') \<Longrightarrow> throws P (if b then m else m')"
  "(o' = None \<Longrightarrow> throws P m) \<Longrightarrow> (\<And>y. o' = Some y \<Longrightarrow> throws P (n y)) \<Longrightarrow> throws P (case o' of None \<Rightarrow> m | Some y \<Rightarrow> n y)"
  unfolding throws_def
  by (fastforce simp: act_simps split: prod.splits sum.splits if_splits option.splits)+

lemma throws_for_fold: "(\<And>x s. throws P (f x s)) \<Longrightarrow> throws P (for_fold xs s f)"
  by (induction xs arbitrary: s) (auto intro: throws_rules)

fun concerns :: "worktree_repo \<Rightarrow> wt_error \<Rightarrow> bool" where
  "concerns repo (Merge_conflict n a b c) \<longleftrightarrow> n = wr_name repo"
| "concerns repo _ \<longleftrightarrow> True"

lemma throws_host:
  "throws (concerns repo) (git_exec h args cwd)" "throws (concerns repo) (rm h p)" "throws (concerns repo) (throw_if_aborted h)"
  "throws (concerns repo) (git h args cwd)" "throws P (succeeds m)"
  unfolding throw_if_aborted_def git_def succeeds_def
  by (auto simp: throws_def git_exec_def rm_def act_simps split: prod.splits sum.splits option.splits)

lemma throws_assert_safe: "throws (concerns repo) (assert_safe_branch_name h b)"
  unfolding assert_safe_branch_name_def invalid_branch_def by (intro throws_rules throws_host) simp_all

lemma throws_prepare_one: "throws (concerns repo) (prepare_one h o' cache_root parent repo)"
  unfolding prepare_one_def ensure_cache_def fetch_or_reclone_def clone_def add_repo_worktree_def start_ref_of_def
    merge_into_worktree_def Let_def exists_path_def is_healthy_repo_def head_resolves_def remote_branch_exists_def ignoring_def
  by (intro throws_rules throws_for_fold throws_host throws_assert_safe) simp_all

text \<open>The error of a preparation names the repository it failed at.\<close>

definition names_repo :: "worktree_repo \<Rightarrow> wt_error \<Rightarrow> bool" where
  "names_repo repo e \<longleftrightarrow> (let p = ''repo '' @ quoted (wr_name repo) @ '': '' in take (length p) (wt_message e) = p)"

lemma rethrown_names: "concerns repo e \<Longrightarrow> names_repo repo (rethrown repo e)"
  by (cases e) (simp_all add: names_repo_def Let_def)

text \<open>What is asked of a start, and what the worktree of a repository must be.\<close>

definition merges_of :: "prepare_options \<Rightarrow> worktree_repo \<Rightarrow> string list" where
  "merges_of o' repo = (case po_merge o' (wr_name repo) of Some ms \<Rightarrow> ms | None \<Rightarrow> [])"

definition started_as_told :: "prepare_options \<Rightarrow> string \<Rightarrow> worktree_repo \<Rightarrow> repo_worktree \<Rightarrow> bool" where
  "started_as_told o' parent repo p \<longleftrightarrow> rp_repo p = repo \<and> rp_dir p = parent @ ''/'' @ wr_name repo \<and>
     rt_continue (rp_start p) = po_continue o' (wr_name repo) \<and>
     rt_start_ref (rp_start p) = ''origin/'' @ (case po_continue o' (wr_name repo) of Some b \<Rightarrow> b | None \<Rightarrow> wr_default_branch repo) \<and>
     rt_merged (rp_start p) = (if merges_of o' repo = [] then None else Some (merges_of o' repo))"

lemma for_fold_snoc:
  assumes "\<And>x s d s' d'. f x s d = (Inr s', d') \<Longrightarrow> s' = s @ [x]"
  shows "for_fold xs s f d = (Inr s', d') \<Longrightarrow> s' = s @ xs"
proof (induction xs arbitrary: s d)
  case (Cons x xs)
  then obtain s1 d1 where 1: "f x s d = (Inr s1, d1)" and 2: "for_fold xs s1 f d1 = (Inr s', d')"
    by (auto simp: act_simps split: prod.splits sum.splits)
  from Cons.IH [OF 2] assms [OF 1] show ?case by simp
qed (simp add: act_simps)

lemma merged_all: "merge_into_worktree h repo cache dir sref bs d = (Inr ms, d') \<Longrightarrow> ms = bs"
  unfolding merge_into_worktree_def
  by (drule for_fold_snoc [rotated]) (auto simp: act_simps split: prod.splits sum.splits if_splits)

lemma start_ref_told:
  "start_ref_of h repo cache c d = (Inr r, d') \<Longrightarrow> r = ''origin/'' @ (case c of Some b \<Rightarrow> b | None \<Rightarrow> wr_default_branch repo)"
  by (auto simp: start_ref_of_def act_simps split: option.splits prod.splits sum.splits if_splits)

lemma prepare_one_told:
  "prepare_one h o' cache_root parent repo d = (Inr p, d') \<Longrightarrow> started_as_told o' parent repo p"
  by (auto simp: prepare_one_def add_repo_worktree_def act_simps Let_def started_as_told_def merges_of_def path_in_def
      dest!: merged_all start_ref_told split: option.splits prod.splits sum.splits)

lemma unwind_outcome:
  assumes "\<forall>p f. \<exists>f'. ho_rm h p f = (Inr (), f') \<and> \<not> ho_exists h p f'"
  shows "\<exists>d'. unwind h parent prepared repo e d = (Inl (rethrown repo e), d') \<and> \<not> ho_exists h parent (dk_fs d')"
proof -
  have 1: "\<exists>d'. for_each ps (\<lambda>p. ignoring (remove_worktree h p)) d = (Inr (), d')" for ps and d
    by (induction ps arbitrary: d) (auto simp: act_simps ignoring_def split: prod.splits sum.splits)
  from 1 obtain d1 where d1: "for_each prepared (\<lambda>p. ignoring (remove_worktree h p)) d = (Inr (), d1)" by blast
  from assms obtain f' where "ho_rm h parent (dk_fs d1) = (Inr (), f')" and "\<not> ho_exists h parent f'" by blast
  then show ?thesis by (simp add: unwind_def act_simps d1 rm_def)
qed

lemma prepare_loop_outcome:
  fixes h :: "'f host"
  assumes rm: "\<forall>p f. \<exists>f'. ho_rm h p f = (Inr (), f') \<and> \<not> ho_exists h p f'"
  shows "case prepare_loop h o' cache_root parent repos prepared d of
     (Inl e, d') \<Rightarrow> \<not> ho_exists h parent (dk_fs d') \<and> (\<exists>repo\<in>set repos. names_repo repo e)
   | (Inr ps, d') \<Rightarrow> \<exists>new. ps = prepared @ new \<and> list_all2 (started_as_told o' parent) repos new"
proof (induction repos arbitrary: prepared d)
  case (Cons repo repos)
  obtain r d1 where r: "prepare_one h o' cache_root parent repo d = (r, d1)" by fastforce
  then have att: "attempt (prepare_one h o' cache_root parent repo) d = (Inr r, d1)"
    by (cases r) (simp_all add: attempt_def act_simps)
  show ?case
  proof (cases r)
    case (Inl e)
    have "concerns repo e" using throws_prepare_one r Inl unfolding throws_def by fast
    moreover obtain d' where "(unwind h parent prepared repo e :: ('f, repo_worktree list) fs) d1 = (Inl (rethrown repo e), d')" and "\<not> ho_exists h parent (dk_fs d')"
      using unwind_outcome [OF rm] by blast
    ultimately show ?thesis by (simp add: act_simps att Inl rethrown_names)
  next
    case (Inr p)
    have "started_as_told o' parent repo p" using prepare_one_told r Inr by blast
    moreover have "prepare_loop h o' cache_root parent (repo # repos) prepared d = prepare_loop h o' cache_root parent repos (prepared @ [p]) d1"
      by (simp add: act_simps att Inr)
    ultimately show ?thesis using Cons.IH [of "prepared @ [p]" d1]
      by (auto simp: list_all2_Cons1 split: prod.splits sum.splits)
  qed
qed (simp add: act_simps)

text \<open>
  Preparation is all or nothing: when removing a directory removes it, a failed preparation leaves no
  workspace of the run behind and its error names one of the run's repositories; a successful one yields one
  worktree per repository, in order, each detached at the branch it was told to continue (or its default
  branch) with exactly the told branches merged.
\<close>

theorem preparation_is_all_or_nothing:
  assumes "\<forall>p f. \<exists>f'. ho_rm h p f = (Inr (), f') \<and> \<not> ho_exists h p f'"
    and "\<forall>p f. \<exists>f'. ho_mkdir h p f = (Inr (), f')"
    and "repos \<noteq> []"
  shows "case prepare_all h repos run worktree_root cache_root o' d of
     (Inl e, d') \<Rightarrow> \<not> ho_exists h (worktree_root @ ''/'' @ run) (dk_fs d') \<and> (\<exists>repo\<in>set repos. names_repo repo e)
   | (Inr (dir, ps), d') \<Rightarrow> dir = worktree_root @ ''/'' @ run \<and> list_all2 (started_as_told o' dir) repos ps"
proof -
  let ?parent = "path_in worktree_root run"
  have made: "\<exists>d'. mkdir h p d = (Inr (), d')" for p d
    using assms(2) [rule_format, of p "dk_fs d"] by (auto simp: mkdir_def)
  from made obtain d1 where "mkdir h cache_root d = (Inr (), d1)" by blast
  moreover from made obtain d2 where "mkdir h ?parent d1 = (Inr (), d2)" by blast
  moreover note prepare_loop_outcome [OF assms(1), where o' = o' and cache_root = cache_root and parent = ?parent
      and repos = repos and prepared = "[]" and d = d2]
  ultimately show ?thesis using assms(3)
    by (auto simp: prepare_all_def Let_def act_simps path_in_def split: prod.splits sum.splits)
qed

definition failing_host :: "string set host" where
  "failing_host = \<lparr>ho_git = (\<lambda>args cwd f. (Inl ''no route to host'', f)), ho_exists = (\<lambda>p f. p \<in> f),
     ho_mkdir = (\<lambda>p f. (Inr (), insert p f)), ho_rm = (\<lambda>p f. (Inr (), f - {p})), ho_aborted = (\<lambda>f. None)\<rparr>"

theorem preparation_is_all_or_nothing_witness:
  "case prepare_all failing_host [demo_repo] ''r'' ''/w'' ''/c'' demo_options \<lparr>dk_fs = {}, dk_log = [], dk_removed = []\<rparr> of
     (Inl e, d') \<Rightarrow> \<not> ho_exists failing_host (''/w'' @ ''/'' @ ''r'') (dk_fs d') \<and> (\<exists>repo\<in>set [demo_repo]. names_repo repo e)
   | (Inr (dir, ps), d') \<Rightarrow> dir = ''/w'' @ ''/'' @ ''r'' \<and> list_all2 (started_as_told demo_options dir) [demo_repo] ps"
  by (rule preparation_is_all_or_nothing) (simp_all add: failing_host_def)

end
