(* ===== verification/Wrapper.thy ===== *)
theory Wrapper
  imports PriorWork "HOL-Library.List_Lexorder"
begin

text \<open>
  The system prompt of a run (\<open>libs/executors/src/claude-cli/wrapper.ts\<close>): header, task, repositories,
  linked tickets, verified gates, the reporting protocol of the channel and the rules. Dashes stand for
  the typographic ones. \<open>localeCompare\<close> depends on the installation and is the argument \<open>by_locale\<close>, a
  sort of pairs.
\<close>

section \<open>The fixed sections\<close>

definition STRUCTURED_OUTPUT :: "string list" where
  "STRUCTURED_OUTPUT = [
     ''No MCP tools are available in this session (Phase 0). When you are completely finished, return your final answer '' @
       ''strictly as JSON conforming to the provided report schema. Do not include any other text after the JSON.'',
     ''- outcome='' @ [CHR 0x22] @ ''success'' @ [CHR 0x22] @
       '' ONLY if every required check actually passed in this session. Never claim a check passed without running it.'',
     ''- outcome='' @ [CHR 0x22] @ ''failure'' @ [CHR 0x22] @
       '' if something required failed - report each check honestly with its status and reason.'',
     ''- outcome='' @ [CHR 0x22] @ ''needs_human'' @ [CHR 0x22] @
       '' if you are blocked or requirements are ambiguous and cannot proceed - include a human_task describing the question '' @ ''or blocker.'']"

definition CALLBACK_TOOLS :: "string list" where
  "CALLBACK_TOOLS = [
     ''You have three tools to communicate with the orchestrator - they are your ONLY voice. Do not print a JSON report; '' @
       ''call the tools instead.'',
     ''- mcp__brigadir__report_progress(stage, message[, percent]) - call this at stage boundaries so your progress is '' @
       ''visible on the run timeline.'',
     ''- mcp__brigadir__request_human(kind, title, details, blocking) - ask a human a question or flag a blocker. blocking=true '' @
       ''pauses the run until a person answers; blocking=false leaves a note without stopping your work. Write '' @ [CHR 0x60] @ ''details'' @
       [CHR 0x60] @ '' in Markdown (headings, lists, '' @ [CHR 0x60] @ ''code'' @ [CHR 0x60] @
       '', fenced code blocks, **bold**, links) - a person reads it in a rendered viewer, so structure it to be scannable; '' @ ''keep '' @
       [CHR 0x60] @ ''title'' @ [CHR 0x60] @ '' a plain-text one-liner. You may attach '' @ [CHR 0x60] @
       ''options: [{label, value?, description?}]'' @ [CHR 0x60] @
       '' (max 5; value defaults to label) - one-click suggested answers, also accepted on complete_task'' @ [CHR 0x27] @
       ''s human_task; offer them whenever the answer is a choice, not an essay.'',
     ''- mcp__brigadir__complete_task(schema_version, outcome, summary, checks[, human_task][, artifacts]) - finish the '' @
       ''run. This is the single normal way to end a session.'',
     ''You also have read-only Jira tools - eyes, not voice: mcp__brigadir__get_project_overview() for the board type, '' @
       ''workflow status names, issue types, and active sprint; mcp__brigadir__search_tickets(text?, status?, issue_type?) '' @
       ''to find tickets in this workspace; mcp__brigadir__get_ticket(key) for a ticket'' @ [CHR 0x27] @
       ''s full description, latest comments, and links. Use them whenever you need more context than this prompt carries; '' @
       ''they cannot change anything in Jira.'',
     ''Infrastructure failure handling: if any '' @ [CHR 0x60] @ ''mcp__brigadir__*'' @ [CHR 0x60] @ '' tool fails three times in a row with '' @
       [CHR 0x60] @ ''network error'' @ [CHR 0x60] @ '' or '' @ [CHR 0x60] @ ''fetch failed'' @ [CHR 0x60] @
       '', immediately call mcp__brigadir__request_human(blocking=true, title='' @ [CHR 0x27] @ ''MCP callback channel unreachable'' @ [CHR 0x27] @
       '', details=...) and stop the session. Do not retry the same tool more than three times yourself.'',
     ''Never wait in-session for ANY precondition - not CI, not a deploy, not another ticket, not a human answer, not '' @
       ''infrastructure recovery. Do not use '' @ [CHR 0x60] @ ''ScheduleWakeup'' @ [CHR 0x60] @ '', '' @ [CHR 0x60] @ ''Bash sleep'' @ [CHR 0x60] @
       '', or '' @ [CHR 0x60] @ ''until false'' @ [CHR 0x60] @
       '' polling loops to wait; sleep-based waiting is blocked by the harness. If forward progress needs a condition that '' @
       ''does not hold right now, end the session instead: call mcp__brigadir__request_human(blocking=true, ...) when a '' @
       ''person must act or answer, or mcp__brigadir__complete_task(outcome='' @ [CHR 0x22] @ ''failure'' @ [CHR 0x22] @ '' or '' @ [CHR 0x22] @
       ''needs_human'' @ [CHR 0x22] @ '') describing exactly what you are waiting for - the platform restarts the run when the condition holds.'',
     ''- outcome='' @ [CHR 0x22] @ ''success'' @ [CHR 0x22] @
       '' ONLY if every required check actually passed in this session. Never claim a check passed without running it.'',
     ''- outcome='' @ [CHR 0x22] @ ''failure'' @ [CHR 0x22] @
       '' if something required failed - report each check honestly with its status and reason.'',
     ''- outcome='' @ [CHR 0x22] @ ''needs_human'' @ [CHR 0x22] @
       '' if you are blocked or requirements are ambiguous and cannot proceed - include a human_task describing the question '' @ ''or blocker.'',
     ''- You must call complete_task, or request_human with blocking=true, before your session ends - a session that ends '' @
       ''silently is recorded as a failed run.'']"

definition VERIFY_INTRO :: "string list" where
  "VERIFY_INTRO = [
     ''## Verification and QA'',
     ''When you verify or QA changes, do the cheap thing first - do NOT stand up a full development stack inside this '' @ ''run.'']"

definition DEPENDENCIES_INSTALLED :: string where
  "DEPENDENCIES_INSTALLED =
     ''- Dependencies are ALREADY INSTALLED in every repository marked '' @ [CHR 0x22] @ ''bootstrap already ran'' @ [CHR 0x22] @
       '' above - do not run '' @ [CHR 0x60] @ ''npm ci'' @ [CHR 0x60] @ '' / '' @ [CHR 0x60] @ ''npm install'' @ [CHR 0x60] @
       '' (or the equivalent) there again; go straight to the checks.''"

definition VERIFY_RULES :: "string list" where
  "VERIFY_RULES = [
     ''- Do not boot a full dev stack ('' @ [CHR 0x60] @ ''docker compose up'' @ [CHR 0x60] @ '', '' @ [CHR 0x60] @ ''npm ci'' @ [CHR 0x60] @
       '', a long-running '' @ [CHR 0x60] @ ''npm run start:dev'' @ [CHR 0x60] @ '' / '' @ [CHR 0x60] @ ''npm run dev'' @ [CHR 0x60] @
       '', or any equivalent) if bringing it up would take more than about 5 minutes. It routinely eats the whole run budget '' @
       ''and is a leading cause of runs timing out with nothing to show.'',
     ''- Prefer unit tests, integration tests, and static analysis (type-check, lint, build) - they give you the same '' @
       ''confidence in seconds instead of minutes, and are what the required checks actually gate on.'',
     ''- If live end-to-end testing is genuinely critical, first check whether the services are ALREADY running and reachable '' @
       ''(e.g. curl / health-check the expected host:port) and use them if so. If they are NOT reachable, do not try to '' @
       ''boot them yourself - call mcp__brigadir__request_human(blocking=true, title='' @ [CHR 0x27] @ ''Live test environment unavailable'' @
       [CHR 0x27] @ '', details=...) explaining exactly what environment you need, and stop.'']"

definition verification_section :: "bool \<Rightarrow> string list" where
  "verification_section any_bootstrap = VERIFY_INTRO @ (if any_bootstrap then [DEPENDENCIES_INSTALLED] else []) @ VERIFY_RULES"

section \<open>Linked tickets\<close>

definition LINKED_TICKETS_MAX :: nat where
  "LINKED_TICKETS_MAX = 10"

definition LINKED_TICKET_LINE_MAX :: nat where
  "LINKED_TICKET_LINE_MAX = 200"

definition LINKED_INTRO :: "string list" where
  "LINKED_INTRO = [
     ''## Linked tickets'',
     ''This ticket is blocked by the ticket(s) below. Where a branch is named, your worktree for that repository already '' @
       ''starts from it - the work is present, not something you need to fetch or merge:'']"

text \<open>The order of keys is that of their code units.\<close>

definition key_codes :: "string \<Rightarrow> nat list" where
  "key_codes k = map of_char k"

definition linked_line :: "linked_entry \<Rightarrow> string" where
  "linked_line e =
     (let line = ''- '' @ le_key e @ '' ['' @ le_status e @ '']'' @
            (case le_branch e of Some (c # cs) \<Rightarrow> '' branch: '' @ c # cs | _ \<Rightarrow> []) @
            (case le_pr_url e of Some (c # cs) \<Rightarrow> '' PR: '' @ c # cs | _ \<Rightarrow> [])
      in if LINKED_TICKET_LINE_MAX < length line then take (LINKED_TICKET_LINE_MAX - 1) line @ [CHR 0x85] else line)"

definition linked_tickets_section :: "linked_entry list \<Rightarrow> string list" where
  "linked_tickets_section es =
     (let sorted = sort_key (\<lambda>e. key_codes (le_key e)) es; shown = take LINKED_TICKETS_MAX sorted
      in LINKED_INTRO @ map linked_line shown @
         (if length shown < length sorted then [''(+'' @ show_nat (length sorted - length shown) @ '' more blocker(s) not listed)''] else []))"

section \<open>Repositories\<close>

datatype provenance = Pv_default | Pv_continue_own | Pv_inherited_blocker | Pv_merged_blockers

record wrapper_repo =
  wi_name :: string
  wi_abs_path :: string
  wi_default_branch :: string
  wi_continue :: "string option"
  wi_provenance :: "provenance option"
  wi_blocker :: "string option"
  wi_merged_from :: "(string \<times> string) list"
  wi_bootstrap :: "string option"

text \<open>An absent value in a template literal.\<close>

definition or_undefined :: "string option \<Rightarrow> string" where
  "or_undefined x = (case x of Some s \<Rightarrow> s | None \<Rightarrow> ''undefined'')"

definition bootstrap_note :: "wrapper_repo \<Rightarrow> string" where
  "bootstrap_note r = (case wi_bootstrap r of
     Some (c # cs) \<Rightarrow> '' [bootstrap already ran: '' @ [CHR 0x60] @ (c # cs) @ [CHR 0x60] @ '' - dependencies are installed, do not re-install]''
   | _ \<Rightarrow> [])"

definition provenance_of :: "wrapper_repo \<Rightarrow> provenance" where
  "provenance_of r = (case wi_provenance r of Some p \<Rightarrow> p
     | None \<Rightarrow> (case wi_continue r of Some (c # cs) \<Rightarrow> Pv_continue_own | _ \<Rightarrow> Pv_default))"

definition repo_line :: "wrapper_repo \<Rightarrow> string" where
  "repo_line r =
     ''- '' @ wi_name r @ '': '' @ wi_abs_path r @
     (case provenance_of r of
        Pv_inherited_blocker \<Rightarrow> '' (DEPENDENCY - branch '' @ or_undefined (wi_continue r) @ '' from '' @ or_undefined (wi_blocker r) @
          '', not yet in '' @ wi_default_branch r @ ''; read it and build against it, do not modify it unless the task says so)''
      | Pv_merged_blockers \<Rightarrow> '' (continues '' @ join_with '' merged with '' (map (\<lambda>(k, b). b @ '' from '' @ k) (wi_merged_from r)) @
          '' - already in your start point; open your PR against '' @ or_undefined (wi_continue r) @ '', not '' @ wi_default_branch r @ '')''
      | Pv_continue_own \<Rightarrow> '' (continue branch '' @ or_undefined (wi_continue r) @ '', based on '' @ wi_default_branch r @ '')''
      | Pv_default \<Rightarrow> '' (no prior branch; at '' @ wi_default_branch r @ '')'') @
     bootstrap_note r"

definition REPOSITORIES_INTRO :: "string list" where
  "REPOSITORIES_INTRO = [
     ''## Repositories'',
     ''Your workspace directory contains one sub-directory per repository. Each is checked out in DETACHED HEAD at the '' @
       ''commit this run must start from - creating and pushing branches is your job, not the system'' @ [CHR 0x27] @ ''s:'']"

definition REPOSITORY_RULES :: "string list" where
  "REPOSITORY_RULES = [
     ''Rules for working across repositories:'',
     ''- Decide from the ticket which of these repositories actually need changes; leave the others completely untouched.'',
     ''- Before your first commit in a repository you change, put yourself on a branch with '' @ [CHR 0x60] @ ''git switch -C <branch>'' @
       [CHR 0x60] @ '': continue the branch listed above when there is one; otherwise create a branch of your own choosing and report '' @
       ''it. The system suggests no name and creates no branch. Never commit on the detached HEAD.'',
     ''- A '' @ [CHR 0x22] @ ''continue branch'' @ [CHR 0x22] @
       '' is prior work on this ticket by an earlier stage, and your worktree is already at its tip. Build on it; never '' @
       ''start a competing branch.'',
     ''- Commit and push only in repositories you actually changed ('' @ [CHR 0x60] @ ''git push -u origin <branch>'' @ [CHR 0x60] @
       ''). Never commit, push, or open a PR in a repository you did not change.'',
     ''- If your changes in different repositories depend on each other, open a separate PR per repository and reference '' @
       ''each dependent PR in the other PR'' @ [CHR 0x27] @ ''s description.'',
     ''- Run the required checks/tests inside each repository you changed (and only there).'']"

definition REPORT_RULE :: string where
  "REPORT_RULE =
     '' - {repo, branch, pr_url, commits, files_changed} with schema_version: 2, using the repository names exactly as '' @
       ''listed above. Do not report untouched repositories. The next stage on this ticket starts from the branch you report '' @
       ''here, so a repository you changed but did not report will be invisible to it - and completing with local commits '' @
       ''in a repository you did not report is rejected: you will be asked to push and report it.''"

definition ON_DEMAND_INTRO :: string where
  "ON_DEMAND_INTRO =
     ''This ticket'' @ [CHR 0x27] @
       ''s Components scoped the run to the repositories above. These workspace repositories were NOT mounted; if the task '' @
       ''genuinely needs one, clone it on demand into '' @ [CHR 0x60] @ ''.repos/<name>'' @ [CHR 0x60] @ '' inside your workspace directory:''"

definition report_target :: "bool \<Rightarrow> string" where
  "report_target callback = (if callback then ''the '' @ [CHR 0x60] @ ''artifacts.repos'' @ [CHR 0x60] @ '' array of your complete_task call''
     else ''the '' @ [CHR 0x60] @ ''artifacts.repos'' @ [CHR 0x60] @ '' array of your final JSON report'')"

definition escape_hatch :: "(string \<times> string) list \<Rightarrow> string list" where
  "escape_hatch on_demand = (if on_demand = [] then [] else ON_DEMAND_INTRO # map (\<lambda>(n, url). ''- '' @ n @ '': '' @ url) on_demand)"

definition repositories_section :: "wrapper_repo list \<Rightarrow> bool \<Rightarrow> (string \<times> string) list \<Rightarrow> string list" where
  "repositories_section repos callback on_demand =
     REPOSITORIES_INTRO @ map repo_line repos @ REPOSITORY_RULES @
     [''- Report exactly one entry per CHANGED repository in '' @ report_target callback @ REPORT_RULE] @ escape_hatch on_demand"

section \<open>Verified gates\<close>

definition VERIFIED_RULE :: string where
  "VERIFIED_RULE =
     ''Do NOT re-run these checks on the unchanged code. Run only the checks your own role adds. The moment you commit '' @
       ''anything, every check above is unverified again and must be re-run before you report it passing. If you have a '' @
       ''concrete reason to distrust a recorded result, you may re-verify it - say why in your report.''"

text \<open>\<open>uid\<close> is the text of a run's id.\<close>

definition verified_gates_section :: "((string \<times> string) list \<Rightarrow> (string \<times> string) list) \<Rightarrow> (id \<Rightarrow> string) \<Rightarrow> verified_gates \<Rightarrow> string list" where
  "verified_gates_section by_locale uid v =
     [''## Already verified at this exact state'',
      ''A previous run on this ticket ('' @ vg_agent_role v @ '', run '' @ take 8 (uid (vg_run v)) @
        '') completed with every repository at exactly the commit your worktree is at now, and reported these checks passing:''] @
     map (\<lambda>g. ''- '' @ g) (vg_gates v) @
     [''(verified at: '' @ join_with '', '' (map (\<lambda>(r, sha). r @ ''@'' @ take 7 sha) (by_locale (vg_repo_shas v))) @ '')'', VERIFIED_RULE]"

section \<open>The whole text\<close>

record wrapper_options =
  wo_callback :: bool
  wo_feature_context :: "string option"
  wo_repos :: "wrapper_repo list"
  wo_on_demand :: "(string \<times> string) list"
  wo_linked :: "linked_entry list"
  wo_verified :: "verified_gates option"

text \<open>The ticket of the run: key, summary, description.\<close>

definition wrapper_header :: "(string \<times> string \<times> string) option \<Rightarrow> string list" where
  "wrapper_header tk = (case tk of
     Some (key, summary, description) \<Rightarrow> [''You are an autonomous coding agent working on Jira ticket '' @ key @ '': '' @ summary,
       (if description = [] then [] else CHR 0x0A # description)]
   | None \<Rightarrow> [''You are the workspace orchestrator preparing this workspace. There is no Jira ticket for this run.''])"

definition finish_rule :: "bool \<Rightarrow> string" where
  "finish_rule callback =
     (let failing = ''outcome='' @ [CHR 0x22] @ ''failure'' @ [CHR 0x22] @ '' or '' @ [CHR 0x22] @ ''needs_human'' @ [CHR 0x22] in
      if callback then ''- If you cannot finish, still call complete_task with '' @ failing @
        '' - never end the session without calling complete_task or a blocking request_human.''
      else ''- If you cannot finish, still return a JSON report with '' @ failing @ '' - never exit the session without one.'')"

definition has_bootstrap :: "wrapper_repo \<Rightarrow> bool" where
  "has_bootstrap r \<longleftrightarrow> (case wi_bootstrap r of Some (c # cs) \<Rightarrow> True | _ \<Rightarrow> False)"

definition wrapper_lines :: "((string \<times> string) list \<Rightarrow> (string \<times> string) list) \<Rightarrow> (id \<Rightarrow> string) \<Rightarrow>
    (string \<times> string \<times> string) option \<Rightarrow> string \<Rightarrow> string \<Rightarrow> wrapper_options \<Rightarrow> string list" where
  "wrapper_lines by_locale uid tk instruction dir o' =
     wrapper_header tk @ [[], ''## Your task'', instruction, []] @
     (if wo_repos o' \<noteq> [] then repositories_section (wo_repos o') (wo_callback o') (wo_on_demand o') @ [[]] else []) @
     (if wo_linked o' \<noteq> [] then linked_tickets_section (wo_linked o') @ [[]] else []) @
     (case wo_verified o' of Some v \<Rightarrow> if wo_callback o' then verified_gates_section by_locale uid v @ [[]] else [] | None \<Rightarrow> []) @
     [''## How to report your result''] @ (if wo_callback o' then CALLBACK_TOOLS else STRUCTURED_OUTPUT) @
     (if wo_callback o' then [] # verification_section (list_ex has_bootstrap (wo_repos o')) else []) @
     [[], ''## Rules'', ''- Work only inside this workspace directory ('' @ dir @ '').'',
      ''- Do not transition or comment the Jira ticket yourself - the system does that from your report.'', finish_rule (wo_callback o')] @
     (case wo_feature_context o' of Some (c # cs) \<Rightarrow> [[], c # cs] | _ \<Rightarrow> [])"

definition build_wrapper_text :: "((string \<times> string) list \<Rightarrow> (string \<times> string) list) \<Rightarrow> (id \<Rightarrow> string) \<Rightarrow>
    (string \<times> string \<times> string) option \<Rightarrow> string \<Rightarrow> string \<Rightarrow> wrapper_options \<Rightarrow> string" where
  "build_wrapper_text by_locale uid tk instruction dir o' = join_with [CHR 0x0A] (wrapper_lines by_locale uid tk instruction dir o')"

section \<open>What the prompt says\<close>

lemma cut_line: "0 < n \<Longrightarrow> length (if n < length l then take (n - 1) l @ [c] else l) \<le> n"
  by auto

lemma linked_line_bounded: "length (linked_line e) \<le> 200"
  unfolding linked_line_def Let_def LINKED_TICKET_LINE_MAX_def by (rule cut_line) simp

text \<open>
  The block of linked tickets is bounded and honest: at most ten blockers are listed, in the order of
  their keys and with lines of at most 200 characters, and what is left out is counted.
\<close>

theorem linked_tickets_are_bounded:
  "\<exists>shown. linked_tickets_section es = LINKED_INTRO @ map linked_line shown @
      (if length es \<le> 10 then [] else [''(+'' @ show_nat (length es - 10) @ '' more blocker(s) not listed)'']) \<and>
    length shown = min 10 (length es) \<and> set shown \<subseteq> set es \<and> sorted (map (\<lambda>e. key_codes (le_key e)) shown) \<and>
    (\<forall>e\<in>set shown. length (linked_line e) \<le> 200)"
  by (rule exI [of _ "take 10 (sort_key (\<lambda>e. key_codes (le_key e)) es)"])
    (auto simp: linked_tickets_section_def Let_def LINKED_TICKETS_MAX_def linked_line_bounded take_map [symmetric]
      intro: sorted_wrt_take dest: in_set_takeD)

end
