(* ===== verification/FeatureContext.thy ===== *)
theory FeatureContext
  imports Wrapper RunEnv
begin

text \<open>
  The feature-context section of the system prompt (\<open>feature-context.ts\<close>): the ticket's epic and linked
  issues as Jira answers them, with the branches and pull requests their last runs reported, cut down until
  the section fits its byte budget.
\<close>

section \<open>The section\<close>

definition MAX_LINKED_ISSUES :: nat where
  "MAX_LINKED_ISSUES = 20"

definition SUMMARY_MAX_CHARS :: nat where
  "SUMMARY_MAX_CHARS = 80"

definition LINE_MAX_CHARS :: nat where
  "LINE_MAX_CHARS = 200"

definition SECTION_MAX_BYTES :: nat where
  "SECTION_MAX_BYTES = 2048"

record context_issue =
  fi_key :: string
  fi_status :: string
  fi_summary :: string

record feature_context =
  fc_epic :: "(string \<times> string) option"
  fc_linked :: "context_issue list"

definition ELLIPSIS :: char where
  "ELLIPSIS = CHR 0x85"

definition truncate_line :: "string \<Rightarrow> nat \<Rightarrow> string" where
  "truncate_line v n = (if n < length v then take (n - 1) v @ [ELLIPSIS] else v)"

text \<open>The bytes of the text in UTF-8; the ellipsis has three.\<close>

definition byte_length :: "string \<Rightarrow> nat" where
  "byte_length s = sum_list (map (\<lambda>ch. if ch = ELLIPSIS then 3 else env_byte_length [ch]) s)"

definition reported_entries :: "run \<Rightarrow> normalized_artifact list" where
  "reported_entries r = (case r_report r of None \<Rightarrow> []
     | Some rep \<Rightarrow> filter (\<lambda>a. truthy (na_branch a) \<noteq> None \<or> truthy (na_pr_url a) \<noteq> None) (normalize_report_artifacts rep))"

text \<open>\<open>db\<close> is Postgres' order by creation, newest first.\<close>

definition latest_artifacts :: "(run list \<Rightarrow> run list) \<Rightarrow> world \<Rightarrow> id \<Rightarrow> string \<Rightarrow> normalized_artifact list option" where
  "latest_artifacts db w ws key =
     (let rows = db (filter (\<lambda>r. case Option.bind (r_ticket r) (\<lambda>i. find_ticket i w) of None \<Rightarrow> False
            | Some t \<Rightarrow> t_workspace t = ws \<and> t_jira_key t = key) (w_runs w))
      in find (\<lambda>es. es \<noteq> []) (map reported_entries (take 5 rows)))"

definition artifact_lines_of :: "normalized_artifact \<Rightarrow> string list" where
  "artifact_lines_of a =
     (let prefix = (case truthy (na_repo a) of None \<Rightarrow> [] | Some r \<Rightarrow> r @ '': '') in
      (case truthy (na_branch a) of None \<Rightarrow> [] | Some b \<Rightarrow> [truncate_line (''  branch: '' @ prefix @ b) LINE_MAX_CHARS]) @
      (case truthy (na_pr_url a) of None \<Rightarrow> [] | Some u \<Rightarrow> [truncate_line (''  PR: '' @ prefix @ u) LINE_MAX_CHARS]))"

definition issue_lines :: "(string \<Rightarrow> normalized_artifact list option) \<Rightarrow> bool \<Rightarrow> context_issue \<Rightarrow> string list" where
  "issue_lines artifacts with_artifacts i =
     (''- '' @ fi_key i @ '' ['' @ fi_status i @ ''] '' @ truncate_line (fi_summary i) SUMMARY_MAX_CHARS) #
     (if with_artifacts then concat (map artifact_lines_of (the_default [] (artifacts (fi_key i)))) else [])"

definition render_context :: "feature_context \<Rightarrow> (string \<Rightarrow> normalized_artifact list option) \<Rightarrow> context_issue list \<Rightarrow> bool \<Rightarrow> string" where
  "render_context ctx artifacts issues with_artifacts =
     (let dropped = length (fc_linked ctx) - length issues in
      join_with newline
        ([''## Feature context''] @
         (case fc_epic ctx of None \<Rightarrow> [] | Some (key, status) \<Rightarrow> [''Epic: '' @ key @ '' ['' @ status @ '']'']) @
         (if issues = [] then []
          else [[], ''Linked issues:''] @ concat (map (issue_lines artifacts with_artifacts) issues) @
            (if 0 < dropped then [ELLIPSIS # ''and '' @ show_nat dropped @ '' more''] else []))))"

definition fits_section :: "string \<Rightarrow> bool" where
  "fits_section t \<longleftrightarrow> byte_length t \<le> SECTION_MAX_BYTES"

text \<open>The loop that drops issues from the end until the text fits.\<close>

function shrink :: "feature_context \<Rightarrow> (string \<Rightarrow> normalized_artifact list option) \<Rightarrow> context_issue list \<Rightarrow> string \<Rightarrow>
    string \<times> context_issue list" where
  "shrink ctx artifacts shown text =
     (if fits_section text \<or> shown = [] then (text, shown)
      else shrink ctx artifacts (butlast shown) (render_context ctx artifacts (butlast shown) False))"
  by pat_completeness auto
termination by (relation "measure (\<lambda>(_, _, shown, _). length shown)") auto

definition context_text :: "feature_context \<Rightarrow> (string \<Rightarrow> normalized_artifact list option) \<Rightarrow> string \<times> context_issue list" where
  "context_text ctx artifacts =
     (let shown = take MAX_LINKED_ISSUES (fc_linked ctx); text = render_context ctx artifacts shown True in
      shrink ctx artifacts shown (if fits_section text then text else render_context ctx artifacts shown False))"

text \<open>\<open>answer\<close> is what Jira's client returns for the ticket, or its failure.\<close>

definition build_feature_context_section :: "(run list \<Rightarrow> run list) \<Rightarrow> world \<Rightarrow> id \<Rightarrow> 'e + feature_context \<Rightarrow> string option" where
  "build_feature_context_section db w ws jira =
     (case jira of Inl e \<Rightarrow> None
      | Inr ctx \<Rightarrow> if fc_epic ctx = None \<and> fc_linked ctx = [] then None
          else Some (fst (context_text ctx (latest_artifacts db w ws))))"

section \<open>The budget\<close>

declare shrink.simps [simp del]

lemma shrink_result:
  assumes "body = render_context ctx artifacts shown b0"
  shows "\<exists>n k. shrink ctx artifacts shown body = (render_context ctx artifacts (take n shown) k, take n shown) \<and>
    (fits_section (render_context ctx artifacts (take n shown) k) \<or> take n shown = [])"
  using assms
proof (induction "length shown" arbitrary: shown body b0)
  case 0
  then show ?case by (subst shrink.simps) auto
next
  case (Suc m)
  show ?case
  proof (cases "fits_section body")
    case True
    then show ?thesis using Suc.prems by (subst shrink.simps) (auto intro!: exI [of _ "length shown"] exI [of _ b0])
  next
    case False
    have "m = length (butlast shown)" using Suc.hyps(2) by simp
    from Suc.hyps(1) [OF this refl] obtain n k where
      "shrink ctx artifacts (butlast shown) (render_context ctx artifacts (butlast shown) False) =
         (render_context ctx artifacts (take n (butlast shown)) k, take n (butlast shown))"
      "fits_section (render_context ctx artifacts (take n (butlast shown)) k) \<or> take n (butlast shown) = []" by blast
    moreover have "shown \<noteq> []" using Suc.hyps(2) by auto
    ultimately show ?thesis using False
      by (subst shrink.simps) (auto simp: butlast_conv_take intro!: exI [of _ "min n (length shown - 1)"] exI [of _ k])
  qed
qed

text \<open>
  The section stays within its budget: whatever Jira answers and the runs reported, it is at most 2048 bytes,
  or it lists no issue at all; and it shows the first linked issues, at most twenty, in Jira's order.
\<close>

theorem feature_context_is_bounded:
  assumes "build_feature_context_section db w ws jira = Some body" and "jira = Inr ctx"
  shows "\<exists>n k. n \<le> 20 \<and> body = render_context ctx (latest_artifacts db w ws) (take n (fc_linked ctx)) k \<and>
    (byte_length body \<le> 2048 \<or> take n (fc_linked ctx) = [])"
proof -
  let ?shown = "take MAX_LINKED_ISSUES (fc_linked ctx)" and ?art = "latest_artifacts db w ws"
  let ?t = "render_context ctx ?art ?shown True"
  have "\<exists>b0. (if fits_section ?t then ?t else render_context ctx ?art ?shown False) = render_context ctx ?art ?shown b0" by auto
  then obtain b0 where "(if fits_section ?t then ?t else render_context ctx ?art ?shown False) = render_context ctx ?art ?shown b0" by blast
  from shrink_result [OF this] obtain n k where
    "context_text ctx ?art = (render_context ctx ?art (take n ?shown) k, take n ?shown)"
    "fits_section (render_context ctx ?art (take n ?shown) k) \<or> take n ?shown = []"
    by (auto simp: context_text_def Let_def)
  moreover have "body = fst (context_text ctx ?art)" using assms by (auto simp: build_feature_context_section_def split: if_splits)
  moreover have "take n ?shown = take (min n 20) (fc_linked ctx)" by (simp add: MAX_LINKED_ISSUES_def)
  ultimately show ?thesis
    by (intro exI [of _ "min n 20"] exI [of _ k]) (auto simp: fits_section_def SECTION_MAX_BYTES_def)
qed

end
