(* ===== verification/ExecutorGate.thy ===== *)
theory ExecutorGate
  imports Ingest JsonText
begin

text \<open>
  The parallelism limits of the worker: the gate every job passes before it is executed
  (\<open>apps/worker/src/executor-gate.ts\<close>), with its cap per executor profile and per model, and the
  capacity of a queue's worker (\<open>executor-concurrency.ts\<close>). The log lines and the memory of which
  malformed setting was already warned about are left out. A time to live that is no number
  (\<open>NaN\<close>) is \<^const>\<open>None\<close>.
\<close>

section \<open>Model limits\<close>

definition AT_CAPACITY_TTL_MS :: rat where
  "AT_CAPACITY_TTL_MS = 1000"

definition DISABLED_TTL_MS :: rat where
  "DISABLED_TTL_MS = 15000"

definition MODEL_AT_CAPACITY_TTL_MS :: rat where
  "MODEL_AT_CAPACITY_TTL_MS = 1000"

definition NEAR_CAPACITY_FRACTION :: rat where
  "NEAR_CAPACITY_FRACTION = 3 / 4"

text \<open>An empty setting is falsy, like a missing one.\<close>

definition ttl_override :: "vars \<Rightarrow> rat option option" where
  "ttl_override V = (case V ''EXECUTOR_GATE_TTL_MS'' of None \<Rightarrow> None
     | Some raw \<Rightarrow> if raw = [] then None else Some (js_value (js_trim raw)))"

fun positive_integer :: "json \<Rightarrow> int option" where
  "positive_integer (JNum q) = (if q = rat_of_int \<lfloor>q\<rfloor> \<and> 0 < q then Some \<lfloor>q\<rfloor> else None)"
| "positive_integer _ = None"

definition parse_model_limits :: "string option \<Rightarrow> (string \<times> int) list" where
  "parse_model_limits raw =
     (case raw of None \<Rightarrow> []
      | Some s \<Rightarrow> if s = [] then [] else
          (case json_parse s of
             Some (JObj entries) \<Rightarrow> List.map_filter (\<lambda>(model, limit). map_option (Pair model) (positive_integer limit)) entries
           | _ \<Rightarrow> []))"

section \<open>The decision\<close>

datatype limit_kind = By_profile | By_model

record near_capacity =
  nc_kind :: limit_kind
  nc_running :: int
  nc_limit :: int

datatype gate_reason = At_capacity | Disabled | Model_at_capacity

datatype gate_verdict =
    Admit "near_capacity option"
  | Hold gate_reason "rat option" string "string option"

record gate_inputs =
  g_profile :: string
  g_enabled :: bool
  g_max_parallel_runs :: int
  g_profile_running :: int
  g_model :: "string option"
  g_model_limit :: "int option"
  g_model_running :: "int option"
  g_ttl_override :: "rat option option"

definition ttl_or :: "rat option option \<Rightarrow> rat \<Rightarrow> rat option" where
  "ttl_or o' d = (case o' of None \<Rightarrow> Some d | Some t \<Rightarrow> t)"

definition utilization :: "near_capacity \<Rightarrow> rat" where
  "utilization d = of_int (nc_running d) / of_int (nc_limit d)"

definition decide_gate :: "gate_inputs \<Rightarrow> gate_verdict" where
  "decide_gate i =
     (if \<not> g_enabled i then Hold Disabled (ttl_or (g_ttl_override i) DISABLED_TTL_MS) (g_profile i) None
      else if g_max_parallel_runs i \<le> g_profile_running i
      then Hold At_capacity (ttl_or (g_ttl_override i) AT_CAPACITY_TTL_MS) (g_profile i) None
      else
        let cap = (if g_model i = None then None else g_model_limit i);
            model_running = (case g_model_running i of None \<Rightarrow> 0 | Some n \<Rightarrow> n)
        in (case cap of
              Some limit \<Rightarrow>
                if limit \<le> model_running
                then Hold Model_at_capacity (ttl_or (g_ttl_override i) MODEL_AT_CAPACITY_TTL_MS) (g_profile i) (g_model i)
                else let p = \<lparr>nc_kind = By_profile, nc_running = g_profile_running i + 1, nc_limit = g_max_parallel_runs i\<rparr>;
                         m = \<lparr>nc_kind = By_model, nc_running = model_running + 1, nc_limit = limit\<rparr>;
                         tightest = (if utilization p < utilization m then m else p)
                     in Admit (if NEAR_CAPACITY_FRACTION \<le> utilization tightest then Some tightest else None)
            | None \<Rightarrow>
                let p = \<lparr>nc_kind = By_profile, nc_running = g_profile_running i + 1, nc_limit = g_max_parallel_runs i\<rparr>
                in Admit (if NEAR_CAPACITY_FRACTION \<le> utilization p then Some p else None)))"

section \<open>The counts\<close>

text \<open>\<open>config->>'model'\<close>: the text Postgres gives for a member, \<open>NULL\<close> for JSON null.\<close>

definition config_text :: "json \<Rightarrow> string \<Rightarrow> string option" where
  "config_text c k = (case jget c k of None \<Rightarrow> None | Some JNull \<Rightarrow> None | Some (JStr s) \<Rightarrow> Some s
     | Some j \<Rightarrow> Some (json_stringify j))"

definition executor_of_run :: "world \<Rightarrow> run \<Rightarrow> executor option" where
  "executor_of_run w r = (case find_agent (r_agent r) w of None \<Rightarrow> None | Some a \<Rightarrow> find_executor (a_executor a) w)"

definition running_on_profile :: "id \<Rightarrow> world \<Rightarrow> int" where
  "running_on_profile x w = int (length (filter (\<lambda>r. r_status r = Running \<and>
     (case find_agent (r_agent r) w of None \<Rightarrow> False | Some a \<Rightarrow> a_executor a = x)) (w_runs w)))"

definition running_on_model :: "string \<Rightarrow> world \<Rightarrow> int" where
  "running_on_model m w = int (length (filter (\<lambda>r. r_status r = Running \<and>
     (case executor_of_run w r of None \<Rightarrow> False | Some x \<Rightarrow> config_text (x_config x) ''model'' = Some m)) (w_runs w)))"

definition model_limit :: "vars \<Rightarrow> string \<Rightarrow> int option" where
  "model_limit V m = map_of (parse_model_limits (V ''EXECUTOR_MODEL_LIMITS'')) m"

definition gate_inputs_of :: "vars \<Rightarrow> executor \<Rightarrow> world \<Rightarrow> gate_inputs" where
  "gate_inputs_of V x w =
     (if \<not> x_enabled x
      then \<lparr>g_profile = x_name x, g_enabled = False, g_max_parallel_runs = x_max_parallel_runs x,
            g_profile_running = 0, g_model = None, g_model_limit = None, g_model_running = None,
            g_ttl_override = ttl_override V\<rparr>
      else let model = jget_str (x_config x) ''model''; limit = Option.bind model (model_limit V) in
           \<lparr>g_profile = x_name x, g_enabled = True, g_max_parallel_runs = x_max_parallel_runs x,
            g_profile_running = running_on_profile (x_id x) w, g_model = model, g_model_limit = limit,
            g_model_running = (case (model, limit) of (Some m, Some l) \<Rightarrow> Some (running_on_model m w) | _ \<Rightarrow> None),
            g_ttl_override = ttl_override V\<rparr>)"

text \<open>A run, agent or profile that is missing is not the gate's business.\<close>

definition check_executor_gate :: "vars \<Rightarrow> id \<Rightarrow> gate_verdict handler" where
  "check_executor_gate V i = gets (\<lambda>w.
     case Option.bind (find_run i w) (executor_of_run w) of
       None \<Rightarrow> Admit None
     | Some x \<Rightarrow> decide_gate (gate_inputs_of V x w))"

section \<open>The capacity of a queue\<close>

definition upper_char :: "char \<Rightarrow> char" where
  "upper_char c = (let n = (of_char c :: nat) in if 97 \<le> n \<and> n \<le> 122 then char_of (n - 32) else c)"

definition ceiling_names :: "string \<Rightarrow> string list" where
  "ceiling_names ty = [''EXECUTOR_MAX_TYPE_CONCURRENCY_'' @ map upper_char ty, ''EXECUTOR_MAX_TYPE_CONCURRENCY'']"

definition ceiling_value :: "vars \<Rightarrow> string \<Rightarrow> int option" where
  "ceiling_value V name = (case V name of None \<Rightarrow> None
     | Some raw \<Rightarrow> if raw = [] then None else
         (case js_number (js_trim raw) of None \<Rightarrow> None
          | Some q \<Rightarrow> if q = rat_of_int \<lfloor>q\<rfloor> \<and> 1 \<le> q then Some \<lfloor>q\<rfloor> else None))"

definition type_capacity_ceiling :: "vars \<Rightarrow> string \<Rightarrow> int option" where
  "type_capacity_ceiling V ty =
     (case List.map_filter (ceiling_value V) (ceiling_names ty) of [] \<Rightarrow> None | c # cs \<Rightarrow> Some c)"

text \<open>The new \<open>worker.concurrency\<close>; no enabled profile leaves it as it is.\<close>

definition apply_executor_concurrency :: "vars \<Rightarrow> string \<Rightarrow> int \<Rightarrow> int handler" where
  "apply_executor_concurrency V ty before = gets (\<lambda>w.
     let total = sum_list (map x_max_parallel_runs (filter (\<lambda>x. x_type x = ty \<and> x_enabled x) (w_executors w))) in
     if 0 < total
     then (case type_capacity_ceiling V ty of Some c \<Rightarrow> min total c | None \<Rightarrow> total)
     else before)"

context base_relation
begin

lemma steps_gate [steps_intros]: "steps R (check_executor_gate V i)"
  unfolding check_executor_gate_def by (intro steps_intros)

end

section \<open>Properties\<close>

lemma count_changed:
  assumes "distinct (map k xs)" and "\<And>x. hit x \<Longrightarrow> k x = i"
  shows "length (filter P (map (\<lambda>x. if hit x then g x else x) xs)) \<le> Suc (length (filter P xs))"
  using assms(1)
proof (induction xs)
  case (Cons y ys)
  show ?case
  proof (cases "hit y")
    case True
    then have "\<not> hit z" if "z \<in> set ys" for z
      using Cons.prems that assms(2) True by (auto simp: image_iff)
    then have "map (\<lambda>x. if hit x then g x else x) ys = ys" by (rule map_if_id)
    then show ?thesis by simp
  next
    case False
    then show ?thesis using Cons by auto
  qed
qed simp

text \<open>Starting one run adds at most one to the number of running runs of any kind.\<close>

lemma update_run_count:
  assumes "distinct (map r_id (w_runs w))" and "update_run i Q f w = (Inr True, w')"
  shows "w_agents w' = w_agents w \<and> w_executors w' = w_executors w \<and>
    length (filter P (w_runs w')) \<le> Suc (length (filter P (w_runs w)))"
proof (cases rule: update_run_cases [of i Q f w])
  case hit
  have w': "w' = w\<lparr>w_runs := map (\<lambda>r. if r_id r = i \<and> Q r then f (w_now w) r else r) (w_runs w)\<rparr>"
    using assms(2) hit(1) by simp
  show ?thesis
    using count_changed [OF assms(1), of "\<lambda>r. r_id r = i \<and> Q r" i P "f (w_now w)"]
    unfolding w' by (simp del: filter_map)
qed (use assms(2) in simp_all)

lemma admitted_inputs:
  assumes "find_run i w = Some r" and "executor_of_run w r = Some x"
    and "check_executor_gate V i w = (Inr (Admit nc), w)"
  shows "x_enabled x" "running_on_profile (x_id x) w < x_max_parallel_runs x"
    "jget_str (x_config x) ''model'' = Some m \<Longrightarrow> model_limit V m = Some l \<Longrightarrow> running_on_model m w < l"
  using assms
  by (auto simp: check_executor_gate_def act_simps gate_inputs_of_def decide_gate_def Let_def split: if_splits option.splits)

text \<open>
  The gate and the start of the run are separate statements (\<open>executor-gate.ts\<close>, lines 31-35): other
  pickups may start their runs in between. \<open>starts_between k w v\<close>: from \<open>w\<close> to \<open>v\<close> at most \<open>k\<close> runs were
  started, among writes that start none and leave the agents and profiles as they are.
\<close>

definition quiet :: "world \<Rightarrow> world \<Rightarrow> bool" where
  "quiet w v \<longleftrightarrow> w_agents v = w_agents w \<and> w_executors v = w_executors w \<and> distinct (map r_id (w_runs v)) \<and>
     (\<exists>rs new. w_runs v = rs @ new \<and> (\<forall>r\<in>set new. r_status r \<noteq> Running) \<and>
       list_all2 (\<lambda>r r'. r_agent r' = r_agent r \<and> (r_status r' = Running \<longrightarrow> r_status r = Running)) (w_runs w) rs)"

inductive starts_between :: "nat \<Rightarrow> world \<Rightarrow> world \<Rightarrow> bool" where
  no_start: "starts_between 0 w w"
| other_start: "starts_between k w v \<Longrightarrow> mark_running i n v = (Inr b, v') \<Longrightarrow> starts_between (Suc k) w v'"
| other_write: "starts_between k w v \<Longrightarrow> quiet v v' \<Longrightarrow> starts_between k w v'"

lemma quietI:
  assumes "w_agents v = w_agents w" and "w_executors v = w_executors w" and "distinct (map r_id (w_runs v))"
    and "w_runs v = map g (w_runs w) @ new" and "\<forall>r\<in>set new. r_status r \<noteq> Running"
    and "\<And>r. r_agent (g r) = r_agent r \<and> (r_status (g r) = Running \<longrightarrow> r_status r = Running)"
  shows "quiet w v"
  using assms unfolding quiet_def
  by (intro conjI exI [of _ "map g (w_runs w)"] exI [of _ new]) (simp_all add: list_all2_map2 list_all2_refl)

lemma quiet_count:
  assumes "quiet w v"
  shows "length (filter (\<lambda>r. r_status r = Running \<and> Q (r_agent r)) (w_runs v)) \<le>
    length (filter (\<lambda>r. r_status r = Running \<and> Q (r_agent r)) (w_runs w))"
proof -
  obtain rs new where v: "w_runs v = rs @ new" "\<forall>r\<in>set new. r_status r \<noteq> Running"
    "list_all2 (\<lambda>r r'. r_agent r' = r_agent r \<and> (r_status r' = Running \<longrightarrow> r_status r = Running)) (w_runs w) rs"
    using assms by (auto simp: quiet_def)
  have "filter (\<lambda>r. r_status r = Running \<and> Q (r_agent r)) new = []" using v(2) by (auto simp: filter_empty_conv)
  moreover have "length (filter (\<lambda>r. r_status r = Running \<and> Q (r_agent r)) rs) \<le>
      length (filter (\<lambda>r. r_status r = Running \<and> Q (r_agent r)) (w_runs w))"
    using v(3) by (induction rule: list_all2_induct) auto
  ultimately show ?thesis using v(1) by simp
qed

text \<open>Everything else the services do to a run is quiet: inserting a queued one, and every guarded update but the start.\<close>

lemma quiet_update_run:
  assumes "distinct (map r_id (w_runs w))"
    and "\<And>r t. P r \<Longrightarrow> r_id (f t r) = r_id r \<and> r_agent (f t r) = r_agent r \<and> (r_status (f t r) = Running \<longrightarrow> r_status r = Running)"
  shows "quiet w (snd (update_run i P f w))"
proof (cases rule: update_run_cases [of i P f w])
  case hit
  let ?g = "\<lambda>r. if r_id r = i \<and> P r then f (w_now w) r else r"
  have "map r_id (map ?g (w_runs w)) = map r_id (w_runs w)" using assms(2) by auto
  then show ?thesis
    using assms unfolding hit(1) snd_conv by (intro quietI [where g = ?g and new = "[]"]) (simp_all del: map_map)
qed (use assms(1) in \<open>auto intro!: quietI [where g = id and new = "[]"]\<close>)

lemma quiet_insert_run:
  assumes "world_ok w" and "r_status r0 = Queued"
  shows "quiet w (snd (insert_run r0 w))"
proof -
  have ids: "\<forall>r\<in>set (w_runs w). r_id r < w_next w" "distinct (map r_id (w_runs w))" using assms(1) by (simp_all add: world_ok_def)
  show ?thesis
  proof (cases "snd (insert_run r0 w) = w")
    case True
    then show ?thesis using ids by (intro quietI [where g = id and new = "[]"]) simp_all
  next
    case False
    then have "w_runs (snd (insert_run r0 w)) = w_runs w @ [r0\<lparr>r_id := w_next w, r_created := w_now w\<rparr>]"
      "w_agents (snd (insert_run r0 w)) = w_agents w" "w_executors (snd (insert_run r0 w)) = w_executors w"
      by (auto simp: insert_run_def Let_def split: if_splits)
    then show ?thesis using assms(2) ids by (intro quietI [where g = id and new = "[r0\<lparr>r_id := w_next w, r_created := w_now w\<rparr>]"]) auto
  qed
qed

text \<open>The two counts of the gate, as counts of running runs by a property of their agent.\<close>

lemma counts_by_agent:
  "\<exists>Q. running_on_profile x w = int (length (filter (\<lambda>r. r_status r = Running \<and> Q (r_agent r)) (w_runs w))) \<and>
     (\<forall>v. w_agents v = w_agents w \<longrightarrow> w_executors v = w_executors w \<longrightarrow>
       running_on_profile x v = int (length (filter (\<lambda>r. r_status r = Running \<and> Q (r_agent r)) (w_runs v))))"
  "\<exists>Q. running_on_model m w = int (length (filter (\<lambda>r. r_status r = Running \<and> Q (r_agent r)) (w_runs w))) \<and>
     (\<forall>v. w_agents v = w_agents w \<longrightarrow> w_executors v = w_executors w \<longrightarrow>
       running_on_model m v = int (length (filter (\<lambda>r. r_status r = Running \<and> Q (r_agent r)) (w_runs v))))"
  by (rule exI [of _ "\<lambda>a. case find_agent a w of None \<Rightarrow> False | Some a \<Rightarrow> a_executor a = x"];
      simp add: running_on_profile_def find_agent_def)
    (rule exI [of _ "\<lambda>a. case (case find_agent a w of None \<Rightarrow> None | Some a \<Rightarrow> find_executor (a_executor a) w) of
        None \<Rightarrow> False | Some x \<Rightarrow> config_text (x_config x) ''model'' = Some m"];
      unfold running_on_model_def executor_of_run_def find_agent_def find_executor_def; simp cong: option.case_cong)

lemma mark_running_cases:
  assumes "mark_running i n v = (Inr b, v')"
  shows "map r_id (w_runs v') = map r_id (w_runs v)" "\<not> b \<Longrightarrow> v' = v"
proof -
  let ?P = "\<lambda>r. r_status r = Queued \<or> r_status r = Running"
  let ?f = "\<lambda>now r. r\<lparr>r_status := Running, r_started := (case r_started r of None \<Rightarrow> Some now | s \<Rightarrow> s), r_attempt := max (r_attempt r) n\<rparr>"
  have "map r_id (w_runs v') = map r_id (w_runs v) \<and> (\<not> b \<longrightarrow> v' = v)"
    using assms unfolding mark_running_def by (cases rule: update_run_cases [of i ?P ?f v]) auto
  then show "map r_id (w_runs v') = map r_id (w_runs v)" "\<not> b \<Longrightarrow> v' = v" by blast+
qed

lemma starts_count:
  assumes "starts_between k w v" and "distinct (map r_id (w_runs w))"
  shows "w_agents v = w_agents w \<and> w_executors v = w_executors w \<and> distinct (map r_id (w_runs v)) \<and>
    length (filter (\<lambda>r. r_status r = Running \<and> Q (r_agent r)) (w_runs v)) \<le>
      length (filter (\<lambda>r. r_status r = Running \<and> Q (r_agent r)) (w_runs w)) + k"
  using assms
proof (induction rule: starts_between.induct)
  case (other_start k w v i n b v')
  let ?P = "\<lambda>r. r_status r = Running \<and> Q (r_agent r)"
  note IH = other_start.IH [OF other_start.prems]
  show ?case
  proof (cases b)
    case True
    have upd: "mark_running i n v = (Inr True, v')" using other_start.hyps(2) True by simp
    have "distinct (map r_id (w_runs v'))" using mark_running_cases [OF upd] IH by auto
    moreover have "distinct (map r_id (w_runs v))" using IH by blast
    from update_run_count [OF this upd [unfolded mark_running_def], of ?P] IH
    have "w_agents v' = w_agents w \<and> w_executors v' = w_executors w \<and>
        length (filter ?P (w_runs v')) \<le> length (filter ?P (w_runs w)) + Suc k" by auto
    ultimately show ?thesis by blast
  next
    case False
    then have "v' = v" using mark_running_cases [OF other_start.hyps(2)] by blast
    then show ?thesis using IH by simp
  qed
next
  case (other_write k w v v')
  from quiet_count [OF other_write.hyps(2)] other_write.IH [OF other_write.prems] other_write.hyps(2)
  show ?case by (fastforce simp: quiet_def intro: order_trans)
qed simp


text \<open>
  The race is real: two pickups ask the gate of a profile with one slot before either has started its
  run, both are admitted, and both runs are started.
\<close>

definition two_queued :: world where
  "two_queued = sample_world [sample_run 7 (Some 4) Queued, sample_run 8 (Some 5) Queued]"

lemma two_queued_ok: "world_ok two_queued"
  unfolding two_queued_def
  by (rule sample_world_ok) (auto simp: sample_run_def one_active_def index_clash_def)

lemma two_queued_admitted:
  "i = 7 \<or> i = 8 \<Longrightarrow> \<exists>r nc. find_run i two_queued = Some r \<and> executor_of_run two_queued r = Some sample_executor \<and>
     check_executor_gate (\<lambda>k. None) i two_queued = (Inr (Admit nc), two_queued)"
  by (auto simp: two_queued_def check_executor_gate_def act_simps gate_inputs_of_def decide_gate_def running_on_profile_def
      executor_of_run_def find_run_def find_agent_def find_executor_def sample_defs jget_str_def Let_def)

definition first_started :: world where
  "first_started = snd (mark_running 8 1 two_queued)"

lemma mark_8: "mark_running 8 1 two_queued = (Inr True, first_started)"
  unfolding first_started_def by (simp add: mark_running_def update_run_app Let_def two_queued_def sample_defs index_clash_def)

lemma mark_7: "mark_running 7 1 first_started = (Inr True, snd (mark_running 7 1 first_started))"
  unfolding first_started_def by (simp add: mark_running_def update_run_app Let_def two_queued_def sample_defs index_clash_def)

lemma over_admission:
  "running_on_profile (x_id sample_executor) (snd (mark_running 7 1 first_started)) = 2 \<and> x_max_parallel_runs sample_executor = 1"
  unfolding first_started_def
  by (simp add: mark_running_def update_run_app Let_def two_queued_def sample_defs index_clash_def running_on_profile_def find_agent_def)


text \<open>
  The gate counts the run it is asked about: a run that is still \<open>running\<close> when its job comes back is
  held by its own slot once the profile has no other.
\<close>

lemma running_run_holds_its_slot:
  assumes "find_run i w = Some r" and "r_status r = Running" and "executor_of_run w r = Some x"
    and "x_enabled x" and "x_max_parallel_runs x \<le> 1"
  shows "check_executor_gate V i w = (Inr (Hold At_capacity (ttl_or (ttl_override V) AT_CAPACITY_TTL_MS) (x_name x) None), w)"
proof -
  obtain a where a: "find_agent (r_agent r) w = Some a" "find_executor (a_executor a) w = Some x"
    using assms(3) by (auto simp: executor_of_run_def split: option.splits)
  then have "a_executor a = x_id x" by (auto simp: find_executor_def dest: find_Some_mem)
  moreover have "r \<in> set (w_runs w)" using find_run_Some [OF assms(1)] by simp
  ultimately have "r \<in> set (filter (\<lambda>r. r_status r = Running \<and>
      (case find_agent (r_agent r) w of None \<Rightarrow> False | Some a \<Rightarrow> a_executor a = x_id x)) (w_runs w))"
    using assms(2) a(1) by simp
  then have "1 \<le> running_on_profile (x_id x) w"
    unfolding running_on_profile_def by (cases "w_runs w") (auto dest: length_pos_if_in_set simp: Suc_le_eq)
  then show ?thesis
    using assms by (simp add: check_executor_gate_def act_simps gate_inputs_of_def decide_gate_def Let_def)
qed

text \<open>The capacity of a queue never exceeds the operator's ceiling nor the sum of the enabled profiles.\<close>

lemma capacity_bounded:
  assumes "apply_executor_concurrency V ty before w = (Inr c, w)" and "c \<noteq> before"
  shows "c \<le> sum_list (map x_max_parallel_runs (filter (\<lambda>x. x_type x = ty \<and> x_enabled x) (w_executors w))) \<and>
    (\<forall>m. type_capacity_ceiling V ty = Some m \<longrightarrow> c \<le> m)"
  using assms by (auto simp: apply_executor_concurrency_def act_simps Let_def split: if_splits option.splits)

end
