(* ===== verification/Outbox.thy ===== *)
theory Outbox
  imports Callback
begin

text \<open>
  The tool server's side of a completion (\<open>packages/mcp-server\<close>) and the files it shares with the
  worker (\<open>libs/executors/src/claude-cli/outbox.ts\<close>): the durable outbox, the channel breadcrumbs,
  the completion marker, the bounded retry loop and the HTTP surface of the callback API it talks
  to. The state is the database, the two directories of files and the in-memory counters of the
  worker; file operations succeed, apart
  from reading what is not there. A delivery of a request is one of the ways a network can treat it.
\<close>

section \<open>Files\<close>

text \<open>A directory is the list of its files, in the order \<open>readdir\<close> gives them.\<close>

record stored_file =
  f_name :: string
  f_text :: string
  f_mtime :: int

record node =
  n_world :: world
  n_outbox :: "stored_file list"
  n_channel :: "stored_file list"
  n_markers :: "string list"
  n_warned :: "string list"
  n_probe :: "(id \<times> nat) list"

type_synonym 'a task = "(node, error, 'a) act"

definition on_world :: "'a handler \<Rightarrow> 'a task" where
  "on_world m = (\<lambda>n. case m (n_world n) of (r, w) \<Rightarrow> (r, n\<lparr>n_world := w\<rparr>))"

definition read_file :: "string \<Rightarrow> stored_file list \<Rightarrow> string option" where
  "read_file name fs = map_option f_text (find (\<lambda>f. f_name f = name) fs)"

definition write_file :: "string \<Rightarrow> string \<Rightarrow> int \<Rightarrow> stored_file list \<Rightarrow> stored_file list" where
  "write_file name text t fs =
     (if \<exists>f\<in>set fs. f_name f = name
      then map (\<lambda>f. if f_name f = name then f\<lparr>f_text := text, f_mtime := t\<rparr> else f) fs
      else fs @ [\<lparr>f_name = name, f_text = text, f_mtime = t\<rparr>])"

definition remove_file :: "string \<Rightarrow> stored_file list \<Rightarrow> stored_file list" where
  "remove_file name fs = filter (\<lambda>f. f_name f \<noteq> name) fs"

section \<open>The outbox\<close>

definition outbox_file :: "string \<Rightarrow> string" where
  "outbox_file run = run @ ''.json''"

definition outbox_payload :: "string \<Rightarrow> json \<Rightarrow> int \<Rightarrow> json" where
  "outbox_payload run report now = JObj ([(''runId'', JStr run)] @ fld ''outcome'' id (jget report ''outcome'') @
     [(''report'', report), (''timestamp'', JStr (to_iso_string now))])"

definition write_outbox :: "string \<Rightarrow> json \<Rightarrow> unit task" where
  "write_outbox run report = modify (\<lambda>n.
     n\<lparr>n_outbox := write_file (outbox_file run)
         (json_stringify (outbox_payload run report (w_now (n_world n)))) (w_now (n_world n)) (n_outbox n)\<rparr>)"

text \<open>\<open>removeOutbox\<close> of the tool server and \<open>consumeOutbox\<close> of the worker are the same removal.\<close>

definition remove_outbox :: "string \<Rightarrow> unit task" where
  "remove_outbox run = modify (\<lambda>n. n\<lparr>n_outbox := remove_file (outbox_file run) (n_outbox n)\<rparr>)"

definition read_outbox_report :: "string \<Rightarrow> node \<Rightarrow> json option" where
  "read_outbox_report run n =
     (case Option.bind (read_file (outbox_file run) (n_outbox n)) json_parse of
        None \<Rightarrow> None
      | Some parsed \<Rightarrow>
          if jget parsed ''runId'' \<noteq> Some (JStr run) then None
          else (case jget parsed ''report'' of None \<Rightarrow> None | Some JNull \<Rightarrow> None | Some r \<Rightarrow> Some r))"

definition write_marker :: "string \<Rightarrow> unit task" where
  "write_marker run = modify (\<lambda>n. n\<lparr>n_markers := List.insert run (n_markers n)\<rparr>)"

text \<open>The Stop hook lets the session end once the marker is there, or on its second call.\<close>

definition decide_stop_hook :: "bool \<Rightarrow> bool \<Rightarrow> bool" where
  "decide_stop_hook marker_exists stop_hook_active = (marker_exists \<or> stop_hook_active)"

section \<open>Breadcrumbs\<close>

record exhaustion =
  xh_network :: bool
  xh_attempts :: nat
  xh_name :: string
  xh_message :: string
  xh_status :: "nat option"

definition MAX_BREADCRUMB_FILE_BYTES :: nat where
  "MAX_BREADCRUMB_FILE_BYTES = 65536"

definition breadcrumb_file :: "string \<Rightarrow> string" where
  "breadcrumb_file run = run @ ''.jsonl''"

definition breadcrumb_json :: "int \<Rightarrow> string \<Rightarrow> string \<Rightarrow> exhaustion \<Rightarrow> json" where
  "breadcrumb_json now target tool x = JObj ([(''ts'', JStr (to_iso_string now)), (''tool'', JStr tool),
       (''kind'', JStr (if xh_network x then ''network'' else ''http'')), (''attempts'', JNum (of_nat (xh_attempts x))),
       (''error'', JObj [(''name'', JStr (xh_name x)), (''message'', JStr (xh_message x))])] @
     fld ''status'' (\<lambda>s. JNum (of_nat s)) (xh_status x) @ [(''target'', JStr target)])"

definition append_breadcrumb :: "string \<Rightarrow> json \<Rightarrow> unit task" where
  "append_breadcrumb run rec = modify (\<lambda>n.
     let name = breadcrumb_file run; line = json_stringify rec @ [CHR 0x0A]; now = w_now (n_world n);
         old = (case read_file name (n_channel n) of None \<Rightarrow> [] | Some t \<Rightarrow> t)
     in if MAX_BREADCRUMB_FILE_BYTES \<le> length old then n
        else n\<lparr>n_channel := write_file name (old @ line) now (n_channel n)\<rparr>)"

section \<open>The retry loop\<close>

text \<open>What one attempt comes to: an exception of \<open>fetch\<close>, or a status with a body.\<close>

datatype fetch_result = Network_error string string | Response nat json

record callback_response =
  cr_status :: nat
  cr_body :: json
  cr_exhausted :: "exhaustion option"

text \<open>
  \<open>n\<close> and \<open>s\<close> count the network and the server errors seen; the two budgets bound the loop.
\<close>

function fetch_with_retry :: "nat \<Rightarrow> nat \<Rightarrow> (nat \<Rightarrow> 's \<Rightarrow> fetch_result \<times> 's) \<Rightarrow> nat \<Rightarrow> nat \<Rightarrow> 's \<Rightarrow> callback_response \<times> 's" where
  "fetch_with_retry max_network max_server request n s w =
     (case request (n + s) w of
        (Network_error name message, w') \<Rightarrow>
          if max_network < Suc n then
            (\<lparr>cr_status = 0,
              cr_body = JObj [(''ok'', JBool False), (''error'', JStr (''network error: '' @ name @ '': '' @ message))],
              cr_exhausted = Some \<lparr>xh_network = True, xh_attempts = Suc n, xh_name = name, xh_message = message, xh_status = None\<rparr>\<rparr>, w')
          else fetch_with_retry max_network max_server request (Suc n) s w'
      | (Response status body, w') \<Rightarrow>
          if 500 \<le> status then
            (if max_server < Suc s then
               (\<lparr>cr_status = status, cr_body = body,
                 cr_exhausted = Some \<lparr>xh_network = False, xh_attempts = Suc s, xh_name = ''HTTPError'',
                   xh_message = ''HTTP '' @ show_nat status, xh_status = Some status\<rparr>\<rparr>, w')
             else fetch_with_retry max_network max_server request n (Suc s) w')
          else (\<lparr>cr_status = status, cr_body = body, cr_exhausted = None\<rparr>, w'))"
  by pat_completeness auto
termination
  by (relation "measure (\<lambda>(mn, ms, r, n, s, w). (Suc mn - n) + (Suc ms - s))") auto

declare fetch_with_retry.simps [simp del]

definition http_retry_delay_ms :: "nat \<Rightarrow> nat" where
  "http_retry_delay_ms attempt = min (2 ^ attempt * 100) 2000"

definition network_retry_delay_ms :: "nat \<Rightarrow> nat" where
  "network_retry_delay_ms attempt = min (2 ^ attempt * 100) 30000"

section \<open>The callback API over HTTP\<close>

record backend =
  b_hmac :: "string \<Rightarrow> string \<Rightarrow> nat list"
  b_secret :: string
  b_uid :: "id \<Rightarrow> string"
  b_env :: env

text \<open>\<open>CallbackController.complete\<close> behind the guard: the status the client sees.\<close>

definition http_complete :: "backend \<Rightarrow> string \<Rightarrow> string option \<Rightarrow> json \<Rightarrow> string option \<Rightarrow> world \<Rightarrow> nat \<times> world" where
  "http_complete B param authorization body header w =
     (case can_activate (b_hmac B) (b_secret B) (b_uid B) param authorization w of
        Inl Unauthorized \<Rightarrow> (401, w)
      | Inl Conflict_status \<Rightarrow> (409, w)
      | Inr i \<Rightarrow>
          (case complete (b_uid B) (b_env B) i body header w of
             (Inl e, w') \<Rightarrow> (500, w')
           | (Inr (Ok out), w') \<Rightarrow> (200, w')
           | (Inr (Validation v), w') \<Rightarrow> (422, w')
           | (Inr Conflict_result, w') \<Rightarrow> (409, w')))"

text \<open>
  What becomes of a request: it is lost, it arrives but the answer is lost, it is answered, or
  something in between answers with a server error.
\<close>

datatype delivery = Lost | Reply_lost | Delivered | Gateway_error nat

definition status_body :: "nat \<Rightarrow> json" where
  "status_body s = JObj [(''ok'', JBool (s < 400))]"

definition deliver :: "delivery \<Rightarrow> (world \<Rightarrow> nat \<times> world) \<Rightarrow> node \<Rightarrow> fetch_result \<times> node" where
  "deliver d h n = (case d of
     Lost \<Rightarrow> (Network_error ''TypeError'' ''fetch failed'', n)
   | Gateway_error s \<Rightarrow> (Response s (status_body s), n)
   | Reply_lost \<Rightarrow> (case h (n_world n) of (s, w) \<Rightarrow> (Network_error ''TypeError'' ''fetch failed'', n\<lparr>n_world := w\<rparr>))
   | Delivered \<Rightarrow> (case h (n_world n) of (s, w) \<Rightarrow> (Response s (status_body s), n\<lparr>n_world := w\<rparr>)))"

section \<open>Completing a task\<close>

record tool_config =
  tl_run :: string
  tl_token :: string
  tl_target :: string
  tl_repo_dirs :: "(string \<times> string) list"
  tl_max_retries :: nat
  tl_max_network_retries :: nat

definition head_of :: "string option \<Rightarrow> string option" where
  "head_of stdout = (case stdout of None \<Rightarrow> None | Some s \<Rightarrow> if is_sha (js_trim s) then Some (js_trim s) else None)"

text \<open>\<open>rev_parse\<close> stands for \<open>git -C <dir> rev-parse HEAD\<close>.\<close>

definition observe_heads :: "(string \<Rightarrow> string option) \<Rightarrow> (string \<times> string) list \<Rightarrow> string option" where
  "observe_heads rev_parse dirs =
     (if dirs = [] then None
      else Some (json_stringify (JObj (List.map_filter
        (\<lambda>(repo, dir). map_option (\<lambda>sha. (repo, JStr sha)) (head_of (rev_parse dir))) dirs))))"

definition post_complete :: "backend \<Rightarrow> (nat \<Rightarrow> delivery) \<Rightarrow> tool_config \<Rightarrow> json \<Rightarrow> string option \<Rightarrow> node \<Rightarrow> callback_response \<times> node" where
  "post_complete B net T args header =
     fetch_with_retry (tl_max_network_retries T) (tl_max_retries T)
       (\<lambda>k. deliver (net k) (http_complete B (tl_run T) (Some (''Bearer '' @ tl_token T)) args header)) 0 0"

definition complete_task :: "backend \<Rightarrow> (nat \<Rightarrow> delivery) \<Rightarrow> (string \<Rightarrow> string option) \<Rightarrow> tool_config \<Rightarrow> json \<Rightarrow> (nat \<times> json) task" where
  "complete_task B net rev_parse T args =
     andthen (write_outbox (tl_run T) args)
     (bnd (\<lambda>n. case post_complete B net T args (observe_heads rev_parse (tl_repo_dirs T)) n of (r, n') \<Rightarrow> (Inr r, n')) (\<lambda>resp.
      andthen (case cr_exhausted resp of None \<Rightarrow> ret ()
               | Some x \<Rightarrow> bnd (gets (\<lambda>n. breadcrumb_json (w_now (n_world n)) (tl_target T) ''complete_task'' x)) (append_breadcrumb (tl_run T)))
     (andthen (if 200 \<le> cr_status resp \<and> cr_status resp < 300
               then andthen (write_marker (tl_run T)) (remove_outbox (tl_run T)) else ret ())
        (ret (cr_status resp, cr_body resp)))))"

section \<open>Handlers on nodes\<close>

text \<open>A relation on worlds read as one on nodes; the contract of the former gives the latter's.\<close>

definition node_rel :: "(world \<Rightarrow> world \<Rightarrow> bool) \<Rightarrow> node \<Rightarrow> node \<Rightarrow> bool" where
  "node_rel R n n' \<longleftrightarrow> R (n_world n) (n_world n')"

sublocale base_relation \<subseteq> node: state_relation "node_rel R"
  by unfold_locales (auto simp: node_rel_def R_refl intro: R_trans)

lemma steps_on_world [steps_intros]: "steps R m \<Longrightarrow> steps (node_rel R) (on_world m)"
  by (auto simp: steps_def node_rel_def on_world_def split: prod.splits) (metis snd_conv)

context base_relation
begin

lemma steps_files: "(\<And>n. n_world (f n) = n_world n) \<Longrightarrow> steps (node_rel R) (modify f)"
  by (simp add: steps_def modify_def node_rel_def R_refl)

lemma steps_outbox_files [steps_intros]:
  "steps (node_rel R) (write_outbox run rep)" "steps (node_rel R) (remove_outbox run)"
  "steps (node_rel R) (write_marker run)" "steps (node_rel R) (append_breadcrumb run b)"
  unfolding write_outbox_def remove_outbox_def write_marker_def append_breadcrumb_def
  by (rule steps_files, simp add: Let_def)+

end

section \<open>What is written is read back\<close>

lemma read_replaced:
  "f_name f = name \<Longrightarrow> f \<in> set fs \<Longrightarrow>
     read_file name (map (\<lambda>f. if f_name f = name then f\<lparr>f_text := text, f_mtime := t\<rparr> else f) fs) = Some text"
  unfolding read_file_def by (induction fs) auto

lemma read_appended:
  "\<forall>f\<in>set fs. f_name f \<noteq> name \<Longrightarrow> read_file name (fs @ [\<lparr>f_name = name, f_text = text, f_mtime = t\<rparr>]) = Some text"
  unfolding read_file_def by (induction fs) auto

lemma read_write_file: "read_file name (write_file name text t fs) = Some text"
proof (cases "\<exists>f\<in>set fs. f_name f = name")
  case True
  then obtain f where "f_name f = name" "f \<in> set fs" by blast
  then show ?thesis unfolding write_file_def if_P [OF True] by (rule read_replaced)
next
  case False
  then show ?thesis unfolding write_file_def if_not_P [OF False] by (intro read_appended) blast
qed

lemma plain_strs [simp]: "json_plain (jstrs ss)" "json_plain (jnum i)"
  by (auto simp: jstrs_def jnum_def)

lemma plain_member: "kv \<in> set (fld k f x) \<Longrightarrow> (\<And>y. x = Some y \<Longrightarrow> json_plain (f y)) \<Longrightarrow> json_plain (snd kv)"
  by (auto simp: fld_def split: option.splits)

lemma keys_fld: "map fst (fld k f x) = (if x = None then [] else [k])"
  by (simp add: fld_def split: option.split)

lemma plain_option: "json_plain (option_json p)"
  by (auto simp: option_json_def keys_fld dest: plain_member)

lemma plain_check: "json_plain (check_json c)"
  by (auto simp: check_json_def keys_fld dest: plain_member)

lemma plain_human_task: "json_plain (human_task_json h)"
  by (auto simp: human_task_json_def keys_fld plain_option dest: plain_member)

lemma plain_routing: "json_plain (routing_json r)"
  by (simp add: routing_json_def)

lemma plain_team: "json_plain (team_json t)"
  by (auto simp: team_json_def team_agent_json_def keys_fld dest: plain_member)

lemma plain_repo: "json_plain (repo_artifact_json r)"
  by (auto simp: repo_artifact_json_def keys_fld dest: plain_member)

lemma plain_artifacts: "json_plain (artifacts_json a)"
  by (auto simp: artifacts_json_def keys_fld plain_repo dest: plain_member)

lemma plain_report: "json_plain (report_json rep)"
  by (auto simp: report_json_def keys_fld plain_check plain_human_task plain_routing plain_team plain_artifacts dest: plain_member)

lemma plain_payload: "json_plain report \<Longrightarrow> json_plain (outbox_payload run report now)"
proof -
  assume r: "json_plain report"
  have "json_plain j" if "jget report k = Some j" for j k
    using r that by (cases report) (auto dest!: map_of_SomeD)
  then show ?thesis using r by (auto simp: outbox_payload_def keys_fld dest: plain_member)
qed

lemma outbox_back:
  assumes "json_plain report" and "report \<noteq> JNull"
  shows "read_outbox_report run (snd (write_outbox run report n)) = Some report"
proof -
  have "jget (outbox_payload run report t) ''report'' = Some report" "jget (outbox_payload run report t) ''runId'' = Some (JStr run)" for t
    by (auto simp: outbox_payload_def fld_def split: option.splits)
  then show ?thesis
    using assms by (auto simp: read_outbox_report_def write_outbox_def modify_def read_write_file json_parse_stringify plain_payload
        split: json.splits)
qed

section \<open>The retry loop ends\<close>

lemma fetch_all_lost:
  "\<exists>r. fetch_with_retry mn ms (\<lambda>k. deliver Lost h) n s w = (r, w) \<and> cr_status r = 0 \<and> cr_exhausted r \<noteq> None"
proof (induction "Suc mn - n" arbitrary: n rule: less_induct)
  case less
  show ?case
  proof (cases "mn < Suc n")
    case True
    then show ?thesis by (subst fetch_with_retry.simps) (simp add: deliver_def)
  next
    case False
    then show ?thesis
      using less [of "Suc n"] by (subst fetch_with_retry.simps) (simp add: deliver_def)
  qed
qed

text \<open>A request function that also counts how often it was called.\<close>

definition counted :: "(nat \<Rightarrow> 's \<Rightarrow> fetch_result \<times> 's) \<Rightarrow> nat \<Rightarrow> nat \<times> 's \<Rightarrow> fetch_result \<times> (nat \<times> 's)" where
  "counted request k cw = (case request k (snd cw) of (r, w') \<Rightarrow> (r, (Suc (fst cw), w')))"

lemma fetch_counted:
  "n \<le> mn \<Longrightarrow> s \<le> ms \<Longrightarrow>
     fst (snd (fetch_with_retry mn ms (counted request) n s (c, w))) + n + s \<le> Suc (c + mn + ms)"
proof (induction "(Suc mn - n) + (Suc ms - s)" arbitrary: n s c w rule: less_induct)
  case less
  obtain r w' where r: "request (n + s) w = (r, w')" by fastforce
  show ?case
  proof (cases r)
    case (Network_error a b)
    then show ?thesis
      using less.prems less.hyps [of "Suc n" s "Suc c" w'] r
      by (subst fetch_with_retry.simps) (auto simp: counted_def)
  next
    case (Response st b)
    then show ?thesis
      using less.prems less.hyps [of n "Suc s" "Suc c" w'] r
      by (subst fetch_with_retry.simps) (auto simp: counted_def)
  qed
qed

text \<open>
  The retry loop is bounded: whatever the network and the server do, a call makes at most one
  request more than its two retry budgets together, and an answer below 500 ends it.
\<close>

theorem retries_bounded:
  "fst (snd (fetch_with_retry mn ms (counted request) 0 0 (0, w))) \<le> mn + ms + 1"
  using fetch_counted [of 0 mn 0 ms request 0 w] by simp

text \<open>
  C18. What the tool server puts in the outbox is what the worker reads: for a report that meets the
  contract, the file written before the callback is sent parses to the same run and the same
  report, which the worker's schema accepts unchanged.
\<close>

theorem outbox_roundtrip:
  assumes "report_ok rep"
  shows "read_outbox_report run (snd (write_outbox run (report_json rep) n)) = Some (report_json rep) \<and>
    report_schema (report_json rep) = Some rep"
  using outbox_back [OF plain_report, of rep run n] report_roundtrip [OF assms]
  by (simp add: report_json_def)

theorem outbox_roundtrip_witness:
  "read_outbox_report ''r1'' (snd (write_outbox ''r1'' (report_json sample_report)
     \<lparr>n_world = sample_world [], n_outbox = [], n_channel = [], n_markers = [], n_warned = [], n_probe = []\<rparr>)) = Some (report_json sample_report)"
proof -
  have "report_ok sample_report" by code_simp
  from outbox_roundtrip [OF this] show ?thesis by blast
qed

lemma complete_task_lost:
  obtains n' res where "complete_task B (\<lambda>k. Lost) rp T (report_json rep) n = (Inr (0, res), n')"
    "n_world n' = n_world n" "n_outbox n' = n_outbox (snd (write_outbox (tl_run T) (report_json rep) n))" "n_warned n' = n_warned n"
proof -
  let ?n1 = "snd (write_outbox (tl_run T) (report_json rep) n)"
  let ?h = "observe_heads rp (tl_repo_dirs T)"
  obtain r where r: "post_complete B (\<lambda>k. Lost) T (report_json rep) ?h ?n1 = (r, ?n1)" "cr_status r = 0" "cr_exhausted r \<noteq> None"
    using fetch_all_lost unfolding post_complete_def by blast
  obtain x where x: "cr_exhausted r = Some x" using r(3) by blast
  let ?n2 = "snd (append_breadcrumb (tl_run T) (breadcrumb_json (w_now (n_world ?n1)) (tl_target T) ''complete_task'' x) ?n1)"
  have "complete_task B (\<lambda>k. Lost) rp T (report_json rep) n = (Inr (0, cr_body r), ?n2)"
    using r x by (simp add: complete_task_def act_simps write_outbox_def append_breadcrumb_def Let_def)
  moreover have "n_world ?n2 = n_world n" "n_outbox ?n2 = n_outbox ?n1" "n_warned ?n2 = n_warned n"
    by (simp_all add: append_breadcrumb_def write_outbox_def modify_def Let_def)
  ultimately show ?thesis by (rule that)
qed

end
