(* ===== verification/Reconcile.thy ===== *)
theory Reconcile
  imports Outbox
begin

text \<open>
  The worker's rescue of reports that never reached the backend
  (\<open>apps/worker/src/outbox-reconcile.service.ts\<close>, \<open>undelivered-report.ts\<close>): one scan of the
  outbox decides, by the current status of each file's run, whether the report finalizes the run,
  is attached to a stopped one, waits or is discarded; a second scan ingests the channel
  breadcrumbs of finished runs (\<open>channel-breadcrumb-ingest.ts\<close>,
  \<open>libs/executors/src/claude-cli/channel-breadcrumbs.ts\<close>). \<open>is_datetime\<close> is the \<open>datetime\<close>
  check of the schema library.
\<close>

section \<open>Scans\<close>

definition DEFAULT_RETENTION_MS :: rat where
  "DEFAULT_RETENTION_MS = 604800000"

text \<open>\<open>Number(raw) || DEFAULT\<close>: neither NaN nor zero is taken.\<close>

definition retention_ms :: "vars \<Rightarrow> rat" where
  "retention_ms V = (case Option.bind (V ''BRIGADIR_OUTBOX_RETENTION_MS'') (\<lambda>s. js_value (js_trim s)) of
     None \<Rightarrow> DEFAULT_RETENTION_MS | Some q \<Rightarrow> if q = 0 then DEFAULT_RETENTION_MS else q)"

definition is_hex :: "char \<Rightarrow> bool" where
  "is_hex c \<longleftrightarrow> radix_digit c < 16"

definition uuid_dash :: "nat \<Rightarrow> bool" where
  "uuid_dash k \<longleftrightarrow> k = 8 \<or> k = 13 \<or> k = 18 \<or> k = 23"

definition is_uuid :: "string \<Rightarrow> bool" where
  "is_uuid s \<longleftrightarrow> length s = 36 \<and> list_all (\<lambda>(k, c). if uuid_dash k then c = CHR ''-'' else is_hex c) (enumerate 0 s)"

definition ends_with :: "string \<Rightarrow> string \<Rightarrow> bool" where
  "ends_with suffix s \<longleftrightarrow> length suffix \<le> length s \<and> drop (length s - length suffix) s = suffix"

record outbox_entry =
  oe_run :: string
  oe_file :: string
  oe_mtime :: int

definition list_by_suffix :: "string \<Rightarrow> stored_file list \<Rightarrow> outbox_entry list" where
  "list_by_suffix suffix fs = map (\<lambda>f. \<lparr>oe_run = take (length (f_name f) - length suffix) (f_name f),
     oe_file = f_name f, oe_mtime = f_mtime f\<rparr>) (filter (\<lambda>f. ends_with suffix (f_name f)) fs)"

definition INGESTING_SUFFIX :: string where
  "INGESTING_SUFFIX = ''.ingesting''"

definition warn_once :: "string \<Rightarrow> unit task" where
  "warn_once key = modify (\<lambda>n. n\<lparr>n_warned := List.insert key (n_warned n)\<rparr>)"

definition forget_warning :: "string \<Rightarrow> unit task" where
  "forget_warning key = modify (\<lambda>n. n\<lparr>n_warned := filter (\<lambda>k. k \<noteq> key) (n_warned n)\<rparr>)"

definition past_retention :: "int \<Rightarrow> rat \<Rightarrow> outbox_entry \<Rightarrow> bool" where
  "past_retention now retention e \<longleftrightarrow> retention < of_int (now - oe_mtime e)"

definition apply_retention :: "int \<Rightarrow> rat \<Rightarrow> outbox_entry \<Rightarrow> unit task" where
  "apply_retention now retention e =
     (if \<not> past_retention now retention e then ret ()
      else andthen (remove_outbox (oe_run e)) (forget_warning (oe_run e)))"

section \<open>One outbox file\<close>

definition has_undelivered :: "id \<Rightarrow> world \<Rightarrow> bool" where
  "has_undelivered i w \<longleftrightarrow> (\<exists>e\<in>set (w_events w). e_run e = i \<and> e_type e = Ev_undelivered_report)"

definition undelivered_payload :: "agent_report \<Rightarrow> run_status \<Rightarrow> string \<Rightarrow> json" where
  "undelivered_payload rep s source = JObj [(''report'', report_json rep), (''run_status'', JStr (status_name s)), (''source'', JStr source)]"

definition attach_undelivered_report :: "id \<Rightarrow> agent_report \<Rightarrow> run_status \<Rightarrow> string \<Rightarrow> bool handler" where
  "attach_undelivered_report i rep s source =
     bnd (gets (has_undelivered i)) (\<lambda>already.
     if already then ret False
     else andthen (insert_event i Ev_undelivered_report (undelivered_payload rep s source)) (ret True))"

definition rescuable :: "run \<Rightarrow> bool" where
  "rescuable r \<longleftrightarrow> r_status r = Running \<or> (r_status r = Failed \<or> r_status r = Timed_out) \<and> r_outcome r = None"

text \<open>What the scan does with a readable report, by the current row of its run.\<close>

definition reconcile_report :: "env \<Rightarrow> string \<Rightarrow> run \<Rightarrow> agent_report \<Rightarrow> unit task" where
  "reconcile_report E run r rep =
     (if rescuable r then
        bnd (on_world (reconcile_with_report (r_id r) (report_json rep) no_extra)) (\<lambda>flipped.
        andthen (if flipped then on_world (pipeline_notified E (r_id r)) else ret ()) (remove_outbox run))
      else if r_status r = Cancelled \<or> r_status r = Superseded then
        bnd (on_world (attach_undelivered_report (r_id r) rep (r_status r) ''periodic_reconcile'')) (\<lambda>_. remove_outbox run)
      else if r_status r = Awaiting_human \<or> r_status r = Queued then ret ()
      else remove_outbox run)"

definition keep_for_inspection :: "int \<Rightarrow> rat \<Rightarrow> outbox_entry \<Rightarrow> unit task" where
  "keep_for_inspection now retention e = andthen (warn_once (oe_run e)) (apply_retention now retention e)"

definition reconcile_entry :: "(id \<Rightarrow> string) \<Rightarrow> env \<Rightarrow> int \<Rightarrow> rat \<Rightarrow> outbox_entry \<Rightarrow> unit task" where
  "reconcile_entry uid E now retention e =
     (if \<not> is_uuid (oe_run e) then keep_for_inspection now retention e
      else bnd (gets (\<lambda>n. run_by_uid uid (oe_run e) (n_world n))) (\<lambda>found.
        case found of None \<Rightarrow> remove_outbox (oe_run e)
        | Some r \<Rightarrow>
            bnd (gets (read_outbox_report (oe_run e))) (\<lambda>raw.
            case raw of None \<Rightarrow> keep_for_inspection now retention e
            | Some j \<Rightarrow>
                (case report_schema j of None \<Rightarrow> keep_for_inspection now retention e
                 | Some parsed \<Rightarrow> reconcile_report E (oe_run e) r (scrub_agent_report parsed)))))"

section \<open>Breadcrumbs\<close>

text \<open>\<open>rename\<close>: whatever was under the new name is replaced.\<close>

definition claim_breadcrumbs :: "string \<Rightarrow> string option task" where
  "claim_breadcrumbs name = bnd (gets (\<lambda>n. find (\<lambda>f. f_name f = name) (n_channel n))) (\<lambda>found.
     case found of None \<Rightarrow> ret None
     | Some f \<Rightarrow> andthen (modify (\<lambda>n. n\<lparr>n_channel :=
           remove_file name (remove_file (name @ INGESTING_SUFFIX) (n_channel n)) @ [f\<lparr>f_name := name @ INGESTING_SUFFIX\<rparr>]\<rparr>))
         (ret (Some (name @ INGESTING_SUFFIX))))"

definition consume_claimed :: "string \<Rightarrow> unit task" where
  "consume_claimed name = modify (\<lambda>n. n\<lparr>n_channel := remove_file name (n_channel n)\<rparr>)"

record breadcrumb =
  bc_ts :: string
  bc_tool :: string
  bc_kind :: string
  bc_attempts :: int
  bc_error :: "string \<times> string"
  bc_status :: "int option"
  bc_target :: string

fun breadcrumb_error_schema :: "(string \<times> string) decoder" where
  "breadcrumb_error_schema (JObj kvs) = do {
     n \<leftarrow> req ''name'' (d_str 0 None) kvs;
     m \<leftarrow> req ''message'' (d_str 0 None) kvs;
     Some (n, m)
   }"
| "breadcrumb_error_schema _ = None"

fun breadcrumb_schema :: "(string \<Rightarrow> bool) \<Rightarrow> breadcrumb decoder" where
  "breadcrumb_schema is_datetime (JObj kvs) = do {
     t \<leftarrow> req ''ts'' (d_str 0 None) kvs;
     tool \<leftarrow> req ''tool'' (d_str 1 None) kvs;
     k \<leftarrow> req ''kind'' (d_enum [(''network'', ''network''), (''http'', ''http'')]) kvs;
     a \<leftarrow> req ''attempts'' (d_int (Some 1)) kvs;
     e \<leftarrow> req ''error'' breadcrumb_error_schema kvs;
     s \<leftarrow> opt ''status'' (d_int None) kvs;
     g \<leftarrow> req ''target'' (d_str 1 None) kvs;
     (if is_datetime t then Some \<lparr>bc_ts = t, bc_tool = tool, bc_kind = k, bc_attempts = a, bc_error = e,
        bc_status = s, bc_target = g\<rparr> else None)
   }"
| "breadcrumb_schema is_datetime _ = None"

definition read_claimed :: "(string \<Rightarrow> bool) \<Rightarrow> string \<Rightarrow> breadcrumb list" where
  "read_claimed is_datetime text = List.map_filter
     (\<lambda>line. if js_trim line = [] then None else Option.bind (json_parse (js_trim line)) (breadcrumb_schema is_datetime))
     (split_on (CHR 0x0A) text)"

definition channel_failure_payload :: "string \<Rightarrow> breadcrumb \<Rightarrow> json" where
  "channel_failure_payload source b = JObj ([(''ts'', JStr (bc_ts b)), (''tool'', JStr (bc_tool b)), (''kind'', JStr (bc_kind b)),
       (''attempts'', jnum (bc_attempts b)),
       (''error'', JObj [(''name'', JStr (fst (bc_error b))), (''message'', JStr (scrub (snd (bc_error b))))])] @
     fld ''status'' jnum (bc_status b) @
     [(''target'', JStr (bc_target b)), (''occurred_at'', JStr (bc_ts b)), (''source'', JStr source)])"

definition ingest_breadcrumbs :: "(string \<Rightarrow> bool) \<Rightarrow> id \<Rightarrow> string \<Rightarrow> string \<Rightarrow> nat task" where
  "ingest_breadcrumbs is_datetime i run source =
     bnd (claim_breadcrumbs (breadcrumb_file run)) (\<lambda>claimed.
     case claimed of None \<Rightarrow> ret 0
     | Some name \<Rightarrow>
         bnd (gets (\<lambda>n. case read_file name (n_channel n) of None \<Rightarrow> [] | Some t \<Rightarrow> read_claimed is_datetime t)) (\<lambda>bs.
         andthen (for_each bs (\<lambda>b. on_world (insert_event i Ev_channel_failure (channel_failure_payload source b))))
        (andthen (consume_claimed name) (ret (length bs)))))"

definition channel_key :: "string \<Rightarrow> string" where
  "channel_key run = ''channel:'' @ run"

definition breadcrumb_retention :: "int \<Rightarrow> rat \<Rightarrow> outbox_entry \<Rightarrow> unit task" where
  "breadcrumb_retention now retention e =
     (if \<not> past_retention now retention e then ret ()
      else andthen (consume_claimed (oe_file e)) (forget_warning (channel_key (oe_run e))))"

definition sweep_breadcrumb_file :: "(string \<Rightarrow> bool) \<Rightarrow> (id \<Rightarrow> string) \<Rightarrow> int \<Rightarrow> rat \<Rightarrow> outbox_entry \<Rightarrow> unit task" where
  "sweep_breadcrumb_file is_datetime uid now retention e =
     (if \<not> is_uuid (oe_run e)
      then andthen (warn_once (channel_key (oe_run e))) (breadcrumb_retention now retention e)
      else bnd (gets (\<lambda>n. run_by_uid uid (oe_run e) (n_world n))) (\<lambda>found.
        case found of
          None \<Rightarrow> andthen (warn_once (channel_key (oe_run e))) (breadcrumb_retention now retention e)
        | Some r \<Rightarrow> if active (r_status r) then ret ()
            else bnd (ingest_breadcrumbs is_datetime (r_id r) (oe_run e) ''reconcile'') (\<lambda>_. ret ())))"

definition sweep_breadcrumbs :: "(string \<Rightarrow> bool) \<Rightarrow> (id \<Rightarrow> string) \<Rightarrow> int \<Rightarrow> rat \<Rightarrow> unit task" where
  "sweep_breadcrumbs is_datetime uid now retention =
     bnd (gets (\<lambda>n. list_by_suffix ''.jsonl'' (n_channel n))) (\<lambda>files.
     andthen (for_each files (\<lambda>f. catch (sweep_breadcrumb_file is_datetime uid now retention f) (\<lambda>e. ret ())))
    (bnd (gets (\<lambda>n. list_by_suffix (''.jsonl'' @ INGESTING_SUFFIX) (n_channel n))) (\<lambda>claims.
     for_each claims (\<lambda>c. if past_retention now retention c then consume_claimed (oe_file c) else ret ()))))"

section \<open>The scan\<close>

definition outbox_reconcile :: "vars \<Rightarrow> (string \<Rightarrow> bool) \<Rightarrow> (id \<Rightarrow> string) \<Rightarrow> env \<Rightarrow> unit task" where
  "outbox_reconcile V is_datetime uid E =
     bnd (gets (\<lambda>n. (w_now (n_world n), list_by_suffix ''.json'' (n_outbox n)))) (\<lambda>(now, entries).
     andthen (for_each entries (\<lambda>e. catch (reconcile_entry uid E now (retention_ms V) e) (\<lambda>err. ret ())))
       (sweep_breadcrumbs is_datetime uid now (retention_ms V)))"

section \<open>Steps\<close>

context base_relation
begin

lemma steps_attach [steps_intros]: "steps R (attach_undelivered_report i rep s src)"
  unfolding attach_undelivered_report_def by (intro steps_intros)

lemma steps_warnings [steps_intros]: "steps (node_rel R) (warn_once k)" "steps (node_rel R) (forget_warning k)"
  unfolding warn_once_def forget_warning_def by (rule steps_files, simp)+

lemma steps_retention [steps_intros]:
  "steps (node_rel R) (apply_retention t q e)" "steps (node_rel R) (keep_for_inspection t q e)"
  unfolding keep_for_inspection_def apply_retention_def by (intro steps_intros)+

lemma steps_claims [steps_intros]: "steps (node_rel R) (claim_breadcrumbs nm)" "steps (node_rel R) (consume_claimed nm)"
  unfolding claim_breadcrumbs_def consume_claimed_def by (intro steps_intros steps_files; simp)+

lemma steps_ingest [steps_intros]: "steps (node_rel R) (ingest_breadcrumbs dt i run src)"
  unfolding ingest_breadcrumbs_def by (intro steps_intros)

lemma steps_sweep_breadcrumbs [steps_intros]: "steps (node_rel R) (sweep_breadcrumbs dt uid t q)"
  unfolding sweep_breadcrumbs_def sweep_breadcrumb_file_def breadcrumb_retention_def by (intro steps_intros)

end

context world_relation
begin

lemma steps_reconcile_report [steps_intros]: "steps (node_rel R) (reconcile_report E run r rep)"
  unfolding reconcile_report_def by (intro steps_intros)

lemma steps_reconcile_entry [steps_intros]: "steps (node_rel R) (reconcile_entry uid E t q e)"
  unfolding reconcile_entry_def by (intro steps_intros)

lemma steps_outbox_reconcile [steps_intros]: "steps (node_rel R) (outbox_reconcile V dt uid E)"
  unfolding outbox_reconcile_def by (intro steps_intros)

end

text \<open>The breadcrumb scan does not touch the outbox.\<close>

definition keeps_outbox :: "node \<Rightarrow> node \<Rightarrow> bool" where
  "keeps_outbox n n' \<longleftrightarrow> n_outbox n' = n_outbox n"

interpretation ob: state_relation keeps_outbox
  by unfold_locales (simp_all add: keeps_outbox_def)

lemma sweep_keeps_outbox: "n_outbox (snd (sweep_breadcrumbs dt uid t q n)) = n_outbox n"
proof -
  have files: "steps keeps_outbox (modify f)" if "\<And>n. n_outbox (f n) = n_outbox n" for f
    using that by (simp add: steps_def modify_def keeps_outbox_def)
  have world: "steps keeps_outbox (on_world m)" for m :: "'b handler"
    by (simp add: steps_def on_world_def keeps_outbox_def split: prod.split)
  have prims: "steps keeps_outbox (warn_once k)" "steps keeps_outbox (forget_warning k)" "steps keeps_outbox (consume_claimed nm)" for k nm
    unfolding warn_once_def forget_warning_def consume_claimed_def by (rule files, simp)+
  have claim: "steps keeps_outbox (claim_breadcrumbs nm)" for nm
    unfolding claim_breadcrumbs_def by (intro steps_intros files) simp
  have ingest: "steps keeps_outbox (ingest_breadcrumbs dt i run src)" for i run src
    unfolding ingest_breadcrumbs_def by (intro steps_intros prims claim world)
  have "steps keeps_outbox (sweep_breadcrumbs dt uid t q)"
    unfolding sweep_breadcrumbs_def sweep_breadcrumb_file_def breadcrumb_retention_def
    by (intro steps_intros prims ingest)
  then show ?thesis by (auto simp: steps_def keeps_outbox_def)
qed

section \<open>Rescue\<close>

lemma reconcile_with_report_hit:
  assumes "world_ok w" and "r \<in> set (w_runs w)" and "r_status r = Running"
    and "report_schema raw = Some rep" and "rp_outcome rep \<noteq> Needs_human"
  shows "\<exists>w'. reconcile_with_report (r_id r) raw fx w = (Inr True, w') \<and>
    w_runs w' = map (\<lambda>s. if r_id s = r_id r then finalized_by rep fx (w_now w) r else s) (w_runs w)"
proof -
  let ?P = "\<lambda>r. active (r_status r) \<or> (r_status r = Failed \<or> r_status r = Timed_out) \<and> r_outcome r = None"
  let ?f = "\<lambda>now r. with_report rep fx (r\<lparr>r_status := report_terminal_status rep, r_finished := Some now\<rparr>)"
  have "update_run (r_id r) ?P ?f w =
      (Inr True, w\<lparr>w_runs := map (\<lambda>s. if r_id s = r_id r then ?f (w_now w) r else s) (w_runs w)\<rparr>)"
    using assms(1-3) by (intro update_run_hit) (auto simp: same_run_def active_def)
  then show ?thesis
    using assms(4,5) by (auto simp: reconcile_with_report_def parse_report_def apply_report_effects_def
        act_simps write_checks_app finalized_by_def split: option.split)
qed

lemma notified_returns: "\<exists>w'. pipeline_notified E i w = (Inr (), w') \<and> history w w'"
proof -
  have "steps history (pipeline_notified E i)" by (intro steps_intros hist.steps_notified)
  moreover obtain x w' where "pipeline_notified E i w = (Inr x, w')"
    by (cases "on_run_finished E i w"; cases "fst (on_run_finished E i w)") (auto simp: pipeline_notified_def act_simps)
  ultimately show ?thesis using steps_run [of history "pipeline_notified E i" w] by auto
qed

text \<open>A verdict on a finished run, as later handlers leave it.\<close>

definition has_verdict :: "id \<Rightarrow> run_status \<Rightarrow> agent_report \<Rightarrow> world \<Rightarrow> bool" where
  "has_verdict i s rep w \<longleftrightarrow> (\<exists>r\<in>set (w_runs w). r_id r = i \<and> r_status r = s \<and> r_report r = Some rep \<and>
     r_outcome r = Some (rp_outcome rep))"

lemma has_verdict_history:
  assumes "has_verdict i s rep w" and "history w w'" and "s = Succeeded \<or> s = Failed"
  shows "has_verdict i s rep w'"
proof -
  obtain r where r: "r \<in> set (w_runs w)" "r_id r = i" "r_status r = s" "r_report r = Some rep" "r_outcome r = Some (rp_outcome rep)"
    using assms(1) by (auto simp: has_verdict_def)
  obtain r' where r': "r' \<in> set (w_runs w')" "run_step\<^sup>*\<^sup>* r r'" using history_run [OF assms(2) r(1)] by blast
  have "settled r" using r assms(3) by (auto simp: settled_def)
  then show ?thesis
    using r r' run_steps_settled [OF r'(2)] run_steps_same_run [OF r'(2)]
    by (auto simp: has_verdict_def same_verdict_def same_run_def)
qed

lemma reconcile_report_rescues:
  assumes "world_ok (n_world n)" and "r \<in> set (w_runs (n_world n))" and "r_status r = Running"
    and "report_ok rep" and "rp_outcome rep = Success \<or> rp_outcome rep = Failure"
  shows "\<exists>n'. reconcile_report E run r rep n = (Inr (), n') \<and>
    has_verdict (r_id r) (report_terminal_status rep) rep (n_world n') \<and> n_outbox n' = remove_file (outbox_file run) (n_outbox n)"
proof -
  have "rp_outcome rep \<noteq> Needs_human" using assms(5) by auto
  from reconcile_with_report_hit [OF assms(1-3) report_roundtrip [OF assms(4)] this, of no_extra]
  obtain w1 where w1: "reconcile_with_report (r_id r) (report_json rep) no_extra (n_world n) = (Inr True, w1)"
    "w_runs w1 = map (\<lambda>s. if r_id s = r_id r then finalized_by rep no_extra (w_now (n_world n)) r else s) (w_runs (n_world n))"
    by blast
  obtain w2 where w2: "pipeline_notified E (r_id r) w1 = (Inr (), w2)" "history w1 w2" using notified_returns by blast
  have "finalized_by rep no_extra (w_now (n_world n)) r \<in> set (w_runs w1)" using w1(2) assms(2) by force
  then have "has_verdict (r_id r) (report_terminal_status rep) rep w1"
    unfolding has_verdict_def by (rule rev_bexI) (simp add: finalized_by_def)
  moreover have "report_terminal_status rep = Succeeded \<or> report_terminal_status rep = Failed"
    using assms(5) by (auto simp: report_terminal_status_def)
  ultimately have "has_verdict (r_id r) (report_terminal_status rep) rep w2" using w2(2) has_verdict_history by blast
  then show ?thesis
    using assms(3) w1(1) w2(1)
    by (simp add: reconcile_report_def rescuable_def on_world_def remove_outbox_def act_simps)
qed

lemma outbox_listing:
  "list_by_suffix ''.json'' [\<lparr>f_name = outbox_file run, f_text = t, f_mtime = m\<rparr>] =
     [\<lparr>oe_run = run, oe_file = outbox_file run, oe_mtime = m\<rparr>]"
  by (simp add: list_by_suffix_def outbox_file_def ends_with_def)

lemma run_by_uid_unique:
  assumes "find_run i w = Some r" and "\<And>s. s \<in> set (w_runs w) \<Longrightarrow> uid (r_id s) = uid i \<Longrightarrow> r_id s = i"
  shows "run_by_uid uid (uid i) w = Some r"
proof -
  have "find (\<lambda>s. uid (r_id s) = uid i) (w_runs w) = find (\<lambda>s. r_id s = i) (w_runs w)"
    using assms(2) by (intro find_cong) auto
  then show ?thesis using assms(1) by (simp add: run_by_uid_def find_run_def)
qed

text \<open>One scan over a node whose outbox holds a readable report of a running run.\<close>

lemma scan_finalizes:
  assumes "world_ok (n_world n)" and "find_run i (n_world n) = Some r" and "r_status r = Running"
    and "\<And>s. s \<in> set (w_runs (n_world n)) \<Longrightarrow> uid (r_id s) = uid i \<Longrightarrow> r_id s = i" and "is_uuid (uid i)"
    and "n_outbox n = [\<lparr>f_name = outbox_file (uid i), f_text = t, f_mtime = m\<rparr>]"
    and "read_outbox_report (uid i) n = Some (report_json rep)"
    and "report_ok rep" and "report_ok (scrub_agent_report rep)" and "rp_outcome rep = Success \<or> rp_outcome rep = Failure"
  shows "has_verdict i (if rp_outcome rep = Success then Succeeded else Failed) (scrub_agent_report rep)
      (n_world (snd (outbox_reconcile V is_datetime uid E n))) \<and>
    n_outbox (snd (outbox_reconcile V is_datetime uid E n)) = []"
proof -
  let ?rep = "scrub_agent_report rep" and ?run = "uid i" and ?q = "retention_ms V"
  have r: "r \<in> set (w_runs (n_world n))" "r_id r = i" using find_run_Some [OF assms(2)] by auto
  have entries: "list_by_suffix ''.json'' (n_outbox n) = [\<lparr>oe_run = ?run, oe_file = outbox_file ?run, oe_mtime = m\<rparr>]"
    unfolding assms(6) by (rule outbox_listing)
  have lookup: "run_by_uid uid ?run (n_world n) = Some r" using assms(2,4) by (rule run_by_uid_unique)
  have out: "rp_outcome ?rep = rp_outcome rep" by (simp add: scrub_agent_report_def)
  obtain n2 where n2: "reconcile_report E ?run r ?rep n = (Inr (), n2)"
    "has_verdict i (report_terminal_status ?rep) ?rep (n_world n2)" "n_outbox n2 = remove_file (outbox_file ?run) (n_outbox n)"
    using reconcile_report_rescues [of n r ?rep E ?run] assms(1,3,9,10) r out by auto
  have entry: "reconcile_entry uid E (w_now (n_world n)) ?q \<lparr>oe_run = ?run, oe_file = outbox_file ?run, oe_mtime = m\<rparr> n = (Inr (), n2)"
    using assms(5,7) lookup report_roundtrip [OF assms(8)] n2(1) by (simp add: reconcile_entry_def act_simps)
  let ?sweep = "sweep_breadcrumbs is_datetime uid (w_now (n_world n)) ?q"
  have end_eq: "snd (outbox_reconcile V is_datetime uid E n) = snd (?sweep n2)"
    using entries entry by (simp add: outbox_reconcile_def act_simps split: prod.split)
  have "steps (node_rel history) ?sweep" by (rule hist.steps_sweep_breadcrumbs)
  then have "history (n_world n2) (n_world (snd (?sweep n2)))" by (auto simp: steps_def node_rel_def)
  moreover have "report_terminal_status ?rep = (if rp_outcome rep = Success then Succeeded else Failed)"
    using assms(10) out by (auto simp: report_terminal_status_def)
  ultimately have "has_verdict i (if rp_outcome rep = Success then Succeeded else Failed) ?rep (n_world (snd (?sweep n2)))"
    using n2(2) has_verdict_history by (metis (full_types))
  moreover have "n_outbox (snd (?sweep n2)) = []"
    using n2(3) assms(6) by (simp add: sweep_keeps_outbox remove_file_def)
  ultimately show ?thesis using end_eq by simp
qed

lemma outbox_written:
  assumes "n_outbox n = []"
  obtains t m where "n_outbox (snd (write_outbox run j n)) = [\<lparr>f_name = outbox_file run, f_text = t, f_mtime = m\<rparr>]"
  using assms by (simp add: write_outbox_def modify_def write_file_def)

lemma outbox_read_same: "n_outbox n = n_outbox n' \<Longrightarrow> read_outbox_report run n = read_outbox_report run n'"
  by (simp add: read_outbox_report_def)

definition sample_uuid :: "id \<Rightarrow> string" where
  "sample_uuid i = (if i = 7 then ''00000000-0000-4000-8000-000000000007'' else sample_uid i)"

definition sample_node :: "world \<Rightarrow> node" where
  "sample_node w = \<lparr>n_world = w, n_outbox = [], n_channel = [], n_markers = [], n_warned = [], n_probe = []\<rparr>"

definition sample_tool :: tool_config where
  "sample_tool = \<lparr>tl_run = sample_uuid 7,
     tl_token = sign_run_token (\<lambda>k s. [1, 2, 255]) 0 (sample_claims\<lparr>tc_sub := sample_uuid 7\<rparr>) ''key'',
     tl_target = ''localhost:3000'', tl_repo_dirs = [(''app'', ''/work/app'')], tl_max_retries = 3, tl_max_network_retries = 10\<rparr>"

definition sample_backend :: backend where
  "sample_backend = \<lparr>b_hmac = (\<lambda>k s. [1, 2, 255]), b_secret = ''key'', b_uid = sample_uuid, b_env = sample_env\<rparr>"

definition sample_head :: "string \<Rightarrow> string option" where
  "sample_head dir = Some (replicate 40 (CHR ''b'') @ [CHR 0x0A])"

lemma sample_uuid_ok: "is_uuid (sample_uuid 7)"
proof -
  have "is_hex (CHR ''0'')" "is_hex (CHR ''4'')" "is_hex (CHR ''8'')" "is_hex (CHR ''7'')"
    by (simp_all add: is_hex_def radix_digit_def is_digit_char_def digit_value_def)
  then show ?thesis by (simp add: is_uuid_def sample_uuid_def uuid_dash_def)
qed

lemma sample_reports_ok: "report_ok sample_report" "report_ok (scrub_agent_report sample_report)"
proof -
  show "report_ok sample_report" by code_simp
  then show "report_ok (scrub_agent_report sample_report)" by (simp only: sample_report_scrubbed)
qed

lemma sample_outcome: "rp_outcome sample_report = Success"
  by (simp add: sample_report_def)

text \<open>
  C19. A verdict survives a dead channel: take a running run whose id is a uuid of its own, an outbox
  that is empty before, and a report of outcome \<open>success\<close> or \<open>failure\<close> that meets the schema and,
  after scrubbing, still does (a report whose scrubbed text outgrows a limit is not rescued, and the
  outcomes \<open>team\<close>, \<open>routed\<close> and \<open>needs_human\<close> are outside this statement). When every attempt of
  \<open>complete_task\<close> is lost, nothing in the database has changed; one scan of the outbox then gives the
  run exactly the status, the outcome and the scrubbed report the agent had computed, and leaves the
  outbox empty.
\<close>

theorem lost_completion_is_rescued:
  assumes "world_ok (n_world n)" and "find_run i (n_world n) = Some r" and "r_status r = Running"
    and "\<And>s. s \<in> set (w_runs (n_world n)) \<Longrightarrow> uid (r_id s) = uid i \<Longrightarrow> r_id s = i" and "is_uuid (uid i)"
    and "n_outbox n = []" and "report_ok rep" and "report_ok (scrub_agent_report rep)"
    and "rp_outcome rep = Success \<or> rp_outcome rep = Failure" and "tl_run T = uid i"
  shows "\<exists>n1 body. complete_task B (\<lambda>k. Lost) rev_parse T (report_json rep) n = (Inr (0, body), n1) \<and>
    n_world n1 = n_world n \<and>
    has_verdict i (if rp_outcome rep = Success then Succeeded else Failed) (scrub_agent_report rep)
      (n_world (snd (outbox_reconcile V is_datetime uid E n1))) \<and>
    n_outbox (snd (outbox_reconcile V is_datetime uid E n1)) = []"
proof -
  obtain n1 body where n1: "complete_task B (\<lambda>k. Lost) rev_parse T (report_json rep) n = (Inr (0, body), n1)"
    "n_world n1 = n_world n" "n_outbox n1 = n_outbox (snd (write_outbox (uid i) (report_json rep) n))"
    using complete_task_lost [of B rev_parse T rep n] assms(10) by metis
  obtain t m where one: "n_outbox n1 = [\<lparr>f_name = outbox_file (uid i), f_text = t, f_mtime = m\<rparr>]"
    unfolding n1(3) using assms(6) by (rule outbox_written)
  have "report_json rep \<noteq> JNull" by (simp add: report_json_def)
  then have "read_outbox_report (uid i) n1 = Some (report_json rep)"
    using outbox_read_same [OF n1(3)] outbox_back [OF plain_report] by simp
  then show ?thesis
    using scan_finalizes [of n1 i r uid t m rep V is_datetime E] assms(1-5,7-9) n1 one by auto
qed

theorem lost_completion_is_rescued_witness:
  "\<exists>n1 body. complete_task sample_backend (\<lambda>k. Lost) sample_head sample_tool (report_json sample_report)
       (sample_node (sample_world [sample_run 7 (Some 4) Running])) = (Inr (0, body), n1) \<and>
     has_verdict 7 Succeeded (scrub_agent_report sample_report)
       (n_world (snd (outbox_reconcile (\<lambda>k. None) (\<lambda>s. True) sample_uuid sample_env n1)))"
proof -
  let ?n = "sample_node (sample_world [sample_run 7 (Some 4) Running])"
  have 1: "world_ok (n_world ?n)" by (simp add: sample_node_def sample_single_ok)
  have 2: "find_run 7 (n_world ?n) = Some (sample_run 7 (Some 4) Running)" by (simp add: sample_node_def find_run_def sample_defs)
  have 3: "r_status (sample_run 7 (Some 4) Running) = Running" by (simp add: sample_run_def)
  have 4: "r_id s = 7" if "s \<in> set (w_runs (n_world ?n))" for s using that by (simp add: sample_node_def sample_defs)
  have 6: "n_outbox ?n = []" by (simp add: sample_node_def)
  have 7: "tl_run sample_tool = sample_uuid 7" by (simp add: sample_tool_def)
  have out: "rp_outcome sample_report = Success \<or> rp_outcome sample_report = Failure" using sample_outcome by blast
  show ?thesis
    using lost_completion_is_rescued [of ?n 7 "sample_run 7 (Some 4) Running" sample_uuid, OF 1 2 3 4 sample_uuid_ok 6 sample_reports_ok out 7,
        of sample_backend sample_head "\<lambda>k. None" "\<lambda>s. True" sample_env] unfolding sample_outcome by (simp only: simp_thms if_True) blast
qed

text \<open>
  C20. The completion gate does not hold: the outbox file is only removed on success, so a report
  the backend answered with 422 stays in it while the run goes on, and the next scan finalizes the
  run with the very report that was rejected.
\<close>

theorem rejected_completion_is_finalized:
  assumes "world_ok w1" and "find_run i w1 = Some r" and "r_status r = Running"
    and "\<And>s. s \<in> set (w_runs w1) \<Longrightarrow> uid (r_id s) = uid i \<Longrightarrow> r_id s = i" and "is_uuid (uid i)"
    and "n_outbox n = []" and "report_ok rep" and "report_ok (scrub_agent_report rep)"
    and "rp_outcome rep = Success \<or> rp_outcome rep = Failure" and "tl_run T = uid i"
    and "net 0 = Delivered" and "http_complete B (uid i) (Some (''Bearer '' @ tl_token T)) (report_json rep)
        (observe_heads rev_parse (tl_repo_dirs T)) (n_world n) = (422, w1)"
  shows "\<exists>n1 body. complete_task B net rev_parse T (report_json rep) n = (Inr (422, body), n1) \<and> n_world n1 = w1 \<and>
    has_verdict i (if rp_outcome rep = Success then Succeeded else Failed) (scrub_agent_report rep)
      (n_world (snd (outbox_reconcile V is_datetime uid E n1)))"
proof -
  let ?n0 = "snd (write_outbox (uid i) (report_json rep) n)"
  let ?n1 = "?n0\<lparr>n_world := w1\<rparr>"
  have "n_world ?n0 = n_world n" by (simp add: write_outbox_def modify_def)
  then have "post_complete B net T (report_json rep) (observe_heads rev_parse (tl_repo_dirs T)) ?n0 =
      (\<lparr>cr_status = 422, cr_body = status_body 422, cr_exhausted = None\<rparr>, ?n1)"
    using assms(10-12) unfolding post_complete_def by (subst fetch_with_retry.simps) (simp add: deliver_def)
  then have finished: "complete_task B net rev_parse T (report_json rep) n = (Inr (422, status_body 422), ?n1)"
    using assms(10) by (simp add: complete_task_def act_simps write_outbox_def)
  obtain t m where one: "n_outbox ?n0 = [\<lparr>f_name = outbox_file (uid i), f_text = t, f_mtime = m\<rparr>]"
    using assms(6) by (rule outbox_written)
  have "report_json rep \<noteq> JNull" by (simp add: report_json_def)
  then have "read_outbox_report (uid i) ?n1 = Some (report_json rep)"
    using outbox_read_same [of ?n1 ?n0 "uid i"] outbox_back [OF plain_report] by simp
  then show ?thesis
    using scan_finalizes [of ?n1 i r uid t m rep V is_datetime E] assms(1-5,7-9) one finished by auto
qed

lemma sample_observed: "observe_heads sample_head (tl_repo_dirs sample_tool) = Some (heads_text sample_heads)"
proof -
  have "head_of (sample_head d) = Some (replicate 40 (CHR ''b''))" for d unfolding sample_head_def by code_simp
  then show ?thesis by (simp add: observe_heads_def sample_tool_def heads_text_def sample_heads_def map_filter_simps)
qed

lemma sample_admitted:
  "can_activate (b_hmac sample_backend) (b_secret sample_backend) (b_uid sample_backend) (sample_uuid 7)
     (Some (''Bearer '' @ tl_token sample_tool)) sample_started = Inr 7"
proof -
  let ?c = "sample_claims\<lparr>tc_sub := sample_uuid 7\<rparr>" and ?h = "\<lambda>k s. [1, 2, 255] :: nat list"
  have small: "\<And>k s n. n \<in> set (?h k s) \<Longrightarrow> n < 256" by auto
  have bearer: "extract_bearer_token (Some (''Bearer '' @ tl_token sample_tool)) = Some (tl_token sample_tool)"
    using bearer_of_signed [of ?h 0 ?c "''key''", OF small] by (simp add: bearer_prefix_def sample_tool_def)
  have "verify_run_token ?h 1000 (tl_token sample_tool) ''key'' = Inr (claims_json ?c 0)"
    using verify_signed [of ?h 1000 0 ?c "''key''", OF small] by (simp add: sample_tool_def sample_claims_def)
  moreover have "jget_str (claims_json ?c 0) ''sub'' = Some (sample_uuid 7)" by (simp add: claims_json_def jget_str_def)
  moreover have "run_by_uid sample_uuid (sample_uuid 7) sample_started = Some (sample_run 7 (Some 4) Running)"
    by (simp add: run_by_uid_def sample_started_def sample_defs)
  ultimately show ?thesis using bearer
    by (simp add: can_activate_def sample_backend_def sample_started_def sample_world_def acceptable_run_status_def)
       (simp add: sample_uuid_def sample_run_def)
qed

definition sample_rejected :: world where
  "sample_rejected = sample_started\<lparr>w_events := w_events sample_started @ [\<lparr>e_run = 7, e_type = Ev_log,
     e_payload = handoff_violation_event [(''app'', replicate 40 (CHR ''a''), replicate 40 (CHR ''b''))] Success, e_created = 1000\<rparr>]\<rparr>"

lemma sample_started_now: "w_now sample_started = 1000"
  by (simp add: sample_started_def sample_world_def)

lemma sample_gate_rejects:
  "http_complete sample_backend (sample_uuid 7) (Some (''Bearer '' @ tl_token sample_tool)) (report_json sample_report)
     (Some (heads_text sample_heads)) sample_started = (422, sample_rejected)"
proof -
  have "complete (b_uid sample_backend) (b_env sample_backend) 7 (report_json sample_report) (Some (heads_text sample_heads)) sample_started =
      (Inr (Validation (Handoff_errors [(''app'', replicate 40 (CHR ''a''), replicate 40 (CHR ''b''))])), sample_rejected)"
    using sample_violations sample_start_refs
    by (simp add: complete_def sample_report_parses check_handoff_gate_def sample_heads_parse insert_event_def Let_def act_simps
        sample_report_scrubbed sample_outcome sample_rejected_def sample_started_now)
  then show ?thesis using sample_admitted by (simp add: http_complete_def)
qed

theorem rejected_completion_is_finalized_witness:
  "\<exists>n1 body. complete_task sample_backend (\<lambda>k. Delivered) sample_head sample_tool (report_json sample_report)
       (sample_node sample_started) = (Inr (422, body), n1) \<and> n_world n1 = sample_rejected \<and>
     has_verdict 7 Succeeded (scrub_agent_report sample_report)
       (n_world (snd (outbox_reconcile (\<lambda>k. None) (\<lambda>s. True) sample_uuid sample_env n1)))"
proof -
  let ?n = "sample_node sample_started"
  have 1: "world_ok sample_rejected"
    using sample_single_ok [of 7 "Some 4" Running] by (simp add: sample_rejected_def sample_started_def world_ok_def)
  have 2: "find_run 7 sample_rejected = Some (sample_run 7 (Some 4) Running)"
    by (simp add: sample_rejected_def sample_started_def find_run_def sample_defs)
  have 3: "r_status (sample_run 7 (Some 4) Running) = Running" by (simp add: sample_run_def)
  have 4: "r_id s = 7" if "s \<in> set (w_runs sample_rejected)" for s
    using that by (simp add: sample_rejected_def sample_started_def sample_defs)
  have 6: "n_outbox ?n = []" by (simp add: sample_node_def)
  have 7: "tl_run sample_tool = sample_uuid 7" by (simp add: sample_tool_def)
  have out: "rp_outcome sample_report = Success \<or> rp_outcome sample_report = Failure" using sample_outcome by blast
  have http: "http_complete sample_backend (sample_uuid 7) (Some (''Bearer '' @ tl_token sample_tool)) (report_json sample_report)
      (observe_heads sample_head (tl_repo_dirs sample_tool)) (n_world ?n) = (422, sample_rejected)"
    unfolding sample_observed using sample_gate_rejects by (simp add: sample_node_def)
  show ?thesis
    using rejected_completion_is_finalized [of sample_rejected 7 "sample_run 7 (Some 4) Running" sample_uuid ?n,
        OF 1 2 3 4 sample_uuid_ok 6 sample_reports_ok out 7 refl http, of "\<lambda>k. None" "\<lambda>s. True" sample_env]
    unfolding sample_outcome by (simp only: simp_thms if_True)
qed

end
