(* ===== verification/ArtifactGuard.thy ===== *)
theory ArtifactGuard
  imports JsValues
begin

text \<open>
  The deployment guard of the worker (\<open>libs/executors/src/claude-cli/artifact-guard.ts\<close>): the tool
  server a run is given must not be older than its sources. A directory tree with modification times
  is the argument; the guard, its error text and its memo are the definitions. Property: the guard
  passes exactly when the artifact exists and no source file is newer.
\<close>

section \<open>The tree\<close>

text \<open>Entries that are neither files nor directories, or cannot be read, are passed over.\<close>

datatype tree_entry = File_entry string int | Dir_entry string "tree_entry list" | Other_entry string

record newest_file =
  nf_path :: string
  nf_mtime :: int

definition path_join :: "string \<Rightarrow> string \<Rightarrow> string" where
  "path_join dir name = dir @ ''/'' @ name"

definition newer :: "newest_file option \<Rightarrow> newest_file option \<Rightarrow> newest_file option" where
  "newer best cand = (case cand of None \<Rightarrow> best
     | Some c \<Rightarrow> (case best of None \<Rightarrow> Some c | Some b \<Rightarrow> if nf_mtime b < nf_mtime c then Some c else Some b))"

fun newest_in :: "string \<Rightarrow> tree_entry \<Rightarrow> newest_file option" where
  "newest_in dir (File_entry n t) = Some \<lparr>nf_path = path_join dir n, nf_mtime = t\<rparr>"
| "newest_in dir (Dir_entry n es) = foldl (\<lambda>best e. newer best (newest_in (path_join dir n) e)) None es"
| "newest_in dir (Other_entry n) = None"

definition newest_file_under :: "string \<Rightarrow> tree_entry list option \<Rightarrow> newest_file option" where
  "newest_file_under dir tree = (case tree of None \<Rightarrow> None
     | Some es \<Rightarrow> foldl (\<lambda>best e. newer best (newest_in dir e)) None es)"

section \<open>The guard\<close>

datatype artifact_verdict = Guard_ok | Guard_missing string | Guard_stale string int newest_file

text \<open>The entry file by its modification time, \<^const>\<open>None\<close> when \<open>stat\<close> fails.\<close>

definition check_artifact :: "string \<Rightarrow> int option \<Rightarrow> string \<Rightarrow> tree_entry list option \<Rightarrow> artifact_verdict" where
  "check_artifact entry entry_mtime src_dir tree =
     (case entry_mtime of None \<Rightarrow> Guard_missing entry
      | Some t \<Rightarrow> (case newest_file_under src_dir tree of None \<Rightarrow> Guard_ok
          | Some f \<Rightarrow> if t < nf_mtime f then Guard_stale entry t f else Guard_ok))"

definition guard_remedy :: string where
  "guard_remedy = ''Rebuild it: `pnpm build:mcp-server` (or `pnpm build`).''"

fun format_artifact_error :: "artifact_verdict \<Rightarrow> string option" where
  "format_artifact_error Guard_ok = None"
| "format_artifact_error (Guard_missing entry) =
     Some (''DEPLOYMENT GUARD: agent tool-server artifact is MISSING at '' @ entry @ ''. '' @
       ''Callback-wired runs cannot spawn a working callback channel without it. '' @ guard_remedy)"
| "format_artifact_error (Guard_stale entry t f) =
     Some (''DEPLOYMENT GUARD: agent tool-server artifact is STALE. '' @ entry @ '' (built '' @ to_iso_string t @
       '') is older than '' @ nf_path f @ '' (modified '' @ to_iso_string (nf_mtime f) @ ''). '' @
       ''Agents would run outdated tool-server code. '' @ guard_remedy)"

text \<open>The memo: a verdict is reused until it is \<open>ttl\<close> old.\<close>

definition memo_check :: "int \<Rightarrow> int \<Rightarrow> artifact_verdict \<Rightarrow> (artifact_verdict \<times> int) option \<Rightarrow>
    artifact_verdict \<times> (artifact_verdict \<times> int) option" where
  "memo_check ttl now fresh cached =
     (case cached of
        Some (v, stamp) \<Rightarrow> if now - stamp < ttl then (v, cached) else (fresh, Some (fresh, now))
      | None \<Rightarrow> (fresh, Some (fresh, now)))"

section \<open>Property\<close>

fun mtimes :: "tree_entry \<Rightarrow> int set" where
  "mtimes (File_entry n t) = {t}"
| "mtimes (Dir_entry n es) = (\<Union>e\<in>set es. mtimes e)"
| "mtimes (Other_entry n) = {}"

definition is_newest :: "newest_file option \<Rightarrow> int set \<Rightarrow> bool" where
  "is_newest best T \<longleftrightarrow> (case best of None \<Rightarrow> T = {} | Some f \<Rightarrow> nf_mtime f \<in> T \<and> (\<forall>t\<in>T. t \<le> nf_mtime f))"

lemma newer_newest: "is_newest a S \<Longrightarrow> is_newest b T \<Longrightarrow> is_newest (newer a b) (S \<union> T)"
  by (auto simp: is_newest_def newer_def split: option.splits)

lemma foldl_newest:
  assumes "\<And>e. e \<in> set es \<Longrightarrow> is_newest (g e) (mtimes e)" and "is_newest best S"
  shows "is_newest (foldl (\<lambda>best e. newer best (g e)) best es) (S \<union> (\<Union>e\<in>set es. mtimes e))"
  using assms
proof (induction es arbitrary: best S)
  case (Cons e es)
  have "is_newest (newer best (g e)) (S \<union> mtimes e)" using Cons.prems by (intro newer_newest) auto
  from Cons.IH [OF _ this] Cons.prems(1) show ?case by (simp add: Un_assoc)
qed simp

lemma newest_in_newest: "is_newest (newest_in dir e) (mtimes e)"
proof (induction dir e rule: newest_in.induct)
  case (2 dir n es)
  then show ?case using foldl_newest [of es "newest_in (path_join dir n)" None "{}"] by (simp add: is_newest_def [of None])
qed (simp_all add: is_newest_def)

text \<open>
  Merged means deployed: the guard passes exactly when the artifact is there and no file anywhere
  below the source directory was modified after it; an absent source tree asks for existence alone.
\<close>

theorem guard_passes_iff:
  "check_artifact entry m src_dir tree = Guard_ok \<longleftrightarrow>
    (\<exists>t. m = Some t \<and> (case tree of None \<Rightarrow> True | Some es \<Rightarrow> \<forall>e\<in>set es. \<forall>s\<in>mtimes e. s \<le> t))"
proof (cases tree)
  case (Some es)
  have "is_newest (newest_file_under src_dir tree) (\<Union>e\<in>set es. mtimes e)"
    using foldl_newest [of es "newest_in src_dir" None "{}"] Some
    by (simp add: newest_file_under_def is_newest_def [of None] newest_in_newest)
  then show ?thesis
  proof (cases "newest_file_under src_dir tree")
    case (Some f)
    with \<open>is_newest _ _\<close> have f: "nf_mtime f \<in> (\<Union>e\<in>set es. mtimes e)" "\<forall>e\<in>set es. \<forall>s\<in>mtimes e. s \<le> nf_mtime f"
      by (auto simp: is_newest_def)
    then have "(\<forall>e\<in>set es. \<forall>s\<in>mtimes e. s \<le> t) \<longleftrightarrow> nf_mtime f \<le> t" for t by (meson UN_E order_trans)
    then show ?thesis using \<open>tree = Some es\<close> Some by (auto simp: check_artifact_def split: option.split)
  next
    case None
    with \<open>is_newest _ _\<close> have "\<forall>e\<in>set es. mtimes e = {}" by (simp add: is_newest_def)
    then show ?thesis using \<open>tree = Some es\<close> None by (auto simp: check_artifact_def split: option.split)
  qed
qed (simp add: check_artifact_def newest_file_under_def split: option.split)

theorem guard_passes_iff_witness:
  "check_artifact ''main.js'' (Some 20) ''src'' (Some [File_entry ''a.ts'' 10, Dir_entry ''tools'' [File_entry ''b.ts'' 20]]) = Guard_ok \<and>
   check_artifact ''main.js'' (Some 20) ''src'' (Some [File_entry ''a.ts'' 10, Dir_entry ''tools'' [File_entry ''b.ts'' 21]]) \<noteq> Guard_ok"
  by (simp add: guard_passes_iff)

end
