(* ===== verification/Worker.thy ===== *)
theory Worker
  imports ExecutorGate Handoff Reconcile ArtifactGuard
begin

text \<open>
  The job processors of the worker (\<open>apps/worker/src/claude-cli-run.processor.ts\<close>,
  \<open>run.processor.ts\<close>) and the channel probe (\<open>channel-probe.ts\<close>): one call of \<open>process\<close> per pickup
  of a job, from the pre-flight checks through the executor to the finalization of the run. The
  executor is an argument: an arbitrary action on the node, since while the agent process runs the
  callback API, the watchdog and other handlers change the database. The timers that abort it are
  part of it; the two bounds they are armed with are modelled. The description and URL of the ticket
  reach the executor only and are left out, as are log lines.
\<close>

section \<open>Bounds on untrusted durations\<close>

definition DEFAULT_RATE_LIMIT_TTL_MS :: rat where
  "DEFAULT_RATE_LIMIT_TTL_MS = 900000"

definition MIN_RATE_LIMIT_TTL_MS :: rat where
  "MIN_RATE_LIMIT_TTL_MS = 60000"

definition MAX_RUN_TIMEOUT_MS :: rat where
  "MAX_RUN_TIMEOUT_MS = 86400000"

definition sanitize_rate_limit_ttl :: "json option \<Rightarrow> rat" where
  "sanitize_rate_limit_ttl reported =
     (case reported of Some (JNum q) \<Rightarrow> max (of_int \<lceil>q\<rceil>) MIN_RATE_LIMIT_TTL_MS | _ \<Rightarrow> DEFAULT_RATE_LIMIT_TTL_MS)"

definition sanitize_timeout_ms :: "json option \<Rightarrow> rat \<Rightarrow> rat" where
  "sanitize_timeout_ms given fallback =
     (case given of
        Some (JNum q) \<Rightarrow> if q \<le> 0 then min fallback MAX_RUN_TIMEOUT_MS else min (of_int \<lceil>q\<rceil>) MAX_RUN_TIMEOUT_MS
      | _ \<Rightarrow> min fallback MAX_RUN_TIMEOUT_MS)"

section \<open>The channel probe\<close>

definition DEFAULT_CALLBACK_BASE_URL :: string where
  "DEFAULT_CALLBACK_BASE_URL = ''http://127.0.0.1:3000/api/callbacks''"

text \<open>\<open>Number(v) || d\<close>.\<close>

definition number_or :: "vars \<Rightarrow> string \<Rightarrow> rat \<Rightarrow> rat" where
  "number_or V k d = (case Option.bind (V k) (\<lambda>s. js_value (js_trim s)) of
     None \<Rightarrow> d | Some q \<Rightarrow> if q = 0 then d else q)"

definition health_url :: "vars \<Rightarrow> string" where
  "health_url V = rev (dropWhile (\<lambda>c. c = CHR ''/'') (rev (case V ''BRIGADIR_CALLBACK_BASE_URL'' of
     None \<Rightarrow> DEFAULT_CALLBACK_BASE_URL | Some u \<Rightarrow> u))) @ ''/health''"

definition ttl_for :: "vars \<Rightarrow> nat \<Rightarrow> rat" where
  "ttl_for V consecutive = min (number_or V ''BRIGADIR_CHANNEL_PROBE_BASE_TTL_MS'' 30000 * 2 ^ (consecutive - 1))
     (number_or V ''BRIGADIR_CHANNEL_PROBE_MAX_TTL_MS'' 300000)"

definition failures_of :: "id \<Rightarrow> node \<Rightarrow> nat" where
  "failures_of i n = (case map_of (n_probe n) i of None \<Rightarrow> 0 | Some k \<Rightarrow> k)"

definition record_success :: "id \<Rightarrow> unit task" where
  "record_success i = modify (\<lambda>n. n\<lparr>n_probe := filter (\<lambda>(j, k). j \<noteq> i) (n_probe n)\<rparr>)"

definition record_failure :: "vars \<Rightarrow> id \<Rightarrow> rat task" where
  "record_failure V i =
     bnd (gets (\<lambda>n. Suc (failures_of i n))) (\<lambda>consecutive.
     andthen (modify (\<lambda>n. n\<lparr>n_probe := (i, consecutive) # filter (\<lambda>(j, k). j \<noteq> i) (n_probe n)\<rparr>))
    (andthen (on_world (insert_event i Ev_channel_down (JObj [(''probe_url'', JStr (health_url V)),
        (''consecutive'', JNum (of_nat consecutive)), (''retry_in_ms'', JNum (ttl_for V consecutive))])))
       (ret (ttl_for V consecutive))))"

section \<open>A job\<close>

record loaded_run =
  lr_run :: id
  lr_workspace :: id
  lr_executor_type :: string
  lr_trigger :: json
  lr_instruction :: string
  lr_timeout_minutes :: int
  lr_ticket_key :: "string option"
  lr_use_callback_channel :: bool

record executor_result =
  er_exit :: exit_status
  er_report :: "json option"
  er_external_ref :: "string option"
  er_cost :: "rat option"
  er_usage :: "json option"
  er_diagnostics :: "string option"

text \<open>
  What an executor comes to, apart from throwing: a result, or a repository scope it could not
  determine, with the question to ask and the message of the exception.
\<close>

datatype exec_answer = Exec_result executor_result | Exec_scope string string string

record processor =
  p_vars :: vars
  p_env :: env
  p_uid :: "id \<Rightarrow> string"
  p_is_datetime :: "string \<Rightarrow> bool"
  p_setup :: setup_context
  p_setup_timeout :: int
  p_artifact :: artifact_verdict
  p_alive :: bool
  p_exec :: "loaded_run \<Rightarrow> string \<Rightarrow> rat \<Rightarrow> exec_answer task"

text \<open>
  How a pickup ends when it does not throw: the job is dropped, done, or goes back to waiting for
  a time without costing an attempt (\<open>worker.rateLimit\<close>; \<^const>\<open>None\<close> when the time is no number).
\<close>

datatype job_outcome = Dropped | Finished | Held "rat option"

definition load_run :: "int \<Rightarrow> id \<Rightarrow> world \<Rightarrow> loaded_run option" where
  "load_run setup_timeout i w =
     (case find_run i w of None \<Rightarrow> None
      | Some r \<Rightarrow> (case find_agent (r_agent r) w of None \<Rightarrow> None
          | Some a \<Rightarrow> (case (find_workspace (r_workspace r) w, find_executor (a_executor a) w) of
              (Some s, Some x) \<Rightarrow> Some \<lparr>lr_run = r_id r, lr_workspace = r_workspace r, lr_executor_type = r_executor_type r,
                 lr_trigger = r_trigger r, lr_instruction = a_instruction a,
                 lr_timeout_minutes = (if trigger_source (r_trigger r) = Some ''workspace-setup'' then setup_timeout
                   else a_timeout_minutes a),
                 lr_ticket_key = map_option t_jira_key (Option.bind (r_ticket r) (\<lambda>tk. find_ticket tk w)),
                 lr_use_callback_channel = (jget (x_config x) ''useCallbackChannel'' = Some (JBool True))\<rparr>
            | _ \<Rightarrow> None)))"

definition assemble_instruction :: "string \<Rightarrow> string \<Rightarrow> string" where
  "assemble_instruction handoff instruction = (if handoff \<noteq> [] then handoff @ blank_line @ instruction else instruction)"

definition crashed :: "string \<Rightarrow> executor_result" where
  "crashed message = \<lparr>er_exit = Ex_crashed, er_report = None, er_external_ref = None, er_cost = None, er_usage = None,
     er_diagnostics = Some message\<rparr>"

definition park_for_scope :: "env \<Rightarrow> id \<Rightarrow> string \<Rightarrow> string \<Rightarrow> bool handler" where
  "park_for_scope E i title details =
     catch (andthen (create_from_request E i \<lparr>tq_kind = Blocker, tq_title = title, tq_details = Some details,
                       tq_blocking = True, tq_options = None\<rparr>) (ret True))
       (\<lambda>e. ret False)"

text \<open>
  The claims of the token a callback-wired run is given, and one tick of the poll that aborts the
  executor once the run is no longer running: at once for a cancel or a park, after a grace period,
  counted from the first tick that sees it, for a verdict. The result is whether to abort, and the
  deadline.
\<close>

definition RUN_TOKEN_GRACE_SECONDS :: int where
  "RUN_TOKEN_GRACE_SECONDS = 300"

definition run_claims :: "(id \<Rightarrow> string) \<Rightarrow> loaded_run \<Rightarrow> int \<Rightarrow> run_token_claims" where
  "run_claims uid l now = \<lparr>tc_sub = uid (lr_run l), tc_wsp = uid (lr_workspace l), tc_tkt = lr_ticket_key l,
     tc_exp = now div 1000 + lr_timeout_minutes l * 60 + RUN_TOKEN_GRACE_SECONDS\<rparr>"

definition cancel_poll :: "run_status option \<Rightarrow> int option \<Rightarrow> int \<Rightarrow> int \<Rightarrow> bool \<times> int option" where
  "cancel_poll status deadline now grace =
     (case status of None \<Rightarrow> (False, deadline)
      | Some s \<Rightarrow>
          if s = Running then (False, deadline)
          else if s = Succeeded \<or> s = Failed
          then (let d = (case deadline of None \<Rightarrow> now + grace | Some t \<Rightarrow> t) in (\<not> now < d, Some d))
          else (True, deadline))"

text \<open>Running the executor; \<^const>\<open>None\<close> when the run was parked for its scope.\<close>

definition execute :: "processor \<Rightarrow> loaded_run \<Rightarrow> string \<Rightarrow> executor_result option task" where
  "execute P l handoff =
     bnd (catch (p_exec P l (assemble_instruction handoff (lr_instruction l))
                  (sanitize_timeout_ms (jget (lr_trigger l) ''timeout_ms_override'') (of_int (lr_timeout_minutes l) * 60000)))
            (\<lambda>e. ret (Exec_result (crashed (en_message e))))) (\<lambda>answer.
     case answer of
       Exec_result res \<Rightarrow> ret (Some res)
     | Exec_scope title details message \<Rightarrow>
         bnd (on_world (park_for_scope (p_env P) (lr_run l) title details)) (\<lambda>parked.
         ret (if parked then None else Some (crashed message))))"

datatype outbox_report = Ob_valid agent_report | Ob_invalid | Ob_absent

definition load_outbox_report :: "string \<Rightarrow> node \<Rightarrow> outbox_report" where
  "load_outbox_report run n = (case read_outbox_report run n of None \<Rightarrow> Ob_absent
     | Some raw \<Rightarrow> (case report_schema raw of None \<Rightarrow> Ob_invalid | Some rep \<Rightarrow> Ob_valid (scrub_agent_report rep)))"

definition after_finalize :: "env \<Rightarrow> id \<Rightarrow> unit handler" where
  "after_finalize E i = catch (on_run_finished E i) (\<lambda>e. ret ())"

definition notify_if :: "processor \<Rightarrow> id \<Rightarrow> bool \<Rightarrow> unit task" where
  "notify_if P i flipped = (if flipped then on_world (after_finalize (p_env P) i) else ret ())"

definition ingest_exit :: "processor \<Rightarrow> id \<Rightarrow> job_outcome task" where
  "ingest_exit P i = andthen (ingest_breadcrumbs (p_is_datetime P) i (p_uid P i) ''exit'') (ret Finished)"

definition NO_CALLBACK :: string where
  "NO_CALLBACK = ''claude_cli exited without a complete_task or request_human callback''"

definition cost_extra :: "executor_result \<Rightarrow> finalize_extra" where
  "cost_extra res = no_extra\<lparr>fx_cost := er_cost res, fx_usage := er_usage res\<rparr>"

definition exit_extra :: "executor_result \<Rightarrow> finalize_extra" where
  "exit_extra res = (cost_extra res)\<lparr>fx_external_ref := er_external_ref res, fx_error := er_diagnostics res\<rparr>"

text \<open>A \<open>completed\<close> exit of a callback-wired run: no callback may have landed.\<close>

definition completed_with_callback :: "processor \<Rightarrow> id \<Rightarrow> executor_result \<Rightarrow> job_outcome task" where
  "completed_with_callback P i res =
     bnd (gets (load_outbox_report (p_uid P i))) (\<lambda>outbox.
     case outbox of
       Ob_valid rep \<Rightarrow>
         bnd (on_world (finalize_with_report i (report_json rep) (cost_extra res))) (\<lambda>reconciled.
         andthen (remove_outbox (p_uid P i)) (andthen (notify_if P i reconciled) (ingest_exit P i)))
     | _ \<Rightarrow>
         bnd (on_world (has_open_blocking_task i)) (\<lambda>blocked.
         if blocked then bnd (on_world (park_if_still_running i)) (\<lambda>_. ingest_exit P i)
         else bnd (on_world (fail_if_still_running i (case er_diagnostics res of None \<Rightarrow> NO_CALLBACK | Some d \<Rightarrow> d))) (\<lambda>flipped.
           andthen (notify_if P i flipped) (ingest_exit P i))))"

definition invalid_report_text :: "error \<Rightarrow> string" where
  "invalid_report_text e = ''invalid report: '' @ en_message e"

definition completed_plain :: "processor \<Rightarrow> id \<Rightarrow> executor_result \<Rightarrow> job_outcome task" where
  "completed_plain P i res =
     andthen (on_world (catch
       (andthen (finalize_with_report i (case er_report res of None \<Rightarrow> JNull | Some j \<Rightarrow> j)
          ((cost_extra res)\<lparr>fx_external_ref := er_external_ref res\<rparr>)) (ret ()))
       (\<lambda>e. andthen (finalize_status i Failed (no_extra\<lparr>fx_error := Some (invalid_report_text e)\<rparr>)) (ret ()))))
    (andthen (on_world (after_finalize (p_env P) i)) (ret Finished))"

definition resolve_rate_limit_ttl :: "id \<Rightarrow> json \<Rightarrow> world \<Rightarrow> rat option" where
  "resolve_rate_limit_ttl i ev w =
     (case jget ev ''rate_limit_ttl_ms'' of
        Some (JNum q) \<Rightarrow> Some q
      | Some j \<Rightarrow> None
      | None \<Rightarrow> (case filter (\<lambda>e. e_run e = i) (w_events w) of
            [] \<Rightarrow> Some (sanitize_rate_limit_ttl None)
          | es \<Rightarrow> Some (sanitize_rate_limit_ttl (jget (e_payload (last es)) ''retry_delay_ms''))))"

text \<open>The finalize branch of a callback-wired run; every status write is guarded by \<open>running\<close>.\<close>

definition finalize_exit :: "processor \<Rightarrow> id \<Rightarrow> run_status \<Rightarrow> executor_result \<Rightarrow> job_outcome task" where
  "finalize_exit P i s res =
     bnd (on_world (finalize_status_if_running i s (exit_extra res))) (\<lambda>flipped.
     andthen (notify_if P i flipped) (ingest_exit P i))"

definition finalize_with_callback :: "processor \<Rightarrow> id \<Rightarrow> run_status \<Rightarrow> executor_result \<Rightarrow> job_outcome task" where
  "finalize_with_callback P i s res =
     bnd (gets (load_outbox_report (p_uid P i))) (\<lambda>outbox.
     case outbox of
       Ob_valid rep \<Rightarrow>
         if s = Timed_out then
           bnd (on_world (finalize_with_report i (report_json rep) (exit_extra res))) (\<lambda>reconciled.
           andthen (remove_outbox (p_uid P i))
             (if reconciled then andthen (on_world (after_finalize (p_env P) i)) (ret Finished) else finalize_exit P i s res))
         else if s = Cancelled then
           bnd (on_world (attach_undelivered_report i rep Cancelled ''exit_reconcile'')) (\<lambda>_.
           andthen (remove_outbox (p_uid P i)) (finalize_exit P i s res))
         else finalize_exit P i s res
     | _ \<Rightarrow> finalize_exit P i s res)"

definition by_exit_status :: "processor \<Rightarrow> loaded_run \<Rightarrow> executor_result \<Rightarrow> int \<Rightarrow> int \<Rightarrow> job_outcome task" where
  "by_exit_status P l res made max_attempts =
     (let i = lr_run l in
      case map_exit_status (er_exit res) None made max_attempts of
        Rate_limit \<Rightarrow> bnd (gets (\<lambda>n. resolve_rate_limit_ttl i (lr_trigger l) (n_world n))) (\<lambda>ttl. ret (Held ttl))
      | Retry \<Rightarrow> andthen (on_world (mark_queued_for_retry i))
          (throw (mk_error Other_failure (case er_diagnostics res of None \<Rightarrow> ''run crashed - retrying'' | Some d \<Rightarrow> d)))
      | Finalize s \<Rightarrow>
          if lr_use_callback_channel l then finalize_with_callback P i s res
          else andthen (on_world (finalize_status i s (exit_extra res)))
              (andthen (on_world (after_finalize (p_env P) i)) (ret Finished)))"

text \<open>The pre-flight checks of a callback-wired run; \<^const>\<open>Some\<close> outcome ends the pickup.\<close>

definition pre_flight :: "processor \<Rightarrow> loaded_run \<Rightarrow> job_outcome option task" where
  "pre_flight P l =
     (if \<not> lr_use_callback_channel l then ret None
      else case format_artifact_error (p_artifact P) of
        Some message \<Rightarrow>
          andthen (on_world (finalize_status (lr_run l) Failed (no_extra\<lparr>fx_error := Some message\<rparr>)))
         (andthen (on_world (after_finalize (p_env P) (lr_run l))) (ret (Some Finished)))
      | None \<Rightarrow>
          if \<not> p_alive P then bnd (record_failure (p_vars P) (lr_run l)) (\<lambda>ttl. ret (Some (Held (Some ttl))))
          else andthen (record_success (lr_run l)) (ret None))"

definition run_started :: "processor \<Rightarrow> loaded_run \<Rightarrow> int \<Rightarrow> int \<Rightarrow> job_outcome task" where
  "run_started P l made max_attempts =
     andthen (on_world (on_run_started (p_env P) (lr_run l)))
    (bnd (on_world (build_handoff_section (p_setup P) (lr_trigger l) (lr_workspace l))) (\<lambda>handoff.
     bnd (execute P l handoff) (\<lambda>answer.
     case answer of None \<Rightarrow> ret Finished
     | Some res \<Rightarrow>
       andthen (on_world (record_cost_usage (lr_run l) (er_cost res) (er_usage res)))
         (if er_exit res = Ex_completed
          then (if lr_use_callback_channel l then completed_with_callback P (lr_run l) res
                else completed_plain P (lr_run l) res)
          else by_exit_status P l res made max_attempts))))"

definition process_claude :: "processor \<Rightarrow> id \<Rightarrow> int \<Rightarrow> int \<Rightarrow> job_outcome task" where
  "process_claude P i made max_attempts =
     bnd (gets (\<lambda>n. load_run (p_setup_timeout P) i (n_world n))) (\<lambda>loaded.
     case loaded of None \<Rightarrow> ret Dropped
     | Some l \<Rightarrow>
       bnd (pre_flight P l) (\<lambda>ended.
       case ended of Some out \<Rightarrow> ret out
       | None \<Rightarrow>
         bnd (on_world (check_executor_gate (p_vars P) i)) (\<lambda>gate.
         case gate of Hold reason ttl profile model \<Rightarrow> ret (Held ttl)
         | Admit near \<Rightarrow>
           bnd (on_world (mark_running i (made + 1))) (\<lambda>startable.
           if \<not> startable then ret Dropped else run_started P l made max_attempts))))"

section \<open>The mock processor\<close>

text \<open>
  \<open>RunProcessor\<close> has no callback channel: a \<open>team\<close> report takes the setup accept path, where a
  proposal that breaks a business rule fails the run. Its \<open>load\<close> does not need an executor row.
\<close>

definition load_mock_run :: "id \<Rightarrow> world \<Rightarrow> loaded_run option" where
  "load_mock_run i w =
     (case find_run i w of None \<Rightarrow> None
      | Some r \<Rightarrow> (case (find_agent (r_agent r) w, find_workspace (r_workspace r) w) of
          (Some a, Some s) \<Rightarrow> Some \<lparr>lr_run = r_id r, lr_workspace = r_workspace r, lr_executor_type = r_executor_type r,
             lr_trigger = r_trigger r, lr_instruction = a_instruction a, lr_timeout_minutes = a_timeout_minutes a,
             lr_ticket_key = map_option t_jira_key (Option.bind (r_ticket r) (\<lambda>tk. find_ticket tk w)),
             lr_use_callback_channel = False\<rparr>
        | _ \<Rightarrow> None))"

fun path_json :: "path_elem \<Rightarrow> json" where
  "path_json (P_key k) = JStr k"
| "path_json (P_idx n) = JNum (of_nat n)"

definition issues_text :: "team_issue list \<Rightarrow> string" where
  "issues_text is = ''invalid team proposal: '' @ json_stringify (JArr (map (\<lambda>i.
     JObj [(''path'', JArr (map path_json (ti_path i))), (''code'', JStr (ti_code i)), (''message'', JStr (ti_message i))]) is))"

definition completed_mock :: "processor \<Rightarrow> id \<Rightarrow> executor_result \<Rightarrow> job_outcome task" where
  "completed_mock P i res =
     (let raw = (case er_report res of None \<Rightarrow> JNull | Some j \<Rightarrow> j) in
      andthen (on_world (catch
        (if jget_str raw ''outcome'' = Some ''team''
         then bnd (parse_report raw) (\<lambda>rep. bnd (accept_team_report (p_env P) i rep) (\<lambda>accepted.
           case accepted of
             Invalid issues \<Rightarrow> andthen (finalize_status i Failed (no_extra\<lparr>fx_error := Some (issues_text issues)\<rparr>)) (ret ())
           | Applied k \<Rightarrow> ret () | Conflict \<Rightarrow> ret () | Recast_failure \<Rightarrow> ret ()))
         else andthen (finalize_with_report i raw ((cost_extra res)\<lparr>fx_external_ref := er_external_ref res\<rparr>)) (ret ()))
        (\<lambda>e. andthen (finalize_status i Failed (no_extra\<lparr>fx_error := Some (invalid_report_text e)\<rparr>)) (ret ()))))
     (andthen (on_world (after_finalize (p_env P) i)) (ret Finished)))"

text \<open>A missing override falls back to 200 milliseconds here.\<close>

definition mock_rate_limit_ttl :: "json \<Rightarrow> rat option" where
  "mock_rate_limit_ttl ev = (case jget ev ''rate_limit_ttl_ms'' of
     None \<Rightarrow> Some 200 | Some JNull \<Rightarrow> Some 200 | Some (JNum q) \<Rightarrow> Some q | Some j \<Rightarrow> None)"

definition mock_exit :: "processor \<Rightarrow> loaded_run \<Rightarrow> executor_result \<Rightarrow> int \<Rightarrow> int \<Rightarrow> job_outcome task" where
  "mock_exit P l res made max_attempts =
     (let i = lr_run l in
      case map_exit_status (er_exit res) None made max_attempts of
        Rate_limit \<Rightarrow> ret (Held (mock_rate_limit_ttl (lr_trigger l)))
      | Retry \<Rightarrow> andthen (on_world (mark_queued_for_retry i))
          (throw (mk_error Other_failure (case er_diagnostics res of None \<Rightarrow> ''run crashed - retrying'' | Some d \<Rightarrow> d)))
      | Finalize s \<Rightarrow> andthen (on_world (finalize_status i s (no_extra\<lparr>fx_error := er_diagnostics res\<rparr>)))
          (andthen (on_world (after_finalize (p_env P) i)) (ret Finished)))"

text \<open>This executor's only exceptions are crashes; a scope question is one too.\<close>

definition run_mock :: "processor \<Rightarrow> loaded_run \<Rightarrow> string \<Rightarrow> executor_result task" where
  "run_mock P l handoff =
     bnd (catch (p_exec P l (assemble_instruction handoff (lr_instruction l)) (of_int (lr_timeout_minutes l) * 60000))
            (\<lambda>e. ret (Exec_result (crashed (en_message e))))) (\<lambda>answer.
     case answer of Exec_result res \<Rightarrow> ret res | Exec_scope title details message \<Rightarrow> ret (crashed message))"

definition process_mock :: "processor \<Rightarrow> id \<Rightarrow> int \<Rightarrow> int \<Rightarrow> job_outcome task" where
  "process_mock P i made max_attempts =
     bnd (gets (\<lambda>n. load_mock_run i (n_world n))) (\<lambda>loaded.
     case loaded of None \<Rightarrow> ret Dropped
     | Some l \<Rightarrow>
       bnd (on_world (check_executor_gate (p_vars P) i)) (\<lambda>gate.
       case gate of Hold reason ttl profile model \<Rightarrow> ret (Held ttl)
       | Admit near \<Rightarrow>
         bnd (on_world (mark_running i (made + 1))) (\<lambda>startable.
         if \<not> startable then ret Dropped
         else
           andthen (on_world (on_run_started (p_env P) i))
          (bnd (on_world (build_handoff_section (p_setup P) (lr_trigger l) (lr_workspace l))) (\<lambda>handoff.
           bnd (run_mock P l handoff) (\<lambda>res.
           andthen (on_world (record_cost_usage i (er_cost res) (er_usage res)))
             (if er_exit res = Ex_completed then completed_mock P i res else mock_exit P l res made max_attempts)))))))"

section \<open>Every pickup takes run steps\<close>

lemma steps_case_exec [steps_intros]:
  "(\<And>r. steps R (f r)) \<Longrightarrow> (\<And>t d m. steps R (g t d m)) \<Longrightarrow>
    steps R (case a of Exec_result r \<Rightarrow> f r | Exec_scope t d m \<Rightarrow> g t d m)"
  by (cases a) simp_all

lemma steps_case_gate [steps_intros]:
  "(\<And>x. steps R (f x)) \<Longrightarrow> (\<And>r t p m. steps R (g r t p m)) \<Longrightarrow>
    steps R (case v of Admit x \<Rightarrow> f x | Hold r t p m \<Rightarrow> g r t p m)"
  by (cases v) simp_all

lemma steps_case_outbox [steps_intros]:
  "(\<And>r. steps R (f r)) \<Longrightarrow> steps R a \<Longrightarrow> steps R b \<Longrightarrow>
    steps R (case v of Ob_valid r \<Rightarrow> f r | Ob_invalid \<Rightarrow> a | Ob_absent \<Rightarrow> b)"
  by (cases v) simp_all

lemma steps_case_map_result:
  "(\<And>s. v = Finalize s \<Longrightarrow> steps R (f s)) \<Longrightarrow> steps R a \<Longrightarrow> steps R b \<Longrightarrow>
    steps R (case v of Finalize s \<Rightarrow> f s | Retry \<Rightarrow> a | Rate_limit \<Rightarrow> b)"
  by (cases v) simp_all

lemma exit_terminal: "map_exit_status x o' m k = Finalize s \<Longrightarrow> terminal_status s"
  by (cases x) (auto simp: terminal_status_def split: if_splits option.splits outcome.splits)

context world_relation
begin

lemma steps_after_finalize [steps_intros]: "steps R (after_finalize E i)" "steps (node_rel R) (notify_if P i b)"
  unfolding after_finalize_def notify_if_def by (intro steps_intros)+

lemma steps_ingest_exit [steps_intros]: "steps (node_rel R) (ingest_exit P i)"
  unfolding ingest_exit_def by (intro steps_intros)

lemma steps_finalize_exit [steps_intros]: "terminal_status s \<Longrightarrow> steps (node_rel R) (finalize_exit P i s res)"
  unfolding finalize_exit_def by (intro steps_intros)

lemma steps_completed [steps_intros]:
  "steps (node_rel R) (completed_with_callback P i res)" "steps (node_rel R) (completed_plain P i res)"
  "steps (node_rel R) (completed_mock P i res)"
  unfolding completed_with_callback_def completed_plain_def completed_mock_def Let_def
  by (intro steps_intros; simp add: terminal_status_def)+

lemma steps_with_callback [steps_intros]:
  "terminal_status s \<Longrightarrow> steps (node_rel R) (finalize_with_callback P i s res)"
  unfolding finalize_with_callback_def by (intro steps_intros)

lemma steps_exits [steps_intros]:
  "steps (node_rel R) (by_exit_status P l res m k)" "steps (node_rel R) (mock_exit P l res m k)"
  unfolding by_exit_status_def mock_exit_def Let_def
  by (rule steps_case_map_result; (intro steps_intros)?; erule exit_terminal)+

lemma steps_probe [steps_intros]: "steps (node_rel R) (record_failure V i)" "steps (node_rel R) (record_success i)"
  unfolding record_failure_def record_success_def by (intro steps_intros steps_files; simp)+

lemma steps_pre_flight [steps_intros]: "steps (node_rel R) (pre_flight P l)"
  unfolding pre_flight_def by (intro steps_intros) (simp add: terminal_status_def)

lemma steps_execute:
  assumes "\<And>l s t. steps (node_rel R) (p_exec P l s t)"
  shows "steps (node_rel R) (execute P l h)" "steps (node_rel R) (run_mock P l h)"
  unfolding execute_def run_mock_def park_for_scope_def by (intro steps_intros assms)+

lemma steps_pickup:
  assumes "\<And>l s t. steps (node_rel R) (p_exec P l s t)"
  shows "steps (node_rel R) (process_claude P i m k)" "steps (node_rel R) (process_mock P i m k)"
  unfolding process_claude_def process_mock_def run_started_def by (intro steps_intros steps_execute assms)+

end

section \<open>Properties\<close>

lemma on_world_app [act_simps]: "on_world m n = (case m (n_world n) of (r, w) \<Rightarrow> (r, n\<lparr>n_world := w\<rparr>))"
  by (simp add: on_world_def)

lemma world_back [simp]: "n\<lparr>n_world := n_world n\<rparr> = n"
  by simp

lemma gate_app: "check_executor_gate V i w = (Inr (projr (fst (check_executor_gate V i w))), w)"
  by (simp add: check_executor_gate_def act_simps)

lemma pre_flight_exec [simp]: "pre_flight (P\<lparr>p_exec := X\<rparr>) l = pre_flight P l"
  by (simp add: pre_flight_def split: option.split)

lemma pre_flight_world: "fst (pre_flight P l n) = Inr None \<Longrightarrow> n_world (snd (pre_flight P l n)) = n_world n"
  by (auto simp: pre_flight_def act_simps record_success_def record_failure_def split: if_splits option.splits sum.splits prod.splits)

text \<open>
  A run that is over or parked is never executed: whatever the executor would do, a pickup of its
  job comes out the same, so the executor is not called; this covers the crash retry that arrives
  after a blocking question parked the run.
\<close>

theorem settled_runs_not_executed:
  assumes "\<forall>r\<in>set (w_runs (n_world n)). r_id r = i \<longrightarrow> r_status r \<noteq> Queued \<and> r_status r \<noteq> Running"
  shows "process_claude (P\<lparr>p_exec := X\<rparr>) i made k n = process_claude P i made k n \<and>
    process_mock (P\<lparr>p_exec := X\<rparr>) i made k n = process_mock P i made k n"
proof -
  have miss: "mark_running i m (n_world n) = (Inr False, n_world n)" for m
    unfolding mark_running_def by (rule update_run_miss) (use assms in auto)
  show ?thesis
  proof
    show "process_mock (P\<lparr>p_exec := X\<rparr>) i made k n = process_mock P i made k n"
      by (subst (1 2) process_mock_def)
         (auto simp: act_simps miss check_executor_gate_def split: option.split gate_verdict.split)
    show "process_claude (P\<lparr>p_exec := X\<rparr>) i made k n = process_claude P i made k n"
    proof (cases "load_run (p_setup_timeout P) i (n_world n)")
      case (Some l)
      obtain out n' where pf: "pre_flight P l n = (out, n')" by fastforce
      show ?thesis
      proof (cases "out = Inr None")
        case True
        then have "n_world n' = n_world n" using pre_flight_world [of P l n] pf by simp
        then show ?thesis
          using Some pf True
          by (auto simp: process_claude_def act_simps miss check_executor_gate_def split: gate_verdict.split)
      next
        case False
        then show ?thesis using Some pf by (auto simp: process_claude_def act_simps split: sum.split option.split)
      qed
    qed (simp add: process_claude_def act_simps)
  qed
qed

lemma notify_not: "notify_if P i False n = (Inr (), n)"
  by (simp add: notify_if_def ret_app)

lemma ingest_exit_runs: "w_runs (n_world (snd (ingest_exit P i n))) = w_runs (n_world n)"
proof -
  have "steps (node_rel (appends (\<lambda>_. False))) (ingest_exit P i)" unfolding ingest_exit_def by (intro steps_intros)
  then show ?thesis by (auto simp: steps_def node_rel_def appends_none)
qed

lemma finalize_exit_misses:
  assumes "\<forall>r\<in>set (w_runs (n_world n)). r_id r = i \<longrightarrow> r_status r \<noteq> Running"
  shows "w_runs (n_world (snd (finalize_exit P i s res n))) = w_runs (n_world n)"
proof -
  have "finalize_status_if_running i s (exit_extra res) (n_world n) = (Inr False, n_world n)"
    unfolding finalize_status_if_running_def by (rule update_run_miss) (use assms in auto)
  then show ?thesis by (simp add: finalize_exit_def act_simps notify_not ingest_exit_runs)
qed

text \<open>
  A park or a callback verdict outlives the exit of the process: while no readable report waits in
  the outbox, neither a \<open>completed\<close> exit nor any other final exit of a callback-wired run that is no
  longer \<open>running\<close> changes a row of \<open>runs\<close>.
\<close>

theorem exit_spares_settled_run:
  assumes "\<forall>r\<in>set (w_runs (n_world n)). r_id r = i \<longrightarrow> r_status r \<noteq> Running"
    and "\<forall>rep. load_outbox_report (p_uid P i) n \<noteq> Ob_valid rep"
  shows "w_runs (n_world (snd (completed_with_callback P i res n))) = w_runs (n_world n) \<and>
    w_runs (n_world (snd (finalize_with_callback P i s res n))) = w_runs (n_world n)"
proof -
  have miss: "park_if_still_running i (n_world n) = (Inr False, n_world n)"
    "fail_if_still_running i d (n_world n) = (Inr False, n_world n)" for d
    unfolding park_if_still_running_def fail_if_still_running_def by (rule update_run_miss; use assms(1) in auto)+
  obtain b where "has_open_blocking_task i (n_world n) = (Inr b, n_world n)"
    by (simp add: has_open_blocking_task_def act_simps)
  then show ?thesis
    using assms(2) finalize_exit_misses [OF assms(1)]
    by (cases "load_outbox_report (p_uid P i) n")
      (auto simp: completed_with_callback_def finalize_with_callback_def act_simps miss notify_not ingest_exit_runs)
qed

lemma after_finalize_app: "\<exists>w'. after_finalize E i w = (Inr (), w') \<and> history w w' \<and> row_kept j w w'"
proof -
  have "steps history (after_finalize E i)" "steps (row_kept j) (after_finalize E i)"
    unfolding after_finalize_def by (intro steps_intros hist.steps_on_run_finished rk.steps_on_run_finished)+
  moreover obtain x w' where "after_finalize E i w = (Inr x, w')"
    by (cases "on_run_finished E i w"; cases "fst (on_run_finished E i w)") (auto simp: after_finalize_def act_simps)
  ultimately show ?thesis using steps_run [of history "after_finalize E i" w] steps_run [of "row_kept j" "after_finalize E i" w] by auto
qed

lemma ingest_exit_history: "history (n_world n) (n_world (snd (ingest_exit P i n)))"
proof -
  have "steps (node_rel history) (ingest_exit P i)" by (rule hist.steps_ingest_exit)
  then show ?thesis by (auto simp: steps_def node_rel_def)
qed

lemma finalize_with_report_verdict:
  assumes "world_ok w" and "r \<in> set (w_runs w)" and "active (r_status r)"
    and "report_ok rep" and "rp_outcome rep = Success \<or> rp_outcome rep = Failure"
  shows "\<exists>w'. finalize_with_report (r_id r) (report_json rep) fx w = (Inr True, w') \<and>
    has_verdict (r_id r) (report_terminal_status rep) rep w'"
proof -
  note hit = finalize_with_report_hit [OF assms(1-3) report_roundtrip [OF assms(4)], of fx]
  have out: "rp_outcome rep \<noteq> Needs_human" using assms(5) by auto
  have eff: "apply_report_effects i rep v = (Inr (), v\<lparr>w_checks := w_checks v @ check_rows i rep\<rparr>)" for i v
    using out by (cases "rp_human_task rep") (simp_all add: apply_report_effects_def act_simps write_checks_app)
  obtain w' where w': "finalize_with_report (r_id r) (report_json rep) fx w = (Inr True, w')"
    "w_runs w' = map (\<lambda>s. if r_id s = r_id r then finalized_by rep fx (w_now w) r else s) (w_runs w)"
    by (rule that, simp only: hit andthen_app eff ret_app prod.case sum.case) simp
  have "finalized_by rep fx (w_now w) r \<in> set (w_runs w')" using w'(2) assms(2) by force
  then have "has_verdict (r_id r) (report_terminal_status rep) rep w'"
    unfolding has_verdict_def by (rule rev_bexI) (simp add: finalized_by_def)
  then show ?thesis using w'(1) by blast
qed

lemma verdict_stays:
  assumes "has_verdict i (report_terminal_status rep) rep w" and "rp_outcome rep = Success \<or> rp_outcome rep = Failure"
    and "history w w'"
  shows "has_verdict i (report_terminal_status rep) rep w'"
  by (rule has_verdict_history [OF assms(1,3)]) (use assms(2) in \<open>auto simp: report_terminal_status_def\<close>)

text \<open>
  A report left in the outbox decides the run at exit: when the process of a callback-wired run
  ends as \<open>completed\<close> or as timed out and the outbox holds a valid success or failure report, the run,
  if it is active, ends with that verdict and the file is consumed. This rescues a completion
  the network lost; it also holds for a run that a blocking question has parked.
\<close>

theorem outbox_verdict_at_exit:
  assumes "world_ok (n_world n)" and "find_run i (n_world n) = Some r" and "active (r_status r)"
    and "load_outbox_report (p_uid P i) n = Ob_valid rep" and "report_ok rep"
    and "rp_outcome rep = Success \<or> rp_outcome rep = Failure"
  shows "has_verdict i (report_terminal_status rep) rep (n_world (snd (completed_with_callback P i res n))) \<and>
    has_verdict i (report_terminal_status rep) rep (n_world (snd (finalize_with_callback P i Timed_out res n))) \<and>
    n_outbox (snd (finalize_with_callback P i Timed_out res n)) = remove_file (outbox_file (p_uid P i)) (n_outbox n)"
proof -
  have r: "r \<in> set (w_runs (n_world n))" "r_id r = i" using find_run_Some [OF assms(2)] by auto
  have fin: "\<exists>w'. finalize_with_report i (report_json rep) fx (n_world n) = (Inr True, w') \<and>
      has_verdict i (report_terminal_status rep) rep w'" for fx
    using finalize_with_report_verdict [OF assms(1) r(1) assms(3,5,6)] r(2) by simp
  note stays = verdict_stays [OF _ assms(6)]
  obtain w1 where w1: "finalize_with_report i (report_json rep) (cost_extra res) (n_world n) = (Inr True, w1)"
    "has_verdict i (report_terminal_status rep) rep w1" using fin by blast
  obtain w2 where w2: "after_finalize (p_env P) i w1 = (Inr (), w2)" "history w1 w2" using after_finalize_app by blast
  let ?n2 = "n\<lparr>n_outbox := remove_file (outbox_file (p_uid P i)) (n_outbox n), n_world := w2\<rparr>"
  have "completed_with_callback P i res n = ingest_exit P i ?n2"
    using assms(4) w1(1) w2(1)
    by (simp add: completed_with_callback_def act_simps remove_outbox_def notify_if_def)
  then have one: "has_verdict i (report_terminal_status rep) rep (n_world (snd (completed_with_callback P i res n)))"
    using stays [OF stays [OF w1(2) w2(2)]] ingest_exit_history [of ?n2 P i] by simp
  obtain w3 where w3: "finalize_with_report i (report_json rep) (exit_extra res) (n_world n) = (Inr True, w3)"
    "has_verdict i (report_terminal_status rep) rep w3" using fin by blast
  obtain w4 where w4: "after_finalize (p_env P) i w3 = (Inr (), w4)" "history w3 w4" using after_finalize_app by blast
  have "finalize_with_callback P i Timed_out res n =
      (Inr Finished, n\<lparr>n_outbox := remove_file (outbox_file (p_uid P i)) (n_outbox n), n_world := w4\<rparr>)"
    using assms(4) w3(1) w4(1) by (simp add: finalize_with_callback_def act_simps remove_outbox_def)
  then show ?thesis using one stays [OF w3(2) w4(2)] by simp
qed

lemma find_filter: "find P xs = (case filter P xs of [] \<Rightarrow> None | x # ys \<Rightarrow> Some x)"
  by (induction xs) simp_all

lemma find_run_case: "find_run i w = (case rows_of i w of [] \<Rightarrow> None | r # rs \<Rightarrow> Some r)"
  unfolding find_run_def rows_of_def by (rule find_filter)

lemma load_run_id: "load_run t i w = Some l \<Longrightarrow> lr_run l = i"
  using find_run_Some by (auto simp: load_run_def split: option.splits)

text \<open>
  The deployment guard overrides a parked run: a stale or missing artifact finalizes the run of
  the job as failed although a person was asked a question and the run is \<open>awaiting_human\<close>, which is
  where a crash retry after a blocking request finds it.
\<close>

theorem artifact_guard_fails_parked_run:
  assumes "world_ok (n_world n)" and "find_run i (n_world n) = Some r" and "r_status r = Awaiting_human"
    and "load_run (p_setup_timeout P) i (n_world n) = Some l" and "lr_use_callback_channel l"
    and "format_artifact_error (p_artifact P) = Some message"
  shows "\<exists>n' r'. process_claude P i made k n = (Inr Finished, n') \<and> find_run i (n_world n') = Some r' \<and>
    r_status r' = Failed \<and> r_error r' = Some message"
proof -
  let ?w = "n_world n" and ?fx = "no_extra\<lparr>fx_error := Some message\<rparr>"
  let ?r' = "apply_extra ?fx (r\<lparr>r_status := Failed, r_finished := Some (w_now ?w)\<rparr>)"
  have r: "r \<in> set (w_runs ?w)" "r_id r = i" using find_run_Some [OF assms(2)] by auto
  have act: "active (r_status r)" using assms(3) by (simp add: active_def)
  have hit: "finalize_status i Failed ?fx ?w =
      (Inr True, ?w\<lparr>w_runs := map (\<lambda>s. if r_id s = i then ?r' else s) (w_runs ?w)\<rparr>)"
    unfolding finalize_status_def guarded_finalize_def r(2) [symmetric]
    by (rule update_run_hit [where P = "\<lambda>r. active (r_status r)", OF assms(1) r(1) act]) (simp_all add: same_run_def active_def apply_extra_def)
  let ?w1 = "?w\<lparr>w_runs := map (\<lambda>s. if r_id s = i then ?r' else s) (w_runs ?w)\<rparr>"
  obtain w2 where w2: "after_finalize (p_env P) i ?w1 = (Inr (), w2)" "row_kept i ?w1 w2" using after_finalize_app by blast
  have "i < w_next ?w1" using assms(1) r by (auto simp: world_ok_def)
  then have "find_run i w2 = find_run i ?w1" using w2(2) by (simp add: find_run_case row_kept_def)
  moreover have "find_run i ?w1 = Some ?r'"
    using find_run_updated [OF r(1), of ?r' ?w1] r(2) by simp
  moreover have "process_claude P i made k n = (Inr Finished, n\<lparr>n_world := w2\<rparr>)"
    using assms(4-6) hit w2(1) load_run_id [OF assms(4)] by (simp add: process_claude_def pre_flight_def act_simps)
  ultimately show ?thesis by (auto simp: apply_extra_def override_def)
qed

text \<open>
  A rate-limited run holds the slot it waits for: the \<open>rate_limited\<close> exit leaves the row
  \<open>running\<close> and the job waiting; when the job comes back and the profile has one slot, the gate counts
  the run itself, holds it and changes nothing, and so does every later pickup.
\<close>

theorem rate_limited_run_blocks_itself:
  assumes "find_run i (n_world n) = Some r" and "r_status r = Running" and "executor_of_run (n_world n) r = Some x"
    and "x_enabled x" and "x_max_parallel_runs x \<le> 1" and "find_workspace (r_workspace r) (n_world n) = Some s"
    and "er_exit res = Ex_rate_limited" and "lr_run l = i" and "format_artifact_error (p_artifact P) = None" and "p_alive P"
  shows "\<exists>ttl ttl' n'. by_exit_status P' l res m k n = (Inr (Held ttl), n) \<and>
    process_claude P i made k n = (Inr (Held ttl'), n') \<and> n_world n' = n_world n"
proof -
  obtain a where "find_agent (r_agent r) (n_world n) = Some a" "find_executor (a_executor a) (n_world n) = Some x"
    using assms(3) by (auto simp: executor_of_run_def split: option.splits)
  then obtain l' where l': "load_run (p_setup_timeout P) i (n_world n) = Some l'"
    using assms(1,6) by (simp add: load_run_def)
  obtain n' where n': "pre_flight P l' n = (Inr None, n')" "n_world n' = n_world n"
    using assms(9,10) by (cases "lr_use_callback_channel l'") (simp_all add: pre_flight_def act_simps record_success_def)
  have "process_claude P i made k n =
      (Inr (Held (ttl_or (ttl_override (p_vars P)) AT_CAPACITY_TTL_MS)), n')"
    using l' n' running_run_holds_its_slot [OF assms(1-5), of "p_vars P"]
    by (simp add: process_claude_def act_simps)
  moreover have "\<exists>ttl. by_exit_status P' l res m k n = (Inr (Held ttl), n)"
    using assms(7) by (simp add: by_exit_status_def act_simps)
  ultimately show ?thesis using n'(2) by blast
qed

text \<open>
  Untrusted durations are tamed: whatever the CLI reports, a park lasts a whole number of
  milliseconds and at least a minute; and whatever a trigger event asks for, a run of an agent with a
  positive budget gets a positive timeout of at most a day.
\<close>

theorem durations_bounded:
  "MIN_RATE_LIMIT_TTL_MS \<le> sanitize_rate_limit_ttl reported \<and> sanitize_rate_limit_ttl reported \<in> \<int> \<and>
   sanitize_timeout_ms given fallback \<le> MAX_RUN_TIMEOUT_MS \<and> (0 < sanitize_timeout_ms given fallback \<or> fallback \<le> 0)"
proof -
  have q: "MIN_RATE_LIMIT_TTL_MS \<in> \<int>" "DEFAULT_RATE_LIMIT_TTL_MS \<in> \<int>"
    by (simp_all add: MIN_RATE_LIMIT_TTL_MS_def DEFAULT_RATE_LIMIT_TTL_MS_def)
  have "MIN_RATE_LIMIT_TTL_MS \<le> sanitize_rate_limit_ttl reported \<and> sanitize_rate_limit_ttl reported \<in> \<int>"
    using q by (cases reported; cases "the reported")
      (auto simp: sanitize_rate_limit_ttl_def MIN_RATE_LIMIT_TTL_MS_def DEFAULT_RATE_LIMIT_TTL_MS_def max_def)
  moreover have "0 < (of_int \<lceil>q\<rceil> :: rat)" if "\<not> q \<le> 0" for q :: rat
    using that by (simp add: zero_less_ceiling)
  then have "sanitize_timeout_ms given fallback \<le> MAX_RUN_TIMEOUT_MS \<and> (0 < sanitize_timeout_ms given fallback \<or> fallback \<le> 0)"
    by (cases given; cases "the given") (auto simp: sanitize_timeout_ms_def MAX_RUN_TIMEOUT_MS_def min_def)
  ultimately show ?thesis by blast
qed

section \<open>Witnesses\<close>

definition sample_processor :: processor where
  "sample_processor = \<lparr>p_vars = (\<lambda>k. None), p_env = sample_env, p_uid = sample_uuid, p_is_datetime = (\<lambda>s. True),
     p_setup = \<lparr>sx_catalog = None, sx_protocol = ''study''\<rparr>, p_setup_timeout = 60, p_artifact = Guard_ok, p_alive = True,
     p_exec = (\<lambda>l s t. ret (Exec_result (crashed ''boom'')))\<rparr>"

definition parked_node :: node where
  "parked_node = sample_node (sample_world [sample_run 7 (Some 4) Awaiting_human])"

lemma parked_runs: "w_runs (n_world parked_node) = [sample_run 7 (Some 4) Awaiting_human]"
  by (simp add: parked_node_def sample_node_def sample_world_def)

theorem settled_runs_not_executed_witness:
  "process_claude (sample_processor\<lparr>p_exec := \<lambda>l s t. throw unique_violation\<rparr>) 7 0 2 parked_node =
     process_claude sample_processor 7 0 2 parked_node"
  using settled_runs_not_executed [where n = parked_node and i = 7 and P = sample_processor and made = 0 and k = 2
      and X = "\<lambda>l s t. throw unique_violation"]
  by (simp add: parked_runs sample_run_def)

theorem exit_spares_settled_run_witness:
  "w_runs (n_world (snd (completed_with_callback sample_processor 7 (crashed ''boom'') parked_node))) =
     [sample_run 7 (Some 4) Awaiting_human]"
proof -
  have "\<forall>rep. load_outbox_report (p_uid sample_processor 7) parked_node \<noteq> Ob_valid rep"
    by (simp add: load_outbox_report_def read_outbox_report_def read_file_def parked_node_def sample_node_def)
  with exit_spares_settled_run [where n = parked_node and i = 7 and P = sample_processor and res = "crashed ''boom''" and s = Failed] show ?thesis
    by (simp add: parked_runs sample_run_def)
qed

theorem outbox_verdict_at_exit_witness:
  "has_verdict 7 Succeeded (scrub_agent_report sample_report) (n_world (snd (finalize_with_callback sample_processor 7 Timed_out
     (crashed ''boom'') (snd (write_outbox (sample_uuid 7) (report_json sample_report) parked_node)))))"
proof -
  let ?n = "snd (write_outbox (sample_uuid 7) (report_json sample_report) parked_node)"
  have ok: "report_ok sample_report" by code_simp
  have same: "n_world ?n = n_world parked_node" by (simp add: write_outbox_def modify_def)
  have "load_outbox_report (p_uid sample_processor 7) ?n = Ob_valid (scrub_agent_report sample_report)"
    using outbox_back [OF plain_report, of sample_report "sample_uuid 7" parked_node] report_roundtrip [OF ok]
    by (simp add: load_outbox_report_def sample_processor_def report_json_def)
  moreover have "world_ok (n_world ?n)" unfolding same by (simp add: parked_node_def sample_node_def sample_single_ok)
  moreover have "find_run 7 (n_world ?n) = Some (sample_run 7 (Some 4) Awaiting_human)"
    unfolding same by (simp add: parked_node_def sample_node_def find_run_def sample_defs)
  ultimately have r: "load_outbox_report (p_uid sample_processor 7) ?n = Ob_valid (scrub_agent_report sample_report)"
    "world_ok (n_world ?n)" "find_run 7 (n_world ?n) = Some (sample_run 7 (Some 4) Awaiting_human)" by blast+
  have "active (r_status (sample_run 7 (Some 4) Awaiting_human))" by (simp add: active_def sample_run_def)
  moreover have "rp_outcome (scrub_agent_report sample_report) = Success" by (simp add: scrub_agent_report_def sample_report_def)
  moreover from this have "report_terminal_status (scrub_agent_report sample_report) = Succeeded"
    by (simp add: report_terminal_status_def)
  ultimately show ?thesis
    using outbox_verdict_at_exit [where res = "crashed ''boom''", OF r(2,3) _ r(1) sample_reports_ok(2)] by auto
qed

theorem artifact_guard_fails_parked_run_witness:
  "\<exists>n' r'. process_claude (sample_processor\<lparr>p_artifact := Guard_missing ''main.js''\<rparr>) 7 1 2
      (parked_node\<lparr>n_world := (sample_world [sample_run 7 (Some 4) Awaiting_human])\<lparr>w_executors := [sample_executor\<lparr>x_config :=
         JObj [(''useCallbackChannel'', JBool True)]\<rparr>]\<rparr>\<rparr>) = (Inr Finished, n') \<and>
     find_run 7 (n_world n') = Some r' \<and> r_status r' = Failed"
proof -
  let ?w = "(sample_world [sample_run 7 (Some 4) Awaiting_human])\<lparr>w_executors := [sample_executor\<lparr>x_config :=
      JObj [(''useCallbackChannel'', JBool True)]\<rparr>]\<rparr>"
  let ?n = "parked_node\<lparr>n_world := ?w\<rparr>" and ?P = "sample_processor\<lparr>p_artifact := Guard_missing ''main.js''\<rparr>"
  have w: "n_world ?n = ?w" by simp
  have ok: "world_ok (n_world ?n)"
    unfolding w using sample_single_ok [of 7 "Some 4" Awaiting_human] by (simp add: world_ok_def)
  have r: "find_run 7 (n_world ?n) = Some (sample_run 7 (Some 4) Awaiting_human)"
    unfolding w by (simp add: find_run_def sample_defs)
  then have "\<exists>l. load_run 60 7 (n_world ?n) = Some l \<and> lr_use_callback_channel l"
    unfolding w by (simp add: load_run_def) (simp add: sample_defs find_agent_def find_workspace_def find_executor_def)
  then obtain l where l: "load_run (p_setup_timeout ?P) 7 (n_world ?n) = Some l" "lr_use_callback_channel l"
    by (auto simp: sample_processor_def)
  obtain message where message: "format_artifact_error (p_artifact ?P) = Some message" by simp
  have "r_status (sample_run 7 (Some 4) Awaiting_human) = Awaiting_human" by (simp add: sample_run_def)
  from artifact_guard_fails_parked_run [where made = 1 and k = 2, OF ok r this l message] show ?thesis by blast
qed

theorem rate_limited_run_blocks_itself_witness:
  "\<exists>ttl n'. process_claude sample_processor 7 1 2 (sample_node (sample_world [sample_run 7 (Some 4) Running])) = (Inr (Held ttl), n') \<and>
     n_world n' = sample_world [sample_run 7 (Some 4) Running]"
proof -
  let ?w = "sample_world [sample_run 7 (Some 4) Running]" and ?r = "sample_run 7 (Some 4) Running"
  let ?n = "sample_node ?w" and ?l = "the (load_run 60 7 (sample_world [sample_run 7 (Some 4) Running]))"
  have w: "n_world ?n = ?w" by (simp add: sample_node_def)
  have r: "find_run 7 ?w = Some ?r" by (simp add: find_run_def sample_defs)
  have x: "executor_of_run ?w ?r = Some sample_executor" "find_workspace (r_workspace ?r) ?w = Some sample_workspace"
    by (simp_all add: executor_of_run_def find_agent_def find_executor_def find_workspace_def sample_defs)
  have l: "lr_run ?l = 7"
    using r x by (simp add: load_run_def) (simp add: sample_defs find_agent_def find_executor_def)
  show ?thesis
    using rate_limited_run_blocks_itself [where i = 7 and n = ?n and r = ?r and x = sample_executor and s = sample_workspace
        and res = "(crashed ''limit'')\<lparr>er_exit := Ex_rate_limited\<rparr>" and l = ?l and P = sample_processor and made = 1 and k = 2] r x l unfolding w
    by (auto simp: sample_processor_def sample_executor_def sample_run_def)
qed

section \<open>The poll and the token\<close>

lemma poll_aborts_after_grace:
  assumes "s = Succeeded \<or> s = Failed" and "cancel_poll (Some s) None t grace = (b, d)" and "t + grace \<le> t'"
  shows "fst (cancel_poll (Some s) d t' grace)"
  using assms by (auto simp: cancel_poll_def Let_def)

text \<open>The token of a run is good for the whole budget of the run and five minutes more.\<close>

lemma token_outlives_budget:
  "now \<le> t \<Longrightarrow> t \<le> now + (lr_timeout_minutes l * 60 + 299) * 1000 \<Longrightarrow> t div 1000 \<le> tc_exp (run_claims uid l now)"
  by (simp add: run_claims_def RUN_TOKEN_GRACE_SECONDS_def)

end
