(* ===== verification/CliProcess.thy ===== *)
theory CliProcess
  imports StreamParser Worker
begin

text \<open>
  The life of one agent process (\<open>ClaudeCliExecutor.runProcess\<close>): what arrives on its two streams,
  the abort signal, the end of a kill, the fallback timer, and the close of the process drive a state
  machine that settles the run with one result. Each event is handled to its end before the next;
  the order in which they arrive is arbitrary.
\<close>

section \<open>State and events\<close>

definition STDERR_TAIL_BYTES :: nat where
  "STDERR_TAIL_BYTES = 16 * 1024"

datatype abort_reason = Ab_cancelled | Ab_timeout

record proc_config =
  pc_type :: string
  pc_model :: string
  pc_use_callback_channel :: bool
  pc_max_budget :: "rat option"
  pc_settle_grace :: int
  pc_scrub :: "string \<Rightarrow> string"
  pc_schema_message :: "json option \<Rightarrow> string"

record proc =
  pr_parser :: parser_state
  pr_stderr :: string
  pr_external_ref :: "string option"
  pr_terminal :: "terminal_result option"
  pr_rate_limited :: bool
  pr_abort :: "abort_reason option"
  pr_killed :: bool
  pr_armed :: bool
  pr_close_started :: bool
  pr_settled :: "executor_result option"
  pr_events :: "(string \<times> json) list"

datatype proc_event =
    Line int string
  | Stderr string
  | Abort abort_reason
  | Spawn_error string
  | Terminated
  | Fallback
  | Close "int option"

definition new_proc :: proc where
  "new_proc = \<lparr>pr_parser = new_parser, pr_stderr = [], pr_external_ref = None, pr_terminal = None, pr_rate_limited = False,
     pr_abort = None, pr_killed = False, pr_armed = False, pr_close_started = False, pr_settled = None, pr_events = []\<rparr>"

definition push_stderr :: "string \<Rightarrow> string \<Rightarrow> string" where
  "push_stderr buf chunk = (let b = buf @ chunk in
     if STDERR_TAIL_BYTES < length b then drop (length b - STDERR_TAIL_BYTES) b else b)"

definition persist :: "string \<Rightarrow> json \<Rightarrow> proc \<Rightarrow> proc" where
  "persist ty payload p = p\<lparr>pr_events := pr_events p @ [(ty, payload)]\<rparr>"

definition settle :: "executor_result \<Rightarrow> proc \<Rightarrow> proc" where
  "settle r p = (if pr_settled p \<noteq> None then p else p\<lparr>pr_settled := Some r, pr_armed := False\<rparr>)"

fun event_name :: "stream_event_type \<Rightarrow> string" where
  "event_name Se_log = ''log''"
| "event_name Se_tool_call = ''tool_call''"
| "event_name Se_progress = ''progress''"
| "event_name Se_api_retry = ''api_retry''"
| "event_name Se_tool_denied = ''tool_denied''"

fun on_parsed :: "parsed_line \<Rightarrow> proc \<Rightarrow> proc" where
  "on_parsed (P_event ty payload) p = persist (event_name ty) (JObj payload) p"
| "on_parsed (P_external_ref s) p = p\<lparr>pr_external_ref := Some s\<rparr>"
| "on_parsed (P_terminal t) p = p\<lparr>pr_terminal := Some t\<rparr>"
| "on_parsed (P_rate_limit delay attempt) p = p\<lparr>pr_rate_limited := True, pr_killed := True\<rparr>"

definition on_line :: "proc_config \<Rightarrow> int \<Rightarrow> string \<Rightarrow> proc \<Rightarrow> proc" where
  "on_line c now line p =
     (case parse_line (default_options (pc_scrub c)) now line (pr_parser p) of
        (out, st) \<Rightarrow> foldl (\<lambda>p x. on_parsed x p) (p\<lparr>pr_parser := st\<rparr>) out)"

section \<open>Settling\<close>

definition cost_of :: "proc_config \<Rightarrow> proc \<Rightarrow> rat option" where
  "cost_of c p = resolve_cost_usd (pc_type c) (pc_model c) (pr_terminal p)"

definition exit_result :: "proc_config \<Rightarrow> proc \<Rightarrow> exit_status \<Rightarrow> string option \<Rightarrow> executor_result" where
  "exit_result c p s d = \<lparr>er_exit = s, er_report = None, er_external_ref = pr_external_ref p, er_cost = cost_of c p,
     er_usage = Option.bind (pr_terminal p) tm_usage, er_diagnostics = d\<rparr>"

definition over_budget :: "proc_config \<Rightarrow> proc \<Rightarrow> (rat \<times> rat) option" where
  "over_budget c p = (case (pc_max_budget c, cost_of c p) of
     (Some b, Some q) \<Rightarrow> if b < q then Some (q, b) else None | _ \<Rightarrow> None)"

definition terminal_outcome :: "proc_config \<Rightarrow> proc \<Rightarrow> terminal_result \<Rightarrow> executor_result" where
  "terminal_outcome c p t =
     (case over_budget c p of
        Some (q, b) \<Rightarrow> exit_result c p Ex_crashed
          (Some (''budget exceeded: cost_usd='' @ show_num q @ '' > max_budget_usd='' @ show_num b))
      | None \<Rightarrow>
          if pc_use_callback_channel c then exit_result c p Ex_completed None
          else case Option.bind (tm_structured_output t) report_schema of
            Some rep \<Rightarrow> (exit_result c p Ex_completed None)\<lparr>er_report := Some (report_json rep)\<rparr>
          | None \<Rightarrow> exit_result c p Ex_completed
              (Some (''no schema-valid structured_output: '' @ pc_schema_message c (tm_structured_output t))))"

definition no_result_text :: "proc_config \<Rightarrow> proc \<Rightarrow> int option \<Rightarrow> string" where
  "no_result_text c p code = (let tail = pc_scrub c (pr_stderr p) in
     ''claude exited (code='' @ (case code of None \<Rightarrow> ''null'' | Some k \<Rightarrow> show_int k) @ '') without a result event'' @
     (if tail = [] then [] else '': '' @ tail))"

definition stderr_event :: "proc_config \<Rightarrow> proc \<Rightarrow> proc" where
  "stderr_event c p = (if pr_stderr p = [] then p
     else persist ''error'' (JObj [(''source'', JStr ''stderr-tail''), (''reason'', JStr ''timeout''),
       (''stderr'', JStr (pc_scrub c (pr_stderr p)))]) p)"

definition handle_close :: "proc_config \<Rightarrow> int option \<Rightarrow> proc \<Rightarrow> proc" where
  "handle_close c code p0 =
     (if pr_close_started p0 then p0
      else
        let p = p0\<lparr>pr_close_started := True\<rparr> in
        if pr_abort p = Some Ab_cancelled then settle (exit_result c p Ex_cancelled (Some ''run cancelled'')) p
        else if pr_rate_limited p then
          settle (exit_result c p Ex_rate_limited (Some ''subscription rate limit hit - retry later, attempt not spent'')) p
        else if pr_abort p = Some Ab_timeout then settle (exit_result c p Ex_timeout (Some ''run timeout'')) (stderr_event c p)
        else case pr_terminal p of
          Some t \<Rightarrow> settle (terminal_outcome c p t) p
        | None \<Rightarrow> settle \<lparr>er_exit = Ex_crashed, er_report = None, er_external_ref = pr_external_ref p, er_cost = None,
            er_usage = None, er_diagnostics = Some (no_result_text c p code)\<rparr> p)"

definition fallback_event :: "proc_config \<Rightarrow> json" where
  "fallback_event c = JObj [(''source'', JStr ''settlement-timeout''),
     (''message'', JStr (''process group did not close within '' @ show_int (pc_settle_grace c) @
        ''ms of the kill - settling the run from the parsed outcome''))]"

fun proc_step :: "proc_config \<Rightarrow> proc \<Rightarrow> proc_event \<Rightarrow> proc" where
  "proc_step c p (Line now s) = on_line c now s p"
| "proc_step c p (Stderr s) = p\<lparr>pr_stderr := push_stderr (pr_stderr p) s\<rparr>"
| "proc_step c p (Abort r) =
     (if pr_close_started p \<or> pr_abort p \<noteq> None then p else p\<lparr>pr_abort := Some r, pr_killed := True\<rparr>)"
| "proc_step c p (Spawn_error m) =
     settle \<lparr>er_exit = Ex_crashed, er_report = None, er_external_ref = pr_external_ref p, er_cost = None, er_usage = None,
       er_diagnostics = Some (''failed to spawn claude: '' @ m)\<rparr> p"
| "proc_step c p Terminated =
     (if \<not> pr_killed p \<or> pr_settled p \<noteq> None \<or> pr_close_started p then p else p\<lparr>pr_armed := True\<rparr>)"
| "proc_step c p Fallback =
     (if \<not> pr_armed p then p
      else if pr_settled p \<noteq> None \<or> pr_close_started p then p\<lparr>pr_armed := False\<rparr>
      else handle_close c None (persist ''log'' (fallback_event c) (p\<lparr>pr_armed := False\<rparr>)))"
| "proc_step c p (Close code) = handle_close c code (p\<lparr>pr_armed := False\<rparr>)"

definition run_process :: "proc_config \<Rightarrow> proc_event list \<Rightarrow> proc" where
  "run_process c evs = foldl (proc_step c) new_proc evs"

section \<open>Exactly one result\<close>

lemma settle_keeps: "pr_settled p = Some r \<Longrightarrow> pr_settled (settle x p) = Some r"
  by (simp add: settle_def)

lemma settle_settles: "pr_settled (settle x p) \<noteq> None"
  by (auto simp: settle_def)

lemma persist_keeps [simp]:
  "pr_settled (persist ty j p) = pr_settled p" "pr_close_started (persist ty j p) = pr_close_started p"
  "pr_killed (persist ty j p) = pr_killed p" "pr_armed (persist ty j p) = pr_armed p"
  "pr_abort (persist ty j p) = pr_abort p" "pr_rate_limited (persist ty j p) = pr_rate_limited p"
  "pr_terminal (persist ty j p) = pr_terminal p" "pr_external_ref (persist ty j p) = pr_external_ref p"
  "pr_stderr (persist ty j p) = pr_stderr p"
  by (simp_all add: persist_def)

lemma stderr_event_keeps [simp]:
  "pr_settled (stderr_event c p) = pr_settled p" "pr_close_started (stderr_event c p) = pr_close_started p"
  by (simp_all add: stderr_event_def)

lemma on_parsed_keeps:
  "pr_settled (on_parsed x p) = pr_settled p" "pr_close_started (on_parsed x p) = pr_close_started p"
  "pr_abort (on_parsed x p) = pr_abort p" "pr_killed p \<Longrightarrow> pr_killed (on_parsed x p)"
  "pr_armed (on_parsed x p) = pr_armed p" "pr_stderr (on_parsed x p) = pr_stderr p"
  by (cases x; simp)+

lemma parsed_all_keeps:
  "pr_settled (foldl (\<lambda>p x. on_parsed x p) p xs) = pr_settled p"
  "pr_close_started (foldl (\<lambda>p x. on_parsed x p) p xs) = pr_close_started p"
  "pr_abort (foldl (\<lambda>p x. on_parsed x p) p xs) = pr_abort p"
  "pr_killed p \<Longrightarrow> pr_killed (foldl (\<lambda>p x. on_parsed x p) p xs)"
  "pr_armed (foldl (\<lambda>p x. on_parsed x p) p xs) = pr_armed p"
  by (induction xs arbitrary: p) (simp_all add: on_parsed_keeps)

lemma on_line_keeps:
  "pr_settled (on_line c now s p) = pr_settled p" "pr_close_started (on_line c now s p) = pr_close_started p"
  "pr_abort (on_line c now s p) = pr_abort p" "pr_killed p \<Longrightarrow> pr_killed (on_line c now s p)"
  "pr_armed (on_line c now s p) = pr_armed p"
  by (simp_all add: on_line_def parsed_all_keeps split: prod.split)

lemma close_keeps: "pr_settled p = Some r \<Longrightarrow> pr_settled (handle_close c code p) = Some r"
  by (simp add: handle_close_def Let_def settle_def split: option.split)

lemma close_settles: "\<not> pr_close_started p \<Longrightarrow> pr_settled (handle_close c code p) \<noteq> None"
  by (simp add: handle_close_def Let_def settle_settles del: not_None_eq split: option.split)

lemma step_keeps_result: "pr_settled p = Some r \<Longrightarrow> pr_settled (proc_step c p e) = Some r"
  by (cases e) (simp_all add: on_line_keeps close_keeps settle_keeps)

lemma result_stands: "pr_settled p = Some r \<Longrightarrow> pr_settled (foldl (proc_step c) p evs) = Some r"
  by (induction evs arbitrary: p) (simp_all add: step_keeps_result)

text \<open>The process has started to close only with a result.\<close>

definition closed_settled :: "proc \<Rightarrow> bool" where
  "closed_settled p \<longleftrightarrow> (pr_close_started p \<longrightarrow> pr_settled p \<noteq> None)"

lemma close_closed: "closed_settled p \<Longrightarrow> closed_settled (handle_close c code p)"
  using close_settles [of p c code] by (cases "pr_close_started p") (auto simp: closed_settled_def handle_close_def)

lemma settle_closed: "closed_settled (settle x p)"
  using settle_settles [of x p] by (simp add: closed_settled_def)

lemma step_closed: "closed_settled p \<Longrightarrow> closed_settled (proc_step c p e)"
proof (cases e)
  case (Close code)
  assume "closed_settled p"
  then have "closed_settled (p\<lparr>pr_armed := False\<rparr>)" by (simp add: closed_settled_def)
  then show ?thesis using close_closed Close by simp
next
  case Fallback
  assume p: "closed_settled p"
  then have "closed_settled (persist ''log'' (fallback_event c) (p\<lparr>pr_armed := False\<rparr>))" by (simp add: closed_settled_def)
  then show ?thesis using close_closed Fallback p by (simp add: closed_settled_def)
next
  case (Spawn_error m)
  then show ?thesis by (simp add: settle_closed)
qed (auto simp: closed_settled_def on_line_keeps)

lemma run_closed: "closed_settled (run_process c evs)"
proof -
  have "closed_settled p \<Longrightarrow> closed_settled (foldl (proc_step c) p evs)" for p
    by (induction evs arbitrary: p) (simp_all add: step_closed)
  then show ?thesis by (simp add: run_process_def closed_settled_def new_proc_def)
qed

text \<open>
  C13. No run hangs on its process: once a kill was decided - by an abort or by a rate limit - the end
  of the kill and the fallback timer settle the run, whatever came before and even if the process
  never closes; and a settled run keeps the one result it was settled with, whatever comes after.
\<close>

theorem killed_process_settles_once:
  assumes "pr_killed (run_process c evs)"
  shows "\<exists>r. pr_settled (run_process c (evs @ [Terminated, Fallback])) = Some r \<and>
    pr_settled (run_process c (evs @ [Terminated, Fallback] @ later)) = Some r"
proof -
  let ?p = "run_process c evs"
  have run: "run_process c (evs @ more) = foldl (proc_step c) ?p more" for more by (simp add: run_process_def)
  have "pr_settled (foldl (proc_step c) ?p [Terminated, Fallback]) \<noteq> None"
  proof (cases "pr_settled ?p")
    case (Some r)
    then show ?thesis using result_stands by (metis option.distinct(1))
  next
    case None
    then have "\<not> pr_close_started ?p" using run_closed [of c evs] by (auto simp: closed_settled_def)
    then show ?thesis using None assms by (simp add: close_settles)
  qed
  then obtain r where r: "pr_settled (foldl (proc_step c) ?p [Terminated, Fallback]) = Some r" by blast
  have "pr_settled (foldl (proc_step c) ?p ([Terminated, Fallback] @ later)) = Some r"
    using result_stands [OF r, of c later] by (simp only: foldl_append)
  then show ?thesis unfolding run using r by blast
qed

section \<open>The outcome of a run from its history\<close>

definition line_json :: "string \<Rightarrow> json option" where
  "line_json s = (if js_trim s = [] then None else json_parse (js_trim s))"

fun rate_event :: "proc_event \<Rightarrow> bool" where
  "rate_event (Line now s) = (case line_json s of None \<Rightarrow> False | Some e \<Rightarrow>
     jget_str e ''type'' = Some ''system'' \<and> jget_str e ''subtype'' = Some ''api_retry'' \<and> jget_str e ''error'' = Some ''rate_limit'')"
| "rate_event _ = False"

fun result_event :: "proc_event \<Rightarrow> bool" where
  "result_event (Line now s) = (case line_json s of None \<Rightarrow> False | Some e \<Rightarrow> jget_str e ''type'' = Some ''result'')"
| "result_event _ = False"

fun abort_event :: "proc_event \<Rightarrow> abort_reason option" where
  "abort_event (Abort r) = Some r"
| "abort_event _ = None"

definition first_abort :: "proc_event list \<Rightarrow> abort_reason option" where
  "first_abort evs = (case List.map_filter abort_event evs of [] \<Rightarrow> None | r # rs \<Rightarrow> Some r)"

text \<open>The events of a process that is still running.\<close>

fun while_running :: "proc_event \<Rightarrow> bool" where
  "while_running (Line now s) = True"
| "while_running (Stderr s) = True"
| "while_running (Abort r) = True"
| "while_running Terminated = True"
| "while_running _ = False"

fun limits_rate :: "parsed_line \<Rightarrow> bool" where
  "limits_rate (P_rate_limit d a) = True"
| "limits_rate _ = False"

fun ends_run :: "parsed_line \<Rightarrow> bool" where
  "ends_run (P_terminal t) = True"
| "ends_run _ = False"

fun plain_event :: "parsed_line \<Rightarrow> bool" where
  "plain_event (P_event ty p) = True"
| "plain_event _ = False"

lemma blocks_plain: "(\<And>b st. list_all plain_event (fst (f b st))) \<Longrightarrow> list_all plain_event (fst (each_block f bs st))"
proof (induction bs arbitrary: st)
  case (Cons b bs)
  obtain out st' where one: "f b st = (out, st')" by (metis surj_pair)
  obtain out' st'' where rest: "each_block f bs st' = (out', st'')" by (metis surj_pair)
  have "list_all plain_event out" using Cons.prems [of b st] one by simp
  moreover have "list_all plain_event out'" using Cons.IH [OF Cons.prems, of st'] rest by simp
  ultimately show ?case by (simp add: one rest)
qed simp

lemma assistant_plain: "list_all plain_event (fst (assistant_block cfg now b st))"
  by (auto simp: assistant_block_def sample_progress_def split: option.split prod.split)

lemma user_plain: "list_all plain_event (fst (user_block cfg b st))"
  by (auto simp: user_block_def Let_def split: option.split prod.split)

lemma plain_events: "list_all plain_event xs \<Longrightarrow> \<not> list_ex limits_rate xs \<and> \<not> list_ex ends_run xs"
proof (induction xs)
  case (Cons x xs)
  then show ?case by (cases x) auto
qed simp

lemma line_marks:
  "list_ex limits_rate (fst (parse_line cfg now s st)) \<longleftrightarrow> rate_event (Line t s)"
  "list_ex ends_run (fst (parse_line cfg now s st)) \<longleftrightarrow> result_event (Line t s)"
proof -
  have "list_ex limits_rate (fst (map_event cfg now e st)) \<longleftrightarrow>
      jget_str e ''type'' = Some ''system'' \<and> jget_str e ''subtype'' = Some ''api_retry'' \<and> jget_str e ''error'' = Some ''rate_limit''"
    "list_ex ends_run (fst (map_event cfg now e st)) \<longleftrightarrow> jget_str e ''type'' = Some ''result''" for e
    using plain_events [OF blocks_plain, OF assistant_plain] plain_events [OF blocks_plain, OF user_plain]
    by (auto simp: map_event_def Let_def map_init_def map_api_retry_def map_terminal_def split: option.split)
  then show "list_ex limits_rate (fst (parse_line cfg now s st)) \<longleftrightarrow> rate_event (Line t s)"
    "list_ex ends_run (fst (parse_line cfg now s st)) \<longleftrightarrow> result_event (Line t s)"
    by (simp_all add: parse_line_def line_json_def Let_def split: option.split)
qed

lemma parsed_all_marks:
  "pr_rate_limited (foldl (\<lambda>p x. on_parsed x p) p xs) \<longleftrightarrow> pr_rate_limited p \<or> list_ex limits_rate xs"
  "pr_terminal (foldl (\<lambda>p x. on_parsed x p) p xs) \<noteq> None \<longleftrightarrow> pr_terminal p \<noteq> None \<or> list_ex ends_run xs"
proof (induction xs arbitrary: p)
  case (Cons x xs)
  {
    case 1
    then show ?case using Cons.IH(1) [of "on_parsed x p"] by (cases x) auto
  next
    case 2
    then show ?case using Cons.IH(2) [of "on_parsed x p"] by (cases x) auto
  }
qed simp_all

lemma line_step_marks:
  "pr_rate_limited (on_line c now s p) \<longleftrightarrow> pr_rate_limited p \<or> rate_event (Line now s)"
  "pr_terminal (on_line c now s p) \<noteq> None \<longleftrightarrow> pr_terminal p \<noteq> None \<or> result_event (Line now s)"
  using line_marks [of "default_options (pc_scrub c)" now s "pr_parser p" now]
  by (simp_all add: on_line_def parsed_all_marks split_beta del: not_None_eq)

lemma map_filter_snoc: "List.map_filter f (xs @ [x]) = List.map_filter f xs @ (case f x of None \<Rightarrow> [] | Some y \<Rightarrow> [y])"
  by (induction xs) (simp_all add: map_filter_simps split: option.split)

lemma first_abort_snoc: "first_abort (evs @ [e]) = (case first_abort evs of None \<Rightarrow> abort_event e | Some r \<Rightarrow> Some r)"
  by (cases "abort_event e"; cases "List.map_filter abort_event evs")
    (simp_all add: first_abort_def map_filter_snoc)

text \<open>The state of a running process is its history.\<close>

lemma running_state:
  assumes "list_all while_running evs"
  shows "pr_settled (run_process c evs) = None \<and> \<not> pr_close_started (run_process c evs) \<and>
    pr_abort (run_process c evs) = first_abort evs \<and>
    (pr_rate_limited (run_process c evs) \<longleftrightarrow> list_ex rate_event evs) \<and>
    (pr_terminal (run_process c evs) \<noteq> None \<longleftrightarrow> list_ex result_event evs)"
  using assms
proof (induction evs rule: rev_induct)
  case Nil
  show ?case by (simp add: run_process_def new_proc_def first_abort_def map_filter_simps)
next
  case (snoc e evs)
  have run: "run_process c (evs @ [e]) = proc_step c (run_process c evs) e" by (simp add: run_process_def)
  show ?case
    unfolding run first_abort_snoc using snoc
    by (cases e) (auto simp: on_line_keeps line_step_marks simp del: not_None_eq split: option.split)
qed

definition trace_outcome :: "proc_config \<Rightarrow> proc_event list \<Rightarrow> exit_status" where
  "trace_outcome c evs =
     (if first_abort evs = Some Ab_cancelled then Ex_cancelled
      else if list_ex rate_event evs then Ex_rate_limited
      else if first_abort evs = Some Ab_timeout then Ex_timeout
      else if list_ex result_event evs \<and> over_budget c (run_process c evs) = None then Ex_completed
      else Ex_crashed)"

text \<open>
  Outcome precedence: whatever the order in which output, an abort and the end of a kill arrived,
  the close of the process settles the run by its history - a cancel above all, then a rate limit the
  stream reported, then a timeout, then a result within the budget; everything else is a crash.
\<close>

theorem close_settles_by_precedence:
  assumes "list_all while_running evs"
  shows "\<exists>r. pr_settled (run_process c (evs @ [Close code])) = Some r \<and> er_exit r = trace_outcome c evs"
proof -
  let ?p = "run_process c evs"
  note state = running_state [OF assms, of c]
  have run: "run_process c (evs @ [Close code]) = handle_close c code (?p\<lparr>pr_armed := False\<rparr>)" by (simp add: run_process_def)
  have budget: "over_budget c (?p\<lparr>pr_armed := False, pr_close_started := True\<rparr>) = over_budget c ?p"
    by (simp add: over_budget_def cost_of_def)
  have final: "er_exit (terminal_outcome c q t) = (if over_budget c q = None then Ex_completed else Ex_crashed)" for q t
    by (simp add: terminal_outcome_def exit_result_def split: option.split prod.split)
  show ?thesis
  proof (cases "pr_terminal ?p")
    case None
    then show ?thesis unfolding run using state
      by (simp add: handle_close_def Let_def settle_def exit_result_def trace_outcome_def stderr_event_def persist_def)
  next
    case (Some t)
    then show ?thesis unfolding run using state
      by (simp add: handle_close_def Let_def settle_def exit_result_def trace_outcome_def stderr_event_def persist_def final budget)
  qed
qed

section \<open>What a completed run carries\<close>

definition result_ok :: "proc_config \<Rightarrow> executor_result \<Rightarrow> bool" where
  "result_ok c r \<longleftrightarrow>
     (er_exit r = Ex_completed \<longrightarrow> (case (pc_max_budget c, er_cost r) of (Some b, Some q) \<Rightarrow> q \<le> b | _ \<Rightarrow> True)) \<and>
     (case er_report r of None \<Rightarrow> True | Some j \<Rightarrow> \<not> pc_use_callback_channel c \<and> (\<exists>x rep. report_schema x = Some rep \<and> j = report_json rep))"

definition settled_ok :: "proc_config \<Rightarrow> proc \<Rightarrow> bool" where
  "settled_ok c p \<longleftrightarrow> (case pr_settled p of None \<Rightarrow> True | Some r \<Rightarrow> result_ok c r)"

lemma settle_ok: "settled_ok c p \<Longrightarrow> result_ok c r \<Longrightarrow> settled_ok c (settle r p)"
  by (simp add: settled_ok_def settle_def)

lemma terminal_ok: "result_ok c (terminal_outcome c p t)"
  by (auto simp: result_ok_def terminal_outcome_def exit_result_def over_budget_def split: option.splits if_splits bind_splits)

lemma close_ok: "settled_ok c p \<Longrightarrow> settled_ok c (handle_close c code p)"
proof -
  assume p: "settled_ok c p"
  then have q: "settled_ok c (p\<lparr>pr_close_started := True\<rparr>)" "settled_ok c (stderr_event c (p\<lparr>pr_close_started := True\<rparr>))"
    by (simp_all add: settled_ok_def)
  show ?thesis
    unfolding handle_close_def Let_def
    by (simp add: p q settle_ok terminal_ok split: option.split)
      (auto intro!: settle_ok q simp: result_ok_def exit_result_def split: option.split)
qed

lemma step_ok: "settled_ok c p \<Longrightarrow> settled_ok c (proc_step c p e)"
proof (cases e)
  case (Spawn_error m)
  assume "settled_ok c p"
  then show ?thesis using Spawn_error by (simp add: settle_ok result_ok_def)
next
  case Fallback
  assume p: "settled_ok c p"
  then have "settled_ok c (persist ''log'' (fallback_event c) (p\<lparr>pr_armed := False\<rparr>))" by (simp add: settled_ok_def)
  then show ?thesis using close_ok Fallback p by (simp add: settled_ok_def)
next
  case (Close code)
  assume "settled_ok c p"
  then have "settled_ok c (p\<lparr>pr_armed := False\<rparr>)" by (simp add: settled_ok_def)
  then show ?thesis using close_ok Close by simp
qed (auto simp: settled_ok_def on_line_keeps)

lemma run_settled_ok: "settled_ok c (run_process c evs)"
proof -
  have "settled_ok c p \<Longrightarrow> settled_ok c (foldl (proc_step c) p evs)" for p
    by (induction evs arbitrary: p) (simp_all add: step_ok)
  then show ?thesis by (simp add: run_process_def settled_ok_def new_proc_def)
qed

text \<open>
  A completed run is within its budget and its report is one the schema accepts: over every
  history, a result that says \<open>completed\<close> never costs more than the ceiling, and a result carries a
  report only without the callback channel, and only a report the schema produced.
\<close>

theorem completed_within_budget:
  assumes "pr_settled (run_process c evs) = Some r"
  shows "(er_exit r = Ex_completed \<longrightarrow> (\<forall>b q. pc_max_budget c = Some b \<and> er_cost r = Some q \<longrightarrow> q \<le> b)) \<and>
    (\<forall>j. er_report r = Some j \<longrightarrow> \<not> pc_use_callback_channel c \<and> (\<exists>x rep. report_schema x = Some rep \<and> j = report_json rep))"
  using run_settled_ok [of c evs] assms by (auto simp: settled_ok_def result_ok_def)

section \<open>The theorems on a concrete process\<close>

definition sample_config :: proc_config where
  "sample_config = \<lparr>pc_type = ''claude_cli'', pc_model = ''opus'', pc_use_callback_channel = True, pc_max_budget = Some 5,
     pc_settle_grace = 10000, pc_scrub = (\<lambda>s. s), pc_schema_message = (\<lambda>j. ''invalid'')\<rparr>"

definition rate_line :: string where
  "rate_line = json_stringify (JObj [(''type'', JStr ''system''), (''subtype'', JStr ''api_retry''), (''error'', JStr ''rate_limit'')])"

definition result_line :: string where
  "result_line = json_stringify (JObj [(''type'', JStr ''result''), (''total_cost_usd'', JNum 2)])"

lemma rate_line_read: "rate_event (Line t rate_line)"
  by code_simp

lemma result_line_read: "result_event (Line t result_line) \<and> \<not> rate_event (Line t result_line)"
  by code_simp

theorem killed_process_settles_once_witness:
  "\<exists>r. pr_settled (run_process sample_config ([Stderr ''x'', Abort Ab_timeout] @ [Terminated, Fallback] @ [Close (Some 0), Abort Ab_cancelled])) = Some r"
proof -
  have "pr_killed (run_process sample_config [Stderr ''x'', Abort Ab_timeout])" by (simp add: run_process_def new_proc_def)
  then show ?thesis using killed_process_settles_once by blast
qed

theorem close_settles_by_precedence_witness:
  "\<exists>r. pr_settled (run_process sample_config ([Line 1 rate_line, Terminated, Abort Ab_timeout] @ [Close None])) = Some r \<and>
     er_exit r = Ex_rate_limited"
proof -
  have "trace_outcome sample_config [Line 1 rate_line, Terminated, Abort Ab_timeout] = Ex_rate_limited"
    using rate_line_read by (simp add: trace_outcome_def first_abort_def map_filter_simps)
  then show ?thesis
    using close_settles_by_precedence [of "[Line 1 rate_line, Terminated, Abort Ab_timeout]" sample_config None] by simp
qed

theorem completed_within_budget_witness:
  "\<exists>r q. pr_settled (run_process sample_config [Line 1 result_line, Close (Some 0)]) = Some r \<and> er_exit r = Ex_completed \<and>
     er_cost r = Some q \<and> q \<le> 5"
proof -
  have "map_option (\<lambda>r. (er_exit r, er_cost r)) (pr_settled (run_process sample_config [Line 1 result_line, Close (Some 0)])) =
      Some (Ex_completed, Some 2)" by code_simp
  then obtain r where r: "pr_settled (run_process sample_config [Line 1 result_line, Close (Some 0)]) = Some r"
      "er_exit r = Ex_completed" "er_cost r = Some 2" by auto
  moreover have "pc_max_budget sample_config = Some 5" by (simp add: sample_config_def)
  ultimately show ?thesis using completed_within_budget [OF r(1)] by auto
qed

end
