(* ===== verification/ExecutorRun.thy ===== *)
theory ExecutorRun
  imports Worktree FeatureContext CliProcess
begin

text \<open>
  One run of the agent executor from end to end (\<open>ClaudeCliExecutor.run\<close>): the configuration is read
  (\<open>loadRunConfig\<close>), the workspace prepared - caches, inherited branches, worktrees, start-ref events -
  every repository bootstrapped and checked for dirt (\<open>bootstrapWorkspace\<close>), the MCP configuration and the
  system prompt written, the agent process driven to its result, and the workspace torn down
  (\<open>cleanupWorkspace\<close>). Time passes before every look at the abort signal, so an abort can come between
  any two steps.
\<close>

section \<open>The site of a run\<close>

text \<open>A row of the executors table as the runtime reads it; \<open>ep_secrets\<close> is the sealed blob.\<close>

record executor_profile =
  ep_name :: string
  ep_config :: cli_config_input
  ep_secrets :: "string option"
  ep_enabled :: bool

text \<open>
  The database, the disk, \<open>runs.worktree_path\<close>, the profiles of the executors table, the events the
  process persisted, and an auxiliary trace of what was done to the workspace.
\<close>

datatype mark = Bootstrapped string | Guarded string | Spawned | Torn_down string bool

record 'f site =
  si_world :: world
  si_disk :: "'f disk"
  si_path :: "string option"
  si_profiles :: "executor_profile list"
  si_stream :: "(string \<times> json) list"
  si_trace :: "mark list"

datatype run_error =
    Disk_error wt_error
  | Db_error error
  | Load_failed scope_failure

fun run_message :: "run_error \<Rightarrow> string" where
  "run_message (Disk_error e) = wt_message e"
| "run_message (Db_error e) = en_message e"
| "run_message (Load_failed (Scope_error m)) = m"
| "run_message (Load_failed (Scope_question why key components agent_repos workspace_repos)) =
     ''repository scope undeterminable for '' @ key @ '' ('' @ case_name why @ '') - parking to the human queue''"

type_synonym ('f, 'a) stage = "('f site, run_error, 'a) act"

definition fail :: "string \<Rightarrow> ('f, 'a) stage" where
  "fail m = throw (Load_failed (Scope_error m))"

definition db :: "'a handler \<Rightarrow> ('f, 'a) stage" where
  "db m = (\<lambda>s. case m (si_world s) of
     (r, w) \<Rightarrow> (case r of Inl e \<Rightarrow> Inl (Db_error e) | Inr x \<Rightarrow> Inr x, s\<lparr>si_world := w\<rparr>))"

definition disk :: "('f, 'a) fs \<Rightarrow> ('f, 'a) stage" where
  "disk m = (\<lambda>s. case m (si_disk s) of
     (r, d) \<Rightarrow> (case r of Inl e \<Rightarrow> Inl (Disk_error e) | Inr x \<Rightarrow> Inr x, s\<lparr>si_disk := d\<rparr>))"

definition mark :: "mark \<Rightarrow> ('f, unit) stage" where
  "mark k = modify (\<lambda>s. s\<lparr>si_trace := si_trace s @ [k]\<rparr>)"

definition tried :: "('f, 'a) stage \<Rightarrow> ('f, run_error + 'a) stage" where
  "tried m = catch (bnd m (\<lambda>x. ret (Inr x))) (\<lambda>e. ret (Inl e))"

definition logged :: "('f, unit) stage \<Rightarrow> ('f, unit) stage" where
  "logged m = catch m (\<lambda>e. ret ())"

text \<open>
  The machine: git and the file system, the passing of time, the bootstrap command's process, temporary
  directories, file writes, the agent's process, which yields the events of its life, and what the rest of
  the system - the agent's own callbacks included - does to the database while that process lives. The host's
  \<open>ho_aborted\<close> is the reason of the run's abort signal once it has fired.
\<close>

record bootstrap_input =
  bo_dir :: string
  bo_command :: string
  bo_env :: env_map
  bo_timeout :: int

record bootstrap_result =
  bo_exit :: "int option"
  bo_duration :: int
  bo_stdout :: string
  bo_stderr :: string
  bo_timed_out :: bool

record spawn_input =
  sw_cli :: string
  sw_args :: "string list"
  sw_cwd :: string
  sw_env :: env_map
  sw_stdin :: string

record 'f machine =
  mn_host :: "'f host"
  mn_tick :: "'f \<Rightarrow> 'f"
  mn_bootstrap :: "bootstrap_input \<Rightarrow> 'f \<Rightarrow> (string + bootstrap_result) \<times> 'f"
  mn_mkdtemp :: "string \<Rightarrow> 'f \<Rightarrow> (string + string) \<times> 'f"
  mn_write :: "string \<Rightarrow> string \<Rightarrow> 'f \<Rightarrow> (string + unit) \<times> 'f"
  mn_chmod :: "string \<Rightarrow> int \<Rightarrow> 'f \<Rightarrow> (string + unit) \<times> 'f"
  mn_process :: "spawn_input \<Rightarrow> 'f \<Rightarrow> proc_event list \<times> 'f"
  mn_meanwhile :: "'f \<Rightarrow> world \<Rightarrow> world"

definition system_call :: "('f \<Rightarrow> (string + 'a) \<times> 'f) \<Rightarrow> ('f, 'a) stage" where
  "system_call f = disk (\<lambda>d. case f (dk_fs d) of
     (r, g) \<Rightarrow> (case r of Inl e \<Rightarrow> Inl (Other_error e) | Inr x \<Rightarrow> Inr x, d\<lparr>dk_fs := g\<rparr>))"

text \<open>Looking at \<open>signal.aborted\<close>, some time later.\<close>

definition signal :: "'f machine \<Rightarrow> ('f, string option) stage" where
  "signal M = disk (\<lambda>d. let f = mn_tick M (dk_fs d) in (Inr (ho_aborted (mn_host M) f), d\<lparr>dk_fs := f\<rparr>))"

definition signal_throw :: "'f machine \<Rightarrow> ('f, unit) stage" where
  "signal_throw M = bnd (signal M) (\<lambda>r. case r of Some m \<Rightarrow> throw (Disk_error (Other_error m)) | None \<Rightarrow> ret ())"

text \<open>The worker process and its surroundings, fixed for the run.\<close>

record platform =
  pf_env :: "string \<Rightarrow> string option"
  pf_home :: string
  pf_tmp :: string
  pf_mcp_entry :: string
  pf_mcp_root :: string
  pf_preset :: provider_preset
  pf_uid :: "id \<Rightarrow> string"
  pf_run_named :: "string \<Rightarrow> id option"
  pf_open_key :: "string \<Rightarrow> string + string option"
  pf_open_env :: "string \<Rightarrow> (bool \<times> string) + env_secrets"
  pf_jira :: env
  pf_feature :: "string \<Rightarrow> error + feature_context"
  pf_newest :: "run list \<Rightarrow> run list"
  pf_by_locale :: "(string \<times> string) list \<Rightarrow> (string \<times> string) list"
  pf_schema_text :: string
  pf_schema_message :: "json option \<Rightarrow> string"
  pf_yaml :: "yaml_repo list"
  pf_yaml_loaded :: bool

text \<open>\<open>RunContext\<close>: the ticket by key, summary, description and components.\<close>

record run_context =
  rx_run :: id
  rx_ticket :: "(string \<times> string \<times> string \<times> string list option) option"
  rx_instruction :: string
  rx_callback_url :: string
  rx_token :: string
  rx_max_budget :: "rat option"
  rx_max_turns :: "int option"

section \<open>The configuration\<close>

record run_behavior =
  bh_json :: json
  bh_allowed_tools :: "string list option"
  bh_workspace_mode :: "string option"
  bh_env :: "env_map option"

text \<open>The joined row of the run, its agent and its executor, and the columns of its workspace.\<close>

record run_row =
  rr_executor :: executor_profile
  rr_behavior :: run_behavior
  rr_agent :: string
  rr_workspace :: id
  rr_ticket :: "id option"
  rr_trigger :: json

record workspace_row =
  wk_repositories :: "db_repo list"
  wk_mounts :: "(string \<times> mounted_repo) list"
  wk_scoping :: bool
  wk_env :: "env_map option"
  wk_secrets :: "string option"

record setup_template =
  tm_executor :: string
  tm_behavior :: run_behavior

record run_tables =
  tb_row :: "run_row option"
  tb_workspace :: workspace_row
  tb_template :: setup_template

record run_config =
  lc_runtime :: cli_runtime_config
  lc_repos :: "worktree_repo list"
  lc_excluded :: "worktree_repo list"
  lc_workspace :: id
  lc_ticket :: "id option"
  lc_prefer :: "id option"
  lc_auth :: effective_auth
  lc_key :: "string option"
  lc_no_repo :: bool
  lc_setup :: bool
  lc_user_env :: env_map
  lc_secret_values :: "string list"

definition SETUP_EXECUTOR_NAME :: string where
  "SETUP_EXECUTOR_NAME = ''brigadir-setup''"

text \<open>\<open>setupExecutorValues\<close>; the poll interval is not stored and not read by a run.\<close>

definition setup_executor_values :: executor_profile where
  "setup_executor_values = \<lparr>ep_name = SETUP_EXECUTOR_NAME,
     ep_config = \<lparr>ci_model = ''claude-sonnet-5'', ci_cli_path = ''claude'', ci_allowed_tools = None, ci_keep_failed = False,
       ci_worktree_root = None, ci_repo_cache_root = None, ci_max_turns = Some 60, ci_kill_grace = None, ci_cancel_poll = 0,
       ci_settle_grace = None, ci_bootstrap_timeout = None, ci_pm_cache_root = None, ci_callback = True, ci_auth = None,
       ci_aws_region = None, ci_aws_profile = None, ci_ca_bundle = None\<rparr>,
     ep_secrets = None, ep_enabled = True\<rparr>"

definition profile_named :: "string \<Rightarrow> 'f site \<Rightarrow> executor_profile option" where
  "profile_named n s = find (\<lambda>p. ep_name p = n) (si_profiles s)"

text \<open>\<open>ensureSetupExecutor\<close>: inserted unless a profile of that name exists; the row is returned.\<close>

definition ensure_setup_executor :: "('f, executor_profile) stage" where
  "ensure_setup_executor = bnd (gets (profile_named SETUP_EXECUTOR_NAME)) (\<lambda>p. case p of
     Some e \<Rightarrow> ret e
   | None \<Rightarrow> andthen (modify (\<lambda>s. s\<lparr>si_profiles := si_profiles s @ [setup_executor_values]\<rparr>)) (ret setup_executor_values))"

definition resolve_setup_profile :: "id \<Rightarrow> string \<Rightarrow> ('f, executor_profile) stage" where
  "resolve_setup_profile i name = bnd (gets (profile_named name)) (\<lambda>profile.
     case profile of
       Some p \<Rightarrow> if ep_enabled p then ret p
         else bnd ensure_setup_executor (\<lambda>fallback.
           andthen (db (insert_event i Ev_log (JObj [(''message'', JStr (''setup executor profile '' @ quoted name @
               '' is disabled - falling back to '' @ quoted SETUP_EXECUTOR_NAME)), (''source'', JStr ''setup-profile-fallback'')])))
             (ret fallback))
     | None \<Rightarrow> bnd ensure_setup_executor (\<lambda>fallback.
         andthen (if name = SETUP_EXECUTOR_NAME then ret ()
             else db (insert_event i Ev_log (JObj [(''message'', JStr (''setup executor profile '' @ quoted name @
               '' does not exist - falling back to '' @ quoted SETUP_EXECUTOR_NAME)), (''source'', JStr ''setup-profile-fallback'')])))
           (ret fallback)))"

text \<open>\<open>resolveRunUserEnv\<close>.\<close>

definition resolve_run_user_env :: "platform \<Rightarrow> workspace_row \<Rightarrow> id \<Rightarrow> string \<Rightarrow> env_map option \<Rightarrow> string list \<Rightarrow>
    ('f, env_map \<times> string list) stage" where
  "resolve_run_user_env P wk ws agent agent_env names =
     bnd (case wk_secrets wk of None \<Rightarrow> ret \<lparr>es_workspace = None, es_repos = None, es_agents = None\<rparr>
       | Some blob \<Rightarrow> (case pf_open_env P blob of
           Inr s \<Rightarrow> ret s
         | Inl (True, m) \<Rightarrow> fail (''workspace '' @ pf_uid P ws @ '' env-secrets blob failed to decrypt - fix BRIGADIR_CREDENTIALS_KEY '' @
             ''or re-enter the secret env values (feature 031)'')
         | Inl (False, m) \<Rightarrow> fail m))
       (\<lambda>secrets. ret (assemble_run_user_env \<lparr>ai_workspace_env = wk_env wk, ai_agent_env = agent_env,
          ai_mounted = map (\<lambda>n. case map_of (wk_mounts wk) n of Some r \<Rightarrow> r | None \<Rightarrow> \<lparr>mr_id = None, mr_env = None\<rparr>) names,
          ai_agent_id = agent, ai_secrets = secrets\<rparr>))"

text \<open>
  The repositories to mount and those left out; \<^const>\<open>None\<close> when a setup run has no repository and goes
  on without one.
\<close>

definition mounted_repositories :: "platform \<Rightarrow> workspace_row \<Rightarrow> run_context \<Rightarrow> bool \<Rightarrow> json \<Rightarrow>
    ('f, (worktree_repo list \<times> worktree_repo list) option) stage" where
  "mounted_repositories P wk x setup behavior =
     (if setup then
        (case pick_workspace_repositories (wk_repositories wk) (pf_yaml P) (resolve_repository_names behavior) (pf_yaml_loaded P) of
           Inl m \<Rightarrow> ret None
         | Inr repos \<Rightarrow> ret (Some (take 1 repos, [])))
      else bnd (db (run_repositories (rx_run x) (map_option (\<lambda>(key, _, _, cs). (key, cs)) (rx_ticket x)) (wk_scoping wk)
          (wk_repositories wk) (pf_yaml P) (pf_yaml_loaded P) behavior)) (\<lambda>r.
        case r of Inl e \<Rightarrow> throw (Load_failed e) | Inr found \<Rightarrow> ret (Some found)))"

definition key_only :: "platform \<Rightarrow> bool" where
  "key_only P \<longleftrightarrow> pp_type (pf_preset P) \<in> set API_KEY_ONLY_EXECUTOR_TYPES"

definition resolve_auth :: "platform \<Rightarrow> executor_profile \<Rightarrow> ('f, effective_auth) stage" where
  "resolve_auth P e =
     (if key_only P then
        (let ty = pp_type (pf_preset P) in
         if ep_secrets e = None then fail (ty @ '' executor profile '' @ quoted (ep_name e) @ '' has no stored API key - re-enter the '' @
           the_default ty (map_of API_KEY_ONLY_PROVIDER_LABELS ty) @ '' key in the profile'')
         else ret Auth_api_key)
      else (case resolve_effective_auth (ep_config e) (ep_secrets e \<noteq> None) of Inl m \<Rightarrow> fail m | Inr a \<Rightarrow> ret a))"

definition open_api_key :: "platform \<Rightarrow> executor_profile \<Rightarrow> effective_auth \<Rightarrow> ('f, string option) stage" where
  "open_api_key P e auth = (case (auth, ep_secrets e) of
     (Auth_api_key, Some blob) \<Rightarrow> (case pf_open_key P blob of
        Inr k \<Rightarrow> ret k
      | Inl m \<Rightarrow> fail (''executor profile '' @ quoted (ep_name e) @ '' has secrets that failed to decrypt (rotate '' @
          ''BRIGADIR_CREDENTIALS_KEY back or re-enter the API key): '' @ m))
   | _ \<Rightarrow> ret None)"

definition default_tools :: "bool \<Rightarrow> cli_runtime_config \<Rightarrow> cli_runtime_config" where
  "default_tools no_repo rt = (if \<not> no_repo \<and> rc_allowed_tools rt = []
     then rt\<lparr>rc_allowed_tools := DEFAULT_REPO_RUN_ALLOWED_TOOLS\<rparr> else rt)"

definition trigger_text :: "json \<Rightarrow> string \<Rightarrow> string option" where
  "trigger_text t k = (case jget t k of Some (JStr s) \<Rightarrow> Some s | _ \<Rightarrow> None)"

definition load_run_config :: "platform \<Rightarrow> run_tables \<Rightarrow> run_context \<Rightarrow> ('f, run_config) stage" where
  "load_run_config P T x =
     (case tb_row T of
        None \<Rightarrow> fail (''run '' @ pf_uid P (rx_run x) @ '' not found while resolving '' @ pp_type (pf_preset P) @ '' config'')
      | Some row \<Rightarrow>
          let setup = (trigger_text (rr_trigger row) ''source'' = Some ''workspace-setup'') in
          bnd (if setup then bnd (resolve_setup_profile (rx_run x) (tm_executor (tb_template T))) (\<lambda>p. ret (p, tm_behavior (tb_template T)))
               else ret (rr_executor row, rr_behavior row)) (\<lambda>(profile, behavior).
          let triage = (bh_workspace_mode behavior = Some ''none'') in
          bnd (if triage then ret None else mounted_repositories P (tb_workspace T) x setup (bh_json behavior)) (\<lambda>found.
          let no_repo = (found = None);
              (repos, excluded) = the_default ([], []) found;
              runtime = default_tools no_repo (resolve_claude_cli_config (pf_home P) (ep_config profile)
                (the_default [] (bh_allowed_tools behavior)))
          in bnd (resolve_auth P profile) (\<lambda>auth.
             bnd (open_api_key P profile auth) (\<lambda>key.
             bnd (if no_repo then ret ([], [])
                  else resolve_run_user_env P (tb_workspace T) (rr_workspace row) (rr_agent row) (bh_env behavior) (map wr_name repos))
               (\<lambda>(user, secrets).
             ret \<lparr>lc_runtime = runtime, lc_repos = repos, lc_excluded = excluded, lc_workspace = rr_workspace row,
               lc_ticket = rr_ticket row, lc_prefer = Option.bind (trigger_text (rr_trigger row) ''failing_run_id'') (pf_run_named P),
               lc_auth = auth, lc_key = key, lc_no_repo = no_repo, lc_setup = setup, lc_user_env = user,
               lc_secret_values = secrets\<rparr>))))))"

section \<open>The results of a run that never reached its agent\<close>

definition plain_result :: "exit_status \<Rightarrow> string \<Rightarrow> executor_result" where
  "plain_result s m = \<lparr>er_exit = s, er_report = None, er_external_ref = None, er_cost = None, er_usage = None, er_diagnostics = Some m\<rparr>"

definition aborted_during_prepare :: "string \<Rightarrow> executor_result" where
  "aborted_during_prepare reason =
     plain_result (if reason = ''cancelled'' then Ex_cancelled else Ex_timeout) ''aborted during workspace preparation''"

definition run_failed :: "executor_result \<Rightarrow> bool" where
  "run_failed r \<longleftrightarrow> er_exit r \<noteq> Ex_completed \<or>
     (case er_report r of None \<Rightarrow> True | Some j \<Rightarrow> jget j ''outcome'' \<noteq> Some (JStr ''success''))"

section \<open>Preparing the workspace\<close>

record prepared =
  wp_dir :: string
  wp_repos :: "repo_worktree list option"
  wp_inherit :: "inheritance option"
  wp_gates :: "verified_gates option"

text \<open>The ticket of the run, when both its key and its row are known.\<close>

definition ticket_row :: "run_context \<Rightarrow> run_config \<Rightarrow> (string \<times> id) option" where
  "ticket_row x c = (case (rx_ticket x, lc_ticket c) of (Some (key, _), Some tk) \<Rightarrow> Some (key, tk) | _ \<Rightarrow> None)"

definition no_match :: branch_match where
  "no_match = \<lparr>bm_continue = (\<lambda>_. None), bm_unmatched = []\<rparr>"

text \<open>What the ticket's last stage left, matched to the repositories.\<close>

definition own_work :: "run_context \<Rightarrow> run_config \<Rightarrow> world \<Rightarrow> prior_work option \<times> branch_match" where
  "own_work x c w =
     (case ticket_row x c of None \<Rightarrow> (None, no_match)
      | Some (key, tk) \<Rightarrow> (case get_prior_work tk (rx_run x) (lc_prefer c) w of
          None \<Rightarrow> (None, no_match)
        | Some p \<Rightarrow> (Some p, match_reported_branches (pw_entries p) (lc_repos c))))"

text \<open>\<open>branchExistsOnOrigin\<close> against the caches as they are; it never fails.\<close>

definition origin_probe :: "'f host \<Rightarrow> (string \<Rightarrow> string option) \<Rightarrow> 'f disk \<Rightarrow> string \<Rightarrow> string \<Rightarrow> bool" where
  "origin_probe h caches d repo branch =
     (fst (branch_exists_on_origin h (the_default [] (caches repo)) branch d) = Inr True)"

type_synonym origins = "prior_work option \<times> branch_match \<times> (string \<Rightarrow> string option) \<times> inheritance"

definition resolve_origins :: "'f machine \<Rightarrow> platform \<Rightarrow> run_context \<Rightarrow> run_config \<Rightarrow> ('f, origins) stage" where
  "resolve_origins M P x c =
     bnd (gets (\<lambda>s. own_work x c (si_world s))) (\<lambda>(prior, matched).
     bnd (disk (ensure_caches (mn_host M) (lc_repos c) (rc_repo_cache_root (lc_runtime c)))) (\<lambda>caches.
     andthen (signal_throw M)
     (bnd (gets (\<lambda>s. origin_probe (mn_host M) caches (si_disk s))) (\<lambda>probe.
      bnd (db (resolve_inheritance (pf_jira P) probe (rx_run x) (ticket_row x c) (lc_workspace c) (lc_repos c) matched)) (\<lambda>inh.
      ret (prior, matched, caches, inh))))))"

definition starts_of :: "repo_worktree list \<Rightarrow> (worktree_repo \<times> repo_start) list" where
  "starts_of ps = map (\<lambda>p. (rp_repo p, rp_start p)) ps"

definition checkout :: "'f machine \<Rightarrow> platform \<Rightarrow> run_context \<Rightarrow> run_config \<Rightarrow> origins \<Rightarrow> ('f, prepared) stage" where
  "checkout M P x c = (\<lambda>(prior, matched, caches, inh).
     bnd (disk (prepare_all (mn_host M) (lc_repos c) (pf_uid P (rx_run x)) (rc_worktree_root (lc_runtime c))
            (rc_repo_cache_root (lc_runtime c))
            \<lparr>po_continue = in_continue inh, po_merge = in_merge inh, po_caches = caches\<rparr>)) (\<lambda>(dir, ps).
     bnd (case ticket_row x c of None \<Rightarrow> ret None
          | Some (key, tk) \<Rightarrow> db (andthen (record_start_ref_event (pf_uid P) (rx_run x) (starts_of ps) prior matched (Some inh))
              (if rc_callback (lc_runtime c) then resolve_verification_receipt (pf_uid P) (rx_run x) tk (starts_of ps) else ret None))) (\<lambda>gates.
     ret \<lparr>wp_dir = dir, wp_repos = Some ps, wp_inherit = Some inh, wp_gates = gates\<rparr>)))"

definition strip_origin :: "string \<Rightarrow> string" where
  "strip_origin s = (if take 7 s = ''origin/'' then drop 7 s else s)"

text \<open>The human task for blocker branches that conflict.\<close>

fun conflict_task :: "run_context \<Rightarrow> run_config \<Rightarrow> inheritance option \<Rightarrow> run_error \<Rightarrow> unit handler" where
  "conflict_task x c inh (Disk_error (Merge_conflict repo start merges detail)) =
     (case ticket_row x c of None \<Rightarrow> ret ()
      | Some (key, tk) \<Rightarrow> raise_blocker_task (lc_workspace c) tk (merge_conflict_title key repo)
          (merge_conflict_details key repo (strip_origin start) merges
            (case Option.bind inh (\<lambda>i. pl_repos (in_plan i) repo) of None \<Rightarrow> [] | Some p \<Rightarrow> map bb_key (sp_blockers p))))"
| "conflict_task x c inh e = ret ()"

definition prepare_failed :: "'f machine \<Rightarrow> run_context \<Rightarrow> run_config \<Rightarrow> inheritance option \<Rightarrow> run_error \<Rightarrow> ('f, executor_result) stage" where
  "prepare_failed M x c inh e = bnd (signal M) (\<lambda>reason. case reason of
     Some m \<Rightarrow> ret (aborted_during_prepare m)
   | None \<Rightarrow> andthen (db (conflict_task x c inh e)) (ret (plain_result Ex_crashed (run_message e))))"

definition TICKETLESS :: string where
  "TICKETLESS = ''ticketless run requires a no-repository agent (workspace_mode: none)''"

definition prepare_workspace :: "'f machine \<Rightarrow> platform \<Rightarrow> run_context \<Rightarrow> run_config \<Rightarrow> ('f, executor_result + prepared) stage" where
  "prepare_workspace M P x c =
     (if lc_no_repo c then
        bnd (tried (system_call (mn_mkdtemp M (RunEnv.path_join [pf_tmp P, ''brigadir-orch-''])))) (\<lambda>r. case r of
          Inl e \<Rightarrow> ret (Inl (plain_result Ex_crashed (run_message e)))
        | Inr dir \<Rightarrow> ret (Inr \<lparr>wp_dir = dir, wp_repos = None, wp_inherit = None, wp_gates = None\<rparr>))
      else if rx_ticket x = None \<and> \<not> lc_setup c then ret (Inl (plain_result Ex_crashed TICKETLESS))
      else bnd (tried (resolve_origins M P x c)) (\<lambda>r. case r of
          Inl e \<Rightarrow> bnd (prepare_failed M x c None e) (\<lambda>res. ret (Inl res))
        | Inr o' \<Rightarrow> bnd (tried (checkout M P x c o')) (\<lambda>r. case r of
              Inl e \<Rightarrow> bnd (prepare_failed M x c (Some (snd (snd (snd o')))) e) (\<lambda>res. ret (Inl res))
            | Inr p \<Rightarrow> andthen (modify (\<lambda>s. s\<lparr>si_path := Some (wp_dir p)\<rparr>)) (ret (Inr p)))))"

section \<open>Bootstrap and dirty guard\<close>

definition bootstrap_event :: "id \<Rightarrow> (string \<times> json) list \<Rightarrow> ('f, unit) stage" where
  "bootstrap_event i entries = logged (db (insert_event i Ev_log (JObj ((''source'', JStr ''bootstrap'') # entries))))"

definition bootstrap_env :: "platform \<Rightarrow> run_config \<Rightarrow> env_map" where
  "bootstrap_env P c = fst (apply_user_env
     (AList.update ''npm_config_cache'' (RunEnv.path_join [rc_pm_cache_root (lc_runtime c), ''npm'']) (build_child_env (pf_env P))) (lc_user_env c))"

definition run_bootstrap :: "'f machine \<Rightarrow> platform \<Rightarrow> run_context \<Rightarrow> run_config \<Rightarrow> repo_worktree \<Rightarrow> string \<Rightarrow> ('f, unit) stage" where
  "run_bootstrap M P x c p command =
     (let scrub = make_scrub (lc_secret_values c); name = wr_name (rp_repo p); limit = rc_bootstrap_timeout (lc_runtime c) in
      andthen (signal_throw M)
      (bnd (system_call (mn_bootstrap M \<lparr>bo_dir = rp_dir p, bo_command = command, bo_env = bootstrap_env P c, bo_timeout = limit\<rparr>)) (\<lambda>res.
       andthen (bootstrap_event (rx_run x)
         ([(''repo'', JStr name), (''command'', JStr (scrub command)), (''exit_code'', jopt (\<lambda>k. JNum (of_int k)) (bo_exit res)),
           (''duration_ms'', JNum (of_int (bo_duration res)))] @
          (if bo_timed_out res then [(''kind'', JStr ''timeout'')] else []) @
          (if bo_stdout res = [] then [] else [(''stdout_tail'', JStr (scrub (bo_stdout res)))]) @
          (if bo_stderr res = [] then [] else [(''stderr_tail'', JStr (scrub (bo_stderr res)))])))
       (andthen (signal_throw M)
       (if bo_timed_out res then fail (''bootstrap of '' @ quoted name @ '' exceeded '' @ show_int limit @ ''ms and was killed: '' @ scrub command)
        else if bo_exit res \<noteq> Some 0 then fail (''bootstrap of '' @ quoted name @ '' failed with exit code '' @
          (case bo_exit res of None \<Rightarrow> ''null'' | Some k \<Rightarrow> show_int k) @ '': '' @ scrub command @
          (if bo_stderr res = [] then [] else '' - stderr tail: '' @ scrub (bo_stderr res)))
        else mark (Bootstrapped name))))))"

definition dirty_event :: "string \<Rightarrow> bool \<Rightarrow> dirty_guard_result \<Rightarrow> (string \<times> json) list" where
  "dirty_event name booted g =
     [(''kind'', JStr ''dirty-after-prepare''), (''repo'', JStr name),
      (''message'', JStr (if dg_reverted g \<noteq> [] then ''worktree was dirty after prepare'' @ (if booted then ''/bootstrap'' else []) @
           '' - reverted '' @ show_nat (length (dg_reverted g)) @ '' tracked file(s); the repository itself dirties them '' @
           ''(fix the source repo to stop paying this on every run)''
         else ''worktree has untracked files after prepare (left in place)'')),
      (''reverted_files'', strings_json (dg_reverted g)), (''untracked'', strings_json (dt_untracked (dg_found g)))] @
     (if dt_modified (dg_residual g) \<noteq> [] then [(''residual_modified'', strings_json (dt_modified (dg_residual g)))] else [])"

definition command_of :: "repo_worktree \<Rightarrow> string option" where
  "command_of p = (case wr_bootstrap (rp_repo p) of Some (ch # cs) \<Rightarrow> Some (ch # cs) | _ \<Rightarrow> None)"

definition guard_repo :: "'f machine \<Rightarrow> platform \<Rightarrow> run_context \<Rightarrow> run_config \<Rightarrow> repo_worktree \<Rightarrow> ('f, unit) stage" where
  "guard_repo M P x c p =
     andthen (case command_of p of Some command \<Rightarrow> run_bootstrap M P x c p command | None \<Rightarrow> ret ())
     (bnd (disk (dirty_guard (mn_host M) (rp_dir p))) (\<lambda>g.
      andthen (if dt_modified (dg_found g) \<noteq> [] \<or> dt_untracked (dg_found g) \<noteq> []
          then bootstrap_event (rx_run x) (dirty_event (wr_name (rp_repo p)) (command_of p \<noteq> None) g) else ret ())
        (mark (Guarded (wr_name (rp_repo p))))))"

definition bootstrap_workspace :: "'f machine \<Rightarrow> platform \<Rightarrow> run_context \<Rightarrow> run_config \<Rightarrow> repo_worktree list \<Rightarrow> ('f, unit) stage" where
  "bootstrap_workspace M P x c ps = for_each ps (guard_repo M P x c)"

section \<open>MCP configuration and prompt\<close>

definition mcp_input_of :: "platform \<Rightarrow> run_context \<Rightarrow> repo_worktree list \<Rightarrow> mcp_input" where
  "mcp_input_of P x ps = \<lparr>mi_run_id = pf_uid P (rx_run x), mi_callback_url = rx_callback_url x, mi_run_token = rx_token x,
     mi_entry = pf_mcp_entry P, mi_repo_dirs = map (\<lambda>p. (wr_name (rp_repo p), rp_dir p)) ps\<rparr>"

definition install_mcp :: "'f machine \<Rightarrow> platform \<Rightarrow> run_context \<Rightarrow> repo_worktree list \<Rightarrow> ('f, mcp_config) stage" where
  "install_mcp M P x ps = (let m = write_mcp_config (mcp_input_of P x ps) (pf_mcp_root P) in
     andthen (disk (mkdir (mn_host M) (pf_mcp_root P)))
     (andthen (system_call (mn_write M (mc_config_path m) (mc_content m)))
     (andthen (system_call (mn_chmod M (mc_config_path m) 384)) (ret m))))"

definition remove_mcp :: "'f machine \<Rightarrow> mcp_config option \<Rightarrow> ('f, unit) stage" where
  "remove_mcp M mcp = (case mcp of None \<Rightarrow> ret ()
     | Some m \<Rightarrow> andthen (disk (rm (mn_host M) (mc_config_path m))) (disk (rm (mn_host M) (mc_marker_path m))))"

definition wrapper_repo_of :: "inheritance option \<Rightarrow> repo_worktree \<Rightarrow> wrapper_repo" where
  "wrapper_repo_of inh p =
     (let blockers = plan_blockers_of inh (wr_name (rp_repo p)); merged = the_default [] (rt_merged (rp_start p)) in
      \<lparr>wi_name = wr_name (rp_repo p), wi_abs_path = rp_dir p, wi_default_branch = wr_default_branch (rp_repo p),
       wi_continue = rt_continue (rp_start p),
       wi_provenance = Some (if blockers \<noteq> [] \<and> merged \<noteq> [] then Pv_merged_blockers
         else if blockers \<noteq> [] then Pv_inherited_blocker
         else if truthy (rt_continue (rp_start p)) \<noteq> None then Pv_continue_own else Pv_default),
       wi_blocker = (if blockers \<noteq> [] then Some (bb_key (hd blockers)) else None),
       wi_merged_from = (if merged \<noteq> [] then map (\<lambda>b. (bb_key b, bb_branch b)) blockers else []),
       wi_bootstrap = command_of p\<rparr>)"

definition prompt_of :: "platform \<Rightarrow> run_context \<Rightarrow> run_config \<Rightarrow> prepared \<Rightarrow> string option \<Rightarrow> string" where
  "prompt_of P x c p context =
     build_wrapper_text (pf_by_locale P) (pf_uid P) (map_option (\<lambda>(key, sum, descr, _). (key, sum, descr)) (rx_ticket x))
       (rx_instruction x) (wp_dir p)
       \<lparr>wo_callback = rc_callback (lc_runtime c), wo_feature_context = context,
        wo_repos = map (wrapper_repo_of (wp_inherit p)) (the_default [] (wp_repos p)),
        wo_on_demand = map (\<lambda>r. (wr_name r, wr_url r)) (lc_excluded c),
        wo_linked = (case wp_inherit p of None \<Rightarrow> [] | Some i \<Rightarrow> in_linked i), wo_verified = wp_gates p\<rparr>"

definition write_prompt :: "'f machine \<Rightarrow> platform \<Rightarrow> run_context \<Rightarrow> run_config \<Rightarrow> prepared \<Rightarrow> ('f, unit) stage" where
  "write_prompt M P x c p =
     bnd (gets (\<lambda>s. case rx_ticket x of Some (key, _) \<Rightarrow>
           if rc_callback (lc_runtime c)
             then build_feature_context_section (pf_newest P) (si_world s) (lc_workspace c) (pf_feature P key) else None | None \<Rightarrow> None)) (\<lambda>context.
     andthen (disk (mkdir (mn_host M) (RunEnv.path_join [wp_dir p, ''.brigadir''])))
       (system_call (mn_write M (RunEnv.path_join [wp_dir p, ''.brigadir'', ''wrapper.txt'']) (prompt_of P x c p context))))"

section \<open>The agent and the teardown\<close>

definition spawn_input_of :: "platform \<Rightarrow> run_context \<Rightarrow> run_config \<Rightarrow> string \<Rightarrow> mcp_config option \<Rightarrow> spawn_input" where
  "spawn_input_of P x c dir mcp = (let rt = lc_runtime c in
     \<lparr>sw_cli = rc_cli_path rt,
      sw_args = build_args (pf_schema_text P) \<lparr>ar_model = rc_model rt, ar_worktree_dir = dir, ar_allowed_tools = rc_allowed_tools rt,
        ar_max_turns = (case rx_max_turns x of None \<Rightarrow> rc_max_turns rt | Some n \<Rightarrow> Some n), ar_max_budget = rx_max_budget x,
        ar_callback = rc_callback rt, ar_mcp_config = map_option mc_config_path mcp, ar_settings = map_option mc_settings mcp\<rparr>,
      sw_cwd = dir, sw_env = child_env (pf_env P) (lc_user_env c) (lc_auth c) (lc_key c) (pf_preset P),
      sw_stdin = (case rx_ticket x of
          Some (key, _) \<Rightarrow> ''Work Jira ticket '' @ key @ '' exactly as described in your system prompt. Begin now.'' @ newline
        | None \<Rightarrow> ''Carry out the workspace task exactly as described in your system prompt. Begin now.'' @ newline)\<rparr>)"

definition proc_config_of :: "platform \<Rightarrow> run_context \<Rightarrow> run_config \<Rightarrow> proc_config" where
  "proc_config_of P x c = \<lparr>pc_type = pp_type (pf_preset P), pc_model = rc_model (lc_runtime c),
     pc_use_callback_channel = rc_callback (lc_runtime c), pc_max_budget = rx_max_budget x, pc_settle_grace = rc_settle_grace (lc_runtime c),
     pc_scrub = make_scrub (lc_secret_values c), pc_schema_message = pf_schema_message P\<rparr>"

text \<open>\<^const>\<open>None\<close>: the process has not settled by the end of its events, and the run still waits for it.\<close>

definition drive_process :: "'f machine \<Rightarrow> platform \<Rightarrow> run_context \<Rightarrow> run_config \<Rightarrow> string \<Rightarrow> mcp_config option \<Rightarrow>
    ('f, executor_result option) stage" where
  "drive_process M P x c dir mcp =
     andthen (mark Spawned)
     (bnd (system_call (\<lambda>f. case mn_process M (spawn_input_of P x c dir mcp) f of (evs, g) \<Rightarrow> (Inr evs, g))) (\<lambda>evs.
      let p = run_process (proc_config_of P x c) evs in
      andthen (modify (\<lambda>s. s\<lparr>si_world := mn_meanwhile M (dk_fs (si_disk s)) (si_world s), si_stream := si_stream s @ pr_events p\<rparr>))
        (ret (pr_settled p))))"

definition cleanup_workspace :: "'f machine \<Rightarrow> prepared \<Rightarrow> bool \<Rightarrow> ('f, unit) stage" where
  "cleanup_workspace M p keep =
     andthen (mark (Torn_down (wp_dir p) keep))
     (logged (disk (case wp_repos p of
        None \<Rightarrow> if keep then ret () else rm (mn_host M) (wp_dir p)
      | Some ps \<Rightarrow> cleanup_all (mn_host M) (wp_dir p) ps keep)))"

definition launch_failed :: "'f machine \<Rightarrow> run_config \<Rightarrow> prepared \<Rightarrow> mcp_config option \<Rightarrow> run_error \<Rightarrow> ('f, executor_result) stage" where
  "launch_failed M c p mcp e =
     andthen (remove_mcp M mcp)
     (andthen (cleanup_workspace M p (rc_keep_failed (lc_runtime c)))
     (bnd (signal M) (\<lambda>reason. ret (case reason of
        Some m \<Rightarrow> aborted_during_prepare m | None \<Rightarrow> plain_result Ex_crashed (run_message e)))))"

definition equip :: "'f machine \<Rightarrow> platform \<Rightarrow> run_context \<Rightarrow> run_config \<Rightarrow> prepared \<Rightarrow> ('f, mcp_config option) stage" where
  "equip M P x c p =
     andthen (case wp_repos p of None \<Rightarrow> ret () | Some ps \<Rightarrow> bootstrap_workspace M P x c ps)
     (if rc_callback (lc_runtime c) then bnd (install_mcp M P x (the_default [] (wp_repos p))) (\<lambda>m. ret (Some m)) else ret None)"

definition finish_run :: "'f machine \<Rightarrow> run_config \<Rightarrow> prepared \<Rightarrow> mcp_config option \<Rightarrow> executor_result \<Rightarrow> ('f, executor_result) stage" where
  "finish_run M c p mcp res =
     andthen (logged (remove_mcp M mcp))
     (andthen (cleanup_workspace M p (rc_keep_failed (lc_runtime c) \<and> run_failed res)) (ret res))"

definition launch :: "'f machine \<Rightarrow> platform \<Rightarrow> run_context \<Rightarrow> run_config \<Rightarrow> prepared \<Rightarrow> ('f, executor_result option) stage" where
  "launch M P x c p =
     bnd (tried (equip M P x c p)) (\<lambda>r. case r of
       Inl e \<Rightarrow> bnd (launch_failed M c p None e) (\<lambda>res. ret (Some res))
     | Inr mcp \<Rightarrow> bnd (tried (write_prompt M P x c p)) (\<lambda>r. case r of
         Inl e \<Rightarrow> bnd (launch_failed M c p mcp e) (\<lambda>res. ret (Some res))
       | Inr u \<Rightarrow> bnd (signal M) (\<lambda>reason. case reason of
           Some m \<Rightarrow> andthen (logged (remove_mcp M mcp))
             (andthen (cleanup_workspace M p (rc_keep_failed (lc_runtime c))) (ret (Some (aborted_during_prepare m))))
         | None \<Rightarrow> bnd (drive_process M P x c (wp_dir p) mcp) (\<lambda>settled. case settled of
             None \<Rightarrow> ret None
           | Some res \<Rightarrow> bnd (finish_run M c p mcp res) (\<lambda>res. ret (Some res))))))"

definition execute_run :: "'f machine \<Rightarrow> platform \<Rightarrow> run_tables \<Rightarrow> run_context \<Rightarrow> ('f, executor_result option) stage" where
  "execute_run M P T x =
     bnd (load_run_config P T x) (\<lambda>c.
     bnd (signal M) (\<lambda>reason. case reason of
       Some m \<Rightarrow> ret (Some (aborted_during_prepare m))
     | None \<Rightarrow> bnd (prepare_workspace M P x c) (\<lambda>r. case r of
         Inl res \<Rightarrow> ret (Some res)
       | Inr p \<Rightarrow> launch M P x c p)))"

section \<open>Inverting a successful step\<close>

lemma bnd_InrE:
  assumes "bnd m k s = (Inr y, s')"
  obtains x s1 where "m s = (Inr x, s1)" and "k x s1 = (Inr y, s')"
  using assms by (auto simp: bnd_app split: prod.splits sum.splits)

lemma andthen_InrE:
  assumes "andthen m k s = (Inr y, s')"
  obtains x s1 where "m s = (Inr x, s1)" and "k s1 = (Inr y, s')"
  using assms by (auto simp: andthen_app split: prod.splits sum.splits)

lemma tried_app: "tried m s = (case m s of (r, s') \<Rightarrow> (Inr r, s'))"
  by (auto simp: tried_def act_simps split: prod.splits sum.splits)

lemma logged_app: "logged m s = (Inr (), snd (m s))"
  by (cases "m s") (auto simp: logged_def act_simps split: sum.splits)

lemma signal_app: "\<exists>s'. signal M s = (Inr (ho_aborted (mn_host M) (dk_fs (si_disk s'))), s') \<and> si_trace s' = si_trace s"
  by (simp add: signal_def disk_def Let_def)

section \<open>What the trace shows\<close>

definition same_trace :: "'f site \<Rightarrow> 'f site \<Rightarrow> bool" where
  "same_trace s s' \<longleftrightarrow> si_trace s' = si_trace s"

interpretation tr: state_relation same_trace
  by unfold_locales (auto simp: same_trace_def)

lemma quiet_lifts [steps_intros]: "steps same_trace (db m)" "steps same_trace (disk d)"
  by (auto simp: steps_def same_trace_def db_def disk_def split: prod.splits)

lemma quiet_tried [steps_intros]: "steps same_trace m \<Longrightarrow> steps same_trace (tried m)"
  "steps same_trace n \<Longrightarrow> steps same_trace (logged n)"
  unfolding tried_def logged_def by (intro steps_intros; assumption)+

lemma quiet_modify [steps_intros]: "(\<And>s. si_trace (f s) = si_trace s) \<Longrightarrow> steps same_trace (modify f)"
  by (rule tr.steps_modify) (simp add: same_trace_def)

lemma quiet_steps [steps_intros]:
  "steps same_trace (signal M)" "steps same_trace (signal_throw M)" "steps same_trace (fail m)" "steps same_trace (system_call f)"
  unfolding signal_throw_def signal_def fail_def system_call_def by (intro steps_intros)+

lemma steps_case_auth [steps_intros]:
  "steps R a \<Longrightarrow> steps R b \<Longrightarrow> (\<And>r p c. steps R (f r p c)) \<Longrightarrow>
    steps R (case x of Auth_host_subscription \<Rightarrow> a | Auth_api_key \<Rightarrow> b | Auth_bedrock r p c \<Rightarrow> f r p c)"
  by (cases x) auto

lemma steps_case_bool [steps_intros]: "steps R a \<Longrightarrow> steps R b \<Longrightarrow> steps R (case x of True \<Rightarrow> a | False \<Rightarrow> b)"
  by (cases x) auto

lemma quiet_load: "steps same_trace (load_run_config P T x)"
  unfolding load_run_config_def resolve_setup_profile_def ensure_setup_executor_def resolve_run_user_env_def mounted_repositories_def
    resolve_auth_def open_api_key_def Let_def
  by (intro steps_intros; simp)

lemma quiet_prepare: "steps same_trace (prepare_workspace M P x c)"
  unfolding prepare_workspace_def prepare_failed_def resolve_origins_def checkout_def
  by (intro steps_intros; simp)

lemma quiet_equipment:
  "steps same_trace (install_mcp M P x ps)" "steps same_trace (remove_mcp M mcp)" "steps same_trace (write_prompt M P x c p)"
  "steps same_trace (bootstrap_event i entries)"
  unfolding install_mcp_def remove_mcp_def write_prompt_def bootstrap_event_def Let_def by (intro steps_intros)+

lemma quietD: "steps same_trace m \<Longrightarrow> m s = (r, s') \<Longrightarrow> si_trace s' = si_trace s"
  by (drule steps_run) (auto simp: same_trace_def)


section \<open>Marks in order\<close>

text \<open>
  The marks an action leaves are a beginning of \<open>ks\<close>, and all of \<open>ks\<close> when it succeeds.
\<close>

definition emits :: "mark list \<Rightarrow> ('f, 'a) stage \<Rightarrow> bool" where
  "emits ks m \<longleftrightarrow> (\<forall>s r s'. m s = (r, s') \<longrightarrow>
     (\<exists>pre rest. ks = pre @ rest \<and> si_trace s' = si_trace s @ pre \<and> ((\<exists>x. r = Inr x) \<longrightarrow> rest = [])))"

lemma emitsD: "emits ks m \<Longrightarrow> m s = (Inr x, s') \<Longrightarrow> si_trace s' = si_trace s @ ks"
  unfolding emits_def by fastforce

lemma emits_fails: "emits ks m \<Longrightarrow> m s = (r, s') \<Longrightarrow> \<exists>pre rest. ks = pre @ rest \<and> si_trace s' = si_trace s @ pre"
  unfolding emits_def by blast

lemma emits_quiet: "steps same_trace m \<Longrightarrow> emits [] m"
  by (auto simp: emits_def dest: quietD)

lemma emits_bnd:
  assumes "emits a m" and "\<And>x. emits b (k x)"
  shows "emits (a @ b) (bnd m k)"
  unfolding emits_def
proof (intro allI impI)
  fix s r s'
  assume run: "bnd m k s = (r, s')"
  obtain r1 s1 where m: "m s = (r1, s1)" by fastforce
  show "\<exists>pre rest. a @ b = pre @ rest \<and> si_trace s' = si_trace s @ pre \<and> ((\<exists>x. r = Inr x) \<longrightarrow> rest = [])"
  proof (cases r1)
    case (Inl e)
    obtain pre rest where "a = pre @ rest" "si_trace s1 = si_trace s @ pre" using emits_fails [OF assms(1) m] by blast
    then show ?thesis using run m Inl by (auto simp: bnd_app)
  next
    case (Inr x)
    have "k x s1 = (r, s')" using run m Inr by (simp add: bnd_app)
    then obtain pre rest where "b = pre @ rest" "si_trace s' = si_trace s1 @ pre" "(\<exists>x. r = Inr x) \<longrightarrow> rest = []"
      using assms(2) unfolding emits_def by meson
    then show ?thesis using emitsD [OF assms(1)] m Inr by (intro exI [of _ "a @ pre"] exI [of _ rest]) simp
  qed
qed

lemma emits_andthen: "emits a m \<Longrightarrow> emits b k \<Longrightarrow> emits (a @ b) (andthen m k)"
  unfolding andthen_def by (rule emits_bnd)

lemma emits_after: "steps same_trace m \<Longrightarrow> emits b k \<Longrightarrow> emits b (andthen m k)"
  "steps same_trace n \<Longrightarrow> (\<And>x. emits b (f x)) \<Longrightarrow> emits b (bnd n f)"
  using emits_andthen [OF emits_quiet, of m b k] emits_bnd [OF emits_quiet, of n b f] by simp_all

lemma emits_before: "emits a m \<Longrightarrow> (\<And>x. steps same_trace (f x)) \<Longrightarrow> emits a (bnd m f)"
  using emits_bnd [OF _ emits_quiet, of a m f] by simp

lemma emits_mark: "emits [k] (mark k)"
  by (simp add: emits_def mark_def act_simps)

lemma emits_fail: "emits ks (fail m)"
  by (auto simp: emits_def fail_def act_simps)

lemma emits_for_each: "(\<And>x. emits (f x) (g x)) \<Longrightarrow> emits (concat (map f xs)) (for_each xs g)"
  by (induction xs) (auto intro: emits_andthen emits_quiet steps_intros)

text \<open>What happens to one repository before the agent starts.\<close>

definition checks_of :: "worktree_repo \<Rightarrow> mark list" where
  "checks_of r = (case wr_bootstrap r of Some (ch # cs) \<Rightarrow> [Bootstrapped (wr_name r)] | _ \<Rightarrow> []) @ [Guarded (wr_name r)]"

lemma emits_bootstrap: "emits [Bootstrapped (wr_name (rp_repo p))] (run_bootstrap M P x c p command)"
  unfolding run_bootstrap_def Let_def
  by (intro emits_after quiet_steps quiet_equipment) (auto intro: emits_fail emits_mark)

lemma emits_guard: "emits (checks_of (rp_repo p)) (guard_repo M P x c p)"
proof -
  have boot: "emits (case wr_bootstrap (rp_repo p) of Some (ch # cs) \<Rightarrow> [Bootstrapped (wr_name (rp_repo p))] | _ \<Rightarrow> [])
      (case command_of p of Some command \<Rightarrow> run_bootstrap M P x c p command | None \<Rightarrow> ret ())"
    by (auto simp: command_of_def intro: emits_bootstrap emits_quiet steps_intros split: option.split list.split)
  have "emits [Guarded (wr_name (rp_repo p))] (bnd (disk (dirty_guard (mn_host M) (rp_dir p))) (\<lambda>g.
      andthen (if dt_modified (dg_found g) \<noteq> [] \<or> dt_untracked (dg_found g) \<noteq> []
          then bootstrap_event (rx_run x) (dirty_event (wr_name (rp_repo p)) (command_of p \<noteq> None) g) else ret ())
        (mark (Guarded (wr_name (rp_repo p))))))"
    by (intro emits_after emits_mark steps_intros quiet_equipment)
  from emits_andthen [OF boot this] show ?thesis by (simp add: guard_repo_def checks_of_def)
qed

definition checks_before :: "prepared \<Rightarrow> mark list" where
  "checks_before p = (case wp_repos p of None \<Rightarrow> [] | Some ps \<Rightarrow> concat (map (checks_of \<circ> rp_repo) ps))"

lemma emits_equip: "emits (checks_before p) (equip M P x c p)"
proof -
  have "emits (checks_before p) (case wp_repos p of None \<Rightarrow> ret () | Some ps \<Rightarrow> bootstrap_workspace M P x c ps)"
    using emits_for_each [of "checks_of \<circ> rp_repo" "guard_repo M P x c"] emits_guard [of _ M P x c]
    by (auto simp: checks_before_def bootstrap_workspace_def split: option.split intro: emits_quiet steps_intros)
  moreover have "steps same_trace (if rc_callback (lc_runtime c) then bnd (install_mcp M P x (the_default [] (wp_repos p))) (\<lambda>m. ret (Some m)) else ret None)"
    by (intro steps_intros quiet_equipment)
  ultimately show ?thesis using emits_andthen [OF _ emits_quiet] unfolding equip_def by fastforce
qed

lemma cleanup_trace: "cleanup_workspace M p keep s = (Inr (), s') \<Longrightarrow> si_trace s' = si_trace s @ [Torn_down (wp_dir p) keep]"
proof -
  have "emits [Torn_down (wp_dir p) keep] (cleanup_workspace M p keep)"
    using emits_andthen [OF emits_mark emits_quiet]
    unfolding cleanup_workspace_def by (fastforce intro: steps_intros)
  then show "cleanup_workspace M p keep s = (Inr (), s') \<Longrightarrow> ?thesis" by (rule emitsD)
qed

section \<open>What is removed, and by which commands\<close>

text \<open>The git commands of the dirty guard, and the removals of a workspace's worktrees from their caches.\<close>

definition GUARD_COMMANDS :: "string list list" where
  "GUARD_COMMANDS = [[''status'', ''--porcelain''], [''checkout'', ''--'', ''.'']]"

definition removals_of :: "prepared \<Rightarrow> (string list \<times> string option) list" where
  "removals_of p = (case wp_repos p of None \<Rightarrow> []
     | Some ps \<Rightarrow> map (\<lambda>q. ([''worktree'', ''remove'', ''--force'', rp_dir q], Some (rp_cache q))) ps)"

definition mcp_of :: "platform \<Rightarrow> run_context \<Rightarrow> prepared \<Rightarrow> mcp_config" where
  "mcp_of P x p = write_mcp_config (mcp_input_of P x (the_default [] (wp_repos p))) (pf_mcp_root P)"

definition mcp_paths :: "mcp_config \<Rightarrow> string set" where
  "mcp_paths m = {mc_config_path m, mc_marker_path m}"

text \<open>From one disk to a later one only paths of \<open>A\<close> were removed, and git was only asked what the dirty guard asks.\<close>

definition tidy_disk :: "string set \<Rightarrow> 'f disk \<Rightarrow> 'f disk \<Rightarrow> bool" where
  "tidy_disk A d d' \<longleftrightarrow> (\<exists>rs cs. dk_removed d' = dk_removed d @ rs \<and> fst ` set rs \<subseteq> A \<and>
     dk_log d' = dk_log d @ cs \<and> fst ` set cs \<subseteq> set GUARD_COMMANDS)"

definition tidy :: "string set \<Rightarrow> 'f site \<Rightarrow> 'f site \<Rightarrow> bool" where
  "tidy A s s' \<longleftrightarrow> tidy_disk A (si_disk s) (si_disk s')"

lemma tidy_refl: "tidy_disk A d d"
  by (simp add: tidy_disk_def)

lemma tidy_trans:
  assumes "tidy_disk A d e" and "tidy_disk A e f"
  shows "tidy_disk A d f"
proof -
  obtain rs cs where "dk_removed e = dk_removed d @ rs" "fst ` set rs \<subseteq> A" "dk_log e = dk_log d @ cs" "fst ` set cs \<subseteq> set GUARD_COMMANDS"
    using assms(1) unfolding tidy_disk_def by blast
  moreover obtain rs' cs' where "dk_removed f = dk_removed e @ rs'" "fst ` set rs' \<subseteq> A" "dk_log f = dk_log e @ cs'"
    "fst ` set cs' \<subseteq> set GUARD_COMMANDS"
    using assms(2) unfolding tidy_disk_def by blast
  ultimately show ?thesis unfolding tidy_disk_def by (intro exI [of _ "rs @ rs'"] exI [of _ "cs @ cs'"]) (simp add: image_Un)
qed

interpretation td: state_relation "tidy_disk A" for A
  by unfold_locales (blast intro: tidy_refl tidy_trans)+

lemma tidy_same: "tidy A s s"
  by (simp add: tidy_def tidy_refl)

lemma tidy_step: "tidy A s t \<Longrightarrow> tidy A t u \<Longrightarrow> tidy A s u"
  unfolding tidy_def by (rule tidy_trans)

interpretation ts: state_relation "tidy A" for A
  by (rule state_relation.intro [OF tidy_same tidy_step])

lemma tidy_mono: "tidy A s s' \<Longrightarrow> A \<subseteq> B \<Longrightarrow> tidy B s s'"
  unfolding tidy_def tidy_disk_def by (meson subset_trans)

lemma tidy_host [steps_intros]:
  "steps (tidy_disk A) (mkdir h p)" "args \<in> set GUARD_COMMANDS \<Longrightarrow> steps (tidy_disk A) (git_exec h args cwd)"
  by (auto simp: steps_def mkdir_def git_exec_def tidy_disk_def split: prod.split)

lemma tidy_rm: "p \<in> A \<Longrightarrow> steps (tidy_disk A) (rm h p)"
  by (auto simp: steps_def rm_def tidy_disk_def split: prod.split)

lemma tidy_guard [steps_intros]: "steps (tidy_disk A) (dirty_guard h dir)"
  unfolding dirty_guard_def status_porcelain_def revert_tracked_def
  by (intro steps_intros) (simp_all add: GUARD_COMMANDS_def)

lemma tidy_disk_lift: "steps (tidy_disk A) m \<Longrightarrow> steps (tidy A) (disk m)"
  by (auto simp: steps_def tidy_def disk_def split: prod.splits) (metis snd_conv)

lemma tidy_lifts [steps_intros]: "steps (tidy A) (db m)" "steps (tidy A) (mark k)" "steps (tidy A) (fail m')"
  by (auto simp: steps_def tidy_def db_def mark_def fail_def act_simps intro: tidy_refl split: prod.splits)

lemma tidy_modify [steps_intros]: "(\<And>s. si_disk (f s) = si_disk s) \<Longrightarrow> steps (tidy A) (modify f)"
  by (rule ts.steps_modify) (simp add: tidy_def tidy_refl)

lemma tidy_calls [steps_intros]: "steps (tidy A) (signal M)" "steps (tidy A) (signal_throw M)" "steps (tidy A) (system_call f)"
proof -
  show sg: "steps (tidy A) (signal M)" by (simp add: steps_def tidy_def signal_def disk_def Let_def tidy_disk_def)
  then show "steps (tidy A) (signal_throw M)" unfolding signal_throw_def by (intro steps_intros)
  show "steps (tidy A) (system_call f)"
    by (simp add: steps_def tidy_def system_call_def disk_def tidy_disk_def split: prod.split)
qed

lemma tidy_caught [steps_intros]: "steps (tidy A) m \<Longrightarrow> steps (tidy A) (tried m)" "steps (tidy A) n \<Longrightarrow> steps (tidy A) (logged n)"
  unfolding tried_def logged_def by (intro steps_intros; assumption)+

lemma tidy_equip: "steps (tidy {}) (equip M P x c p)"
  unfolding equip_def bootstrap_workspace_def guard_repo_def run_bootstrap_def bootstrap_event_def install_mcp_def Let_def
  by (intro steps_intros tidy_disk_lift)

lemma tidy_prompt: "steps (tidy {}) (write_prompt M P x c p)"
  unfolding write_prompt_def by (intro steps_intros tidy_disk_lift)

lemma tidy_drive: "steps (tidy {}) (drive_process M P x c dir mcp)"
  unfolding drive_process_def Let_def by (intro steps_intros) simp

lemma tidy_remove: "(\<And>m. mcp = Some m \<Longrightarrow> mcp_paths m \<subseteq> A) \<Longrightarrow> steps (tidy A) (remove_mcp M mcp)"
  unfolding remove_mcp_def mcp_paths_def by (cases mcp) (auto intro!: steps_intros tidy_disk_lift tidy_rm)

lemma tidyD: "steps (tidy A) m \<Longrightarrow> m s = (r, s') \<Longrightarrow> tidy A s s'"
  by (rule steps_run)

lemma equip_mcp: "equip M P x c p s = (Inr mcp, s') \<Longrightarrow> mcp = None \<or> mcp = Some (mcp_of P x p)"
  unfolding equip_def install_mcp_def mcp_of_def Let_def
  by (auto elim!: andthen_InrE bnd_InrE simp: ret_app split: if_splits)

text \<open>The teardown removes the worktrees and then the workspace's directory, or nothing when it is kept.\<close>

lemma remove_worktree_log:
  "dk_log (snd (attempt (remove_worktree h q) d)) = dk_log d @ [([''worktree'', ''remove'', ''--force'', rp_dir q], Some (rp_cache q))]"
  "dk_removed (snd (attempt (remove_worktree h q) d)) = dk_removed d"
  "\<exists>y. fst (attempt (remove_worktree h q) d) = Inr y"
  by (simp_all add: attempt_def remove_worktree_def git_def git_exec_def act_simps split: prod.splits sum.splits)

lemma remove_loop_log:
  "\<exists>f e. for_fold qs first (\<lambda>q first. bnd (attempt (remove_worktree h q)) (\<lambda>r.
       ret (case (first, r) of (None, Inl e) \<Rightarrow> Some e | _ \<Rightarrow> first))) d = (Inr f, e) \<and>
     dk_log e = dk_log d @ map (\<lambda>q. ([''worktree'', ''remove'', ''--force'', rp_dir q], Some (rp_cache q))) qs \<and>
     dk_removed e = dk_removed d"
proof (induction qs arbitrary: first d)
  case (Cons q qs)
  obtain y d1 where a: "attempt (remove_worktree h q) d = (Inr y, d1)"
    using remove_worktree_log(3) [of h q d] by (metis prod.collapse)
  have "dk_log d1 = dk_log d @ [([''worktree'', ''remove'', ''--force'', rp_dir q], Some (rp_cache q))]" "dk_removed d1 = dk_removed d"
    using remove_worktree_log(1,2) [of h q d] a by simp_all
  then show ?case using Cons [of "case (first, y) of (None, Inl e) \<Rightarrow> Some e | _ \<Rightarrow> first" d1] a
    by (simp add: bnd_app ret_app)
qed (simp add: act_simps)

lemma rm_log:
  "dk_log (snd (rm h q d)) = dk_log d" "\<exists>ok. dk_removed (snd (rm h q d)) = dk_removed d @ [(q, ok)]"
  by (simp_all add: rm_def split: prod.split)

lemma cleanup_all_log:
  assumes "\<not> keep"
  shows "\<exists>ok. dk_removed (snd (cleanup_all h parent qs keep d)) = dk_removed d @ [(parent, ok)] \<and>
    dk_log (snd (cleanup_all h parent qs keep d)) =
      dk_log d @ map (\<lambda>q. ([''worktree'', ''remove'', ''--force'', rp_dir q], Some (rp_cache q))) qs"
proof -
  obtain f e where loop: "for_fold qs None (\<lambda>q first. bnd (attempt (remove_worktree h q)) (\<lambda>r.
       ret (case (first, r) of (None, Inl e) \<Rightarrow> Some e | _ \<Rightarrow> first))) d = (Inr f, e)"
    and log: "dk_log e = dk_log d @ map (\<lambda>q. ([''worktree'', ''remove'', ''--force'', rp_dir q], Some (rp_cache q))) qs"
      "dk_removed e = dk_removed d"
    using remove_loop_log [of qs None h d] by blast
  have "snd (cleanup_all h parent qs keep d) = snd (rm h parent e)"
    using assms loop by (auto simp: cleanup_all_def act_simps split: prod.splits sum.splits option.splits)
  then show ?thesis using rm_log [of h parent e] log by simp
qed

lemma cleanup_run:
  "cleanup_workspace M p keep s = (Inr (), s\<lparr>si_trace := si_trace s @ [Torn_down (wp_dir p) keep],
     si_disk := snd ((case wp_repos p of None \<Rightarrow> if keep then ret () else rm (mn_host M) (wp_dir p)
      | Some ps \<Rightarrow> cleanup_all (mn_host M) (wp_dir p) ps keep) (si_disk s))\<rparr>)"
  unfolding cleanup_workspace_def andthen_app mark_def modify_app
  by (simp add: logged_app disk_def del: if_split split: prod.split)

lemma cleanup_removes:
  assumes "cleanup_workspace M p keep s = (Inr (), s')"
  shows "\<exists>ok. dk_removed (si_disk s') = dk_removed (si_disk s) @ (if keep then [] else [(wp_dir p, ok)]) \<and>
    dk_log (si_disk s') = dk_log (si_disk s) @ (if keep then [] else removals_of p)"
proof -
  have "si_disk s' = snd ((case wp_repos p of None \<Rightarrow> if keep then ret () else rm (mn_host M) (wp_dir p)
      | Some ps \<Rightarrow> cleanup_all (mn_host M) (wp_dir p) ps keep) (si_disk s))"
    using assms unfolding cleanup_run by auto
  then show ?thesis
    using cleanup_all_log [of keep "mn_host M" "wp_dir p" _ "si_disk s"] rm_log [of "mn_host M" "wp_dir p" "si_disk s"]
    by (cases "wp_repos p") (auto simp: removals_of_def cleanup_all_def ret_app)
qed

section \<open>The abort signal\<close>

definition abort_of :: "'f machine \<Rightarrow> 'f site \<Rightarrow> string option" where
  "abort_of M s = ho_aborted (mn_host M) (dk_fs (si_disk s))"

lemma signal_reads: "signal M s = (Inr reason, s') \<Longrightarrow> reason = abort_of M s'"
  by (auto simp: signal_def disk_def Let_def abort_of_def)

text \<open>
  An abort signal stays aborted, for the same reason: neither git nor a removal takes it back.
\<close>

definition abort_sticky :: "'f host \<Rightarrow> bool" where
  "abort_sticky h \<longleftrightarrow> (\<forall>f m. ho_aborted h f = Some m \<longrightarrow>
     (\<forall>args cwd. ho_aborted h (snd (ho_git h args cwd f)) = Some m) \<and> (\<forall>q. ho_aborted h (snd (ho_rm h q f)) = Some m))"

definition still_aborted :: "'f host \<Rightarrow> string \<Rightarrow> 'f disk \<Rightarrow> 'f disk \<Rightarrow> bool" where
  "still_aborted h m d d' \<longleftrightarrow> (ho_aborted h (dk_fs d) = Some m \<longrightarrow> ho_aborted h (dk_fs d') = Some m)"

interpretation sa: state_relation "still_aborted h m" for h m
  by unfold_locales (auto simp: still_aborted_def)

lemma sticky_calls:
  assumes "abort_sticky h"
  shows "steps (still_aborted h m) (rm h q)" and "steps (still_aborted h m) (git_exec h args cwd)"
  using assms by (auto simp: steps_def still_aborted_def rm_def git_exec_def abort_sticky_def split: prod.split) (metis snd_conv)+

lemma sticky_cleanup: "abort_sticky h \<Longrightarrow> steps (still_aborted h m) (cleanup_all h dir ps keep)"
  unfolding cleanup_all_def attempt_def remove_worktree_def git_def
  by (intro steps_intros sticky_calls; assumption)

lemma sticky_disk: "steps (still_aborted (mn_host M) m) d \<Longrightarrow> logged (disk d) s = (r, s') \<Longrightarrow> abort_of M s = Some m \<Longrightarrow> abort_of M s' = Some m"
  by (auto simp: logged_app disk_def abort_of_def still_aborted_def split: prod.splits dest!: steps_run)

lemma sticky_teardown:
  assumes "abort_sticky (mn_host M)" and "cleanup_workspace M p keep s = (Inr (), s')" and "abort_of M s = Some m"
  shows "abort_of M s' = Some m"
proof -
  let ?d = "case wp_repos p of None \<Rightarrow> if keep then ret () else rm (mn_host M) (wp_dir p)
      | Some ps \<Rightarrow> cleanup_all (mn_host M) (wp_dir p) ps keep"
  have "steps (still_aborted (mn_host M) m) ?d"
    by (intro steps_intros sticky_calls sticky_cleanup assms(1))
  moreover have "si_disk s' = snd (?d (si_disk s))" using assms(2) unfolding cleanup_run by auto
  ultimately show ?thesis using assms(3) stepsD [of "still_aborted (mn_host M) m" ?d "si_disk s"]
    by (simp add: abort_of_def still_aborted_def)
qed

lemma sticky_removal:
  assumes "abort_sticky (mn_host M)" and "logged (remove_mcp M mcp) s = (Inr u, s')" and "abort_of M s = Some m"
  shows "abort_of M s' = Some m"
proof (cases mcp)
  case (Some mc)
  have "steps (still_aborted (mn_host M) m) (andthen (rm (mn_host M) (mc_config_path mc)) (rm (mn_host M) (mc_marker_path mc)))"
    by (intro steps_intros sticky_calls assms(1))
  moreover have "remove_mcp M mcp s = disk (andthen (rm (mn_host M) (mc_config_path mc)) (rm (mn_host M) (mc_marker_path mc))) s"
    using Some by (auto simp: remove_mcp_def disk_def andthen_app split: prod.splits sum.splits)
  ultimately show ?thesis using sticky_disk assms(2,3) by (metis logged_app)
qed (use assms in \<open>auto simp: remove_mcp_def logged_app ret_app\<close>)

section \<open>Every prepared workspace is torn down\<close>

lemma prepare_loop_repos: "prepare_loop h o' croot parent repos ps d = (Inr qs, d') \<Longrightarrow> map rp_repo qs = map rp_repo ps @ repos"
proof (induction repos arbitrary: ps d)
  case (Cons repo repos)
  then obtain p d1 where "prepare_one h o' croot parent repo d = (Inr p, d1)" and "prepare_loop h o' croot parent repos (ps @ [p]) d1 = (Inr qs, d')"
    by (auto simp: act_simps attempt_def unwind_def split: prod.splits sum.splits)
  then show ?case using Cons.IH prepare_one_told by (fastforce simp: started_as_told_def)
qed (simp add: act_simps)

lemma prepare_all_repos: "prepare_all h repos run wroot croot o' d = (Inr (dir, ps), d') \<Longrightarrow> map rp_repo ps = repos"
  by (auto simp: prepare_all_def Let_def act_simps split: prod.splits sum.splits if_splits dest!: prepare_loop_repos)

lemma checkout_repos: "checkout M P x c o' s = (Inr p, s') \<Longrightarrow> \<exists>ps. wp_repos p = Some ps \<and> map rp_repo ps = lc_repos c"
  by (cases o') (auto simp: checkout_def disk_def act_simps split: prod.splits sum.splits dest!: prepare_all_repos)

lemma prepared_repos:
  assumes "prepare_workspace M P x c s = (Inr (Inr p), s')"
  shows "checks_before p = (if lc_no_repo c then [] else concat (map checks_of (lc_repos c)))"
proof (cases "lc_no_repo c")
  case True
  then show ?thesis using assms
    by (auto simp: prepare_workspace_def checks_before_def act_simps tried_app split: prod.splits sum.splits)
next
  case False
  with assms obtain o' s1 s2 where "checkout M P x c o' s1 = (Inr p, s2)"
    by (auto simp: prepare_workspace_def act_simps tried_app split: prod.splits sum.splits if_splits)
  from checkout_repos [OF this] show ?thesis using False by (auto simp: checks_before_def o_def dest!: sym [of _ "lc_repos c"])
qed

lemma not_prepared:
  assumes "prepare_workspace M P x c s = (Inr (Inl r), s')"
  shows "er_exit r \<noteq> Ex_completed"
  using assms unfolding prepare_workspace_def
  by (auto simp: prepare_failed_def act_simps tried_app plain_result_def aborted_during_prepare_def
      split: prod.splits sum.splits if_splits option.splits)

lemma quiet_removal: "logged (remove_mcp M mcp) s = (r, s') \<Longrightarrow> si_trace s' = si_trace s"
  using steps_run [of same_trace "logged (remove_mcp M mcp)" s r s'] quiet_tried(2) [OF quiet_equipment(2), of M mcp]
  by (simp add: same_trace_def)

lemma quiet_answer: "bnd (signal M) (\<lambda>reason. ret (f reason)) s = (r, s') \<Longrightarrow> si_trace s' = si_trace s"
  using signal_app [of M s] by (auto simp: bnd_app ret_app)

lemma launch_failed_trace:
  assumes "launch_failed M c p mcp e s = (Inr r, s')"
  shows "si_trace s' = si_trace s @ [Torn_down (wp_dir p) (rc_keep_failed (lc_runtime c) \<and> run_failed r)] \<and> er_exit r \<noteq> Ex_completed"
proof -
  from assms obtain s1 s2 u where 1: "remove_mcp M mcp s = (Inr u, s1)"
    and 2: "cleanup_workspace M p (rc_keep_failed (lc_runtime c)) s1 = (Inr (), s2)"
    and 3: "bnd (signal M) (\<lambda>reason. ret (case reason of
        Some m \<Rightarrow> aborted_during_prepare m | None \<Rightarrow> plain_result Ex_crashed (run_message e))) s2 = (Inr r, s')"
    unfolding launch_failed_def by (auto elim!: andthen_InrE)
  have "si_trace s1 = si_trace s" by (rule quietD [OF quiet_equipment(2) 1])
  moreover have "si_trace s' = si_trace s2" by (rule quiet_answer [OF 3])
  moreover have "er_exit r \<noteq> Ex_completed"
    using 3 by (auto simp: bnd_app ret_app plain_result_def aborted_during_prepare_def split: prod.splits sum.splits option.splits if_splits)
  ultimately show ?thesis using cleanup_trace [OF 2] by (simp add: run_failed_def)
qed

lemma drive_trace:
  assumes "drive_process M P x c dir mcp s = (Inr outcome0, s')"
  shows "si_trace s' = si_trace s @ [Spawned]"
proof -
  have "emits [Spawned] (drive_process M P x c dir mcp)"
    unfolding drive_process_def Let_def by (intro emits_andthen [OF emits_mark emits_quiet, simplified] steps_intros) simp
  from emitsD [OF this assms] show ?thesis .
qed

lemma finish_trace:
  assumes "finish_run M c p mcp res s = (Inr r, s')"
  shows "r = res \<and> si_trace s' = si_trace s @ [Torn_down (wp_dir p) (rc_keep_failed (lc_runtime c) \<and> run_failed r)]"
proof -
  from assms obtain s1 u where 1: "logged (remove_mcp M mcp) s = (Inr u, s1)"
    and 2: "cleanup_workspace M p (rc_keep_failed (lc_runtime c) \<and> run_failed res) s1 = (Inr (), s')" and 3: "r = res"
    unfolding finish_run_def by (auto elim!: andthen_InrE simp: ret_app)
  have "si_trace s1 = si_trace s" by (rule quiet_removal [OF 1])
  then show ?thesis using cleanup_trace [OF 2] 3 by simp
qed

lemma launch_cases:
  assumes "launch M P x c p s = (Inr (Some r), s')"
  obtains (failed) mcp e s1 pre rest where "launch_failed M c p mcp e s1 = (Inr r, s')"
      and "si_trace s1 = si_trace s @ pre" and "checks_before p = pre @ rest"
      and "tidy {} s s1" and "mcp = None \<or> mcp = Some (mcp_of P x p)"
  | (aborted) m s2 where "r = aborted_during_prepare m" and "si_trace s2 = si_trace s @ checks_before p"
      and "cleanup_workspace M p (rc_keep_failed (lc_runtime c)) s2 = (Inr (), s')"
      and "tidy (mcp_paths (mcp_of P x p)) s s2"
      and "abort_sticky (mn_host M) \<Longrightarrow> abort_of M s2 = Some m"
  | (settled) mcp s1 s2 where "drive_process M P x c (wp_dir p) mcp s1 = (Inr (Some r), s2)"
      and "finish_run M c p mcp r s2 = (Inr r, s')" and "si_trace s1 = si_trace s @ checks_before p"
      and "tidy {} s s1" and "mcp = None \<or> mcp = Some (mcp_of P x p)"
proof -
  let ?go = "\<lambda>mcp. bnd (signal M) (\<lambda>reason. case reason of
           Some m \<Rightarrow> andthen (logged (remove_mcp M mcp))
             (andthen (cleanup_workspace M p (rc_keep_failed (lc_runtime c))) (ret (Some (aborted_during_prepare m))))
         | None \<Rightarrow> bnd (drive_process M P x c (wp_dir p) mcp) (\<lambda>settled. case settled of
             None \<Rightarrow> ret None
           | Some res \<Rightarrow> bnd (finish_run M c p mcp res) (\<lambda>res. ret (Some res))))"
  obtain e s1 where eq: "equip M P x c p s = (e, s1)" by fastforce
  show thesis
  proof (cases e)
    case (Inl err)
    with assms eq have "launch_failed M c p None err s1 = (Inr r, s')"
      unfolding launch_def by (auto simp: bnd_app tried_app ret_app split: prod.splits sum.splits)
    then show thesis using emits_fails [OF emits_equip eq] tidyD [OF tidy_equip eq] failed by blast
  next
    case (Inr mcp)
    have 1: "si_trace s1 = si_trace s @ checks_before p" using emitsD [OF emits_equip] eq Inr by blast
    obtain w s2 where wr: "write_prompt M P x c p s1 = (w, s2)" by fastforce
    have 2: "si_trace s2 = si_trace s1" by (rule quietD [OF quiet_equipment(3) wr])
    have mcp: "mcp = None \<or> mcp = Some (mcp_of P x p)" using equip_mcp eq Inr by blast
    have neat: "tidy {} s s2" by (rule tidy_step [OF tidyD [OF tidy_equip eq] tidyD [OF tidy_prompt wr]])
    show thesis
    proof (cases w)
      case (Inl err)
      with assms eq Inr wr have "launch_failed M c p mcp err s2 = (Inr r, s')"
        unfolding launch_def by (auto simp: bnd_app tried_app ret_app split: prod.splits sum.splits)
      then show thesis using 1 2 neat mcp failed [of mcp err s2 "checks_before p" "[]"] by simp
    next
      case (Inr u)
      with assms eq \<open>e = Inr mcp\<close> wr have "?go mcp s2 = (Inr (Some r), s')"
        unfolding launch_def by (simp add: bnd_app tried_app)
      then obtain reason s3 where sg: "signal M s2 = (Inr reason, s3)" and next': "(case reason of
           Some m \<Rightarrow> andthen (logged (remove_mcp M mcp))
             (andthen (cleanup_workspace M p (rc_keep_failed (lc_runtime c))) (ret (Some (aborted_during_prepare m))))
         | None \<Rightarrow> bnd (drive_process M P x c (wp_dir p) mcp) (\<lambda>settled. case settled of
             None \<Rightarrow> ret None
           | Some res \<Rightarrow> bnd (finish_run M c p mcp res) (\<lambda>res. ret (Some res)))) s3 = (Inr (Some r), s')"
        by (rule bnd_InrE)
      have 3: "si_trace s3 = si_trace s @ checks_before p" using quietD [OF quiet_steps(1) sg] 1 2 by simp
      have neat': "tidy {} s s3" by (rule tidy_step [OF neat tidyD [OF tidy_calls(1) sg]])
      show thesis
      proof (cases reason)
        case (Some m)
        with next' obtain s4 u where 4: "logged (remove_mcp M mcp) s3 = (Inr u, s4)"
          and 5: "cleanup_workspace M p (rc_keep_failed (lc_runtime c)) s4 = (Inr (), s')" and r: "r = aborted_during_prepare m"
          by (auto elim!: andthen_InrE simp: ret_app)
        have gone: "tidy (mcp_paths (mcp_of P x p)) s s4"
          using tidy_step [OF tidy_mono [OF neat'] tidyD [OF tidy_caught(2) [OF tidy_remove] 4]] mcp by fastforce
        have still: "abort_of M s4 = Some m" if "abort_sticky (mn_host M)"
          using sticky_removal [OF that 4] signal_reads [OF sg, symmetric] Some by simp
        from 5 3 quiet_removal [OF 4] r gone still show thesis using aborted [of m s4] by simp
      next
        case None
        with next' obtain s4 res where 4: "drive_process M P x c (wp_dir p) mcp s3 = (Inr (Some res), s4)"
          and 5: "finish_run M c p mcp res s4 = (Inr r, s')"
          by (auto elim!: bnd_InrE simp: ret_app split: option.splits)
        then show thesis using settled [of mcp s3 s4] 3 neat' mcp finish_trace [OF 5] by simp
      qed
    qed
  qed
qed

lemma launch_trace:
  assumes "launch M P x c p s = (Inr (Some r), s')"
  shows "\<exists>pre. si_trace s' = si_trace s @ pre @ [Torn_down (wp_dir p) (rc_keep_failed (lc_runtime c) \<and> run_failed r)] \<and>
    (pre = checks_before p @ [Spawned] \<or> er_exit r \<noteq> Ex_completed \<and> (\<exists>rest. checks_before p = pre @ rest))"
  using assms
proof (cases rule: launch_cases)
  case (failed mcp e s1 pre rest)
  then show ?thesis using launch_failed_trace [OF failed(1)] by (intro exI [of _ pre]) auto
next
  case (aborted m s2)
  have "er_exit r \<noteq> Ex_completed" by (simp add: aborted(1) aborted_during_prepare_def plain_result_def)
  then show ?thesis using cleanup_trace [OF aborted(3)] aborted(2)
    by (intro exI [of _ "checks_before p"]) (simp add: run_failed_def)
next
  case (settled mcp s1 s2)
  then show ?thesis using drive_trace [OF settled(1)] finish_trace [OF settled(2)]
    by (intro exI [of _ "checks_before p @ [Spawned]"]) simp
qed

lemma execute_cases:
  assumes "load_run_config P T x s = (Inr c, s1)" and "execute_run M P T x s = (Inr (Some r), s')"
  obtains (aborted) m where "r = aborted_during_prepare m" and "si_trace s' = si_trace s" and "signal M s1 = (Inr (Some m), s')"
  | (unprepared) s2 where "prepare_workspace M P x c s2 = (Inr (Inl r), s')" and "si_trace s2 = si_trace s"
      and "signal M s1 = (Inr None, s2)"
  | (launched) s2 p s3 where "prepare_workspace M P x c s2 = (Inr (Inr p), s3)" and "si_trace s3 = si_trace s"
      and "launch M P x c p s3 = (Inr (Some r), s')" and "signal M s1 = (Inr None, s2)"
proof -
  have 1: "si_trace s1 = si_trace s" by (rule quietD [OF quiet_load assms(1)])
  from assms obtain reason s2 where sg: "signal M s1 = (Inr reason, s2)" and next': "(case reason of
       Some m \<Rightarrow> ret (Some (aborted_during_prepare m))
     | None \<Rightarrow> bnd (prepare_workspace M P x c) (\<lambda>r. case r of
         Inl res \<Rightarrow> ret (Some res)
       | Inr p \<Rightarrow> launch M P x c p)) s2 = (Inr (Some r), s')"
    unfolding execute_run_def by (auto elim!: bnd_InrE)
  have 2: "si_trace s2 = si_trace s1" by (rule quietD [OF quiet_steps(1) sg])
  show thesis
  proof (cases reason)
    case (Some m)
    then show thesis using next' 1 2 sg by (intro aborted [of m]) (simp_all add: ret_app)
  next
    case None
    then obtain y s3 where pr: "prepare_workspace M P x c s2 = (Inr y, s3)" and
      last: "(case y of Inl res \<Rightarrow> ret (Some res) | Inr p \<Rightarrow> launch M P x c p) s3 = (Inr (Some r), s')"
      using next' by (auto elim!: bnd_InrE)
    have 3: "si_trace s3 = si_trace s2" by (rule quietD [OF quiet_prepare pr])
    show thesis
    proof (cases y)
      case (Inl res)
      then show thesis using pr last 1 2 sg None by (intro unprepared [of s2]) (simp_all add: ret_app)
    next
      case (Inr p)
      then show thesis using pr last 1 2 3 sg None by (intro launched [of s2 p s3]) simp_all
    qed
  qed
qed

lemma execution_trace:
  assumes "load_run_config P T x s = (Inr c, s1)" and "execute_run M P T x s = (Inr (Some r), s')"
  shows "\<exists>new. si_trace s' = si_trace s @ new \<and>
    (new = [] \<and> er_exit r \<noteq> Ex_completed \<or>
     (\<exists>dir pre. new = pre @ [Torn_down dir (rc_keep_failed (lc_runtime c) \<and> run_failed r)] \<and>
       (pre = (if lc_no_repo c then [] else concat (map checks_of (lc_repos c))) @ [Spawned] \<or>
        er_exit r \<noteq> Ex_completed \<and> (\<exists>rest. (if lc_no_repo c then [] else concat (map checks_of (lc_repos c))) = pre @ rest))))"
  using assms
proof (cases rule: execute_cases)
  case (aborted m)
  then show ?thesis by (auto simp: aborted_during_prepare_def plain_result_def)
next
  case (unprepared s2)
  have "si_trace s' = si_trace s2" by (rule quietD [OF quiet_prepare unprepared(1)])
  then show ?thesis using not_prepared [OF unprepared(1)] unprepared(2) by simp
next
  case (launched s2 p s3)
  from launch_trace [OF launched(3)] obtain pre where
    "si_trace s' = si_trace s @ pre @ [Torn_down (wp_dir p) (rc_keep_failed (lc_runtime c) \<and> run_failed r)]" and
    "pre = checks_before p @ [Spawned] \<or> er_exit r \<noteq> Ex_completed \<and> (\<exists>rest. checks_before p = pre @ rest)"
    using launched(2) by auto
  then have "si_trace s' = si_trace s @ (pre @ [Torn_down (wp_dir p) (rc_keep_failed (lc_runtime c) \<and> run_failed r)])"
    and "pre = (if lc_no_repo c then [] else concat (map checks_of (lc_repos c))) @ [Spawned] \<or>
      er_exit r \<noteq> Ex_completed \<and> (\<exists>rest. (if lc_no_repo c then [] else concat (map checks_of (lc_repos c))) = pre @ rest)"
    unfolding prepared_repos [OF launched(1)] by simp_all
  then show ?thesis by blast
qed

text \<open>
  What the teardown of a workspace does to the disk of the state in which it was prepared: unless the
  workspace is kept, git was told to remove each of its worktrees and then its directory was removed, as the
  last things done; a kept workspace lost nothing. Before that only the paths of \<open>A\<close> were removed and git
  was only asked what the dirty guard asks.
\<close>

definition torn_down :: "string set \<Rightarrow> prepared \<Rightarrow> bool \<Rightarrow> 'f site \<Rightarrow> 'f site \<Rightarrow> bool" where
  "torn_down A p keep s s' \<longleftrightarrow> (\<exists>rs cs ok.
     dk_removed (si_disk s') = dk_removed (si_disk s) @ rs @ (if keep then [] else [(wp_dir p, ok)]) \<and> fst ` set rs \<subseteq> A \<and>
     dk_log (si_disk s') = dk_log (si_disk s) @ cs @ (if keep then [] else removals_of p) \<and> fst ` set cs \<subseteq> set GUARD_COMMANDS)"

lemma torn_downI:
  assumes "tidy A s s1" and "cleanup_workspace M p keep s1 = (Inr (), s2)"
    and "dk_log (si_disk s') = dk_log (si_disk s2)" and "dk_removed (si_disk s') = dk_removed (si_disk s2)"
  shows "torn_down A p keep s s'"
  using assms(1,3,4) cleanup_removes [OF assms(2)] unfolding torn_down_def tidy_def tidy_disk_def by fastforce

lemma launch_disk:
  assumes "launch M P x c p s = (Inr (Some r), s')"
  shows "torn_down (mcp_paths (mcp_of P x p)) p (rc_keep_failed (lc_runtime c) \<and> run_failed r) s s'"
  using assms
proof (cases rule: launch_cases)
  case (failed mcp e s1 pre rest)
  from failed(1) obtain s2 s3 u where 1: "remove_mcp M mcp s1 = (Inr u, s2)"
    and 2: "cleanup_workspace M p (rc_keep_failed (lc_runtime c)) s2 = (Inr (), s3)"
    and 3: "bnd (signal M) (\<lambda>reason. ret (case reason of
        Some m \<Rightarrow> aborted_during_prepare m | None \<Rightarrow> plain_result Ex_crashed (run_message e))) s3 = (Inr r, s')"
    unfolding launch_failed_def by (auto elim!: andthen_InrE)
  have "tidy (mcp_paths (mcp_of P x p)) s s2"
    using tidy_step [OF tidy_mono [OF failed(4)] tidyD [OF tidy_remove 1]] failed(5) by fastforce
  moreover have "dk_log (si_disk s') = dk_log (si_disk s3)" "dk_removed (si_disk s') = dk_removed (si_disk s3)"
    using 3 by (auto simp: bnd_app ret_app signal_def disk_def Let_def)
  moreover have "run_failed r" using launch_failed_trace [OF failed(1)] by (simp add: run_failed_def)
  ultimately show ?thesis using torn_downI [OF _ 2] by simp
next
  case (aborted m s2)
  then show ?thesis using torn_downI [OF aborted(4,3) refl refl] by (simp add: run_failed_def aborted_during_prepare_def plain_result_def)
next
  case (settled mcp s1 s2)
  from settled(2) obtain s3 u where 1: "logged (remove_mcp M mcp) s2 = (Inr u, s3)"
    and 2: "cleanup_workspace M p (rc_keep_failed (lc_runtime c) \<and> run_failed r) s3 = (Inr (), s')"
    unfolding finish_run_def by (auto elim!: andthen_InrE simp: ret_app)
  have "tidy {} s s2" by (rule tidy_step [OF settled(4) tidyD [OF tidy_drive settled(1)]])
  then have "tidy (mcp_paths (mcp_of P x p)) s s3"
    using tidy_step [OF tidy_mono tidyD [OF tidy_caught(2) [OF tidy_remove] 1]] settled(5) by fastforce
  then show ?thesis by (rule torn_downI [OF _ 2 refl refl])
qed


lemma drive_result:
  assumes "drive_process M P x c dir mcp s = (Inr (Some r), s')" and "rc_callback (lc_runtime c)"
  shows "er_report r = None"
proof -
  from assms(1) obtain evs where settled: "pr_settled (run_process (proc_config_of P x c) evs) = Some r"
    unfolding drive_process_def Let_def by (auto elim!: andthen_InrE bnd_InrE simp: ret_app)
  then show ?thesis using run_settled_ok [of "proc_config_of P x c" evs] assms(2)
    by (auto simp: settled_ok_def result_ok_def proc_config_of_def split: option.splits)
qed

lemma launch_callback_failed:
  assumes "launch M P x c p s = (Inr (Some r), s')" and "rc_callback (lc_runtime c)"
  shows "run_failed r"
  using assms(1)
proof (cases rule: launch_cases)
  case (failed mcp e s1 pre rest)
  then show ?thesis using launch_failed_trace [OF failed(1)] by (simp add: run_failed_def)
next
  case (aborted m s2)
  then show ?thesis by (simp add: run_failed_def aborted_during_prepare_def plain_result_def)
next
  case (settled mcp s1 s2)
  then show ?thesis using drive_result [OF settled(1) assms(2)] by (simp add: run_failed_def)
qed

text \<open>
  C33. Kept workspaces are not the failed ones: on the callback channel the executor's result never carries a
  report, so every run counts as failed, and a profile that keeps failed workspaces keeps the workspace of
  every run, the successful ones included.
\<close>

theorem callback_keeps_every_workspace:
  assumes "load_run_config P T x s = (Inr c, s1)" and "execute_run M P T x s = (Inr (Some r), s')"
    and "rc_callback (lc_runtime c)"
    and "si_trace s' = si_trace s @ new" and "Torn_down dir keep \<in> set new"
  shows "keep = rc_keep_failed (lc_runtime c)"
  using assms(1,2)
proof (cases rule: execute_cases)
  case (launched s2 p s3)
  have "run_failed r" by (rule launch_callback_failed [OF launched(3) assms(3)])
  with launch_trace [OF launched(3)] obtain pre where
    "new = pre @ [Torn_down (wp_dir p) (rc_keep_failed (lc_runtime c))]" and
    "pre = checks_before p @ [Spawned] \<or> (\<exists>rest. checks_before p = pre @ rest)"
    using launched(2) assms(4) by auto
  moreover have "Torn_down d k \<notin> set (checks_before p)" for d k
    by (auto simp: checks_before_def checks_of_def split: option.splits list.splits)
  ultimately show ?thesis using assms(5) by auto
next
  case (unprepared s2)
  then show ?thesis using quietD [OF quiet_prepare unprepared(1)] assms(4,5) by simp
qed (use assms(4,5) in simp)

section \<open>The database during a run\<close>

definition on_db :: "(world \<Rightarrow> world \<Rightarrow> bool) \<Rightarrow> 'f site \<Rightarrow> 'f site \<Rightarrow> bool" where
  "on_db R s s' \<longleftrightarrow> R (si_world s) (si_world s')"

lemma on_db_lifts: "steps R m \<Longrightarrow> steps (on_db R) (db m)"
  by (auto simp: steps_def on_db_def db_def split: prod.splits) (metis snd_conv)

sublocale base_relation \<subseteq> site: state_relation "on_db R"
  by unfold_locales (auto simp: on_db_def intro: R_refl R_trans)

context world_relation
begin

lemma site_untouched [steps_intros]: "steps (on_db R) (disk d)" "steps (on_db R) (mark k)" "steps (on_db R) (fail m)"
  by (auto simp: steps_def on_db_def disk_def mark_def fail_def act_simps intro: R_refl split: prod.splits)

lemma site_modify [steps_intros]: "(\<And>s. si_world (f s) = si_world s) \<Longrightarrow> steps (on_db R) (modify f)"
  by (rule site.steps_modify) (simp add: on_db_def R_refl)

lemma site_caught [steps_intros]: "steps (on_db R) m \<Longrightarrow> steps (on_db R) (tried m)" "steps (on_db R) n \<Longrightarrow> steps (on_db R) (logged n)"
  unfolding tried_def logged_def by (intro steps_intros; assumption)+

lemma site_calls [steps_intros]: "steps (on_db R) (signal M)" "steps (on_db R) (signal_throw M)" "steps (on_db R) (system_call f)"
  unfolding signal_throw_def signal_def system_call_def by (intro steps_intros)+

lemma steps_repositories [steps_intros]: "steps R (run_repositories i ticket b ds ys l bh)"
  unfolding run_repositories_def record_scoping_event_def Let_def
  by (intro steps_intros) (auto intro: steps_intros split: sum.split narrow_result.split)

lemma site_load: "steps (on_db R) (load_run_config P T x)"
  unfolding load_run_config_def resolve_setup_profile_def ensure_setup_executor_def resolve_run_user_env_def mounted_repositories_def
    resolve_auth_def open_api_key_def Let_def
  by (intro steps_intros on_db_lifts; simp)

lemma steps_conflict [steps_intros]: "steps R (conflict_task x c inh e)"
  by (induction x c inh e rule: conflict_task.induct) (auto intro: steps_intros split: option.split)

lemma site_prepare: "steps (on_db R) (prepare_workspace M P x c)"
  unfolding prepare_workspace_def prepare_failed_def resolve_origins_def checkout_def
  by (intro steps_intros on_db_lifts; simp)

lemma site_launch:
  assumes "\<And>f w. R w (mn_meanwhile M f w)"
  shows "steps (on_db R) (launch M P x c p)"
proof -
  have drive: "steps (on_db R) (drive_process M P x c dir mcp)" for dir mcp
    unfolding drive_process_def Let_def
    by (intro steps_intros site.steps_modify) (simp add: on_db_def assms)
  show ?thesis
    unfolding launch_def launch_failed_def finish_run_def cleanup_workspace_def equip_def bootstrap_workspace_def guard_repo_def
      run_bootstrap_def bootstrap_event_def install_mcp_def remove_mcp_def write_prompt_def Let_def
    by (intro steps_intros on_db_lifts drive)
qed

lemma site_run:
  assumes "\<And>f w. R w (mn_meanwhile M f w)"
  shows "steps (on_db R) (execute_run M P T x)"
  unfolding execute_run_def by (intro steps_intros site_load site_prepare site_launch assms)

end

text \<open>If everything that happens in the database while the agent lives keeps it well-formed, so does the run.\<close>

lemma executor_keeps_the_database:
  assumes "\<forall>f w. keeps_ok w (mn_meanwhile M f w)" and "world_ok (si_world s)"
    and "execute_run M P T x s = (r, s')"
  shows "world_ok (si_world s')"
proof -
  have "on_db keeps_ok s s'" by (rule steps_run [OF wf.site_run assms(3)]) (simp add: assms(1))
  then show ?thesis using assms(2) by (simp add: on_db_def keeps_ok_def)
qed

section \<open>An abort is not a crash\<close>

lemma db_keeps_disk: "db m s = (r, s') \<Longrightarrow> abort_of M s' = abort_of M s"
  by (auto simp: db_def abort_of_def split: prod.splits)

text \<open>The outcome of a run that did not get to its agent, by what the abort signal says.\<close>

definition exit_by_abort :: "string option \<Rightarrow> exit_status" where
  "exit_by_abort reason = (case reason of None \<Rightarrow> Ex_crashed
     | Some m \<Rightarrow> if m = ''cancelled'' then Ex_cancelled else Ex_timeout)"

lemma exits [simp]:
  "er_exit (aborted_during_prepare m) = exit_by_abort (Some m)" "er_exit (plain_result Ex_crashed d) = exit_by_abort None"
  by (simp_all add: aborted_during_prepare_def plain_result_def exit_by_abort_def)

lemma exit_by_abort_crash [simp]: "exit_by_abort reason = Ex_crashed \<longleftrightarrow> reason = None"
  by (auto simp: exit_by_abort_def split: option.splits)

lemma prepare_failed_abort:
  assumes "prepare_failed M x c inh e s = (Inr r, s')"
  shows "er_exit r = exit_by_abort (abort_of M s')"
proof -
  from assms obtain reason s1 where sg: "signal M s = (Inr reason, s1)" and next': "(case reason of
     Some m \<Rightarrow> ret (aborted_during_prepare m)
   | None \<Rightarrow> andthen (db (conflict_task x c inh e)) (ret (plain_result Ex_crashed (run_message e)))) s1 = (Inr r, s')"
    unfolding prepare_failed_def by (rule bnd_InrE)
  show ?thesis
  proof (cases reason)
    case None
    with next' obtain s2 u where "db (conflict_task x c inh e) s1 = (Inr u, s2)" and "s2 = s'" and "r = plain_result Ex_crashed (run_message e)"
      by (auto elim!: andthen_InrE simp: ret_app)
    moreover from this have "abort_of M s' = abort_of M s1" using db_keeps_disk by blast
    ultimately show ?thesis using signal_reads [OF sg, symmetric] None by simp
  next
    case (Some m)
    then show ?thesis using next' signal_reads [OF sg] by (auto simp: ret_app)
  qed
qed

lemma unprepared_abort:
  assumes "prepare_workspace M P x c s = (Inr (Inl r), s')"
    and "\<not> lc_no_repo c" and "rx_ticket x \<noteq> None \<or> lc_setup c"
  shows "er_exit r = exit_by_abort (abort_of M s')"
proof -
  have "\<exists>inh e s1. prepare_failed M x c inh e s1 = (Inr r, s')"
    using assms unfolding prepare_workspace_def
    by (auto simp: bnd_app andthen_app ret_app modify_app tried_app split: prod.splits sum.splits) blast+
  then show ?thesis using prepare_failed_abort by blast
qed

lemma launch_failed_abort:
  assumes "launch_failed M c p mcp e s = (Inr r, s')"
  shows "er_exit r = exit_by_abort (abort_of M s')"
proof -
  from assms obtain s2 where "bnd (signal M) (\<lambda>reason. ret (case reason of
        Some m \<Rightarrow> aborted_during_prepare m | None \<Rightarrow> plain_result Ex_crashed (run_message e))) s2 = (Inr r, s')"
    unfolding launch_failed_def by (auto elim!: andthen_InrE)
  then obtain reason where "signal M s2 = (Inr reason, s')"
    and "r = (case reason of Some m \<Rightarrow> aborted_during_prepare m | None \<Rightarrow> plain_result Ex_crashed (run_message e))"
    by (auto elim!: bnd_InrE simp: ret_app)
  then show ?thesis using signal_reads [of M s2 reason s'] by (cases reason) auto
qed

text \<open>
  C31. An abort never burns an attempt: a run with repositories that did not get to its agent reports the
  abort's own outcome when the abort has fired - cancelled when the reason is the cancellation, timed out for
  any other - and a crash only when it has not, however the preparation failed and whenever the abort came.
  The hypothesis on the signal is what an AbortSignal guarantees: once aborted it stays so, with its reason.
\<close>

theorem abort_never_burns_an_attempt:
  assumes "load_run_config P T x s = (Inr c, s1)" and "execute_run M P T x s = (Inr (Some r), s')"
    and "\<not> lc_no_repo c" and "rx_ticket x \<noteq> None \<or> lc_setup c"
    and "si_trace s' = si_trace s @ new" and "Spawned \<notin> set new"
    and "abort_sticky (mn_host M)"
  shows "er_exit r = (case ho_aborted (mn_host M) (dk_fs (si_disk s')) of None \<Rightarrow> Ex_crashed
    | Some m \<Rightarrow> if m = ''cancelled'' then Ex_cancelled else Ex_timeout)"
proof -
  from assms(1,2) have "er_exit r = exit_by_abort (abort_of M s')"
  proof (cases rule: execute_cases)
    case (aborted m)
    then show ?thesis using signal_reads [OF aborted(3)] by simp
  next
    case (unprepared s2)
    then show ?thesis using unprepared_abort assms(3,4) by blast
  next
    case (launched s2 p s3)
    from launched(3) show ?thesis
    proof (cases rule: launch_cases)
      case (failed mcp e s1 pre rest)
      then show ?thesis using launch_failed_abort by blast
    next
      case (aborted m s2)
      have "abort_of M s' = Some m" by (rule sticky_teardown [OF assms(7) aborted(3) aborted(5) [OF assms(7)]])
      then show ?thesis using aborted(1) by simp
    next
      case (settled mcp s1 s2)
      then have "Spawned \<in> set new"
        using drive_trace [OF settled(1)] finish_trace [OF settled(2)] launched(2) assms(5) by auto
      then show ?thesis using assms(6) by blast
    qed
  qed
  then show ?thesis by (simp add: abort_of_def exit_by_abort_def)
qed

text \<open>
  When the launch has failed and removing the MCP configuration fails too, the run throws and the prepared
  workspace is never torn down: the other two places that remove the configuration guard against this.
\<close>

theorem failed_removal_leaks_workspace:
  assumes "ho_rm (mn_host M) (mc_config_path m) (dk_fs (si_disk s)) = (Inl err, f)"
  shows "\<exists>s'. launch_failed M c p (Some m) e s = (Inl (Disk_error (Other_error err)), s') \<and> si_trace s' = si_trace s"
  using assms by (simp add: launch_failed_def remove_mcp_def disk_def rm_def act_simps)

section \<open>The theorems on a concrete run\<close>

definition demo_machine :: "'f host \<Rightarrow> 'f machine" where
  "demo_machine h = \<lparr>mn_host = h, mn_tick = (\<lambda>f. f),
     mn_bootstrap = (\<lambda>i f. (Inr \<lparr>bo_exit = Some 0, bo_duration = 5, bo_stdout = [], bo_stderr = [], bo_timed_out = False\<rparr>, f)),
     mn_mkdtemp = (\<lambda>p f. (Inr p, f)), mn_write = (\<lambda>p t f. (Inr (), f)), mn_chmod = (\<lambda>p k f. (Inr (), f)),
     mn_process = (\<lambda>i f. ([Line 1 result_line, Close (Some 0)], f)), mn_meanwhile = (\<lambda>f w. w)\<rparr>"

definition demo_platform :: platform where
  "demo_platform = \<lparr>pf_env = (\<lambda>k. None), pf_home = ''/h'', pf_tmp = ''/t'', pf_mcp_entry = ''/m/main.js'', pf_mcp_root = ''/r'',
     pf_preset = \<lparr>pp_type = ''claude_cli'', pp_base_url = None\<rparr>, pf_uid = show_nat, pf_run_named = (\<lambda>s. None),
     pf_open_key = (\<lambda>b. Inr None), pf_open_env = (\<lambda>b. Inl (True, b)), pf_jira = sample_env, pf_feature = (\<lambda>k. Inl unique_violation), pf_newest = (\<lambda>rs. rs),
     pf_by_locale = (\<lambda>ps. ps), pf_schema_text = ''{}'', pf_schema_message = (\<lambda>j. ''invalid''), pf_yaml = [], pf_yaml_loaded = False\<rparr>"

definition demo_profile :: "bool \<Rightarrow> executor_profile" where
  "demo_profile keep = setup_executor_values\<lparr>ep_config := (ep_config setup_executor_values)\<lparr>ci_keep_failed := keep\<rparr>\<rparr>"

definition demo_tables :: "bool \<Rightarrow> run_tables" where
  "demo_tables keep = \<lparr>tb_row = Some \<lparr>rr_executor = demo_profile keep,
       rr_behavior = \<lparr>bh_json = JObj [], bh_allowed_tools = None, bh_workspace_mode = None, bh_env = None\<rparr>,
       rr_agent = ''a'', rr_workspace = 1, rr_ticket = None, rr_trigger = JObj []\<rparr>,
     tb_workspace = \<lparr>wk_repositories = [\<lparr>db_name = ''app'', db_git_url = ''u'', db_default_branch = ''main'', db_bootstrap_command = Some ''make''\<rparr>],
       wk_mounts = [], wk_scoping = False, wk_env = None, wk_secrets = None\<rparr>,
     tb_template = \<lparr>tm_executor = ''x'', tm_behavior = \<lparr>bh_json = JObj [], bh_allowed_tools = None, bh_workspace_mode = None, bh_env = None\<rparr>\<rparr>\<rparr>"

definition demo_context :: run_context where
  "demo_context = \<lparr>rx_run = 7, rx_ticket = Some (''K-1'', ''s'', [], None), rx_instruction = ''i'', rx_callback_url = ''u'',
     rx_token = ''t'', rx_max_budget = None, rx_max_turns = None\<rparr>"

definition demo_site :: "unit site" where
  "demo_site = \<lparr>si_world = sample_world [], si_disk = \<lparr>dk_fs = (), dk_log = [], dk_removed = []\<rparr>, si_path = None, si_profiles = [], si_stream = [], si_trace = []\<rparr>"

definition no_git :: "unit host" where
  "no_git = demo_host\<lparr>ho_git := (\<lambda>args cwd f. (Inl ''no route to host'', f))\<rparr>"

lemma demo_config:
  "case load_run_config demo_platform (demo_tables keep) demo_context demo_site of
     (Inr c, s) \<Rightarrow> rc_callback (lc_runtime c) \<and> rc_keep_failed (lc_runtime c) = keep \<and> \<not> lc_no_repo c \<and> map checks_of (lc_repos c) = [[Bootstrapped ''app'', Guarded ''app'']]
   | _ \<Rightarrow> False"
  by (induction keep) code_simp+

lemma demo_git [simp]: "ho_git demo_host a b f = (Inr ''abc'', f)" "ho_mkdir demo_host p f = (Inr (), f)" "ho_rm demo_host p f = (Inr (), f)"
  "ho_aborted demo_host f = None"
  by (simp_all add: demo_host_def)

lemma demo_machine_simps [simp]: "mn_host (demo_machine h) = h" "mn_tick (demo_machine h) f = f" "mn_write (demo_machine h) q t f = (Inr (), f)"
  "mn_chmod (demo_machine h) q k f = (Inr (), f)" "mn_process (demo_machine h) i f = ([Line 1 result_line, Close (Some 0)], f)"
  "mn_bootstrap (demo_machine h) b f = (Inr \<lparr>bo_exit = Some 0, bo_duration = 5, bo_stdout = [], bo_stderr = [], bo_timed_out = False\<rparr>, f)"
  by (simp_all add: demo_machine_def)

lemma demo_signal: "signal (demo_machine demo_host) s = (Inr None, s)"
  by (simp add: signal_def disk_def Let_def)

lemma demo_guard: "\<exists>s'. guard_repo (demo_machine demo_host) P x c p s = (Inr (), s')"
  by (cases "command_of p") (simp_all add: guard_repo_def run_bootstrap_def Let_def signal_throw_def demo_signal act_simps system_call_def disk_def logged_app
      bootstrap_event_def mark_def dirty_guard_def status_porcelain_def revert_tracked_def git_exec_def split: prod.split)

lemma demo_equip: "\<exists>m s'. equip (demo_machine demo_host) P x c p s = (Inr m, s')"
proof -
  have "\<exists>s'. for_each ps (guard_repo (demo_machine demo_host) P x c) s = (Inr (), s')" for ps
  proof (induction ps arbitrary: s)
    case (Cons p ps)
    obtain s1 where "guard_repo (demo_machine demo_host) P x c p s = (Inr (), s1)" using demo_guard by blast
    then show ?case using Cons [of s1] by (simp add: act_simps)
  qed (simp add: act_simps)
  then obtain s1 where "(case wp_repos p of None \<Rightarrow> ret () | Some ps \<Rightarrow> bootstrap_workspace (demo_machine demo_host) P x c ps) s = (Inr (), s1)"
    by (cases "wp_repos p") (auto simp: bootstrap_workspace_def act_simps)
  then show ?thesis by (simp add: equip_def andthen_app install_mcp_def Let_def act_simps disk_def mkdir_def system_call_def)
qed

lemma demo_prompt: "\<exists>s'. write_prompt (demo_machine demo_host) P x c p s = (Inr (), s')"
  by (simp add: write_prompt_def act_simps disk_def mkdir_def system_call_def)

lemma demo_finish: "\<exists>s'. finish_run (demo_machine demo_host) c p mcp res s = (Inr res, s')"
  by (simp add: finish_run_def logged_app act_simps cleanup_workspace_def mark_def)

lemma demo_settles:
  "case load_run_config demo_platform (demo_tables keep) demo_context demo_site of
     (Inr c, s) \<Rightarrow> map_option er_exit (pr_settled (run_process (proc_config_of demo_platform demo_context c) [Line 1 result_line, Close (Some 0)])) = Some Ex_completed
   | _ \<Rightarrow> False"
  by (induction keep) code_simp+

lemma demo_prepared:
  "case load_run_config demo_platform (demo_tables keep) demo_context demo_site of
     (Inr c, s) \<Rightarrow> (case prepare_workspace (demo_machine demo_host) demo_platform demo_context c s of (Inr (Inr p), s') \<Rightarrow> True | _ \<Rightarrow> False)
   | _ \<Rightarrow> False"
  by (induction keep) code_simp+

lemma demo_execution:
  obtains c s1 r s' where "load_run_config demo_platform (demo_tables keep) demo_context demo_site = (Inr c, s1)"
    and "execute_run (demo_machine demo_host) demo_platform (demo_tables keep) demo_context demo_site = (Inr (Some r), s')"
    and "er_exit r = Ex_completed" and "rc_callback (lc_runtime c)" and "rc_keep_failed (lc_runtime c) = keep"
    and "(if lc_no_repo c then [] else concat (map checks_of (lc_repos c))) = [Bootstrapped ''app'', Guarded ''app'']"
proof -
  let ?M = "demo_machine demo_host"
  obtain c s1 where c: "load_run_config demo_platform (demo_tables keep) demo_context demo_site = (Inr c, s1)"
    using demo_config [of keep] by (auto split: prod.splits sum.splits)
  obtain p s2 where p: "prepare_workspace ?M demo_platform demo_context c s1 = (Inr (Inr p), s2)"
    using demo_prepared [of keep] c by (auto split: prod.splits sum.splits)
  obtain m s3 where m: "equip ?M demo_platform demo_context c p s2 = (Inr m, s3)" using demo_equip by blast
  obtain s4 where w: "write_prompt ?M demo_platform demo_context c p s3 = (Inr (), s4)" using demo_prompt by blast
  obtain r where r: "pr_settled (run_process (proc_config_of demo_platform demo_context c) [Line 1 result_line, Close (Some 0)]) = Some r"
      and "er_exit r = Ex_completed"
    using demo_settles [of keep] c by auto
  obtain s5 where d: "drive_process ?M demo_platform demo_context c (wp_dir p) m s4 = (Inr (Some r), s5)"
    using r by (simp add: drive_process_def mark_def act_simps system_call_def disk_def Let_def)
  obtain s6 where f: "finish_run ?M c p m r s5 = (Inr r, s6)" using demo_finish by blast
  have "execute_run ?M demo_platform (demo_tables keep) demo_context demo_site = (Inr (Some r), s6)"
    by (simp add: execute_run_def launch_def bnd_app tried_app ret_app c p m w d f demo_signal)
  then show thesis using that [OF c _ \<open>er_exit r = Ex_completed\<close>] demo_config [of keep] c by simp
qed


theorem callback_keeps_every_workspace_witness:
  "\<exists>r s' dir. execute_run (demo_machine demo_host) demo_platform (demo_tables True) demo_context demo_site = (Inr (Some r), s') \<and>
     er_exit r = Ex_completed \<and> Torn_down dir True \<in> set (si_trace s')"
proof -
  obtain c s1 r s' where run: "load_run_config demo_platform (demo_tables True) demo_context demo_site = (Inr c, s1)"
    "execute_run (demo_machine demo_host) demo_platform (demo_tables True) demo_context demo_site = (Inr (Some r), s')"
    "er_exit r = Ex_completed" "rc_callback (lc_runtime c)" "rc_keep_failed (lc_runtime c)"
    using demo_execution [of True] by metis
  have start: "si_trace demo_site = []" by (simp add: demo_site_def)
  then obtain dir keep where down: "Torn_down dir keep \<in> set (si_trace s')" using execution_trace [OF run(1,2)] run(3) by fastforce
  have "keep = rc_keep_failed (lc_runtime c)"
    by (rule callback_keeps_every_workspace [OF run(1,2,4) _ down]) (simp add: start)
  then show ?thesis using run down by auto
qed

lemma no_git_prepare:
  "case load_run_config demo_platform (demo_tables True) demo_context demo_site of
     (Inr c, s) \<Rightarrow> (case prepare_workspace (demo_machine no_git) demo_platform demo_context c s of (Inr (Inl r), s') \<Rightarrow> er_exit r = Ex_crashed | _ \<Rightarrow> False)
   | _ \<Rightarrow> False"
  by code_simp

text \<open>A machine on which git fails and the run is cancelled while the preparation runs.\<close>

definition late_abort :: "nat host" where
  "late_abort = \<lparr>ho_git = (\<lambda>args cwd f. (Inl ''no route to host'', f)), ho_exists = (\<lambda>q f. True), ho_mkdir = (\<lambda>q f. (Inr (), f)),
     ho_rm = (\<lambda>q f. (Inr (), f)), ho_aborted = (\<lambda>f. if f < 2 then None else Some ''cancelled'')\<rparr>"

definition ticking :: "nat machine" where
  "ticking = (demo_machine late_abort)\<lparr>mn_tick := Suc\<rparr>"

definition ticking_site :: "nat site" where
  "ticking_site = \<lparr>si_world = sample_world [], si_disk = \<lparr>dk_fs = 0, dk_log = [], dk_removed = []\<rparr>, si_path = None, si_profiles = [],
     si_stream = [], si_trace = []\<rparr>"

lemma ticking_config:
  "case load_run_config demo_platform (demo_tables True) demo_context ticking_site of (Inr c, s) \<Rightarrow> \<not> lc_no_repo c | _ \<Rightarrow> False"
  by code_simp

lemma ticking_run:
  "case execute_run ticking demo_platform (demo_tables True) demo_context ticking_site of
     (Inr (Some r), s) \<Rightarrow> ho_aborted late_abort (dk_fs (si_disk s)) = Some ''cancelled'' \<and> si_trace s = [] | _ \<Rightarrow> False"
  by code_simp

theorem abort_never_burns_an_attempt_witness:
  "(\<exists>r s'. execute_run (demo_machine no_git) demo_platform (demo_tables True) demo_context demo_site = (Inr (Some r), s') \<and>
     er_exit r = Ex_crashed) \<and>
   (\<exists>r s'. execute_run ticking demo_platform (demo_tables True) demo_context ticking_site = (Inr (Some r), s') \<and>
     er_exit r = Ex_cancelled)"
proof
  obtain c s1 where c: "load_run_config demo_platform (demo_tables True) demo_context demo_site = (Inr c, s1)" and repo: "\<not> lc_no_repo c"
    using demo_config [of True] by (auto split: prod.splits sum.splits)
  obtain r s2 where p: "prepare_workspace (demo_machine no_git) demo_platform demo_context c s1 = (Inr (Inl r), s2)"
    using no_git_prepare c by (auto split: prod.splits sum.splits)
  have "signal (demo_machine no_git) s1 = (Inr None, s1)" by (simp add: signal_def disk_def Let_def no_git_def)
  then have run: "execute_run (demo_machine no_git) demo_platform (demo_tables True) demo_context demo_site = (Inr (Some r), s2)"
    by (simp add: execute_run_def bnd_app ret_app c p)
  have "si_trace s2 = si_trace s1" "si_trace s1 = si_trace demo_site" using quietD [OF quiet_prepare p] quietD [OF quiet_load c] by simp_all
  then have still: "si_trace s2 = si_trace demo_site @ []" by simp
  have "abort_sticky (mn_host (demo_machine no_git))" by (simp add: abort_sticky_def no_git_def)
  from abort_never_burns_an_attempt [OF c run repo _ still _ this] run
  show "\<exists>r s'. execute_run (demo_machine no_git) demo_platform (demo_tables True) demo_context demo_site = (Inr (Some r), s') \<and>
      er_exit r = Ex_crashed"
    by (simp add: demo_context_def no_git_def)
next
  obtain c s1 where c: "load_run_config demo_platform (demo_tables True) demo_context ticking_site = (Inr c, s1)" and repo: "\<not> lc_no_repo c"
    using ticking_config by (auto split: prod.splits sum.splits)
  obtain r s' where run: "execute_run ticking demo_platform (demo_tables True) demo_context ticking_site = (Inr (Some r), s')"
    and ab: "ho_aborted late_abort (dk_fs (si_disk s')) = Some ''cancelled''" and tr: "si_trace s' = []"
    using ticking_run by (auto split: prod.splits sum.splits option.splits)
  have host: "mn_host ticking = late_abort" by (simp add: ticking_def)
  have "abort_sticky (mn_host ticking)" by (auto simp: host abort_sticky_def late_abort_def)
  moreover have "si_trace s' = si_trace ticking_site @ []" by (simp add: tr ticking_site_def)
  ultimately show "\<exists>r s'. execute_run ticking demo_platform (demo_tables True) demo_context ticking_site = (Inr (Some r), s') \<and>
      er_exit r = Ex_cancelled"
    using abort_never_burns_an_attempt [OF c run repo _ _ _] run ab by (simp add: demo_context_def host)
qed

end
