(* ===== verification/HomeApi.thy ===== *)
theory HomeApi
  imports RunsApi
begin

text \<open>
  The read side of the dashboard beyond the runs: the queue of human tasks
  (\<open>human-tasks.controller.ts\<close>), the home summary and workspace cards (\<open>home.controller.ts\<close>), the
  health of the callback channel (\<open>channel-health.service.ts\<close>), and the expiry badge of a credential
  (\<open>dashboard.helpers.ts\<close>). Each answer is a function of the tables.
\<close>

section \<open>The queue of human tasks\<close>

record queue_item =
  qi_id :: id
  qi_kind :: task_kind
  qi_title :: string
  qi_details :: "string option"
  qi_options :: "answer_option list option"
  qi_blocking :: bool
  qi_ticket :: "(string \<times> string) option"
  qi_agent :: "agent_ref option"
  qi_workspace :: "id \<times> string"
  qi_run :: "id option"
  qi_created :: int
  qi_closed :: "(task_status \<times> string option \<times> string option \<times> int option) option"

definition queue_filter :: "bool \<Rightarrow> id option \<Rightarrow> human_task \<Rightarrow> bool" where
  "queue_filter shut ws h \<longleftrightarrow> (if shut then h_status h = Resolved \<or> h_status h = Dismissed else h_status h = Open) \<and>
     opt_all (\<lambda>s. h_workspace h = s) ws"

text \<open>
  \<open>ORDER BY\<close>: closed tasks by \<open>resolved_at DESC\<close> with NULLs first, open ones by \<open>created_at\<close> in the
  asked direction; the id breaks ties in the same direction.
\<close>

definition queue_key :: "bool \<Rightarrow> bool \<Rightarrow> human_task \<Rightarrow> bool \<times> int \<times> int" where
  "queue_key shut oldest h =
     (if shut then (case h_resolved_at h of None \<Rightarrow> (False, 0, - int (h_id h)) | Some t \<Rightarrow> (True, - t, - int (h_id h)))
      else if oldest then (True, h_created h, int (h_id h)) else (True, - h_created h, - int (h_id h)))"

definition task_run :: "world \<Rightarrow> human_task \<Rightarrow> run option" where
  "task_run w h = Option.bind (h_run h) (\<lambda>i. find_run i w)"

definition task_agent :: "world \<Rightarrow> human_task \<Rightarrow> agent option" where
  "task_agent w h = Option.bind (task_run w h) (\<lambda>r. find_agent (r_agent r) w)"

definition queue_item_of :: "bool \<Rightarrow> world \<Rightarrow> human_task \<Rightarrow> queue_item option" where
  "queue_item_of shut w h = map_option (\<lambda>s. \<lparr>qi_id = h_id h, qi_kind = h_kind h, qi_title = h_title h,
     qi_details = h_details h, qi_options = h_options h, qi_blocking = h_blocking h,
     qi_ticket = map_option (\<lambda>t. (t_jira_key t, deep_link (s_site_url s) (t_jira_key t))) (Option.bind (h_ticket h) (\<lambda>i. find_ticket i w)),
     qi_agent = (case task_agent w h of Some a \<Rightarrow> if a_name a = [] then None else Some (agent_ref_of a) | None \<Rightarrow> None),
     qi_workspace = (s_id s, s_name s), qi_run = h_run h, qi_created = h_created h,
     qi_closed = (if shut then Some (h_status h, h_resolution h, h_resolved_by h, h_resolved_at h) else None)\<rparr>)
     (find_workspace (h_workspace h) w)"

text \<open>\<open>?status=closed\<close>, \<open>?workspace=\<close>, \<open>?order=oldest\<close>; anything else is the default.\<close>

definition list_tasks :: "(human_task list \<Rightarrow> human_task list) \<Rightarrow> world \<Rightarrow> string option \<Rightarrow> id option \<Rightarrow> string option \<Rightarrow> string option \<Rightarrow>
    queue_item page_result" where
  "list_tasks db_order w status ws page sz =
     (let shut = status = Some ''closed''; pg = parse_pagination page sz;
          rows = filter (queue_filter shut ws) (w_tasks w)
      in \<lparr>pp_items = window pg (List.map_filter (queue_item_of shut w) (db_order rows)),
          pp_page = pg_page pg, pp_size = pg_size pg, pp_total = length rows\<rparr>)"

definition queue_order :: "string option \<Rightarrow> string option \<Rightarrow> (human_task list \<Rightarrow> human_task list) \<Rightarrow> bool" where
  "queue_order status order db_order \<longleftrightarrow> (\<forall>hs. mset (db_order hs) = mset hs \<and>
     sorted (map (queue_key (status = Some ''closed'') (order = Some ''oldest'')) (db_order hs)))"

definition count_open :: "world \<Rightarrow> nat" where
  "count_open w = length (filter (\<lambda>h. h_status h = Open) (w_tasks w))"

section \<open>The home page\<close>

record home_summary =
  hm_running :: nat
  hm_queued :: nat
  hm_failed_24h :: nat
  hm_timed_out_24h :: nat
  hm_human_open :: nat
  hm_spend :: "(string \<times> rat \<times> nat) list"

definition count_runs :: "(run \<Rightarrow> bool) \<Rightarrow> world \<Rightarrow> nat" where
  "count_runs P w = length (filter P (w_runs w))"

definition spend_of :: "world \<Rightarrow> int \<Rightarrow> rat \<times> nat" where
  "spend_of w hours = (sum_cost (filter (created_within w hours) (w_runs w)), count_runs (created_within w hours) w)"

definition summary :: "world \<Rightarrow> home_summary" where
  "summary w =
     \<lparr>hm_running = count_runs (\<lambda>r. r_status r = Running) w, hm_queued = count_runs (\<lambda>r. r_status r = Queued) w,
      hm_failed_24h = count_runs (\<lambda>r. r_status r = Failed \<and> finished_within w 24 r) w,
      hm_timed_out_24h = count_runs (\<lambda>r. r_status r = Timed_out \<and> finished_within w 24 r) w,
      hm_human_open = count_open w,
      hm_spend = [(''24h'', spend_of w 24), (''7d'', spend_of w (24 * 7)), (''30d'', spend_of w (24 * 30))]\<rparr>"

record home_workspace =
  hw_id :: id
  hw_name :: string
  hw_project_key :: string
  hw_board_type :: "board_type option"
  hw_enabled :: bool
  hw_agents :: nat
  hw_last_run :: "run option"
  hw_attention :: nat

text \<open>\<open>DISTINCT ON (workspace_id) \<dots> ORDER BY workspace_id, created_at DESC, id DESC\<close>.\<close>

definition last_run_of :: "world \<Rightarrow> id \<Rightarrow> run option" where
  "last_run_of w ws = (case sort_key (\<lambda>r. (- r_created r, - int (r_id r))) (filter (\<lambda>r. r_workspace r = ws) (w_runs w)) of
     [] \<Rightarrow> None | r # _ \<Rightarrow> Some r)"

definition needs_attention :: "world \<Rightarrow> run \<Rightarrow> bool" where
  "needs_attention w r \<longleftrightarrow> (r_status r = Failed \<or> r_status r = Timed_out) \<and> finished_within w 24 r"

definition home_workspaces :: "world \<Rightarrow> home_workspace list" where
  "home_workspaces w = map (\<lambda>s. \<lparr>hw_id = s_id s, hw_name = s_name s, hw_project_key = s_project_key s,
     hw_board_type = s_board_type s, hw_enabled = (st_enabled (s_settings s) \<noteq> Some False),
     hw_agents = length (filter (\<lambda>a. a_workspace a = s_id s) (w_agents w)), hw_last_run = last_run_of w (s_id s),
     hw_attention = count_runs (\<lambda>r. needs_attention w r \<and> r_workspace r = s_id s) w\<rparr>) (w_workspaces w)"

section \<open>The health of the callback channel\<close>

definition DEFAULT_WINDOW_MS :: int where
  "DEFAULT_WINDOW_MS = 15 * 60000"

definition DEFAULT_FAILURE_THRESHOLD :: int where
  "DEFAULT_FAILURE_THRESHOLD = 3"

definition CHANNEL_HEALTH_AFFECTED_RUNS_CAP :: nat where
  "CHANNEL_HEALTH_AFFECTED_RUNS_CAP = 20"

text \<open>\<open>readPositiveInt\<close>: whatever number the variable holds, when it is positive - not only an integer.\<close>

definition read_positive :: "string option \<Rightarrow> int \<Rightarrow> rat" where
  "read_positive raw fallback = (case Option.bind raw js_number of
     Some q \<Rightarrow> if 0 < q then q else of_int fallback | None \<Rightarrow> of_int fallback)"

definition channel_event :: "event_type \<Rightarrow> bool" where
  "channel_event ty \<longleftrightarrow> ty = Ev_channel_failure \<or> ty = Ev_channel_down \<or> ty = Ev_undelivered_report"

record channel_health =
  ch_degraded :: bool
  ch_channel_failures :: nat
  ch_probe_failures :: nat
  ch_last_success :: "int option"
  ch_guard_reason :: "string option"
  ch_affected :: "(id \<times> string option \<times> int) list"

definition max_opt :: "int list \<Rightarrow> int option" where
  "max_opt ts = (case ts of [] \<Rightarrow> None | t # ts \<Rightarrow> Some (fold max ts t))"

definition in_window :: "world \<Rightarrow> rat \<Rightarrow> run_event \<Rightarrow> bool" where
  "in_window w win e \<longleftrightarrow> of_int (w_now w) - win < of_int (e_created e)"

definition affected_runs :: "world \<Rightarrow> rat \<Rightarrow> (id \<times> string option \<times> int) list" where
  "affected_runs w win =
     (let es = filter (\<lambda>e. channel_event (e_type e) \<and> in_window w win e) (w_events w)
      in take CHANNEL_HEALTH_AFFECTED_RUNS_CAP (sort_key (\<lambda>(i, k, t). - t)
        (map (\<lambda>i. (i, Option.bind (find_run i w) (\<lambda>r. map_option t_jira_key (ticket_of w r)),
            the (max_opt (map e_created (filter (\<lambda>e. e_run e = i) es)))))
          (remdups (map e_run es)))))"

definition positive_int :: "rat \<Rightarrow> bool" where
  "positive_int q \<longleftrightarrow> q = of_int \<lfloor>q\<rfloor> \<and> 0 < q \<and> \<lfloor>q\<rfloor> \<le> MAX_SAFE_INTEGER"

text \<open>
  The deployment guard's verdict is an argument: the reason, when it fails. \<open>None\<close> is the exception of
  the schema the answer is parsed with, whose window and threshold are positive integers.
\<close>

definition channel_health_of :: "world \<Rightarrow> string option \<Rightarrow> string option \<Rightarrow> string option \<Rightarrow> channel_health option" where
  "channel_health_of w win_env thr_env guard =
     (let win = read_positive win_env DEFAULT_WINDOW_MS; thr = read_positive thr_env DEFAULT_FAILURE_THRESHOLD;
          n = (\<lambda>ty. length (filter (\<lambda>e. e_type e = ty \<and> in_window w win e) (w_events w)))
      in if \<not> positive_int win \<or> \<not> positive_int thr then None else Some \<lparr>ch_degraded = (1 \<le> n Ev_channel_down \<or> thr \<le> of_nat (n Ev_channel_failure) \<or> guard \<noteq> None),
          ch_channel_failures = n Ev_channel_failure, ch_probe_failures = n Ev_channel_down,
          ch_last_success = max_opt (map e_created (filter (\<lambda>e. e_type e = Ev_progress \<and> jget_str (e_payload e) ''via'' = Some ''callback'') (w_events w))),
          ch_guard_reason = guard, ch_affected = affected_runs w win\<rparr>)"

section \<open>The expiry badge\<close>

datatype credential_status = Cs_ok | Cs_expired | Cs_warn_7 | Cs_warn_30

definition derive_credential_status :: "int option \<Rightarrow> int \<Rightarrow> credential_status" where
  "derive_credential_status expires now = (case expires of None \<Rightarrow> Cs_ok
     | Some t \<Rightarrow> (let left = t - now in
         if left \<le> 0 then Cs_expired else if left \<le> 7 * DAY_MS then Cs_warn_7
         else if left \<le> 30 * DAY_MS then Cs_warn_30 else Cs_ok))"

section \<open>What the figures guarantee\<close>

lemma sort_key_empty: "sort_key f xs = [] \<longleftrightarrow> xs = []"
  by (metis length_sort length_0_conv)

lemma queue_key_inj: "distinct (map h_id hs) \<Longrightarrow> inj_on (queue_key shut oldest) (set hs)"
  by (auto simp: queue_key_def inj_on_def distinct_map split: if_splits option.splits)

text \<open>
  Pages partition the human queue: whatever order Postgres gives ties, the pages of the open or the
  closed queue, each fetched by its own query, show every matching task exactly once in the asked order.
\<close>

theorem queue_pages_partition:
  assumes "distinct (map h_id (w_tasks w))"
    and "\<forall>k<m. queue_order status order (db k)"
    and "\<forall>k<m. parse_pagination (page k) sz = \<lparr>pg_page = int k + 1, pg_size = int n, pg_offset = int k * int n\<rparr>"
  shows "concat (map (\<lambda>k. pp_items (list_tasks (db k) w status ws (page k) sz)) [0..<m]) =
    take (m * n) (List.map_filter (queue_item_of (status = Some ''closed'') w)
      (sort_key (queue_key (status = Some ''closed'') (order = Some ''oldest''))
        (filter (queue_filter (status = Some ''closed'') ws) (w_tasks w))))"
proof -
  let ?rows = "filter (queue_filter (status = Some ''closed'') ws) (w_tasks w)"
  let ?key = "queue_key (status = Some ''closed'') (order = Some ''oldest'')"
  let ?items = "List.map_filter (queue_item_of (status = Some ''closed'') w) (sort_key ?key ?rows)"
  have inj: "inj_on ?key (set ?rows)" using assms(1) by (intro queue_key_inj) (simp add: distinct_map_filter)
  have "db k ?rows = sort_key ?key ?rows" if "k < m" for k
    using assms(2) that by (intro order_unique [OF _ inj]) (auto simp: queue_order_def)
  then have "pp_items (list_tasks (db k) w status ws (page k) sz) = take n (drop (k * n) ?items)" if "k < m" for k
    using assms(3) that by (simp add: list_tasks_def Let_def window_def flip: of_nat_mult)
  then have "map (\<lambda>k. pp_items (list_tasks (db k) w status ws (page k) sz)) [0..<m] = map (\<lambda>k. take n (drop (k * n) ?items)) [0..<m]"
    by (intro map_cong) simp_all
  then show ?thesis using window_concat [of n ?items m] by (simp only:)
qed

lemma sum_split:
  fixes f :: "'a \<Rightarrow> 'b::comm_monoid_add"
  assumes "distinct ks" and "\<forall>r\<in>set rs. k r \<in> set ks"
  shows "sum_list (map (\<lambda>s. sum_list (map f (filter (\<lambda>r. k r = s) rs))) ks) = sum_list (map f rs)"
  using assms(2)
proof (induction rs)
  case (Cons r rs)
  have pick: "sum_list (map (\<lambda>s. if k r = s then x else 0) ks) = x" for x :: 'b
    using assms(1) Cons.prems by (simp add: sum_list_distinct_conv_sum_set)
  have "sum_list (map (\<lambda>s. sum_list (map f (filter (\<lambda>r. k r = s) (r # rs)))) ks) =
      sum_list (map (\<lambda>s. (if k r = s then f r else 0) + sum_list (map f (filter (\<lambda>r. k r = s) rs))) ks)"
    by (rule arg_cong [where f = sum_list]) (rule map_cong, auto)
  then show ?case using Cons by (simp add: sum_list_addf pick)
qed simp

text \<open>
  The figures add up: for every period, the spend and the number of runs the home page shows are the
  sums of what the workspaces' own pages show, and the runs that need attention are those of the cards.
\<close>

theorem home_figures_add_up:
  assumes "distinct (map s_id (w_workspaces w))" and "\<forall>r\<in>set (w_runs w). r_workspace r \<in> s_id ` set (w_workspaces w)"
    and "(p, c, n) \<in> set (hm_spend (summary w))"
  shows "c = sum_list (map (\<lambda>s. fst (runs_cost w (s_id s) (Some p))) (w_workspaces w)) \<and>
    n = sum_list (map (\<lambda>s. snd (runs_cost w (s_id s) (Some p))) (w_workspaces w)) \<and>
    hm_failed_24h (summary w) + hm_timed_out_24h (summary w) = sum_list (map hw_attention (home_workspaces w))"
proof -
  let ?ids = "map s_id (w_workspaces w)"
  have inside: "\<forall>r\<in>set (filter P (w_runs w)). r_workspace r \<in> set ?ids" for P using assms(2) by auto
  have split: "sum_list (map f (filter P (w_runs w))) =
      sum_list (map (\<lambda>s. sum_list (map f (filter (\<lambda>r. r_workspace r = s_id s \<and> P r) (w_runs w)))) (w_workspaces w))"
    for f :: "run \<Rightarrow> 'b::comm_monoid_add" and P
    using sum_split [OF assms(1) inside [of P], of f] by (simp add: o_def conj_commute)
  have cost: "sum_cost (filter P (w_runs w)) =
      sum_list (map (\<lambda>s. sum_cost (filter (\<lambda>r. r_workspace r = s_id s \<and> P r) (w_runs w))) (w_workspaces w))" for P
    unfolding sum_cost_def by (rule split)
  have count: "length (filter P (w_runs w)) =
      sum_list (map (\<lambda>s. length (filter (\<lambda>r. r_workspace r = s_id s \<and> P r) (w_runs w))) (w_workspaces w))" for P
    using split [of "\<lambda>_. 1::nat" P] by (simp add: sum_list_triv)
  from assms(3) obtain h where h: "cost_hours (Some p) = h" "c = sum_cost (filter (created_within w h) (w_runs w))"
      "n = length (filter (created_within w h) (w_runs w))"
    by (auto simp: summary_def spend_of_def count_runs_def cost_hours_def period_hours_def)
  have "hm_failed_24h (summary w) + hm_timed_out_24h (summary w) = length (filter (needs_attention w) (w_runs w))"
  proof -
    have "length (filter (\<lambda>r. r_status r = Failed \<and> finished_within w 24 r) rs) +
        length (filter (\<lambda>r. r_status r = Timed_out \<and> finished_within w 24 r) rs) = length (filter (needs_attention w) rs)" for rs
      by (induction rs) (auto simp: needs_attention_def)
    then show ?thesis by (simp add: summary_def count_runs_def)
  qed
  also have "\<dots> = sum_list (map hw_attention (home_workspaces w))"
    using count [of "needs_attention w"] by (simp add: home_workspaces_def count_runs_def o_def conj_commute)
  finally show ?thesis
    using cost [of "created_within w h"] count [of "created_within w h"] by (simp add: runs_cost_def h Let_def)
qed

text \<open>
  A degraded channel is never silent: when the channel is reported degraded for its events, a run
  that saw the failure is among the affected runs.
\<close>

theorem degraded_names_a_run:
  assumes "channel_health_of w win thr None = Some h" and "ch_degraded h"
  shows "ch_affected h \<noteq> []"
proof -
  let ?win = "read_positive win DEFAULT_WINDOW_MS"
  have thr: "0 < read_positive thr DEFAULT_FAILURE_THRESHOLD"
    by (simp add: read_positive_def DEFAULT_FAILURE_THRESHOLD_def split: option.split)
  have seen: "\<exists>e\<in>set (w_events w). channel_event (e_type e) \<and> in_window w ?win e"
    if "0 < length (filter (\<lambda>e. e_type e = ty \<and> in_window w ?win e) (w_events w))" "channel_event ty" for ty
    using that by (auto simp: filter_empty_conv)
  from assms have "1 \<le> length (filter (\<lambda>e. e_type e = Ev_channel_down \<and> in_window w ?win e) (w_events w)) \<or>
      read_positive thr DEFAULT_FAILURE_THRESHOLD \<le> of_nat (length (filter (\<lambda>e. e_type e = Ev_channel_failure \<and> in_window w ?win e) (w_events w)))"
    by (auto simp: channel_health_of_def Let_def split: if_splits)
  then have "\<exists>e\<in>set (w_events w). channel_event (e_type e) \<and> in_window w ?win e"
  proof
    assume "1 \<le> length (filter (\<lambda>e. e_type e = Ev_channel_down \<and> in_window w ?win e) (w_events w))"
    then have "0 < length (filter (\<lambda>e. e_type e = Ev_channel_down \<and> in_window w ?win e) (w_events w))" by linarith
    then show ?thesis by (rule seen) (simp add: channel_event_def)
  next
    assume "read_positive thr DEFAULT_FAILURE_THRESHOLD \<le> of_nat (length (filter (\<lambda>e. e_type e = Ev_channel_failure \<and> in_window w ?win e) (w_events w)))"
    with thr have "0 < (of_nat (length (filter (\<lambda>e. e_type e = Ev_channel_failure \<and> in_window w ?win e) (w_events w))) :: rat)" by linarith
    then have "0 < length (filter (\<lambda>e. e_type e = Ev_channel_failure \<and> in_window w ?win e) (w_events w))" by linarith
    then show ?thesis by (rule seen) (simp add: channel_event_def)
  qed
  then show ?thesis using assms(1)
    by (auto simp: channel_health_of_def affected_runs_def Let_def filter_empty_conv sort_key_empty CHANNEL_HEALTH_AFFECTED_RUNS_CAP_def
        split: if_splits)
qed

text \<open>
  A fractional setting disables the health check: the reader accepts every positive number, the schema of
  the answer only integers, so the request fails whatever the state of the channel.
\<close>

theorem fractional_setting_breaks_health:
  "channel_health_of w win (Some ''2.5'') guard = None"
proof -
  have "\<not> positive_int (read_positive (Some ''2.5'') DEFAULT_FAILURE_THRESHOLD)" by code_simp
  then show ?thesis by (simp add: channel_health_of_def Let_def)
qed

section \<open>The theorems on the sample world\<close>

definition tasks_world :: world where
  "tasks_world = (sample_world [])\<lparr>w_tasks :=
     [\<lparr>h_id = 5, h_workspace = 1, h_run = None, h_ticket = Some 4, h_kind = Question, h_title = ''Which?'', h_details = None,
       h_options = None, h_blocking = True, h_status = Open, h_resolution = None, h_created = 900, h_resolved_at = None,
       h_resolved_by = None\<rparr>]\<rparr>"

theorem queue_pages_partition_witness:
  "concat (map (\<lambda>k. pp_items (list_tasks (sort_key (queue_key False False)) tasks_world None None
      ([Some ''1'', Some ''2''] ! k) (Some ''1''))) [0..<2]) =
    take (2 * 1) (List.map_filter (queue_item_of (None = Some ''closed'') tasks_world)
      (sort_key (queue_key (None = Some ''closed'') (None = Some ''oldest''))
        (filter (queue_filter (None = Some ''closed'') None) (w_tasks tasks_world))))"
proof (rule queue_pages_partition [where db = "\<lambda>_. sort_key (queue_key False False)" and order = None])
  have "parse_pagination (Some ''1'') (Some ''1'') = \<lparr>pg_page = 1, pg_size = 1, pg_offset = 0\<rparr>"
    "parse_pagination (Some ''2'') (Some ''1'') = \<lparr>pg_page = 2, pg_size = 1, pg_offset = 1\<rparr>" by code_simp+
  then show "\<forall>k<2. parse_pagination ([Some ''1'', Some ''2''] ! k) (Some ''1'') = \<lparr>pg_page = int k + 1, pg_size = int 1, pg_offset = int k * int 1\<rparr>"
    by (auto simp: less_2_cases_iff)
qed (simp_all add: tasks_world_def queue_order_def)

theorem home_figures_add_up_witness:
  "fst (spend_of tied_world 24) = sum_list (map (\<lambda>s. fst (runs_cost tied_world (s_id s) (Some ''24h''))) (w_workspaces tied_world))"
  using home_figures_add_up [of tied_world "''24h''" "fst (spend_of tied_world 24)" "snd (spend_of tied_world 24)"]
  by (simp add: summary_def tied_world_def sample_world_def sample_workspace_def sample_run_def)

definition down_world :: world where
  "down_world = (sample_world [])\<lparr>w_events := [\<lparr>e_run = 7, e_type = Ev_channel_down, e_payload = JNull, e_created = 900\<rparr>]\<rparr>"

lemma down_world_degraded: "map_option ch_degraded (channel_health_of down_world None None None) = Some True"
  by code_simp

theorem degraded_names_a_run_witness:
  "\<exists>h. channel_health_of down_world None None None = Some h \<and> ch_affected h \<noteq> []"
proof -
  obtain h where "channel_health_of down_world None None None = Some h" "ch_degraded h"
    using down_world_degraded by auto
  then show ?thesis using degraded_names_a_run [of down_world None None h] by blast
qed

end
