(* ===== verification/Metrics.thy ===== *)
theory Metrics
  imports HomeApi
begin

text \<open>
  The metrics timelines of the dashboard (\<open>apps/backend/src/dashboard/metrics.controller.ts\<close> and
  \<open>metrics.helpers.ts\<close>): filters, the dense bucket grid, the pivot of grouped rows, and the five
  responses. Times are milliseconds on one clock; numbers and money are exact rationals. A grouped query
  yields one row per group, in an order that only affects the order of series; the order here is that of
  the first member.
\<close>

section \<open>Filters\<close>

datatype granularity = Hourly | Daily

text \<open>\<open>workspaceId\<close> and \<open>matchNothing\<close>: all workspaces, one, or - for a value that is no id - none.\<close>

datatype ws_scope = All_workspaces | One_workspace id | No_workspace

record metrics_filters =
  mf_period :: string
  mf_granularity :: granularity
  mf_hours :: int
  mf_workspace :: ws_scope
  mf_executor :: "string option"

text \<open>\<open>uuid\<close> reads an id from its text, when it is one.\<close>

definition parse_metrics_filters :: "(string \<Rightarrow> id option) \<Rightarrow> string option \<Rightarrow> string option \<Rightarrow> string option \<Rightarrow> metrics_filters" where
  "parse_metrics_filters uuid period ws executor =
     (let p = (case period of Some s \<Rightarrow> if period_hours s = None then ''7d'' else s | None \<Rightarrow> ''7d'')
      in \<lparr>mf_period = p, mf_granularity = (if p = ''24h'' then Hourly else Daily), mf_hours = the (period_hours p),
          mf_workspace = (case given ws of None \<Rightarrow> All_workspaces
             | Some s \<Rightarrow> (case uuid s of Some i \<Rightarrow> One_workspace i | None \<Rightarrow> No_workspace)),
          mf_executor = given executor\<rparr>)"

definition in_scope :: "ws_scope \<Rightarrow> id \<Rightarrow> bool" where
  "in_scope s i = (case s of All_workspaces \<Rightarrow> True | One_workspace j \<Rightarrow> i = j | No_workspace \<Rightarrow> False)"

text \<open>\<open>windowExpr\<close>: a missing anchor is in no window.\<close>

definition anchored :: "world \<Rightarrow> int \<Rightarrow> int option \<Rightarrow> bool" where
  "anchored w hours anchor = (case anchor of None \<Rightarrow> False | Some t \<Rightarrow> w_now w - hours * HOUR_MS \<le> t)"

definition runs_where :: "world \<Rightarrow> metrics_filters \<Rightarrow> bool \<Rightarrow> (run \<Rightarrow> int option) \<Rightarrow> run \<Rightarrow> bool" where
  "runs_where w f with_executor anchor r \<longleftrightarrow> anchored w (mf_hours f) (anchor r) \<and> in_scope (mf_workspace f) (r_workspace r) \<and>
     (with_executor \<longrightarrow> opt_all (\<lambda>x. r_executor_type r = x) (mf_executor f))"

definition tasks_where :: "world \<Rightarrow> metrics_filters \<Rightarrow> (human_task \<Rightarrow> int option) \<Rightarrow> human_task \<Rightarrow> bool" where
  "tasks_where w f anchor h \<longleftrightarrow> anchored w (mf_hours f) (anchor h) \<and> in_scope (mf_workspace f) (h_workspace h)"

section \<open>Buckets\<close>

definition step_ms :: "granularity \<Rightarrow> int" where
  "step_ms g = (case g of Hourly \<Rightarrow> HOUR_MS | Daily \<Rightarrow> DAY_MS)"

definition trunc_utc :: "granularity \<Rightarrow> int \<Rightarrow> int" where
  "trunc_utc g t = t div step_ms g * step_ms g"

definition generate_buckets :: "granularity \<Rightarrow> int \<Rightarrow> int \<Rightarrow> int list" where
  "generate_buckets g hours now =
     (let first = trunc_utc g (now - hours * HOUR_MS); final = trunc_utc g now
      in map (\<lambda>i. first + int i * step_ms g) [0..<nat ((final - first) div step_ms g + 1)])"

section \<open>Series\<close>

record series =
  se_key :: string
  se_label :: "string option"
  se_points :: "rat list"

type_synonym agg_row = "int \<times> string \<times> rat"

text \<open>\<open>indexByMs\<close>: a later bucket of the same instant overrides an earlier one.\<close>

definition index_by_ms :: "int list \<Rightarrow> int \<Rightarrow> nat option" where
  "index_by_ms buckets b = map_of (rev (zip buckets [0..<length buckets])) b"

definition put_point :: "nat \<Rightarrow> string \<Rightarrow> nat \<Rightarrow> rat \<Rightarrow> (string \<times> rat list) list \<Rightarrow> (string \<times> rat list) list" where
  "put_point n key i v S =
     (if key \<in> fst ` set S then map (\<lambda>(k, ps). (k, if k = key then ps[i := v] else ps)) S
      else S @ [(key, (replicate n 0)[i := v])])"

definition pivot_step :: "int list \<Rightarrow> agg_row \<Rightarrow> (string \<times> rat list) list \<Rightarrow> (string \<times> rat list) list" where
  "pivot_step buckets row S = (case row of (b, key, v) \<Rightarrow>
     (case index_by_ms buckets b of None \<Rightarrow> S | Some i \<Rightarrow> put_point (length buckets) key i v S))"

definition pivot_points :: "agg_row list \<Rightarrow> int list \<Rightarrow> string list \<Rightarrow> (string \<times> rat list) list" where
  "pivot_points rows buckets force =
     fold (pivot_step buckets) rows (map (\<lambda>k. (k, replicate (length buckets) 0)) force)"

definition pivot_series :: "agg_row list \<Rightarrow> int list \<Rightarrow> string list \<Rightarrow> (string \<Rightarrow> string option) \<Rightarrow> series list" where
  "pivot_series rows buckets force labels =
     map (\<lambda>(k, ps). \<lparr>se_key = k, se_label = labels k, se_points = ps\<rparr>) (pivot_points rows buckets force)"

definition no_labels :: "string \<Rightarrow> string option" where
  "no_labels k = None"

definition single_series :: "(int \<times> rat option) list \<Rightarrow> int list \<Rightarrow> string \<Rightarrow> series list" where
  "single_series rows buckets key =
     pivot_series (List.map_filter (\<lambda>(b, v). map_option (\<lambda>x. (b, key, x)) v) rows) buckets [key] no_labels"

text \<open>\<open>GROUP BY bucket, key\<close> and \<open>GROUP BY bucket\<close>.\<close>

definition group_rows :: "('a \<Rightarrow> int) \<Rightarrow> ('a \<Rightarrow> string) \<Rightarrow> ('a list \<Rightarrow> rat) \<Rightarrow> 'a list \<Rightarrow> agg_row list" where
  "group_rows bucket key agg xs =
     map (\<lambda>(b, k). (b, k, agg (filter (\<lambda>x. bucket x = b \<and> key x = k) xs))) (remdups (map (\<lambda>x. (bucket x, key x)) xs))"

definition group_single :: "('a \<Rightarrow> int) \<Rightarrow> ('a list \<Rightarrow> rat option) \<Rightarrow> 'a list \<Rightarrow> (int \<times> rat option) list" where
  "group_single bucket agg xs = map (\<lambda>b. (b, agg (filter (\<lambda>x. bucket x = b) xs))) (remdups (map bucket xs))"

definition count_rows :: "'a list \<Rightarrow> rat" where
  "count_rows xs = of_nat (length xs)"

text \<open>\<open>x / nullif(n, 0)\<close>, and \<open>percentile_cont(p)\<close>, which ignores NULLs.\<close>

definition ratio :: "nat \<Rightarrow> nat \<Rightarrow> rat option" where
  "ratio m n = (if n = 0 then None else Some (of_nat m / of_nat n))"

definition percentile_cont :: "rat \<Rightarrow> rat option list \<Rightarrow> rat option" where
  "percentile_cont p xs =
     (let s = sort (List.map_filter id xs) in
      if s = [] then None
      else (let x = p * of_nat (length s - 1); lo = nat \<lfloor>x\<rfloor>; hi = nat \<lceil>x\<rceil>
            in Some (s ! lo + (x - of_nat lo) * (s ! hi - s ! lo))))"

section \<open>The responses\<close>

definition RUN_STATUSES :: "run_status list" where
  "RUN_STATUSES = [Queued, Running, Awaiting_human, Succeeded, Failed, Cancelled, Timed_out, Superseded]"

definition TOKEN_KEYS :: "string list" where
  "TOKEN_KEYS = [''input'', ''output'', ''cache_read'', ''cache_creation'']"

definition UNKNOWN :: string where
  "UNKNOWN = ''__unknown__''"

definition seconds_between :: "int option \<Rightarrow> int option \<Rightarrow> rat option" where
  "seconds_between a b = (case (a, b) of (Some s, Some t) \<Rightarrow> Some (of_int (t - s) / 1000) | _ \<Rightarrow> None)"

definition run_seconds :: "run \<Rightarrow> rat option" where
  "run_seconds r = seconds_between (r_started r) (r_finished r)"

definition created_anchor :: "run \<Rightarrow> int option" where
  "created_anchor r = Some (r_created r)"

record metrics_overview =
  mo_total_cost :: rat
  mo_counts :: "(run_status \<times> nat) list"
  mo_success_rate :: "rat option"
  mo_median_duration :: "rat option"
  mo_open_tasks :: nat

definition overview :: "world \<Rightarrow> metrics_filters \<Rightarrow> metrics_overview" where
  "overview w f =
     (let rs = filter (runs_where w f True created_anchor) (w_runs w);
          n = (\<lambda>s. length (filter (\<lambda>r. r_status r = s) rs));
          decided = n Succeeded + n Failed + n Timed_out + n Cancelled
      in \<lparr>mo_total_cost = sum_cost rs, mo_counts = map (\<lambda>s. (s, n s)) RUN_STATUSES,
          mo_success_rate = ratio (n Succeeded) decided, mo_median_duration = percentile_cont (1 / 2) (map run_seconds rs),
          mo_open_tasks = length (filter (\<lambda>h. h_status h = Open \<and> tasks_where w f (\<lambda>h. Some (h_created h)) h) (w_tasks w))\<rparr>)"

text \<open>A token count of the usage object; a missing member counts nothing.\<close>

definition token_count :: "string \<Rightarrow> run \<Rightarrow> rat" where
  "token_count key r = (case Option.bind (r_usage r) (\<lambda>u. jget u key) of Some (JNum q) \<Rightarrow> q | _ \<Rightarrow> 0)"

definition row_tokens :: "run \<Rightarrow> rat" where
  "row_tokens r = token_count ''input_tokens'' r + token_count ''output_tokens'' r +
     token_count ''cache_read_input_tokens'' r + token_count ''cache_creation_input_tokens'' r"

definition sum_tokens :: "(run \<Rightarrow> rat) \<Rightarrow> run list \<Rightarrow> rat" where
  "sum_tokens t rs = sum_list (map t rs)"

text \<open>The model of a run: that of its first \<open>log\<close> event naming one.\<close>

definition model_of :: "world \<Rightarrow> run \<Rightarrow> string" where
  "model_of w r = (case List.map_filter (\<lambda>e. if e_run e = r_id r \<and> e_type e = Ev_log then jget_str (e_payload e) ''model'' else None) (w_events w)
     of [] \<Rightarrow> UNKNOWN | m # _ \<Rightarrow> m)"

definition role_of :: "world \<Rightarrow> run \<Rightarrow> string" where
  "role_of w r = (case Option.bind (find_agent (r_agent r) w) a_role of Some x \<Rightarrow> x | None \<Rightarrow> UNKNOWN)"

definition with_agent :: "world \<Rightarrow> run list \<Rightarrow> run list" where
  "with_agent w rs = filter (\<lambda>r. find_agent (r_agent r) w \<noteq> None) rs"

record metrics_cost =
  mc_by_executor :: "series list"
  mc_tokens_by_type :: "series list"
  mc_tokens_by_executor :: "series list"
  mc_tokens_by_model :: "series list"
  mc_tokens_by_role :: "series list"
  mc_by_role :: "series list"
  mc_cost_per_run :: "series list"
  mc_tokens_per_run :: "series list"
  mc_top :: "(id \<times> string \<times> rat) list"

definition created_bucket :: "metrics_filters \<Rightarrow> run \<Rightarrow> int" where
  "created_bucket f r = trunc_utc (mf_granularity f) (r_created r)"

definition grid :: "world \<Rightarrow> metrics_filters \<Rightarrow> int list" where
  "grid w f = generate_buckets (mf_granularity f) (mf_hours f) (w_now w)"

text \<open>\<open>sum(cost_usd) / nullif(count(*), 0)\<close>: NULL when every cost is.\<close>

definition cost_per_run :: "run list \<Rightarrow> rat option" where
  "cost_per_run rs = (if rs = [] \<or> list_all (\<lambda>r. r_cost r = None) rs then None else Some (sum_cost rs / count_rows rs))"

definition top_workspaces :: "world \<Rightarrow> metrics_filters \<Rightarrow> run list \<Rightarrow> (id \<times> string \<times> rat) list" where
  "top_workspaces w f rs =
     (case mf_workspace f of One_workspace i \<Rightarrow> []
      | _ \<Rightarrow> take 10 (sort_key (\<lambda>(i, n, c). - c)
          (List.map_filter (\<lambda>i. map_option (\<lambda>s. (i, s_name s, sum_cost (filter (\<lambda>r. r_workspace r = i) rs))) (find_workspace i w))
            (remdups (map r_workspace rs)))))"

definition token_rows :: "metrics_filters \<Rightarrow> run list \<Rightarrow> agg_row list" where
  "token_rows f rs = concat (map (\<lambda>b. let g = filter (\<lambda>r. created_bucket f r = b) rs in
     [(b, ''input'', sum_tokens (token_count ''input_tokens'') g), (b, ''output'', sum_tokens (token_count ''output_tokens'') g),
      (b, ''cache_read'', sum_tokens (token_count ''cache_read_input_tokens'') g),
      (b, ''cache_creation'', sum_tokens (token_count ''cache_creation_input_tokens'') g)]) (remdups (map (created_bucket f) rs)))"

definition cost :: "world \<Rightarrow> metrics_filters \<Rightarrow> metrics_cost" where
  "cost w f =
     (let rs = filter (runs_where w f True created_anchor) (w_runs w); bs = grid w f; bucket = created_bucket f;
          by = (\<lambda>key agg xs. pivot_series (group_rows bucket key agg xs) bs [] no_labels)
      in \<lparr>mc_by_executor = by r_executor_type sum_cost rs,
          mc_tokens_by_type = pivot_series (token_rows f rs) bs TOKEN_KEYS no_labels,
          mc_tokens_by_executor = by r_executor_type (sum_tokens row_tokens) rs,
          mc_tokens_by_model = by (model_of w) (sum_tokens row_tokens) rs,
          mc_tokens_by_role = by (role_of w) (sum_tokens row_tokens) (with_agent w rs),
          mc_by_role = by (role_of w) sum_cost (with_agent w rs),
          mc_cost_per_run = single_series (group_single bucket cost_per_run rs) bs ''cost_per_run'',
          mc_tokens_per_run = single_series (group_single bucket (\<lambda>g. if g = [] then None else Some (sum_tokens row_tokens g / count_rows g)) rs) bs ''tokens_per_run'',
          mc_top = top_workspaces w f rs\<rparr>)"

record metrics_reliability =
  mr_by_status :: "series list"
  mr_success_rate :: "series list"
  mr_duration_median :: "series list"
  mr_duration_p95 :: "series list"
  mr_retry_rate :: "series list"
  mr_failures :: "series list"

definition finished_bucket :: "metrics_filters \<Rightarrow> run \<Rightarrow> int" where
  "finished_bucket f r = (case r_finished r of Some t \<Rightarrow> trunc_utc (mf_granularity f) t | None \<Rightarrow> 0)"

definition decided_status :: "run_status \<Rightarrow> bool" where
  "decided_status s \<longleftrightarrow> s \<in> {Succeeded, Failed, Timed_out, Cancelled}"

definition success_ratio :: "run list \<Rightarrow> rat option" where
  "success_ratio rs = ratio (length (filter (\<lambda>r. r_status r = Succeeded) rs)) (length (filter (\<lambda>r. decided_status (r_status r)) rs))"

definition retry_ratio :: "run list \<Rightarrow> rat option" where
  "retry_ratio rs = ratio (length (filter (\<lambda>r. 1 < r_attempt r) rs)) (length rs)"

definition reliability :: "world \<Rightarrow> metrics_filters \<Rightarrow> metrics_reliability" where
  "reliability w f =
     (let rs = filter (runs_where w f True created_anchor) (w_runs w); fs = filter (runs_where w f True r_finished) (w_runs w);
          bs = grid w f; bucket = created_bucket f;
          durations = (\<lambda>p. group_single (finished_bucket f) (\<lambda>g. percentile_cont p (map run_seconds g)) fs)
      in \<lparr>mr_by_status = pivot_series (group_rows bucket (\<lambda>r. status_name (r_status r)) count_rows rs) bs [] no_labels,
          mr_success_rate = single_series (group_single bucket success_ratio rs) bs ''success_rate'',
          mr_duration_median = single_series (durations (1 / 2)) bs ''duration_median_s'',
          mr_duration_p95 = single_series (durations (95 / 100)) bs ''duration_p95_s'',
          mr_retry_rate = single_series (group_single bucket retry_ratio rs) bs ''retry_rate'',
          mr_failures = pivot_series (group_rows bucket r_executor_type count_rows
             (filter (\<lambda>r. r_status r = Failed \<or> r_status r = Timed_out) rs)) bs [] no_labels\<rparr>)"

record metrics_activity =
  ma_by_source :: "series list"
  ma_by_role :: "series list"
  ma_by_workspace :: "series list"

definition source_of :: "run \<Rightarrow> string" where
  "source_of r = (case trigger_source (r_trigger r) of Some s \<Rightarrow> s | None \<Rightarrow> UNKNOWN)"

text \<open>\<open>idtext\<close> is the text of an id.\<close>

definition activity :: "(id \<Rightarrow> string) \<Rightarrow> world \<Rightarrow> metrics_filters \<Rightarrow> metrics_activity" where
  "activity idtext w f =
     (let rs = filter (runs_where w f True created_anchor) (w_runs w); bs = grid w f; bucket = created_bucket f;
          ws = filter (\<lambda>r. find_workspace (r_workspace r) w \<noteq> None) rs
      in \<lparr>ma_by_source = pivot_series (group_rows bucket source_of count_rows rs) bs [] no_labels,
          ma_by_role = pivot_series (group_rows bucket (role_of w) count_rows (with_agent w rs)) bs [] no_labels,
          ma_by_workspace = pivot_series (group_rows bucket (\<lambda>r. idtext (r_workspace r)) count_rows ws) bs []
            (map_of (map (\<lambda>r. (idtext (r_workspace r), s_name (the (find_workspace (r_workspace r) w)))) ws))\<rparr>)"

record metrics_human =
  mh_latency_median :: "series list"
  mh_latency_p95 :: "series list"
  mh_opened :: "series list"
  mh_closed :: "series list"
  mh_awaiting_share :: "series list"

definition kind_name :: "task_kind \<Rightarrow> string" where
  "kind_name k = (case k of Question \<Rightarrow> ''question'' | Blocker \<Rightarrow> ''blocker'' | Review \<Rightarrow> ''review'')"

definition resolved_bucket :: "metrics_filters \<Rightarrow> human_task \<Rightarrow> int" where
  "resolved_bucket f h = (case h_resolved_at h of Some t \<Rightarrow> trunc_utc (mf_granularity f) t | None \<Rightarrow> 0)"

definition opened_bucket :: "metrics_filters \<Rightarrow> human_task \<Rightarrow> int" where
  "opened_bucket f h = trunc_utc (mf_granularity f) (h_created h)"

definition latency :: "human_task \<Rightarrow> rat option" where
  "latency h = seconds_between (Some (h_created h)) (h_resolved_at h)"

definition awaiting_ratio :: "run list \<Rightarrow> rat option" where
  "awaiting_ratio rs = ratio (length (filter (\<lambda>r. r_status r = Awaiting_human) rs)) (length rs)"

definition human_metrics :: "world \<Rightarrow> metrics_filters \<Rightarrow> metrics_human" where
  "human_metrics w f =
     (let opened = filter (tasks_where w f (\<lambda>h. Some (h_created h))) (w_tasks w);
          shut = filter (tasks_where w f h_resolved_at) (w_tasks w); bs = grid w f;
          waits = (\<lambda>p. group_single (resolved_bucket f) (\<lambda>g. percentile_cont p (map latency g)) shut);
          rs = filter (runs_where w f False created_anchor) (w_runs w)
      in \<lparr>mh_latency_median = single_series (waits (1 / 2)) bs ''latency_median_s'',
          mh_latency_p95 = single_series (waits (95 / 100)) bs ''latency_p95_s'',
          mh_opened = pivot_series (group_rows (opened_bucket f) (\<lambda>h. kind_name (h_kind h)) count_rows opened) bs [] no_labels,
          mh_closed = pivot_series (group_rows (resolved_bucket f) (\<lambda>h. kind_name (h_kind h)) count_rows shut) bs [] no_labels,
          mh_awaiting_share = single_series (group_single (created_bucket f) awaiting_ratio rs) bs ''awaiting_human_share''\<rparr>)"

section \<open>The pivot keeps every group\<close>

definition points_total :: "(string \<times> rat list) list \<Rightarrow> rat" where
  "points_total S = sum_list (map (\<lambda>(k, ps). sum_list ps) S)"

definition series_total :: "series list \<Rightarrow> rat" where
  "series_total ss = sum_list (map (\<lambda>s. sum_list (se_points s)) ss)"

definition cell :: "(string \<times> rat list) list \<Rightarrow> string \<Rightarrow> nat \<Rightarrow> rat" where
  "cell S k i = (case map_of S k of Some ps \<Rightarrow> ps ! i | None \<Rightarrow> 0)"

definition dense :: "nat \<Rightarrow> (string \<times> rat list) list \<Rightarrow> bool" where
  "dense n S \<longleftrightarrow> distinct (map fst S) \<and> (\<forall>(k, ps)\<in>set S. length ps = n)"

lemma sum_list_list_update: "i < length ps \<Longrightarrow> sum_list (ps[i := v]) = sum_list ps + v - ps ! i" for ps :: "rat list"
  by (induction ps arbitrary: i) (auto split: nat.split)

lemma index_by_ms_less: "index_by_ms bs b = Some i \<Longrightarrow> i < length bs"
  unfolding index_by_ms_def by (drule map_of_SomeD) (auto simp: set_zip)

lemma index_by_ms_inj:
  assumes "index_by_ms bs b = Some i" and "index_by_ms bs b' = Some i"
  shows "b = b'"
  using assms unfolding index_by_ms_def by (auto dest!: map_of_SomeD simp: set_zip)

lemma index_by_ms_some: "b \<in> set bs \<Longrightarrow> index_by_ms bs b \<noteq> None"
proof -
  assume "b \<in> set bs"
  then have "b \<in> fst ` set (rev (zip bs [0..<length bs]))" by (simp flip: set_map)
  then show "index_by_ms bs b \<noteq> None" unfolding index_by_ms_def by (simp only: map_of_eq_None_iff not_not)
qed

lemma put_point_dense: "dense n S \<Longrightarrow> dense n (put_point n key i v S)"
  by (auto simp: dense_def put_point_def image_iff o_def case_prod_unfold)

lemma put_point_total:
  assumes "dense n S" and "i < n"
  shows "points_total (put_point n key i v S) = points_total S + v - cell S key i"
proof (cases "key \<in> fst ` set S")
  case False
  then have "map_of S key = None" by (simp add: map_of_eq_None_iff)
  then show ?thesis using False assms(2)
    by (simp add: put_point_def points_total_def cell_def sum_list_list_update sum_list_replicate)
next
  case True
  have "dense n S \<Longrightarrow> key \<in> fst ` set S \<Longrightarrow>
      points_total (map (\<lambda>(k, ps). (k, if k = key then ps[i := v] else ps)) S) = points_total S + v - cell S key i"
  proof (induction S)
    case (Cons x S)
    obtain k ps where x: "x = (k, ps)" by fastforce
    have dense: "dense n S" "length ps = n" "k \<notin> fst ` set S" using Cons.prems(1) by (auto simp: dense_def x)
    show ?case
    proof (cases "k = key")
      case True
      then have "map (\<lambda>(k, ps). (k, if k = key then ps[i := v] else ps)) S = S" using dense(3) by (intro map_idI) (auto simp: image_iff)
      then show ?thesis using True assms(2) dense(2) by (simp add: x points_total_def cell_def sum_list_list_update)
    next
      case False
      then show ?thesis using Cons.IH [OF dense(1)] Cons.prems(2) by (simp add: x points_total_def cell_def)
    qed
  qed simp
  then show ?thesis using True assms(1) by (simp add: put_point_def)
qed

lemma put_point_cell:
  assumes "dense n S" and "i < n" and "(k, j) \<noteq> (key, i)" and "j < n"
  shows "cell (put_point n key i v S) k j = cell S k j"
proof (cases "key \<in> fst ` set S")
  case False
  then have "map_of S key = None" by (simp add: map_of_eq_None_iff)
  then show ?thesis using False assms by (auto simp: put_point_def cell_def map_add_def nth_list_update split: option.split)
next
  case True
  have "map_of (map (\<lambda>(k, ps). (k, if k = key then ps[i := v] else ps)) S) k =
      map_option (\<lambda>ps. if k = key then ps[i := v] else ps) (map_of S k)"
    by (induction S) auto
  then show ?thesis using True assms by (auto simp: put_point_def cell_def nth_list_update split: option.split)
qed

text \<open>Rows of distinct groups inside the grid land in distinct cells, so their values add up.\<close>

lemma pivot_fold_total:
  assumes "distinct (map (\<lambda>(b, k, v). (b, k)) rows)" and "\<forall>(b, k, v)\<in>set rows. b \<in> set bs"
    and "dense (length bs) S" and "\<forall>(b, k, v)\<in>set rows. \<forall>i. index_by_ms bs b = Some i \<longrightarrow> cell S k i = 0"
  shows "points_total (fold (pivot_step bs) rows S) = points_total S + sum_list (map (\<lambda>(b, k, v). v) rows) \<and>
    dense (length bs) (fold (pivot_step bs) rows S)"
  using assms
proof (induction rows arbitrary: S)
  case (Cons row rows)
  obtain b k v where row: "row = (b, k, v)" using prod_cases3 by blast
  obtain i where i: "index_by_ms bs b = Some i" using index_by_ms_some [of b bs] Cons.prems(2) by (auto simp: row)
  let ?S = "put_point (length bs) k i v S"
  have less: "i < length bs" using index_by_ms_less [OF i] .
  have zero: "cell ?S k' j = 0" if "(b', k', v') \<in> set rows" "index_by_ms bs b' = Some j" for b' k' v' j
  proof -
    have "(b', k') \<noteq> (b, k)" using Cons.prems(1) that(1) by (force simp: row)
    then have "(k', j) \<noteq> (k, i)" using index_by_ms_inj [OF that(2)] i by auto
    then have "cell ?S k' j = cell S k' j"
      using put_point_cell [OF Cons.prems(3) less _ index_by_ms_less [OF that(2)]] by blast
    then show ?thesis using Cons.prems(4) that by fastforce
  qed
  have "points_total (fold (pivot_step bs) rows ?S) = points_total ?S + sum_list (map (\<lambda>(b, k, v). v) rows) \<and>
      dense (length bs) (fold (pivot_step bs) rows ?S)"
    by (rule Cons.IH) (use Cons.prems zero put_point_dense in auto)
  moreover have "cell S k i = 0" using Cons.prems(4) i by (auto simp: row)
  ultimately show ?case using put_point_total [OF Cons.prems(3) less] by (simp add: row i pivot_step_def [of bs "(b, k, v)"])
qed simp

lemma series_total_pivot: "series_total (pivot_series rows bs force labels) = points_total (pivot_points rows bs force)"
  by (simp add: series_total_def pivot_series_def points_total_def o_def case_prod_unfold)

lemma pivot_dense:
  "dense (length bs) S \<Longrightarrow> dense (length bs) (fold (pivot_step bs) rows S)"
proof (induction rows arbitrary: S)
  case (Cons row rows)
  have "dense (length bs) (pivot_step bs row S)"
    using Cons.prems by (auto simp: pivot_step_def put_point_dense split: prod.split option.split)
  then show ?case using Cons.IH by simp
qed simp

lemma group_sum:
  fixes agg :: "'a list \<Rightarrow> rat"
  assumes "\<And>xs. agg xs = sum_list (map val xs)"
  shows "sum_list (map (\<lambda>(b, k, v). v) (group_rows bucket key agg xs)) = sum_list (map val xs)"
proof -
  have "sum_list (map (\<lambda>s. sum_list (map val (filter (\<lambda>r. (bucket r, key r) = s) xs))) (remdups (map (\<lambda>x. (bucket x, key x)) xs))) =
      sum_list (map val xs)"
    by (rule sum_split) auto
  then show ?thesis by (simp add: group_rows_def o_def case_prod_unfold assms prod_eq_iff)
qed

lemma grouped_pivot_total:
  fixes agg :: "'a list \<Rightarrow> rat"
  assumes "\<And>xs. agg xs = sum_list (map val xs)" and "\<forall>x\<in>set xs. bucket x \<in> set bs"
  shows "series_total (pivot_series (group_rows bucket key agg xs) bs [] labels) = sum_list (map val xs)"
proof -
  have "distinct (map (\<lambda>(b, k, v). (b, k)) (group_rows bucket key agg xs))"
    by (simp add: group_rows_def o_def case_prod_unfold)
  moreover have "\<forall>(b, k, v)\<in>set (group_rows bucket key agg xs). b \<in> set bs"
    using assms(2) by (auto simp: group_rows_def)
  ultimately show ?thesis
    using pivot_fold_total [of "group_rows bucket key agg xs" bs "[]"] group_sum [of agg val, OF assms(1)]
    by (simp add: series_total_pivot pivot_points_def points_total_def dense_def cell_def)
qed

section \<open>The grid covers the window\<close>

lemma step_pos: "0 < step_ms g"
  by (cases g) (simp_all add: step_ms_def HOUR_MS_def DAY_MS_def)

lemma trunc_in_grid:
  assumes "now - hours * HOUR_MS \<le> t" and "t \<le> now"
  shows "trunc_utc g t \<in> set (generate_buckets g hours now)"
proof -
  let ?s = "step_ms g"
  let ?a = "(now - hours * HOUR_MS) div ?s" and ?b = "t div ?s" and ?c = "now div ?s"
  have le: "?a \<le> ?b" "?b \<le> ?c" using assms step_pos [of g] by (simp_all add: zdiv_mono1)
  have "(?c * ?s - ?a * ?s) div ?s = ?c - ?a"
    using step_pos [of g] by (simp add: left_diff_distrib [symmetric])
  moreover have "?b * ?s = ?a * ?s + int (nat (?b - ?a)) * ?s" using le by (simp add: algebra_simps)
  ultimately show ?thesis using le
    by (auto simp: generate_buckets_def trunc_utc_def Let_def intro!: image_eqI [of _ _ "nat (?b - ?a)"])
qed

lemma window_in_grid:
  assumes "\<forall>r\<in>set (w_runs w). r_created r \<le> w_now w" and "r \<in> set (filter (runs_where w f b created_anchor) (w_runs w))"
  shows "created_bucket f r \<in> set (grid w f)"
  using assms unfolding created_bucket_def grid_def
  by (intro trunc_in_grid) (auto simp: runs_where_def anchored_def created_anchor_def)

lemma grid_length: "length (grid w f) = nat ((trunc_utc (mf_granularity f) (w_now w) -
    trunc_utc (mf_granularity f) (w_now w - mf_hours f * HOUR_MS)) div step_ms (mf_granularity f) + 1)"
  by (simp add: grid_def generate_buckets_def Let_def)

section \<open>What the charts show\<close>

text \<open>
  C29. The charts account for every run: on any filter, the points of the status chart add up to the runs
  of the window, the counts of the overview add up to the same number, and the points of the cost chart
  add up to the overview's total cost.
\<close>

theorem charts_account_for_every_run:
  assumes "\<forall>r\<in>set (w_runs w). r_created r \<le> w_now w"
  shows "series_total (mr_by_status (reliability w f)) = of_nat (length (filter (runs_where w f True created_anchor) (w_runs w))) \<and>
    sum_list (map snd (mo_counts (overview w f))) = length (filter (runs_where w f True created_anchor) (w_runs w)) \<and>
    series_total (mc_by_executor (cost w f)) = mo_total_cost (overview w f)"
proof -
  let ?rs = "filter (runs_where w f True created_anchor) (w_runs w)"
  have inside: "\<forall>r\<in>set ?rs. created_bucket f r \<in> set (grid w f)" using window_in_grid [OF assms] by blast
  have "series_total (mr_by_status (reliability w f)) = sum_list (map (\<lambda>_. 1) ?rs)"
    unfolding reliability_def Let_def metrics_reliability.simps
    by (rule grouped_pivot_total [OF _ inside]) (simp add: count_rows_def sum_list_triv)
  moreover have "series_total (mc_by_executor (cost w f)) = sum_cost ?rs"
    unfolding cost_def Let_def metrics_cost.simps
    by (subst grouped_pivot_total [OF _ inside]) (simp_all add: sum_cost_def)
  moreover have "sum_list (map snd (mo_counts (overview w f))) = length ?rs"
  proof -
    have "(\<Sum>s\<leftarrow>RUN_STATUSES. length (filter (\<lambda>r. r_status r = s) rs)) = length rs" for rs
    proof (induction rs)
      case (Cons r rs)
      then show ?case by (cases "r_status r") (simp_all add: RUN_STATUSES_def)
    qed (simp add: RUN_STATUSES_def)
    from this [of ?rs] show ?thesis unfolding overview_def Let_def by (simp add: o_def del: filter_filter)
  qed
  ultimately show ?thesis by (simp add: overview_def Let_def sum_list_triv)
qed

lemma pivot_series_dense:
  assumes "distinct force" and "s \<in> set (pivot_series rows bs force labels)"
  shows "length (se_points s) = length bs"
proof -
  have "dense (length bs) (map (\<lambda>k. (k, replicate (length bs) 0)) force)" using assms(1) by (auto simp: dense_def o_def)
  from pivot_dense [OF this, of rows] show ?thesis
    using assms(2) by (auto simp: pivot_series_def pivot_points_def dense_def)
qed

lemma single_series_dense: "s \<in> set (single_series rows bs key) \<Longrightarrow> length (se_points s) = length bs"
  unfolding single_series_def by (rule pivot_series_dense) simp_all

definition cost_series :: "metrics_cost \<Rightarrow> series list" where
  "cost_series c = concat [mc_by_executor c, mc_tokens_by_type c, mc_tokens_by_executor c, mc_tokens_by_model c,
     mc_tokens_by_role c, mc_by_role c, mc_cost_per_run c, mc_tokens_per_run c]"

definition reliability_series :: "metrics_reliability \<Rightarrow> series list" where
  "reliability_series r = concat [mr_by_status r, mr_success_rate r, mr_duration_median r, mr_duration_p95 r, mr_retry_rate r, mr_failures r]"

definition activity_series :: "metrics_activity \<Rightarrow> series list" where
  "activity_series a = concat [ma_by_source a, ma_by_role a, ma_by_workspace a]"

definition human_series :: "metrics_human \<Rightarrow> series list" where
  "human_series h = concat [mh_latency_median h, mh_latency_p95 h, mh_opened h, mh_closed h, mh_awaiting_share h]"

lemma trunc_back: "trunc_utc g (t - k * step_ms g) = trunc_utc g t - k * step_ms g"
proof -
  have "(t + (- k) * step_ms g) div step_ms g = t div step_ms g + (- k)"
    using step_pos [of g] div_mult_self1 [of "step_ms g" t "- k"] by (simp add: add.commute)
  then show ?thesis by (simp add: trunc_utc_def left_diff_distrib)
qed

lemma grid_size:
  assumes "mf_hours f * HOUR_MS = k * step_ms (mf_granularity f)"
  shows "length (grid w f) = nat (k + 1)"
  unfolding grid_length assms trunc_back using step_pos [of "mf_granularity f"] by simp

text \<open>
  Every chart is dense and bounded: whatever the query and however many runs there are, each series of
  each of the four timelines has exactly one point per bucket, and there are 25, 8 or 31 buckets.
\<close>

theorem charts_are_dense_and_bounded:
  assumes "f = parse_metrics_filters uuid period ws executor"
    and "s \<in> set (cost_series (cost w f) @ reliability_series (reliability w f) @ activity_series (activity idtext w f) @
      human_series (human_metrics w f))"
  shows "length (se_points s) = length (grid w f) \<and>
    length (grid w f) = (if mf_period f = ''24h'' then 25 else if mf_period f = ''7d'' then 8 else 31)"
proof
  show "length (se_points s) = length (grid w f)"
    using assms(2) unfolding cost_series_def reliability_series_def activity_series_def human_series_def
      cost_def reliability_def activity_def human_metrics_def Let_def
    by (auto dest!: single_series_dense pivot_series_dense [rotated] simp: TOKEN_KEYS_def)
  have "mf_period f = ''24h'' \<and> mf_granularity f = Hourly \<and> mf_hours f = 24 \<or>
      mf_period f = ''7d'' \<and> mf_granularity f = Daily \<and> mf_hours f = 168 \<or>
      mf_period f = ''30d'' \<and> mf_granularity f = Daily \<and> mf_hours f = 720"
    unfolding assms(1) by (auto simp: parse_metrics_filters_def Let_def period_hours_def split: option.split)
  then show "length (grid w f) = (if mf_period f = ''24h'' then 25 else if mf_period f = ''7d'' then 8 else 31)"
    using grid_size [of f 24 w] grid_size [of f 7 w] grid_size [of f 30 w]
    by (auto simp: step_ms_def HOUR_MS_def DAY_MS_def)
qed

section \<open>The theorems on the sample world\<close>

definition week_filter :: metrics_filters where
  "week_filter = parse_metrics_filters (\<lambda>s. None) None None None"

theorem charts_account_for_every_run_witness:
  "series_total (mr_by_status (reliability tied_world week_filter)) = 2"
proof -
  have "length (filter (runs_where tied_world week_filter True created_anchor) (w_runs tied_world)) = 2" by code_simp
  then show ?thesis using charts_account_for_every_run [of tied_world week_filter]
    by (simp add: tied_world_def sample_world_def sample_run_def)
qed

theorem charts_are_dense_and_bounded_witness:
  "\<exists>s. s \<in> set (reliability_series (reliability tied_world week_filter)) \<and> length (se_points s) = 8"
proof -
  have "map se_key (take 1 (mr_by_status (reliability tied_world week_filter))) = [''succeeded'']" by code_simp
  then obtain s where s: "s \<in> set (mr_by_status (reliability tied_world week_filter))"
    by (cases "mr_by_status (reliability tied_world week_filter)") auto
  have "mf_period week_filter = ''7d''" by code_simp
  then have "length (se_points s) = 8"
    using charts_are_dense_and_bounded [of week_filter "\<lambda>s. None" None None None s tied_world show_nat] s
    by (simp add: week_filter_def [symmetric] reliability_series_def)
  then show ?thesis using s by (auto simp: reliability_series_def)
qed

end
