(* ===== verification/RateLimiter.thy ===== *)
theory RateLimiter
  imports Complex_Main Prelude
begin

text \<open>
  The gate every Jira request passes (\<open>libs/jira/src/rate-limiter.ts\<close>): a token bucket and a cap on
  the requests in flight, with a transparent retry of 429 answers. Each request is a small state
  machine; between two of its \<open>await\<close>s other requests run, so the steps of all of them interleave.
  Time is in milliseconds and the bucket is exact. A sleep may end at any later moment.
\<close>

section \<open>State\<close>

record limiter_options =
  lo_max_rps :: rat
  lo_concurrency :: int
  lo_max_retries :: nat

definition default_limiter :: limiter_options where
  "default_limiter = \<lparr>lo_max_rps = 5, lo_concurrency = 8, lo_max_retries = 8\<rparr>"

text \<open>
  Where a request is in \<open>schedule\<close>: not yet called, queued for a slot, resolved but not yet resumed,
  about to take a token on its \<open>n\<close>-th retry, asleep, inside \<open>fn\<close>, over.
\<close>

datatype phase = Fresh | Waiting | Woken | Slotted nat | Asleep nat | Calling nat | Over

record limiter =
  rl_tokens :: rat
  rl_last_refill :: int
  rl_active :: int
  rl_waiters :: "nat list"
  rl_now :: int
  rl_phase :: "nat \<Rightarrow> phase"

definition new_limiter :: "limiter_options \<Rightarrow> int \<Rightarrow> limiter" where
  "new_limiter c now = \<lparr>rl_tokens = lo_max_rps c, rl_last_refill = now, rl_active = 0, rl_waiters = [], rl_now = now,
     rl_phase = (\<lambda>_. Fresh)\<rparr>"

abbreviation set_phase :: "nat \<Rightarrow> phase \<Rightarrow> limiter \<Rightarrow> limiter" where
  "set_phase i p s \<equiv> s\<lparr>rl_phase := (rl_phase s)(i := p)\<rparr>"

section \<open>Operations\<close>

text \<open>\<open>elapsedSec * this.maxRps\<close>.\<close>

definition earned :: "limiter_options \<Rightarrow> int \<Rightarrow> rat" where
  "earned c elapsed_ms = of_int elapsed_ms / 1000 * lo_max_rps c"

definition refill :: "limiter_options \<Rightarrow> limiter \<Rightarrow> limiter" where
  "refill c s = s\<lparr>rl_tokens := min (lo_max_rps c)
       (rl_tokens s + earned c (rl_now s - rl_last_refill s)), rl_last_refill := rl_now s\<rparr>"

text \<open>One turn of the loop of \<open>acquireToken\<close>: whether a token was taken.\<close>

definition acquire_token :: "limiter_options \<Rightarrow> limiter \<Rightarrow> bool \<times> limiter" where
  "acquire_token c s = (let t = refill c s in
     if 1 \<le> rl_tokens t then (True, t\<lparr>rl_tokens := rl_tokens t - 1\<rparr>) else (False, t))"

text \<open>\<open>acquireSlot\<close> up to its \<open>await\<close>, and after it.\<close>

definition acquire_slot :: "limiter_options \<Rightarrow> nat \<Rightarrow> limiter \<Rightarrow> limiter" where
  "acquire_slot c i s =
     (if rl_active s < lo_concurrency c then set_phase i (Slotted 0) (s\<lparr>rl_active := rl_active s + 1\<rparr>)
      else set_phase i Waiting (s\<lparr>rl_waiters := rl_waiters s @ [i]\<rparr>))"

definition slot_awaited :: "nat \<Rightarrow> limiter \<Rightarrow> limiter" where
  "slot_awaited i s = set_phase i (Slotted 0) (s\<lparr>rl_active := rl_active s + 1\<rparr>)"

definition release_slot :: "limiter \<Rightarrow> limiter" where
  "release_slot s = (let t = s\<lparr>rl_active := rl_active s - 1\<rparr> in
     case rl_waiters s of [] \<Rightarrow> t | w # ws \<Rightarrow> set_phase w Woken (t\<lparr>rl_waiters := ws\<rparr>))"

datatype answer = Resolved_ok | Rate_limited_429 | Rejected

text \<open>\<open>fn\<close> settled: a 429 within the retry limit sleeps and tries again, anything else releases the slot.\<close>

definition fn_settled :: "limiter_options \<Rightarrow> nat \<Rightarrow> nat \<Rightarrow> answer \<Rightarrow> limiter \<Rightarrow> limiter" where
  "fn_settled c i attempt a s =
     (if a = Rate_limited_429 \<and> attempt < lo_max_retries c then set_phase i (Asleep (attempt + 1)) s
      else release_slot (set_phase i Over s))"

section \<open>Interleaved requests\<close>

datatype limiter_event = Elapse int | Arrive nat | Resume nat | Grant nat | Starve nat | Awake nat | Settle nat answer

inductive rl_step :: "limiter_options \<Rightarrow> limiter \<Rightarrow> limiter_event \<Rightarrow> limiter \<Rightarrow> bool" for c :: limiter_options where
  elapse: "0 \<le> dt \<Longrightarrow> rl_step c s (Elapse dt) (s\<lparr>rl_now := rl_now s + dt\<rparr>)"
| arrive: "rl_phase s i = Fresh \<Longrightarrow> rl_step c s (Arrive i) (acquire_slot c i s)"
| resume: "rl_phase s i = Woken \<Longrightarrow> rl_step c s (Resume i) (slot_awaited i s)"
| grant: "rl_phase s i = Slotted n \<Longrightarrow> acquire_token c s = (True, t) \<Longrightarrow> rl_step c s (Grant i) (set_phase i (Calling n) t)"
| starve: "rl_phase s i = Slotted n \<Longrightarrow> acquire_token c s = (False, t) \<Longrightarrow> rl_step c s (Starve i) (set_phase i (Asleep n) t)"
| awake: "rl_phase s i = Asleep n \<Longrightarrow> rl_step c s (Awake i) (set_phase i (Slotted n) s)"
| settle: "rl_phase s i = Calling n \<Longrightarrow> rl_step c s (Settle i a) (fn_settled c i n a s)"

inductive rl_run :: "limiter_options \<Rightarrow> limiter \<Rightarrow> limiter_event list \<Rightarrow> limiter \<Rightarrow> bool" for c :: limiter_options where
  nil: "rl_run c s [] s"
| snoc: "rl_run c s es s' \<Longrightarrow> rl_step c s' e s'' \<Longrightarrow> rl_run c s (es @ [e]) s''"

inductive_cases rl_stepE: "rl_step c s e s'"

definition grants :: "limiter_event list \<Rightarrow> nat" where
  "grants es = length (filter (\<lambda>e. case e of Grant i \<Rightarrow> True | _ \<Rightarrow> False) es)"

definition grants_of :: "nat \<Rightarrow> limiter_event list \<Rightarrow> nat" where
  "grants_of i es = length (filter (\<lambda>e. e = Grant i) es)"

section \<open>The bucket\<close>

text \<open>The tokens a refill at this moment would leave.\<close>

definition avail :: "limiter_options \<Rightarrow> limiter \<Rightarrow> rat" where
  "avail c s = rl_tokens (refill c s)"

definition bucket_ok :: "limiter_options \<Rightarrow> limiter \<Rightarrow> bool" where
  "bucket_ok c s \<longleftrightarrow> 0 \<le> rl_tokens s \<and> rl_tokens s \<le> lo_max_rps c \<and> rl_last_refill s \<le> rl_now s"

lemma same_bucket [simp]:
  "rl_tokens (acquire_slot c i s) = rl_tokens s" "rl_last_refill (acquire_slot c i s) = rl_last_refill s"
  "rl_now (acquire_slot c i s) = rl_now s"
  "rl_tokens (slot_awaited i s) = rl_tokens s" "rl_last_refill (slot_awaited i s) = rl_last_refill s"
  "rl_now (slot_awaited i s) = rl_now s"
  "rl_tokens (fn_settled c i n a s) = rl_tokens s" "rl_last_refill (fn_settled c i n a s) = rl_last_refill s"
  "rl_now (fn_settled c i n a s) = rl_now s"
  by (simp_all add: acquire_slot_def slot_awaited_def fn_settled_def release_slot_def Let_def split: list.split)

lemma earned_add: "earned c (x + y) = earned c x + earned c y"
  by (simp add: earned_def field_simps)

lemma earned_nonneg: "0 \<le> x \<Longrightarrow> 0 \<le> lo_max_rps c \<Longrightarrow> 0 \<le> earned c x"
  by (simp add: earned_def)

lemma earned_zero [simp]: "earned c 0 = 0"
  by (simp add: earned_def)

lemma avail_elapsed:
  assumes "0 \<le> dt" and "0 \<le> lo_max_rps c"
  shows "avail c (s\<lparr>rl_now := rl_now s + dt\<rparr>) \<le> avail c s + earned c dt"
proof -
  have "earned c (rl_now s + dt - rl_last_refill s) = earned c (rl_now s - rl_last_refill s) + earned c dt"
    by (simp add: algebra_simps flip: earned_add)
  then show ?thesis using earned_nonneg [OF assms] by (simp add: avail_def refill_def)
qed

lemma bucket_step:
  assumes "rl_step c s e s'" and "bucket_ok c s" and "0 \<le> lo_max_rps c"
  shows "bucket_ok c s' \<and> of_nat (grants [e]) + avail c s' \<le> avail c s + earned c (rl_now s' - rl_now s)"
  using assms(1)
proof (cases rule: rl_step.cases)
  case (elapse dt)
  then show ?thesis using avail_elapsed [OF elapse(3) assms(3), of s] assms(2) by (simp add: bucket_ok_def grants_def)
next
  case (grant i n t)
  then show ?thesis using assms(2,3) earned_nonneg [of "rl_now s - rl_last_refill s" c]
    by (auto simp: acquire_token_def Let_def refill_def avail_def bucket_ok_def grants_def split: if_splits)
next
  case (starve i n t)
  then show ?thesis using assms(2,3) earned_nonneg [of "rl_now s - rl_last_refill s" c]
    by (auto simp: acquire_token_def Let_def refill_def avail_def bucket_ok_def grants_def split: if_splits)
qed (use assms in \<open>simp_all add: bucket_ok_def avail_def refill_def grants_def\<close>)

lemma grants_append [simp]: "grants (es @ fs) = grants es + grants fs"
  by (simp add: grants_def)

lemma bucket_run:
  "rl_run c s es s' \<Longrightarrow> bucket_ok c s \<Longrightarrow> 0 \<le> lo_max_rps c \<Longrightarrow> bucket_ok c s' \<and>
    of_nat (grants es) + avail c s' \<le> avail c s + earned c (rl_now s' - rl_now s)"
proof (induction rule: rl_run.induct)
  case (nil s)
  then show ?case by (simp add: grants_def)
next
  case (snoc s es s' e s'')
  have "earned c (rl_now s'' - rl_now s) = earned c (rl_now s' - rl_now s) + earned c (rl_now s'' - rl_now s')"
    by (simp flip: earned_add)
  then show ?case using bucket_step [OF snoc.hyps(2) _ snoc.prems(2)] snoc.IH [OF snoc.prems] by simp
qed

lemma rl_run_append: "rl_run c s' fs s'' \<Longrightarrow> rl_run c s es s' \<Longrightarrow> rl_run c s (es @ fs) s''"
  by (induction rule: rl_run.induct) (auto simp flip: append_assoc intro: rl_run.snoc)

lemma avail_bounds: "bucket_ok c s \<Longrightarrow> 0 \<le> lo_max_rps c \<Longrightarrow> 0 \<le> avail c s \<and> avail c s \<le> lo_max_rps c"
  using earned_nonneg [of "rl_now s - rl_last_refill s" c] by (simp add: avail_def refill_def bucket_ok_def)

text \<open>
  C27. The sustained rate holds: after any history, in any stretch of time the requests let through to
  Jira - retries included - are at most one burst plus the rate times the time that passed.
\<close>

theorem rate_is_bounded:
  assumes "0 \<le> lo_max_rps c" and "rl_run c (new_limiter c start) before s" and "rl_run c s es s'"
  shows "of_nat (grants es) \<le> lo_max_rps c + of_int (rl_now s' - rl_now s) / 1000 * lo_max_rps c"
proof -
  have "bucket_ok c (new_limiter c start)" using assms(1) by (simp add: bucket_ok_def new_limiter_def)
  then have ok: "bucket_ok c s" using bucket_run [OF assms(2) _ assms(1)] by blast
  then have "bucket_ok c s'" using bucket_run [OF assms(3) _ assms(1)] by blast
  then show ?thesis
    using bucket_run [OF assms(3) ok assms(1)] avail_bounds [OF ok assms(1)] avail_bounds [of c s'] assms(1)
    by (simp add: earned_def)
qed

section \<open>Retries\<close>

text \<open>How often a request has called \<open>fn\<close>, by where it is.\<close>

definition tries_ok :: "limiter_options \<Rightarrow> nat \<Rightarrow> phase \<Rightarrow> bool" where
  "tries_ok c k p \<longleftrightarrow> (case p of Over \<Rightarrow> k \<le> lo_max_retries c + 1
     | Slotted n \<Rightarrow> k = n \<and> n \<le> lo_max_retries c | Asleep n \<Rightarrow> k = n \<and> n \<le> lo_max_retries c
     | Calling n \<Rightarrow> k = n + 1 \<and> n \<le> lo_max_retries c | _ \<Rightarrow> k = 0)"

text \<open>The queue holds exactly the requests that wait, each once, so a release wakes one that waits.\<close>

definition queue_ok :: "limiter \<Rightarrow> bool" where
  "queue_ok s \<longleftrightarrow> distinct (rl_waiters s) \<and> (\<forall>i. i \<in> set (rl_waiters s) \<longleftrightarrow> rl_phase s i = Waiting)"

lemma acquire_token_frame:
  "acquire_token c s = (b, t) \<Longrightarrow> rl_phase t = rl_phase s \<and> rl_waiters t = rl_waiters s \<and> rl_active t = rl_active s"
  by (auto simp: acquire_token_def refill_def Let_def split: if_splits)

lemma queue_phase:
  "queue_ok s \<Longrightarrow> rl_waiters t = rl_waiters s \<Longrightarrow> rl_phase t = rl_phase s \<Longrightarrow> rl_phase s i \<noteq> Waiting \<Longrightarrow> p \<noteq> Waiting \<Longrightarrow>
    queue_ok (set_phase i p t)"
  by (auto simp: queue_ok_def)

lemma queue_release: "queue_ok s \<Longrightarrow> queue_ok (release_slot s)"
  by (cases "rl_waiters s") (auto simp: queue_ok_def release_slot_def Let_def)

lemma released_phase:
  "queue_ok s \<Longrightarrow> rl_phase (release_slot s) i = rl_phase s i \<or> rl_phase s i = Waiting \<and> rl_phase (release_slot s) i = Woken"
  by (cases "rl_waiters s") (auto simp: queue_ok_def release_slot_def Let_def)

lemma queue_step:
  assumes "rl_step c s e s'" and "queue_ok s"
  shows "queue_ok s'"
  using assms(1)
proof (cases rule: rl_step.cases)
  case (elapse dt)
  then show ?thesis using assms(2) by (simp add: queue_ok_def)
next
  case (arrive i)
  then show ?thesis using assms(2) by (auto simp: queue_ok_def acquire_slot_def)
next
  case (resume i)
  show ?thesis unfolding resume(2) slot_awaited_def by (rule queue_phase [OF assms(2)]) (use resume in simp_all)
next
  case (grant i n t)
  show ?thesis unfolding grant(2) by (rule queue_phase [OF assms(2)]) (use grant acquire_token_frame in simp_all)
next
  case (starve i n t)
  show ?thesis unfolding starve(2) by (rule queue_phase [OF assms(2)]) (use starve acquire_token_frame in simp_all)
next
  case (awake i n)
  show ?thesis unfolding awake(2) by (rule queue_phase [OF assms(2)]) (use awake in simp_all)
next
  case (settle i n a)
  have "queue_ok (set_phase i p s)" if "p \<noteq> Waiting" for p
    by (rule queue_phase [OF assms(2)]) (use settle that in simp_all)
  then show ?thesis unfolding settle(2) fn_settled_def by (simp add: queue_release)
qed

lemma tries_ok_simps [simp]:
  "tries_ok c k (Slotted n) \<longleftrightarrow> k = n \<and> n \<le> lo_max_retries c" "tries_ok c k (Asleep n) \<longleftrightarrow> k = n \<and> n \<le> lo_max_retries c"
  "tries_ok c k (Calling n) \<longleftrightarrow> k = n + 1 \<and> n \<le> lo_max_retries c" "tries_ok c k Over \<longleftrightarrow> k \<le> lo_max_retries c + 1"
  "tries_ok c k Fresh \<longleftrightarrow> k = 0" "tries_ok c k Waiting \<longleftrightarrow> k = 0" "tries_ok c k Woken \<longleftrightarrow> k = 0"
  by (simp_all add: tries_ok_def)

lemma tries_step:
  assumes "rl_step c s e s'" and "queue_ok s" and "tries_ok c k (rl_phase s i)"
  shows "tries_ok c (k + (if e = Grant i then 1 else 0)) (rl_phase s' i)"
  using assms(1)
proof (cases rule: rl_step.cases)
  case (elapse dt)
  then show ?thesis using assms(3) by simp
next
  case (arrive j)
  then show ?thesis using assms(3) by (cases "i = j") (simp_all add: acquire_slot_def)
next
  case (resume j)
  then show ?thesis using assms(3) by (cases "i = j") (simp_all add: slot_awaited_def)
next
  case (grant j n t)
  then show ?thesis using assms(3) acquire_token_frame [OF grant(4)] by (cases "i = j") simp_all
next
  case (starve j n t)
  then show ?thesis using assms(3) acquire_token_frame [OF starve(4)] by (cases "i = j") simp_all
next
  case (awake j n)
  then show ?thesis using assms(3) by (cases "i = j") simp_all
next
  case (settle j n a)
  have "queue_ok (set_phase j Over s)" by (rule queue_phase [OF assms(2)]) (use settle in simp_all)
  note released = released_phase [OF this, of i]
  show ?thesis
  proof (cases "a = Rate_limited_429 \<and> n < lo_max_retries c")
    case True
    then show ?thesis using settle assms(3) by (cases "i = j") (simp_all add: fn_settled_def)
  next
    case False
    then have s': "s' = release_slot (set_phase j Over s)" using settle(2) by (auto simp: fn_settled_def)
    show ?thesis
    proof (cases "i = j")
      case True
      then show ?thesis using released settle assms(3) unfolding s' by simp
    next
      case other: False
      then have "rl_phase (set_phase j Over s) i = rl_phase s i" by simp
      then show ?thesis using released settle(1) assms(3) unfolding s' by fastforce
    qed
  qed
qed

lemma run_tries:
  "rl_run c s es s' \<Longrightarrow> queue_ok s \<Longrightarrow> tries_ok c 0 (rl_phase s i) \<Longrightarrow> queue_ok s' \<and> tries_ok c (grants_of i es) (rl_phase s' i)"
proof (induction rule: rl_run.induct)
  case (nil s)
  then show ?case by (simp add: grants_of_def)
next
  case (snoc s es s' e s'')
  then have "queue_ok s'" "tries_ok c (grants_of i es) (rl_phase s' i)" by auto
  from queue_step [OF snoc.hyps(2) this(1)] tries_step [OF snoc.hyps(2) this] show ?case
    by (simp add: grants_of_def split: if_splits)
qed

text \<open> C34.
  A 429 is a pause, not a loop: whatever Jira answers, a request is sent at most once more than
  the number of retries allowed.
\<close>

theorem retries_are_bounded:
  assumes "rl_run c (new_limiter c now) es s"
  shows "grants_of i es \<le> lo_max_retries c + 1"
proof -
  have "queue_ok (new_limiter c now)" by (simp add: queue_ok_def new_limiter_def)
  moreover have "tries_ok c 0 (rl_phase (new_limiter c now) i)" by (simp add: tries_ok_def new_limiter_def)
  ultimately show ?thesis using run_tries [OF assms, of i] by (auto simp: tries_ok_def split: phase.splits)
qed

section \<open>The cap on requests in flight\<close>

text \<open>Requests that arrive while there is room take a slot at once.\<close>

lemma arrivals_run:
  "int n \<le> lo_concurrency c \<Longrightarrow> \<exists>s. rl_run c (new_limiter c 0) (map Arrive [0..<n]) s \<and> rl_active s = int n \<and>
    rl_tokens s = lo_max_rps c \<and> rl_last_refill s = 0 \<and> rl_now s = 0 \<and> rl_waiters s = [] \<and>
    rl_phase s = (\<lambda>i. if i < n then Slotted 0 else Fresh)"
proof (induction n)
  case 0
  show ?case by (rule exI [of _ "new_limiter c 0"]) (simp add: rl_run.nil, simp add: new_limiter_def)
next
  case (Suc n)
  then obtain s where s: "rl_run c (new_limiter c 0) (map Arrive [0..<n]) s" "rl_active s = int n"
      "rl_tokens s = lo_max_rps c" "rl_last_refill s = 0" "rl_now s = 0" "rl_waiters s = []"
      "rl_phase s = (\<lambda>i. if i < n then Slotted 0 else Fresh)" by fastforce
  have "rl_step c s (Arrive n) (acquire_slot c n s)" by (rule rl_step.arrive) (simp add: s)
  from rl_run.snoc [OF s(1) this] show ?case
    using Suc.prems s by (intro exI [of _ "acquire_slot c n s"]) (auto simp: acquire_slot_def less_Suc_eq)
qed

text \<open>
  C3. The cap can be overshot: a slot that is released to a waiting request is free until that request
  resumes, so a request that arrives in between takes it too, and one more than the configured number
  is in flight.
\<close>

theorem concurrency_cap_overshot:
  assumes "1 \<le> lo_concurrency c" and "1 \<le> lo_max_rps c"
  shows "\<exists>es s. rl_run c (new_limiter c 0) es s \<and> rl_active s = lo_concurrency c + 1"
proof -
  define n where "n = nat (lo_concurrency c)"
  have n: "int n = lo_concurrency c" "0 < n" using assms(1) by (simp_all add: n_def)
  obtain s where s: "rl_run c (new_limiter c 0) (map Arrive [0..<n]) s" "rl_active s = int n"
      "rl_tokens s = lo_max_rps c" "rl_last_refill s = 0" "rl_now s = 0" "rl_waiters s = []"
      "rl_phase s = (\<lambda>i. if i < n then Slotted 0 else Fresh)"
    using arrivals_run [of n c] n by auto
  let ?s1 = "acquire_slot c n s"
  have s1: "?s1 = s\<lparr>rl_phase := (rl_phase s)(n := Waiting), rl_waiters := [n]\<rparr>" using s n by (simp add: acquire_slot_def)
  have st1: "rl_step c s (Arrive n) ?s1" by (rule rl_step.arrive) (simp add: s)
  define t where "t = snd (acquire_token c ?s1)"
  have t: "acquire_token c ?s1 = (True, t)" "rl_phase t = (rl_phase s)(n := Waiting)" "rl_waiters t = [n]" "rl_active t = int n"
    using s assms(2) by (simp_all add: t_def s1 acquire_token_def refill_def Let_def)
  let ?s2 = "set_phase 0 (Calling 0) t"
  have st2: "rl_step c ?s1 (Grant 0) ?s2" by (rule rl_step.grant [OF _ t(1)]) (use s n in \<open>simp add: s1\<close>)
  let ?s3 = "fn_settled c 0 0 Resolved_ok ?s2"
  have st3: "rl_step c ?s2 (Settle 0 Resolved_ok) ?s3" by (rule rl_step.settle) simp
  have s3: "rl_active ?s3 = int n - 1" "rl_phase ?s3 n = Woken" "rl_phase ?s3 (Suc n) = Fresh"
    using t s n by (simp_all add: fn_settled_def release_slot_def Let_def)
  let ?s4 = "acquire_slot c (Suc n) ?s3"
  have st4: "rl_step c ?s3 (Arrive (Suc n)) ?s4" by (rule rl_step.arrive) (rule s3(3))
  have s4: "rl_active ?s4 = int n" "rl_phase ?s4 n = Woken" using s3 n by (simp_all add: acquire_slot_def)
  have st5: "rl_step c ?s4 (Resume n) (slot_awaited n ?s4)" by (rule rl_step.resume) (rule s4(2))
  have "rl_active (slot_awaited n ?s4) = lo_concurrency c + 1" using s4 n by (simp add: slot_awaited_def)
  then show ?thesis
    using rl_run.snoc [OF rl_run.snoc [OF rl_run.snoc [OF rl_run.snoc [OF rl_run.snoc [OF s(1) st1] st2] st3] st4] st5] by blast
qed

section \<open>The theorems on the default limiter\<close>

theorem concurrency_cap_overshot_witness:
  "\<exists>es s. rl_run default_limiter (new_limiter default_limiter 0) es s \<and> rl_active s = 9"
  using concurrency_cap_overshot [of default_limiter] by (simp add: default_limiter_def)

lemma one_request_run:
  "\<exists>s. rl_run default_limiter (new_limiter default_limiter 0) [Arrive 0] s \<and> rl_now s = 0"
proof -
  let ?s = "acquire_slot default_limiter 0 (new_limiter default_limiter 0)"
  have "rl_step default_limiter (new_limiter default_limiter 0) (Arrive 0) ?s"
    by (rule rl_step.arrive) (simp add: new_limiter_def)
  from rl_run.snoc [OF rl_run.nil this] have "rl_run default_limiter (new_limiter default_limiter 0) [Arrive 0] ?s" by simp
  moreover have "rl_now ?s = 0" by (simp add: new_limiter_def)
  ultimately show ?thesis by blast
qed

theorem retries_are_bounded_witness:
  "\<exists>s. rl_run default_limiter (new_limiter default_limiter 0) [Arrive 0] s \<and> grants_of 0 [Arrive 0] \<le> 9"
proof -
  obtain s where "rl_run default_limiter (new_limiter default_limiter 0) [Arrive 0] s" using one_request_run by blast
  with retries_are_bounded [OF this, of 0] show ?thesis by (auto simp: default_limiter_def)
qed

theorem rate_is_bounded_witness:
  "\<exists>s. rl_run default_limiter (new_limiter default_limiter 0) [Arrive 0] s \<and> of_nat (grants [Arrive 0]) \<le> (5 :: rat)"
proof -
  obtain s where s: "rl_run default_limiter (new_limiter default_limiter 0) [Arrive 0] s" "rl_now s = 0"
    using one_request_run by blast
  have "0 \<le> lo_max_rps default_limiter" by (simp add: default_limiter_def)
  from rate_is_bounded [OF this rl_run.nil s(1)] show ?thesis
    using s by (auto simp: default_limiter_def new_limiter_def)
qed

end
