(* ===== verification/Resume.thy ===== *)
theory Resume
  imports HumanTasks
begin

text \<open>
  Resolving a human task (\<open>libs/human-tasks/src/resume.service.ts\<close>): superseding the parked
  run and inserting its continuation in one transaction, the trigger event the continuation
  carries, and closing the task.
\<close>

section \<open>Input and result\<close>

datatype resolve_action = Do_resume | Done_manually | Dismiss

record resolve_input =
  ri_action :: resolve_action
  ri_answer :: "string option"
  ri_resolved_by :: "string option"
  ri_target :: "id option"

datatype resolve_result = Resumed id | Closed | Not_found | Not_open | Invalid_target | Active_run_conflict

datatype resume_run_result = RR_resumed id | RR_gone | RR_conflict

record resume_target =
  rg_id :: id
  rg_executor_type :: string
  rg_is_orchestrator :: bool
  rg_behavior :: json

section \<open>The service\<close>

definition close_task :: "id \<Rightarrow> task_status \<Rightarrow> resolve_input \<Rightarrow> unit handler" where
  "close_task i s inp = update_task i (\<lambda>now h. h\<lparr>h_status := s, h_resolution := ri_answer inp,
     h_resolved_at := Some now, h_resolved_by := ri_resolved_by inp\<rparr>)"

text \<open>The agent joined with its executor: present, enabled and of the same workspace.\<close>

definition resolve_target_agent :: "id \<Rightarrow> id \<Rightarrow> resume_target option handler" where
  "resolve_target_agent ws ag = gets (\<lambda>w.
     case find (\<lambda>a. a_id a = ag \<and> a_workspace a = ws \<and> a_enabled a) (w_agents w) of
       None \<Rightarrow> None
     | Some a \<Rightarrow> (case find_executor (a_executor a) w of None \<Rightarrow> None
         | Some x \<Rightarrow> Some \<lparr>rg_id = a_id a, rg_executor_type = x_type x,
             rg_is_orchestrator = a_is_orchestrator a, rg_behavior = a_behavior a\<rparr>))"

definition answer_triage_trigger_event :: "id \<Rightarrow> json \<Rightarrow> bool \<Rightarrow> id \<Rightarrow> string option \<Rightarrow> json \<Rightarrow> json" where
  "answer_triage_trigger_event parked parked_ev parked_is_orch task answer_text behavior =
     (let forwarded = (if parked_is_orch then jget parked_ev ''failing_run_id'' else None);
          scenario = mock_scenario_of behavior;
          route = route_target_of behavior
      in JObj ([(''source'', JStr ''answer-triage''),
          (''failing_run_id'', nullish forwarded (jid parked)),
          (''human_task_id'', jid task), (''resolution'', jopt JStr answer_text)]
        @ fld ''mock_scenario'' JStr (truthy scenario) @ fld ''target_agent'' JStr (truthy route)))"

definition resume_trigger_event :: "id \<Rightarrow> json \<Rightarrow> bool \<Rightarrow> bool \<Rightarrow> id \<Rightarrow> string option \<Rightarrow> json \<Rightarrow> json" where
  "resume_trigger_event parked parked_ev parked_is_orch effective_is_orch task answer_text behavior =
     (if trigger_source parked_ev = Some ''workspace-setup''
      then JObj ([(''source'', JStr ''workspace-setup''), (''human_task_id'', jid task),
             (''resolution'', jopt JStr answer_text)]
           @ fld ''mock_scenario'' JStr (truthy (mock_scenario_of behavior)))
      else if effective_is_orch
      then answer_triage_trigger_event parked parked_ev parked_is_orch task answer_text behavior
      else JObj [(''source'', JStr ''human-resume''), (''resolution'', jopt JStr answer_text),
             (''human_task_id'', jid task)])"

text \<open>The guarded supersede of a parked run.\<close>

definition supersede_parked :: "id \<Rightarrow> bool handler" where
  "supersede_parked i = update_run i (\<lambda>r. r_status r = Awaiting_human)
     (\<lambda>now r. r\<lparr>r_status := Superseded, r_finished := Some now\<rparr>)"

definition supersede_and_insert :: "id \<Rightarrow> run \<Rightarrow> id option handler" where
  "supersede_and_insert parked r0 =
     transaction (bnd (supersede_parked parked) (\<lambda>hit.
       if \<not> hit then ret None else bnd (insert_run r0) (\<lambda>i. ret (Some i))))"

definition transition_to_running :: "env \<Rightarrow> id \<Rightarrow> id \<Rightarrow> id option \<Rightarrow> unit handler" where
  "transition_to_running E ws ag tk =
     (case tk of None \<Rightarrow> ret ()
      | Some t \<Rightarrow>
        bnd (gets (find_agent ag)) (\<lambda>agent.
        case Option.bind agent (\<lambda>a. truthy (a_status_running a)) of None \<Rightarrow> ret ()
        | Some st \<Rightarrow>
          bnd (gets (find_ticket t)) (\<lambda>ticket.
          case ticket of None \<Rightarrow> ret ()
          | Some tt \<Rightarrow>
            catch (andthen (jira_connect E ws) (jira_transition_to E ws (t_jira_key tt) st)) (\<lambda>e. ret ()))))"

definition resume_run :: "env \<Rightarrow> id \<Rightarrow> string option \<Rightarrow> id \<Rightarrow> resume_target option \<Rightarrow> resume_run_result handler" where
  "resume_run E parked_id answer_text task target =
     bnd (gets (find_run parked_id)) (\<lambda>found.
     case found of None \<Rightarrow> ret RR_gone
     | Some parked \<Rightarrow>
       let different = (case target of None \<Rightarrow> False | Some g \<Rightarrow> rg_id g \<noteq> r_agent parked);
           new_agent = (case target of None \<Rightarrow> r_agent parked | Some g \<Rightarrow> rg_id g);
           new_type = (case target of None \<Rightarrow> r_executor_type parked | Some g \<Rightarrow> rg_executor_type g);
           new_attempt = (if different then 1 else r_attempt parked + 1)
       in
       bnd (gets (find_agent (r_agent parked))) (\<lambda>parked_agent.
       let parked_is_orch = (case parked_agent of None \<Rightarrow> False | Some a \<Rightarrow> a_is_orchestrator a);
           effective_is_orch = (case target of None \<Rightarrow> parked_is_orch | Some g \<Rightarrow> rg_is_orchestrator g);
           effective_behavior = (case target of
              None \<Rightarrow> (case parked_agent of None \<Rightarrow> JNull | Some a \<Rightarrow> a_behavior a) | Some g \<Rightarrow> rg_behavior g);
           ev = resume_trigger_event parked_id (r_trigger parked) parked_is_orch effective_is_orch task
                  answer_text effective_behavior
       in
       bnd (catch (bnd (supersede_and_insert parked_id
                          (queued_run (r_workspace parked) (r_ticket parked) new_agent new_type new_attempt ev))
                     (\<lambda>o'. ret (Inr o')))
              (\<lambda>e. if en_kind e = Unique_violation then ret (Inl ()) else throw e)) (\<lambda>res.
       case res of
         Inl _ \<Rightarrow> ret RR_conflict
       | Inr None \<Rightarrow> ret RR_gone
       | Inr (Some i) \<Rightarrow>
           andthen (queue_add E \<lparr>j_queue = new_type, j_run = i, j_dedup = None, j_attempts = None\<rparr>)
          (andthen (transition_to_running E (r_workspace parked) new_agent (r_ticket parked))
             (ret (RR_resumed i))))))"

definition resolve_resume :: "env \<Rightarrow> id \<Rightarrow> resolve_input \<Rightarrow> human_task \<Rightarrow> resolve_result handler" where
  "resolve_resume E task inp h =
     (case (h_blocking h, h_run h) of
        (True, Some run) \<Rightarrow>
          if ri_target inp \<noteq> None \<and> h_ticket h = None then ret Invalid_target
          else bnd (case ri_target inp of None \<Rightarrow> ret (Inr None)
                    | Some ag \<Rightarrow> bnd (resolve_target_agent (h_workspace h) ag)
                        (\<lambda>t. ret (case t of None \<Rightarrow> Inl () | Some g \<Rightarrow> Inr (Some g)))) (\<lambda>target.
               case target of Inl _ \<Rightarrow> ret Invalid_target
               | Inr g \<Rightarrow>
                 bnd (resume_run E run (ri_answer inp) task g) (\<lambda>res.
                 case res of RR_conflict \<Rightarrow> ret Active_run_conflict
                 | RR_gone \<Rightarrow> ret Not_open
                 | RR_resumed i \<Rightarrow> andthen (close_task task Resolved inp) (ret (Resumed i))))
      | _ \<Rightarrow> andthen (close_task task Resolved inp) (ret Closed))"

definition resolve :: "env \<Rightarrow> id \<Rightarrow> resolve_input \<Rightarrow> resolve_result handler" where
  "resolve E task inp =
     bnd (gets (find_task task)) (\<lambda>found.
     case found of None \<Rightarrow> ret Not_found
     | Some h \<Rightarrow>
       if h_status h \<noteq> Open then ret Not_open
       else if ri_action inp = Do_resume then resolve_resume E task inp h
       else andthen (case (h_blocking h, h_run h) of
                (True, Some run) \<Rightarrow> bnd (supersede_parked run) (\<lambda>_. ret ()) | _ \<Rightarrow> ret ())
           (andthen (close_task task (if ri_action inp = Dismiss then Dismissed else Resolved) inp) (ret Closed)))"

section \<open>Steps\<close>

context base_relation
begin

lemma steps_transition_to_running [steps_intros]: "steps R (transition_to_running E ws ag tk)"
  unfolding transition_to_running_def by (intro steps_intros)

lemma steps_close_task [steps_intros]: "steps R (close_task i s inp)"
  unfolding close_task_def by (intro steps_intros)

end

context world_relation
begin

lemma steps_supersede [steps_intros]: "steps R (supersede_parked i)"
  unfolding supersede_parked_def by (rule R_update_run, rule run_step.supersede) (auto simp: same_run_def)

lemma steps_supersede_and_insert [steps_intros]:
  "r_status r0 = Queued \<Longrightarrow> steps R (supersede_and_insert parked r0)"
  unfolding supersede_and_insert_def by (intro steps_intros R_insert_run)

lemma steps_resume_run [steps_intros]: "steps R (resume_run E parked a task g)"
  unfolding resume_run_def
  by (intro steps_intros) (auto simp: queued_run_def split: sum.splits option.splits intro!: steps_intros)

lemma steps_resolve [steps_intros]: "steps R (resolve E task inp)"
  unfolding resolve_def resolve_resume_def resolve_target_agent_def
  by (intro steps_intros) (auto split: bool.splits option.splits resume_run_result.splits intro!: steps_intros)

end

section \<open>Properties\<close>

definition superseded_at :: "int \<Rightarrow> run \<Rightarrow> run" where
  "superseded_at now r = r\<lparr>r_status := Superseded, r_finished := Some now\<rparr>"

lemma supersede_hit:
  assumes "world_ok w" and "r \<in> set (w_runs w)" and "r_status r = Awaiting_human"
  shows "supersede_parked (r_id r) w = (Inr True,
    w\<lparr>w_runs := map (\<lambda>s. if r_id s = r_id r then superseded_at (w_now w) r else s) (w_runs w)\<rparr>)"
  unfolding supersede_parked_def superseded_at_def using assms
  by (intro update_run_hit) (auto simp: same_run_def active_def)

lemma supersede_and_insert_hit:
  assumes ok: "world_ok w" and r: "r \<in> set (w_runs w)" "r_status r = Awaiting_human"
    and r0: "r_status r0 = Queued" "r_ticket r0 = r_ticket r" "r_workspace r0 = r_workspace r"
  shows "supersede_and_insert (r_id r) r0 w = (Inr (Some (w_next w)),
    w\<lparr>w_runs := map (\<lambda>s. if r_id s = r_id r then superseded_at (w_now w) r else s) (w_runs w)
        @ [r0\<lparr>r_id := w_next w, r_created := w_now w\<rparr>], w_next := Suc (w_next w)\<rparr>)"
proof -
  let ?rs = "map (\<lambda>s. if r_id s = r_id r then superseded_at (w_now w) r else s) (w_runs w)"
  let ?n = "r0\<lparr>r_id := w_next w, r_created := w_now w\<rparr>"
  have "\<not> index_clash ?n s" if "s \<in> set ?rs" for s
  proof
    assume clash: "index_clash ?n s"
    with that have s: "s \<in> set (w_runs w)" "r_id s \<noteq> r_id r"
      by (auto simp: superseded_at_def index_clash_def active_def split: if_splits)
    then have "index_clash r s"
      using clash r r0 by (auto simp: index_clash_def active_def split: option.splits)
    then show False using ok s r by (auto simp: world_ok_def one_active_def)
  qed
  then have "insert_run r0 (w\<lparr>w_runs := ?rs\<rparr>) =
      (Inr (w_next w), w\<lparr>w_runs := ?rs @ [?n], w_next := Suc (w_next w)\<rparr>)"
    by (simp add: insert_run_def Let_def)
  then show ?thesis
    by (simp add: supersede_and_insert_def act_simps supersede_hit [OF ok r])
qed

lemma supersede_and_insert_miss:
  "(\<And>r. r \<in> set (w_runs w) \<Longrightarrow> r_id r = i \<Longrightarrow> r_status r \<noteq> Awaiting_human) \<Longrightarrow>
    supersede_and_insert i r0 w = (Inr None, w)"
  by (simp add: supersede_and_insert_def act_simps supersede_parked_def update_run_miss)

lemma transition_to_running_frame:
  "\<exists>cs. transition_to_running E ws ag tk w = (Inr (), w\<lparr>w_jira := w_jira w @ cs\<rparr>)"
proof -
  have id: "\<exists>cs. w = w\<lparr>w_jira := w_jira w @ cs\<rparr>" by (rule exI [of _ "[]"]) simp
  show ?thesis
    by (auto simp: transition_to_running_def act_simps jira_connect_def jira_transition_to_def
      answer_def done_or_def id split: option.splits)
qed

lemma close_task_closes:
  assumes "find_task i (snd (close_task i s inp w)) = Some h"
  shows "h_status h = s"
proof -
  let ?f = "\<lambda>h0. if h_id h0 = i then h0\<lparr>h_status := s, h_resolution := ri_answer inp,
      h_resolved_at := Some (w_now w), h_resolved_by := ri_resolved_by inp\<rparr> else h0"
  have "h \<in> set (w_tasks (snd (close_task i s inp w)))" and h: "h_id h = i"
    using find_Some_mem [OF assms [unfolded find_task_def]] by blast+
  then have "h \<in> ?f ` set (w_tasks w)" by (simp add: close_task_def update_task_def modify_def)
  then obtain h0 where h0: "h = ?f h0" by (rule imageE)
  then have "h_id h0 = i" using h by (cases "h_id h0 = i") simp_all
  then show ?thesis using h0 by simp
qed

lemma find_run_appended:
  assumes "world_ok w" and "r \<in> set (w_runs w)" and "r_id r' = r_id r"
    and "w_runs w' = map (\<lambda>s. if r_id s = r_id r then r' else s) (w_runs w) @ [n]" and "r_id n = w_next w"
  shows "find_run (r_id r) w' = Some r'" and "find_run (w_next w) w' = Some n"
proof -
  have fresh: "\<forall>s\<in>set (w_runs w). r_id s \<noteq> w_next w" using assms(1) by (auto simp: world_ok_def)
  have hit: "find (\<lambda>s. r_id s = r_id r) (map (\<lambda>s. if r_id s = r_id r then r' else s) (w_runs w)) = Some r'"
    by (rule find_map_replaced [OF assms(2,3)])
  show "find_run (r_id r) w' = Some r'"
    unfolding find_run_def assms(4) find_append hit by simp
  have miss: "find (\<lambda>s. r_id s = w_next w) (map (\<lambda>s. if r_id s = r_id r then r' else s) (w_runs w)) = None"
    unfolding find_None_iff using fresh assms(2,3) by fastforce
  show "find_run (w_next w) w' = Some n"
    unfolding find_run_def assms(4) find_append miss using assms(5) by simp
qed

text \<open>
  C8. Resuming continues the work exactly once: answering an open blocking task of a parked
  run supersedes that run and, in the same transaction, queues one new run of the same agent on
  the same ticket with the attempt count advanced, hands its job to the agent's queue and
  resolves the task - the one-active-run index never stands in the way, and whatever Jira
  answers to the running transition changes none of it.
\<close>

theorem resume_continues:
  assumes "world_ok w" and "find_task task w = Some h" and "h_status h = Open" and "h_blocking h"
    and "h_run h = Some i" and "find_run i w = Some r" and "r_status r = Awaiting_human"
    and "ri_action inp = Do_resume" and "ri_target inp = None" and "\<forall>js j. env_queue_add E js j = None"
  shows "\<exists>w' n. resolve E task inp w = (Inr (Resumed (w_next w)), w') \<and>
     find_run i w' = Some (superseded_at (w_now w) r) \<and>
     find_run (w_next w) w' = Some n \<and> r_status n = Queued \<and> r_ticket n = r_ticket r \<and>
     r_agent n = r_agent r \<and> r_attempt n = r_attempt r + 1 \<and>
     (\<exists>j. w_jobs w' = w_jobs w @ [j] \<and> j_run j = w_next w \<and> j_queue j = r_executor_type r) \<and>
     (\<forall>h'. find_task task w' = Some h' \<longrightarrow> h_status h' = Resolved)"
proof -
  from assms(6) have r: "r \<in> set (w_runs w)" "r_id r = i" using find_run_Some by blast+
  define orch where "orch = (case find_agent (r_agent r) w of None \<Rightarrow> False | Some a \<Rightarrow> a_is_orchestrator a)"
  define ev where "ev = resume_trigger_event i (r_trigger r) orch orch task (ri_answer inp)
      (case find_agent (r_agent r) w of None \<Rightarrow> JNull | Some a \<Rightarrow> a_behavior a)"
  define r0 where "r0 = queued_run (r_workspace r) (r_ticket r) (r_agent r) (r_executor_type r) (r_attempt r + 1) ev"
  define n where "n = r0\<lparr>r_id := w_next w, r_created := w_now w\<rparr>"
  define j where "j = \<lparr>j_queue = r_executor_type r, j_run = w_next w, j_dedup = None, j_attempts = None\<rparr>"
  let ?v = "w\<lparr>w_runs := map (\<lambda>s. if r_id s = i then superseded_at (w_now w) r else s) (w_runs w) @ [n],
      w_next := Suc (w_next w)\<rparr>"
  have ins: "supersede_and_insert i r0 w = (Inr (Some (w_next w)), ?v)"
    using supersede_and_insert_hit [OF assms(1) r(1) assms(7), of r0] r(2)
    by (simp add: n_def r0_def queued_run_def)
  obtain cs where tr: "transition_to_running E (r_workspace r) (r_agent r) (r_ticket r) (?v\<lparr>w_jobs := w_jobs w @ [j]\<rparr>) =
      (Inr (), ?v\<lparr>w_jobs := w_jobs w @ [j], w_jira := w_jira w @ cs\<rparr>)"
    using transition_to_running_frame [of E "r_workspace r" "r_agent r" "r_ticket r" "?v\<lparr>w_jobs := w_jobs w @ [j]\<rparr>"]
    by auto
  let ?u = "?v\<lparr>w_jobs := w_jobs w @ [j], w_jira := w_jira w @ cs\<rparr>"
  have rr: "resume_run E i (ri_answer inp) task None w = (Inr (RR_resumed (w_next w)), ?u)"
    using assms(6,10) ins tr
    by (simp add: resume_run_def act_simps Let_def queue_add_def orch_def [symmetric] ev_def [symmetric]
        r0_def [symmetric] j_def)
  let ?w = "snd (close_task task Resolved inp ?u)"
  have res: "resolve E task inp w = (Inr (Resumed (w_next w)), ?w)"
    using assms(2-5,8,9) rr
    by (simp add: resolve_def resolve_resume_def act_simps close_task_def update_task_def)
  have "r_id (superseded_at (w_now w) r) = r_id r" "r_id n = w_next w"
    by (simp_all add: superseded_at_def n_def)
  from find_run_appended [OF assms(1) r(1) this(1) _ this(2), of ?w]
  have "find_run i ?w = Some (superseded_at (w_now w) r)" "find_run (w_next w) ?w = Some n"
    using r(2) by (simp_all add: close_task_def update_task_def act_simps)
  moreover have "\<forall>h'. find_task task ?w = Some h' \<longrightarrow> h_status h' = Resolved"
    using close_task_closes by blast
  moreover have "w_jobs ?w = w_jobs w @ [j]" by (simp add: close_task_def update_task_def act_simps)
  moreover have "r_status n = Queued" "r_ticket n = r_ticket r" "r_agent n = r_agent r" "r_attempt n = r_attempt r + 1"
    by (simp_all add: n_def r0_def queued_run_def)
  ultimately show ?thesis using res by (auto simp: j_def)
qed

definition sample_question :: human_task where
  "sample_question = (new_task 1 (Some 7) (Some 4) Question ''Which?'' None None True)\<lparr>h_id := 8\<rparr>"

definition sample_parked_world :: world where
  "sample_parked_world = (sample_world [sample_run 7 (Some 4) Awaiting_human])\<lparr>w_tasks := [sample_question]\<rparr>"

lemma sample_parked_ok: "world_ok sample_parked_world"
  using sample_single_ok [of 7 "Some 4" Awaiting_human] by (simp add: sample_parked_world_def world_ok_def)

definition sample_answer :: resolve_input where
  "sample_answer = \<lparr>ri_action = Do_resume, ri_answer = Some ''the first'', ri_resolved_by = None, ri_target = None\<rparr>"

theorem resume_continues_witness:
  "fst (resolve sample_env 8 sample_answer sample_parked_world) = Inr (Resumed 10)"
proof -
  have "find_task 8 sample_parked_world = Some sample_question"
    "find_run 7 sample_parked_world = Some (sample_run 7 (Some 4) Awaiting_human)"
    by (simp_all add: sample_parked_world_def sample_question_def new_task_def find_task_def find_run_def sample_defs)
  from resume_continues [OF sample_parked_ok this(1) _ _ _ this(2), of sample_answer sample_env]
  show ?thesis
    by (auto simp: sample_question_def new_task_def sample_answer_def sample_env_def sample_parked_world_def
        sample_world_def sample_run_def)
qed

text \<open>
  A task is answered once: resolving a task that is no longer open changes nothing, and
  resuming one whose run is no longer parked reports that without superseding, inserting,
  enqueueing or closing anything.
\<close>

theorem resolve_only_once:
  assumes "find_task task w = Some h" and
    "h_status h \<noteq> Open \<or> ri_action inp = Do_resume \<and> ri_target inp = None \<and> h_blocking h \<and>
       (\<exists>i. h_run h = Some i \<and> (\<forall>r\<in>set (w_runs w). r_id r = i \<longrightarrow> r_status r \<noteq> Awaiting_human))"
  shows "resolve E task inp w = (Inr Not_open, w)"
proof (cases "h_status h = Open")
  case False
  then show ?thesis using assms(1) by (simp add: resolve_def act_simps)
next
  case True
  with assms(2) obtain i where i: "ri_action inp = Do_resume" "ri_target inp = None" "h_blocking h" "h_run h = Some i"
    and miss: "\<And>r. r \<in> set (w_runs w) \<Longrightarrow> r_id r = i \<Longrightarrow> r_status r \<noteq> Awaiting_human" by blast
  have "resume_run E i (ri_answer inp) task None w = (Inr RR_gone, w)"
    by (cases "find_run i w") (simp_all add: resume_run_def act_simps Let_def supersede_and_insert_miss [OF miss])
  then show ?thesis using True i assms(1) by (simp add: resolve_def resolve_resume_def act_simps)
qed

theorem resolve_only_once_witness:
  "resolve sample_env 8 sample_answer ((sample_world [sample_run 7 (Some 4) Cancelled])\<lparr>w_tasks := [sample_question]\<rparr>) =
     (Inr Not_open, (sample_world [sample_run 7 (Some 4) Cancelled])\<lparr>w_tasks := [sample_question]\<rparr>)"
  by (rule resolve_only_once [where h = sample_question])
     (auto simp: find_task_def sample_question_def new_task_def sample_answer_def sample_defs)

end
