(* ===== verification/System.thy ===== *)
theory System
  imports Worker Resume RunsApi
begin

text \<open>
  The program as a whole. \<open>db_step\<close> is one database statement, queue insert or Jira call of any
  handler, or the passing of time; every entry point of the program is shown to be a sequence of
  them, so what holds along all sequences of \<open>db_step\<close> holds for every interleaving of the
  handlers, statement by statement, over any number of processes. \<open>sys_step\<close> is one entry point
  run to its end on a worker node; it closes the entry points that write runs, their tasks, events,
  checks, tickets and queue entries (the writes of agents, settings and secrets are the steps of
  \<open>ConfigSafety.thy\<close>). The abstract specification is a ledger: what every run ever promised claims (a
  ticket, or the setup of a workspace) and how far it is; the program is shown to refine it.
\<close>

section \<open>Statements\<close>

inductive db_step :: "world \<Rightarrow> world \<Rightarrow> bool" where
  db_insert_run: "r_status r0 = Queued \<Longrightarrow> db_step w (snd (insert_run r0 w))"
| db_update_run: "(\<And>r t. P r \<Longrightarrow> run_step r (f t r)) \<Longrightarrow> db_step w (snd (update_run i P f w))"
| db_insert_event: "db_step w (snd (insert_event i ty p w))"
| db_insert_checks: "db_step w (snd (insert_checks ks w))"
| db_insert_task: "db_step w (snd (insert_task h w))"
| db_update_task: "db_step w (snd (update_task i g w))"
| db_insert_ticket: "db_step w (snd (insert_ticket tk w))"
| db_update_ticket: "db_step w (snd (update_ticket i gt w))"
| db_insert_agent: "db_step w (snd (insert_agent a w))"
| db_update_workspace: "db_step w (snd (update_workspace i gs w))"
| db_call: "db_step w (w\<lparr>w_jira := w_jira w @ [c]\<rparr>)"
| db_queue_add: "db_step w (snd (queue_add E j w))"
| db_time: "w_now w \<le> t \<Longrightarrow> db_step w (w\<lparr>w_now := t\<rparr>)"

inductive_cases db_stepE: "db_step w w'"

lemma db_answer: "db_step\<^sup>*\<^sup>* w (snd (answer q a w))"
  by (simp add: answer_def db_call r_into_rtranclp)

interpretation db: world_relation "db_step\<^sup>*\<^sup>*"
  by unfold_locales
    (auto simp: steps_def intro: db_answer db_step.intros [THEN r_into_rtranclp [of db_step]])

section \<open>Entry points\<close>

text \<open>
  The requests the two processes serve that write runs: a trigger, a cancellation or a retry from the dashboard, the three writes of the
  callback API, the resolution of a human task, the reconcile job, a status change and the start and
  the end of a run as the pipeline hears of them, a release of waiting tickets, the outbox scan, a
  pickup of a job; and the clock. An executor may itself do whatever the system can do while it runs.
\<close>

inductive sys_step :: "node \<Rightarrow> node \<Rightarrow> bool" where
  sys_trigger: "sys_step n (snd (on_world (trigger E tk ag ev) n))"
| sys_cancel: "sys_step n (snd (on_world (cancel i) n))"
| sys_cancel_all: "sys_step n (snd (on_world (cancel_all ws) n))"
| sys_retry: "sys_step n (snd (on_world (retry_run E i) n))"
| sys_progress: "sys_step n (snd (on_world (progress i body) n))"
| sys_human: "sys_step n (snd (on_world (human E i body) n))"
| sys_complete: "sys_step n (snd (on_world (complete uid E i body header) n))"
| sys_resolve: "sys_step n (snd (on_world (resolve E task inp) n))"
| sys_team: "sys_step n (snd (on_world (create_team_direct E ws proposed) n))"
| sys_reconcile: "sys_step n (snd (on_world (reconcile_run V E) n))"
| sys_status: "sys_step n (snd (on_world (on_status_changed E tk i st src) n))"
| sys_started: "sys_step n (snd (on_world (on_run_started E i) n))"
| sys_finished: "sys_step n (snd (on_world (on_run_finished E i) n))"
| sys_release: "sys_step n (snd (on_world (release_for E ws) n))"
| sys_dependents: "sys_step n (snd (on_world (release_dependents_of E ws key) n))"
| sys_outbox: "sys_step n (snd (outbox_reconcile V dt uid E n))"
| sys_claude: "(\<And>l s t m. sys_step\<^sup>*\<^sup>* m (snd (p_exec (P :: processor) l s t m))) \<Longrightarrow>
    sys_step n (snd (process_claude P i made k n))"
| sys_mock: "(\<And>l s t m. sys_step\<^sup>*\<^sup>* m (snd (p_exec (P :: processor) l s t m))) \<Longrightarrow>
    sys_step n (snd (process_mock P i made k n))"
| sys_report: "sys_step n (snd (write_outbox run report n))"
| sys_breadcrumb: "sys_step n (snd (append_breadcrumb run rec n))"
| sys_time: "w_now (n_world n) \<le> t \<Longrightarrow> sys_step n (n\<lparr>n_world := (n_world n)\<lparr>w_now := t\<rparr>\<rparr>)"

lemma steps_node: "steps (node_rel R) m \<Longrightarrow> R (n_world n) (n_world (snd (m n)))"
  by (auto simp: steps_def node_rel_def)

text \<open>The rule induction yields the claim for an executor's own steps along with the steps.\<close>

lemma executor_db:
  assumes "\<And>l s t m. (\<lambda>n n'. sys_step n n' \<and> db_step\<^sup>*\<^sup>* (n_world n) (n_world n'))\<^sup>*\<^sup>* m (snd (X l s t m))"
  shows "steps (node_rel db_step\<^sup>*\<^sup>*) (X l s t)"
  unfolding steps_def node_rel_def
proof
  fix m
  show "db_step\<^sup>*\<^sup>* (n_world m) (n_world (snd (X l s t m)))"
    using assms [of m l s t] by (induction rule: rtranclp_induct) auto
qed

lemma steps_breadcrumb: "steps (node_rel db_step\<^sup>*\<^sup>*) (append_breadcrumb run rec)"
  unfolding append_breadcrumb_def by (rule db.steps_files) (simp add: Let_def)

text \<open>
  Every entry point is made of database statements: whatever a request, a job or a timer does to
  the database, together with everything an executor does while it runs, is a sequence of
  \<open>db_step\<close>, each of which writes a run only by a step of the run state machine.
\<close>

lemma entry_point_db:
  "sys_step n n' \<Longrightarrow> db_step\<^sup>*\<^sup>* (n_world n) (n_world n')"
proof (induction rule: sys_step.induct)
  case (sys_claude P i made k n)
  show ?case by (rule steps_node, rule db.steps_pickup(1), rule executor_db) (rule sys_claude)
next
  case (sys_mock P i made k n)
  show ?case by (rule steps_node, rule db.steps_pickup(2), rule executor_db) (rule sys_mock)
next
  case (sys_breadcrumb run rec n)
  show ?case by (rule steps_node) (rule steps_breadcrumb)
next
  case (sys_time n t)
  then show ?case by (simp add: db_time r_into_rtranclp)
qed (rule steps_node, intro steps_intros)+

section \<open>Invariants of all interleavings\<close>

lemma db_step_keeps_ok: "db_step w w' \<Longrightarrow> keeps_ok w w'"
proof (induction rule: db_step.induct)
  case (db_insert_run r0 w)
  then show ?case by (rule stepsD [OF wf.R_insert_run])
next
  case (db_update_run P f w i)
  then show ?case by (rule keeps_ok_update_run)
qed (rule stepsD [OF wf.steps_prims(1)] stepsD [OF wf.steps_prims(2)] stepsD [OF wf.steps_prims(3)]
    stepsD [OF wf.steps_prims(4)] stepsD [OF wf.steps_prims(5)] stepsD [OF wf.steps_prims(6)]
    stepsD [OF wf.steps_prims(7)] stepsD [OF wf.steps_prims(8)] stepsD [OF wf.steps_prims(9)] |
    simp add: keeps_ok_def world_ok_def)+

lemma db_step_history: "db_step w w' \<Longrightarrow> history w w'"
proof (induction rule: db_step.induct)
  case (db_insert_run r0 w)
  then show ?case by (rule stepsD [OF hist.R_insert_run])
next
  case (db_update_run P f w i)
  then show ?case by (rule history_update_run)
qed (rule stepsD [OF hist.steps_prims(1)] stepsD [OF hist.steps_prims(2)] stepsD [OF hist.steps_prims(3)]
    stepsD [OF hist.steps_prims(4)] stepsD [OF hist.steps_prims(5)] stepsD [OF hist.steps_prims(6)]
    stepsD [OF hist.steps_prims(7)] stepsD [OF hist.steps_prims(8)] stepsD [OF hist.steps_prims(9)] |
    rule history_same_runs; simp)+

lemma db_steps_keep_ok: "db_step\<^sup>*\<^sup>* w w' \<Longrightarrow> keeps_ok w w'"
  by (induction rule: rtranclp_induct) (auto simp: keeps_ok_def dest!: db_step_keeps_ok)

lemma db_steps_history: "db_step\<^sup>*\<^sup>* w w' \<Longrightarrow> history w w'"
  by (induction rule: rtranclp_induct) (auto intro: history_refl history_trans db_step_history)

section \<open>The ledger\<close>

datatype slot = Ticket_slot id | Setup_slot id

definition slot_of :: "run \<Rightarrow> slot" where
  "slot_of r = (case r_ticket r of Some t \<Rightarrow> Ticket_slot t | None \<Rightarrow> Setup_slot (r_workspace r))"

text \<open>
  How far a run is. A run that failed or timed out without an outcome is undecided: its verdict may
  still be found in an outbox. Every other run that is over is decided.
\<close>

datatype phase = Is_queued | Is_running | Is_waiting | Undecided | Decided run_status "outcome option"

type_synonym ledger = "id \<Rightarrow> (slot \<times> phase) option"

definition occupies :: "phase \<Rightarrow> bool" where
  "occupies p \<longleftrightarrow> p = Is_queued \<or> p = Is_running \<or> p = Is_waiting"

definition taken :: "ledger \<Rightarrow> slot \<Rightarrow> bool" where
  "taken L s \<longleftrightarrow> (\<exists>i p. L i = Some (s, p) \<and> occupies p)"

text \<open>The ways on for a run that keeps its claim, gives it up, or is decided late.\<close>

inductive phase_step :: "phase \<Rightarrow> phase \<Rightarrow> bool" where
  picked: "phase_step Is_queued Is_running"
| put_back: "phase_step Is_running Is_queued"
| asks: "p = Is_queued \<or> p = Is_running \<Longrightarrow> phase_step p Is_waiting"
| ends: "occupies p \<Longrightarrow> st = Succeeded \<or> st = Cancelled \<or> (st = Failed \<or> st = Timed_out) \<and> out \<noteq> None \<Longrightarrow>
    phase_step p (Decided st out)"
| lost: "occupies p \<Longrightarrow> phase_step p Undecided"
| answered: "phase_step Is_waiting (Decided Superseded out)"
| found: "st = Succeeded \<or> st = Failed \<Longrightarrow> out \<noteq> None \<Longrightarrow> phase_step Undecided (Decided st out)"

text \<open>
  One step of the specification: a new run takes a free slot, a run goes on, or an undecided run whose
  report asks for a person comes back to its slot, if nobody has taken it. Entries are never removed,
  and an entry never changes its slot.
\<close>

inductive ledger_step :: "ledger \<Rightarrow> ledger \<Rightarrow> bool" where
  opens: "L i = None \<Longrightarrow> \<not> taken L s \<Longrightarrow> ledger_step L (L(i \<mapsto> (s, Is_queued)))"
| goes_on: "L i = Some (s, p) \<Longrightarrow> phase_step p p' \<Longrightarrow> ledger_step L (L(i \<mapsto> (s, p')))"
| comes_back: "L i = Some (s, Undecided) \<Longrightarrow> \<not> taken L s \<Longrightarrow> ledger_step L (L(i \<mapsto> (s, Is_waiting)))"

inductive_cases phase_stepE: "phase_step p p'"
inductive_cases ledger_stepE: "ledger_step L L'"

text \<open>What the specification promises: decided entries stand, and a slot has one occupant.\<close>

lemma ledger_decided: "ledger_step L L' \<Longrightarrow> L i = Some (s, Decided st out) \<Longrightarrow> L' i = L i"
  by (auto elim!: ledger_stepE phase_stepE simp: occupies_def)

lemma ledger_one_occupant:
  assumes "ledger_step L L'" and "\<And>i j p q. L i = Some (s, p) \<Longrightarrow> occupies p \<Longrightarrow> L j = Some (s, q) \<Longrightarrow> occupies q \<Longrightarrow> i = j"
    and "L' i = Some (s, p)" and "occupies p" and "L' j = Some (s, q)" and "occupies q"
  shows "i = j"
  using assms(1)
proof (cases rule: ledger_step.cases)
  case (goes_on k s' u u')
  then have "occupies u" if "occupies u'" using that by (auto elim: phase_stepE simp: occupies_def)
  then show ?thesis using goes_on assms(2-6) by (auto split: if_splits)
qed (use assms(2-6) in \<open>auto simp: taken_def split: if_splits\<close>)

text \<open>The abstraction.\<close>

definition phase_of :: "run \<Rightarrow> phase" where
  "phase_of r = (case r_status r of Queued \<Rightarrow> Is_queued | Running \<Rightarrow> Is_running | Awaiting_human \<Rightarrow> Is_waiting
     | st \<Rightarrow> if (st = Failed \<or> st = Timed_out) \<and> r_outcome r = None then Undecided else Decided st (r_outcome r))"

definition ledger_of :: "world \<Rightarrow> ledger" where
  "ledger_of w i = map_option (\<lambda>r. (slot_of r, phase_of r)) (find_run i w)"

lemma occupies_phase: "occupies (phase_of r) \<longleftrightarrow> active (r_status r)"
  by (cases "r_status r") (auto simp: phase_of_def occupies_def active_def)

lemma index_clash_slot:
  "index_clash r r' \<longleftrightarrow> r_id r \<noteq> r_id r' \<and> active (r_status r) \<and> active (r_status r') \<and> slot_of r = slot_of r'"
  by (auto simp: index_clash_def slot_of_def split: option.splits)

lemma same_run_slot: "same_run r r' \<Longrightarrow> slot_of r' = slot_of r"
  by (simp add: same_run_def slot_of_def split: option.split)

lemma taken_ledger:
  assumes "world_ok w"
  shows "taken (ledger_of w) s \<longleftrightarrow> (\<exists>r\<in>set (w_runs w). active (r_status r) \<and> slot_of r = s)"
proof
  assume "taken (ledger_of w) s"
  then obtain i r where "find_run i w = Some r" "slot_of r = s" "occupies (phase_of r)"
    by (auto simp: taken_def ledger_of_def)
  then show "\<exists>r\<in>set (w_runs w). active (r_status r) \<and> slot_of r = s" using find_run_Some occupies_phase by blast
next
  assume "\<exists>r\<in>set (w_runs w). active (r_status r) \<and> slot_of r = s"
  then obtain r where r: "r \<in> set (w_runs w)" "active (r_status r)" "slot_of r = s" by blast
  then have "find_run (r_id r) w = Some r" using find_run_in [OF assms] by simp
  then show "taken (ledger_of w) s" unfolding taken_def ledger_of_def using r occupies_phase by fastforce
qed

text \<open>A row that changes by a step of the run state machine moves its entry as the specification has it.\<close>

lemma run_step_phase:
  assumes "run_step r r'"
  shows "phase_of r' = phase_of r \<or> phase_step (phase_of r) (phase_of r') \<or>
    phase_of r = Undecided \<and> phase_of r' = Is_waiting \<and> active (r_status r')"
  using assms
proof (cases rule: run_step.cases)
  case finish
  have occ: "occupies (phase_of r)" using finish(2) by (simp add: occupies_phase)
  then have wait: "phase_of r = Is_waiting \<or> phase_step (phase_of r) Is_waiting" by (auto simp: occupies_def intro: asks)
  have "phase_of r' = Is_waiting \<or> phase_of r' = Undecided \<or>
      (\<exists>st. phase_of r' = Decided st (r_outcome r') \<and>
        (st = Succeeded \<or> st = Cancelled \<or> (st = Failed \<or> st = Timed_out) \<and> r_outcome r' \<noteq> None))"
    using finish(3) by (auto simp: phase_of_def)
  then show ?thesis using wait lost [OF occ] ends [OF occ] by metis
next
  case rescue
  then show ?thesis by (auto simp: phase_of_def active_def intro!: phase_step.intros)
next
  case account
  then have "phase_of r' = phase_of r" by (cases "r_status r") (simp_all add: phase_of_def same_verdict_def)
  then show ?thesis by blast
qed (auto simp: phase_of_def same_verdict_def intro!: phase_step.intros)

lemma ledger_same: "w_runs w' = w_runs w \<Longrightarrow> ledger_of w' = ledger_of w"
  by (simp add: fun_eq_iff ledger_of_def find_run_def)

lemma ledger_insert:
  assumes "world_ok w" and "r_status r0 = Queued" and "fst (insert_run r0 w) = Inr i"
  shows "ledger_step (ledger_of w) (ledger_of (snd (insert_run r0 w)))"
proof -
  let ?r = "r0\<lparr>r_id := w_next w, r_created := w_now w\<rparr>"
  have runs: "w_runs (snd (insert_run r0 w)) = w_runs w @ [?r]" and free: "\<forall>r'\<in>set (w_runs w). \<not> index_clash ?r r'"
    using assms(3) by (auto simp: insert_run_def Let_def split: if_splits)
  have fresh: "r_id r \<noteq> w_next w" if "r \<in> set (w_runs w)" for r using assms(1) that by (auto simp: world_ok_def)
  then have none: "find_run (w_next w) w = None" by (auto simp: find_run_def find_None_iff)
  have "find_run j (snd (insert_run r0 w)) = (if j = w_next w then Some ?r else find_run j w)" for j
    using fresh none by (auto simp: find_run_def runs find_append split: option.splits)
  moreover have "phase_of ?r = Is_queued" using assms(2) by (simp add: phase_of_def)
  ultimately have led: "ledger_of (snd (insert_run r0 w)) = (ledger_of w)(w_next w \<mapsto> (slot_of ?r, Is_queued))"
    by (simp add: fun_eq_iff ledger_of_def)
  have "\<not> taken (ledger_of w) (slot_of ?r)"
    using free fresh assms(2) by (fastforce simp: taken_ledger [OF assms(1)] index_clash_slot active_def)
  then show ?thesis unfolding led using none by (intro opens) (simp_all add: ledger_of_def)
qed

lemma ledger_update:
  assumes ok: "world_ok w" and steps: "\<And>r t. P r \<Longrightarrow> run_step r (f t r)"
  shows "ledger_of (snd (update_run i P f w)) = ledger_of w \<or>
    ledger_step (ledger_of w) (ledger_of (snd (update_run i P f w)))"
proof (cases rule: update_run_cases [of i P f w])
  case hit
  obtain r where r: "r \<in> set (w_runs w)" "r_id r = i" "P r" using hit(2) by blast
  let ?r' = "f (w_now w) r" and ?w' = "snd (update_run i P f w)"
  have step: "run_step r ?r'" by (rule steps [OF r(3)])
  note same = run_step_same_run [OF step]
  have only: "s = r" if "s \<in> set (w_runs w)" "r_id s = i" for s
    using ok that r by (auto simp: world_ok_def distinct_map dest: inj_onD)
  have "w_runs ?w' = map (\<lambda>r. if r_id r = i \<and> P r then f (w_now w) r else r) (w_runs w)" unfolding hit(1) by simp
  also have "\<dots> = map (\<lambda>s. if s = r then ?r' else s) (w_runs w)"
  proof (rule map_cong [OF refl])
    fix s
    assume "s \<in> set (w_runs w)"
    then have "(r_id s = i \<and> P s) = (s = r)" using only r(2,3) by blast
    then show "(if r_id s = i \<and> P s then f (w_now w) s else s) = (if s = r then ?r' else s)" by simp
  qed
  finally have runs: "w_runs ?w' = map (\<lambda>s. if s = r then ?r' else s) (w_runs w)" .
  have found: "find_run i w = Some r" using find_run_in [OF ok r(1)] r(2) by simp
  have "find_run j ?w' = (if j = i then Some ?r' else find_run j w)" for j
  proof (cases "j = i")
    case True
    have "?r' \<in> set (w_runs ?w')" using r(1) by (force simp: runs)
    moreover have "world_ok ?w'" using keeps_ok_update_run [of P f w i] steps ok by (simp add: keeps_ok_def)
    moreover have "r_id ?r' = i" using same r(2) by (simp add: same_run_def)
    ultimately show ?thesis using find_run_in [of ?w' ?r'] True by simp
  next
    case False
    have "find (\<lambda>s. r_id s = j) (map (\<lambda>s. if s = r then ?r' else s) xs) = find (\<lambda>s. r_id s = j) xs" for xs
      using False same r(2) by (induction xs) (auto simp: same_run_def)
    then show ?thesis using False by (simp add: find_run_def runs)
  qed
  then have led: "ledger_of ?w' = (ledger_of w)(i \<mapsto> (slot_of r, phase_of ?r'))"
    using same_run_slot [OF same] by (simp add: fun_eq_iff ledger_of_def)
  have entry: "ledger_of w i = Some (slot_of r, phase_of r)" by (simp add: ledger_of_def found)
  from run_step_phase [OF step] show ?thesis
  proof (elim disjE conjE)
    assume "phase_of ?r' = phase_of r"
    then show ?thesis using led entry by (simp add: fun_upd_idem)
  next
    assume "phase_step (phase_of r) (phase_of ?r')"
    then show ?thesis unfolding led using goes_on [of "ledger_of w", OF entry] by blast
  next
    assume p: "phase_of r = Undecided" "phase_of ?r' = Is_waiting" "active (r_status ?r')"
    then have r_over: "\<not> active (r_status r)" using occupies_phase [of r] by (simp add: occupies_def)
    have "\<not> taken (ledger_of w) (slot_of r)"
    proof
      assume "taken (ledger_of w) (slot_of r)"
      then obtain s where s: "s \<in> set (w_runs w)" "active (r_status s)" "slot_of s = slot_of r"
        using taken_ledger [OF ok] by blast
      then have "s \<noteq> r" using r_over by blast
      then have "r_id s \<noteq> i" and "s \<in> set (map (\<lambda>r. if r_id r = i \<and> P r then f (w_now w) r else r) (w_runs w))"
        using only s(1) by force+
      with hit(3) [OF r this(2)] show False
        using s p(3) same_run_slot [OF same] same r(2) by (auto simp: index_clash_slot same_run_def)
    qed
    then show ?thesis unfolding led p(2) using comes_back entry p(1) by simp
  qed
qed (simp_all add: fun_eq_iff)

lemma db_step_refines:
  assumes "db_step w w'" and ok: "world_ok w"
  shows "ledger_of w' = ledger_of w \<or> ledger_step (ledger_of w) (ledger_of w')"
  using assms(1)
proof (cases rule: db_step.cases)
  case (db_insert_run r0)
  show ?thesis
  proof (cases "fst (insert_run r0 w)")
    case (Inl e)
    then show ?thesis using db_insert_run by (auto simp: insert_run_def Let_def intro: ledger_same split: if_splits)
  next
    case (Inr i)
    then show ?thesis using ledger_insert [OF ok db_insert_run(2)] db_insert_run(1) by simp
  qed
next
  case (db_update_run P f i)
  then show ?thesis using ledger_update [OF ok, of P f i] by simp
qed (rule disjI1, rule ledger_same; simp add: insert_event_def insert_checks_def insert_task_def update_task_def insert_ticket_def
      update_ticket_def insert_agent_def update_workspace_def queue_add_def modify_def split: option.splits)+

lemma db_steps_refine:
  assumes "db_step\<^sup>*\<^sup>* w w'" and "world_ok w"
  shows "ledger_step\<^sup>*\<^sup>* (ledger_of w) (ledger_of w')"
  using assms(1)
proof (induction rule: rtranclp_induct)
  case (step v v')
  have "world_ok v" using db_steps_keep_ok [OF step.hyps(1)] assms(2) by (simp add: keeps_ok_def)
  from db_step_refines [OF step.hyps(2) this] step.IH show ?case
    by (auto intro: rtranclp.rtrancl_into_rtrancl)
qed simp

lemma entry_points_db: "sys_step\<^sup>*\<^sup>* n n' \<Longrightarrow> db_step\<^sup>*\<^sup>* (n_world n) (n_world n')"
  by (induction rule: rtranclp_induct) (auto dest!: entry_point_db)

lemma slot_count:
  assumes "world_ok w"
  shows "length (filter (\<lambda>r. active (r_status r) \<and> slot_of r = s) (w_runs w)) \<le> 1"
proof -
  let ?rs = "filter (\<lambda>r. active (r_status r) \<and> slot_of r = s) (w_runs w)"
  have "distinct (w_runs w)" using assms by (simp add: world_ok_def distinct_map)
  then have "distinct ?rs" by simp
  then have "length ?rs = card (set ?rs)" by (rule distinct_card [symmetric])
  moreover have "r = r'" if "r \<in> set ?rs" "r' \<in> set ?rs" for r r'
  proof -
    have "\<not> index_clash r r'" using assms that by (simp add: world_ok_def one_active_def)
    then have "r_id r = r_id r'" using that by (auto simp: index_clash_slot)
    then show ?thesis using assms that by (auto simp: world_ok_def distinct_map dest: inj_onD)
  qed
  ultimately show ?thesis using card_le_Suc0_iff_eq [OF List.finite_set, of ?rs] by (simp only: One_nat_def) blast
qed

section \<open>What every execution guarantees\<close>

text \<open>
  C1. Refinement: from a well-formed database, every statement of the program leaves the ledger as it
  is or takes one step of the specification, and so every execution - any mix of requests, jobs, timers
  and executors in any order - is a sequence of its steps: a run enters only queued and into a slot
  nobody occupies, keeps its slot for good, follows the phases of the specification, comes back from an
  undecided end only when its slot is free, and never again moves once it is decided.
\<close>

theorem program_refines_ledger:
  assumes "world_ok (n_world n)"
  shows "(\<forall>w'. db_step (n_world n) w' \<longrightarrow> ledger_of w' = ledger_of (n_world n) \<or>
      ledger_step (ledger_of (n_world n)) (ledger_of w')) \<and>
    (\<forall>n'. sys_step\<^sup>*\<^sup>* n n' \<longrightarrow> db_step\<^sup>*\<^sup>* (n_world n) (n_world n') \<and>
      ledger_step\<^sup>*\<^sup>* (ledger_of (n_world n)) (ledger_of (n_world n')))"
  using assms db_step_refines db_steps_refine entry_points_db by blast

text \<open>
  C2. Mutual exclusion: in every state the program reaches from a well-formed one at most one run of a
  ticket, and at most one setup run of a workspace, is queued, running or awaiting a person.
\<close>

theorem one_active_run_per_slot:
  "world_ok (n_world n) \<Longrightarrow> sys_step\<^sup>*\<^sup>* n n' \<Longrightarrow>
    length (filter (\<lambda>r. active (r_status r) \<and> slot_of r = s) (w_runs (n_world n'))) \<le> 1"
  by (rule slot_count) (use db_steps_keep_ok [OF entry_points_db] in \<open>simp add: keeps_ok_def\<close>)

text \<open>
  C3. Verdicts stand: once a run has succeeded, was cancelled or superseded, or failed with a verdict,
  no later request, job, timer or executor changes its status, report or outcome, nor removes it.
\<close>

theorem settled_verdict_stands:
  assumes "sys_step\<^sup>*\<^sup>* n n'" and "r \<in> set (w_runs (n_world n))" and "settled r"
  shows "\<exists>r'\<in>set (w_runs (n_world n')). same_run r r' \<and> same_verdict r r'"
proof -
  from history_run [OF db_steps_history [OF entry_points_db [OF assms(1)]] assms(2)]
  obtain r' where "r' \<in> set (w_runs (n_world n'))" "run_step\<^sup>*\<^sup>* r r'" by blast
  then show ?thesis using run_steps_same_run run_steps_settled assms(3) by blast
qed

section \<open>The theorems on a concrete execution\<close>

definition triggered_node :: node where
  "triggered_node = snd (on_world (trigger sample_env (Some 4) 3 None) (sample_node (sample_world [])))"

lemma sample_execution: "sys_step\<^sup>*\<^sup>* (sample_node (sample_world [])) triggered_node"
  unfolding triggered_node_def by (rule r_into_rtranclp) (rule sys_trigger)

lemma sample_node_ok: "world_ok (n_world (sample_node (sample_world [])))"
  by (simp add: sample_node_def sample_empty_ok)

lemma empty_ledger: "ledger_of (n_world (sample_node (sample_world []))) = (\<lambda>_. None)"
  by (simp add: fun_eq_iff ledger_of_def find_run_def sample_node_def sample_world_def)

lemma triggered_ledger: "ledger_of (n_world triggered_node) 10 = Some (Ticket_slot 4, Is_queued)"
  by code_simp

theorem program_refines_ledger_witness:
  "\<exists>L. ledger_step\<^sup>*\<^sup>* (\<lambda>_. None) L \<and> L 10 = Some (Ticket_slot 4, Is_queued)"
  using program_refines_ledger [OF sample_node_ok] sample_execution triggered_ledger empty_ledger by metis

theorem one_active_run_per_slot_witness:
  "length (filter (\<lambda>r. active (r_status r) \<and> slot_of r = Ticket_slot 4) (w_runs (n_world triggered_node))) \<le> 1"
  by (rule one_active_run_per_slot [OF sample_node_ok sample_execution])

theorem settled_verdict_stands_witness:
  "\<exists>r'\<in>set (w_runs (n_world (snd (on_world (on_run_finished sample_env 7)
      (sample_node (sample_world [sample_run 7 (Some 4) Succeeded])))))).
     same_run (sample_run 7 (Some 4) Succeeded) r' \<and> same_verdict (sample_run 7 (Some 4) Succeeded) r'"
  by (rule settled_verdict_stands [OF r_into_rtranclp [of sys_step, OF sys_finished]])
    (simp_all add: sample_node_def sample_world_def settled_def sample_run_def)

end
