(* ===== verification/WorkerLock.thy ===== *)
theory WorkerLock
  imports JsonText JsValues
begin

text \<open>
  The exclusive worker lock (\<open>apps/worker/src/worker-lock.service.ts\<close> and
  \<open>worker-lock.bootstrap.ts\<close>): many worker processes, one Redis, a key with a time to live.
  A tick of the ownership loop is three steps - the timer fires and a command is sent, Redis
  executes it, the process continues with the reply - so that the steps of different workers,
  the passing of time and network failures interleave between them. Redis itself is the
  documented behaviour of \<open>SET NX PX\<close>, \<open>GET\<close> and of the two compare-and-act scripts.
\<close>

section \<open>Identities and cadences\<close>

record lock_identity =
  li_mode :: string
  li_pid :: int
  li_hostname :: string

definition DEFAULT_WORKER_LOCK_TTL_MS :: rat where
  "DEFAULT_WORKER_LOCK_TTL_MS = 15000"

definition CONTENDER_TTL_MS :: int where
  "CONTENDER_TTL_MS = 30000"

definition worker_lock_key :: "string \<Rightarrow> string" where
  "worker_lock_key prefix = prefix @ '':worker-lock''"

definition contender_key_of :: "string \<Rightarrow> string" where
  "contender_key_of prefix = prefix @ '':worker-lock:contender''"

definition renew_interval_ms :: "int \<Rightarrow> int" where
  "renew_interval_ms ttl = max 100 (ttl div 3)"

definition acquire_interval_ms :: "int \<Rightarrow> int" where
  "acquire_interval_ms ttl = min 2000 (renew_interval_ms ttl)"

text \<open>\<open>Number(process.env.\<dots>)\<close>: a value that is not a positive number falls back to the default.\<close>

definition read_ttl_ms :: "string option \<Rightarrow> rat" where
  "read_ttl_ms raw = (case Option.bind raw js_number of
     Some q \<Rightarrow> if 0 < q then q else DEFAULT_WORKER_LOCK_TTL_MS
   | None \<Rightarrow> DEFAULT_WORKER_LOCK_TTL_MS)"

text \<open>The serialised identity of \<open>buildIdentity\<close>, stamped with the time it is built at.\<close>

definition identity_json :: "lock_identity \<Rightarrow> int \<Rightarrow> json" where
  "identity_json d now = JObj [(''mode'', JStr (li_mode d)), (''pid'', JNum (of_int (li_pid d))),
     (''hostname'', JStr (li_hostname d)), (''acquired_at'', JStr (to_iso_string now))]"

definition build_identity :: "lock_identity \<Rightarrow> int \<Rightarrow> string" where
  "build_identity d now = json_stringify (identity_json d now)"

definition parse_identity :: "string option \<Rightarrow> json option" where
  "parse_identity raw = (case raw of
     None \<Rightarrow> None
   | Some s \<Rightarrow> if s = [] then None else
       (case json_parse s of
          Some (JObj kvs) \<Rightarrow> Some (JObj kvs)
        | Some (JArr js) \<Rightarrow> Some (JArr js)
        | _ \<Rightarrow> None))"

section \<open>The state\<close>

datatype lock_state = Lk_idle | Lk_blocked | Lk_held

text \<open>
  Where the one tick of a process is: nothing in flight, a command on its way (\<open>SET NX\<close> of a
  candidate, or the renewal script), or the reply on its way back.
\<close>

datatype in_flight =
    No_tick
  | Sent_acquire string | Sent_renew
  | Got_acquire string bool | Got_renew bool

datatype lock_log = Log_acquired | Log_blocked "json option" | Log_lost | Log_contender json | Log_released

record lock_worker =
  lw_state :: lock_state
  lw_value :: string
  lw_timer :: "int option"
  lw_tick :: in_flight
  lw_stopped :: bool
  lw_last_seen :: "json option"
  lw_consuming :: bool
  lw_log :: "lock_log list"

text \<open>
  Redis: the two keys with the instant they expire at. \<open>rd_lease\<close> is an auxiliary variable that no
  step reads: the expiry a process last obtained from an accepted \<open>SET\<close> or renewal.
\<close>

record redis =
  rd_lock :: "(string \<times> int) option"
  rd_contender :: "(string \<times> int) option"
  rd_lease :: "nat \<Rightarrow> int"

record lock_system =
  ls_now :: int
  ls_redis :: redis
  ls_workers :: "nat \<Rightarrow> lock_worker"

definition live :: "(string \<times> int) option \<Rightarrow> int \<Rightarrow> string option" where
  "live key now = (case key of Some (v, e) \<Rightarrow> if now < e then Some v else None | None \<Rightarrow> None)"

section \<open>Redis commands\<close>

definition set_nx :: "string \<Rightarrow> int \<Rightarrow> int \<Rightarrow> redis \<Rightarrow> bool \<times> redis" where
  "set_nx v ttl now rd =
     (if live (rd_lock rd) now = None then (True, rd\<lparr>rd_lock := Some (v, now + ttl)\<rparr>) else (False, rd))"

definition RENEW_LUA :: "string \<Rightarrow> int \<Rightarrow> int \<Rightarrow> redis \<Rightarrow> bool \<times> redis" where
  "RENEW_LUA v ttl now rd =
     (if live (rd_lock rd) now = Some v then (True, rd\<lparr>rd_lock := Some (v, now + ttl)\<rparr>) else (False, rd))"

definition RELEASE_LUA :: "string \<Rightarrow> int \<Rightarrow> redis \<Rightarrow> bool \<times> redis" where
  "RELEASE_LUA v now rd =
     (if live (rd_lock rd) now = Some v then (True, rd\<lparr>rd_lock := None\<rparr>) else (False, rd))"

section \<open>The ownership loop\<close>

text \<open>\<open>schedule\<close> replaces the one timer; a stopped service arms none.\<close>

definition schedule :: "int \<Rightarrow> int \<Rightarrow> lock_worker \<Rightarrow> lock_worker" where
  "schedule now delay p = (if lw_stopped p then p else p\<lparr>lw_timer := Some (now + delay)\<rparr>)"

text \<open>\<open>tick\<close> up to its first command.\<close>

definition tick :: "lock_identity \<Rightarrow> int \<Rightarrow> lock_worker \<Rightarrow> lock_worker" where
  "tick d now p = (if lw_stopped p then p
     else if lw_state p = Lk_held then p\<lparr>lw_tick := Sent_renew\<rparr>
     else p\<lparr>lw_tick := Sent_acquire (build_identity d now)\<rparr>)"

definition log_line :: "lock_log \<Rightarrow> lock_worker \<Rightarrow> lock_worker" where
  "log_line l p = p\<lparr>lw_log := lw_log p @ [l]\<rparr>"

text \<open>
  \<open>tryAcquire\<close> after the \<open>SET\<close>; when it was refused the holder is read and the contender key written.
  \<open>lw_consuming\<close> is what \<open>onAcquired\<close> and \<open>onLost\<close> do: a worker that was already closed stays closed.
\<close>

definition try_acquire :: "lock_identity \<Rightarrow> int \<Rightarrow> int \<Rightarrow> string \<Rightarrow> bool \<Rightarrow> redis \<times> lock_worker \<Rightarrow> redis \<times> lock_worker" where
  "try_acquire d ttl now candidate granted = (\<lambda>(rd, p).
     if granted then
       (rd, schedule now (renew_interval_ms ttl)
          (log_line Log_acquired (p\<lparr>lw_value := candidate, lw_state := Lk_held, lw_consuming := \<not> lw_stopped p\<rparr>)))
     else
       let holder = parse_identity (live (rd_lock rd) now) in
       (rd\<lparr>rd_contender := Some (build_identity d now, now + CONTENDER_TTL_MS)\<rparr>,
        schedule now (acquire_interval_ms ttl)
          (log_line (Log_blocked holder) (p\<lparr>lw_state := Lk_blocked, lw_last_seen := holder\<rparr>))))"

text \<open>\<open>renew\<close> after the script.\<close>

definition renew :: "int \<Rightarrow> int \<Rightarrow> bool \<Rightarrow> redis \<times> lock_worker \<Rightarrow> redis \<times> lock_worker" where
  "renew ttl now extended = (\<lambda>(rd, p).
     if \<not> extended then
       (rd, schedule now (acquire_interval_ms ttl)
          (log_line Log_lost (p\<lparr>lw_state := Lk_blocked, lw_consuming := False\<rparr>)))
     else
       (rd, schedule now (renew_interval_ms ttl)
          (case parse_identity (live (rd_contender rd) now) of
             Some c \<Rightarrow> if json_stringify c \<noteq> lw_value p then log_line (Log_contender c) p else p
           | None \<Rightarrow> p)))"

text \<open>
  \<open>stop\<close>: no more timers, the own lock released when it is held (the script may fail), the state
  back to idle. A command already in flight is not taken back.
\<close>

definition stop_lock :: "bool \<Rightarrow> int \<Rightarrow> redis \<times> lock_worker \<Rightarrow> redis \<times> lock_worker" where
  "stop_lock reached now = (\<lambda>(rd, p).
     let q = p\<lparr>lw_stopped := True, lw_timer := None, lw_consuming := False\<rparr> in
     if lw_state p = Lk_held \<and> reached then
       (snd (RELEASE_LUA (lw_value p) now rd), (log_line Log_released q)\<lparr>lw_state := Lk_idle\<rparr>)
     else (rd, q\<lparr>lw_state := Lk_idle\<rparr>))"

text \<open>What Redis does with the command in flight.\<close>

definition serve :: "nat \<Rightarrow> int \<Rightarrow> int \<Rightarrow> redis \<times> lock_worker \<Rightarrow> redis \<times> lock_worker" where
  "serve i ttl now = (\<lambda>(rd, p).
     let lease = (\<lambda>ok r. if ok then r\<lparr>rd_lease := (rd_lease r)(i := now + ttl)\<rparr> else r) in
     case lw_tick p of
       Sent_acquire v \<Rightarrow> (case set_nx v ttl now rd of (ok, r) \<Rightarrow> (lease ok r, p\<lparr>lw_tick := Got_acquire v ok\<rparr>))
     | Sent_renew \<Rightarrow> (case RENEW_LUA (lw_value p) ttl now rd of (ok, r) \<Rightarrow> (lease ok r, p\<lparr>lw_tick := Got_renew ok\<rparr>))
     | _ \<Rightarrow> (rd, p))"

text \<open>The process continues with the reply; or the command or its reply is lost and \<open>tick\<close> catches the error.\<close>

definition reply :: "lock_identity \<Rightarrow> int \<Rightarrow> int \<Rightarrow> redis \<times> lock_worker \<Rightarrow> redis \<times> lock_worker" where
  "reply d ttl now = (\<lambda>(rd, p). let q = p\<lparr>lw_tick := No_tick\<rparr> in
     case lw_tick p of
       Got_acquire v ok \<Rightarrow> try_acquire d ttl now v ok (rd, q)
     | Got_renew ok \<Rightarrow> renew ttl now ok (rd, q)
     | _ \<Rightarrow> (rd, p))"

definition tick_failed :: "int \<Rightarrow> int \<Rightarrow> lock_worker \<Rightarrow> lock_worker" where
  "tick_failed ttl now p = schedule now (acquire_interval_ms ttl) (p\<lparr>lw_tick := No_tick\<rparr>)"

section \<open>The system\<close>

datatype lock_event = Pass int | Fire nat | Serve nat | Reply nat | Fault nat | Stop nat bool

definition on_worker :: "nat \<Rightarrow> (int \<Rightarrow> redis \<times> lock_worker \<Rightarrow> redis \<times> lock_worker) \<Rightarrow> lock_system \<Rightarrow> lock_system" where
  "on_worker i f s = (case f (ls_now s) (ls_redis s, ls_workers s i) of
     (rd, p) \<Rightarrow> s\<lparr>ls_redis := rd, ls_workers := (ls_workers s)(i := p)\<rparr>)"

definition fire :: "lock_identity \<Rightarrow> int \<Rightarrow> redis \<times> lock_worker \<Rightarrow> redis \<times> lock_worker" where
  "fire d now = (\<lambda>(rd, p). (rd, tick d now (p\<lparr>lw_timer := None\<rparr>)))"

inductive lock_step :: "(nat \<Rightarrow> lock_identity) \<Rightarrow> int \<Rightarrow> lock_system \<Rightarrow> lock_event \<Rightarrow> lock_system \<Rightarrow> bool"
  for ids :: "nat \<Rightarrow> lock_identity" and ttl :: int where
  pass: "0 \<le> dt \<Longrightarrow> lock_step ids ttl s (Pass dt) (s\<lparr>ls_now := ls_now s + dt\<rparr>)"
| fires: "lw_timer (ls_workers s i) = Some t \<Longrightarrow> t \<le> ls_now s \<Longrightarrow> lw_tick (ls_workers s i) = No_tick \<Longrightarrow>
    lock_step ids ttl s (Fire i) (on_worker i (fire (ids i)) s)"
| serves: "lw_tick (ls_workers s i) \<in> {Sent_renew, Sent_acquire v} \<Longrightarrow>
    lock_step ids ttl s (Serve i) (on_worker i (serve i ttl) s)"
| replies: "lw_tick (ls_workers s i) \<in> {Got_renew ok, Got_acquire v ok} \<Longrightarrow>
    lock_step ids ttl s (Reply i) (on_worker i (reply (ids i) ttl) s)"
| faults: "lw_tick (ls_workers s i) \<noteq> No_tick \<Longrightarrow>
    lock_step ids ttl s (Fault i) (on_worker i (\<lambda>now (rd, p). (rd, tick_failed ttl now p)) s)"
| stops: "\<not> lw_stopped (ls_workers s i) \<Longrightarrow>
    lock_step ids ttl s (Stop i reached) (on_worker i (stop_lock reached) s)"

text \<open>\<open>start\<close> runs the first tick at once: every process begins with a timer that is due.\<close>

definition new_worker :: "int \<Rightarrow> lock_worker" where
  "new_worker now = \<lparr>lw_state = Lk_idle, lw_value = [], lw_timer = Some now, lw_tick = No_tick, lw_stopped = False,
     lw_last_seen = None, lw_consuming = False, lw_log = []\<rparr>"

definition lock_start :: "int \<Rightarrow> lock_system" where
  "lock_start now = \<lparr>ls_now = now, ls_redis = \<lparr>rd_lock = None, rd_contender = None, rd_lease = (\<lambda>_. now)\<rparr>,
     ls_workers = (\<lambda>_. new_worker now)\<rparr>"

inductive lock_run :: "(nat \<Rightarrow> lock_identity) \<Rightarrow> int \<Rightarrow> lock_system \<Rightarrow> lock_event list \<Rightarrow> lock_system \<Rightarrow> bool"
  for ids :: "nat \<Rightarrow> lock_identity" and ttl :: int where
  nil: "lock_run ids ttl s [] s"
| cons: "lock_step ids ttl s e s' \<Longrightarrow> lock_run ids ttl s' es s'' \<Longrightarrow> lock_run ids ttl s (e # es) s''"

inductive_cases lock_stepE: "lock_step ids ttl s e s'"
inductive_simps lock_run_simps [simp]: "lock_run ids ttl s [] s'" "lock_run ids ttl s (e # es) s'"

definition reachable :: "(nat \<Rightarrow> lock_identity) \<Rightarrow> int \<Rightarrow> lock_system \<Rightarrow> bool" where
  "reachable ids ttl s \<longleftrightarrow> (\<exists>now es. lock_run ids ttl (lock_start now) es s)"

section \<open>A lease is exclusive\<close>

lemma build_identity_inj: "build_identity d t = build_identity d' t' \<Longrightarrow> d = d'"
proof -
  assume "build_identity d t = build_identity d' t'"
  moreover have "json_plain (identity_json e u)" for e u by (simp add: identity_json_def)
  ultimately have "identity_json d t = identity_json d' t'"
    unfolding build_identity_def by (metis json_parse_stringify option.inject)
  then show "d = d'" by (simp add: identity_json_def)
qed

lemma build_identity_nonempty [simp]: "build_identity d t \<noteq> []"
  by (simp add: build_identity_def identity_json_def)

definition own_value :: "lock_identity \<Rightarrow> string \<Rightarrow> bool" where
  "own_value d v \<longleftrightarrow> (\<exists>t. v = build_identity d t)"

lemma own_value_distinct: "own_value d v \<Longrightarrow> own_value d' v \<Longrightarrow> d = d'"
  by (auto simp: own_value_def dest: build_identity_inj)

text \<open>A process whose last grant has not expired finds its own value in Redis, for at least that long.\<close>

definition owns :: "redis \<Rightarrow> int \<Rightarrow> int \<Rightarrow> string \<Rightarrow> bool" where
  "owns rd now lease v \<longleftrightarrow> (now < lease \<longrightarrow> (\<exists>e. rd_lock rd = Some (v, e) \<and> lease \<le> e))"

definition worker_inv :: "lock_identity \<Rightarrow> int \<Rightarrow> redis \<Rightarrow> int \<Rightarrow> lock_worker \<Rightarrow> bool" where
  "worker_inv d now rd lease p \<longleftrightarrow>
     (lw_value p = [] \<or> own_value d (lw_value p)) \<and>
     (lw_state p = Lk_held \<longrightarrow> own_value d (lw_value p) \<and> owns rd now lease (lw_value p)) \<and>
     (case lw_tick p of
        Sent_acquire v \<Rightarrow> own_value d v \<and> lw_state p \<noteq> Lk_held
      | Got_acquire v ok \<Rightarrow> own_value d v \<and> lw_state p \<noteq> Lk_held \<and> (ok \<longrightarrow> owns rd now lease v)
      | _ \<Rightarrow> True)"

definition lock_inv :: "(nat \<Rightarrow> lock_identity) \<Rightarrow> lock_system \<Rightarrow> bool" where
  "lock_inv ids s \<longleftrightarrow> (\<forall>i. worker_inv (ids i) (ls_now s) (ls_redis s) (rd_lease (ls_redis s) i) (ls_workers s i))"

lemma schedule_fields [simp]:
  "lw_state (schedule now t p) = lw_state p" "lw_value (schedule now t p) = lw_value p"
  "lw_tick (schedule now t p) = lw_tick p" "lw_stopped (schedule now t p) = lw_stopped p"
  "lw_consuming (schedule now t p) = lw_consuming p" "lw_last_seen (schedule now t p) = lw_last_seen p"
  "lw_log (schedule now t p) = lw_log p"
  by (simp_all add: schedule_def)

lemma log_line_fields [simp]:
  "lw_state (log_line l p) = lw_state p" "lw_value (log_line l p) = lw_value p"
  "lw_tick (log_line l p) = lw_tick p" "lw_stopped (log_line l p) = lw_stopped p"
  "lw_consuming (log_line l p) = lw_consuming p" "lw_timer (log_line l p) = lw_timer p"
  by (simp_all add: log_line_def)

lemmas lock_defs = on_worker_def fire_def tick_def serve_def reply_def try_acquire_def renew_def tick_failed_def
  stop_lock_def set_nx_def RENEW_LUA_def RELEASE_LUA_def Let_def

text \<open>
  What the step of one process leaves to the others: their grant stands, and the lock is either as
  it was, or was not theirs to begin with.
\<close>

definition keeps_others :: "lock_identity \<Rightarrow> int \<Rightarrow> redis \<Rightarrow> redis \<Rightarrow> bool" where
  "keeps_others d now rd rd' \<longleftrightarrow> rd_lock rd' = rd_lock rd \<or> live (rd_lock rd) now = None \<or>
     (\<exists>v. live (rd_lock rd) now = Some v \<and> (v = [] \<or> own_value d v))"

lemma owns_respected:
  assumes "keeps_others d now rd rd'" and "owns rd now l v" and "own_value d' v" and "d \<noteq> d'"
  shows "owns rd' now l v"
proof -
  { assume "now < l"
    then obtain e where e: "rd_lock rd = Some (v, e)" "l \<le> e" using assms(2) by (auto simp: owns_def)
    then have "live (rd_lock rd) now = Some v" using \<open>now < l\<close> by (simp add: live_def)
    moreover have "v \<noteq> []" using assms(3) by (auto simp: own_value_def)
    ultimately have "rd_lock rd' = rd_lock rd"
      using assms(1,3,4) unfolding keeps_others_def by (auto dest: own_value_distinct)
    then have "\<exists>e. rd_lock rd' = Some (v, e) \<and> l \<le> e" using e by simp }
  then show ?thesis by (simp add: owns_def)
qed

lemma worker_inv_respected:
  "keeps_others d now rd rd' \<Longrightarrow> d \<noteq> d' \<Longrightarrow> worker_inv d' now rd l p \<Longrightarrow> worker_inv d' now rd' l p"
  unfolding worker_inv_def by (auto split: in_flight.splits intro: owns_respected)

text \<open>A step of a process that keeps its own invariant and respects the others keeps that of the system.\<close>

lemma on_worker_inv:
  assumes inv: "lock_inv ids s" and dist: "inj ids"
    and own: "\<And>rd p rd' p'. rd = ls_redis s \<Longrightarrow> p = ls_workers s i \<Longrightarrow> f (ls_now s) (rd, p) = (rd', p') \<Longrightarrow>
      worker_inv (ids i) (ls_now s) rd (rd_lease rd i) p \<Longrightarrow>
      worker_inv (ids i) (ls_now s) rd' (rd_lease rd' i) p' \<and> keeps_others (ids i) (ls_now s) rd rd' \<and>
      (\<forall>j. j \<noteq> i \<longrightarrow> rd_lease rd' j = rd_lease rd j)"
  shows "lock_inv ids (on_worker i f s)"
proof -
  obtain rd' p' where f: "f (ls_now s) (ls_redis s, ls_workers s i) = (rd', p')" by fastforce
  note res = own [OF refl refl f]
  have "worker_inv (ids i) (ls_now s) (ls_redis s) (rd_lease (ls_redis s) i) (ls_workers s i)"
    using inv by (simp add: lock_inv_def)
  note res = res [OF this]
  have "worker_inv (ids j) (ls_now s) rd' (rd_lease rd' j) (ls_workers s j)" if "j \<noteq> i" for j
  proof -
    have "ids i \<noteq> ids j" using dist that by (auto dest: injD)
    then show ?thesis using res that inv by (auto simp: lock_inv_def intro: worker_inv_respected)
  qed
  then show ?thesis using res by (auto simp: lock_inv_def on_worker_def f)
qed

lemma owns_fresh: "owns (rd\<lparr>rd_lock := Some (v, e), rd_lease := L\<rparr>) now e v"
  by (simp add: owns_def)

lemma worker_inv_redis:
  "rd_lock rd' = rd_lock rd \<Longrightarrow> worker_inv d now rd l p \<Longrightarrow> worker_inv d now rd' l p"
  unfolding worker_inv_def owns_def by (auto split: in_flight.splits)

lemma serve_inv:
  assumes "worker_inv (ids i) now rd (rd_lease rd i) p" and "serve i ttl now (rd, p) = (rd', p')"
  shows "worker_inv (ids i) now rd' (rd_lease rd' i) p' \<and> keeps_others (ids i) now rd rd' \<and>
    (\<forall>j. j \<noteq> i \<longrightarrow> rd_lease rd' j = rd_lease rd j)"
proof (cases "lw_tick p")
  case (Sent_acquire v)
  then show ?thesis using assms
    by (auto simp: serve_def set_nx_def Let_def worker_inv_def keeps_others_def owns_def split: if_splits)
next
  case Sent_renew
  then show ?thesis using assms
    by (auto simp: serve_def RENEW_LUA_def Let_def worker_inv_def keeps_others_def owns_def split: if_splits)
qed (use assms in \<open>auto simp: serve_def keeps_others_def Let_def\<close>)

lemma reply_inv:
  assumes "worker_inv (ids i) now rd (rd_lease rd i) p" and "reply (ids i) ttl now (rd, p) = (rd', p')"
  shows "worker_inv (ids i) now rd' (rd_lease rd' i) p' \<and> keeps_others (ids i) now rd rd' \<and>
    (\<forall>j. j \<noteq> i \<longrightarrow> rd_lease rd' j = rd_lease rd j)"
proof (cases "lw_tick p")
  case (Got_acquire v ok)
  then show ?thesis using assms
    by (auto simp: reply_def try_acquire_def Let_def worker_inv_def keeps_others_def owns_def split: if_splits)
next
  case (Got_renew ok)
  then show ?thesis using assms
    by (auto simp: reply_def renew_def Let_def worker_inv_def keeps_others_def split: if_splits option.splits)
qed (use assms in \<open>auto simp: reply_def keeps_others_def Let_def\<close>)

lemma stop_inv:
  assumes "worker_inv (ids i) now rd (rd_lease rd i) p" and "stop_lock reached now (rd, p) = (rd', p')"
  shows "worker_inv (ids i) now rd' (rd_lease rd' i) p' \<and> keeps_others (ids i) now rd rd' \<and>
    (\<forall>j. j \<noteq> i \<longrightarrow> rd_lease rd' j = rd_lease rd j)"
proof -
  have worker: "lw_state p' = Lk_idle" "lw_value p' = lw_value p" "lw_tick p' = lw_tick p"
    using assms(2) by (auto simp: stop_lock_def Let_def split: if_splits)
  have lease: "rd_lease rd' = rd_lease rd"
    using assms(2) by (auto simp: stop_lock_def RELEASE_LUA_def Let_def split: if_splits)
  have lock: "rd' = rd \<or> lw_state p = Lk_held \<and> live (rd_lock rd) now = Some (lw_value p)"
    using assms(2) by (auto simp: stop_lock_def RELEASE_LUA_def Let_def split: if_splits)
  then show ?thesis
    using assms(1) worker lease unfolding worker_inv_def keeps_others_def
    by (auto split: in_flight.splits)
qed

lemma lock_step_inv:
  assumes "lock_step ids ttl s e s'" and "lock_inv ids s" and "inj ids"
  shows "lock_inv ids s'"
  using assms(1)
proof (cases rule: lock_step.cases)
  case (pass dt)
  then show ?thesis using assms(2)
    unfolding lock_inv_def worker_inv_def owns_def by (fastforce split: in_flight.splits)
next
  case (fires i t)
  show ?thesis unfolding fires(2)
    by (rule on_worker_inv [OF assms(2,3)])
      (use fires in \<open>auto simp: fire_def tick_def worker_inv_def keeps_others_def own_value_def split: if_splits\<close>)
next
  case (serves i v)
  show ?thesis unfolding serves(2)
    by (rule on_worker_inv [OF assms(2,3)]) (erule (1) serve_inv [rotated])
next
  case (replies i ok v)
  show ?thesis unfolding replies(2)
    by (rule on_worker_inv [OF assms(2,3)]) (erule (1) reply_inv [rotated])
next
  case (faults i)
  show ?thesis unfolding faults(2)
    by (rule on_worker_inv [OF assms(2,3)])
      (auto simp: tick_failed_def worker_inv_def keeps_others_def split: in_flight.splits)
next
  case (stops i reached)
  show ?thesis unfolding stops(2)
    by (rule on_worker_inv [OF assms(2,3)]) (erule (1) stop_inv [rotated])
qed

lemma lock_run_inv: "lock_run ids ttl s es s' \<Longrightarrow> inj ids \<Longrightarrow> lock_inv ids s \<Longrightarrow> lock_inv ids s'"
  by (induction rule: lock_run.induct) (auto dest: lock_step_inv)

lemma lock_start_inv: "lock_inv ids (lock_start now)"
  by (simp add: lock_inv_def lock_start_def new_worker_def worker_inv_def)

lemma reachable_inv: "reachable ids ttl s \<Longrightarrow> inj ids \<Longrightarrow> lock_inv ids s"
  unfolding reachable_def using lock_run_inv lock_start_inv by blast

section \<open>The loop stays alive\<close>

definition loop_inv :: "int \<Rightarrow> int \<Rightarrow> lock_worker \<Rightarrow> bool" where
  "loop_inv ttl now p \<longleftrightarrow> (lw_consuming p \<longrightarrow> lw_state p = Lk_held \<and> \<not> lw_stopped p) \<and>
     (\<not> lw_stopped p \<longrightarrow> (case lw_tick p of
        No_tick \<Rightarrow> (\<exists>t. lw_timer p = Some t \<and>
          t \<le> now + (if lw_state p = Lk_held then renew_interval_ms ttl else acquire_interval_ms ttl))
      | Sent_renew \<Rightarrow> lw_state p = Lk_held | Got_renew ok \<Rightarrow> lw_state p = Lk_held
      | Sent_acquire v \<Rightarrow> lw_state p \<noteq> Lk_held | Got_acquire v ok \<Rightarrow> lw_state p \<noteq> Lk_held))"

lemma acquire_le_renew: "acquire_interval_ms ttl \<le> renew_interval_ms ttl"
  by (simp add: acquire_interval_ms_def)

lemma loop_inv_schedule:
  "(lw_consuming p \<longrightarrow> lw_state p = Lk_held \<and> \<not> lw_stopped p) \<Longrightarrow> lw_tick p = No_tick \<Longrightarrow>
   delay \<le> (if lw_state p = Lk_held then renew_interval_ms ttl else acquire_interval_ms ttl) \<Longrightarrow>
   loop_inv ttl now (schedule now delay p)"
  by (auto simp: loop_inv_def schedule_def)

lemma loop_inv_pass: "0 \<le> dt \<Longrightarrow> loop_inv ttl now p \<Longrightarrow> loop_inv ttl (now + dt) p"
  unfolding loop_inv_def by (force split: in_flight.splits)

lemma loop_inv_fired:
  "loop_inv ttl now p \<Longrightarrow> lw_timer p = Some t \<Longrightarrow> lw_tick p = No_tick \<Longrightarrow>
   loop_inv ttl now (tick d now (p\<lparr>lw_timer := None\<rparr>))"
  by (auto simp: loop_inv_def tick_def)

lemma loop_inv_served: "loop_inv ttl now p \<Longrightarrow> loop_inv ttl now (snd (serve i ttl now (rd, p)))"
  by (cases "lw_tick p") (auto simp: serve_def loop_inv_def split: prod.split)

lemma loop_inv_acquired:
  assumes "loop_inv ttl now p" and "lw_tick p = Got_acquire v ok"
  shows "loop_inv ttl now (snd (try_acquire d ttl now v ok (rd, p\<lparr>lw_tick := No_tick\<rparr>)))"
proof -
  have "\<not> lw_consuming p" using assms by (auto simp: loop_inv_def)
  then show ?thesis
    by (cases "lw_stopped p"; cases ok)
      (simp_all add: try_acquire_def Let_def schedule_def log_line_def loop_inv_def)
qed

lemma loop_inv_renewed:
  assumes "loop_inv ttl now p" and "lw_tick p = Got_renew ok"
  shows "loop_inv ttl now (snd (renew ttl now ok (rd, p\<lparr>lw_tick := No_tick\<rparr>)))"
  using assms
  by (cases "lw_stopped p"; cases ok)
    (simp_all add: renew_def schedule_def log_line_def loop_inv_def split: option.split)

lemma loop_inv_replied: "loop_inv ttl now p \<Longrightarrow> loop_inv ttl now (snd (reply d ttl now (rd, p)))"
  by (cases "lw_tick p") (simp_all add: reply_def Let_def loop_inv_acquired loop_inv_renewed)

lemma loop_inv_failed: "loop_inv ttl now p \<Longrightarrow> loop_inv ttl now (tick_failed ttl now p)"
  unfolding tick_failed_def
  by (rule loop_inv_schedule) (auto simp: loop_inv_def acquire_le_renew)

lemma loop_inv_stopped: "loop_inv ttl now (snd (stop_lock reached now (rd, p)))"
  by (simp add: stop_lock_def Let_def loop_inv_def)

lemma on_worker_loop:
  assumes "\<forall>j. loop_inv ttl (ls_now s) (ls_workers s j)"
    and "loop_inv ttl (ls_now s) (snd (f (ls_now s) (ls_redis s, ls_workers s i)))"
  shows "\<forall>j. loop_inv ttl (ls_now (on_worker i f s)) (ls_workers (on_worker i f s) j)"
  using assms by (auto simp: on_worker_def split: prod.split)

lemma lock_step_loop:
  assumes "lock_step ids ttl s e s'" and "\<forall>j. loop_inv ttl (ls_now s) (ls_workers s j)"
  shows "\<forall>j. loop_inv ttl (ls_now s') (ls_workers s' j)"
  using assms(1)
proof (cases rule: lock_step.cases)
  case (pass dt)
  then show ?thesis using assms(2) by (simp add: loop_inv_pass)
next
  case (fires i t)
  show ?thesis unfolding fires(2)
    by (rule on_worker_loop [OF assms(2)]) (use fires assms(2) in \<open>simp add: fire_def loop_inv_fired\<close>)
next
  case (serves i v)
  show ?thesis unfolding serves(2)
    by (rule on_worker_loop [OF assms(2)]) (use assms(2) in \<open>simp add: loop_inv_served\<close>)
next
  case (replies i ok v)
  show ?thesis unfolding replies(2)
    by (rule on_worker_loop [OF assms(2)]) (use assms(2) in \<open>simp add: loop_inv_replied\<close>)
next
  case (faults i)
  show ?thesis unfolding faults(2)
    by (rule on_worker_loop [OF assms(2)]) (use assms(2) in \<open>simp add: loop_inv_failed\<close>)
next
  case (stops i reached)
  show ?thesis unfolding stops(2)
    by (rule on_worker_loop [OF assms(2)]) (simp add: loop_inv_stopped)
qed

lemma lock_run_loop:
  "lock_run ids ttl s es s' \<Longrightarrow> \<forall>j. loop_inv ttl (ls_now s) (ls_workers s j) \<Longrightarrow>
    \<forall>j. loop_inv ttl (ls_now s') (ls_workers s' j)"
  by (induction rule: lock_run.induct) (auto dest: lock_step_loop)

lemma reachable_loop: "reachable ids ttl s \<Longrightarrow> loop_inv ttl (ls_now s) (ls_workers s i)"
proof -
  have "\<forall>j. loop_inv ttl now (new_worker now)" for now
    by (simp add: loop_inv_def new_worker_def acquire_interval_ms_def renew_interval_ms_def)
  then show "reachable ids ttl s \<Longrightarrow> ?thesis"
    unfolding reachable_def using lock_run_loop [of ids ttl "lock_start _"]
    by (force simp: lock_start_def)
qed

section \<open>Runs\<close>

lemma lock_run_append: "lock_run ids ttl s es s' \<Longrightarrow> lock_run ids ttl s' es' s'' \<Longrightarrow> lock_run ids ttl s (es @ es') s''"
  by (induction rule: lock_run.induct) auto

text \<open>A due attempt on a free lock, and a renewal that does not reach Redis, as runs of the system.\<close>

lemma acquire_run:
  assumes "lw_timer (ls_workers s i) = Some t" "t \<le> ls_now s" "lw_tick (ls_workers s i) = No_tick"
    and "\<not> lw_stopped (ls_workers s i)" "lw_state (ls_workers s i) \<noteq> Lk_held"
    and "live (rd_lock (ls_redis s)) (ls_now s) = None"
  obtains s' where "lock_run ids ttl s [Fire i, Serve i, Reply i] s'" "ls_now s' = ls_now s"
    "lw_state (ls_workers s' i) = Lk_held" "lw_consuming (ls_workers s' i)" "lw_tick (ls_workers s' i) = No_tick"
    "\<not> lw_stopped (ls_workers s' i)" "lw_timer (ls_workers s' i) = Some (ls_now s + renew_interval_ms ttl)"
    "rd_lock (ls_redis s') = Some (build_identity (ids i) (ls_now s), ls_now s + ttl)"
    "\<And>j. j \<noteq> i \<Longrightarrow> ls_workers s' j = ls_workers s j"
proof -
  let ?s2 = "on_worker i (fire (ids i)) s" and ?v = "build_identity (ids i) (ls_now s)"
  let ?s3 = "on_worker i (serve i ttl) ?s2"
  let ?s4 = "on_worker i (reply (ids i) ttl) ?s3"
  have s2: "lw_tick (ls_workers ?s2 i) = Sent_acquire ?v" "ls_now ?s2 = ls_now s" "ls_redis ?s2 = ls_redis s"
      "\<not> lw_stopped (ls_workers ?s2 i)" "\<And>j. j \<noteq> i \<Longrightarrow> ls_workers ?s2 j = ls_workers s j"
    using assms by (simp_all add: on_worker_def fire_def tick_def)
  have s3: "lw_tick (ls_workers ?s3 i) = Got_acquire ?v True" "ls_now ?s3 = ls_now s" "\<not> lw_stopped (ls_workers ?s3 i)"
      "rd_lock (ls_redis ?s3) = Some (?v, ls_now s + ttl)" "\<And>j. j \<noteq> i \<Longrightarrow> ls_workers ?s3 j = ls_workers s j"
    using s2 assms(6) by (simp_all add: on_worker_def [of i _ ?s2] serve_def set_nx_def Let_def)
  have s4: "ls_now ?s4 = ls_now s" "lw_state (ls_workers ?s4 i) = Lk_held" "lw_consuming (ls_workers ?s4 i)"
      "lw_tick (ls_workers ?s4 i) = No_tick" "\<not> lw_stopped (ls_workers ?s4 i)"
      "lw_timer (ls_workers ?s4 i) = Some (ls_now s + renew_interval_ms ttl)"
      "rd_lock (ls_redis ?s4) = Some (?v, ls_now s + ttl)" "\<And>j. j \<noteq> i \<Longrightarrow> ls_workers ?s4 j = ls_workers s j"
    using s3 by (simp_all add: on_worker_def [of i _ ?s3] reply_def try_acquire_def schedule_def log_line_def Let_def)
  have steps: "lock_step ids ttl s (Fire i) ?s2" "lock_step ids ttl ?s2 (Serve i) ?s3" "lock_step ids ttl ?s3 (Reply i) ?s4"
    by (rule lock_step.fires [of _ _ t] lock_step.serves [of _ _ ?v] lock_step.replies [of _ _ True ?v];
        use assms s2 s3 in simp)+
  show thesis
    by (rule that [OF lock_run.cons [OF steps(1) lock_run.cons [OF steps(2) lock_run.cons [OF steps(3) lock_run.nil]]] s4])
qed

lemma missed_renewal_run:
  assumes "lw_timer (ls_workers s i) = Some t" "t \<le> ls_now s" "lw_tick (ls_workers s i) = No_tick"
    and "\<not> lw_stopped (ls_workers s i)" "lw_state (ls_workers s i) = Lk_held"
  obtains s' where "lock_run ids ttl s [Fire i, Fault i] s'" "ls_now s' = ls_now s" "ls_redis s' = ls_redis s"
    "lw_state (ls_workers s' i) = Lk_held" "lw_consuming (ls_workers s' i) = lw_consuming (ls_workers s i)"
    "lw_tick (ls_workers s' i) = No_tick" "\<not> lw_stopped (ls_workers s' i)"
    "lw_timer (ls_workers s' i) = Some (ls_now s + acquire_interval_ms ttl)"
    "\<And>j. j \<noteq> i \<Longrightarrow> ls_workers s' j = ls_workers s j"
proof -
  let ?s2 = "on_worker i (fire (ids i)) s"
  let ?s3 = "on_worker i (\<lambda>now (rd, p). (rd, tick_failed ttl now p)) ?s2"
  have s2: "ls_workers ?s2 i = (ls_workers s i)\<lparr>lw_timer := None, lw_tick := Sent_renew\<rparr>" "ls_now ?s2 = ls_now s"
      "ls_redis ?s2 = ls_redis s" "\<And>j. j \<noteq> i \<Longrightarrow> ls_workers ?s2 j = ls_workers s j"
    using assms by (simp_all add: on_worker_def fire_def tick_def)
  have s3: "ls_now ?s3 = ls_now s" "ls_redis ?s3 = ls_redis s" "lw_state (ls_workers ?s3 i) = Lk_held"
      "lw_consuming (ls_workers ?s3 i) = lw_consuming (ls_workers s i)" "lw_tick (ls_workers ?s3 i) = No_tick"
      "\<not> lw_stopped (ls_workers ?s3 i)" "lw_timer (ls_workers ?s3 i) = Some (ls_now s + acquire_interval_ms ttl)"
      "\<And>j. j \<noteq> i \<Longrightarrow> ls_workers ?s3 j = ls_workers s j"
    using s2 assms(4,5) by (simp_all add: on_worker_def [of i _ ?s2] tick_failed_def schedule_def)
  have steps: "lock_step ids ttl s (Fire i) ?s2" "lock_step ids ttl ?s2 (Fault i) ?s3"
    by (rule lock_step.fires [of _ _ t] lock_step.faults; use assms s2 in simp)+
  show thesis by (rule that [OF lock_run.cons [OF steps(1) lock_run.cons [OF steps(2) lock_run.nil]] s3])
qed

lemma refused_run:
  assumes "lw_timer (ls_workers s i) = Some t" "t \<le> ls_now s" "lw_tick (ls_workers s i) = No_tick"
    and "\<not> lw_stopped (ls_workers s i)" "lw_state (ls_workers s i) \<noteq> Lk_held"
    and "live (rd_lock (ls_redis s)) (ls_now s) \<noteq> None"
  obtains s' where "lock_run ids ttl s [Fire i, Serve i, Reply i] s'" "ls_now s' = ls_now s"
    "rd_lock (ls_redis s') = rd_lock (ls_redis s)" "lw_state (ls_workers s' i) \<noteq> Lk_held" "lw_tick (ls_workers s' i) = No_tick"
    "\<not> lw_stopped (ls_workers s' i)" "lw_timer (ls_workers s' i) = Some (ls_now s + acquire_interval_ms ttl)"
    "\<And>j. j \<noteq> i \<Longrightarrow> ls_workers s' j = ls_workers s j"
proof -
  let ?s2 = "on_worker i (fire (ids i)) s" and ?v = "build_identity (ids i) (ls_now s)"
  let ?s3 = "on_worker i (serve i ttl) ?s2"
  let ?s4 = "on_worker i (reply (ids i) ttl) ?s3"
  have s2: "lw_tick (ls_workers ?s2 i) = Sent_acquire ?v" "ls_now ?s2 = ls_now s" "ls_redis ?s2 = ls_redis s"
      "\<not> lw_stopped (ls_workers ?s2 i)" "\<And>j. j \<noteq> i \<Longrightarrow> ls_workers ?s2 j = ls_workers s j"
    using assms by (simp_all add: on_worker_def fire_def tick_def)
  have s3: "lw_tick (ls_workers ?s3 i) = Got_acquire ?v False" "ls_now ?s3 = ls_now s" "\<not> lw_stopped (ls_workers ?s3 i)"
      "ls_redis ?s3 = ls_redis s" "\<And>j. j \<noteq> i \<Longrightarrow> ls_workers ?s3 j = ls_workers s j"
    using s2 assms(6) by (auto simp add: on_worker_def [of i _ ?s2] serve_def set_nx_def Let_def)
  have s4: "ls_now ?s4 = ls_now s" "rd_lock (ls_redis ?s4) = rd_lock (ls_redis s)" "lw_state (ls_workers ?s4 i) \<noteq> Lk_held"
      "lw_tick (ls_workers ?s4 i) = No_tick" "\<not> lw_stopped (ls_workers ?s4 i)"
      "lw_timer (ls_workers ?s4 i) = Some (ls_now s + acquire_interval_ms ttl)" "\<And>j. j \<noteq> i \<Longrightarrow> ls_workers ?s4 j = ls_workers s j"
    using s3 by (simp_all add: on_worker_def [of i _ ?s3] reply_def try_acquire_def schedule_def log_line_def Let_def)
  have steps: "lock_step ids ttl s (Fire i) ?s2" "lock_step ids ttl ?s2 (Serve i) ?s3" "lock_step ids ttl ?s3 (Reply i) ?s4"
    by (rule lock_step.fires [of _ _ t] lock_step.serves [of _ _ ?v] lock_step.replies [of _ _ False ?v];
        use assms s2 s3 in simp)+
  show thesis
    by (rule that [OF lock_run.cons [OF steps(1) lock_run.cons [OF steps(2) lock_run.cons [OF steps(3) lock_run.nil]]] s4])
qed

lemma lease_live:
  assumes "reachable ids ttl s" and "inj ids" and "lw_consuming (ls_workers s j)" and "ls_now s < rd_lease (ls_redis s) j"
  shows "live (rd_lock (ls_redis s)) (ls_now s) = Some (lw_value (ls_workers s j))" "own_value (ids j) (lw_value (ls_workers s j))"
proof -
  have "lw_state (ls_workers s j) = Lk_held"
    using reachable_loop [OF assms(1), of j] assms(3) by (simp add: loop_inv_def)
  then show "live (rd_lock (ls_redis s)) (ls_now s) = Some (lw_value (ls_workers s j))" "own_value (ids j) (lw_value (ls_workers s j))"
    using reachable_inv [OF assms(1,2), unfolded lock_inv_def, rule_format, of j] assms(4)
    by (auto simp: worker_inv_def owns_def live_def)
qed

lemma lease_unique:
  assumes "reachable ids ttl s" and "inj ids"
    and "lw_consuming (ls_workers s i)" "ls_now s < rd_lease (ls_redis s) i"
    and "lw_consuming (ls_workers s j)" "ls_now s < rd_lease (ls_redis s) j"
  shows "i = j"
proof -
  have "own_value (ids j) (lw_value (ls_workers s i))"
    using lease_live [OF assms(1-4)] lease_live [OF assms(1,2,5,6)] by simp
  then have "ids j = ids i" using lease_live [OF assms(1-4)] own_value_distinct by blast
  then show ?thesis using assms(2) by (auto dest: injD)
qed

section \<open>Runs without delays\<close>

text \<open>
  A run in which the workers of \<open>W\<close> act and none of them is slow: time does not pass while a tick of
  theirs is in flight, nor beyond the instant one of their timers is due. What is left to go wrong is
  a \<open>Fault\<close>.
\<close>

fun actor :: "lock_event \<Rightarrow> nat option" where
  "actor (Pass dt) = None"
| "actor (Fire i) = Some i"
| "actor (Serve i) = Some i"
| "actor (Reply i) = Some i"
| "actor (Fault i) = Some i"
| "actor (Stop i r) = Some i"

definition on_time :: "lock_system \<Rightarrow> int \<Rightarrow> nat \<Rightarrow> bool" where
  "on_time s dt i \<longleftrightarrow> lw_tick (ls_workers s i) = No_tick \<and>
     (case lw_timer (ls_workers s i) of None \<Rightarrow> True | Some t \<Rightarrow> ls_now s + dt \<le> t)"

inductive timely :: "(nat \<Rightarrow> lock_identity) \<Rightarrow> int \<Rightarrow> nat set \<Rightarrow> lock_system \<Rightarrow> lock_event list \<Rightarrow> lock_system \<Rightarrow> bool"
  for ids :: "nat \<Rightarrow> lock_identity" and ttl :: int and W :: "nat set" and s :: lock_system where
  timely_nil: "timely ids ttl W s [] s"
| timely_act: "timely ids ttl W s es s' \<Longrightarrow> lock_step ids ttl s' e s'' \<Longrightarrow> actor e = Some i \<Longrightarrow> i \<in> W \<Longrightarrow>
    timely ids ttl W s (es @ [e]) s''"
| timely_pass: "timely ids ttl W s es s' \<Longrightarrow> lock_step ids ttl s' (Pass dt) s'' \<Longrightarrow> \<forall>i\<in>W. on_time s' dt i \<Longrightarrow>
    timely ids ttl W s (es @ [Pass dt]) s''"

lemma timely_run: "timely ids ttl W s es s' \<Longrightarrow> lock_run ids ttl s es s'"
  by (induction rule: timely.induct) (auto intro!: lock_run_append)

lemma timely_acts:
  "lock_run ids ttl s' fs s'' \<Longrightarrow> timely ids ttl W s es s' \<Longrightarrow> \<forall>f\<in>set fs. \<exists>i\<in>W. actor f = Some i \<Longrightarrow>
    timely ids ttl W s (es @ fs) s''"
proof (induction arbitrary: es rule: lock_run.induct)
  case (cons s1 e s2 fs s3)
  then have "timely ids ttl W s (es @ [e]) s2" using timely_act by fastforce
  then show ?case using cons.IH [of "es @ [e]"] cons.prems(2) by simp
qed simp

text \<open>A worker that is never late and never loses a command renews before its lease is out.\<close>

definition punctual :: "int \<Rightarrow> int \<Rightarrow> int \<Rightarrow> lock_worker \<Rightarrow> bool" where
  "punctual ttl now lease p \<longleftrightarrow> lw_stopped p \<or> (case lw_tick p of
     No_tick \<Rightarrow> lw_state p = Lk_held \<longrightarrow> (\<exists>t. lw_timer p = Some t \<and> now \<le> t \<and> t < lease)
   | Sent_renew \<Rightarrow> now < lease
   | Got_renew ok \<Rightarrow> ok \<and> lease = now + ttl
   | Got_acquire v ok \<Rightarrow> ok \<longrightarrow> lease = now + ttl
   | Sent_acquire v \<Rightarrow> True)"

lemma renews_in_time: "100 < ttl \<Longrightarrow> renew_interval_ms ttl < ttl"
  by (simp add: renew_interval_ms_def)

lemma renew_interval_pos: "0 < renew_interval_ms ttl" "0 < acquire_interval_ms ttl"
  by (simp_all add: renew_interval_ms_def acquire_interval_ms_def)

lemma punctual_own_step:
  assumes "lock_step ids ttl s e s'" and "actor e = Some i" and "e \<noteq> Fault i" and "100 < ttl" and "lock_inv ids s"
    and "loop_inv ttl (ls_now s) (ls_workers s i)" and "punctual ttl (ls_now s) (rd_lease (ls_redis s) i) (ls_workers s i)"
  shows "punctual ttl (ls_now s') (rd_lease (ls_redis s') i) (ls_workers s' i)"
proof -
  have inv: "worker_inv (ids i) (ls_now s) (ls_redis s) (rd_lease (ls_redis s) i) (ls_workers s i)"
    using assms(5) by (simp add: lock_inv_def)
  note pos = renews_in_time [OF assms(4)] renew_interval_pos [of ttl]
  from assms(1) show ?thesis
  proof (cases rule: lock_step.cases)
    case (fires j t)
    then show ?thesis using assms(2,7) by (auto simp: on_worker_def fire_def tick_def punctual_def)
  next
    case (serves j v)
    then have j: "j = i" using assms(2) by simp
    show ?thesis
    proof (cases "lw_stopped (ls_workers s i)")
      case True
      then have "lw_stopped (ls_workers s' i)" unfolding serves(2) j
        by (simp add: on_worker_def serve_def Let_def split: prod.split in_flight.split)
      then show ?thesis by (simp add: punctual_def)
    next
      case False
      show ?thesis
      proof (cases "lw_tick (ls_workers s i)")
        case (Sent_acquire u)
        then show ?thesis unfolding serves(2) j
          by (cases "live (rd_lock (ls_redis s)) (ls_now s)") (simp_all add: on_worker_def serve_def set_nx_def punctual_def Let_def)
      next
        case Sent_renew
        then have "live (rd_lock (ls_redis s)) (ls_now s) = Some (lw_value (ls_workers s i))"
          using assms(6,7) inv False by (auto simp: punctual_def loop_inv_def worker_inv_def owns_def live_def)
        then show ?thesis using Sent_renew unfolding serves(2) j
          by (simp add: on_worker_def serve_def RENEW_LUA_def punctual_def Let_def)
      qed (use serves j in simp_all)
    qed
  next
    case (replies j ok v)
    then have j: "j = i" using assms(2) by simp
    show ?thesis
    proof (cases "lw_tick (ls_workers s i)")
      case (Got_acquire v ok)
      then show ?thesis using assms(6,7) pos unfolding replies(2) j
        by (cases ok) (auto simp: on_worker_def reply_def try_acquire_def punctual_def Let_def schedule_def loop_inv_def)
    next
      case (Got_renew ok)
      then show ?thesis using assms(6,7) pos unfolding replies(2) j
        by (cases "parse_identity (live (rd_contender (ls_redis s)) (ls_now s))")
          (auto simp: on_worker_def reply_def renew_def punctual_def Let_def schedule_def loop_inv_def)
    qed (use replies j in simp_all)
  next
    case (stops j reached)
    then show ?thesis using assms(2) by (auto simp: on_worker_def stop_lock_def punctual_def Let_def log_line_def)
  qed (use assms(2,3) in simp_all)
qed

lemma punctual_other_step:
  assumes "lock_step ids ttl s e s'" and "actor e = Some j" and "j \<noteq> i"
  shows "ls_now s' = ls_now s \<and> ls_workers s' i = ls_workers s i \<and> rd_lease (ls_redis s') i = rd_lease (ls_redis s) i"
  using assms(1)
proof (cases rule: lock_step.cases)
  case (serves k v)
  then show ?thesis using assms(2,3)
    by (auto simp: on_worker_def serve_def set_nx_def RENEW_LUA_def Let_def split: in_flight.splits)
next
  case (replies k ok v)
  then show ?thesis using assms(2,3)
    by (auto simp: on_worker_def reply_def try_acquire_def renew_def Let_def split: option.splits)
next
  case (stops k reached)
  then show ?thesis using assms(2,3) by (auto simp: on_worker_def stop_lock_def RELEASE_LUA_def Let_def)
qed (use assms(2,3) in \<open>auto simp: on_worker_def fire_def split: prod.splits\<close>)

lemma timely_punctual:
  assumes "timely ids ttl W (lock_start now) es s" and "inj ids" and "100 < ttl" and "i \<in> W"
  shows "Fault i \<notin> set es \<Longrightarrow> punctual ttl (ls_now s) (rd_lease (ls_redis s) i) (ls_workers s i)"
  using assms(1)
proof (induction rule: timely.induct)
  case timely_nil
  show ?case by (simp add: punctual_def lock_start_def new_worker_def)
next
  case (timely_act es s1 e s2 j)
  then have IH: "punctual ttl (ls_now s1) (rd_lease (ls_redis s1) i) (ls_workers s1 i)" and "e \<noteq> Fault i" by auto
  have "reachable ids ttl s1" using timely_run [OF timely_act.hyps(1)] by (auto simp: reachable_def)
  then show ?case
    using punctual_own_step [OF timely_act.hyps(2) _ \<open>e \<noteq> Fault i\<close> assms(3)] punctual_other_step [OF timely_act.hyps(2)]
      reachable_inv [OF _ assms(2)] reachable_loop IH timely_act.hyps(3) by (cases "j = i") fastforce+
next
  case (timely_pass es s1 dt s2)
  then have "punctual ttl (ls_now s1) (rd_lease (ls_redis s1) i) (ls_workers s1 i)" "on_time s1 dt i" using assms(4) by auto
  then show ?case using timely_pass.hyps(2) by (auto elim!: lock_stepE simp: punctual_def on_time_def)
qed

lemma timely_one_consumer:
  assumes "timely ids ttl W (lock_start now) es s" and "inj ids" and "100 < ttl" and "\<forall>k. Fault k \<notin> set es"
    and "i \<in> W" and "j \<in> W" and "lw_consuming (ls_workers s i)" and "lw_consuming (ls_workers s j)"
  shows "i = j"
proof -
  have r: "reachable ids ttl s" using timely_run [OF assms(1)] by (auto simp: reachable_def)
  have "ls_now s < rd_lease (ls_redis s) k" if "k \<in> W" "lw_consuming (ls_workers s k)" for k
    using timely_punctual [OF assms(1-3) that(1)] assms(3,4) reachable_loop [OF r, of k] that(2)
    by (auto simp: punctual_def loop_inv_def split: in_flight.splits)
  then show ?thesis using lease_unique [OF r assms(2)] assms(5-8) by blast
qed

text \<open>Two workers, the holder cut off: each pass goes to the next timer that is due.\<close>

definition split_state :: "int \<Rightarrow> lock_system \<Rightarrow> bool" where
  "split_state e s \<longleftrightarrow> (\<exists>v t0 t1. rd_lock (ls_redis s) = Some (v, e) \<and>
     lw_timer (ls_workers s 0) = Some t0 \<and> ls_now s \<le> t0 \<and> lw_timer (ls_workers s 1) = Some t1 \<and> ls_now s \<le> t1) \<and>
   lw_tick (ls_workers s 0) = No_tick \<and> \<not> lw_stopped (ls_workers s 0) \<and> lw_state (ls_workers s 0) = Lk_held \<and>
   lw_consuming (ls_workers s 0) \<and>
   lw_tick (ls_workers s 1) = No_tick \<and> \<not> lw_stopped (ls_workers s 1) \<and> lw_state (ls_workers s 1) \<noteq> Lk_held"

definition only_faults_0 :: "lock_event list \<Rightarrow> bool" where
  "only_faults_0 es \<longleftrightarrow> (\<forall>e\<in>set es. case e of Fault j \<Rightarrow> j = 0 | Stop j r \<Rightarrow> False | _ \<Rightarrow> True)"

definition due_at :: "nat \<Rightarrow> lock_system \<Rightarrow> int" where
  "due_at i s = (case lw_timer (ls_workers s i) of Some t \<Rightarrow> t | None \<Rightarrow> 0)"

lemma pass_to:
  assumes "timely ids ttl W s0 es s" and "ls_now s \<le> m" and "\<forall>i\<in>W. on_time s (m - ls_now s) i"
  shows "timely ids ttl W s0 (es @ [Pass (m - ls_now s)]) (s\<lparr>ls_now := m\<rparr>)"
proof -
  have "lock_step ids ttl s (Pass (m - ls_now s)) (s\<lparr>ls_now := ls_now s + (m - ls_now s)\<rparr>)"
    using assms(2) by (intro lock_step.pass) simp
  then show ?thesis using timely_pass [OF assms(1) _ assms(3)] by simp
qed

lemma split_progress:
  assumes "timely ids ttl {0, 1} s0 es s" and "split_state e s" and "only_faults_0 es"
  obtains (fault) es' s' where "timely ids ttl {0, 1} s0 es' s'" "split_state e s'" "only_faults_0 es'"
      "due_at 0 s \<le> due_at 1 s" "due_at 1 s' = due_at 1 s" "due_at 0 s < due_at 0 s'"
  | (refused) es' s' where "timely ids ttl {0, 1} s0 es' s'" "split_state e s'" "only_faults_0 es'"
      "due_at 1 s < e" "due_at 1 s < due_at 1 s'"
  | (split) es' s' where "timely ids ttl {0, 1} s0 es' s'" "only_faults_0 es'"
      "lw_consuming (ls_workers s' 0)" "lw_consuming (ls_workers s' 1)"
proof -
  obtain v t0 t1 where s: "rd_lock (ls_redis s) = Some (v, e)" "lw_timer (ls_workers s 0) = Some t0" "ls_now s \<le> t0"
    "lw_timer (ls_workers s 1) = Some t1" "ls_now s \<le> t1" using assms(2) by (auto simp: split_state_def)
  note st = assms(2)[unfolded split_state_def]
  let ?a = "acquire_interval_ms ttl"
  have a: "0 < ?a" by (rule renew_interval_pos)
  have acts: "only_faults_0 (es @ [Pass d] @ fs)" if "set fs \<subseteq> {Fire 0, Fault 0, Fire 1, Serve 1, Reply 1}" for d fs
    using assms(3) that by (fastforce simp: only_faults_0_def)
  show thesis
  proof (cases "t0 \<le> t1")
    case True
    let ?m = "s\<lparr>ls_now := t0\<rparr>"
    have m: "timely ids ttl {0, 1} s0 (es @ [Pass (t0 - ls_now s)]) ?m"
      by (rule pass_to [OF assms(1) s(3)]) (use s st True in \<open>simp add: on_time_def\<close>)
    obtain s' where s': "lock_run ids ttl ?m [Fire 0, Fault 0] s'" "ls_now s' = t0" "ls_redis s' = ls_redis s"
        "lw_state (ls_workers s' 0) = Lk_held" "lw_consuming (ls_workers s' 0)" "lw_tick (ls_workers s' 0) = No_tick"
        "\<not> lw_stopped (ls_workers s' 0)" "lw_timer (ls_workers s' 0) = Some (t0 + ?a)" "ls_workers s' 1 = ls_workers s 1"
      by (rule missed_renewal_run [of ?m 0 t0 ids ttl]) (use s st in simp_all)
    show thesis
    proof (rule fault)
      show "timely ids ttl {0, 1} s0 ((es @ [Pass (t0 - ls_now s)]) @ [Fire 0, Fault 0]) s'"
        by (rule timely_acts [OF s'(1) m]) simp
      show "split_state e s'" using s' s st True a by (simp add: split_state_def)
      show "only_faults_0 ((es @ [Pass (t0 - ls_now s)]) @ [Fire 0, Fault 0])" using acts [of "[Fire 0, Fault 0]"] by simp
    qed (use s s' True a in \<open>simp_all add: due_at_def\<close>)
  next
    case False
    let ?m = "s\<lparr>ls_now := t1\<rparr>"
    have m: "timely ids ttl {0, 1} s0 (es @ [Pass (t1 - ls_now s)]) ?m"
      by (rule pass_to [OF assms(1) s(5)]) (use s st False in \<open>simp add: on_time_def\<close>)
    have fs: "only_faults_0 ((es @ [Pass (t1 - ls_now s)]) @ [Fire 1, Serve 1, Reply 1])" using acts [of "[Fire 1, Serve 1, Reply 1]"] by simp
    show thesis
    proof (cases "t1 < e")
      case True
      obtain s' where s': "lock_run ids ttl ?m [Fire 1, Serve 1, Reply 1] s'" "ls_now s' = t1"
          "rd_lock (ls_redis s') = rd_lock (ls_redis s)" "lw_state (ls_workers s' 1) \<noteq> Lk_held" "lw_tick (ls_workers s' 1) = No_tick"
          "\<not> lw_stopped (ls_workers s' 1)" "lw_timer (ls_workers s' 1) = Some (t1 + ?a)" "ls_workers s' 0 = ls_workers s 0"
        by (rule refused_run [of ?m 1 t1 ids ttl]) (use s st True in \<open>simp_all add: live_def\<close>)
      show thesis
      proof (rule refused)
        show "timely ids ttl {0, 1} s0 ((es @ [Pass (t1 - ls_now s)]) @ [Fire 1, Serve 1, Reply 1]) s'"
          by (rule timely_acts [OF s'(1) m]) simp
        show "split_state e s'" using s' s st False a by (simp add: split_state_def)
      qed (use s s' True a fs in \<open>simp_all add: due_at_def\<close>)
    next
      case over: False
      obtain s' where s': "lock_run ids ttl ?m [Fire 1, Serve 1, Reply 1] s'" "lw_consuming (ls_workers s' 1)"
          "ls_workers s' 0 = ls_workers s 0"
        by (rule acquire_run [of ?m 1 t1 ids ttl]) (use s st over in \<open>simp_all add: live_def\<close>)
      show thesis
        by (rule split [OF timely_acts [OF s'(1) m] fs]) (use s' st in simp_all)
    qed
  qed
qed

lemma split_happens:
  "timely ids ttl {0, 1} s0 es s \<Longrightarrow> split_state e s \<Longrightarrow> only_faults_0 es \<Longrightarrow>
    \<exists>es' s'. timely ids ttl {0, 1} s0 es' s' \<and> only_faults_0 es' \<and> lw_consuming (ls_workers s' 0) \<and> lw_consuming (ls_workers s' 1)"
proof (induction s arbitrary: es
    rule: wf_induct_rule [OF wf_measures [of "[\<lambda>s. nat (e - due_at 1 s), \<lambda>s. nat (due_at 1 s - due_at 0 s + 1)]"]])
  case (1 s)
  from 1(2-4) show ?case
  proof (cases rule: split_progress)
    case (fault es' s')
    then show ?thesis by (intro 1(1) [of s' es']) (auto simp: nat_less_eq_zless)
  next
    case (refused es' s')
    then show ?thesis by (intro 1(1) [of s' es']) auto
  qed blast
qed

section \<open>What the lock promises\<close>

text \<open>
  C22. One consumer per lease: whatever the interleaving of ticks, lost replies, shutdowns and the
  clock, of two workers that consume the queues at the same time at most one is within the time to
  live of its last accepted \<open>SET\<close> or renewal, and the value of that one is in the lock key.
\<close>

theorem consumers_hold_leases:
  assumes "reachable ids ttl s" and "inj ids" and "lw_consuming (ls_workers s i)" and "ls_now s < rd_lease (ls_redis s) i"
  shows "live (rd_lock (ls_redis s)) (ls_now s) = Some (lw_value (ls_workers s i)) \<and>
    (\<forall>j. j \<noteq> i \<and> lw_consuming (ls_workers s j) \<longrightarrow> rd_lease (ls_redis s) j \<le> ls_now s)"
proof -
  have "rd_lease (ls_redis s) j \<le> ls_now s" if "j \<noteq> i" "lw_consuming (ls_workers s j)" for j
    using lease_unique [OF assms(1-4), of j] that by force
  then show ?thesis using lease_live [OF assms] by blast
qed

text \<open>
  C23. Takeover is bounded: a running worker that waits for the lock has its next attempt armed at most
  two seconds ahead, and when the lock has expired or was released by then, that attempt - nobody else
  getting in first - takes the lock and starts consuming.
\<close>

theorem takeover_is_bounded:
  assumes "reachable ids ttl s" and "\<not> lw_stopped (ls_workers s i)" and "lw_state (ls_workers s i) \<noteq> Lk_held"
    and "lw_tick (ls_workers s i) = No_tick"
  shows "\<exists>t. lw_timer (ls_workers s i) = Some t \<and> t \<le> ls_now s + 2000 \<and>
    (live (rd_lock (ls_redis s)) (max t (ls_now s)) = None \<longrightarrow>
      (\<exists>s'. lock_run ids ttl s [Pass (max t (ls_now s) - ls_now s), Fire i, Serve i, Reply i] s' \<and>
         lw_state (ls_workers s' i) = Lk_held \<and> lw_consuming (ls_workers s' i) \<and> ls_now s' = max t (ls_now s)))"
proof -
  obtain t where t: "lw_timer (ls_workers s i) = Some t" "t \<le> ls_now s + acquire_interval_ms ttl"
    using reachable_loop [OF assms(1), of i] assms(2-4) by (auto simp: loop_inv_def)
  define m where "m = max t (ls_now s)"
  have "\<exists>s'. lock_run ids ttl s [Pass (m - ls_now s), Fire i, Serve i, Reply i] s' \<and>
      lw_state (ls_workers s' i) = Lk_held \<and> lw_consuming (ls_workers s' i) \<and> ls_now s' = m"
    if free: "live (rd_lock (ls_redis s)) m = None"
  proof -
    let ?s1 = "s\<lparr>ls_now := ls_now s + (m - ls_now s)\<rparr>"
    have pass: "lock_step ids ttl s (Pass (m - ls_now s)) ?s1" by (rule lock_step.pass) (simp add: m_def)
    obtain s' where "lock_run ids ttl ?s1 [Fire i, Serve i, Reply i] s'" "ls_now s' = ls_now ?s1"
        "lw_state (ls_workers s' i) = Lk_held" "lw_consuming (ls_workers s' i)"
      by (rule acquire_run [of ?s1 i t]) (use t assms free in \<open>simp_all add: m_def\<close>)
    with lock_run.cons [OF pass] show ?thesis by fastforce
  qed
  moreover have "t \<le> ls_now s + 2000" using t(2) by (simp add: acquire_interval_ms_def)
  ultimately show ?thesis using t(1) unfolding m_def by (intro exI [of _ t] conjI impI)
qed

text \<open>
  C24. A partition lets two workers consume. A tick that cannot reach Redis changes neither Redis nor
  the state, the value or the consumption of its worker, and only re-arms its timer. So when every
  command of the holder is lost, another worker takes the lock once the lease has run out and both
  consume the same queues, whatever the time to live - in a run where no timer fires late and no reply
  is awaited for any time. And the faults are what it takes: in such a run without one, with a time to
  live of more than 100 ms, no two workers ever consume at the same time.
\<close>

theorem partition_gives_two_consumers:
  "(\<forall>s i s'. lock_step ids ttl s (Fault i) s' \<longrightarrow> ls_redis s' = ls_redis s \<and>
      lw_state (ls_workers s' i) = lw_state (ls_workers s i) \<and> lw_value (ls_workers s' i) = lw_value (ls_workers s i) \<and>
      lw_consuming (ls_workers s' i) = lw_consuming (ls_workers s i) \<and>
      (\<not> lw_stopped (ls_workers s i) \<longrightarrow> lw_timer (ls_workers s' i) = Some (ls_now s + acquire_interval_ms ttl))) \<and>
   (\<exists>es s. timely ids ttl {0, 1} (lock_start 0) es s \<and> only_faults_0 es \<and>
      lw_consuming (ls_workers s 0) \<and> lw_consuming (ls_workers s 1)) \<and>
   (inj ids \<and> 100 < ttl \<longrightarrow> (\<forall>W es s i j. timely ids ttl W (lock_start 0) es s \<and> (\<forall>k. Fault k \<notin> set es) \<and> i \<in> W \<and> j \<in> W \<and>
      lw_consuming (ls_workers s i) \<and> lw_consuming (ls_workers s j) \<longrightarrow> i = j))"
proof (intro conjI)
  have start: "ls_workers (lock_start 0) j = new_worker 0" "ls_now (lock_start 0) = 0" "rd_lock (ls_redis (lock_start 0)) = None" for j
    by (simp_all add: lock_start_def)
  obtain a where a: "lock_run ids ttl (lock_start 0) [Fire 0, Serve 0, Reply 0] a" "ls_now a = 0"
      "lw_state (ls_workers a 0) = Lk_held" "lw_consuming (ls_workers a 0)" "lw_tick (ls_workers a 0) = No_tick"
      "\<not> lw_stopped (ls_workers a 0)" "lw_timer (ls_workers a 0) = Some (renew_interval_ms ttl)"
      "rd_lock (ls_redis a) = Some (build_identity (ids 0) 0, ttl)" "ls_workers a 1 = new_worker 0"
    by (rule acquire_run [of "lock_start 0" 0 0 ids ttl]) (simp_all add: start new_worker_def live_def)
  have "timely ids ttl {0, 1} (lock_start 0) ([] @ [Fire 0, Serve 0, Reply 0]) a" by (rule timely_acts [OF a(1) timely_nil]) simp
  moreover have "split_state ttl a" using a renew_interval_pos(1) [of ttl] by (simp add: split_state_def new_worker_def)
  ultimately show "\<exists>es s. timely ids ttl {0, 1} (lock_start 0) es s \<and> only_faults_0 es \<and>
      lw_consuming (ls_workers s 0) \<and> lw_consuming (ls_workers s 1)"
    by (rule split_happens) (simp add: only_faults_0_def)
  show "\<forall>s i s'. lock_step ids ttl s (Fault i) s' \<longrightarrow> ls_redis s' = ls_redis s \<and>
      lw_state (ls_workers s' i) = lw_state (ls_workers s i) \<and> lw_value (ls_workers s' i) = lw_value (ls_workers s i) \<and>
      lw_consuming (ls_workers s' i) = lw_consuming (ls_workers s i) \<and>
      (\<not> lw_stopped (ls_workers s i) \<longrightarrow> lw_timer (ls_workers s' i) = Some (ls_now s + acquire_interval_ms ttl))"
    by (auto elim!: lock_stepE simp: on_worker_def tick_failed_def) (simp add: schedule_def)
qed (use timely_one_consumer in blast)

section \<open>The theorems on two workers\<close>

definition two_workers :: "nat \<Rightarrow> lock_identity" where
  "two_workers i = \<lparr>li_mode = ''dev'', li_pid = int i, li_hostname = ''host''\<rparr>"

lemma two_workers_inj: "inj two_workers"
  by (rule injI) (simp add: two_workers_def)

theorem partition_gives_two_consumers_witness:
  "\<exists>es s. timely two_workers 15000 {0, 1} (lock_start 0) es s \<and> Fault 0 \<in> set es \<and>
     lw_consuming (ls_workers s 0) \<and> lw_consuming (ls_workers s 1)"
proof -
  note split = partition_gives_two_consumers [of two_workers 15000]
  obtain es s where s: "timely two_workers 15000 {0, 1} (lock_start 0) es s" "only_faults_0 es"
      "lw_consuming (ls_workers s 0)" "lw_consuming (ls_workers s 1)"
    using split by blast
  have "(0::nat) = 1" if "\<forall>k. Fault k \<notin> set es"
    using split [THEN conjunct2, THEN conjunct2, rule_format, of "{0, 1}" es s 0 1] two_workers_inj that s by simp
  then have "Fault 0 \<in> set es" using s(2) by (fastforce simp: only_faults_0_def)
  then show ?thesis using s by blast
qed

theorem takeover_is_bounded_witness:
  "\<exists>t. lw_timer (ls_workers (lock_start 5) 0) = Some t \<and> t \<le> 5 + 2000 \<and>
    (\<exists>s'. lock_run two_workers 15000 (lock_start 5) [Pass (max t 5 - 5), Fire 0, Serve 0, Reply 0] s' \<and>
       lw_state (ls_workers s' 0) = Lk_held \<and> lw_consuming (ls_workers s' 0) \<and> ls_now s' = max t 5)"
proof -
  have "reachable two_workers 15000 (lock_start 5)" unfolding reachable_def by (blast intro: lock_run.nil)
  from takeover_is_bounded [OF this, of 0] show ?thesis
    by (simp add: lock_start_def new_worker_def live_def)
qed

theorem consumers_hold_leases_witness:
  "\<exists>s :: lock_system. lw_consuming (ls_workers s 0) \<and> live (rd_lock (ls_redis s)) 0 = Some (lw_value (ls_workers s 0)) \<and>
    (\<forall>j. j \<noteq> 0 \<and> lw_consuming (ls_workers s j) \<longrightarrow> rd_lease (ls_redis s) j \<le> 0)"
proof -
  let ?s2 = "on_worker 0 (fire (two_workers 0)) (lock_start 0)"
  let ?s3 = "on_worker 0 (serve 0 15000) ?s2"
  let ?s4 = "on_worker 0 (reply (two_workers 0) 15000) ?s3"
  have steps: "lock_step two_workers 15000 (lock_start 0) (Fire 0) ?s2"
      "lock_step two_workers 15000 ?s2 (Serve 0) ?s3" "lock_step two_workers 15000 ?s3 (Reply 0) ?s4"
    by (rule lock_step.fires [of _ _ 0] lock_step.serves [of _ _ "build_identity (two_workers 0) 0"]
          lock_step.replies [of _ _ True "build_identity (two_workers 0) 0"];
        simp add: lock_defs lock_start_def new_worker_def live_def)+
  define s where "s = ?s4"
  have run: "reachable two_workers 15000 s" unfolding reachable_def s_def
    using lock_run.cons [OF steps(1) lock_run.cons [OF steps(2) lock_run.cons [OF steps(3) lock_run.nil]]] by blast
  have s: "lw_consuming (ls_workers s 0)" "ls_now s = 0" "rd_lease (ls_redis s) 0 = 15000"
    by (simp_all add: s_def lock_defs lock_start_def new_worker_def live_def)
  have "ls_now s < rd_lease (ls_redis s) 0" using s by simp
  note holds = consumers_hold_leases [OF run two_workers_inj s(1) this, unfolded s(2)]
  show ?thesis by (rule exI [of _ s]) (use holds s(1) in blast)
qed

section \<open>Starting and pausing the queue workers\<close>

text \<open>A BullMQ worker through the five members the bootstrap uses; BullMQ itself is a parameter.\<close>

record 'b bull =
  bl_paused :: "'b \<Rightarrow> bool"
  bl_running :: "'b \<Rightarrow> bool"
  bl_resume :: "'b \<Rightarrow> 'b"
  bl_run :: "'b \<Rightarrow> 'b"
  bl_pause :: "'b \<Rightarrow> 'b"

definition resume_worker :: "'b bull \<Rightarrow> 'b \<Rightarrow> 'b" where
  "resume_worker ops b = (if bl_paused ops b then bl_resume ops b else if \<not> bl_running ops b then bl_run ops b else b)"

definition resume_all :: "'b bull \<Rightarrow> 'b list \<Rightarrow> 'b list" where
  "resume_all ops ws = map (resume_worker ops) ws"

definition pause_all :: "'b bull \<Rightarrow> 'b list \<Rightarrow> 'b list" where
  "pause_all ops ws = map (bl_pause ops) ws"

text \<open>
  Documented behaviour: \<open>resume\<close> clears the flag and restarts a main loop that has exited; \<open>run\<close>
  starts the loop of a worker that is not paused and silently returns on one that is.
\<close>

definition bull_documented :: "'b bull \<Rightarrow> bool" where
  "bull_documented ops \<longleftrightarrow> (\<forall>b. \<not> bl_paused ops (bl_resume ops b) \<and> bl_running ops (bl_resume ops b)) \<and>
     (\<forall>b. \<not> bl_paused ops b \<longrightarrow> \<not> bl_paused ops (bl_run ops b) \<and> bl_running ops (bl_run ops b)) \<and>
     (\<forall>b. bl_paused ops b \<longrightarrow> bl_run ops b = b)"

text \<open>
  Every worker consumes after the lock is taken, whatever state the loss of an earlier lock left it
  in - paused with its main loop gone included, the state in which \<open>run\<close> alone does nothing.
\<close>

theorem resume_reaches_every_worker:
  assumes "bull_documented ops"
  shows "\<forall>b\<in>set (resume_all ops ws). bl_running ops b \<and> \<not> bl_paused ops b"
  using assms by (auto simp: resume_all_def resume_worker_def bull_documented_def)

definition flag_bull :: "(bool \<times> bool) bull" where
  "flag_bull = \<lparr>bl_paused = fst, bl_running = snd, bl_resume = (\<lambda>_. (False, True)),
     bl_run = (\<lambda>b. if fst b then b else (False, True)), bl_pause = (\<lambda>b. (True, False))\<rparr>"

theorem resume_reaches_every_worker_witness:
  "bull_documented flag_bull \<and> (\<forall>b\<in>set (resume_all flag_bull (pause_all flag_bull [(False, True), (False, False)])). snd b \<and> \<not> fst b)"
proof -
  have "bull_documented flag_bull" by (simp add: bull_documented_def flag_bull_def)
  moreover have "bl_running flag_bull = snd" "bl_paused flag_bull = fst" by (simp_all add: flag_bull_def)
  ultimately show ?thesis
    using resume_reaches_every_worker [of flag_bull "pause_all flag_bull [(False, True), (False, False)]"] by metis
qed

end
