(* ===== verification/Spec2Isabelle.thy ===== *)
theory Spec2Isabelle
  imports AgentKeys BashGuard ConfigSafety CycleOrder ExecutorRun HomeApi HumanTasks JsonText Metrics RateLimiter Release Resume
    Scrubber SetupApply System Worker WorkerLock
begin

text \<open>
  \<^bold>\<open>Brigadir: a verification development.\<close> Brigadir is a NestJS system that lets coding agents work on Jira
  tickets. A backend polls Jira, keeps workspaces, agents, tickets, runs and human tasks in Postgres, and
  enqueues jobs in BullMQ; a worker takes a job, prepares worktrees of the ticket's repositories, runs the
  agent's command-line process in them and finalizes the run; the agent talks back over an MCP tool server
  whose calls reach the backend's callback API; a pipeline moves the ticket on, releases what waited for it,
  routes failures to an orchestrator agent or to a person; watchdogs and reconcilers repair what was lost; a
  dashboard API shows and steers all of it. The theories follow the source file by file; each opens with what
  it holds, and the names are the source's in snake case.

  \<^bold>\<open>How code becomes definitions.\<close> A table row is a record with a two-letter prefix (\<open>run\<close>: \<open>r_\<close>, \<open>ticket\<close>:
  \<open>t_\<close>, \<open>agent\<close>: \<open>a_\<close>, \<open>human_task\<close>: \<open>h_\<close>, ...), the database is the record \<open>world\<close> of row lists, and an
  async function is an action of the state-and-error monad of \<open>Prelude\<close>: a thrown exception is \<open>Inl\<close>, and the
  state it leaves is the state at the throw, except inside \<open>transaction\<close>. A guarded \<open>UPDATE ... WHERE ...
  RETURNING\<close> is \<open>update_run\<close> with its guard; the partial unique indexes are \<open>index_clash\<close>, checked by every
  write of a run. JSON values are the datatype \<open>json\<close> and each zod schema is a decoder. Money and the token
  bucket are exact rationals, times are integers in milliseconds, ids are natural numbers printed by a
  parameter. Strings are character lists; an em dash is written \<open>-\<close>, an ellipsis is the character 0x85, and
  dictionaries are maps or association lists in insertion order.

  \<^bold>\<open>What is outside.\<close> Jira and Redis are the record \<open>env\<close>: each answer is an arbitrary function of the calls
  made so far, so every deterministic service, failures included, is covered. Git and the file system are an
  arbitrary \<open>host\<close>, the worker machine an arbitrary \<open>machine\<close>, HMAC and SHA-256 are functions, Postgres' order
  among ties is an arbitrary sorting function, the executor seen by the job processor is an arbitrary action.
  No law is assumed of any of them except where a theorem names it.

  \<^bold>\<open>The parts.\<close>

  \<^item> \<^bold>\<open>Foundations\<close>: \<open>Prelude\<close> (the monad, its evaluation rules \<open>act_simps\<close>, the calculus of relations \<open>steps\<close>
    with \<open>steps_intros\<close> and the locale \<open>state_relation\<close>), \<open>Json\<close>, \<open>JsonText\<close> (JSON.parse and stringify, inverse to
    each other), \<open>JsValues\<close> (numbers, trimming, sorting), \<open>World\<close> (libs/database), \<open>Invariants\<close> (the locales
    \<open>base_relation\<close>, \<open>insert_relation\<close>, \<open>world_relation\<close>: what a relation on databases must tolerate for every
    operation to respect it; interpreted by well-formedness, run history, append-only logs, no revival),
    \<open>Samples\<close> (the concrete database of the witnesses).
  \<^item> \<^bold>\<open>Contracts\<close>: \<open>Report\<close> (report.schema.ts), \<open>TriggerEvents\<close>, \<open>AgentKeys\<close> (agent-key.ts, agent-linter.ts),
    \<open>RunToken\<close> (the per-run JWT), \<open>Scrubber\<close> (the secret patterns as backtracking matchers).
  \<^item> \<^bold>\<open>Run life cycle\<close>: \<open>Runs\<close> (libs/runs), \<open>DependencyGate\<close>, \<open>CycleOrder\<close> and \<open>Release\<close>
    (dependency-release.service.ts), \<open>Pipeline\<close> (pipeline.service.ts), \<open>HumanTasks\<close>, \<open>Resume\<close>, \<open>Handoff\<close>,
    \<open>SetupApply\<close>, \<open>Ingest\<close> (watchdog, poller, drift repair, reconcile).
  \<^item> \<^bold>\<open>Agent channel\<close>: \<open>Callback\<close> (libs/callback), \<open>Outbox\<close> (packages/mcp-server), \<open>Reconcile\<close>
    (outbox-reconcile.service.ts), \<open>BashGuard\<close> (the PreToolUse hook).
  \<^item> \<^bold>\<open>Worker\<close>: \<open>Worker\<close> (the job processors), \<open>ExecutorGate\<close>, \<open>WorkerLock\<close>, \<open>ArtifactGuard\<close>, \<open>RateLimiter\<close>
    (libs/jira), \<open>RepoScope\<close>, \<open>PriorWork\<close>, \<open>Worktree\<close>, \<open>RunEnv\<close>, \<open>Wrapper\<close>, \<open>FeatureContext\<close>, \<open>StreamParser\<close>,
    \<open>CliProcess\<close> and \<open>ExecutorRun\<close>, which composes these nine into \<open>ClaudeCliExecutor.run\<close>.
  \<^item> \<^bold>\<open>Dashboard\<close>: \<open>RunsApi\<close>, \<open>HomeApi\<close>, \<open>Metrics\<close>; of its configuration, \<open>ConfigApi\<close> (the settings and
    secrets endpoints of workspaces.controller.ts) and \<open>AgentsApi\<close> (agents.controller.ts) over the record \<open>console\<close>,
    which adds to the database the columns the rest leaves out; \<open>EnvHomes\<close> and \<open>ConfigSafety\<close> hold their invariants
    and the step relation \<open>config_step\<close> of all these requests.
  \<^item> \<^bold>\<open>The whole\<close>: \<open>System\<close> closes the entry points that write runs and what belongs to them - triggers,
    completions, resumes, job pickups, sweeps, release passes, cancels and retries, in any order - into one step
    relation \<open>sys_step\<close>; each entry point is one step, its statements run without another handler in between. The
    writes of agents, settings and secrets are not among them; they are the steps of \<open>config_step\<close>.

  \<^bold>\<open>What is shown.\<close> Across the system: from any well-formed database every reachable one is well-formed, with at
  most one active run per ticket and per workspace setup (\<open>one_active_run_per_slot\<close>); a run that has ended is
  only ever changed by the one rescue the code allows, so its verdict stands (\<open>settled_verdict_stands\<close>); and
  every statement of the program is a step, or none, of an abstract ledger that knows of a run only its slot
  and its phase (\<open>program_refines_ledger\<close>). Per component: the
  functional behaviour of the operations on every branch, the guards, error paths with what they leave
  unchanged, round trips of tokens, reports and the outbox, equivalence of optimised routines with plain
  specifications (start plans, child environments, the pivots of the metrics), termination of the unbounded
  searches and retries, bounds of what is rendered or shown, and liveness (stale runs are reaped, lost
  completions are rescued, a killed process settles). Of the executor: a run that returns
  has told git to remove its worktrees and has removed its directory once and last, or means to keep them (a run
  that throws can leave them: \<open>failed_removal_leaks_workspace\<close>), no agent starts before the checks of its
  repositories, and an abort is never a crash. Of the configuration: one home per key and distinct triggers, for
  requests of the form that \<open>config_step\<close> asks for, each condition with the counterexample that needs it. Where the code does not do what it means to, the theorem states what it does; such theorems carry
  the findings of the manifest.

  \<^bold>\<open>Fuel and termination.\<close> Recursion is structural or has a measure. The search for a free agent key is a
  \<open>partial_function\<close> proved total. The retry loop of the rate limiter and the life of a process are step
  functions over arbitrary event sequences, so nothing is assumed to end; that it does is a theorem where it
  is one.

  \<^bold>\<open>Idealisations.\<close> A handler is atomic with respect to other handlers; where the interleaving matters - the
  worker lock, the rate limiter, the agent's process, the tool server against the sweeps - the component is a
  machine over events instead. The database itself does not fail except by its unique indexes and,
  in \<open>AgentsApi\<close>, the foreign keys and ids of an agent's row: an insert of a run, an event or a task never fails
  for a row it refers to. BullMQ's deduplication of jobs is recorded (\<open>j_dedup\<close>) and not applied: the queue may
  hold more jobs than BullMQ would. Numbers are exact rationals; a numeral beyond the range of a double is the
  infinity it is in JavaScript, and other rounding is left out. Uuids are numbers: their canonical text is
  \<open>show_nat\<close>, and digits with leading zeros stand for the other texts Postgres accepts for the same id
  (\<open>id_of_text\<close>). One clock
  serves database and backend; it does not go back in the limiter, and lock TTLs are whole milliseconds.
  Names of \<open>Object.prototype\<close> as keys of plain objects (modelled where the configuration tests membership with
  \<open>in\<close>), the order of integer-like keys, and code points outside
  Latin-1 are out of scope. \<open>localeCompare\<close> is a parameter. Log lines are not state.

  \<^bold>\<open>Not modelled\<close>, with the reasons in the manifest: the web UI, the creation, verification and
  credential rotation of workspaces, the editing of executors, the admin MCP server, Jira's HTTP client and the rendering of its document
  format, the role-template repository, boot and seeding, AES-GCM of the credentials codec, and the signals
  of a process group.
\<close>

end
